(* ===== verification/Prelude.thy ===== *)
theory Prelude
  imports
    Main
    "HOL-Library.Char_ord"
    "HOL-Library.List_Lexorder"
    "HOL-Library.Product_Lexorder"
    "HOL-Library.AList"
    "HOL-Library.Multiset"
begin

text \<open>
  Shared ground of the development: the lemma collections, Go's error values, Go's maps and
  slices as lists, and the generic facts about lists that several components use.

  A Go \<open>string\<close> is a \<open>char list\<close>, one \<open>char\<close> per byte; \<open>List_Lexorder\<close> gives it
  the byte-wise order that Go's \<open><\<close> has. A Go \<open>int\<close> is an \<open>int\<close>; where the code parses
  one from text the 64-bit range is checked. A Go \<open>map\<close> is an association list that is only
  written through \<open>AList.update\<close> and \<open>AList.delete\<close>; the code never depends on the order
  in which a map is ranged over except through an explicit sort.
\<close>

named_theorems go_simps \<open>unfolding rules of the Go string and number primitives\<close>
named_theorems model_defs \<open>definitions of the model that proofs unfold together\<close>
named_theorems inv_intros \<open>preservation lemmas of the component invariants\<close>

section \<open>Errors\<close>

text \<open>
  Package-level error variables are \<open>sentinel\<close>s, so that \<open>errors.Is\<close> is a structural test.
  \<open>Errorf\<close> is an error built from text alone; \<open>Wrap p e s\<close> is \<open>fmt.Errorf\<close> with one
  \<open>%w\<close>: the text before it, the wrapped error, the text after it.
\<close>

datatype sentinel =
    ErrNotImplemented
  | ErrServerNotFound
  | ErrUnknownHost
  | ErrPackageNotFound
  | ErrRateLimited
  | ErrRoleExists
  | ErrRoleNotFound
  | ErrNoAccount
  | ErrRequestNotPending
  | ErrNotExist
  | ErrNoStateStore
  | ErrAboveCeiling
  | ErrInvalidMinecraftUsername
  | ErrValheimPasswordTooShort
  | ErrValheimPasswordInName
  | ErrStaleSnapshot
  | ErrNotPublished
  | ErrImportTooLarge
  | ErrNoMatchingConfig
  | ErrRestricted

datatype goerr = Errorf string | Sentinel sentinel | Wrap string goerr string

fun sentinel_text :: "sentinel \<Rightarrow> string" where
  "sentinel_text ErrNotImplemented = ''not implemented by this runtime''"
| "sentinel_text ErrServerNotFound = ''server not found''"
| "sentinel_text ErrUnknownHost = ''no runtime, renderer or reconciler is registered for this host''"
| "sentinel_text ErrPackageNotFound = ''package not found''"
| "sentinel_text ErrRateLimited = ''upstream rate limited''"
| "sentinel_text ErrRoleExists = ''role already exists''"
| "sentinel_text ErrRoleNotFound = ''role not found''"
| "sentinel_text ErrNoAccount = ''account has never signed in''"
| "sentinel_text ErrRequestNotPending = ''request is already decided''"
| "sentinel_text ErrNotExist = ''file does not exist''"
| "sentinel_text ErrNoStateStore = ''declarative plane has no state store''"
| "sentinel_text ErrAboveCeiling = ''resources exceed the ceiling for this game''"
| "sentinel_text ErrInvalidMinecraftUsername =
     ''invalid minecraft username: must be 1-16 alphanumeric characters or underscores''"
| "sentinel_text ErrValheimPasswordTooShort =
     ''valheim requires a password of at least 5 characters''"
| "sentinel_text ErrValheimPasswordInName =
     ''valheim refuses a password that appears in the server or world name''"
| "sentinel_text ErrStaleSnapshot = ''the server rewrote this config while you were editing it''"
| "sentinel_text ErrNotPublished = ''no configs have been published for this world yet''"
| "sentinel_text ErrImportTooLarge = ''that config is too large to import''"
| "sentinel_text ErrNoMatchingConfig = ''could not tell which mod that config belongs to''"
| "sentinel_text ErrRestricted =
     ''this mod'' @ [CHR 0x27] @ ''s author does not allow third-party downloads, so it cannot be installed automatically''"

primrec err_text :: "goerr \<Rightarrow> string" where
  "err_text (Errorf t) = t"
| "err_text (Sentinel s) = sentinel_text s"
| "err_text (Wrap p e s) = p @ err_text e @ s"

primrec errors_is :: "goerr \<Rightarrow> sentinel \<Rightarrow> bool" where
  "errors_is (Errorf t) s = False"
| "errors_is (Sentinel u) s = (u = s)"
| "errors_is (Wrap p e q) s = errors_is e s"

section \<open>Results\<close>

text \<open>
  A fallible call returns \<open>Inl e\<close> or \<open>Inr v\<close>. A function that can panic returns
  \<open>Panic msg\<close> or \<open>Val v\<close>, kept apart from ordinary errors because no caller handles it.
\<close>

datatype 'a outcome = Panic string | Val 'a

primrec bindv :: "'a outcome \<Rightarrow> ('a \<Rightarrow> 'b outcome) \<Rightarrow> 'b outcome" where
  "bindv (Panic m) f = Panic m"
| "bindv (Val x) f = f x"

definition is_val :: "'a outcome \<Rightarrow> bool" where
  "is_val r = (case r of Panic _ \<Rightarrow> False | Val _ \<Rightarrow> True)"

lemma is_val_simps [simp]: "is_val (Val x)" "\<not> is_val (Panic m)"
  by (simp_all add: is_val_def)

lemma bindv_Val_iff: "bindv r f = Val y \<longleftrightarrow> (\<exists>x. r = Val x \<and> f x = Val y)"
  by (cases r) auto

section \<open>Maps as association lists\<close>

definition mget :: "('k \<times> 'v) list \<Rightarrow> 'k \<Rightarrow> 'v \<Rightarrow> 'v" where
  \<comment> \<open>\<open>m[k]\<close> of a Go map: the zero value \<open>d\<close> when the key is absent\<close>
  "mget m k d = (case map_of m k of None \<Rightarrow> d | Some v \<Rightarrow> v)"

lemma mget_update: "mget (AList.update k v m) j d = (if j = k then v else mget m j d)"
  by (simp add: mget_def update_conv')

lemma map_of_update: "map_of (AList.update k v m) j = (if j = k then Some v else map_of m j)"
  by (simp add: update_conv')

lemma map_of_delete: "map_of (AList.delete k m) j = (if j = k then None else map_of m j)"
  by (simp add: delete_conv')

lemma distinct_update_keys:
  "distinct (map fst m) \<Longrightarrow> distinct (map fst (AList.update k v m))"
  by (rule distinct_update)

lemma distinct_delete_keys:
  "distinct (map fst m) \<Longrightarrow> distinct (map fst (AList.delete k m))"
  by (rule distinct_delete)

lemma set_delete_subset: "set (AList.delete k m) \<subseteq> set m"
  by (auto simp: AList.delete_eq)

lemma set_update_subset: "set (AList.update k v m) \<subseteq> insert (k, v) (set m)"
  by (induction m) auto

lemma find_None_iff_Ball: "find P xs = None \<longleftrightarrow> (\<forall>x\<in>set xs. \<not> P x)"
  by (auto simp: find_None_iff)

section \<open>Lists sorted by a key\<close>

text \<open>
  Two lists of pairs with distinct keys that denote the same map have the same sorted image:
  the fact that makes a sort after ranging over a map independent of the ranging order.
\<close>

lemma sort_key_unique:
  assumes "mset xs = mset ys" and "inj_on f (set xs)"
  shows "sort_key f xs = sort_key f ys"
proof (rule properties_for_sort_key [symmetric])
  show "mset (sort_key f xs) = mset ys" using assms(1) by simp
next
  fix k assume k: "k \<in> set (sort_key f xs)"
  have one: "filter (\<lambda>x. f k = f x) zs = replicate (count (mset zs) k) k"
    if "set zs = set xs" for zs
  proof -
    have "filter (\<lambda>x. f k = f x) zs = filter ((=) k) zs"
      using k assms(2) that by (intro filter_cong) (auto dest: inj_onD)
    then show ?thesis by (simp add: replicate_count_mset_eq_filter_eq)
  qed
  have "set ys = set xs" using assms(1) by (metis set_mset_mset)
  then show "filter (\<lambda>x. f k = f x) (sort_key f xs) = filter (\<lambda>x. f k = f x) ys"
    using one [of "sort_key f xs"] one [of ys] assms(1) by simp
next
  show "sorted (map f (sort_key f xs))" by simp
qed

lemma sort_key_map_of_cong:
  assumes "distinct (map fst m)" and "distinct (map fst n)" and "map_of m = map_of n"
    and "inj_on f (set m)"
  shows "sort_key f m = sort_key f n"
proof (rule sort_key_unique)
  have "set m = set n"
    using assms(1-3) by (metis map_of_eq_Some_iff subrelI subset_antisym)
  moreover have "distinct m" "distinct n"
    using assms(1,2) by (auto simp: distinct_map)
  ultimately show "mset m = mset n"
    by (simp add: set_eq_iff_mset_eq_distinct)
qed (rule assms(4))

end
