(* ===== verification/GoStrings.thy ===== *)
theory GoStrings
  imports Prelude
begin

text \<open>
  What the code uses of Go's \<open>strings\<close>, \<open>strconv\<close> and \<open>fmt\<close> packages, on byte strings.
  White space, letter case and quoting are those of ASCII; a byte above 127 is an ordinary
  character that has no case and is not white space.
\<close>

section \<open>Characters\<close>

definition chr :: "nat \<Rightarrow> char" where
  "chr n = char_of n"

definition code :: "char \<Rightarrow> nat" where
  "code c = of_char c"

definition NL :: char where "NL = CHR 0x0A"
definition CR :: char where "CR = CHR 0x0D"
definition TAB :: char where "TAB = CHR 0x09"
definition QUOTE :: char where "QUOTE = CHR 0x22"
definition BACKSLASH :: char where "BACKSLASH = CHR 0x5C"

definition is_space :: "char \<Rightarrow> bool" where
  "is_space c = (c \<in> set [CHR 0x09, CHR 0x0A, CHR 0x0B, CHR 0x0C, CHR 0x0D, CHR 0x20])"

definition is_digit :: "char \<Rightarrow> bool" where
  "is_digit c = (48 \<le> code c \<and> code c \<le> 57)"

definition is_lower :: "char \<Rightarrow> bool" where
  "is_lower c = (97 \<le> code c \<and> code c \<le> 122)"

definition is_upper :: "char \<Rightarrow> bool" where
  "is_upper c = (65 \<le> code c \<and> code c \<le> 90)"

definition lower_char :: "char \<Rightarrow> char" where
  "lower_char c = (if is_upper c then chr (code c + 32) else c)"

definition upper_char :: "char \<Rightarrow> char" where
  "upper_char c = (if is_lower c then chr (code c - 32) else c)"

lemma code_chr: "n < 256 \<Longrightarrow> code (chr n) = n"
  by (simp add: code_def chr_def)

lemma code_inj: "code a = code b \<longleftrightarrow> a = b"
  by (simp add: code_def)

lemma code_less: "code c < 256"
  by (simp add: code_def)

lemma char_eq_code: "c = d \<longleftrightarrow> code c = code d"
  by (simp add: code_inj)

lemma is_space_code: "is_space c \<longleftrightarrow> 9 \<le> code c \<and> code c \<le> 13 \<or> code c = 32"
  by (simp add: is_space_def char_eq_code [of c]) (simp add: code_def, arith)

lemma NL_space [simp]: "is_space NL"
  by (simp add: is_space_def NL_def)

lemma code_lower: "is_upper c \<Longrightarrow> code (chr (code c + 32)) = code c + 32"
  by (rule code_chr) (simp add: is_upper_def)

lemma lower_char_idem [simp]: "lower_char (lower_char c) = lower_char c"
  by (auto simp: lower_char_def is_upper_def code_lower)

lemma lower_char_id: "\<not> is_upper c \<Longrightarrow> lower_char c = c"
  by (simp add: lower_char_def)

lemma lower_char_not_upper [simp]: "\<not> is_upper (lower_char c)"
  by (auto simp: lower_char_def is_upper_def code_lower)

section \<open>Prefixes, suffixes, search\<close>

definition has_prefix :: "string \<Rightarrow> string \<Rightarrow> bool" where
  "has_prefix s p = (take (length p) s = p)"

definition has_suffix :: "string \<Rightarrow> string \<Rightarrow> bool" where
  "has_suffix s p = (length p \<le> length s \<and> drop (length s - length p) s = p)"

definition trim_prefix :: "string \<Rightarrow> string \<Rightarrow> string" where
  "trim_prefix s p = (if has_prefix s p then drop (length p) s else s)"

definition trim_suffix :: "string \<Rightarrow> string \<Rightarrow> string" where
  "trim_suffix s p = (if has_suffix s p then take (length s - length p) s else s)"

fun str_index :: "string \<Rightarrow> string \<Rightarrow> nat option" where
  "str_index [] p = (if p = [] then Some 0 else None)"
| "str_index (c # s) p =
     (if has_prefix (c # s) p then Some 0 else map_option Suc (str_index s p))"

fun str_last_index :: "string \<Rightarrow> string \<Rightarrow> nat option" where
  "str_last_index [] p = (if p = [] then Some 0 else None)"
| "str_last_index (c # s) p =
     (case str_last_index s p of
        Some i \<Rightarrow> Some (Suc i)
      | None \<Rightarrow> if has_prefix (c # s) p then Some 0 else None)"

definition contains :: "string \<Rightarrow> string \<Rightarrow> bool" where
  "contains s p = (str_index s p \<noteq> None)"

definition cut :: "string \<Rightarrow> string \<Rightarrow> string \<times> string \<times> bool" where
  "cut s sep =
     (case str_index s sep of
        None \<Rightarrow> (s, [], False)
      | Some i \<Rightarrow> (take i s, drop (i + length sep) s, True))"

lemma has_prefix_append [simp]: "has_prefix (p @ s) p"
  by (simp add: has_prefix_def)

lemma has_prefix_iff: "has_prefix s p \<longleftrightarrow> (\<exists>t. s = p @ t)"
  unfolding has_prefix_def by (metis append_eq_conv_conj append_take_drop_id)

lemma has_suffix_append [simp]: "has_suffix (s @ p) p"
  by (simp add: has_suffix_def)

lemma has_suffix_iff: "has_suffix s p \<longleftrightarrow> (\<exists>t. s = t @ p)"
  unfolding has_suffix_def
  by (metis append_take_drop_id diff_add_inverse2 le_add2 length_append append_eq_conv_conj)

lemma trim_prefix_append [simp]: "trim_prefix (p @ s) p = s"
  by (simp add: trim_prefix_def)

lemma trim_suffix_append [simp]: "trim_suffix (s @ p) p = s"
  by (simp add: trim_suffix_def)

lemma has_prefix_Cons_char: "has_prefix (c # s) [d] \<longleftrightarrow> c = d"
  by (auto simp: has_prefix_def)

lemma str_index_char_none: "c \<notin> set s \<Longrightarrow> str_index s [c] = None"
  by (induction s) (auto simp: has_prefix_def)

lemma str_index_char_some: "c \<notin> set s \<Longrightarrow> str_index (s @ c # t) [c] = Some (length s)"
  by (induction s) (auto simp: has_prefix_def)

lemma str_index_char_iff: "str_index s [c] = None \<longleftrightarrow> c \<notin> set s"
  by (induction s) (auto simp: has_prefix_def)

lemma cut_char_none: "c \<notin> set s \<Longrightarrow> cut s [c] = (s, [], False)"
  by (simp add: cut_def str_index_char_none)

lemma cut_char_some: "c \<notin> set s \<Longrightarrow> cut (s @ c # t) [c] = (s, t, True)"
  by (simp add: cut_def str_index_char_some)

lemma str_last_index_char_none: "c \<notin> set s \<Longrightarrow> str_last_index s [c] = None"
  by (induction s) (auto simp: has_prefix_def)

lemma str_last_index_char_some:
  "c \<notin> set t \<Longrightarrow> str_last_index (s @ c # t) [c] = Some (length s)"
  by (induction s) (auto simp: has_prefix_def str_last_index_char_none)

section \<open>Trimming and case\<close>

definition trim_left :: "(char \<Rightarrow> bool) \<Rightarrow> string \<Rightarrow> string" where
  "trim_left P s = dropWhile P s"

definition trim_right :: "(char \<Rightarrow> bool) \<Rightarrow> string \<Rightarrow> string" where
  "trim_right P s = rev (dropWhile P (rev s))"

definition trim_space :: "string \<Rightarrow> string" where
  "trim_space s = trim_right is_space (trim_left is_space s)"

definition to_lower :: "string \<Rightarrow> string" where
  "to_lower s = map lower_char s"

definition to_upper :: "string \<Rightarrow> string" where
  "to_upper s = map upper_char s"

definition equal_fold :: "string \<Rightarrow> string \<Rightarrow> bool" where
  "equal_fold s t = (to_lower s = to_lower t)"

lemma trim_right_idem [simp]: "trim_right P (trim_right P s) = trim_right P s"
  by (simp add: trim_right_def)

lemma trim_left_idem [simp]: "trim_left P (trim_left P s) = trim_left P s"
  by (simp add: trim_left_def)

text \<open>A string that neither starts nor ends with white space is its own trim.\<close>

definition trimmed :: "string \<Rightarrow> bool" where
  "trimmed s = (s = [] \<or> \<not> is_space (hd s) \<and> \<not> is_space (last s))"

lemma trim_left_hd: "trim_left P s = [] \<or> \<not> P (hd (trim_left P s))"
  unfolding trim_left_def by (metis hd_dropWhile)

lemma trim_right_last: "trim_right P s = [] \<or> \<not> P (last (trim_right P s))"
  unfolding trim_right_def by (metis hd_dropWhile last_rev rev_is_Nil_conv rev_rev_ident)

lemma trim_right_prefix: "\<exists>t. s = trim_right P s @ t"
proof -
  have "rev s = takeWhile P (rev s) @ dropWhile P (rev s)" by simp
  then have "s = rev (dropWhile P (rev s)) @ rev (takeWhile P (rev s))"
    by (metis rev_append rev_rev_ident)
  then show ?thesis by (auto simp: trim_right_def)
qed

lemma trim_right_keep: "s = [] \<or> \<not> P (last s) \<Longrightarrow> trim_right P s = s"
  by (cases s rule: rev_cases) (auto simp: trim_right_def)

lemma trim_left_keep: "s = [] \<or> \<not> P (hd s) \<Longrightarrow> trim_left P s = s"
  by (cases s) (auto simp: trim_left_def)

lemma trimmed_trim_space [simp]: "trimmed (trim_space s)"
proof -
  let ?l = "trim_left is_space s"
  obtain t where t: "?l = trim_right is_space ?l @ t"
    using trim_right_prefix by blast
  have "trim_right is_space ?l = [] \<or> hd (trim_right is_space ?l) = hd ?l"
    using t by (metis hd_append2)
  then show ?thesis
    using trim_left_hd [of is_space s] trim_right_last [of is_space ?l]
    by (auto simp: trimmed_def trim_space_def trim_right_def)
qed

lemma trim_space_trimmed [simp]: "trimmed s \<Longrightarrow> trim_space s = s"
  by (auto simp: trimmed_def trim_space_def trim_left_keep trim_right_keep)

lemma trim_space_idem [simp]: "trim_space (trim_space s) = trim_space s"
  by simp

lemma trim_space_Nil [simp]: "trim_space [] = []"
  by (simp add: trim_space_def trim_left_def trim_right_def)

lemma trim_space_subset: "set (trim_space s) \<subseteq> set s"
  unfolding trim_space_def trim_right_def trim_left_def
  by (metis set_dropWhileD set_rev subsetI)

lemma trim_space_snoc_space: "is_space c \<Longrightarrow> trim_space (s @ [c]) = trim_space s"
  by (cases "\<forall>x\<in>set s. is_space x")
    (auto simp: trim_space_def trim_left_def trim_right_def dropWhile_append dest: set_dropWhileD)

lemma trim_space_Cons_space: "is_space c \<Longrightarrow> trim_space (c # s) = trim_space s"
  by (simp add: trim_space_def trim_left_def)

lemma to_lower_idem [simp]: "to_lower (to_lower s) = to_lower s"
  by (simp add: to_lower_def)

lemma equal_fold_refl [simp]: "equal_fold s s"
  by (simp add: equal_fold_def)

lemma equal_fold_sym: "equal_fold s t = equal_fold t s"
  by (auto simp: equal_fold_def)

lemma to_lower_append [simp]: "to_lower (s @ t) = to_lower s @ to_lower t"
  by (simp add: to_lower_def)

lemma to_lower_Nil_iff [simp]: "to_lower s = [] \<longleftrightarrow> s = []"
  by (simp add: to_lower_def)

section \<open>Splitting and joining\<close>

fun split_on :: "char \<Rightarrow> string \<Rightarrow> string list" where
  "split_on c [] = [[]]"
| "split_on c (x # xs) =
     (if x = c then [] # split_on c xs
      else (case split_on c xs of [] \<Rightarrow> [[x]] | h # t \<Rightarrow> (x # h) # t))"

fun join :: "string \<Rightarrow> string list \<Rightarrow> string" where
  "join sep [] = []"
| "join sep [x] = x"
| "join sep (x # y # zs) = x @ sep @ join sep (y # zs)"

definition lines_of :: "string \<Rightarrow> string list" where
  "lines_of s = split_on NL s"

fun replace_crlf :: "string \<Rightarrow> string" where
  \<comment> \<open>\<open>strings.ReplaceAll(s, "\r\n", "\n")\<close>\<close>
  "replace_crlf [] = []"
| "replace_crlf [c] = [c]"
| "replace_crlf (c # d # s) =
     (if c = CR \<and> d = NL then NL # replace_crlf s else c # replace_crlf (d # s))"

fun fields_aux :: "string \<Rightarrow> string \<Rightarrow> string list" where
  "fields_aux acc [] = (if acc = [] then [] else [rev acc])"
| "fields_aux acc (c # s) =
     (if is_space c then (if acc = [] then fields_aux [] s else rev acc # fields_aux [] s)
      else fields_aux (c # acc) s)"

definition fields :: "string \<Rightarrow> string list" where
  "fields s = fields_aux [] s"

lemma split_on_not_Nil [simp]: "split_on c s \<noteq> []"
  by (induction s) (auto split: list.splits)

lemma split_on_no_sep: "c \<notin> set s \<Longrightarrow> split_on c s = [s]"
  by (induction s) auto

lemma split_on_append: "c \<notin> set s \<Longrightarrow> split_on c (s @ c # t) = s # split_on c t"
  by (induction s) auto

lemma split_on_parts: "\<forall>p\<in>set (split_on c s). c \<notin> set p"
  by (induction s) (auto split: list.splits)

lemma join_Cons: "zs \<noteq> [] \<Longrightarrow> join sep (x # zs) = x @ sep @ join sep zs"
  by (cases zs) auto

lemma join_split_on: "join [c] (split_on c s) = s"
proof (induction s)
  case Nil
  then show ?case by simp
next
  case (Cons x s)
  obtain h t where ht: "split_on c s = h # t"
    by (cases "split_on c s") auto
  show ?case
  proof (cases "x = c")
    case True
    then show ?thesis using Cons ht by (simp add: join_Cons)
  next
    case False
    then show ?thesis using Cons ht by (cases t) auto
  qed
qed

lemma split_on_join:
  "xs \<noteq> [] \<Longrightarrow> \<forall>x\<in>set xs. c \<notin> set x \<Longrightarrow> split_on c (join [c] xs) = xs"
proof (induction xs)
  case Nil
  then show ?case by simp
next
  case (Cons x xs)
  then show ?case
    by (cases "xs = []") (auto simp: join_Cons split_on_append split_on_no_sep)
qed

lemma join_append:
  "xs \<noteq> [] \<Longrightarrow> ys \<noteq> [] \<Longrightarrow> join sep (xs @ ys) = join sep xs @ sep @ join sep ys"
proof (induction xs)
  case Nil
  then show ?case by simp
next
  case (Cons x xs)
  then show ?case by (cases "xs = []") (auto simp: join_Cons)
qed

lemma lines_of_join:
  "xs \<noteq> [] \<Longrightarrow> \<forall>x\<in>set xs. NL \<notin> set x \<Longrightarrow> lines_of (join [NL] xs) = xs"
  by (simp add: lines_of_def split_on_join)

lemma lines_of_unlines:
  "\<forall>x\<in>set xs. NL \<notin> set x \<Longrightarrow> lines_of (concat (map (\<lambda>x. x @ [NL]) xs)) = xs @ [[]]"
  by (induction xs) (auto simp: lines_of_def split_on_append)

lemma NL_neq_CR [simp]: "NL \<noteq> CR" "CR \<noteq> NL"
  by (simp_all add: NL_def CR_def)

lemma replace_crlf_no_CR: "CR \<notin> set s \<Longrightarrow> replace_crlf s = s"
  by (induction s rule: replace_crlf.induct) auto

lemma fields_aux_items:
  "list_all (Not \<circ> is_space) acc \<Longrightarrow> f \<in> set (fields_aux acc s) \<Longrightarrow>
   f \<noteq> [] \<and> list_all (Not \<circ> is_space) f"
proof (induction s arbitrary: acc)
  case Nil
  then show ?case by (auto simp: list_all_iff split: if_splits)
next
  case (Cons c s)
  show ?case
  proof (cases "f \<in> set (fields_aux [] s)")
    case True
    then show ?thesis using Cons.IH [of "[]"] by simp
  next
    case False
    then show ?thesis
      using Cons.prems Cons.IH [of "c # acc"] by (auto simp: list_all_iff split: if_splits)
  qed
qed

lemma fields_items: "f \<in> set (fields s) \<Longrightarrow> f \<noteq> [] \<and> (\<forall>c\<in>set f. \<not> is_space c)"
  using fields_aux_items [of "[]" f s] by (auto simp: fields_def list_all_iff)

lemma fields_aux_word:
  "\<forall>c\<in>set w. \<not> is_space c \<Longrightarrow> fields_aux acc (w @ s) = fields_aux (rev w @ acc) s"
  by (induction w arbitrary: acc) auto

lemma fields_join_space:
  assumes "\<forall>w\<in>set ws. w \<noteq> [] \<and> (\<forall>c\<in>set w. \<not> is_space c)"
  shows "fields (join '' '' ws) = ws"
  using assms
proof (induction ws)
  case Nil
  then show ?case by (simp add: fields_def)
next
  case (Cons w ws)
  have sp: "is_space CHR '' ''" by (simp add: is_space_def)
  show ?case
  proof (cases "ws = []")
    case True
    then show ?thesis
      using Cons.prems fields_aux_word [of w "[]" "[]"] by (simp add: fields_def)
  next
    case False
    then have "fields (join '' '' (w # ws)) = fields_aux (rev w) ('' '' @ join '' '' ws)"
      using Cons.prems fields_aux_word [of w "[]" "'' '' @ join '' '' ws"]
      by (simp add: fields_def join_Cons)
    also have "\<dots> = w # fields (join '' '' ws)"
      using sp Cons.prems by (simp add: fields_def)
    finally show ?thesis using Cons by simp
  qed
qed

section \<open>Numbers\<close>

definition digit_char :: "nat \<Rightarrow> char" where
  "digit_char d = chr (48 + d)"

definition digit_val :: "char \<Rightarrow> nat" where
  "digit_val c = code c - 48"

fun show_nat :: "nat \<Rightarrow> string" where
  "show_nat n =
     (if n < 10 then [digit_char n] else show_nat (n div 10) @ [digit_char (n mod 10)])"

declare show_nat.simps [simp del]

definition show_int :: "int \<Rightarrow> string" where
  \<comment> \<open>\<open>%d\<close>\<close>
  "show_int i = (if i < 0 then CHR ''-'' # show_nat (nat (- i)) else show_nat (nat i))"

definition pad02 :: "int \<Rightarrow> string" where
  \<comment> \<open>\<open>%02d\<close>: the sign counts towards the width\<close>
  "pad02 i = (if 0 \<le> i \<and> i < 10 then CHR ''0'' # show_nat (nat i) else show_int i)"

definition nat_of_digits :: "string \<Rightarrow> nat" where
  "nat_of_digits s = foldl (\<lambda>n c. 10 * n + digit_val c) 0 s"

definition int_max :: int where "int_max = 9223372036854775807"
definition int_min :: int where "int_min = -9223372036854775808"

definition atoi :: "string \<Rightarrow> int option" where
  \<comment> \<open>\<open>strconv.Atoi\<close>, and \<open>strconv.ParseInt(s, 10, 64)\<close>: \<open>None\<close> for an error\<close>
  "atoi s =
     (let neg = (s \<noteq> [] \<and> hd s = CHR ''-'');
          ds = (if s \<noteq> [] \<and> (hd s = CHR ''-'' \<or> hd s = CHR ''+'') then tl s else s);
          v = (if neg then - int (nat_of_digits ds) else int (nat_of_digits ds))
      in if ds = [] \<or> \<not> list_all is_digit ds then None
         else if int_min \<le> v \<and> v \<le> int_max then Some v else None)"

lemma digit_char_digit: "d < 10 \<Longrightarrow> is_digit (digit_char d)"
  by (simp add: is_digit_def digit_char_def code_chr)

lemma digit_val_char: "d < 10 \<Longrightarrow> digit_val (digit_char d) = d"
  by (simp add: digit_val_def digit_char_def code_chr)

lemma show_nat_digits: "list_all is_digit (show_nat n)"
proof (induction n rule: show_nat.induct)
  case (1 n)
  then show ?case
    by (cases "n < 10") (auto simp: show_nat.simps [of n] digit_char_digit)
qed

lemma show_nat_not_Nil [simp]: "show_nat n \<noteq> []"
  by (simp add: show_nat.simps [of n])

lemma nat_of_digits_snoc: "nat_of_digits (s @ [c]) = 10 * nat_of_digits s + digit_val c"
  by (simp add: nat_of_digits_def)

lemma nat_of_digits_show: "nat_of_digits (show_nat n) = n"
proof (induction n rule: show_nat.induct)
  case (1 n)
  show ?case
  proof (cases "n < 10")
    case True
    then show ?thesis
      by (simp add: show_nat.simps [of n] digit_val_char nat_of_digits_def)
  next
    case False
    with 1 show ?thesis
      by (simp add: show_nat.simps [of n] nat_of_digits_snoc digit_val_char)
  qed
qed

lemma show_nat_inj: "show_nat m = show_nat n \<longleftrightarrow> m = n"
  by (metis nat_of_digits_show)

lemma is_digit_simps [simp]: "\<not> is_digit CHR ''-''" "\<not> is_digit CHR ''+''" "is_digit CHR ''0''"
  by (simp_all add: is_digit_def code_def)

lemma hd_show_nat_digit: "is_digit (hd (show_nat n))"
  using show_nat_digits [of n] by (cases "show_nat n") auto

lemma hd_digit_neq:
  "list_all is_digit s \<Longrightarrow> s \<noteq> [] \<Longrightarrow> hd s \<noteq> CHR ''-'' \<and> hd s \<noteq> CHR ''+''"
  by (cases s) auto

lemma atoi_digits:
  assumes "list_all is_digit s" and "s \<noteq> []" and "int (nat_of_digits s) \<le> int_max"
  shows "atoi s = Some (int (nat_of_digits s))"
  using assms hd_digit_neq [OF assms(1,2)] by (simp add: atoi_def Let_def int_min_def)

lemma atoi_show_nat: "int n \<le> int_max \<Longrightarrow> atoi (show_nat n) = Some (int n)"
  by (simp add: atoi_digits show_nat_digits nat_of_digits_show)

lemma nat_of_digits_zero_Cons: "nat_of_digits (CHR ''0'' # s) = nat_of_digits s"
  by (simp add: nat_of_digits_def digit_val_def code_def)

lemma atoi_pad02:
  assumes "0 \<le> i" and "i \<le> int_max"
  shows "atoi (pad02 i) = Some i"
  using assms atoi_show_nat [of "nat i"] show_nat_digits [of "nat i"]
  by (auto simp: pad02_def show_int_def atoi_digits nat_of_digits_zero_Cons nat_of_digits_show)

lemma pad02_digits: "0 \<le> i \<Longrightarrow> list_all is_digit (pad02 i) \<and> pad02 i \<noteq> []"
  using show_nat_digits [of "nat i"] by (auto simp: pad02_def show_int_def)

lemma pad02_inj:
  "0 \<le> i \<Longrightarrow> i \<le> int_max \<Longrightarrow> 0 \<le> j \<Longrightarrow> j \<le> int_max \<Longrightarrow> pad02 i = pad02 j \<Longrightarrow> i = j"
  by (metis atoi_pad02 option.inject)

lemma is_digit_not_space: "is_digit c \<Longrightarrow> \<not> is_space c"
  by (auto simp: is_digit_def is_space_def code_def)

lemma digits_no_dash: "list_all is_digit s \<Longrightarrow> CHR ''-'' \<notin> set s"
  by (induction s) auto

section \<open>Quoting\<close>

definition hex_digit :: "nat \<Rightarrow> char" where
  "hex_digit d = (if d < 10 then chr (48 + d) else chr (87 + d))"

definition quote_char :: "char \<Rightarrow> string" where
  "quote_char c =
     (if c = QUOTE then [BACKSLASH, QUOTE]
      else if c = BACKSLASH then [BACKSLASH, BACKSLASH]
      else if c = CHR 0x07 then BACKSLASH # ''a''
      else if c = CHR 0x08 then BACKSLASH # ''b''
      else if c = CHR 0x0C then BACKSLASH # ''f''
      else if c = NL then BACKSLASH # ''n''
      else if c = CR then BACKSLASH # ''r''
      else if c = TAB then BACKSLASH # ''t''
      else if c = CHR 0x0B then BACKSLASH # ''v''
      else if code c < 32 \<or> code c = 127
        then BACKSLASH # CHR ''x'' # [hex_digit (code c div 16), hex_digit (code c mod 16)]
      else [c])"

definition go_quote :: "string \<Rightarrow> string" where
  \<comment> \<open>\<open>%q\<close>\<close>
  "go_quote s = QUOTE # concat (map quote_char s) @ [QUOTE]"

text \<open>
  \<open>NormalizeHost\<close>-style cleaning, \<open>strings.ToLower(strings.TrimSpace(s))\<close>, occurs
  throughout the domain.
\<close>

definition fold_name :: "string \<Rightarrow> string" where
  "fold_name s = to_lower (trim_space s)"

lemma lower_char_space: "is_space (lower_char c) = is_space c"
  by (auto simp: is_space_code lower_char_def is_upper_def code_chr)

lemma trimmed_to_lower: "trimmed (to_lower s) = trimmed s"
  by (auto simp: trimmed_def to_lower_def lower_char_space hd_map last_map)

lemma fold_name_idem [simp]: "fold_name (fold_name s) = fold_name s"
  by (simp add: fold_name_def trimmed_to_lower)

end
