(* ===== verification/Games.thy ===== *)
theory Games
  imports GoStrings
begin

text \<open>
  \<open>internal/domain/game.go\<close>, \<open>tier.go\<close>, \<open>resources.go\<close>, \<open>host.go\<close>, \<open>game_ports.go\<close> and
  \<open>valheim_ports.go\<close>: what a game is, how large a world of it is, on which host it runs and
  which ports it publishes there. A Go string type (\<open>GameID\<close>, \<open>ResourceTier\<close>, \<open>Host\<close>)
  is a \<open>string\<close>, because the code builds its values from stored and submitted text.
\<close>

section \<open>Hosts\<close>

type_synonym Host = string
type_synonym GameID = string
type_synonym ResourceTier = string

definition HostCluster :: Host where "HostCluster = ''cluster''"

definition NormalizeHost :: "string \<Rightarrow> Host" where
  "NormalizeHost s = (let t = to_lower (trim_space s) in if t = '''' then HostCluster else t)"

definition IsCluster :: "Host \<Rightarrow> bool" where
  "IsCluster h = (NormalizeHost h = HostCluster)"

lemma fold_name_HostCluster [simp]: "fold_name HostCluster = HostCluster"
  by code_simp

lemma NormalizeHost_fold: "NormalizeHost s = (if fold_name s = '''' then HostCluster else fold_name s)"
  by (simp add: NormalizeHost_def fold_name_def Let_def)

lemma NormalizeHost_idem [simp]: "NormalizeHost (NormalizeHost s) = NormalizeHost s"
proof -
  have "HostCluster \<noteq> ''''" by (simp add: HostCluster_def)
  then show ?thesis by (simp add: NormalizeHost_fold)
qed

lemma NormalizeHost_not_empty [simp]: "NormalizeHost s \<noteq> ''''"
  by (simp add: NormalizeHost_def Let_def HostCluster_def)

lemma IsCluster_NormalizeHost [simp]: "IsCluster (NormalizeHost s) = IsCluster s"
  by (simp add: IsCluster_def)

section \<open>Game profiles\<close>

definition GameValheim :: GameID where "GameValheim = ''valheim''"
definition GameMinecraft :: GameID where "GameMinecraft = ''minecraft''"
definition GameGMod :: GameID where "GameGMod = ''gmod''"

lemma game_ids_distinct [simp]:
  "GameValheim \<noteq> GameMinecraft" "GameMinecraft \<noteq> GameValheim"
  "GameValheim \<noteq> GameGMod" "GameGMod \<noteq> GameValheim"
  "GameMinecraft \<noteq> GameGMod" "GameGMod \<noteq> GameMinecraft"
  by (simp_all add: GameValheim_def GameMinecraft_def GameGMod_def)

lemma game_ids_not_empty [simp]:
  "GameValheim \<noteq> ''''" "GameMinecraft \<noteq> ''''" "GameGMod \<noteq> ''''"
  "'''' \<noteq> GameValheim" "'''' \<noteq> GameMinecraft" "'''' \<noteq> GameGMod"
  by (simp_all add: GameValheim_def GameMinecraft_def GameGMod_def)

record InstanceID =
  iid_Game :: GameID
  iid_Number :: int

definition NewInstanceID :: "GameID \<Rightarrow> int \<Rightarrow> InstanceID" where
  "NewInstanceID game number = \<lparr>iid_Game = game, iid_Number = number\<rparr>"

definition InstanceID_String :: "InstanceID \<Rightarrow> string" where
  "InstanceID_String i = iid_Game i @ ''-'' @ pad02 (iid_Number i)"

definition InstanceID_IsZero :: "InstanceID \<Rightarrow> bool" where
  "InstanceID_IsZero i = (iid_Game i = '''' \<and> iid_Number i = 0)"

record Capabilities =
  cap_Mods :: bool
  cap_Console :: bool
  cap_Packs :: bool
  cap_Configs :: bool
  cap_Backups :: bool
  cap_AdmissionPassword :: bool
  cap_AdmissionAllowlist :: bool
  cap_Operators :: bool
  cap_PlayerCount :: bool

record Display =
  disp_Name :: string
  disp_Icon :: string
  disp_Accent :: string

record GameProfile =
  gp_ID :: GameID
  gp_Prefix :: string
  gp_Table :: string
  gp_Display :: Display
  gp_Capabilities :: Capabilities
  gp_DefaultMaxPlayers :: int
  gp_ModDelivery :: string
  gp_PortStride :: int

definition ModDeliveryAgrelha :: string where "ModDeliveryAgrelha = ''agrelha''"
definition ModDeliveryImage :: string where "ModDeliveryImage = ''image''"

definition MinecraftProfile :: GameProfile where
  "MinecraftProfile =
     \<lparr>gp_ID = GameMinecraft, gp_Prefix = ''mc'', gp_Table = ''mc_instances'',
      gp_Display = \<lparr>disp_Name = ''Minecraft'', disp_Icon = ''pickaxe'', disp_Accent = ''emerald''\<rparr>,
      gp_Capabilities =
        \<lparr>cap_Mods = True, cap_Console = True, cap_Packs = True, cap_Configs = True,
         cap_Backups = True, cap_AdmissionPassword = False, cap_AdmissionAllowlist = True,
         cap_Operators = True, cap_PlayerCount = True\<rparr>,
      gp_DefaultMaxPlayers = 20, gp_ModDelivery = ModDeliveryImage, gp_PortStride = 100\<rparr>"

definition ValheimProfile :: GameProfile where
  "ValheimProfile =
     \<lparr>gp_ID = GameValheim, gp_Prefix = ''valheim'', gp_Table = ''valheim_instances'',
      gp_Display = \<lparr>disp_Name = ''Valheim'', disp_Icon = ''axe'', disp_Accent = ''amber''\<rparr>,
      gp_Capabilities =
        \<lparr>cap_Mods = True, cap_Console = True, cap_Packs = False, cap_Configs = True,
         cap_Backups = True, cap_AdmissionPassword = True, cap_AdmissionAllowlist = False,
         cap_Operators = True, cap_PlayerCount = True\<rparr>,
      gp_DefaultMaxPlayers = 10, gp_ModDelivery = ModDeliveryAgrelha, gp_PortStride = 0\<rparr>"

definition GModProfile :: GameProfile where
  "GModProfile =
     \<lparr>gp_ID = GameGMod, gp_Prefix = ''gmod'', gp_Table = ''gmod_instances'',
      gp_Display = \<lparr>disp_Name = ''Garry's Mod'', disp_Icon = ''wrench'', disp_Accent = ''sky''\<rparr>,
      gp_Capabilities =
        \<lparr>cap_Mods = False, cap_Console = False, cap_Packs = True, cap_Configs = False,
         cap_Backups = True, cap_AdmissionPassword = True, cap_AdmissionAllowlist = False,
         cap_Operators = False, cap_PlayerCount = False\<rparr>,
      gp_DefaultMaxPlayers = 16, gp_ModDelivery = ModDeliveryImage, gp_PortStride = 100\<rparr>"

definition defaultProfiles :: "(GameID \<times> GameProfile) list" where
  "defaultProfiles =
     [(GameMinecraft, MinecraftProfile), (GameValheim, ValheimProfile), (GameGMod, GModProfile)]"

definition ProfileFor :: "GameID \<Rightarrow> GameProfile option" where
  "ProfileFor i = map_of defaultProfiles i"

definition Profiles :: "GameProfile list" where
  "Profiles = [ValheimProfile, MinecraftProfile, GModProfile]"

lemma profile_ids [simp]:
  "gp_ID MinecraftProfile = GameMinecraft" "gp_ID ValheimProfile = GameValheim"
  "gp_ID GModProfile = GameGMod"
  by (simp_all add: MinecraftProfile_def ValheimProfile_def GModProfile_def)

lemma ProfileFor_simps [simp]:
  "ProfileFor GameMinecraft = Some MinecraftProfile"
  "ProfileFor GameValheim = Some ValheimProfile"
  "ProfileFor GameGMod = Some GModProfile"
  by (simp_all add: ProfileFor_def defaultProfiles_def)

lemma ProfileFor_iff:
  "ProfileFor g = Some p \<longleftrightarrow>
     g = GameMinecraft \<and> p = MinecraftProfile \<or>
     g = GameValheim \<and> p = ValheimProfile \<or>
     g = GameGMod \<and> p = GModProfile"
  by (auto simp: ProfileFor_def defaultProfiles_def)

lemma ProfileFor_None_iff:
  "ProfileFor g = None \<longleftrightarrow> g \<noteq> GameMinecraft \<and> g \<noteq> GameValheim \<and> g \<noteq> GameGMod"
  by (auto simp: ProfileFor_def defaultProfiles_def)

lemma ProfileFor_ID: "ProfileFor g = Some p \<Longrightarrow> gp_ID p = g"
  by (auto simp: ProfileFor_iff)

definition registered :: "GameProfile \<Rightarrow> bool" where
  "registered p = (ProfileFor (gp_ID p) \<noteq> None)"

section \<open>Tiers and resources\<close>

definition TierSmall :: ResourceTier where "TierSmall = ''small''"
definition TierMedium :: ResourceTier where "TierMedium = ''medium''"
definition TierLarge :: ResourceTier where "TierLarge = ''large''"

lemma tiers_distinct [simp]:
  "TierSmall \<noteq> TierMedium" "TierMedium \<noteq> TierSmall" "TierSmall \<noteq> TierLarge"
  "TierLarge \<noteq> TierSmall" "TierMedium \<noteq> TierLarge" "TierLarge \<noteq> TierMedium"
  by (simp_all add: TierSmall_def TierMedium_def TierLarge_def)

definition tier_MemoryGiB :: "ResourceTier \<Rightarrow> int" where
  "tier_MemoryGiB t =
     (if t = TierSmall then 4 else if t = TierMedium then 8 else if t = TierLarge then 12 else 8)"

definition tier_MemoryLimitGiB :: "ResourceTier \<Rightarrow> int" where
  "tier_MemoryLimitGiB t = (if t = TierSmall then 6 else if t = TierLarge then 16 else 10)"

definition tier_HeapInitMemoryGiB :: "ResourceTier \<Rightarrow> int" where
  "tier_HeapInitMemoryGiB t = (if t = TierSmall then 3 else if t = TierLarge then 10 else 6)"

definition NormalizeTier :: "string \<Rightarrow> ResourceTier" where
  "NormalizeTier t =
     (let s = to_lower (trim_space t)
      in if s = TierSmall then TierSmall else if s = TierLarge then TierLarge else TierMedium)"

record Resources =
  MemRequestGiB :: int
  MemLimitGiB :: int
  CPURequestMilli :: int
  CPULimitMilli :: int

definition zero_resources :: Resources where
  "zero_resources = \<lparr>MemRequestGiB = 0, MemLimitGiB = 0, CPURequestMilli = 0, CPULimitMilli = 0\<rparr>"

definition Resources_IsZero :: "Resources \<Rightarrow> bool" where
  "Resources_IsZero r =
     (MemRequestGiB r = 0 \<and> MemLimitGiB r = 0 \<and> CPURequestMilli r = 0 \<and> CPULimitMilli r = 0)"

definition Resources_Validate :: "Resources \<Rightarrow> goerr option" where
  "Resources_Validate r =
     (if MemRequestGiB r \<le> 0
        then Some (Errorf (''memory request must be positive, got '' @ show_int (MemRequestGiB r)))
      else if MemLimitGiB r < MemRequestGiB r
        then Some (Errorf (''memory limit '' @ show_int (MemLimitGiB r) @ '' is below request ''
                           @ show_int (MemRequestGiB r)))
      else if CPURequestMilli r < 0 \<or> CPULimitMilli r < 0
        then Some (Errorf ''cpu must not be negative'')
      else if CPULimitMilli r > 0 \<and> CPULimitMilli r < CPURequestMilli r
        then Some (Errorf (''cpu limit '' @ show_int (CPULimitMilli r) @ '' is below request ''
                           @ show_int (CPURequestMilli r)))
      else None)"

definition Resources_Fits :: "Resources \<Rightarrow> Resources \<Rightarrow> bool" where
  "Resources_Fits r ceiling =
     (if MemLimitGiB ceiling > 0 \<and> MemLimitGiB r > MemLimitGiB ceiling then False
      else if MemRequestGiB ceiling > 0 \<and> MemRequestGiB r > MemRequestGiB ceiling then False
      else if CPULimitMilli ceiling > 0 \<and> CPULimitMilli r > CPULimitMilli ceiling then False
      else True)"

definition legacyCPURequestMilli :: int where "legacyCPURequestMilli = 2000"

definition mem_resources :: "int \<Rightarrow> int \<Rightarrow> Resources" where
  "mem_resources req lim =
     \<lparr>MemRequestGiB = req, MemLimitGiB = lim, CPURequestMilli = legacyCPURequestMilli,
      CPULimitMilli = 0\<rparr>"

definition LegacyResources :: "GameID \<Rightarrow> ResourceTier \<Rightarrow> Resources" where
  "LegacyResources g tier =
     (if g = GameMinecraft then mem_resources (tier_MemoryGiB tier) (tier_MemoryLimitGiB tier)
      else if g = GameValheim then
        (if tier = TierSmall then mem_resources 4 5
         else if tier = TierLarge then mem_resources 8 10
         else mem_resources 6 7)
      else zero_resources)"

definition gmodTierResources :: "(ResourceTier \<times> Resources) list" where
  "gmodTierResources =
     [(TierSmall, mem_resources 2 3), (TierMedium, mem_resources 4 6),
      (TierLarge, mem_resources 8 10)]"

definition BuiltinResources :: "GameID \<Rightarrow> ResourceTier \<Rightarrow> Resources" where
  "BuiltinResources g tier =
     (if g = GameGMod then
        (case map_of gmodTierResources tier of
           Some r \<Rightarrow> r
         | None \<Rightarrow> mget gmodTierResources TierMedium zero_resources)
      else if g = GameMinecraft \<or> g = GameValheim then LegacyResources g tier
      else zero_resources)"

definition LegacyHeapInitGiB :: "GameID \<Rightarrow> ResourceTier \<Rightarrow> int" where
  "LegacyHeapInitGiB g tier = (if g \<noteq> GameMinecraft then 0 else tier_HeapInitMemoryGiB tier)"

record Tier =
  tier_Key :: string
  tier_GameID :: GameID
  tier_Name :: string
  tier_Resources :: Resources
  tier_HeapInitGiB :: int
  tier_SortOrder :: int

record GameSettings =
  gs_GameID :: GameID
  gs_TotalBudgetGiB :: int
  gs_MaxInstances :: int
  gs_MaxRunning :: int
  gs_Ceiling :: Resources

definition GameSettings_Allows :: "GameSettings \<Rightarrow> Resources \<Rightarrow> goerr option" where
  "GameSettings_Allows g r =
     (if \<not> Resources_Fits r (gs_Ceiling g)
      then Some (Errorf (''requested '' @ show_int (MemLimitGiB r) @ '' GiB exceeds the ''
                         @ gs_GameID g @ '' ceiling of '' @ show_int (MemLimitGiB (gs_Ceiling g))
                         @ '' GiB''))
      else None)"

definition DefaultTiersFor :: "GameID \<Rightarrow> Tier list" where
  "DefaultTiersFor g =
     concat (map (\<lambda>(i, key).
       let r = BuiltinResources g key
       in if Resources_IsZero r then []
          else [\<lparr>tier_Key = key, tier_GameID = g,
                 tier_Name = to_upper (take 1 key) @ drop 1 key,
                 tier_Resources = r, tier_HeapInitGiB = LegacyHeapInitGiB g key,
                 tier_SortOrder = i\<rparr>])
       [(0, TierSmall), (1, TierMedium), (2, TierLarge)])"

lemmas resource_tables =
  BuiltinResources_def LegacyResources_def gmodTierResources_def mem_resources_def
  zero_resources_def legacyCPURequestMilli_def mget_def tier_MemoryGiB_def tier_MemoryLimitGiB_def

lemma BuiltinResources_valid:
  assumes "ProfileFor g \<noteq> None"
  shows "Resources_Validate (BuiltinResources g t) = None"
proof -
  consider "g = GameMinecraft" | "g = GameValheim" | "g = GameGMod"
    using assms by (auto simp: ProfileFor_None_iff)
  then show ?thesis
    by cases (auto simp: resource_tables Resources_Validate_def)
qed

lemma Validate_not_zero: "Resources_Validate r = None \<Longrightarrow> \<not> Resources_IsZero r"
  by (auto simp: Resources_Validate_def Resources_IsZero_def split: if_splits)

lemma BuiltinResources_unregistered: "ProfileFor g = None \<Longrightarrow> BuiltinResources g t = zero_resources"
  by (simp add: ProfileFor_None_iff BuiltinResources_def)

lemma BuiltinResources_NormalizeTier:
  "t = TierSmall \<or> t = TierMedium \<or> t = TierLarge \<or>
   BuiltinResources g t = BuiltinResources g TierMedium"
  by (auto simp: resource_tables)

section \<open>Published ports\<close>

record PortSpec =
  ps_Name :: string
  ps_Port :: int
  ps_Protocol :: string
  ps_HostPort :: int

definition HostPortFor :: "GameProfile \<Rightarrow> Host \<Rightarrow> int \<Rightarrow> int \<Rightarrow> goerr + int" where
  "HostPortFor profile host number containerPort =
     (if IsCluster (NormalizeHost host) \<or> number \<le> 1 then Inr containerPort
      else if gp_PortStride profile \<le> 0
        then Inl (Errorf (''game '' @ go_quote (gp_ID profile) @ '' declares no PortStride, so instance ''
                    @ show_int number @ '' on host '' @ go_quote host
                    @ '' would publish the same host ports as instance 01''))
      else Inr (containerPort + (number - 1) * gp_PortStride profile))"

definition valheimPortsPerWorld :: int where "valheimPortsPerWorld = 2"
definition valheimStatusPortBase :: int where "valheimStatusPortBase = 9000"
definition ValheimGamePort :: int where "ValheimGamePort = 2456"
definition ValheimQueryPort :: int where "ValheimQueryPort = 2457"
definition ValheimStatusPort :: int where "ValheimStatusPort = 9001"

definition ValheimHostPortsFor :: "Host \<Rightarrow> int \<Rightarrow> int \<times> int \<times> int" where
  "ValheimHostPortsFor host number =
     (if IsCluster (NormalizeHost host) \<or> number < 1
      then (ValheimGamePort, ValheimQueryPort, ValheimStatusPort)
      else (let game = ValheimGamePort + (number - 1) * valheimPortsPerWorld
            in (game, game + 1, valheimStatusPortBase + number)))"

text \<open>
  The ports two worlds publish on one machine. A container publishes a set of ports
  \<open>P\<close>, each below the stride apart from one another; distinct worlds then never collide.
\<close>

lemma HostPortFor_host:
  assumes "\<not> IsCluster host" and "gp_PortStride p > 0" and "n \<ge> 1"
  shows "HostPortFor p host n c = Inr (c + (n - 1) * gp_PortStride p)"
  using assms by (auto simp: HostPortFor_def)

lemma stride_disjoint:
  fixes m n s c d :: int
  assumes "m \<noteq> n" and "\<bar>c - d\<bar> < s"
  shows "c + (m - 1) * s \<noteq> d + (n - 1) * s"
proof
  assume eq: "c + (m - 1) * s = d + (n - 1) * s"
  then have "c - d = (n - m) * s" by (simp add: algebra_simps)
  then have "\<bar>c - d\<bar> = \<bar>n - m\<bar> * \<bar>s\<bar>" by (simp add: abs_mult)
  moreover have "\<bar>n - m\<bar> \<ge> 1" using assms(1) by linarith
  ultimately have "\<bar>c - d\<bar> \<ge> \<bar>s\<bar>" by (metis abs_ge_zero mult.commute mult_left_mono mult.right_neutral)
  then show False using assms(2) by linarith
qed

end
