(* ===== verification/Packs.thy ===== *)
theory Packs
  imports Games
begin

text \<open>
  \<open>internal/domain/pack.go\<close>: sources, providers and loaders, what a Pack decides about its
  Instance, the order on Minecraft versions, and the slug of a display name.
\<close>

type_synonym Source = string
type_synonym Provider = string
type_synonym Loader = string

definition SourceModpack :: Source where "SourceModpack = ''modpack''"
definition SourceModlist :: Source where "SourceModlist = ''modlist''"
definition SourceVanilla :: Source where "SourceVanilla = ''vanilla''"
definition ProviderCurseForge :: Provider where "ProviderCurseForge = ''curseforge''"
definition ProviderModrinth :: Provider where "ProviderModrinth = ''modrinth''"
definition ProviderThunderstore :: Provider where "ProviderThunderstore = ''thunderstore''"
definition ProviderSteamWorkshop :: Provider where "ProviderSteamWorkshop = ''steam-workshop''"
definition LoaderFabric :: Loader where "LoaderFabric = ''fabric''"
definition LoaderForge :: Loader where "LoaderForge = ''forge''"
definition LoaderNeoForge :: Loader where "LoaderNeoForge = ''neoforge''"
definition LoaderVanilla :: Loader where "LoaderVanilla = ''vanilla''"

lemmas pack_consts =
  SourceModpack_def SourceModlist_def SourceVanilla_def ProviderCurseForge_def
  ProviderModrinth_def ProviderThunderstore_def ProviderSteamWorkshop_def
  LoaderFabric_def LoaderForge_def LoaderNeoForge_def LoaderVanilla_def

record Pack =
  pack_Provider :: Provider
  pack_Ref :: string
  pack_Name :: string

record PackFacts =
  pf_Loader :: Loader
  pf_MCVersion :: string

definition PackFacts_Resolve :: "PackFacts \<Rightarrow> Loader \<Rightarrow> string \<Rightarrow> Loader \<times> string" where
  "PackFacts_Resolve f loader mcVersion =
     ((if pf_Loader f \<noteq> '''' then pf_Loader f else loader),
      (if pf_MCVersion f \<noteq> '''' then pf_MCVersion f else mcVersion))"

definition PackFacts_Over :: "PackFacts \<Rightarrow> PackFacts \<Rightarrow> PackFacts" where
  "PackFacts_Over f base =
     (let (loader, version) = PackFacts_Resolve f (pf_Loader base) (pf_MCVersion base)
      in \<lparr>pf_Loader = loader, pf_MCVersion = version\<rparr>)"

definition PackFacts_Empty :: "PackFacts \<Rightarrow> bool" where
  "PackFacts_Empty f = (pf_Loader f = '''' \<and> pf_MCVersion f = '''')"

lemma Over_assoc: "PackFacts_Over (PackFacts_Over f g) h = PackFacts_Over f (PackFacts_Over g h)"
  by (simp add: PackFacts_Over_def PackFacts_Resolve_def)

lemma Over_Empty_left: "PackFacts_Empty f \<Longrightarrow> PackFacts_Over f g = g"
  by (simp add: PackFacts_Over_def PackFacts_Resolve_def PackFacts_Empty_def)

section \<open>Minecraft versions\<close>

fun atoi_prefix :: "string list \<Rightarrow> int list" where
  \<comment> \<open>the loop that stops at the first part that is not a number\<close>
  "atoi_prefix [] = []"
| "atoi_prefix (p # ps) = (case atoi p of None \<Rightarrow> [] | Some n \<Rightarrow> n # atoi_prefix ps)"

definition mcVersionParts :: "string \<Rightarrow> int list" where
  "mcVersionParts v =
     atoi_prefix (split_on CHR ''.'' (takeWhile (\<lambda>c. c \<notin> set ''-+ '') v))"

fun compare_parts :: "int list \<Rightarrow> int list \<Rightarrow> int" where
  \<comment> \<open>the loop over the longer of the two lists; a missing component is 0\<close>
  "compare_parts [] [] = 0"
| "compare_parts (x # xs) [] = (if x \<noteq> 0 then if x < 0 then -1 else 1 else compare_parts xs [])"
| "compare_parts [] (y # ys) = (if 0 \<noteq> y then if 0 < y then -1 else 1 else compare_parts [] ys)"
| "compare_parts (x # xs) (y # ys) =
     (if x \<noteq> y then if x < y then -1 else 1 else compare_parts xs ys)"

definition CompareMCVersions :: "string \<Rightarrow> string \<Rightarrow> int" where
  "CompareMCVersions a b = compare_parts (mcVersionParts a) (mcVersionParts b)"

definition IsMCVersion :: "string \<Rightarrow> bool" where
  "IsMCVersion v = (length (mcVersionParts v) > 0)"

fun highest_from :: "string \<Rightarrow> string list \<Rightarrow> string" where
  "highest_from best [] = best"
| "highest_from best (w # ws) =
     (let v = trim_space w
      in if v = '''' \<or> \<not> IsMCVersion v then highest_from best ws
         else if best = '''' \<or> CompareMCVersions v best > 0 then highest_from v ws
         else highest_from best ws)"

definition HighestMCVersion :: "string list \<Rightarrow> string" where
  "HighestMCVersion versions = highest_from '''' versions"

lemma compare_parts_range: "compare_parts xs ys \<in> {-1, 0, 1}"
  by (induction xs ys rule: compare_parts.induct) auto

lemma compare_parts_refl [simp]: "compare_parts xs xs = 0"
  by (induction xs) auto

lemma compare_parts_antisym: "compare_parts ys xs = - compare_parts xs ys"
  by (induction xs ys rule: compare_parts.induct) auto

text \<open>The comparison is that of the component functions, padded with zeros.\<close>

fun part_at :: "int list \<Rightarrow> nat \<Rightarrow> int" where
  "part_at [] i = 0"
| "part_at (x # xs) 0 = x"
| "part_at (x # xs) (Suc i) = part_at xs i"

lemma compare_parts_zero_iff: "compare_parts xs ys = 0 \<longleftrightarrow> part_at xs = part_at ys"
proof (induction xs ys rule: compare_parts.induct)
  case 1
  then show ?case by simp
next
  case (2 x xs)
  have "part_at (x # xs) = part_at [] \<longleftrightarrow> x = 0 \<and> part_at xs = part_at []"
    by (auto simp: fun_eq_iff) (metis part_at.simps not0_implies_Suc)+
  then show ?case using 2 by (cases "x = 0") (simp_all del: part_at.simps)
next
  case (3 y ys)
  have "part_at [] = part_at (y # ys) \<longleftrightarrow> 0 = y \<and> part_at [] = part_at ys"
    by (auto simp: fun_eq_iff) (metis part_at.simps not0_implies_Suc)+
  then show ?case using 3 by (cases "y = 0") (simp_all del: part_at.simps)
next
  case (4 x xs y ys)
  have "part_at (x # xs) = part_at (y # ys) \<longleftrightarrow> x = y \<and> part_at xs = part_at ys"
    by (auto simp: fun_eq_iff) (metis part_at.simps not0_implies_Suc)+
  then show ?case using 4 by (cases "x = y") (simp_all del: part_at.simps)
qed

lemma compare_parts_trans:
  "compare_parts xs ys \<ge> 0 \<Longrightarrow> compare_parts ys zs \<ge> 0 \<Longrightarrow> compare_parts xs zs \<ge> 0"
proof (induction xs ys arbitrary: zs rule: compare_parts.induct)
  case 1
  then show ?case by simp
next
  case (2 x xs)
  then show ?case by (cases zs) (auto split: if_splits)
next
  case (3 y ys)
  then show ?case by (cases zs) (auto split: if_splits)
next
  case (4 x xs y ys)
  then show ?case by (cases zs) (auto split: if_splits)
qed

definition version_le :: "string \<Rightarrow> string \<Rightarrow> bool" where
  "version_le a b = (CompareMCVersions a b \<le> 0)"

lemma version_le_trans: "version_le a b \<Longrightarrow> version_le b c \<Longrightarrow> version_le a c"
  unfolding version_le_def CompareMCVersions_def
  using compare_parts_trans [of "mcVersionParts c" "mcVersionParts b" "mcVersionParts a"]
    compare_parts_antisym by (metis neg_0_le_iff_le)

lemma version_le_total: "version_le a b \<or> version_le b a"
  unfolding version_le_def CompareMCVersions_def
  using compare_parts_antisym [of "mcVersionParts a" "mcVersionParts b"] by linarith

lemma version_le_refl [simp]: "version_le a a"
  by (simp add: version_le_def CompareMCVersions_def)

lemma highest_from_cases:
  "highest_from best ws = best \<or>
   (highest_from best ws \<in> trim_space ` set ws \<and> IsMCVersion (highest_from best ws))"
  by (induction best ws rule: highest_from.induct) (auto simp: Let_def)

lemma IsMCVersion_not_empty: "IsMCVersion v \<Longrightarrow> v \<noteq> ''''"
  by (auto simp: IsMCVersion_def mcVersionParts_def atoi_def)

lemma highest_from_mono: "best \<noteq> '''' \<Longrightarrow> version_le best (highest_from best ws)"
proof (induction best ws rule: highest_from.induct)
  case (1 best)
  then show ?case by simp
next
  case (2 best w ws)
  let ?v = "trim_space w"
  show ?case
  proof (cases "?v \<noteq> '''' \<and> IsMCVersion ?v \<and> CompareMCVersions ?v best > 0")
    case True
    then have "version_le best ?v"
      using version_le_total [of best ?v] by (auto simp: version_le_def)
    moreover have "version_le ?v (highest_from ?v ws)"
      using 2(2) [of ?v] True 2 by auto
    ultimately show ?thesis
      using True by (auto simp: Let_def intro: version_le_trans)
  next
    case False
    then show ?thesis using 2 by (auto simp: Let_def)
  qed
qed

lemma highest_from_keeps: "best \<noteq> '''' \<Longrightarrow> highest_from best ws \<noteq> ''''"
  by (induction best ws rule: highest_from.induct) (simp_all add: Let_def)

lemma highest_from_nonempty:
  "w \<in> set ws \<Longrightarrow> IsMCVersion (trim_space w) \<Longrightarrow> highest_from best ws \<noteq> ''''"
proof (induction ws arbitrary: best)
  case Nil
  then show ?case by simp
next
  case (Cons v ws)
  show ?case
  proof (cases "w = v")
    case True
    then show ?thesis
      using Cons.prems IsMCVersion_not_empty [of "trim_space v"] highest_from_keeps
      by (simp add: Let_def)
  next
    case False
    then show ?thesis using Cons by (simp add: Let_def)
  qed
qed

lemma highest_from_upper:
  "w \<in> set ws \<Longrightarrow> IsMCVersion (trim_space w) \<Longrightarrow> version_le (trim_space w) (highest_from best ws)"
proof (induction ws arbitrary: best)
  case Nil
  then show ?case by simp
next
  case (Cons u ws)
  let ?v = "trim_space u"
  show ?case
  proof (cases "w = u")
    case True
    have ne: "?v \<noteq> ''''" using Cons.prems True IsMCVersion_not_empty by blast
    show ?thesis
    proof (cases "best = '''' \<or> CompareMCVersions ?v best > 0")
      case True
      then have "highest_from best (u # ws) = highest_from ?v ws"
        using Cons.prems \<open>w = u\<close> ne by (auto simp: Let_def)
      then show ?thesis using highest_from_mono [OF ne] \<open>w = u\<close> by simp
    next
      case False
      then have "highest_from best (u # ws) = highest_from best ws" and "version_le ?v best"
        using Cons.prems \<open>w = u\<close> ne by (auto simp: Let_def version_le_def)
      then show ?thesis
        using highest_from_mono [of best ws] False \<open>w = u\<close> version_le_trans by metis
    qed
  next
    case False
    then have "w \<in> set ws" using Cons.prems by simp
    then show ?thesis using Cons.IH Cons.prems(2) by (simp add: Let_def)
  qed
qed

section \<open>Loaders, sources\<close>

definition ParseLoader :: "string \<Rightarrow> Loader" where
  "ParseLoader s =
     (let t = to_lower (trim_space s)
      in if t = LoaderFabric then LoaderFabric
         else if t = LoaderForge then LoaderForge
         else if t = LoaderNeoForge then LoaderNeoForge
         else if t = LoaderVanilla then LoaderVanilla
         else '''')"

definition NormalizeLoader :: "string \<Rightarrow> Loader" where
  "NormalizeLoader l =
     (let s = trim_space l
      in if equal_fold s LoaderFabric then LoaderFabric
         else if equal_fold s LoaderForge then LoaderForge
         else LoaderNeoForge)"

definition NormalizeSource :: "string \<Rightarrow> Source" where
  "NormalizeSource s =
     (let t = to_lower (trim_space s)
      in if t = SourceModpack then SourceModpack
         else if t = SourceVanilla then SourceVanilla
         else SourceModlist)"

lemma NormalizeSource_idem [simp]: "NormalizeSource (NormalizeSource s) = NormalizeSource s"
proof -
  have "NormalizeSource SourceModpack = SourceModpack"
    "NormalizeSource SourceVanilla = SourceVanilla"
    "NormalizeSource SourceModlist = SourceModlist"
    by code_simp+
  then show ?thesis by (simp add: NormalizeSource_def Let_def)
qed

lemma NormalizeLoader_idem [simp]: "NormalizeLoader (NormalizeLoader s) = NormalizeLoader s"
proof -
  have "NormalizeLoader LoaderFabric = LoaderFabric" "NormalizeLoader LoaderForge = LoaderForge"
    "NormalizeLoader LoaderNeoForge = LoaderNeoForge"
    by code_simp+
  then show ?thesis by (simp add: NormalizeLoader_def Let_def)
qed

section \<open>Slugs\<close>

definition slug_safe :: "char \<Rightarrow> bool" where
  "slug_safe c = (is_lower c \<or> is_digit c)"

fun slug_replace :: "bool \<Rightarrow> string \<Rightarrow> string" where
  \<comment> \<open>\<open>slugUnsafe.ReplaceAllString(s, "-")\<close>: one dash for each maximal run of \<open>[^a-z0-9]\<close>;
      the flag says that the run's dash is already written\<close>
  "slug_replace r [] = []"
| "slug_replace r (c # s) =
     (if slug_safe c then c # slug_replace False s
      else if r then slug_replace True s
      else CHR ''-'' # slug_replace True s)"

definition trim_dash :: "string \<Rightarrow> string" where
  "trim_dash s = trim_right (\<lambda>c. c = CHR ''-'') (trim_left (\<lambda>c. c = CHR ''-'') s)"

definition Slugify :: "string \<Rightarrow> string" where
  "Slugify s0 =
     (let s = to_lower (trim_space s0);
          s = slug_replace False s;
          s = trim_dash s;
          s = (if length s > 40 then trim_dash (take 40 s) else s)
      in if s = '''' then ''default'' else s)"

definition slug_char :: "char \<Rightarrow> bool" where
  "slug_char c = (slug_safe c \<or> c = CHR ''-'')"

definition slug_ok :: "string \<Rightarrow> bool" where
  "slug_ok s =
     (s \<noteq> '''' \<and> length s \<le> 40 \<and> list_all slug_char s \<and> hd s \<noteq> CHR ''-'' \<and> last s \<noteq> CHR ''-'')"

lemma slug_replace_chars: "list_all slug_char (slug_replace r s)"
  by (induction r s rule: slug_replace.induct) (auto simp: slug_char_def)

lemma trim_dash_set: "set (trim_dash s) \<subseteq> set s"
  unfolding trim_dash_def trim_right_def trim_left_def
  by (metis set_dropWhileD set_rev subsetI)

lemma trim_dash_length: "length (trim_dash s) \<le> length s"
  unfolding trim_dash_def trim_right_def trim_left_def
  by (metis length_dropWhile_le length_rev le_trans)

lemma trim_dash_ends:
  "trim_dash s = [] \<or> hd (trim_dash s) \<noteq> CHR ''-'' \<and> last (trim_dash s) \<noteq> CHR ''-''"
proof -
  let ?P = "\<lambda>c. c = CHR ''-''"
  obtain t where t: "trim_left ?P s = trim_dash s @ t"
    using trim_right_prefix unfolding trim_dash_def by blast
  then have "trim_dash s = [] \<or> hd (trim_dash s) = hd (trim_left ?P s)"
    by (metis hd_append2)
  then show ?thesis
    using trim_left_hd [of ?P s] trim_right_last [of ?P "trim_left ?P s"] t
    unfolding trim_dash_def by (auto simp: trim_right_def)
qed

lemma Slugify_ok: "slug_ok (Slugify s)"
proof -
  define a where "a = trim_dash (slug_replace False (to_lower (trim_space s)))"
  define b where "b = (if length a > 40 then trim_dash (take 40 a) else a)"
  have a_chars: "list_all slug_char a"
    using trim_dash_set [of "slug_replace False (to_lower (trim_space s))"]
      slug_replace_chars [of False "to_lower (trim_space s)"]
    by (auto simp: a_def list_all_iff)
  then have "list_all slug_char (take 40 a)" by (auto simp: list_all_iff dest: in_set_takeD)
  then have "list_all slug_char b"
    using a_chars trim_dash_set [of "take 40 a"] by (auto simp: b_def list_all_iff)
  moreover have "length b \<le> 40"
    using trim_dash_length [of "take 40 a"] by (auto simp: b_def)
  moreover have "b = [] \<or> hd b \<noteq> CHR ''-'' \<and> last b \<noteq> CHR ''-''"
    using trim_dash_ends [of "take 40 a"]
      trim_dash_ends [of "slug_replace False (to_lower (trim_space s))"]
    by (simp add: a_def b_def)
  moreover have "Slugify s = (if b = [] then ''default'' else b)"
    by (simp add: Slugify_def Let_def a_def b_def)
  moreover have "slug_ok ''default''" by code_simp
  ultimately show ?thesis by (cases "b = []") (auto simp: slug_ok_def)
qed

lemma slug_char_lower: "slug_char c \<Longrightarrow> lower_char c = c"
  by (auto simp: slug_char_def slug_safe_def lower_char_def is_upper_def is_lower_def is_digit_def
      code_def)

lemma slug_char_not_space: "slug_char c \<Longrightarrow> \<not> is_space c"
  by (auto simp: slug_char_def slug_safe_def is_space_code is_lower_def is_digit_def code_def)

text \<open>No two dashes in a row.\<close>

definition single_dashes :: "string \<Rightarrow> bool" where
  "single_dashes s = (\<forall>u v. s \<noteq> u @ ''--'' @ v)"

lemma single_dashes_factor: "single_dashes (u @ s @ v) \<Longrightarrow> single_dashes s"
  unfolding single_dashes_def by (metis append.assoc)

lemma single_dashes_Cons:
  "single_dashes (c # s) \<longleftrightarrow> single_dashes s \<and> (c = CHR ''-'' \<longrightarrow> s = [] \<or> hd s \<noteq> CHR ''-'')"
proof -
  have "c # s = u @ ''--'' @ v \<longleftrightarrow>
      (u = [] \<and> c # s = ''--'' @ v) \<or> (\<exists>w. u = c # w \<and> s = w @ ''--'' @ v)" for u v
    by (cases u) auto
  then show ?thesis unfolding single_dashes_def by (cases s) (simp; blast)+
qed

lemma dash_not_safe [simp]: "\<not> slug_safe CHR ''-''"
  by (simp add: slug_safe_def is_lower_def is_digit_def code_def)

lemma slug_replace_single:
  "single_dashes (slug_replace r s) \<and>
   (r \<longrightarrow> slug_replace r s = [] \<or> hd (slug_replace r s) \<noteq> CHR ''-'')"
  by (induction r s rule: slug_replace.induct)
    (auto simp: single_dashes_Cons, auto simp: single_dashes_def)

lemma trim_dash_factor: "\<exists>u v. s = u @ trim_dash s @ v"
proof -
  let ?P = "\<lambda>c. c = CHR ''-''"
  obtain v where "trim_left ?P s = trim_dash s @ v"
    using trim_right_prefix unfolding trim_dash_def by blast
  moreover have "s = takeWhile ?P s @ trim_left ?P s"
    by (simp add: trim_left_def)
  ultimately show ?thesis by metis
qed

lemma single_trim: "single_dashes s \<Longrightarrow> single_dashes (trim_dash s)"
  using single_dashes_factor trim_dash_factor by metis

lemma single_take: "single_dashes s \<Longrightarrow> single_dashes (take n s)"
  using single_dashes_factor [of "[]" "take n s" "drop n s"] by simp

lemma Slugify_single: "single_dashes (Slugify s)"
proof -
  have "single_dashes ''default''" by (simp add: single_dashes_Cons) (simp add: single_dashes_def)
  then show ?thesis
    by (simp add: Slugify_def Let_def single_trim single_take slug_replace_single)
qed

lemma slug_replace_id:
  "\<forall>c\<in>set s. slug_char c \<Longrightarrow> single_dashes s \<Longrightarrow> r \<longrightarrow> s = [] \<or> hd s \<noteq> CHR ''-'' \<Longrightarrow>
   slug_replace r s = s"
  by (induction r s rule: slug_replace.induct) (auto simp: slug_char_def single_dashes_Cons)

lemma Slugify_id:
  assumes "slug_ok s" and "single_dashes s"
  shows "Slugify s = s"
proof -
  have c: "\<forall>c\<in>set s. slug_char c" and ne: "s \<noteq> []"
    using assms by (auto simp: slug_ok_def list_all_iff)
  have "trim_space s = s" using c ne slug_char_not_space by (simp add: trimmed_def)
  moreover have "to_lower s = s"
    using c slug_char_lower by (simp add: to_lower_def map_idI)
  moreover have "slug_replace False s = s"
    using slug_replace_id c assms(2) by simp
  moreover have "trim_dash s = s"
    using assms by (simp add: trim_dash_def slug_ok_def trim_left_keep trim_right_keep)
  ultimately show ?thesis
    using assms by (simp add: Slugify_def Let_def slug_ok_def)
qed

section \<open>Properties\<close>

text \<open>The highest version of a list is one of its well-formed entries and no well-formed
  entry is newer than it; entries that are not versions never win.\<close>

theorem HighestMCVersion_max:
  assumes "w \<in> set versions" and "IsMCVersion (trim_space w)"
  shows "HighestMCVersion versions \<in> trim_space ` set versions \<and>
    IsMCVersion (HighestMCVersion versions) \<and>
    CompareMCVersions (trim_space w) (HighestMCVersion versions) \<le> 0"
proof -
  have le: "version_le (trim_space w) (HighestMCVersion versions)"
    using assms highest_from_upper by (simp add: HighestMCVersion_def)
  have "HighestMCVersion versions \<noteq> ''''"
  proof
    assume "HighestMCVersion versions = ''''"
    then show False
      using highest_from_nonempty assms by (simp add: HighestMCVersion_def)
  qed
  then show ?thesis
    using le highest_from_cases [of "''''" versions]
    by (auto simp: HighestMCVersion_def version_le_def)
qed

theorem HighestMCVersion_max_witness:
  "CompareMCVersions ''1.20.1'' (HighestMCVersion [''snapshot'', '' 1.20.1'', ''1.9'']) \<le> 0"
proof -
  have "IsMCVersion (trim_space '' 1.20.1'')" "trim_space '' 1.20.1'' = ''1.20.1''" by code_simp+
  then show ?thesis
    using HighestMCVersion_max [of "'' 1.20.1''" "[''snapshot'', '' 1.20.1'', ''1.9'']"] by simp
qed

text \<open>Every name becomes a slug that Kubernetes accepts as a DNS label: never empty, at most
  forty characters, lower-case letters, digits and inner dashes only; and a slug is its own slug,
  so deriving it again from a stored slug changes nothing.\<close>

theorem Slugify_stable: "slug_ok (Slugify s) \<and> Slugify (Slugify s) = Slugify s"
  using Slugify_ok Slugify_id Slugify_single by blast

end
