(* ===== verification/Instances.thy ===== *)
theory Instances
  imports Packs
begin

text \<open>
  \<open>internal/domain/instance.go\<close>, \<open>valheim_validate.go\<close> and \<open>request.go\<close>: the Instance
  record, what it takes from its game profile, its names, its environment and annotations.

  A pointer field is an \<open>option\<close>. A time is the number of nanoseconds since Go's zero
  time, so \<open>IsZero\<close> is \<open>= 0\<close>. A \<open>map[string]string\<close> built by these functions is an
  association list. The panics on an unregistered game are \<open>Panic\<close> outcomes.
\<close>

type_synonym Time = int

section \<open>Records\<close>

definition StateRunning :: string where "StateRunning = ''running''"
definition StateStopped :: string where "StateStopped = ''stopped''"
definition StateProvisioning :: string where "StateProvisioning = ''provisioning''"
definition StateError :: string where "StateError = ''error''"
definition StateUnknown :: string where "StateUnknown = ''unknown''"

lemmas state_consts =
  StateRunning_def StateStopped_def StateProvisioning_def StateError_def StateUnknown_def

lemma states_distinct [simp]:
  "StateRunning \<noteq> StateStopped" "StateStopped \<noteq> StateRunning" "StateError \<noteq> StateRunning"
  "StateRunning \<noteq> StateError" "StateProvisioning \<noteq> StateRunning" "StateRunning \<noteq> StateProvisioning"
  by (simp_all add: state_consts)

record MinecraftConfig =
  mc_Loader :: Loader
  mc_Pack :: "Pack option"
  mc_MCVersion :: string
  mc_Difficulty :: string
  mc_Gamemode :: string
  mc_WorldType :: string
  mc_Seed :: string
  mc_HeapInitGiB :: int

record ValheimConfig =
  vh_Password :: string
  vh_Seed :: string

record GModConfig =
  gm_Pack :: "Pack option"
  gm_Gamemode :: string
  gm_Map :: string
  gm_Password :: string

record Instance =
  WorldID :: string
  inst_GameID :: GameID
  Number :: int
  inst_Name :: string
  Slug :: string
  inst_Source :: Source
  inst_Tier :: ResourceTier
  inst_Resources :: Resources
  State :: string
  MOTD :: string
  MaxPlayers :: int
  LBIP :: string
  inst_Host :: Host
  CreatedBy :: string
  HostUnreachable :: bool
  HostUnknown :: bool
  CreatedAt :: Time
  LastUsed :: Time
  Minecraft :: "MinecraftConfig option"
  Valheim :: "ValheimConfig option"
  GMod :: "GModConfig option"

definition zero_mc :: MinecraftConfig where
  "zero_mc = \<lparr>mc_Loader = '''', mc_Pack = None, mc_MCVersion = '''', mc_Difficulty = '''',
     mc_Gamemode = '''', mc_WorldType = '''', mc_Seed = '''', mc_HeapInitGiB = 0\<rparr>"

definition zero_gmod :: GModConfig where
  "zero_gmod = \<lparr>gm_Pack = None, gm_Gamemode = '''', gm_Map = '''', gm_Password = ''''\<rparr>"

definition zero_instance :: Instance where
  "zero_instance =
     \<lparr>WorldID = '''', inst_GameID = '''', Number = 0, inst_Name = '''', Slug = '''', inst_Source = '''',
      inst_Tier = '''', inst_Resources = zero_resources, State = '''', MOTD = '''', MaxPlayers = 0,
      LBIP = '''', inst_Host = '''', CreatedBy = '''', HostUnreachable = False, HostUnknown = False,
      CreatedAt = 0, LastUsed = 0, Minecraft = None, Valheim = None, GMod = None\<rparr>"

section \<open>Derived facts\<close>

definition CollectionID :: "GModConfig \<Rightarrow> string" where
  "CollectionID g = (case gm_Pack g of None \<Rightarrow> '''' | Some p \<Rightarrow> pack_Ref p)"

definition EffectiveHost :: "Instance \<Rightarrow> Host" where
  "EffectiveHost inst = NormalizeHost (inst_Host inst)"

definition Instance_ID :: "Instance \<Rightarrow> InstanceID" where
  "Instance_ID inst = \<lparr>iid_Game = inst_GameID inst, iid_Number = Number inst\<rparr>"

definition Instance_Password :: "Instance \<Rightarrow> string" where
  "Instance_Password inst =
     (case Valheim inst of
        Some v \<Rightarrow> vh_Password v
      | None \<Rightarrow> (case GMod inst of Some g \<Rightarrow> gm_Password g | None \<Rightarrow> ''''))"

definition Instance_Seed :: "Instance \<Rightarrow> string" where
  "Instance_Seed inst =
     (case Valheim inst of
        Some v \<Rightarrow>
          (if vh_Seed v \<noteq> '''' then vh_Seed v
           else (case Minecraft inst of
                   Some m \<Rightarrow> if mc_Seed m \<noteq> '''' then mc_Seed m else ''''
                 | None \<Rightarrow> ''''))
      | None \<Rightarrow>
          (case Minecraft inst of
             Some m \<Rightarrow> if mc_Seed m \<noteq> '''' then mc_Seed m else ''''
           | None \<Rightarrow> ''''))"

definition unknown_game :: "GameID \<Rightarrow> string" where
  "unknown_game g = ''unknown or unregistered game ID '' @ go_quote g"

definition for_registered :: "GameProfile \<Rightarrow> 'a outcome \<Rightarrow> 'a outcome" where
  \<comment> \<open>the guard \<open>if _, ok := ProfileFor(profile.ID); !ok { panic(...) }\<close>\<close>
  "for_registered profile k =
     (case ProfileFor (gp_ID profile) of None \<Rightarrow> Panic (unknown_game (gp_ID profile)) | Some _ \<Rightarrow> k)"

lemma for_registered_simps [simp]:
  "registered p \<Longrightarrow> for_registered p k = k"
  "\<not> registered p \<Longrightarrow> for_registered p k = Panic (unknown_game (gp_ID p))"
  by (auto simp: for_registered_def registered_def)

lemma registered_profiles [simp]:
  "registered MinecraftProfile" "registered ValheimProfile" "registered GModProfile"
  by (simp_all add: registered_def)

lemma ProfileFor_registered: "ProfileFor g = Some p \<Longrightarrow> registered p"
  by (auto simp: ProfileFor_iff)

lemma registered_cases:
  "registered p \<Longrightarrow> gp_ID p = GameMinecraft \<or> gp_ID p = GameValheim \<or> gp_ID p = GameGMod"
  using ProfileFor_None_iff by (auto simp: registered_def)

definition EffectiveResources :: "Instance \<Rightarrow> GameProfile \<Rightarrow> Resources outcome" where
  "EffectiveResources inst profile =
     for_registered profile
       (if \<not> Resources_IsZero (inst_Resources inst) then Val (inst_Resources inst)
        else (let r = BuiltinResources (gp_ID profile) (inst_Tier inst)
              in if Resources_IsZero r
                 then Panic (''instance '' @ show_int (Number inst) @ '' of game ''
                             @ go_quote (gp_ID profile) @ '' has no resources and no legacy default'')
                 else Val r))"

definition MemoryGiB :: "Instance \<Rightarrow> GameProfile \<Rightarrow> int outcome" where
  "MemoryGiB inst profile =
     bindv (EffectiveResources inst profile) (\<lambda>r. Val (MemRequestGiB r))"

definition MemoryLimitGiB :: "Instance \<Rightarrow> GameProfile \<Rightarrow> int outcome" where
  "MemoryLimitGiB inst profile =
     bindv (EffectiveResources inst profile) (\<lambda>r. Val (MemLimitGiB r))"

definition Instance_CPURequestMilli :: "Instance \<Rightarrow> GameProfile \<Rightarrow> int outcome" where
  "Instance_CPURequestMilli inst profile =
     bindv (EffectiveResources inst profile) (\<lambda>r. Val (CPURequestMilli r))"

definition Instance_CPULimitMilli :: "Instance \<Rightarrow> GameProfile \<Rightarrow> int outcome" where
  "Instance_CPULimitMilli inst profile =
     bindv (EffectiveResources inst profile) (\<lambda>r. Val (CPULimitMilli r))"

definition HeapInitMemoryGiB :: "Instance \<Rightarrow> GameProfile \<Rightarrow> int outcome" where
  "HeapInitMemoryGiB inst profile =
     for_registered profile
       (case Minecraft inst of
          Some m \<Rightarrow>
            (if mc_HeapInitGiB m > 0 then Val (mc_HeapInitGiB m)
             else Val (LegacyHeapInitGiB (gp_ID profile) (inst_Tier inst)))
        | None \<Rightarrow> Val (LegacyHeapInitGiB (gp_ID profile) (inst_Tier inst)))"

definition DriftsFromTier :: "Instance \<Rightarrow> GameProfile \<Rightarrow> bool" where
  "DriftsFromTier inst profile =
     (if Resources_IsZero (inst_Resources inst) then False
      else inst_Resources inst \<noteq> BuiltinResources (gp_ID profile) (inst_Tier inst))"

definition PackDefined :: "Instance \<Rightarrow> bool" where
  "PackDefined inst =
     (inst_Source inst = SourceModpack \<and>
      (case Minecraft inst of None \<Rightarrow> False | Some m \<Rightarrow> mc_Pack m \<noteq> None))"

definition IsVanilla :: "Instance \<Rightarrow> bool" where
  "IsVanilla inst = (inst_Source inst = SourceVanilla)"

definition CanInstallMods :: "Instance \<Rightarrow> bool" where
  "CanInstallMods inst = (\<not> IsVanilla inst)"

definition VanillaImmutableErr :: "Instance \<Rightarrow> goerr" where
  "VanillaImmutableErr inst =
     Errorf (inst_Name inst @ '' is a vanilla world: adding mods would disable achievements for ''
       @ ''everyone who plays it. Duplicate it to get a modded copy'')"

definition boolText :: "bool \<Rightarrow> string" where
  "boolText b = (if b then ''true'' else ''false'')"

definition CanSetLoader :: "Instance \<Rightarrow> bool" where
  "CanSetLoader inst = (\<not> PackDefined inst)"

definition CanSetVersion :: "Instance \<Rightarrow> bool" where
  "CanSetVersion inst = (\<not> PackDefined inst)"

lemma EffectiveResources_val:
  assumes "registered p"
  shows "\<exists>r. EffectiveResources inst p = Val r \<and> \<not> Resources_IsZero r"
proof -
  have "\<not> Resources_IsZero (BuiltinResources (gp_ID p) (inst_Tier inst))"
    using assms BuiltinResources_valid Validate_not_zero unfolding registered_def by metis
  then show ?thesis
    using assms by (auto simp: EffectiveResources_def Let_def)
qed

lemma MemoryGiB_val: "registered p \<Longrightarrow> \<exists>n. MemoryGiB inst p = Val n"
  using EffectiveResources_val [of p inst] by (auto simp: MemoryGiB_def)

section \<open>Addresses and defaults\<close>

definition AssignLBIP :: "string \<Rightarrow> int \<Rightarrow> string" where
  "AssignLBIP base number =
     (if base = '''' then ''''
      else (case str_last_index base ''.'' of
              None \<Rightarrow> base
            | Some i \<Rightarrow>
                (if number < 1 then base
                 else (case atoi (drop (i + 1) base) of
                         None \<Rightarrow> base
                       | Some n \<Rightarrow> take i base @ ''.'' @ show_int (n + number)))))"

definition default_str :: "string \<Rightarrow> string \<Rightarrow> string" where
  "default_str d s = (if s = '''' then d else s)"

definition game_defaults :: "GameProfile \<Rightarrow> Instance \<Rightarrow> Instance outcome" where
  \<comment> \<open>the switch on \<open>profile.ID\<close> inside \<open>EnsureDefaults\<close>\<close>
  "game_defaults profile inst =
     (if gp_ID profile = GameMinecraft then
        (let m = (case Minecraft inst of None \<Rightarrow> zero_mc | Some m \<Rightarrow> m);
             m = m\<lparr>mc_Difficulty := default_str ''normal'' (mc_Difficulty m)\<rparr>;
             m = m\<lparr>mc_Gamemode := default_str ''survival'' (mc_Gamemode m)\<rparr>;
             m = m\<lparr>mc_WorldType := default_str ''default'' (mc_WorldType m)\<rparr>
         in Val (inst\<lparr>Minecraft := Some m\<rparr>))
      else if gp_ID profile = GameValheim then
        Val (case Valheim inst of
               None \<Rightarrow> inst\<lparr>Valheim := Some \<lparr>vh_Password = '''', vh_Seed = ''''\<rparr>\<rparr>
             | Some _ \<Rightarrow> inst)
      else if gp_ID profile = GameGMod then
        (let g = (case GMod inst of None \<Rightarrow> zero_gmod | Some g \<Rightarrow> g);
             g = g\<lparr>gm_Gamemode := default_str ''sandbox'' (gm_Gamemode g)\<rparr>;
             g = g\<lparr>gm_Map := default_str ''gm_construct'' (gm_Map g)\<rparr>
         in Val (inst\<lparr>GMod := Some g\<rparr>))
      else Panic (unknown_game (gp_ID profile)))"

definition common_defaults :: "GameProfile \<Rightarrow> string \<Rightarrow> Instance \<Rightarrow> Instance" where
  \<comment> \<open>the assignments of \<open>EnsureDefaults\<close> after the switch\<close>
  "common_defaults profile lbBase inst =
     (let slug = (if Slug inst = '''' then Slugify (inst_Name inst) else Slug inst);
          tier = (if inst_Tier inst = '''' then TierMedium else inst_Tier inst);
          state = (if State inst = '''' then StateStopped else State inst);
          players = (if MaxPlayers inst \<le> 0
                     then (if gp_DefaultMaxPlayers profile \<le> 0 then 20
                           else gp_DefaultMaxPlayers profile)
                     else MaxPlayers inst);
          lbip = (if LBIP inst = '''' \<and> Number inst > 0
                  then AssignLBIP lbBase (Number inst) else LBIP inst);
          motd = (if MOTD inst = ''''
                  then (if lbip \<noteq> '''' then inst_Name inst @ '' ('' @ lbip @ '')'' else inst_Name inst)
                  else MOTD inst)
      in inst\<lparr>Slug := slug, inst_Tier := tier, State := state, MaxPlayers := players,
              LBIP := lbip, MOTD := motd\<rparr>)"

definition EnsureDefaults :: "GameProfile \<Rightarrow> string \<Rightarrow> Instance \<Rightarrow> Instance outcome" where
  "EnsureDefaults profile lbBase inst =
     for_registered profile
       (if inst_GameID inst \<noteq> '''' \<and> inst_GameID inst \<noteq> gp_ID profile
        then Panic (''mismatched game profile '' @ go_quote (gp_ID profile)
                    @ '' for instance with game '' @ go_quote (inst_GameID inst))
        else bindv (game_defaults profile (inst\<lparr>inst_GameID := gp_ID profile\<rparr>))
               (\<lambda>i. Val (common_defaults profile lbBase i)))"

section \<open>Names\<close>

definition slot_name :: "GameProfile \<Rightarrow> Instance \<Rightarrow> string" where
  "slot_name profile inst = gp_Prefix profile @ ''-'' @ Slug inst @ ''-'' @ pad02 (Number inst)"

definition DeploymentName :: "Instance \<Rightarrow> GameProfile \<Rightarrow> string outcome" where
  "DeploymentName inst profile = for_registered profile (Val (slot_name profile inst))"

definition ServiceName :: "Instance \<Rightarrow> GameProfile \<Rightarrow> string outcome" where
  "ServiceName inst profile = for_registered profile (Val (slot_name profile inst))"

definition PVCName :: "Instance \<Rightarrow> GameProfile \<Rightarrow> string outcome" where
  "PVCName inst profile =
     for_registered profile
       (Val (gp_Prefix profile @ ''-instance-'' @ pad02 (Number inst) @ ''-data''))"

definition ConfigCMName :: "Instance \<Rightarrow> GameProfile \<Rightarrow> string outcome" where
  "ConfigCMName inst profile = for_registered profile (Val (slot_name profile inst @ ''-slot''))"

definition ModsCMName :: "Instance \<Rightarrow> GameProfile \<Rightarrow> string outcome" where
  "ModsCMName inst profile = for_registered profile (Val (slot_name profile inst @ ''-mods''))"

definition ConfigsCMName :: "Instance \<Rightarrow> GameProfile \<Rightarrow> string outcome" where
  "ConfigsCMName inst profile = for_registered profile (Val (slot_name profile inst @ ''-configs''))"

definition BackupsSubdir :: "Instance \<Rightarrow> string" where
  "BackupsSubdir inst = Slug inst @ ''-'' @ pad02 (Number inst)"

definition InstanceDirName :: "int \<Rightarrow> string" where
  "InstanceDirName number = ''instance-'' @ pad02 number"

definition DirName :: "Instance \<Rightarrow> string" where
  "DirName inst = InstanceDirName (Number inst)"

section \<open>Mod lists\<close>

record ModList =
  ml_Primary :: string
  ml_CurseForge :: string

definition empty_modlist :: ModList where
  "empty_modlist = \<lparr>ml_Primary = '''', ml_CurseForge = ''''\<rparr>"

definition ModList_Empty :: "ModList \<Rightarrow> bool" where
  "ModList_Empty m = (trim_space (ml_Primary m) = '''' \<and> trim_space (ml_CurseForge m) = '''')"

definition HasCurseForge :: "ModList \<Rightarrow> bool" where
  "HasCurseForge m = (trim_space (ml_CurseForge m) \<noteq> '''')"

section \<open>Environment and annotations\<close>

type_synonym strmap = "(string \<times> string) list"

definition mput :: "string \<Rightarrow> string \<Rightarrow> strmap \<Rightarrow> strmap" where
  "mput k v m = AList.update k v m"

definition mput_if :: "bool \<Rightarrow> string \<Rightarrow> string \<Rightarrow> strmap \<Rightarrow> strmap" where
  "mput_if c k v m = (if c then mput k v m else m)"

lemma map_of_mput: "map_of (mput k v m) j = (if j = k then Some v else map_of m j)"
  by (simp add: mput_def map_of_update)

lemma map_of_mput_if:
  "map_of (mput_if c k v m) j = (if c \<and> j = k then Some v else map_of m j)"
  by (simp add: mput_if_def map_of_mput)

definition GModConsoleLogRelPath :: string where "GModConsoleLogRelPath = ''data/console.log''"

definition env_valheim :: "Instance \<Rightarrow> strmap" where
  "env_valheim inst =
     (let pass = (case Valheim inst of Some v \<Rightarrow> vh_Password v | None \<Rightarrow> '''');
          seed = (case Valheim inst of Some v \<Rightarrow> vh_Seed v | None \<Rightarrow> '''');
          env = [(''SERVER_NAME'', inst_Name inst), (''WORLD_NAME'', Slug inst),
                 (''SERVER_PASS'', pass), (''SERVER_PUBLIC'', ''true''),
                 (''BEPINEX'', boolText (\<not> IsVanilla inst)), (''STATUS_HTTP'', ''true''),
                 (''SERVER_ARGS'', ''-savedir /config/worlds_local''),
                 (''TZ'', ''Europe/Amsterdam'')]
      in mput_if (seed \<noteq> '''') ''WORLD_SEED'' seed env)"

definition env_mc_modlist :: "MinecraftConfig \<Rightarrow> ModList \<Rightarrow> strmap \<Rightarrow> strmap" where
  \<comment> \<open>the \<open>default\<close> branch: a Mod list the operator keeps\<close>
  "env_mc_modlist mc mods env =
     (let env = mput ''VERSION'' (mc_MCVersion mc) env;
          env = mput ''MODRINTH_PROJECTS'' ''@/config-mods/mods.txt'' env;
          env = mput_if (HasCurseForge mods) ''CURSEFORGE_FILES'' ''@/config-mods/curseforge.txt'' env;
          env = mput ''MODRINTH_DOWNLOAD_DEPENDENCIES'' ''required'' env;
          env = mput ''REMOVE_OLD_MODS'' ''TRUE'' env;
          env = mput ''MODRINTH_PROJECTS_DEFAULT_VERSION_TYPE'' ''beta'' env;
          l = NormalizeLoader (mc_Loader mc)
      in if l = LoaderFabric
           then mput ''FABRIC_LOADER_VERSION'' ''latest'' (mput ''TYPE'' ''FABRIC'' env)
         else if l = LoaderForge
           then mput ''FORGE_VERSION'' ''latest'' (mput ''TYPE'' ''FORGE'' env)
         else mput ''NEOFORGE_VERSION'' ''latest'' (mput ''TYPE'' ''NEOFORGE'' env))"

definition env_mc_common :: "Instance \<Rightarrow> MinecraftConfig \<Rightarrow> strmap" where
  \<comment> \<open>the settings every Minecraft world has, whatever its source\<close>
  "env_mc_common inst mc =
     (let env = [(''LEVEL'', Slug inst)];
          env = mput_if (MOTD inst \<noteq> '''') ''MOTD'' (MOTD inst) env;
          env = mput_if (mc_Difficulty mc \<noteq> '''') ''DIFFICULTY'' (mc_Difficulty mc) env;
          env = mput_if (mc_Gamemode mc \<noteq> '''') ''MODE'' (mc_Gamemode mc) env;
          env = mput_if (mc_WorldType mc \<noteq> '''' \<and> mc_WorldType mc \<noteq> ''default'')
                  ''LEVEL_TYPE'' (mc_WorldType mc) env;
          env = mput_if (mc_Seed mc \<noteq> '''') ''SEED'' (mc_Seed mc) env
      in mput_if (MaxPlayers inst > 0) ''MAX_PLAYERS'' (show_int (MaxPlayers inst)) env)"

definition env_minecraft :: "Instance \<Rightarrow> ModList \<Rightarrow> strmap" where
  "env_minecraft inst mods =
     (let mc = (case Minecraft inst of None \<Rightarrow> zero_mc | Some m \<Rightarrow> m);
          env = env_mc_common inst mc
      in (case (if PackDefined inst then mc_Pack mc else None) of
            Some pack \<Rightarrow>
              (if pack_Provider pack = ProviderCurseForge
                 then mput ''CF_PAGE_URL'' (pack_Ref pack) (mput ''TYPE'' ''AUTO_CURSEFORGE'' env)
               else if pack_Provider pack = ProviderModrinth
                 then mput ''MODRINTH_MODPACK'' (pack_Ref pack) (mput ''TYPE'' ''MODRINTH'' env)
               else if inst_Source inst = SourceVanilla
                 then mput ''VERSION'' (mc_MCVersion mc) (mput ''TYPE'' ''VANILLA'' env)
               else env_mc_modlist mc mods env)
          | None \<Rightarrow>
              (if inst_Source inst = SourceVanilla
                 then mput ''VERSION'' (mc_MCVersion mc) (mput ''TYPE'' ''VANILLA'' env)
               else env_mc_modlist mc mods env)))"

definition env_gmod :: "Instance \<Rightarrow> strmap" where
  "env_gmod inst =
     (let cfg = (case GMod inst of None \<Rightarrow> zero_gmod | Some g \<Rightarrow> g);
          env = [(''NAME'', inst_Name inst), (''GAMEMODE'', gm_Gamemode cfg), (''MAP'', gm_Map cfg),
                 (''PRODUCTION'', ''1''), (''TZ'', ''Europe/Amsterdam'')];
          env = mput_if (MaxPlayers inst > 0) ''MAXPLAYERS'' (show_int (MaxPlayers inst)) env;
          args = [''-condebug'', ''+con_logfile '' @ GModConsoleLogRelPath];
          args = (if CollectionID cfg \<noteq> ''''
                  then args @ [''+host_workshop_collection '' @ CollectionID cfg] else args);
          args = (if gm_Password cfg \<noteq> ''''
                  then args @ [''+sv_password '' @ gm_Password cfg] else args)
      in mput ''ARGS'' (join '' '' args) env)"

definition EnvWith :: "Instance \<Rightarrow> GameProfile \<Rightarrow> ModList \<Rightarrow> strmap outcome" where
  "EnvWith inst profile mods =
     (if gp_ID profile = GameValheim then Val (env_valheim inst)
      else if gp_ID profile = GameMinecraft then Val (env_minecraft inst mods)
      else if gp_ID profile = GameGMod then Val (env_gmod inst)
      else Panic (unknown_game (gp_ID profile)))"

definition Instance_Env :: "Instance \<Rightarrow> GameProfile \<Rightarrow> strmap outcome" where
  "Instance_Env inst profile = EnvWith inst profile empty_modlist"

definition ann :: "string \<Rightarrow> string" where
  "ann k = ''agrelha.dev/'' @ k"

definition ann_pack :: "Pack \<Rightarrow> strmap \<Rightarrow> strmap" where
  \<comment> \<open>the three pack annotations, the same in the Minecraft and the Garry's Mod branch\<close>
  "ann_pack p m =
     mput_if (pack_Name p \<noteq> '''') (ann ''pack-name'') (pack_Name p)
       (mput (ann ''pack-ref'') (pack_Ref p) (mput (ann ''pack-provider'') (pack_Provider p) m))"

definition Annotations :: "Instance \<Rightarrow> GameProfile \<Rightarrow> strmap outcome" where
  "Annotations inst profile =
     for_registered profile
       (let gameID = (if inst_GameID inst = '''' then gp_ID profile else inst_GameID inst);
            base = [(ann ''instance-number'', show_int (Number inst)),
                    (ann ''tier'', inst_Tier inst), (ann ''game'', gameID)]
        in if gp_ID profile = GameMinecraft then
             (case Minecraft inst of
                None \<Rightarrow> Val base
              | Some mc \<Rightarrow>
                  (let a = mput (ann ''source'') (NormalizeSource (inst_Source inst)) base;
                       a = mput (ann ''loader'') (NormalizeLoader (mc_Loader mc)) a;
                       a = mput_if (mc_MCVersion mc \<noteq> '''') (ann ''mc-version'') (mc_MCVersion mc) a;
                       a = (case (if PackDefined inst then mc_Pack mc else None) of
                              None \<Rightarrow> a | Some p \<Rightarrow> ann_pack p a)
                   in Val (mput_if (mc_Seed mc \<noteq> '''') (ann ''seed'') (mc_Seed mc) a)))
           else if gp_ID profile = GameValheim then
             (case Valheim inst of
                None \<Rightarrow> Val base
              | Some v \<Rightarrow> Val (mput_if (vh_Seed v \<noteq> '''') (ann ''seed'') (vh_Seed v) base))
           else if gp_ID profile = GameGMod then
             (case GMod inst of
                None \<Rightarrow> Val base
              | Some g \<Rightarrow>
                  (let a = mput_if (gm_Gamemode g \<noteq> '''') (ann ''gamemode'') (gm_Gamemode g) base;
                       a = mput_if (gm_Map g \<noteq> '''') (ann ''map'') (gm_Map g) a
                   in Val (case (if PackDefined inst then gm_Pack g else None) of
                             None \<Rightarrow> a | Some p \<Rightarrow> ann_pack p a)))
           else Panic (unknown_game (gp_ID profile)))"

section \<open>Backups and builds\<close>

definition FormatGameBackupFileName ::
  "GameProfile \<Rightarrow> string \<Rightarrow> int \<Rightarrow> string \<Rightarrow> string \<Rightarrow> string outcome" where
  \<comment> \<open>\<open>ts\<close> is \<open>time.Now().UTC().Format("20060102-150405")\<close>\<close>
  "FormatGameBackupFileName profile slug instanceNumber tag ts =
     for_registered profile
       (if tag \<noteq> ''''
        then Val (gp_Prefix profile @ ''-'' @ slug @ ''-'' @ pad02 instanceNumber @ ''-'' @ tag @ ''-''
                  @ ts @ ''.tar.gz'')
        else Val (gp_Prefix profile @ ''-'' @ slug @ ''-'' @ pad02 instanceNumber @ ''-'' @ ts
                  @ ''.tar.gz''))"

definition backup_tail_char :: "char \<Rightarrow> bool" where
  "backup_tail_char c =
     (is_lower c \<or> is_upper c \<or> is_digit c \<or> c = CHR ''_'' \<or> c = CHR ''-'')"

definition backup_tail :: "string \<Rightarrow> bool" where
  \<comment> \<open>\<open>\d{2}-[a-zA-Z0-9_-]+\<close>\<close>
  "backup_tail s =
     (length s \<ge> 4 \<and> is_digit (s ! 0) \<and> is_digit (s ! 1) \<and> s ! 2 = CHR ''-'' \<and>
      list_all backup_tail_char (drop 3 s))"

definition backup_rest :: "string \<Rightarrow> bool" where
  \<comment> \<open>\<open>[a-z0-9-]+-\d{2}-[a-zA-Z0-9_-]+\<close>\<close>
  "backup_rest s =
     list_ex (\<lambda>i. i \<ge> 1 \<and> s ! i = CHR ''-'' \<and> list_all slug_char (take i s) \<and>
                  backup_tail (drop (Suc i) s)) [0..<length s]"

definition safeBackupName :: "string \<Rightarrow> bool" where
  \<comment> \<open>\<open>^[a-z0-9]+-[a-z0-9-]+-\d{2}-[a-zA-Z0-9_-]+\.tar\.gz$\<close>\<close>
  "safeBackupName name =
     (has_suffix name ''.tar.gz'' \<and>
      (let body = trim_suffix name ''.tar.gz''
       in list_ex (\<lambda>i. i \<ge> 1 \<and> body ! i = CHR ''-'' \<and> list_all slug_safe (take i body) \<and>
                       backup_rest (drop (Suc i) body)) [0..<length body]))"

definition IsSafeBackupFileName :: "string \<Rightarrow> bool" where
  "IsSafeBackupFileName name =
     (if \<not> safeBackupName name then False
      else (case str_index name ''-'' of
              None \<Rightarrow> False
            | Some idx \<Rightarrow>
                (if idx = 0 then False
                 else list_ex (\<lambda>(_, p). gp_Prefix p = take idx name) defaultProfiles)))"

record ServerBuild =
  sb_Installed :: string
  sb_Latest :: string
  sb_CheckedAt :: Time

definition isBuildID :: "string \<Rightarrow> bool" where
  "isBuildID v = (let t = trim_space v in t \<noteq> '''' \<and> t \<noteq> ''0'')"

definition ServerBuild_Known :: "ServerBuild \<Rightarrow> bool" where
  "ServerBuild_Known b = (isBuildID (sb_Installed b) \<and> isBuildID (sb_Latest b))"

definition UpdateAvailable :: "ServerBuild \<Rightarrow> bool" where
  "UpdateAvailable b = (if \<not> ServerBuild_Known b then False else sb_Installed b \<noteq> sb_Latest b)"

section \<open>Validation\<close>

definition ValheimMinPasswordLen :: nat where "ValheimMinPasswordLen = 5"

definition password_in_name :: "string \<Rightarrow> string \<Rightarrow> bool" where
  "password_in_name lower name = (name \<noteq> '''' \<and> contains (to_lower name) lower)"

definition ValidatePassword :: "ValheimConfig option \<Rightarrow> string \<Rightarrow> string \<Rightarrow> goerr option" where
  "ValidatePassword c serverName worldName =
     (case c of
        None \<Rightarrow> Some (Sentinel ErrValheimPasswordTooShort)
      | Some v \<Rightarrow>
          (let pass = trim_space (vh_Password v)
           in if length pass < ValheimMinPasswordLen then Some (Sentinel ErrValheimPasswordTooShort)
              else if list_ex (password_in_name (to_lower pass)) [serverName, worldName]
                then Some (Sentinel ErrValheimPasswordInName)
              else None))"

definition Instance_Validate :: "Instance \<Rightarrow> GameProfile \<Rightarrow> goerr option" where
  "Instance_Validate inst profile =
     (case ProfileFor (gp_ID profile) of
        None \<Rightarrow> Some (Errorf (unknown_game (gp_ID profile)))
      | Some _ \<Rightarrow>
          (if gp_ID profile = GameValheim
           then ValidatePassword (Valheim inst) (inst_Name inst) (Slug inst)
           else None))"

section \<open>Published ports of an Instance\<close>

fun WithHostPorts :: "GameProfile \<Rightarrow> Instance \<Rightarrow> PortSpec list \<Rightarrow> goerr + PortSpec list" where
  "WithHostPorts profile inst [] = Inr []"
| "WithHostPorts profile inst (p # ps) =
     (case HostPortFor profile (EffectiveHost inst) (Number inst) (ps_Port p) of
        Inl e \<Rightarrow> Inl e
      | Inr hp \<Rightarrow>
          (case WithHostPorts profile inst ps of
             Inl e \<Rightarrow> Inl e
           | Inr out \<Rightarrow> Inr (p\<lparr>ps_HostPort := hp\<rparr> # out)))"

definition ValheimHostPorts :: "Instance \<Rightarrow> int \<times> int \<times> int" where
  "ValheimHostPorts inst = ValheimHostPortsFor (EffectiveHost inst) (Number inst)"

section \<open>Creation requests\<close>

record InstanceRequest =
  req_ID :: string
  req_Subject :: string
  req_GameID :: GameID
  req_Name :: string
  req_Instance :: Instance
  req_Mods :: ModList
  req_Status :: string
  req_Note :: string
  req_CreatedAt :: Time
  req_DecidedAt :: Time
  req_DecidedBy :: string
  req_Number :: int

definition RequestPending :: string where "RequestPending = ''pending''"
definition RequestApproved :: string where "RequestApproved = ''approved''"
definition RequestDenied :: string where "RequestDenied = ''denied''"

lemma request_states_distinct [simp]:
  "RequestPending \<noteq> RequestApproved" "RequestApproved \<noteq> RequestPending"
  "RequestPending \<noteq> RequestDenied" "RequestDenied \<noteq> RequestPending"
  "RequestApproved \<noteq> RequestDenied" "RequestDenied \<noteq> RequestApproved"
  by (simp_all add: RequestPending_def RequestApproved_def RequestDenied_def)

definition req_Pending :: "InstanceRequest \<Rightarrow> bool" where
  "req_Pending r = (req_Status r = RequestPending)"

definition req_Label :: "InstanceRequest \<Rightarrow> string" where
  "req_Label r =
     (let name = trim_space (req_Name r);
          name = (if name = '''' then ''(unnamed)'' else name)
      in req_GameID r @ '' - '' @ name)"

section \<open>Defaults are complete and stable\<close>

lemma default_str_props [simp]:
  "d \<noteq> '''' \<Longrightarrow> default_str d s \<noteq> ''''" "default_str d (default_str d s) = default_str d s"
  by (simp_all add: default_str_def)

lemma AssignLBIP_Nil [simp]: "AssignLBIP '''' n = ''''"
  by (simp add: AssignLBIP_def)

lemma Slugify_not_empty [simp]: "Slugify s \<noteq> ''''"
  using Slugify_ok [of s] by (simp add: slug_ok_def)

lemma common_defaults_fields:
  fixes i p lb
  defines "j \<equiv> common_defaults p lb i"
  shows "inst_GameID j = inst_GameID i" "Minecraft j = Minecraft i" "Valheim j = Valheim i"
    "GMod j = GMod i" "inst_Name j = inst_Name i" "Number j = Number i"
    "WorldID j = WorldID i" "inst_Host j = inst_Host i" "inst_Source j = inst_Source i"
    "inst_Resources j = inst_Resources i" "CreatedBy j = CreatedBy i"
    "Slug j = (if Slug i = '''' then Slugify (inst_Name i) else Slug i)"
    "inst_Tier j = (if inst_Tier i = '''' then TierMedium else inst_Tier i)"
    "State j = (if State i = '''' then StateStopped else State i)"
    "MaxPlayers j = (if MaxPlayers i \<le> 0
       then if gp_DefaultMaxPlayers p \<le> 0 then 20 else gp_DefaultMaxPlayers p else MaxPlayers i)"
    "LBIP j = (if LBIP i = '''' \<and> Number i > 0 then AssignLBIP lb (Number i) else LBIP i)"
  by (simp_all add: j_def common_defaults_def Let_def)

lemma common_defaults_id:
  assumes "Slug i \<noteq> ''''" "inst_Tier i \<noteq> ''''" "State i \<noteq> ''''" "MaxPlayers i > 0"
    and "LBIP i = '''' \<and> Number i > 0 \<longrightarrow> AssignLBIP lb (Number i) = ''''"
    and "MOTD i = '''' \<longrightarrow> LBIP i = '''' \<and> inst_Name i = ''''"
  shows "common_defaults p lb i = i"
  using assms by (auto simp: common_defaults_def Let_def intro!: Instance.equality)

lemma common_defaults_MOTD:
  "MOTD (common_defaults p lb i) = '''' \<Longrightarrow>
   LBIP (common_defaults p lb i) = '''' \<and> inst_Name (common_defaults p lb i) = ''''"
  by (auto simp: common_defaults_def Let_def split: if_splits)

lemma common_defaults_idem:
  "common_defaults p lb (common_defaults p lb i) = common_defaults p lb i"
proof (rule common_defaults_id)
  let ?j = "common_defaults p lb i"
  have "TierMedium \<noteq> ''''" "StateStopped \<noteq> ''''"
    by (simp_all add: TierMedium_def StateStopped_def)
  then show "Slug ?j \<noteq> ''''" "inst_Tier ?j \<noteq> ''''" "State ?j \<noteq> ''''" "MaxPlayers ?j > 0"
    by (simp_all add: common_defaults_fields)
  show "LBIP ?j = '''' \<and> Number ?j > 0 \<longrightarrow> AssignLBIP lb (Number ?j) = ''''"
    by (auto simp: common_defaults_fields)
  show "MOTD ?j = '''' \<longrightarrow> LBIP ?j = '''' \<and> inst_Name ?j = ''''"
    using common_defaults_MOTD by blast
qed

lemma game_defaults_val:
  "registered p \<Longrightarrow> \<exists>j. game_defaults p i = Val j \<and> inst_GameID j = inst_GameID i"
  using registered_cases [of p]
  by (auto simp: game_defaults_def Let_def split: option.splits)

lemma game_defaults_idem:
  "game_defaults p i = Val j \<Longrightarrow> game_defaults p (common_defaults p lb j) = Val (common_defaults p lb j)"
proof -
  assume a: "game_defaults p i = Val j"
  let ?c = "common_defaults p lb j"
  consider "gp_ID p = GameMinecraft" | "gp_ID p = GameValheim" | "gp_ID p = GameGMod"
    using a by (auto simp: game_defaults_def Let_def split: if_splits)
  then show ?thesis
  proof cases
    case 1
    then obtain m where "Minecraft ?c = Some m" "mc_Difficulty m = default_str ''normal'' (mc_Difficulty m)"
      "mc_Gamemode m = default_str ''survival'' (mc_Gamemode m)"
      "mc_WorldType m = default_str ''default'' (mc_WorldType m)"
      using a by (auto simp: game_defaults_def Let_def common_defaults_fields)
    then show ?thesis using 1 by (simp add: game_defaults_def)
  next
    case 2
    then obtain v where "Valheim ?c = Some v"
      using a by (cases "Valheim i") (auto simp: game_defaults_def common_defaults_fields)
    then show ?thesis using 2 by (simp add: game_defaults_def)
  next
    case 3
    then obtain g where "GMod ?c = Some g" "gm_Gamemode g = default_str ''sandbox'' (gm_Gamemode g)"
      "gm_Map g = default_str ''gm_construct'' (gm_Map g)"
      using a by (auto simp: game_defaults_def Let_def common_defaults_fields)
    then show ?thesis using 3 by (simp add: game_defaults_def)
  qed
qed

lemma EnsureDefaults_Val:
  "EnsureDefaults p lb i = Val j \<longleftrightarrow>
     registered p \<and> (inst_GameID i = '''' \<or> inst_GameID i = gp_ID p) \<and>
     (\<exists>k. game_defaults p (i\<lparr>inst_GameID := gp_ID p\<rparr>) = Val k \<and> j = common_defaults p lb k)"
  by (cases "registered p") (auto simp: EnsureDefaults_def bindv_Val_iff)

lemma EnsureDefaults_total:
  assumes "registered p" and "inst_GameID i = '''' \<or> inst_GameID i = gp_ID p"
  shows "\<exists>k. game_defaults p (i\<lparr>inst_GameID := gp_ID p\<rparr>) = Val k \<and> inst_GameID k = gp_ID p \<and>
    EnsureDefaults p lb i = Val (common_defaults p lb k) \<and>
    EnsureDefaults p lb (common_defaults p lb k) = Val (common_defaults p lb k)"
proof -
  let ?i = "i\<lparr>inst_GameID := gp_ID p\<rparr>"
  obtain k where k: "game_defaults p ?i = Val k" "inst_GameID k = gp_ID p"
    using game_defaults_val [OF assms(1), of ?i] by auto
  let ?j = "common_defaults p lb k"
  have j: "EnsureDefaults p lb i = Val ?j"
    using assms k by (auto simp: EnsureDefaults_Val)
  have "?j\<lparr>inst_GameID := gp_ID p\<rparr> = ?j"
    using k(2) by (simp add: common_defaults_fields)
  then have "game_defaults p (?j\<lparr>inst_GameID := gp_ID p\<rparr>) = Val ?j"
    using game_defaults_idem [OF k(1), of lb] by metis
  then have "EnsureDefaults p lb ?j = Val ?j"
    using assms(1) k(2) common_defaults_idem [of p lb k]
    unfolding EnsureDefaults_Val common_defaults_fields by metis
  with j k show ?thesis by blast
qed

text \<open>For a registered game profile and an Instance of that game (or of none yet),
  EnsureDefaults returns without panicking; the Instance it leaves carries the game, a slug, a
  tier, a state and a positive player limit, keeps every slug it had, and a second call changes
  nothing.\<close>

theorem EnsureDefaults_complete:
  assumes "registered p" and "inst_GameID i = '''' \<or> inst_GameID i = gp_ID p"
  shows "\<exists>j. EnsureDefaults p lb i = Val j \<and> EnsureDefaults p lb j = Val j \<and>
    inst_GameID j = gp_ID p \<and> inst_Tier j \<noteq> '''' \<and> State j \<noteq> '''' \<and>
    0 < MaxPlayers j \<and> (if Slug i = '''' then slug_ok (Slug j) else Slug j = Slug i)"
proof -
  obtain k where k: "game_defaults p (i\<lparr>inst_GameID := gp_ID p\<rparr>) = Val k" "inst_GameID k = gp_ID p"
      "EnsureDefaults p lb i = Val (common_defaults p lb k)"
      "EnsureDefaults p lb (common_defaults p lb k) = Val (common_defaults p lb k)"
    using EnsureDefaults_total [OF assms, of lb] by blast
  have "Slug k = Slug i"
    using k(1) by (auto simp: game_defaults_def Let_def split: if_splits option.splits)
  then show ?thesis
    using k Slugify_ok by (auto simp: common_defaults_fields TierMedium_def StateStopped_def)
qed

theorem EnsureDefaults_complete_witness:
  "\<exists>j. EnsureDefaults ValheimProfile ''10.0.0.10''
         (zero_instance\<lparr>inst_Name := ''Ashlands!'', Number := 3\<rparr>) = Val j \<and> 0 < MaxPlayers j"
  using EnsureDefaults_complete
    [of ValheimProfile "zero_instance\<lparr>inst_Name := ''Ashlands!'', Number := 3\<rparr>" "''10.0.0.10''"]
  by (auto simp: zero_instance_def)

section \<open>Names identify worlds\<close>

lemma dash_split_unique:
  assumes "s @ ''-'' @ d = s' @ ''-'' @ d'" and "CHR ''-'' \<notin> set d" and "CHR ''-'' \<notin> set d'"
  shows "s = s' \<and> d = d'"
proof -
  have "length s = length s'"
    using str_last_index_char_some [OF assms(2), of s] str_last_index_char_some [OF assms(3), of s']
      assms(1) by simp
  then show ?thesis using assms(1) by simp
qed

lemma pad02_no_dash: "0 \<le> i \<Longrightarrow> CHR ''-'' \<notin> set (pad02 i)"
  using pad02_digits digits_no_dash by blast

lemma profile_prefixes:
  "gp_Prefix MinecraftProfile = ''mc''" "gp_Prefix ValheimProfile = ''valheim''"
  "gp_Prefix GModProfile = ''gmod''"
  by (simp_all add: MinecraftProfile_def ValheimProfile_def GModProfile_def)

lemma prefixes_distinct:
  assumes "ProfileFor g = Some p" and "ProfileFor h = Some q"
    and "gp_Prefix p @ CHR ''-'' # s = gp_Prefix q @ CHR ''-'' # t"
  shows "p = q"
proof -
  have "p = MinecraftProfile \<or> p = ValheimProfile \<or> p = GModProfile"
    "q = MinecraftProfile \<or> q = ValheimProfile \<or> q = GModProfile"
    using assms(1,2) by (auto simp: ProfileFor_iff)
  then show ?thesis
    by (elim disjE) (use assms(3) in \<open>simp_all add: profile_prefixes\<close>)
qed

lemma slot_name_unique:
  assumes "ProfileFor g = Some p" and "ProfileFor h = Some q"
    and "0 \<le> Number a" "Number a \<le> int_max" "0 \<le> Number b" "Number b \<le> int_max"
    and "slot_name p a = slot_name q b"
  shows "p = q \<and> Number a = Number b \<and> Slug a = Slug b"
proof -
  have pq: "p = q"
    using prefixes_distinct [OF assms(1,2)] assms(7) by (simp add: slot_name_def)
  then have "Slug a @ ''-'' @ pad02 (Number a) = Slug b @ ''-'' @ pad02 (Number b)"
    using assms(7) by (simp add: slot_name_def)
  then have "Slug a = Slug b \<and> pad02 (Number a) = pad02 (Number b)"
    by (rule dash_split_unique) (use assms(3,5) pad02_no_dash in simp_all)
  then show ?thesis using pq assms(3-6) pad02_inj by blast
qed

lemma PVCName_unique:
  assumes "ProfileFor g = Some p" and "ProfileFor h = Some q"
    and "0 \<le> Number a" "Number a \<le> int_max" "0 \<le> Number b" "Number b \<le> int_max"
    and "PVCName a p = PVCName b q"
  shows "p = q \<and> Number a = Number b"
proof -
  have eq: "gp_Prefix p @ ''-instance-'' @ pad02 (Number a) @ ''-data'' =
      gp_Prefix q @ ''-instance-'' @ pad02 (Number b) @ ''-data''"
    using assms(7) ProfileFor_registered [OF assms(1)] ProfileFor_registered [OF assms(2)]
    by (simp add: PVCName_def)
  then have pq: "p = q" using prefixes_distinct [OF assms(1,2)] by simp
  with eq have "pad02 (Number a) = pad02 (Number b)" by simp
  then show ?thesis using pq assms(3-6) pad02_inj by blast
qed

text \<open>Two worlds that share the name of their Deployment (which is also the stem of their
  Service, ConfigMap and mods ConfigMap names) are of the same game and have the same number and
  slug; two worlds that share a volume claim name are of the same game and have the same
  number. Distinct slots therefore never share a volume.\<close>

theorem names_identify:
  assumes "ProfileFor g = Some p" and "ProfileFor h = Some q"
    and "0 \<le> Number a" "Number a \<le> int_max" "0 \<le> Number b" "Number b \<le> int_max"
  shows "(DeploymentName a p = DeploymentName b q \<longleftrightarrow>
            p = q \<and> Number a = Number b \<and> Slug a = Slug b) \<and>
         (PVCName a p = PVCName b q \<longleftrightarrow> p = q \<and> Number a = Number b)"
proof (intro conjI iffI)
  have reg: "registered p" "registered q"
    using assms(1,2) ProfileFor_registered by auto
  assume "DeploymentName a p = DeploymentName b q"
  then show "p = q" "Number a = Number b" "Slug a = Slug b"
    using slot_name_unique [OF assms] reg by (simp_all add: DeploymentName_def)
next
  assume "PVCName a p = PVCName b q"
  then show "p = q" "Number a = Number b" using PVCName_unique [OF assms] by simp_all
qed (simp_all add: DeploymentName_def PVCName_def slot_name_def)

theorem names_identify_witness:
  "PVCName (zero_instance\<lparr>Number := 7, Slug := ''ayyy''\<rparr>) MinecraftProfile
     \<noteq> PVCName (zero_instance\<lparr>Number := 70, Slug := ''ayyy''\<rparr>) MinecraftProfile"
  using names_identify [of GameMinecraft MinecraftProfile GameMinecraft MinecraftProfile
      "zero_instance\<lparr>Number := 7, Slug := ''ayyy''\<rparr>" "zero_instance\<lparr>Number := 70, Slug := ''ayyy''\<rparr>"]
  by (simp add: int_max_def)

section \<open>Backup names\<close>

lemma list_all_at:
  assumes "i < length xs" "list_all Q (take i xs)" "Q (xs ! i)" "list_all Q (drop (Suc i) xs)"
  shows "list_all Q xs"
proof -
  have "list_all Q (take i xs @ xs ! i # drop (Suc i) xs)" using assms(2-4) by simp
  then show ?thesis using id_take_nth_drop [OF assms(1)] by simp
qed

lemma safe_chars:
  assumes "safeBackupName name" and "c \<in> set name"
  shows "backup_tail_char c \<or> c = CHR ''.''"
proof -
  let ?b = "trim_suffix name ''.tar.gz''"
  obtain b where name: "name = b @ ''.tar.gz''" and b: "?b = b"
    using assms(1) unfolding safeBackupName_def has_suffix_iff
    by (auto simp: trim_suffix_def)
  obtain i where i: "i < length b" "b ! i = CHR ''-''" "list_all slug_safe (take i b)"
      "backup_rest (drop (Suc i) b)"
    using assms(1) b by (auto simp: safeBackupName_def Let_def list_ex_iff)
  let ?r = "drop (Suc i) b"
  obtain j where j: "j < length ?r" "?r ! j = CHR ''-''" "list_all slug_char (take j ?r)"
      "backup_tail (drop (Suc j) ?r)"
    using i(4) by (auto simp: backup_rest_def list_ex_iff)
  let ?t = "drop (Suc j) ?r"
  have t: "list_all backup_tail_char ?t"
  proof -
    obtain a d e u where "?t = a # d # e # u"
      using j(4) by (cases ?t rule: list.exhaust; simp add: backup_tail_def)
        (metis One_nat_def Suc_le_length_iff numeral_eq_Suc pred_numeral_simps(3))
    then show ?thesis using j(4) by (auto simp: backup_tail_def backup_tail_char_def)
  qed
  have mono: "list_all slug_char xs \<Longrightarrow> list_all backup_tail_char xs"
    "list_all slug_safe xs \<Longrightarrow> list_all backup_tail_char xs" for xs
    by (auto simp: list_all_iff slug_char_def slug_safe_def backup_tail_char_def)
  have dash: "backup_tail_char CHR ''-''" by (simp add: backup_tail_char_def)
  have "list_all backup_tail_char ?r"
    by (rule list_all_at [OF j(1)]) (use j(2) dash t mono(1) [OF j(3)] in simp_all)
  then have "list_all backup_tail_char b"
    by (intro list_all_at [OF i(1)]) (use i(2) dash mono(2) [OF i(3)] in simp_all)
  moreover have "list_all (\<lambda>c. backup_tail_char c \<or> c = CHR ''.'') ''.tar.gz''" by code_simp
  moreover have "c \<in> set b \<or> c \<in> set ''.tar.gz''" using assms(2) unfolding name set_append by blast
  ultimately show ?thesis unfolding list_all_iff by blast
qed

lemma pad02_two:
  assumes "0 \<le> n" "n < 100"
  shows "\<exists>a b. pad02 n = [a, b] \<and> is_digit a \<and> is_digit b"
proof -
  have "length (pad02 n) = 2"
  proof (cases "n < 10")
    case True
    then show ?thesis using assms by (simp add: pad02_def show_nat.simps)
  next
    case False
    then have "\<not> nat n < 10" "nat n div 10 < 10" using assms by auto
    then show ?thesis using False assms
      by (simp add: pad02_def show_int_def show_nat.simps [of "nat n"] show_nat.simps [of "nat n div 10"])
  qed
  then obtain a b where "pad02 n = [a, b]" by (auto simp: length_Suc_conv numeral_2_eq_2)
  then show ?thesis using pad02_digits [OF assms(1)] by auto
qed

lemma list_ex_upt: "i < n \<Longrightarrow> P i \<Longrightarrow> list_ex P [0..<n]"
  by (auto simp: list_ex_iff)

lemma backup_rest_intro:
  assumes "slug_ok slug" "0 \<le> n" "n < 100" "list_all backup_tail_char rest" "rest \<noteq> []"
  shows "backup_rest (slug @ ''-'' @ pad02 n @ ''-'' @ rest)"
proof -
  obtain a b where ab: "pad02 n = [a, b]" "is_digit a" "is_digit b"
    using pad02_two [OF assms(2,3)] by blast
  have "list_all slug_char slug" "slug \<noteq> []" using assms(1) by (auto simp: slug_ok_def)
  moreover have "backup_tail (pad02 n @ ''-'' @ rest)"
    using ab assms(4,5) by (cases rest) (auto simp: backup_tail_def)
  ultimately show ?thesis
    unfolding backup_rest_def
    by (intro list_ex_upt [where i = "length slug"]) (auto simp: nth_append Suc_le_eq)
qed

text \<open>Every archive name the panel generates, for a slug it generated, a slot below 100 and
  tag and timestamp made of letters, digits, dashes and underscores, is accepted by the guard that
  protects deletion; and every name the guard accepts consists of letters, digits, dots, dashes
  and underscores, so it has no path separator and cannot leave the backups directory.\<close>

theorem backup_names_safe:
  assumes "ProfileFor g = Some p" and "slug_ok slug" and "0 \<le> n" "n < 100"
    and "list_all backup_tail_char tag" and "list_all backup_tail_char ts" and "ts \<noteq> []"
  shows "(\<exists>name. FormatGameBackupFileName p slug n tag ts = Val name \<and> IsSafeBackupFileName name) \<and>
    (\<forall>name. IsSafeBackupFileName name \<longrightarrow>
       list_all (\<lambda>c. backup_tail_char c \<or> c = CHR ''.'') name \<and> CHR ''/'' \<notin> set name)"
proof (intro conjI allI impI)
  define rest where "rest = (if tag \<noteq> '''' then tag @ ''-'' @ ts else ts)"
  define body where "body = gp_Prefix p @ ''-'' @ slug @ ''-'' @ pad02 n @ ''-'' @ rest"
  have fmt: "FormatGameBackupFileName p slug n tag ts = Val (body @ ''.tar.gz'')"
    using ProfileFor_registered [OF assms(1)]
    by (simp add: FormatGameBackupFileName_def body_def rest_def)
  have rest: "list_all backup_tail_char rest" "rest \<noteq> []"
    using assms(5-7) by (auto simp: rest_def backup_tail_char_def)
  have pre: "list_all slug_safe (gp_Prefix p)" "gp_Prefix p \<noteq> []" "CHR ''-'' \<notin> set (gp_Prefix p)"
    "list_ex (\<lambda>(_, q). gp_Prefix q = gp_Prefix p) defaultProfiles"
    using assms(1)
    by (auto simp: ProfileFor_iff profile_prefixes slug_safe_def is_lower_def code_def
        defaultProfiles_def)
  have "safeBackupName (body @ ''.tar.gz'')"
  proof -
    have "list_ex (\<lambda>i. i \<ge> 1 \<and> body ! i = CHR ''-'' \<and> list_all slug_safe (take i body) \<and>
        backup_rest (drop (Suc i) body)) [0..<length body]"
      using pre backup_rest_intro [OF assms(2-4) rest] unfolding body_def
      by (intro list_ex_upt [where i = "length (gp_Prefix p)"]) (auto simp: nth_append Suc_le_eq)
    then show ?thesis unfolding safeBackupName_def by simp
  qed
  moreover have "str_index (body @ ''.tar.gz'') ''-'' = Some (length (gp_Prefix p))"
    using str_index_char_some [OF pre(3)] by (simp add: body_def)
  ultimately have "IsSafeBackupFileName (body @ ''.tar.gz'')"
    using pre by (simp add: IsSafeBackupFileName_def body_def)
  then show "\<exists>name. FormatGameBackupFileName p slug n tag ts = Val name \<and> IsSafeBackupFileName name"
    using fmt by blast
next
  fix name assume "IsSafeBackupFileName name"
  then have safe: "safeBackupName name" by (auto simp: IsSafeBackupFileName_def split: if_splits)
  then show "list_all (\<lambda>c. backup_tail_char c \<or> c = CHR ''.'') name"
    using safe_chars by (auto simp: list_all_iff)
  then show "CHR ''/'' \<notin> set name"
    by (auto simp: list_all_iff backup_tail_char_def is_lower_def is_upper_def is_digit_def code_def)
qed

theorem backup_names_safe_witness:
  "\<exists>name. FormatGameBackupFileName MinecraftProfile ''ayyy-world'' 7 ''daily'' ''20261106-180800'' = Val name
     \<and> IsSafeBackupFileName name"
proof -
  have "slug_ok ''ayyy-world''" "list_all backup_tail_char ''daily''"
    "list_all backup_tail_char ''20261106-180800''"
    by code_simp+
  then show ?thesis
    using backup_names_safe [of GameMinecraft MinecraftProfile "''ayyy-world''" 7 "''daily''"
        "''20261106-180800''"] by simp
qed

section \<open>What the environment points at\<close>

lemma env_mc_modlist_lookup:
  "map_of (env_mc_modlist mc mods env) ''CURSEFORGE_FILES'' =
     (if HasCurseForge mods then Some ''@/config-mods/curseforge.txt''
      else map_of env ''CURSEFORGE_FILES'')"
  by (simp add: env_mc_modlist_def Let_def map_of_mput map_of_mput_if)

lemma env_mc_common_sources:
  "map_of (env_mc_common inst mc) ''CURSEFORGE_FILES'' = None"
  "map_of (env_mc_common inst mc) ''MODRINTH_PROJECTS'' = None"
  by (simp_all add: env_mc_common_def Let_def map_of_mput_if)

lemma env_mc_base:
  "map_of (env_minecraft inst mods) ''CURSEFORGE_FILES'' \<noteq> None \<Longrightarrow> HasCurseForge mods"
  by (rule ccontr)
    (simp add: env_minecraft_def Let_def env_mc_modlist_lookup env_mc_common_sources map_of_mput
      split: option.splits if_splits)

text \<open>The environment of a Minecraft world names a CurseForge list only when the Mod list has
  CurseForge entries, and a world defined by a CurseForge or Modrinth pack never names a Mod list
  file: the server resolves the pack itself. A Valheim world runs BepInEx exactly when it is not
  vanilla.\<close>

theorem env_mod_sources:
  shows "(HasCurseForge mods \<or> map_of (env_minecraft inst mods) ''CURSEFORGE_FILES'' = None) \<and>
    (PackDefined inst \<and> Minecraft inst = Some mc \<and> mc_Pack mc = Some pk \<and>
       (pack_Provider pk = ProviderCurseForge \<or> pack_Provider pk = ProviderModrinth) \<longrightarrow>
       map_of (env_minecraft inst mods) ''MODRINTH_PROJECTS'' = None \<and>
       map_of (env_minecraft inst mods) ''CURSEFORGE_FILES'' = None) \<and>
    map_of (env_valheim inst) ''BEPINEX'' = Some (boolText (inst_Source inst \<noteq> SourceVanilla))"
proof (intro conjI impI)
  show "HasCurseForge mods \<or> map_of (env_minecraft inst mods) ''CURSEFORGE_FILES'' = None"
    using env_mc_base by blast
next
  assume a: "PackDefined inst \<and> Minecraft inst = Some mc \<and> mc_Pack mc = Some pk \<and>
       (pack_Provider pk = ProviderCurseForge \<or> pack_Provider pk = ProviderModrinth)"
  then show "map_of (env_minecraft inst mods) ''MODRINTH_PROJECTS'' = None"
    "map_of (env_minecraft inst mods) ''CURSEFORGE_FILES'' = None"
    by (elim conjE disjE; simp add: env_minecraft_def Let_def map_of_mput env_mc_common_sources)+
next
  show "map_of (env_valheim inst) ''BEPINEX'' = Some (boolText (inst_Source inst \<noteq> SourceVanilla))"
    by (simp add: env_valheim_def Let_def map_of_mput_if IsVanilla_def)
qed

theorem env_mod_sources_witness:
  "map_of (env_minecraft (zero_instance\<lparr>inst_Source := SourceModpack,
      Minecraft := Some (zero_mc\<lparr>mc_Pack := Some \<lparr>pack_Provider = ProviderModrinth, pack_Ref = ''adrn'',
        pack_Name = ''Adrenaline''\<rparr>\<rparr>)\<rparr>) empty_modlist) ''MODRINTH_PROJECTS'' = None"
  using env_mod_sources [of empty_modlist "zero_instance\<lparr>inst_Source := SourceModpack,
      Minecraft := Some (zero_mc\<lparr>mc_Pack := Some \<lparr>pack_Provider = ProviderModrinth, pack_Ref = ''adrn'',
        pack_Name = ''Adrenaline''\<rparr>\<rparr>)\<rparr>"
      "zero_mc\<lparr>mc_Pack := Some \<lparr>pack_Provider = ProviderModrinth, pack_Ref = ''adrn'',
        pack_Name = ''Adrenaline''\<rparr>\<rparr>"
      "\<lparr>pack_Provider = ProviderModrinth, pack_Ref = ''adrn'', pack_Name = ''Adrenaline''\<rparr>"]
  by (simp add: PackDefined_def)

section \<open>Ports do not collide\<close>

text \<open>On one machine, two worlds of a game with a port stride publish different host ports as
  long as the container ports lie less than one stride apart, and two Valheim worlds in slots 1 to
  3000 share none of their game, query and status ports.\<close>

theorem host_ports_disjoint:
  assumes "\<not> IsCluster host" and "1 \<le> m" "1 \<le> n" "m \<noteq> n"
  shows "(gp_PortStride p > \<bar>c - d\<bar> \<longrightarrow>
            (\<exists>a b. HostPortFor p host m c = Inr a \<and> HostPortFor p host n d = Inr b \<and> a \<noteq> b)) \<and>
    (m \<le> 3000 \<and> n \<le> 3000 \<longrightarrow>
       (case (ValheimHostPortsFor host m, ValheimHostPortsFor host n) of
          ((g, q, s), (g', q', s')) \<Rightarrow> {g, q, s} \<inter> {g', q', s'} = {}))"
proof (intro conjI impI)
  assume "gp_PortStride p > \<bar>c - d\<bar>"
  then show "\<exists>a b. HostPortFor p host m c = Inr a \<and> HostPortFor p host n d = Inr b \<and> a \<noteq> b"
    using assms stride_disjoint [of m n c d "gp_PortStride p"]
    by (auto simp: HostPortFor_host)
next
  assume "m \<le> 3000 \<and> n \<le> 3000"
  then show "case (ValheimHostPortsFor host m, ValheimHostPortsFor host n) of
          ((g, q, s), (g', q', s')) \<Rightarrow> {g, q, s} \<inter> {g', q', s'} = {}"
    using assms
    by (simp add: ValheimHostPortsFor_def Let_def ValheimGamePort_def valheimPortsPerWorld_def
        valheimStatusPortBase_def, presburger?)
qed

theorem host_ports_disjoint_witness:
  "HostPortFor MinecraftProfile ''pi'' 1 25565 \<noteq> HostPortFor MinecraftProfile ''pi'' 2 25575"
proof -
  have "\<not> IsCluster ''pi''" by code_simp
  then show ?thesis
    using host_ports_disjoint [of "''pi''" 1 2 25565 25575 MinecraftProfile]
    by (auto simp: MinecraftProfile_def)
qed

end
