(* ===== verification/Budgets.thy ===== *)
theory Budgets
  imports Instances
begin

text \<open>
  \<open>internal/domain/budget.go\<close>: the RAM and slot budget across a game's Instances. Reading an
  Instance's memory can panic, so every function that does so returns an outcome; on a
  registered profile none of them panics.
\<close>

definition DefaultMaxInstances :: int where "DefaultMaxInstances = 4"
definition DefaultMaxRunning :: int where "DefaultMaxRunning = 2"
definition DefaultTotalBudgetGiB :: int where "DefaultTotalBudgetGiB = 24"

record Budget =
  TotalBudgetGiB :: int
  UsedGiB :: int
  MaxRunning :: int
  RunningCount :: int
  MaxInstances :: int
  TotalInstances :: int

fun usage :: "GameProfile \<Rightarrow> Instance list \<Rightarrow> int \<Rightarrow> int \<Rightarrow> (int \<times> int) outcome" where
  \<comment> \<open>the loop over the instances: \<open>(usedGiB, runningCount)\<close>\<close>
  "usage profile [] used running = Val (used, running)"
| "usage profile (i # is) used running =
     (if State i = StateRunning
      then bindv (MemoryGiB i profile) (\<lambda>m. usage profile is (used + m) (running + 1))
      else usage profile is used running)"

definition CalculateBudget ::
  "GameProfile \<Rightarrow> Instance list \<Rightarrow> int \<Rightarrow> int \<Rightarrow> int \<Rightarrow> Budget outcome" where
  "CalculateBudget profile instances totalBudgetGiB maxRunning maxInstances =
     (let tot = (if totalBudgetGiB \<le> 0 then DefaultTotalBudgetGiB else totalBudgetGiB);
          running = (if maxRunning \<le> 0 then DefaultMaxRunning else maxRunning);
          insts = (if maxInstances \<le> 0 then DefaultMaxInstances else maxInstances)
      in bindv (usage profile instances 0 0) (\<lambda>(used, count).
           Val \<lparr>TotalBudgetGiB = tot, UsedGiB = used, MaxRunning = running,
                RunningCount = count, MaxInstances = insts,
                TotalInstances = int (length instances)\<rparr>))"

definition AddUsage :: "Budget \<Rightarrow> int \<Rightarrow> int \<Rightarrow> Budget" where
  "AddUsage b runningCount usedGiB =
     b\<lparr>RunningCount := RunningCount b + runningCount, UsedGiB := UsedGiB b + usedGiB\<rparr>"

definition max_running_msg :: "Budget \<Rightarrow> string" where
  "max_running_msg b =
     ''cannot start instance: maximum of '' @ show_int (MaxRunning b)
     @ '' running instances reached (please stop another server first)''"

definition ram_msg :: "Budget \<Rightarrow> int \<Rightarrow> string" where
  "ram_msg b mem =
     ''cannot start instance: RAM budget exceeded ('' @ show_int (UsedGiB b)
     @ '' GiB in use, requires '' @ show_int mem @ '' GiB, total budget is ''
     @ show_int (TotalBudgetGiB b) @ '' GiB)''"

definition CanStart :: "Budget \<Rightarrow> GameProfile \<Rightarrow> Instance \<Rightarrow> goerr option outcome" where
  "CanStart b profile inst =
     (if MaxRunning b > 0 \<and> RunningCount b \<ge> MaxRunning b
        then Val (Some (Errorf (max_running_msg b)))
      else if TotalBudgetGiB b > 0
        then bindv (MemoryGiB inst profile) (\<lambda>mem.
               if UsedGiB b + mem > TotalBudgetGiB b then Val (Some (Errorf (ram_msg b mem)))
               else Val None)
      else Val None)"

definition StartBlockedReason :: "Budget \<Rightarrow> GameProfile \<Rightarrow> Instance \<Rightarrow> (bool \<times> string) outcome" where
  "StartBlockedReason b profile inst =
     (if State inst = StateRunning then Val (False, '''')
      else if MaxRunning b > 0 \<and> RunningCount b \<ge> MaxRunning b
        then Val (False, ''Max '' @ show_int (MaxRunning b) @ '' running instances reached'')
      else bindv (MemoryGiB inst profile) (\<lambda>mem.
             if TotalBudgetGiB b > 0 \<and> UsedGiB b + mem > TotalBudgetGiB b
             then Val (False, ''Exceeds '' @ show_int (TotalBudgetGiB b) @ '' GiB RAM budget (''
                              @ show_int (UsedGiB b) @ '' used + '' @ show_int mem @ '' required)'')
             else Val (True, '''')))"

definition CanCreate :: "Budget \<Rightarrow> goerr option" where
  "CanCreate b =
     (if MaxInstances b > 0 \<and> TotalInstances b \<ge> MaxInstances b
      then Some (Errorf (''cannot create instance: maximum limit of '' @ show_int (MaxInstances b)
                         @ '' instances reached''))
      else None)"

section \<open>Accounting\<close>

definition mem_of :: "GameProfile \<Rightarrow> Instance \<Rightarrow> int" where
  "mem_of p i = (case MemoryGiB i p of Val m \<Rightarrow> m | Panic _ \<Rightarrow> 0)"

definition is_running :: "Instance \<Rightarrow> bool" where
  "is_running i = (State i = StateRunning)"

lemma MemoryGiB_mem_of: "registered p \<Longrightarrow> MemoryGiB i p = Val (mem_of p i)"
  using MemoryGiB_val [of p i] by (auto simp: mem_of_def)

lemma MemoryGiB_state: "MemoryGiB (i\<lparr>State := s\<rparr>) p = MemoryGiB i p"
  by (simp add: MemoryGiB_def EffectiveResources_def Let_def)

lemma mem_of_state [simp]: "mem_of p (i\<lparr>State := s\<rparr>) = mem_of p i"
  by (simp add: mem_of_def MemoryGiB_state)

lemma running_now [simp]: "is_running (i\<lparr>State := StateRunning\<rparr>)"
  by (simp add: is_running_def)

lemma usage_sum:
  assumes "registered p"
  shows "usage p is u r =
    Val (u + (\<Sum>i\<leftarrow>filter is_running is. mem_of p i), r + int (length (filter is_running is)))"
  by (induction "is" arbitrary: u r)
    (simp_all add: MemoryGiB_mem_of [OF assms] is_running_def algebra_simps)

lemma CalculateBudget_val:
  assumes "registered p"
  shows "\<exists>b. CalculateBudget p is tot running insts = Val b \<and>
    UsedGiB b = (\<Sum>i\<leftarrow>filter is_running is. mem_of p i) \<and>
    RunningCount b = int (length (filter is_running is)) \<and>
    TotalInstances b = int (length is) \<and>
    0 < TotalBudgetGiB b \<and> 0 < MaxRunning b \<and> 0 < MaxInstances b \<and>
    (0 < tot \<longrightarrow> TotalBudgetGiB b = tot) \<and> (0 < running \<longrightarrow> MaxRunning b = running) \<and>
    (0 < insts \<longrightarrow> MaxInstances b = insts)"
  by (simp add: CalculateBudget_def Let_def usage_sum [OF assms] DefaultTotalBudgetGiB_def
      DefaultMaxRunning_def DefaultMaxInstances_def)

lemma CanStart_None:
  assumes "registered p" and "0 < TotalBudgetGiB b" and "0 < MaxRunning b"
  shows "CanStart b p i = Val None \<longleftrightarrow>
    RunningCount b < MaxRunning b \<and> UsedGiB b + mem_of p i \<le> TotalBudgetGiB b"
  using assms by (simp add: CanStart_def MemoryGiB_mem_of)

text \<open>If the budget computed over the other worlds lets an Instance start, then once it runs
  the number of running worlds is within the configured maximum and their memory requests add up
  to no more than the RAM budget; and if the budget refuses, starting it would break one of the
  two limits. The check never panics on a registered game.\<close>

theorem CanStart_exact:
  assumes "registered p" and "CalculateBudget p others tot running insts = Val b"
  shows "\<exists>r b'. CanStart b p inst = Val r \<and>
    CalculateBudget p (inst\<lparr>State := StateRunning\<rparr> # others) tot running insts = Val b' \<and>
    (r = None \<longleftrightarrow> RunningCount b' \<le> MaxRunning b' \<and> UsedGiB b' \<le> TotalBudgetGiB b') \<and>
    UsedGiB b' = UsedGiB b + mem_of p inst"
proof -
  let ?new = "inst\<lparr>State := StateRunning\<rparr> # others"
  obtain b' where b': "CalculateBudget p ?new tot running insts = Val b'"
    using CalculateBudget_val [OF assms(1)] by metis
  have lim: "MaxRunning b' = MaxRunning b" "TotalBudgetGiB b' = TotalBudgetGiB b"
    "0 < MaxRunning b" "0 < TotalBudgetGiB b"
    using b' assms(2)
    by (auto simp: CalculateBudget_def Let_def bindv_Val_iff DefaultMaxRunning_def
        DefaultTotalBudgetGiB_def)
  have used: "UsedGiB b' = UsedGiB b + mem_of p inst" "RunningCount b' = RunningCount b + 1"
    using b' assms(2)
    by (auto simp: CalculateBudget_def Let_def usage_sum [OF assms(1)] simp del: usage.simps)
  have "\<exists>r. CanStart b p inst = Val r"
    using assms(1) by (simp add: CanStart_def MemoryGiB_mem_of)
  then show ?thesis
    using b' lim used CanStart_None [OF assms(1), of b inst] by auto
qed

theorem CanStart_exact_witness:
  "\<exists>b r. CalculateBudget MinecraftProfile [zero_instance\<lparr>State := StateRunning\<rparr>] 24 2 4 = Val b \<and>
     CanStart b MinecraftProfile (zero_instance\<lparr>inst_Tier := TierLarge\<rparr>) = Val r \<and>
     UsedGiB b = 8"
proof -
  obtain b where b: "CalculateBudget MinecraftProfile [zero_instance\<lparr>State := StateRunning\<rparr>] 24 2 4 = Val b"
    "UsedGiB b = 8"
    by (simp add: CalculateBudget_def MemoryGiB_def EffectiveResources_def resource_tables
        Resources_IsZero_def zero_instance_def TierSmall_def TierMedium_def TierLarge_def)
  then show ?thesis
    using CanStart_exact [of MinecraftProfile _ 24 2 4 b "zero_instance\<lparr>inst_Tier := TierLarge\<rparr>"]
      registered_profiles(1) by blast
qed

text \<open>The start button and the start operation agree: for a world that is not running, the
  panel offers a start exactly when the start check passes, and otherwise gives a reason.\<close>

theorem StartBlockedReason_agrees:
  assumes "registered p" and "State inst \<noteq> StateRunning"
  shows "\<exists>ok why r. StartBlockedReason b p inst = Val (ok, why) \<and> CanStart b p inst = Val r \<and>
    (ok \<longleftrightarrow> r = None) \<and> (ok \<longleftrightarrow> why = '''')"
  using assms by (auto simp: StartBlockedReason_def CanStart_def MemoryGiB_mem_of)

theorem StartBlockedReason_agrees_witness:
  "\<exists>ok why. StartBlockedReason \<lparr>TotalBudgetGiB = 24, UsedGiB = 20, MaxRunning = 4, RunningCount = 2,
       MaxInstances = 4, TotalInstances = 4\<rparr> ValheimProfile zero_instance = Val (ok, why)"
  using StartBlockedReason_agrees [of ValheimProfile zero_instance]
  by (fastforce simp: zero_instance_def StateRunning_def)

end
