(* ===== verification/Accounts.thy ===== *)
theory Accounts
  imports Instances
begin

text \<open>
  \<open>internal/domain/account.go\<close>: roles, identities and principals, and who may operate which
  Instance.
\<close>

type_synonym Role = string

definition RoleAdmin :: Role where "RoleAdmin = ''agrelha-admin''"
definition RoleUser :: Role where "RoleUser = ''agrelha-user''"
definition rolePrefix :: string where "rolePrefix = ''agrelha-''"

definition InstanceRole :: "GameID \<Rightarrow> int \<Rightarrow> Role" where
  "InstanceRole game number = rolePrefix @ game @ ''-'' @ pad02 number"

definition ParseInstanceRole :: "Role \<Rightarrow> (GameID \<times> int) option" where
  \<comment> \<open>\<open>None\<close> for the result \<open>"", 0, false\<close>\<close>
  "ParseInstanceRole r =
     (if \<not> has_prefix r rolePrefix then None
      else (let rest = drop (length rolePrefix) r
            in case str_last_index rest ''-'' of
                 None \<Rightarrow> None
               | Some idx \<Rightarrow>
                   (if idx = 0 then None
                    else (let game = take idx rest
                          in case ProfileFor game of
                               None \<Rightarrow> None
                             | Some _ \<Rightarrow>
                                 (case atoi (drop (idx + 1) rest) of
                                    None \<Rightarrow> None
                                  | Some number \<Rightarrow>
                                      (if number \<le> 0 then None
                                       else if InstanceRole game number \<noteq> r then None
                                       else Some (game, number)))))))"

definition IsAgrelhaRole :: "Role \<Rightarrow> bool" where
  "IsAgrelhaRole r = has_prefix r rolePrefix"

record Identity =
  id_Subject :: string
  id_Email :: string
  id_Name :: string
  id_Username :: string
  id_Roles :: "Role list"

definition HasRole :: "Identity \<Rightarrow> Role \<Rightarrow> bool" where
  "HasRole i want = (want \<in> set (id_Roles i))"

definition MaySignIn :: "Identity \<Rightarrow> bool" where
  "MaySignIn i = list_ex IsAgrelhaRole (id_Roles i)"

definition InstanceRoles :: "Identity \<Rightarrow> Role list" where
  "InstanceRoles i = filter (\<lambda>r. ParseInstanceRole r \<noteq> None) (id_Roles i)"

record Account =
  acc_Subject :: string
  acc_Email :: string
  acc_Name :: string
  acc_Username :: string
  acc_FirstSeen :: Time
  acc_LastSeen :: Time

definition Account_Label :: "Account \<Rightarrow> string" where
  "Account_Label a =
     (if acc_Username a \<noteq> '''' then acc_Username a
      else if acc_Name a \<noteq> '''' then acc_Name a
      else if acc_Email a \<noteq> '''' then acc_Email a
      else acc_Subject a)"

record Principal =
  pr_Identity :: Identity
  pr_Admin :: bool
  pr_Owned :: "InstanceID list"

definition NewPrincipal :: "Identity \<Rightarrow> Principal" where
  "NewPrincipal i = \<lparr>pr_Identity = i, pr_Admin = HasRole i RoleAdmin, pr_Owned = []\<rparr>"

definition WithOwned :: "Principal \<Rightarrow> InstanceID list \<Rightarrow> Principal" where
  "WithOwned p owned = p\<lparr>pr_Owned := owned\<rparr>"

definition Created :: "Principal \<Rightarrow> GameID \<Rightarrow> int \<Rightarrow> bool" where
  "Created p game number = (NewInstanceID game number \<in> set (pr_Owned p))"

definition SignedIn :: "Principal \<Rightarrow> bool" where
  "SignedIn p = (id_Subject (pr_Identity p) \<noteq> '''')"

definition CanOperate :: "Principal \<Rightarrow> GameID \<Rightarrow> int \<Rightarrow> bool" where
  "CanOperate p game number =
     (if \<not> SignedIn p then False
      else if pr_Admin p then True
      else if Created p game number then True
      else HasRole (pr_Identity p) (InstanceRole game number))"

definition CanSee :: "Principal \<Rightarrow> GameID \<Rightarrow> int \<Rightarrow> bool" where
  "CanSee p game number = CanOperate p game number"

section \<open>Roles name Instances\<close>

lemma InstanceRole_unique:
  assumes "0 \<le> m" "m \<le> int_max" "0 \<le> n" "n \<le> int_max" "InstanceRole g m = InstanceRole h n"
  shows "g = h \<and> m = n"
proof -
  have "g @ ''-'' @ pad02 m = h @ ''-'' @ pad02 n"
    using assms(5) by (simp add: InstanceRole_def)
  then have "g = h \<and> pad02 m = pad02 n"
    by (rule dash_split_unique) (use assms pad02_no_dash in simp_all)
  then show ?thesis using assms(1-4) pad02_inj by blast
qed

lemma ParseInstanceRole_InstanceRole:
  assumes "ProfileFor g = Some p" and "0 < n" "n \<le> int_max"
  shows "ParseInstanceRole (InstanceRole g n) = Some (g, n)"
proof -
  have idx: "str_last_index (g @ ''-'' @ pad02 n) ''-'' = Some (length g)"
    using str_last_index_char_some [of "CHR ''-''" "pad02 n" g] pad02_no_dash assms(2) by simp
  have "g \<noteq> ''''" using assms(1) by (auto simp: ProfileFor_iff)
  moreover have "drop (length rolePrefix) (InstanceRole g n) = g @ ''-'' @ pad02 n"
    "has_prefix (InstanceRole g n) rolePrefix"
    by (simp_all add: InstanceRole_def)
  moreover have "atoi (pad02 n) = Some n" using assms by (simp add: atoi_pad02)
  ultimately show ?thesis
    using assms idx by (simp add: ParseInstanceRole_def)
qed

lemma ParseInstanceRole_Some:
  "ParseInstanceRole r = Some (g, n) \<Longrightarrow> r = InstanceRole g n \<and> ProfileFor g \<noteq> None \<and> 0 < n"
  by (auto simp: ParseInstanceRole_def Let_def split: if_splits option.splits)

text \<open>Reading a role back inverts writing it: a role string parses to a game and a number
  exactly when it is the role the panel writes for that registered game and positive number, so no
  other spelling (a sign, extra zeros, another prefix) is ever taken for an Instance's role.\<close>

theorem instance_role_roundtrip:
  assumes "n \<le> int_max"
  shows "ParseInstanceRole r = Some (g, n) \<longleftrightarrow>
    r = InstanceRole g n \<and> ProfileFor g \<noteq> None \<and> 0 < n"
  using ParseInstanceRole_Some ParseInstanceRole_InstanceRole assms by fastforce

theorem instance_role_roundtrip_witness:
  "ParseInstanceRole ''agrelha-gmod-03'' = Some (''gmod'', 3)"
proof -
  have "''agrelha-gmod-03'' = InstanceRole ''gmod'' 3" "ProfileFor ''gmod'' \<noteq> None"
    by code_simp+
  then show ?thesis
    using instance_role_roundtrip [of 3 "''agrelha-gmod-03''" "''gmod''"] by (simp add: int_max_def)
qed



end
