(* ===== verification/Mods.thy ===== *)
theory Mods
  imports Instances
begin

text \<open>
  \<open>internal/domain/mod.go\<close>: mod references of the three catalogues, their entries in a mod list
  file, the order on mod versions, and restore points.
\<close>

section \<open>Searching\<close>

record ModQuery =
  mq_Text :: string
  mq_Sort :: string
  mq_Deprecated :: bool
  mq_Limit :: int

definition ModSortRelevance :: string where "ModSortRelevance = ''relevance''"
definition ModSortDownloads :: string where "ModSortDownloads = ''downloads''"
definition ModSortUpdated :: string where "ModSortUpdated = ''updated''"
definition ModSortName :: string where "ModSortName = ''name''"
definition DefaultModSearchLimit :: int where "DefaultModSearchLimit = 24"

definition ParseModSort :: "string \<Rightarrow> string" where
  "ParseModSort v =
     (let s = to_lower (trim_space v)
      in if s \<in> set [ModSortRelevance, ModSortDownloads, ModSortUpdated, ModSortName] then s
         else '''')"

definition WithDefaults :: "ModQuery \<Rightarrow> ModQuery" where
  "WithDefaults q0 =
     (let q = q0\<lparr>mq_Text := trim_space (mq_Text q0)\<rparr>;
          q = (if mq_Limit q \<le> 0 then q\<lparr>mq_Limit := DefaultModSearchLimit\<rparr> else q)
      in if mq_Sort q = '''' \<or> (mq_Sort q = ModSortRelevance \<and> mq_Text q = '''')
         then (if mq_Text q = '''' then q\<lparr>mq_Sort := ModSortDownloads\<rparr>
               else q\<lparr>mq_Sort := ModSortRelevance\<rparr>)
         else q)"

section \<open>Thunderstore and Modrinth references\<close>

record ModRef =
  mr_Namespace :: string
  mr_Name :: string
  mr_Version :: string

definition mod_ref :: "string \<Rightarrow> string \<Rightarrow> string \<Rightarrow> ModRef" where
  "mod_ref ns name version = \<lparr>mr_Namespace = ns, mr_Name = name, mr_Version = version\<rparr>"

definition isSemver :: "string \<Rightarrow> bool" where
  "isSemver s =
     (let parts = split_on CHR ''.'' s
      in length parts = 3 \<and> list_all (\<lambda>p. p \<noteq> '''' \<and> list_all is_digit p) parts)"

definition parse_slash :: "string \<Rightarrow> ModRef option" where
  \<comment> \<open>at least three segments: everything before the last two is the namespace\<close>
  "parse_slash entry =
     (let parts = split_on CHR ''/'' entry; n = length parts
      in if n \<ge> 3
         then Some (mod_ref (join ''/'' (take (n - 2) parts)) (parts ! (n - 2)) (parts ! (n - 1)))
         else None)"

definition parse_minecraft :: "string \<Rightarrow> ModRef" where
  "parse_minecraft entry =
     (let (slug, version, ok) = cut entry '':''
      in if ok \<and> slug \<noteq> '''' \<and> version \<noteq> '''' then mod_ref '''' slug version
         else (let parts = split_on CHR ''/'' entry
               in if length parts = 2 \<and> parts ! 0 \<noteq> '''' \<and> parts ! 1 \<noteq> ''''
                  then mod_ref '''' (parts ! 0) (parts ! 1)
                  else mod_ref '''' entry ''''))"

definition parse_valheim :: "string \<Rightarrow> ModRef option" where
  "parse_valheim entry =
     (let (ns, rest, ok) = cut entry ''-''
      in if ok \<and> ns \<noteq> '''' \<and> rest \<noteq> ''''
         then (let (name, version, ok2) = cut rest ''-''
               in if ok2 \<and> isSemver version then Some (mod_ref ns name version)
                  else Some (mod_ref ns rest ''''))
         else None)"

definition ParseModRef :: "string \<Rightarrow> GameID \<Rightarrow> ModRef option" where
  "ParseModRef entry0 game =
     (let entry = trim_suffix (trim_space entry0) ''?''
      in if entry = '''' \<or> has_prefix entry ''#'' then None
         else (case parse_slash entry of
                 Some r \<Rightarrow> Some r
               | None \<Rightarrow>
                   (if game = GameMinecraft then Some (parse_minecraft entry)
                    else if game = GameValheim then
                      (case parse_valheim entry of
                         Some r \<Rightarrow> Some r
                       | None \<Rightarrow> Some (mod_ref '''' entry ''''))
                    else Some (mod_ref '''' entry ''''))))"

definition ModRef_Key :: "ModRef \<Rightarrow> string" where
  "ModRef_Key r =
     (if mr_Namespace r = '''' then to_lower (mr_Name r)
      else to_lower (mr_Namespace r @ ''-'' @ mr_Name r))"

definition ModRef_FullName :: "ModRef \<Rightarrow> string" where
  "ModRef_FullName r =
     (if mr_Namespace r = '''' then mr_Name r else mr_Namespace r @ ''-'' @ mr_Name r)"

definition ModRef_Entry :: "ModRef \<Rightarrow> string" where
  "ModRef_Entry r =
     (if mr_Namespace r \<noteq> '''' \<and> mr_Version r \<noteq> ''''
        then mr_Namespace r @ ''/'' @ mr_Name r @ ''/'' @ mr_Version r
      else if mr_Namespace r \<noteq> '''' then mr_Namespace r @ ''-'' @ mr_Name r
      else if mr_Version r \<noteq> '''' then mr_Name r @ '':'' @ mr_Version r
      else mr_Name r)"

definition CatalogKey :: "ModRef \<Rightarrow> string" where
  "CatalogKey r =
     (if mr_Namespace r = '''' then mr_Name r else mr_Namespace r @ ''/'' @ mr_Name r)"

section \<open>Versions\<close>

definition parseLeadingInt :: "string \<Rightarrow> int \<times> string" where
  \<comment> \<open>\<open>Atoi\<close> of a digit string too large for 64 bits returns the largest integer\<close>
  "parseLeadingInt s0 =
     (let s = trim_space s0; ds = takeWhile is_digit s
      in if ds = '''' then (0, s)
         else (min (int (nat_of_digits ds)) int_max, drop (length ds) s))"

definition seg :: "string list \<Rightarrow> int \<times> string" where
  \<comment> \<open>the current segment of a version, \<open>(0, "")\<close> past its end\<close>
  "seg xs = (case xs of [] \<Rightarrow> (0, '''') | x # _ \<Rightarrow> parseLeadingInt x)"

fun newer_segments :: "nat \<Rightarrow> string list \<Rightarrow> string list \<Rightarrow> bool option" where
  \<comment> \<open>the loop over \<open>n\<close> segments: \<open>Some\<close> when it returns, \<open>None\<close> when it falls through\<close>
  "newer_segments 0 xs ys = None"
| "newer_segments (Suc n) xs ys =
     (let (av, aRem) = seg xs; (bv, bRem) = seg ys
      in if av \<noteq> bv then Some (av > bv)
         else if aRem \<noteq> bRem \<and> aRem \<noteq> '''' \<and> bRem \<noteq> '''' then Some (aRem > bRem)
         else newer_segments n (tl xs) (tl ys))"

definition newer_dotted :: "string \<Rightarrow> string \<Rightarrow> bool option" where
  "newer_dotted a b =
     (let xs = split_on CHR ''.'' a; ys = split_on CHR ''.'' b
      in newer_segments (max (length xs) (length ys)) xs ys)"

definition newer_parsed :: "string \<Rightarrow> string \<Rightarrow> bool" where
  \<comment> \<open>\<open>VersionNewer\<close> after the special cases and the stripping of a leading v\<close>
  "newer_parsed a b =
     (let (baseA, buildA, _) = cut a ''+''; (baseB, buildB, _) = cut b ''+'';
          (coreA, preA, hasPreA) = cut baseA ''-''; (coreB, preB, hasPreB) = cut baseB ''-''
      in case newer_dotted coreA coreB of
           Some r \<Rightarrow> r
         | None \<Rightarrow>
             (if hasPreA \<noteq> hasPreB then \<not> hasPreA \<and> hasPreB
              else if hasPreA \<and> hasPreB \<and> preA \<noteq> preB then preA > preB
              else if buildA \<noteq> buildB \<and> buildA \<noteq> '''' \<and> buildB \<noteq> ''''
                then (case newer_dotted buildA buildB of Some r \<Rightarrow> r | None \<Rightarrow> buildA > buildB)
              else False))"

definition strip_v :: "string \<Rightarrow> string" where
  "strip_v a = trim_prefix (trim_prefix a ''v'') ''V''"

definition unpinned :: "string \<Rightarrow> bool" where
  "unpinned b = (b = '''' \<or> b = ''(unpinned)'' \<or> b = ''unpinned'')"

definition VersionNewer :: "string \<Rightarrow> string \<Rightarrow> bool" where
  "VersionNewer a0 b0 =
     (let a = trim_space a0; b = trim_space b0
      in if a = b then False
         else if a = '''' then False
         else if unpinned b then True
         else newer_parsed (strip_v a) (strip_v b))"

section \<open>Updates and restore points\<close>

record ModUpdate =
  mu_Ref :: ModRef
  mu_Current :: string
  mu_Latest :: string

record ModRestorePoint =
  rp_At :: Time
  rp_Previous :: "string list"
  rp_Applied :: "string list"

fun count_up :: "(string \<times> nat) list \<Rightarrow> string list \<Rightarrow> (string \<times> nat) list" where
  "count_up hv [] = hv"
| "count_up hv (e # es) =
     count_up (AList.update (trim_space e) (mget hv (trim_space e) 0 + 1) hv) es"

fun take_all :: "(string \<times> nat) list \<Rightarrow> string list \<Rightarrow> bool" where
  "take_all hv [] = True"
| "take_all hv (e # es) =
     (let k = trim_space e
      in if mget hv k 0 = 0 then False
         else take_all (AList.update k (mget hv k 0 - 1) hv) es)"

definition Matches :: "ModRestorePoint \<Rightarrow> string list \<Rightarrow> bool" where
  "Matches p entries =
     (if length entries \<noteq> length (rp_Applied p) then False
      else take_all (count_up [] entries) (rp_Applied p))"

section \<open>Minecraft references\<close>

record MCModRef =
  mcr_Provider :: Provider
  mcr_Slug :: string
  mcr_Pin :: string

definition ParseMCModRef :: "string \<Rightarrow> Provider \<Rightarrow> MCModRef option" where
  "ParseMCModRef line0 provider =
     (let line = trim_space line0
      in if line = '''' \<or> has_prefix line ''#'' then None
         else (let (slug, pin, ok) = cut line '':'';
                   ref = (if ok then \<lparr>mcr_Provider = provider, mcr_Slug = trim_space slug,
                                       mcr_Pin = trim_space pin\<rparr>
                          else \<lparr>mcr_Provider = provider, mcr_Slug = line, mcr_Pin = ''''\<rparr>)
               in if mcr_Slug ref = '''' then None else Some ref))"

definition MCModRef_Entry :: "MCModRef \<Rightarrow> string" where
  "MCModRef_Entry r = (if mcr_Pin r = '''' then mcr_Slug r else mcr_Slug r @ '':'' @ mcr_Pin r)"

definition MCModRef_Key :: "MCModRef \<Rightarrow> string" where
  "MCModRef_Key r = mcr_Provider r @ ''/'' @ to_lower (mcr_Slug r)"

definition SplitModLines :: "string \<Rightarrow> Provider \<Rightarrow> MCModRef list" where
  "SplitModLines body provider =
     List.map_filter (\<lambda>line. ParseMCModRef line provider) (lines_of body)"

definition JoinModLines :: "MCModRef list \<Rightarrow> string" where
  "JoinModLines refs = concat (map (\<lambda>r. MCModRef_Entry r @ [NL]) refs)"

section \<open>The version order is asymmetric\<close>

lemma newer_segments_flip:
  "newer_segments n ys xs = map_option Not (newer_segments n xs ys)"
proof (induction n xs ys rule: newer_segments.induct)
  case (1 xs ys)
  then show ?case by simp
next
  case (2 n xs ys)
  then show ?case by (auto simp: Let_def split: prod.splits)
qed

lemma newer_dotted_flip: "newer_dotted b a = map_option Not (newer_dotted a b)"
  unfolding newer_dotted_def Let_def
  by (subst max.commute, rule newer_segments_flip)

lemma newer_parsed_asym:
  assumes "newer_parsed a b"
  shows "\<not> newer_parsed b a"
proof -
  obtain cA bA x where a: "cut a ''+'' = (cA, bA, x)" by (cases "cut a ''+''")
  obtain cB bB y where b: "cut b ''+'' = (cB, bB, y)" by (cases "cut b ''+''")
  obtain kA pA hA where ka: "cut cA ''-'' = (kA, pA, hA)" by (cases "cut cA ''-''")
  obtain kB pB hB where kb: "cut cB ''-'' = (kB, pB, hB)" by (cases "cut cB ''-''")
  note flips = newer_dotted_flip [of kB kA] newer_dotted_flip [of bB bA]
  have ord: "\<not> y < (x :: string)" if "x < y" for x y using that by auto
  show ?thesis
  proof (cases "newer_dotted kA kB")
    case None
    show ?thesis
    proof (cases "newer_dotted bA bB")
      case None
      then show ?thesis
        using assms \<open>newer_dotted kA kB = None\<close> ord [of pA pB] ord [of pB pA] ord [of bB bA]
        by (simp add: newer_parsed_def a b ka kb flips split: if_splits)
    next
      case (Some r)
      then show ?thesis
        using assms \<open>newer_dotted kA kB = None\<close> ord [of pA pB] ord [of pB pA]
        by (simp add: newer_parsed_def a b ka kb flips split: if_splits)
    qed
  next
    case (Some r)
    then show ?thesis
      using assms by (simp add: newer_parsed_def a b ka kb flips)
  qed
qed

lemma VersionNewer_irrefl: "\<not> VersionNewer a a"
  by (simp add: VersionNewer_def Let_def)

text \<open>No version is newer than itself, and two version texts are never each newer than the
  other, as long as neither is one of the markers of an unpinned mod; so the update check cannot
  flip between two pins.\<close>

theorem VersionNewer_asym:
  assumes "\<not> unpinned (trim_space a)" "\<not> unpinned (trim_space b)" "VersionNewer a b"
  shows "\<not> VersionNewer b a \<and> trim_space a \<noteq> trim_space b"
  using assms newer_parsed_asym by (auto simp: VersionNewer_def Let_def split: if_splits)

theorem VersionNewer_asym_witness:
  "VersionNewer ''5.4.2202'' '' v5.4.9'' \<and> \<not> VersionNewer '' v5.4.9'' ''5.4.2202''"
proof -
  have "VersionNewer ''5.4.2202'' '' v5.4.9''" "\<not> unpinned (trim_space ''5.4.2202'')"
    "\<not> unpinned (trim_space '' v5.4.9'')"
    by code_simp+
  then show ?thesis using VersionNewer_asym by blast
qed

section \<open>Restore points compare multisets\<close>

lemma count_up_count:
  "mget (count_up hv es) k 0 = mget hv k 0 + count (mset (map trim_space es)) k"
  by (induction hv es rule: count_up.induct) (auto simp: mget_update)

lemma mget_Nil: "mget [] k d = d"
  by (simp add: mget_def)

lemma take_all_iff:
  "take_all hv es \<longleftrightarrow> (\<forall>k. count (mset (map trim_space es)) k \<le> mget hv k 0)"
proof (induction hv es rule: take_all.induct)
  case (1 hv)
  then show ?case by simp
next
  case (2 hv e es)
  show ?case
  proof (cases "mget hv (trim_space e) 0 = 0")
    case True
    then show ?thesis by (auto intro!: exI [of _ "trim_space e"])
  next
    case False
    then have "take_all hv (e # es) \<longleftrightarrow>
        (\<forall>k. count (mset (map trim_space es)) k \<le>
          mget (AList.update (trim_space e) (mget hv (trim_space e) 0 - 1) hv) k 0)"
      using 2 [of "trim_space e"] by (simp add: Let_def)
    also have "\<dots> \<longleftrightarrow> (\<forall>k. count (mset (map trim_space (e # es))) k \<le> mget hv k 0)"
      using False by (auto simp: mget_update)
    finally show ?thesis .
  qed
qed

text \<open>C40: An undo is offered only for exactly the list the update wrote: the check accepts the
  entries a world reports precisely when they are the applied entries in some order, each as
  often, up to surrounding white space.\<close>

theorem Matches_iff:
  "Matches p entries \<longleftrightarrow> mset (map trim_space entries) = mset (map trim_space (rp_Applied p))"
proof -
  let ?E = "mset (map trim_space entries)" and ?A = "mset (map trim_space (rp_Applied p))"
  have "Matches p entries \<longleftrightarrow> size ?A = size ?E \<and> ?A \<subseteq># ?E"
    by (auto simp: Matches_def take_all_iff count_up_count mget_Nil subseteq_mset_def)
  also have "\<dots> \<longleftrightarrow> ?E = ?A"
    by (metis mset_subset_size nat_less_le subset_mset.le_less order_refl)
  finally show ?thesis .
qed

section \<open>Mod list files\<close>

lemma cut_char_Some:
  assumes "cut s [c] = (a, b, True)"
  shows "s = a @ c # b \<and> c \<notin> set a"
proof (cases "c \<in> set s")
  case True
  then obtain u v where "s = u @ c # v" "c \<notin> set u" by (meson split_list_first)
  then show ?thesis using assms cut_char_some [of c u v] by simp
next
  case False
  then show ?thesis using assms cut_char_none [of c s] by simp
qed

lemma cut_char_None:
  assumes "cut s [c] = (a, b, False)"
  shows "a = s \<and> b = [] \<and> c \<notin> set s"
proof (cases "c \<in> set s")
  case True
  then obtain u v where "s = u @ c # v" "c \<notin> set u" by (meson split_list_first)
  then show ?thesis using assms cut_char_some [of c u v] by simp
next
  case False
  then show ?thesis using assms cut_char_none [of c s] by simp
qed

definition mcref_ok :: "Provider \<Rightarrow> MCModRef \<Rightarrow> bool" where
  \<comment> \<open>a reference as the parser makes it\<close>
  "mcref_ok p r =
     (mcr_Provider r = p \<and> mcr_Slug r \<noteq> '''' \<and> trimmed (mcr_Slug r) \<and> trimmed (mcr_Pin r) \<and>
      CHR '':'' \<notin> set (mcr_Slug r) \<and> hd (mcr_Slug r) \<noteq> CHR ''#'' \<and>
      NL \<notin> set (mcr_Slug r) \<and> NL \<notin> set (mcr_Pin r))"

lemma trim_space_hd: "trimmed (x @ y) \<Longrightarrow> trim_space x \<noteq> [] \<Longrightarrow> hd (trim_space x) = hd (x @ y)"
proof -
  assume a: "trimmed (x @ y)" "trim_space x \<noteq> []"
  then have x: "x \<noteq> []" by auto
  then have "\<not> is_space (hd x)" using a(1) by (auto simp: trimmed_def)
  then have "trim_space x = trim_right is_space x"
    using x by (simp add: trim_space_def trim_left_keep)
  then show ?thesis
    using a(2) x trim_right_prefix [of x is_space] by (metis hd_append2)
qed

lemma ParseMCModRef_ok:
  assumes "ParseMCModRef line p = Some r" and "NL \<notin> set line"
  shows "mcref_ok p r"
proof -
  let ?l = "trim_space line"
  have l: "?l \<noteq> []" "hd ?l \<noteq> CHR ''#''" "NL \<notin> set ?l"
    using assms trim_space_subset [of line]
    by (auto simp: ParseMCModRef_def Let_def has_prefix_def neq_Nil_conv split: if_splits)
  obtain slug pin ok where c: "cut ?l '':'' = (slug, pin, ok)" by (cases "cut ?l '':''")
  show ?thesis
  proof (cases ok)
    case True
    then have s: "?l = slug @ CHR '':'' # pin" "CHR '':'' \<notin> set slug"
      using cut_char_Some [of ?l "CHR '':''" slug pin] c by auto
    have r: "r = \<lparr>mcr_Provider = p, mcr_Slug = trim_space slug, mcr_Pin = trim_space pin\<rparr>"
      "trim_space slug \<noteq> []"
      using assms(1) c True by (auto simp: ParseMCModRef_def Let_def split: if_splits)
    have "hd (trim_space slug) = hd ?l"
      using trim_space_hd [of slug "CHR '':'' # pin"] r(2) s(1) trimmed_trim_space [of line] by metis
    then show ?thesis
      using r s l trim_space_subset [of slug] trim_space_subset [of pin]
      by (auto simp: mcref_ok_def)
  next
    case False
    then have s: "CHR '':'' \<notin> set ?l"
      using cut_char_None [of ?l "CHR '':''" slug pin] c by auto
    have "r = \<lparr>mcr_Provider = p, mcr_Slug = ?l, mcr_Pin = ''''\<rparr>"
      using assms(1) c False by (auto simp: ParseMCModRef_def Let_def split: if_splits)
    then show ?thesis using l s trimmed_trim_space [of line] by (simp add: mcref_ok_def trimmed_def)
  qed
qed

lemma Entry_trimmed:
  assumes "mcref_ok p r"
  shows "trimmed (MCModRef_Entry r)" "MCModRef_Entry r \<noteq> []" "NL \<notin> set (MCModRef_Entry r)"
    "hd (MCModRef_Entry r) \<noteq> CHR ''#''"
proof -
  have "NL \<noteq> CHR '':''" by (simp add: NL_def)
  then show "trimmed (MCModRef_Entry r)" "MCModRef_Entry r \<noteq> []" "NL \<notin> set (MCModRef_Entry r)"
    "hd (MCModRef_Entry r) \<noteq> CHR ''#''"
    using assms by (auto simp: mcref_ok_def MCModRef_Entry_def trimmed_def)
qed

lemma ParseMCModRef_Entry:
  assumes "mcref_ok p r"
  shows "ParseMCModRef (MCModRef_Entry r) p = Some r"
proof (cases "mcr_Pin r = ''''")
  case True
  then have "cut (MCModRef_Entry r) '':'' = (mcr_Slug r, '''', False)"
    using assms cut_char_none by (auto simp: MCModRef_Entry_def mcref_ok_def)
  then show ?thesis
    using assms True Entry_trimmed [OF assms]
    by (auto simp: ParseMCModRef_def Let_def mcref_ok_def has_prefix_def MCModRef_Entry_def neq_Nil_conv)
next
  case False
  then have "cut (MCModRef_Entry r) '':'' = (mcr_Slug r, mcr_Pin r, True)"
    using assms cut_char_some by (auto simp: MCModRef_Entry_def mcref_ok_def)
  then show ?thesis
    using assms Entry_trimmed [OF assms]
    by (auto simp: ParseMCModRef_def Let_def mcref_ok_def has_prefix_def neq_Nil_conv)
qed

lemma SplitModLines_ok: "r \<in> set (SplitModLines body p) \<Longrightarrow> mcref_ok p r"
  using ParseMCModRef_ok split_on_parts
  by (fastforce simp: SplitModLines_def lines_of_def List.map_filter_def)

lemma SplitModLines_Join:
  assumes "\<forall>r\<in>set refs. mcref_ok p r"
  shows "SplitModLines (JoinModLines refs) p = refs"
proof -
  have no_nl: "\<forall>x\<in>set (map MCModRef_Entry refs). NL \<notin> set x"
    using assms Entry_trimmed(3) by auto
  have "JoinModLines refs = concat (map (\<lambda>x. x @ [NL]) (map MCModRef_Entry refs))"
    by (simp add: JoinModLines_def comp_def)
  then have "lines_of (JoinModLines refs) = map MCModRef_Entry refs @ [[]]"
    using lines_of_unlines [of "map MCModRef_Entry refs"] no_nl by simp
  moreover have "List.map_filter (\<lambda>l. ParseMCModRef l p) (map MCModRef_Entry refs) = refs"
    using assms by (induction refs) (simp_all add: List.map_filter_simps ParseMCModRef_Entry)
  moreover have "ParseMCModRef [] p = None" by (simp add: ParseMCModRef_def)
  ultimately show ?thesis
    by (simp add: SplitModLines_def List.map_filter_def)
qed

text \<open>Writing back the references read from a Mod list file and reading them again gives the
  same references, in the same order and with the same pins, for any file body: comments, blank
  lines and stray white space are lost on the first write and nothing after that.\<close>

theorem mod_lines_roundtrip:
  "SplitModLines (JoinModLines (SplitModLines body p)) p = SplitModLines body p"
  using SplitModLines_Join SplitModLines_ok by blast

section \<open>Thunderstore identity\<close>

definition ref_part :: "string \<Rightarrow> bool" where
  \<comment> \<open>a Thunderstore namespace or package name, and a version: no separator inside\<close>
  "ref_part s =
     (s \<noteq> '''' \<and> trimmed s \<and> CHR ''/'' \<notin> set s \<and> CHR ''-'' \<notin> set s \<and> CHR ''?'' \<notin> set s \<and>
      hd s \<noteq> CHR ''#'')"

lemma trim_suffix_char: "c \<notin> set s \<Longrightarrow> trim_suffix s [c] = s"
  using has_suffix_iff [of s "[c]"] by (auto simp: trim_suffix_def)

lemma ref_part_entry:
  assumes "ref_part a" "ref_part b"
  shows "trim_suffix (trim_space (a @ sep # b)) ''?'' = (if sep = CHR ''?'' then trim_suffix (a @ sep # b) ''?'' else a @ sep # b)"
  using assms trim_suffix_char [of "CHR ''?''" "a @ sep # b"]
  by (auto simp: ref_part_def trimmed_def)

lemma parse_pinned:
  assumes "ref_part ns" "ref_part name" "ref_part v"
  shows "ParseModRef (ns @ ''/'' @ name @ ''/'' @ v) g = Some (mod_ref ns name v)"
proof -
  let ?e = "ns @ CHR ''/'' # name @ CHR ''/'' # v"
  have "trim_suffix (trim_space ?e) ''?'' = ?e"
    using assms trim_suffix_char [of "CHR ''?''" ?e]
    by (auto simp: ref_part_def trimmed_def)
  moreover have "split_on CHR ''/'' ?e = [ns, name, v]"
    using assms by (simp add: split_on_append split_on_no_sep ref_part_def)
  moreover have "\<not> has_prefix ?e ''#''"
    using assms by (cases ns) (auto simp: has_prefix_def ref_part_def)
  ultimately show ?thesis
    using assms by (simp add: ParseModRef_def parse_slash_def Let_def numeral_2_eq_2 ref_part_def)
qed

lemma isSemver_no_dash: "isSemver v \<Longrightarrow> CHR ''-'' \<notin> set v"
proof
  assume s: "isSemver v" and d: "CHR ''-'' \<in> set v"
  have "CHR ''-'' \<in> set (join ''.'' (split_on CHR ''.'' v))"
    using d join_split_on by metis
  moreover have "CHR ''-'' \<notin> set (join ''.'' ps)" if "list_all (list_all is_digit) ps" for ps
    using that by (induction "''.''" ps rule: join.induct) (auto simp: list_all_iff)
  ultimately show False
    using s by (auto simp: isSemver_def Let_def list_all_iff)
qed

text \<open>The three ways an operator can write a Thunderstore package - the pinned entry
  ``Namespace/Name/Version'', the copied ``Namespace-Name-Version'' and the bare
  ``Namespace-Name'' - are read as the same mod: all three have the same key, the first two the
  same reference, and the pinned reference is stored as the first form.\<close>

theorem thunderstore_forms:
  assumes "ref_part ns" "ref_part name" "ref_part v" "isSemver v"
  shows "ParseModRef (ns @ ''/'' @ name @ ''/'' @ v) GameValheim = Some (mod_ref ns name v) \<and>
    ParseModRef (ns @ ''-'' @ name @ ''-'' @ v) GameValheim = Some (mod_ref ns name v) \<and>
    ParseModRef (ns @ ''-'' @ name) GameValheim = Some (mod_ref ns name '''') \<and>
    ModRef_Key (mod_ref ns name v) = ModRef_Key (mod_ref ns name '''') \<and>
    ModRef_Entry (mod_ref ns name v) = ns @ ''/'' @ name @ ''/'' @ v"
proof -
  let ?d = "ns @ CHR ''-'' # name" and ?e = "ns @ CHR ''-'' # name @ CHR ''-'' # v"
  have trims: "trim_suffix (trim_space ?d) ''?'' = ?d" "trim_suffix (trim_space ?e) ''?'' = ?e"
    using assms trim_suffix_char [of "CHR ''?''" ?d] trim_suffix_char [of "CHR ''?''" ?e]
    by (auto simp: ref_part_def trimmed_def)
  have hash: "\<not> has_prefix ?d ''#''" "\<not> has_prefix ?e ''#''"
    using assms by (cases ns; auto simp: has_prefix_def ref_part_def)+
  have slash: "parse_slash ?d = None" "parse_slash ?e = None"
    using assms by (simp_all add: parse_slash_def split_on_no_sep ref_part_def)
  have cuts: "cut ?d ''-'' = (ns, name, True)" "cut ?e ''-'' = (ns, name @ CHR ''-'' # v, True)"
    "cut name ''-'' = (name, [], False)" "cut (name @ CHR ''-'' # v) ''-'' = (name, v, True)"
    using assms by (simp_all add: cut_char_some cut_char_none ref_part_def)
  have ne: "ns \<noteq> []" "name \<noteq> []" "v \<noteq> []" using assms by (auto simp: ref_part_def)
  have "parse_valheim ?d = Some (mod_ref ns name '''')" "parse_valheim ?e = Some (mod_ref ns name v)"
    using cuts ne assms(4) by (simp_all add: parse_valheim_def)
  then have "ParseModRef ?d GameValheim = Some (mod_ref ns name '''')"
    "ParseModRef ?e GameValheim = Some (mod_ref ns name v)"
    using trims hash slash ne by (simp_all add: ParseModRef_def)
  then show ?thesis
    using parse_pinned [OF assms(1-3)] ne
    by (simp add: ModRef_Key_def ModRef_Entry_def mod_ref_def)
qed

theorem thunderstore_forms_witness:
  "ParseModRef ''denikson-BepInExPack_Valheim-5.4.2202'' GameValheim =
     ParseModRef ''denikson/BepInExPack_Valheim/5.4.2202'' GameValheim"
proof -
  have "ref_part ''denikson''" "ref_part ''BepInExPack_Valheim''" "ref_part ''5.4.2202''"
    "isSemver ''5.4.2202''"
    by code_simp+
  then show ?thesis
    using thunderstore_forms [of "''denikson''" "''BepInExPack_Valheim''" "''5.4.2202''"] by simp
qed

end
