(* ===== verification/Bepinex.thy ===== *)
theory Bepinex
  imports Mods
begin

text \<open>
  \<open>internal/domain/bepinex.go\<close>, \<open>bepinex_merge.go\<close>, \<open>bepinex_import.go\<close> and
  \<open>bepinex_snapshot.go\<close>: BepInEx config files, the overrides an operator keeps for them, the
  merge of both, and the import of a pasted file.

  \<open>strconv.ParseFloat\<close> is the parameter \<open>pf\<close>, with Go's \<open><\<close> on the numbers it
  returns as the parameter \<open>lt\<close> (not assumed to be an order: NaN compares false with everything).
\<close>

section \<open>Settings\<close>

record SettingRange =
  From :: string
  To :: string

record SettingKey =
  key_Section :: string
  key_Name :: string

definition setting_key :: "string \<Rightarrow> string \<Rightarrow> SettingKey" where
  "setting_key section name = \<lparr>key_Section = section, key_Name = name\<rparr>"

definition SettingKey_String :: "SettingKey \<Rightarrow> string" where
  "SettingKey_String k = ''['' @ key_Section k @ ''] '' @ key_Name k"

datatype ControlKind =
    ControlToggle | ControlChoice | ControlMulti | ControlNumber | ControlShortcut | ControlText

record Setting =
  set_Section :: string
  set_Name :: string
  set_Description :: string
  set_Type :: string
  set_Default :: string
  HasDefault :: bool
  Acceptable :: "string list"
  set_Range :: "SettingRange option"
  MultipleValues :: bool
  set_Value :: string
  Orphaned :: bool
  lineIndex :: nat
  separator :: string

definition zero_Setting :: Setting where
  "zero_Setting = \<lparr>set_Section = '''', set_Name = '''', set_Description = '''', set_Type = '''',
     set_Default = '''', HasDefault = False, Acceptable = [], set_Range = None,
     MultipleValues = False, set_Value = '''', Orphaned = False, lineIndex = 0,
     separator = ''''\<rparr>"

definition Setting_Key :: "Setting \<Rightarrow> SettingKey" where
  "Setting_Key s = setting_key (set_Section s) (set_Name s)"

definition isOffOn :: "string list \<Rightarrow> bool" where
  "isOffOn vals =
     (list_ex (\<lambda>v. equal_fold v ''Off'') vals \<and> list_ex (\<lambda>v. equal_fold v ''On'') vals)"

definition isIntegerType :: "string \<Rightarrow> bool" where
  "isIntegerType t =
     (to_lower t \<in> set [''int32'', ''int64'', ''int16'', ''byte'', ''sbyte'', ''uint32'', ''uint64'',
                       ''uint16''])"

definition isFloatType :: "string \<Rightarrow> bool" where
  "isFloatType t = (to_lower t \<in> set [''single'', ''double'', ''decimal'', ''float''])"

definition isNumericType :: "string \<Rightarrow> bool" where
  "isNumericType t = (isIntegerType t \<or> isFloatType t)"

definition Control :: "Setting \<Rightarrow> ControlKind" where
  "Control s =
     (if MultipleValues s then ControlMulti
      else if equal_fold (set_Type s) ''Boolean'' then ControlToggle
      else if length (Acceptable s) = 2 \<and> isOffOn (Acceptable s) then ControlToggle
      else if length (Acceptable s) > 0 then ControlChoice
      else if isNumericType (set_Type s) then ControlNumber
      else if equal_fold (set_Type s) ''KeyboardShortcut'' then ControlShortcut
      else ControlText)"

definition TrueValue :: "Setting \<Rightarrow> string" where
  "TrueValue s =
     (case find (\<lambda>v. equal_fold v ''On'') (Acceptable s) of Some v \<Rightarrow> v | None \<Rightarrow> ''true'')"

definition FalseValue :: "Setting \<Rightarrow> string" where
  "FalseValue s =
     (case find (\<lambda>v. equal_fold v ''Off'') (Acceptable s) of Some v \<Rightarrow> v | None \<Rightarrow> ''false'')"

definition IsOn :: "Setting \<Rightarrow> bool" where
  "IsOn s = (let v = trim_space (set_Value s) in equal_fold v ''true'' \<or> equal_fold v ''on'')"

definition DiffersFromDefault :: "Setting \<Rightarrow> bool" where
  "DiffersFromDefault s =
     (if \<not> HasDefault s then False
      else trim_space (set_Value s) \<noteq> trim_space (set_Default s))"

definition not_one_of :: "Setting \<Rightarrow> string \<Rightarrow> goerr" where
  "not_one_of s v = Errorf (go_quote v @ '' is not one of: '' @ join '', '' (Acceptable s))"

definition validate_choice :: "Setting \<Rightarrow> string \<Rightarrow> goerr option" where
  "validate_choice s v =
     (if list_ex (\<lambda>a. equal_fold a v) (Acceptable s) then None else Some (not_one_of s v))"

fun validate_parts :: "Setting \<Rightarrow> string list \<Rightarrow> goerr option" where
  "validate_parts s [] = None"
| "validate_parts s (p # ps) =
     (let part = trim_space p
      in if part = '''' then validate_parts s ps
         else case validate_choice s part of
                Some e \<Rightarrow> Some e
              | None \<Rightarrow> validate_parts s ps)"

definition validate_kind :: "(string \<Rightarrow> 'f option) \<Rightarrow> Setting \<Rightarrow> string \<Rightarrow> goerr option" where
  \<comment> \<open>\<open>strconv.ParseInt(v, 10, 64)\<close> is \<open>atoi\<close>\<close>
  "validate_kind pf s v =
     (if isIntegerType (set_Type s) then
        (if atoi v = None then Some (Errorf (go_quote v @ '' is not a whole number'')) else None)
      else if isFloatType (set_Type s) then
        (case pf v of
           None \<Rightarrow> Some (Errorf (go_quote v @ '' is not a number''))
         | Some _ \<Rightarrow> None)
      else None)"

definition validate_range ::
    "(string \<Rightarrow> 'f option) \<Rightarrow> ('f \<Rightarrow> 'f \<Rightarrow> bool) \<Rightarrow> Setting \<Rightarrow> string \<Rightarrow> goerr option" where
  "validate_range pf lt s v =
     (case set_Range s of
        None \<Rightarrow> None
      | Some r \<Rightarrow>
          (case pf v of
             None \<Rightarrow> Some (Errorf (go_quote v @ '' is not a number''))
           | Some got \<Rightarrow>
               (case (pf (From r), pf (To r)) of
                  (Some lo, Some hi) \<Rightarrow>
                    (if lt got lo \<or> lt hi got
                     then Some (Errorf (v @ '' is outside the accepted range '' @ From r @ '' to '' @ To r))
                     else None)
                | _ \<Rightarrow> None)))"

definition Validate ::
    "(string \<Rightarrow> 'f option) \<Rightarrow> ('f \<Rightarrow> 'f \<Rightarrow> bool) \<Rightarrow> Setting \<Rightarrow> string \<Rightarrow> goerr option" where
  "Validate pf lt s v0 =
     (let v = trim_space v0
      in if HasDefault s \<and> v = trim_space (set_Default s) then None
         else if length (Acceptable s) > 0 \<and> \<not> MultipleValues s then validate_choice s v
         else if MultipleValues s then validate_parts s (split_on CHR '','' v)
         else if equal_fold (set_Type s) ''Boolean'' then
           (if \<not> equal_fold v ''true'' \<and> \<not> equal_fold v ''false''
            then Some (Errorf (go_quote v @ '' is not a boolean'')) else None)
         else case validate_kind pf s v of
                Some e \<Rightarrow> Some e
              | None \<Rightarrow> validate_range pf lt s v)"

section \<open>Config files\<close>

record ConfigSection =
  cs_Name :: string
  cs_Settings :: "Setting list"

record ParseWarning =
  pw_Line :: nat
  pw_Text :: string
  pw_Reason :: string

record ConfigFile =
  cf_Name :: string
  HeaderLines :: "string list"
  PluginName :: string
  PluginVersion :: string
  PluginGUID :: string
  Sections :: "ConfigSection list"
  Warnings :: "ParseWarning list"
  cf_lines :: "string list"

definition empty_ConfigFile :: "string \<Rightarrow> ConfigFile" where
  "empty_ConfigFile name = \<lparr>cf_Name = name, HeaderLines = [], PluginName = '''',
     PluginVersion = '''', PluginGUID = '''', Sections = [], Warnings = [], cf_lines = []\<rparr>"

definition cutPrefix :: "string \<Rightarrow> string \<Rightarrow> string \<times> bool" where
  "cutPrefix s prefix =
     (if has_prefix s prefix then (trim_space (drop (length prefix) s), True) else (s, False))"

definition splitEntry :: "string \<Rightarrow> string \<times> string \<times> string" where
  "splitEntry raw =
     (let (left, right, ok) = cut raw ''=''; blank = (\<lambda>c. c = CHR '' '' \<or> c = TAB)
      in if \<not> ok then ('''', '''', '''')
         else (trim_space left,
               drop (length (trim_right blank left)) left @ ''='' @
                 take (length right - length (trim_left blank right)) right,
               trim_space right))"

definition splitAcceptable :: "string \<Rightarrow> string list" where
  "splitAcceptable s = filter (\<lambda>p. p \<noteq> '''') (map trim_space (split_on CHR '','' s))"

definition parseRange :: "string \<Rightarrow> SettingRange option" where
  "parseRange s =
     (let (rest, ok) = cutPrefix s ''From ''
      in if \<not> ok then None
         else (let (from0, to0, ok2) = cut rest '' to ''
               in if \<not> ok2 then None
                  else Some \<lparr>From = trim_space from0, To = trim_space to0\<rparr>))"

definition splitPluginAndVersion :: "string \<Rightarrow> string \<times> string" where
  "splitPluginAndVersion s =
     (case str_last_index s '' v'' of
        None \<Rightarrow> (trim_space s, '''')
      | Some i \<Rightarrow> (trim_space (take i s), trim_space (drop (i + 2) s)))"

text \<open>The local variables of \<open>ParseConfigFile\<close>'s loop; the current section is \<open>None\<close>
  where the code has \<open>-1\<close>.\<close>

record PState =
  ps_file :: ConfigFile
  curSection :: "nat option"
  ps_desc :: "string list"
  pending :: Setting
  havePending :: bool
  seenSection :: bool

definition ps_reset :: "PState \<Rightarrow> PState" where
  "ps_reset st = st\<lparr>ps_desc := [], pending := zero_Setting, havePending := False\<rparr>"

definition ps_warn :: "nat \<Rightarrow> string \<Rightarrow> string \<Rightarrow> PState \<Rightarrow> PState" where
  "ps_warn i raw reason st =
     ps_reset (st\<lparr>ps_file := (ps_file st)\<lparr>Warnings := Warnings (ps_file st) @
       [\<lparr>pw_Line = i + 1, pw_Text = raw, pw_Reason = reason\<rparr>]\<rparr>\<rparr>)"

definition headerCreatedBy :: string where
  "headerCreatedBy = ''Settings file was created by plugin ''"
definition headerGUID :: string where "headerGUID = ''Plugin GUID: ''"
definition metaSettingType :: string where "metaSettingType = ''Setting type:''"
definition metaDefaultValue :: string where "metaDefaultValue = ''Default value:''"
definition metaAcceptable :: string where "metaAcceptable = ''Acceptable values:''"
definition metaAcceptableRng :: string where "metaAcceptableRng = ''Acceptable value range:''"
definition metaMultiple :: string where
  "metaMultiple = ''Multiple values can be set at the same time''"

definition step_header :: "string \<Rightarrow> string \<Rightarrow> ConfigFile \<Rightarrow> ConfigFile" where
  \<comment> \<open>a \<open>##\<close> line before the first section\<close>
  "step_header raw body f0 =
     (let f = f0\<lparr>HeaderLines := HeaderLines f0 @ [raw]\<rparr>;
          f = (case cutPrefix body headerCreatedBy of
                 (rest, True) \<Rightarrow>
                   (let (n, v) = splitPluginAndVersion rest
                    in f\<lparr>PluginName := n, PluginVersion := v\<rparr>)
               | (_, False) \<Rightarrow> f)
      in case cutPrefix body headerGUID of
           (rest, True) \<Rightarrow> f\<lparr>PluginGUID := rest\<rparr>
         | (_, False) \<Rightarrow> f)"

definition step_meta :: "string \<Rightarrow> Setting \<Rightarrow> Setting" where
  \<comment> \<open>a \<open>#\<close> line: one property of the setting that follows\<close>
  "step_meta meta p =
     (if has_prefix meta metaSettingType
        then p\<lparr>set_Type := trim_space (trim_prefix meta metaSettingType)\<rparr>
      else if has_prefix meta metaDefaultValue
        then p\<lparr>set_Default := trim_space (trim_prefix meta metaDefaultValue), HasDefault := True\<rparr>
      else if has_prefix meta metaAcceptableRng
        then p\<lparr>set_Range := parseRange (trim_space (trim_prefix meta metaAcceptableRng))\<rparr>
      else if has_prefix meta metaAcceptable
        then p\<lparr>Acceptable := splitAcceptable (trim_space (trim_prefix meta metaAcceptable))\<rparr>
      else if has_prefix meta metaMultiple then p\<lparr>MultipleValues := True\<rparr>
      else p)"

definition add_setting :: "nat \<Rightarrow> Setting \<Rightarrow> ConfigSection list \<Rightarrow> ConfigSection list" where
  "add_setting k s secs = secs[k := (secs ! k)\<lparr>cs_Settings := cs_Settings (secs ! k) @ [s]\<rparr>]"

definition step_entry :: "nat \<Rightarrow> string \<Rightarrow> PState \<Rightarrow> PState" where
  \<comment> \<open>a line with \<open>=\<close>\<close>
  "step_entry i raw st =
     (let (key, sep, val) = splitEntry raw
      in if key = '''' then ps_warn i raw ''entry has no key'' st
         else (case curSection st of
                 None \<Rightarrow> ps_warn i raw ''entry before any section header'' st
               | Some k \<Rightarrow>
                   (let f = ps_file st;
                        s = (pending st)\<lparr>set_Section := cs_Name (Sections f ! k), set_Name := key,
                              set_Value := val, set_Description := join [NL] (ps_desc st),
                              Orphaned := \<not> havePending st, lineIndex := i, separator := sep\<rparr>
                    in ps_reset (st\<lparr>ps_file := f\<lparr>Sections := add_setting k s (Sections f)\<rparr>\<rparr>))))"

definition is_section_line :: "string \<Rightarrow> bool" where
  "is_section_line line = (has_prefix line ''['' \<and> has_suffix line '']'')"

definition section_name :: "string \<Rightarrow> string" where
  \<comment> \<open>\<open>strings.TrimSpace(line[1 : len(line)-1])\<close>\<close>
  "section_name line = trim_space (drop 1 (take (length line - 1) line))"

definition parse_step :: "nat \<Rightarrow> string \<Rightarrow> PState \<Rightarrow> PState" where
  "parse_step i raw st =
     (let line = trim_space raw
      in if line = '''' then st
         else if has_prefix line ''##'' then
           (let body = trim_space (trim_prefix line ''##'')
            in if \<not> seenSection st then st\<lparr>ps_file := step_header raw body (ps_file st)\<rparr>
               else st\<lparr>ps_desc := ps_desc st @ [body], havePending := True\<rparr>)
         else if has_prefix line ''#'' then
           st\<lparr>pending := step_meta (trim_space (trim_prefix line ''#'')) (pending st),
              havePending := True\<rparr>
         else if is_section_line line then
           (let f = ps_file st;
                secs = Sections f @ [\<lparr>cs_Name = section_name line, cs_Settings = []\<rparr>]
            in ps_reset (st\<lparr>seenSection := True, ps_file := f\<lparr>Sections := secs\<rparr>,
                            curSection := Some (length secs - 1)\<rparr>))
         else if contains line ''='' then step_entry i raw st
         else ps_warn i raw ''unrecognised line'' st)"

fun parse_lines :: "nat \<Rightarrow> string list \<Rightarrow> PState \<Rightarrow> PState" where
  "parse_lines i [] st = st"
| "parse_lines i (l # ls) st = parse_lines (Suc i) ls (parse_step i l st)"

definition parse_init :: "ConfigFile \<Rightarrow> PState" where
  "parse_init f = \<lparr>ps_file = f, curSection = None, ps_desc = [], pending = zero_Setting,
     havePending = False, seenSection = False\<rparr>"

definition ParseConfigFile :: "string \<Rightarrow> string \<Rightarrow> ConfigFile" where
  "ParseConfigFile name body =
     (let normalised = replace_crlf body; f = empty_ConfigFile name
      in if normalised = '''' then f
         else (let ls = lines_of normalised
               in ps_file (parse_lines 0 ls (parse_init (f\<lparr>cf_lines := ls\<rparr>)))))"

definition Render :: "ConfigFile \<Rightarrow> string" where
  "Render f = (if length (cf_lines f) = 0 then '''' else join [NL] (cf_lines f))"

definition Parsable :: "ConfigFile \<Rightarrow> bool" where
  "Parsable f = (length (Warnings f) = 0 \<and> length (Sections f) > 0)"

definition Settings :: "ConfigFile \<Rightarrow> Setting list" where
  "Settings f = concat (map cs_Settings (Sections f))"

definition ConfigFile_Count :: "ConfigFile \<Rightarrow> nat" where
  "ConfigFile_Count f = sum_list (map (length \<circ> cs_Settings) (Sections f))"

definition ChangedCount :: "ConfigFile \<Rightarrow> nat" where
  "ChangedCount f =
     sum_list (map (\<lambda>sec. length (filter DiffersFromDefault (cs_Settings sec))) (Sections f))"

fun lookup_sections :: "ConfigSection list \<Rightarrow> string \<Rightarrow> string \<Rightarrow> Setting option" where
  "lookup_sections [] section name = None"
| "lookup_sections (sec # secs) section name =
     (if cs_Name sec \<noteq> section then lookup_sections secs section name
      else (case find (\<lambda>s. set_Name s = name) (cs_Settings sec) of
              Some s \<Rightarrow> Some s
            | None \<Rightarrow> lookup_sections secs section name))"

definition ConfigFile_Lookup :: "ConfigFile \<Rightarrow> string \<Rightarrow> string \<Rightarrow> Setting option" where
  "ConfigFile_Lookup f section name = lookup_sections (Sections f) section name"

definition SectionNames :: "ConfigFile \<Rightarrow> string list" where
  "SectionNames f = map cs_Name (Sections f)"

record SearchQuery =
  sq_Text :: string
  sq_Section :: string
  OnlyChanged :: bool
  sq_Limit :: int

definition settingMatches :: "Setting \<Rightarrow> string \<Rightarrow> bool" where
  "settingMatches s needle =
     (contains (to_lower (set_Name s)) needle \<or> contains (to_lower (set_Section s)) needle \<or>
      contains (to_lower (set_Description s)) needle)"

fun search_settings ::
    "SearchQuery \<Rightarrow> string \<Rightarrow> Setting list \<Rightarrow> Setting list \<Rightarrow> Setting list \<times> bool" where
  \<comment> \<open>the inner loop: the hits so far and whether the limit was reached\<close>
  "search_settings q needle hits [] = (hits, False)"
| "search_settings q needle hits (s # ss) =
     (if OnlyChanged q \<and> \<not> DiffersFromDefault s then search_settings q needle hits ss
      else if needle \<noteq> '''' \<and> \<not> settingMatches s needle then search_settings q needle hits ss
      else if sq_Limit q > 0 \<and> int (length hits) = sq_Limit q then (hits, True)
      else search_settings q needle (hits @ [s]) ss)"

fun search_sections ::
    "SearchQuery \<Rightarrow> string \<Rightarrow> Setting list \<Rightarrow> ConfigSection list \<Rightarrow> Setting list \<times> bool" where
  "search_sections q needle hits [] = (hits, False)"
| "search_sections q needle hits (sec # secs) =
     (if sq_Section q \<noteq> '''' \<and> cs_Name sec \<noteq> sq_Section q then search_sections q needle hits secs
      else (case search_settings q needle hits (cs_Settings sec) of
              (h, True) \<Rightarrow> (h, True)
            | (h, False) \<Rightarrow> search_sections q needle h secs))"

definition ConfigFile_Search :: "ConfigFile \<Rightarrow> SearchQuery \<Rightarrow> Setting list \<times> bool" where
  "ConfigFile_Search f q =
     search_sections q (to_lower (trim_space (sq_Text q))) [] (Sections f)"

section \<open>Overrides\<close>

record Override =
  ov_Section :: string
  ov_Name :: string
  ov_Value :: string

definition override :: "string \<Rightarrow> string \<Rightarrow> string \<Rightarrow> Override" where
  "override section name val = \<lparr>ov_Section = section, ov_Name = name, ov_Value = val\<rparr>"

definition Override_Key :: "Override \<Rightarrow> SettingKey" where
  "Override_Key o1 = setting_key (ov_Section o1) (ov_Name o1)"

record OverrideSet =
  items :: "(SettingKey \<times> string) list"

definition NewOverrideSet :: OverrideSet where "NewOverrideSet = \<lparr>items = []\<rparr>"

definition Set :: "OverrideSet \<Rightarrow> string \<Rightarrow> string \<Rightarrow> string \<Rightarrow> OverrideSet" where
  "Set ovs section name val =
     ovs\<lparr>items := AList.update (setting_key section name) val (items ovs)\<rparr>"

definition Unset :: "OverrideSet \<Rightarrow> string \<Rightarrow> string \<Rightarrow> OverrideSet \<times> bool" where
  "Unset ovs section name =
     (let k = setting_key section name
      in if map_of (items ovs) k = None then (ovs, False)
         else (ovs\<lparr>items := AList.delete k (items ovs)\<rparr>, True))"

definition Get :: "OverrideSet \<Rightarrow> string \<Rightarrow> string \<Rightarrow> string option" where
  "Get ovs section name = map_of (items ovs) (setting_key section name)"

definition Has :: "OverrideSet \<Rightarrow> string \<Rightarrow> string \<Rightarrow> bool" where
  "Has ovs section name = (map_of (items ovs) (setting_key section name) \<noteq> None)"

definition OverrideSet_Len :: "OverrideSet \<Rightarrow> nat" where
  "OverrideSet_Len ovs = length (items ovs)"

definition sortOverrides :: "Override list \<Rightarrow> Override list" where
  "sortOverrides xs = sort_key (\<lambda>v. (ov_Section v, ov_Name v)) xs"

definition item_override :: "SettingKey \<times> string \<Rightarrow> Override" where
  "item_override kv = override (key_Section (fst kv)) (key_Name (fst kv)) (snd kv)"

definition OverrideSet_All :: "OverrideSet \<Rightarrow> Override list" where
  "OverrideSet_All ovs = sortOverrides (map item_override (items ovs))"

definition override_line :: "Override \<Rightarrow> string" where
  "override_line v = ov_Name v @ '' = '' @ ov_Value v"

fun encode_all :: "bool \<Rightarrow> string \<Rightarrow> Override list \<Rightarrow> string" where
  \<comment> \<open>the loop of \<open>Encode\<close>: whether this is the first override, and the section being written\<close>
  "encode_all isfirst cur [] = ''''"
| "encode_all isfirst cur (v # vs) =
     (if ov_Section v \<noteq> cur \<or> isfirst
      then (if isfirst then '''' else [NL]) @ ''['' @ ov_Section v @ '']'' @ [NL]
      else '''') @
     override_line v @ [NL] @
     encode_all False (if ov_Section v \<noteq> cur \<or> isfirst then ov_Section v else cur) vs"

definition Encode :: "OverrideSet \<Rightarrow> string" where
  "Encode ovs =
     (if length (items ovs) = 0 then '''' else encode_all True '''' (OverrideSet_All ovs))"

fun parse_overrides :: "string \<Rightarrow> string list \<Rightarrow> OverrideSet \<Rightarrow> OverrideSet" where
  "parse_overrides section [] ovs = ovs"
| "parse_overrides section (raw # rest) ovs =
     (let line = trim_space raw
      in if line = '''' \<or> has_prefix line ''#'' then parse_overrides section rest ovs
         else if is_section_line line then parse_overrides (section_name line) rest ovs
         else (let (key, _, val) = splitEntry raw
               in if key \<noteq> '''' \<and> section \<noteq> ''''
                  then parse_overrides section rest (Set ovs section key val)
                  else parse_overrides section rest ovs))"

definition ParseOverrideSet :: "string \<Rightarrow> OverrideSet" where
  "ParseOverrideSet s = parse_overrides '''' (lines_of (replace_crlf s)) NewOverrideSet"

section \<open>Merging overrides into a generated file\<close>

record MergeReport =
  Applied :: "Override list"
  NoOp :: "Override list"
  Appended :: "Override list"
  Stale :: "Override list"

definition empty_report :: MergeReport where
  "empty_report = \<lparr>Applied = [], NoOp = [], Appended = [], Stale = []\<rparr>"

definition MergeReport_Changed :: "MergeReport \<Rightarrow> bool" where
  "MergeReport_Changed r =
     (length (Applied r) > 0 \<or> length (Appended r) > 0 \<or> length (Stale r) > 0)"

fun section_end :: "string list \<Rightarrow> nat" where
  \<comment> \<open>how many lines stand before the next section header\<close>
  "section_end [] = 0"
| "section_end (l # ls) = (if is_section_line (trim_space l) then 0 else Suc (section_end ls))"

fun back_over_blank :: "string list \<Rightarrow> nat \<Rightarrow> nat \<Rightarrow> nat" where
  \<comment> \<open>\<open>for end > start+1 && TrimSpace(lines[end-1]) == ""\<close>, \<open>lo = start + 1\<close>\<close>
  "back_over_blank ls lo 0 = 0"
| "back_over_blank ls lo (Suc e) =
     (if Suc e > lo \<and> trim_space (ls ! e) = '''' then back_over_blank ls lo e else Suc e)"

fun find_line :: "string \<Rightarrow> string list \<Rightarrow> nat option" where
  \<comment> \<open>the first line that is \<open>t\<close> up to white space at its ends\<close>
  "find_line t [] = None"
| "find_line t (l # ls) =
     (if trim_space l = t then Some 0 else map_option Suc (find_line t ls))"

definition insertIntoSection :: "string list \<Rightarrow> string \<Rightarrow> Override list \<Rightarrow> string list" where
  "insertIntoSection ls section entries =
     (case find_line (''['' @ section @ '']'') ls of
        None \<Rightarrow> ls
      | Some start \<Rightarrow>
          (let end1 = start + 1 + section_end (drop (start + 1) ls);
               end2 = back_over_blank ls (start + 1) end1
           in take end2 ls @ map override_line entries @ drop end2 ls))"

definition group_by_section :: "Override list \<Rightarrow> (string \<times> Override list) list" where
  \<comment> \<open>\<open>order\<close> with \<open>bySection\<close>: the sections in order of first appearance\<close>
  "group_by_section pend =
     map (\<lambda>s. (s, filter (\<lambda>v. ov_Section v = s) pend)) (rev (remdups (rev (map ov_Section pend))))"

definition append_section :: "string list \<Rightarrow> string \<Rightarrow> Override list \<Rightarrow> string list" where
  "append_section ls section entries =
     (let ls1 = (if length ls > 0 \<and> trim_space (last ls) \<noteq> '''' then ls @ [''''] else ls)
      in ls1 @ [''['' @ section @ '']'', ''''] @ map override_line entries @ [''''])"

fun append_groups ::
    "string list \<Rightarrow> (string \<times> Override list) list \<Rightarrow> string list \<Rightarrow> string list" where
  "append_groups ls [] known = ls"
| "append_groups ls ((section, entries) # gs) known =
     (if section \<in> set known then append_groups (insertIntoSection ls section entries) gs known
      else append_groups (append_section ls section entries) gs known)"

definition appendOverrides :: "string list \<Rightarrow> Override list \<Rightarrow> string list \<Rightarrow> string list" where
  "appendOverrides ls pend known = append_groups ls (group_by_section pend) known"

record MState =
  ms_lines :: "string list"
  ms_report :: MergeReport
  ms_pending :: "Override list"

definition merge_index :: "ConfigFile \<Rightarrow> (SettingKey \<times> Setting) list" where
  \<comment> \<open>\<open>index\<close>: the last setting declared under each key\<close>
  "merge_index f = fold (\<lambda>s m. AList.update (Setting_Key s) s m) (Settings f) []"

definition merge_step :: "ConfigFile \<Rightarrow> Override \<Rightarrow> MState \<Rightarrow> MState" where
  "merge_step f v st =
     (let r = ms_report st
      in case map_of (merge_index f) (Override_Key v) of
           None \<Rightarrow>
             st\<lparr>ms_report :=
                  (if ov_Section v \<in> set (SectionNames f) then r\<lparr>Appended := Appended r @ [v]\<rparr>
                   else r\<lparr>Stale := Stale r @ [v]\<rparr>),
                ms_pending := ms_pending st @ [v]\<rparr>
         | Some s \<Rightarrow>
             (if trim_space (set_Value s) = trim_space (ov_Value v)
              then st\<lparr>ms_report := r\<lparr>NoOp := NoOp r @ [v]\<rparr>\<rparr>
              else st\<lparr>ms_lines := (ms_lines st)[lineIndex s := set_Name s @ separator s @ ov_Value v],
                      ms_report := r\<lparr>Applied := Applied r @ [v]\<rparr>\<rparr>))"

definition Merge :: "ConfigFile \<Rightarrow> OverrideSet \<Rightarrow> string \<times> MergeReport" where
  "Merge f ovs =
     (if length (cf_lines f) = 0 \<and> length (Sections f) = 0
      then (Encode ovs, empty_report\<lparr>Stale := OverrideSet_All ovs\<rparr>)
      else (let st = fold (merge_step f) (OverrideSet_All ovs)
                       \<lparr>ms_lines = cf_lines f, ms_report = empty_report, ms_pending = []\<rparr>;
                ls = (if length (ms_pending st) > 0
                      then appendOverrides (ms_lines st) (ms_pending st) (SectionNames f)
                      else ms_lines st)
            in (join [NL] ls, ms_report st)))"

section \<open>Importing a pasted file\<close>

datatype ImportStatus = ImportApply | ImportSame | ImportUnmatched | ImportRejected

record ImportEntry =
  ie_Section :: string
  ie_Name :: string
  ie_Value :: string
  ie_Current :: string
  ie_Default :: string
  ie_Status :: ImportStatus
  ie_Reason :: string

record ImportPlan =
  ip_PluginGUID :: string
  ip_PluginName :: string
  ip_PluginVersion :: string
  Entries :: "ImportEntry list"
  Parsed :: bool

definition ImportPlan_Count :: "ImportPlan \<Rightarrow> ImportStatus \<Rightarrow> nat" where
  "ImportPlan_Count p status = length (filter (\<lambda>e. ie_Status e = status) (Entries p))"

definition ImportPlan_Filter :: "ImportPlan \<Rightarrow> ImportStatus \<Rightarrow> ImportEntry list" where
  "ImportPlan_Filter p status = filter (\<lambda>e. ie_Status e = status) (Entries p)"

definition ImportPlan_Changes :: "ImportPlan \<Rightarrow> bool" where
  "ImportPlan_Changes p =
     (ImportPlan_Count p ImportApply > 0 \<or> ImportPlan_Count p ImportUnmatched > 0)"

definition ImportPlan_Overrides :: "ImportPlan \<Rightarrow> OverrideSet" where
  "ImportPlan_Overrides p =
     fold (\<lambda>e ovs. if ie_Status e = ImportApply \<or> ie_Status e = ImportUnmatched
                    then Set ovs (ie_Section e) (ie_Name e) (ie_Value e) else ovs)
       (Entries p) NewOverrideSet"

definition plan_entry ::
    "(string \<Rightarrow> 'f option) \<Rightarrow> ('f \<Rightarrow> 'f \<Rightarrow> bool) \<Rightarrow> ConfigFile \<Rightarrow> Setting \<Rightarrow> ImportEntry" where
  "plan_entry pf lt generated inc =
     (let entry = \<lparr>ie_Section = set_Section inc, ie_Name = set_Name inc,
                   ie_Value = trim_space (set_Value inc), ie_Current = '''', ie_Default = '''',
                   ie_Status = ImportUnmatched, ie_Reason = ''''\<rparr>
      in case ConfigFile_Lookup generated (set_Section inc) (set_Name inc) of
           None \<Rightarrow> entry\<lparr>ie_Reason := ''this mod does not declare it''\<rparr>
         | Some known \<Rightarrow>
             (let entry = entry\<lparr>ie_Current := trim_space (set_Value known),
                                ie_Default := trim_space (set_Default known)\<rparr>;
                  hasBaseline = HasDefault known;
                  baseline = (if hasBaseline then ie_Default entry else ie_Current entry)
              in if ie_Value entry = baseline
                 then entry\<lparr>ie_Status := ImportSame,
                            ie_Reason := (if hasBaseline then ''same as the mod's default''
                                          else ''same as the current value'')\<rparr>
                 else (case Validate pf lt known (ie_Value entry) of
                         Some e \<Rightarrow> entry\<lparr>ie_Status := ImportRejected, ie_Reason := err_text e\<rparr>
                       | None \<Rightarrow> entry\<lparr>ie_Status := ImportApply\<rparr>)))"

definition PlanImport ::
    "(string \<Rightarrow> 'f option) \<Rightarrow> ('f \<Rightarrow> 'f \<Rightarrow> bool) \<Rightarrow> ConfigFile \<Rightarrow> string \<Rightarrow> ImportPlan" where
  "PlanImport pf lt generated pasted =
     (let incoming = ParseConfigFile '''' pasted
      in \<lparr>ip_PluginGUID = PluginGUID incoming, ip_PluginName = PluginName incoming,
          ip_PluginVersion = PluginVersion incoming,
          Entries = sort_key (\<lambda>e. (ie_Section e, ie_Name e))
                      (map (plan_entry pf lt generated) (Settings incoming)),
          Parsed = (ConfigFile_Count incoming > 0)\<rparr>)"

definition MatchesConfig :: "ConfigFile \<Rightarrow> ImportPlan \<Rightarrow> goerr option" where
  "MatchesConfig generated plan =
     (if ip_PluginGUID plan = '''' \<or> PluginGUID generated = '''' then None
      else if \<not> equal_fold (ip_PluginGUID plan) (PluginGUID generated)
      then Some (Errorf (''that file is for '' @ ip_PluginGUID plan @ '', not '' @ PluginGUID generated))
      else None)"

section \<open>Published snapshots\<close>

record SnapshotFile =
  sf_Name :: string
  sf_Size :: int
  SHA256 :: string
  Modified :: Time

record ConfigSnapshot =
  snap_Instance :: string
  PublishedAt :: Time
  snap_Files :: "SnapshotFile list"

definition Known :: "ConfigSnapshot option \<Rightarrow> bool" where
  "Known s = (s \<noteq> None)"

definition Snapshot_Lookup :: "ConfigSnapshot option \<Rightarrow> string \<Rightarrow> SnapshotFile option" where
  "Snapshot_Lookup s name =
     (case s of None \<Rightarrow> None | Some s \<Rightarrow> find (\<lambda>f. sf_Name f = name) (snap_Files s))"

definition Snapshot_Len :: "ConfigSnapshot option \<Rightarrow> nat" where
  "Snapshot_Len s = (case s of None \<Rightarrow> 0 | Some s \<Rightarrow> length (snap_Files s))"

end
