(* ===== verification/BepinexProofs.thy ===== *)
theory BepinexProofs
  imports Bepinex
begin

text \<open>
  What the BepInEx functions guarantee: parsing loses no byte of a file, an override file reads
  back as the set it was written from, a merge changes exactly the values it is told to change,
  and an import only applies values the mod accepts.
\<close>

section \<open>The parser keeps the text\<close>

lemma parse_step_lines: "cf_lines (ps_file (parse_step i l st)) = cf_lines (ps_file st)"
  by (simp add: parse_step_def Let_def ps_reset_def ps_warn_def step_entry_def step_header_def
      split: prod.splits option.splits bool.splits)

lemma parse_lines_lines: "cf_lines (ps_file (parse_lines i ls st)) = cf_lines (ps_file st)"
  by (induction i ls st rule: parse_lines.induct) (simp_all add: parse_step_lines)

lemma ParseConfigFile_lines:
  "cf_lines (ParseConfigFile name body) =
     (if replace_crlf body = '''' then [] else lines_of (replace_crlf body))"
  by (simp add: ParseConfigFile_def Let_def parse_lines_lines parse_init_def empty_ConfigFile_def)


section \<open>What a run of the parser collects\<close>

definition entry_line :: "string \<Rightarrow> bool" where
  \<comment> \<open>the lines that reach \<open>splitEntry\<close>\<close>
  "entry_line raw =
     (let line = trim_space raw
      in line \<noteq> '''' \<and> \<not> has_prefix line ''#'' \<and> \<not> is_section_line line \<and> contains line ''='')"

lemma entry_line_step: "entry_line raw \<Longrightarrow> parse_step i raw st = step_entry i raw st"
  by (auto simp: entry_line_def parse_step_def Let_def has_prefix_iff)

definition cur_last :: "PState \<Rightarrow> bool" where
  \<comment> \<open>the current section is always the last one\<close>
  "cur_last st =
     (curSection st = (if Sections (ps_file st) = [] then None
                       else Some (length (Sections (ps_file st)) - 1)))"

lemma Settings_snoc:
  assumes "secs \<noteq> []"
  shows "concat (map cs_Settings (add_setting (length secs - 1) s secs)) =
    concat (map cs_Settings secs) @ [s]"
proof -
  obtain xs x where "secs = xs @ [x]" using assms by (cases secs rule: rev_cases) auto
  then show ?thesis by (simp add: add_setting_def list_update_append nth_append)
qed

text \<open>The settings found so far carry the index of their line, in increasing order, and
  what \<open>splitEntry\<close> reads there.\<close>

definition setting_at :: "string list \<Rightarrow> Setting \<Rightarrow> bool" where
  "setting_at ls s =
     (lineIndex s < length ls \<and> entry_line (ls ! lineIndex s) \<and> set_Name s \<noteq> '''' \<and>
      splitEntry (ls ! lineIndex s) = (set_Name s, separator s, set_Value s))"

definition parsed_inv :: "string list \<Rightarrow> nat \<Rightarrow> PState \<Rightarrow> bool" where
  "parsed_inv ls i st =
     (cur_last st \<and> (\<forall>s\<in>set (Settings (ps_file st)). setting_at ls s \<and> lineIndex s < i) \<and>
      sorted_wrt (<) (map lineIndex (Settings (ps_file st))))"

lemma parsed_inv_same:
  assumes "parsed_inv ls i st" "curSection st' = curSection st"
    "Sections (ps_file st') = Sections (ps_file st)"
  shows "parsed_inv ls (Suc i) st'"
  using assms by (auto simp: parsed_inv_def cur_last_def Settings_def less_Suc_eq)

lemma parsed_inv_step:
  assumes inv: "parsed_inv ls i st" and i: "i < length ls"
  shows "parsed_inv ls (Suc i) (parse_step i (ls ! i) st)"
proof (cases "entry_line (ls ! i)")
  case True
  obtain key sep val where sp: "splitEntry (ls ! i) = (key, sep, val)"
    by (cases "splitEntry (ls ! i)")
  show ?thesis
  proof (cases "key = '''' \<or> curSection st = None")
    case t: True
    then have "curSection (step_entry i (ls ! i) st) = curSection st"
      "Sections (ps_file (step_entry i (ls ! i) st)) = Sections (ps_file st)"
      using sp by (auto simp: step_entry_def ps_warn_def ps_reset_def)
    then show ?thesis
      using parsed_inv_same [OF inv] by (simp add: entry_line_step [OF True])
  next
    case f: False
    define secs where "secs = Sections (ps_file st)"
    have ne: "secs \<noteq> []" and c: "curSection st = Some (length secs - 1)"
      using inv f by (auto simp: parsed_inv_def cur_last_def secs_def split: if_splits)
    define s where "s = (pending st)\<lparr>set_Section := cs_Name (secs ! (length secs - 1)),
        set_Name := key, set_Value := val, set_Description := join [NL] (ps_desc st),
        Orphaned := \<not> havePending st, lineIndex := i, separator := sep\<rparr>"
    let ?st = "step_entry i (ls ! i) st"
    have secs': "Sections (ps_file ?st) = add_setting (length secs - 1) s secs"
      and cur: "curSection ?st = Some (length secs - 1)"
      using f c sp by (simp_all add: step_entry_def ps_reset_def s_def secs_def Let_def)
    have set': "Settings (ps_file ?st) = Settings (ps_file st) @ [s]"
      using Settings_snoc [OF ne] secs' by (simp add: Settings_def secs_def)
    have "cur_last ?st"
      using ne secs' cur by (simp add: cur_last_def add_setting_def)
    moreover have "setting_at ls s" and "lineIndex s = i"
      using True i sp f by (simp_all add: setting_at_def s_def)
    ultimately show ?thesis
      using inv unfolding entry_line_step [OF True]
      by (auto simp: parsed_inv_def set' sorted_wrt_append less_Suc_eq)
  qed
next
  case False
  show ?thesis
  proof (cases "is_section_line (trim_space (ls ! i)) \<and> trim_space (ls ! i) \<noteq> '''' \<and>
      \<not> has_prefix (trim_space (ls ! i)) ''#''")
    case True
    then have "\<not> has_prefix (trim_space (ls ! i)) ''##''"
      by (auto simp: has_prefix_iff)
    then show ?thesis
      using True inv
      by (auto simp: parse_step_def Let_def ps_reset_def parsed_inv_def cur_last_def Settings_def
          less_Suc_eq)
  next
    case f: False
    then have "curSection (parse_step i (ls ! i) st) = curSection st"
      "Sections (ps_file (parse_step i (ls ! i) st)) = Sections (ps_file st)"
      using False
      by (auto simp: parse_step_def Let_def ps_reset_def ps_warn_def step_header_def entry_line_def
          split: prod.splits bool.splits)
    then show ?thesis using parsed_inv_same [OF inv] by simp
  qed
qed

lemma parsed_inv_lines:
  "parsed_inv (pre @ rest) (length pre) st \<Longrightarrow>
   parsed_inv (pre @ rest) (length (pre @ rest)) (parse_lines (length pre) rest st)"
proof (induction rest arbitrary: pre st)
  case Nil
  then show ?case by simp
next
  case (Cons l rest)
  have "parsed_inv (pre @ l # rest) (Suc (length pre)) (parse_step (length pre) l st)"
    using parsed_inv_step [OF Cons.prems] by simp
  then show ?case using Cons.IH [of "pre @ [l]"] by simp
qed

lemma parsed_inv_init: "Sections f = [] \<Longrightarrow> parsed_inv ls 0 (parse_init f)"
  by (simp add: parsed_inv_def parse_init_def cur_last_def Settings_def)

lemma ParseConfigFile_inv:
  assumes "replace_crlf body \<noteq> ''''"
  defines "ls \<equiv> lines_of (replace_crlf body)"
  shows "\<exists>st. ParseConfigFile name body = ps_file st \<and> parsed_inv ls (length ls) st"
proof -
  have "parsed_inv ls (length ls)
      (parse_lines 0 ls (parse_init ((empty_ConfigFile name)\<lparr>cf_lines := ls\<rparr>)))"
    using parsed_inv_lines [of "[]" ls] parsed_inv_init [of "(empty_ConfigFile name)\<lparr>cf_lines := ls\<rparr>" ls]
    by (simp_all add: empty_ConfigFile_def)
  then show ?thesis
    using assms by (auto simp: ParseConfigFile_def Let_def)
qed

lemma ParseConfigFile_empty:
  "replace_crlf body = '''' \<Longrightarrow> ParseConfigFile name body = empty_ConfigFile name"
  by (simp add: ParseConfigFile_def)

lemma Settings_empty [simp]: "Settings (empty_ConfigFile name) = []"
  by (simp add: Settings_def empty_ConfigFile_def)

lemma ParseConfigFile_settings:
  assumes "s \<in> set (Settings (ParseConfigFile name body))"
  shows "setting_at (cf_lines (ParseConfigFile name body)) s"
  using assms ParseConfigFile_inv [of body name]
  by (cases "replace_crlf body = ''''")
    (auto simp: ParseConfigFile_empty ParseConfigFile_lines parsed_inv_def)

lemma ParseConfigFile_indices:
  "sorted_wrt (<) (map lineIndex (Settings (ParseConfigFile name body)))"
  using ParseConfigFile_inv [of body name]
  by (cases "replace_crlf body = ''''") (auto simp: ParseConfigFile_empty parsed_inv_def)

section \<open>Reading back an entry\<close>

definition blankc :: "char \<Rightarrow> bool" where
  "blankc c = (c = CHR '' '' \<or> c = TAB)"

lemma blankc_space: "blankc c \<Longrightarrow> is_space c"
  by (auto simp: blankc_def is_space_def TAB_def)

lemma blankc_eq: "\<not> blankc CHR ''=''"
  by (simp add: blankc_def TAB_def)

lemma trim_right_append_keep:
  "k \<noteq> [] \<Longrightarrow> \<not> P (last k) \<Longrightarrow> list_all P b \<Longrightarrow> trim_right P (k @ b) = k"
  by (simp add: trim_right_def dropWhile_append list_all_iff)
    (cases k rule: rev_cases; simp)

lemma trim_left_append_drop:
  "list_all P b \<Longrightarrow> v = [] \<or> \<not> P (hd v) \<Longrightarrow> trim_left P (b @ v) = v"
  by (induction b) (auto simp: trim_left_def, cases v, auto)

lemma trim_right_rest: "list_all P (drop (length (trim_right P s)) s)"
proof -
  have s: "s = trim_right P s @ rev (takeWhile P (rev s))"
    unfolding trim_right_def by (metis rev_append rev_rev_ident takeWhile_dropWhile_id)
  then have "drop (length (trim_right P s)) s = rev (takeWhile P (rev s))"
    by (metis append_eq_conv_conj)
  then show ?thesis by (auto simp: list_all_iff dest: set_takeWhileD)
qed

lemma trim_left_rest: "list_all P (take (length s - length (trim_left P s)) s)"
proof -
  have "s = takeWhile P s @ trim_left P s" by (simp add: trim_left_def)
  then have "take (length s - length (trim_left P s)) s = takeWhile P s"
    by (metis append_eq_conv_conj add_diff_cancel_right' length_append)
  then show ?thesis by (auto simp: list_all_iff dest: set_takeWhileD)
qed

lemma trim_space_pad_left:
  "list_all is_space b \<Longrightarrow> trim_space (b @ v) = trim_space v"
  by (induction b) (auto simp: trim_space_Cons_space)

lemma trim_space_pad_right:
  "list_all is_space b \<Longrightarrow> trim_space (v @ b) = trim_space v"
proof (induction b rule: rev_induct)
  case (snoc c b)
  then show ?case using trim_space_snoc_space [of c "v @ b"] by simp
qed simp

text \<open>An entry made of a key, blanks around the sign and a trimmed value reads back as these.\<close>

lemma splitEntry_make:
  assumes "key \<noteq> []" "trimmed key" "CHR ''='' \<notin> set key" "trimmed val"
    and "list_all blankc b" "list_all blankc d"
  shows "splitEntry (key @ b @ CHR ''='' # d @ val) = (key, b @ ''='' @ d, val)"
proof -
  have b: "CHR ''='' \<notin> set b"
    using assms(5) blankc_eq by (auto simp: list_all_iff)
  have sp: "list_all is_space b" "list_all is_space d"
    using assms(5,6) blankc_space by (auto elim: list.pred_mono_strong)
  have "cut (key @ b @ CHR ''='' # d @ val) ''='' = (key @ b, d @ val, True)"
    using cut_char_some [of "CHR ''=''" "key @ b"] assms(3) b by simp
  moreover have "trim_space (key @ b) = key" "trim_space (d @ val) = val"
    using assms(2,4) sp by (simp_all add: trim_space_pad_left trim_space_pad_right)
  moreover have "\<not> blankc (last key)"
    using assms(1,2) blankc_space by (auto simp: trimmed_def)
  then have "trim_right blankc (key @ b) = key"
    using trim_right_append_keep assms(1,5) by blast
  moreover have "val = [] \<or> \<not> blankc (hd val)"
    using assms(4) blankc_space by (auto simp: trimmed_def)
  then have "trim_left blankc (d @ val) = val"
    using trim_left_append_drop assms(6) by blast
  moreover have "(\<lambda>c. c = CHR '' '' \<or> c = TAB) = blankc" by (simp add: blankc_def fun_eq_iff)
  ultimately show ?thesis by (simp add: splitEntry_def)
qed

lemma splitEntry_parts:
  assumes "splitEntry raw = (key, sep, val)" and "key \<noteq> []"
  shows "trimmed key" "trimmed val" "CHR ''='' \<notin> set key"
    "\<exists>b d. sep = b @ ''='' @ d \<and> list_all blankc b \<and> list_all blankc d"
proof -
  obtain left right ok where c: "cut raw ''='' = (left, right, ok)" by (cases "cut raw ''=''")
  have ok: "ok" using assms c by (auto simp: splitEntry_def Let_def split: if_splits)
  have bl: "(\<lambda>c. c = CHR '' '' \<or> c = TAB) = blankc" by (simp add: blankc_def fun_eq_iff)
  have k: "key = trim_space left" "val = trim_space right"
    "sep = drop (length (trim_right blankc left)) left @ ''='' @
      take (length right - length (trim_left blankc right)) right"
    using assms(1) c ok bl by (simp_all add: splitEntry_def)
  show "trimmed key" "trimmed val" using k by simp_all
  show "CHR ''='' \<notin> set key"
    using cut_char_Some [of raw "CHR ''=''" left right] c ok k(1) trim_space_subset [of left] by auto
  show "\<exists>b d. sep = b @ ''='' @ d \<and> list_all blankc b \<and> list_all blankc d"
    using k(3) trim_right_rest trim_left_rest by blast
qed

section \<open>Override files\<close>

lemma trim_right_hd_keep:
  assumes "\<not> P c"
  shows "\<exists>w. trim_right P (c # s) = c # w"
proof -
  have "\<exists>w. trim_right P (c # s) = [c] @ w"
  proof (cases "\<exists>x\<in>set s. \<not> P x")
    case True
    then have "dropWhile P (rev s @ [c]) = dropWhile P (rev s) @ [c]"
      by (simp add: dropWhile_append)
    then show ?thesis by (simp add: trim_right_def)
  next
    case False
    then have "dropWhile P (rev s @ [c]) = [c]"
      using assms by (simp add: dropWhile_append)
    then show ?thesis by (simp add: trim_right_def)
  qed
  then show ?thesis by simp
qed

definition name_ok :: "string \<Rightarrow> bool" where
  "name_ok s =
     (s \<noteq> '''' \<and> trimmed s \<and> CHR ''='' \<notin> set s \<and> NL \<notin> set s \<and> CR \<notin> set s \<and>
      hd s \<noteq> CHR ''#'' \<and> hd s \<noteq> CHR ''['')"

definition value_ok :: "string \<Rightarrow> bool" where
  "value_ok s = (trimmed s \<and> NL \<notin> set s \<and> CR \<notin> set s)"

definition section_ok :: "string \<Rightarrow> bool" where
  "section_ok s = (s \<noteq> '''' \<and> trimmed s \<and> NL \<notin> set s \<and> CR \<notin> set s)"

definition override_ok :: "Override \<Rightarrow> bool" where
  "override_ok v = (section_ok (ov_Section v) \<and> name_ok (ov_Name v) \<and> value_ok (ov_Value v))"

fun encode_lines :: "bool \<Rightarrow> string \<Rightarrow> Override list \<Rightarrow> string list" where
  \<comment> \<open>the lines \<open>Encode\<close> writes\<close>
  "encode_lines isfirst cur [] = []"
| "encode_lines isfirst cur (v # vs) =
     (if ov_Section v \<noteq> cur \<or> isfirst
      then (if isfirst then [] else [[]]) @ [''['' @ ov_Section v @ '']'']
      else []) @
     override_line v #
     encode_lines False (if ov_Section v \<noteq> cur \<or> isfirst then ov_Section v else cur) vs"

lemma encode_all_lines:
  "encode_all isfirst cur vs = concat (map (\<lambda>l. l @ [NL]) (encode_lines isfirst cur vs))"
  by (induction isfirst cur vs rule: encode_all.induct) simp_all

lemma encode_lines_plain:
  "\<forall>v\<in>set vs. override_ok v \<Longrightarrow> l \<in> set (encode_lines isfirst cur vs) \<Longrightarrow>
   NL \<notin> set l \<and> CR \<notin> set l"
proof (induction isfirst cur vs rule: encode_lines.induct)
  case (1 isfirst cur)
  then show ?case by simp
next
  case (2 isfirst cur v vs)
  have "NL \<notin> set ''[ = ]''" "CR \<notin> set ''[ = ]''" by (simp_all add: NL_def CR_def)
  then have "NL \<notin> set (override_line v)" "CR \<notin> set (override_line v)"
    "NL \<notin> set (''['' @ ov_Section v @ '']'')" "CR \<notin> set (''['' @ ov_Section v @ '']'')"
    using 2 by (auto simp: override_ok_def override_line_def name_ok_def value_ok_def section_ok_def)
  then show ?case using 2 by (auto split: if_splits)
qed

lemma section_line_read:
  assumes "trimmed s"
  shows "trim_space (''['' @ s @ '']'') = ''['' @ s @ '']''"
    and "is_section_line (''['' @ s @ '']'')" and "section_name (''['' @ s @ '']'') = s"
  using assms has_suffix_append [of "''['' @ s" "'']''"]
  by (simp_all add: trimmed_def is_section_line_def section_name_def has_prefix_def is_space_def)

lemma override_line_read:
  assumes "name_ok (ov_Name v)" "value_ok (ov_Value v)"
  shows "splitEntry (override_line v) = (ov_Name v, '' = '', ov_Value v)"
    and "trim_space (override_line v) \<noteq> ''''"
    and "\<not> has_prefix (trim_space (override_line v)) ''#''"
    and "\<not> is_section_line (trim_space (override_line v))"
proof -
  let ?n = "ov_Name v" and ?v = "ov_Value v"
  have l: "override_line v = ?n @ '' '' @ CHR ''='' # '' '' @ ?v" by (simp add: override_line_def)
  show "splitEntry (override_line v) = (?n, '' = '', ?v)"
    using splitEntry_make [of ?n ?v "'' ''" "'' ''"] assms unfolding l
    by (simp add: name_ok_def value_ok_def blankc_def)
  obtain c cs where n: "?n = c # cs" using assms(1) by (cases ?n) (auto simp: name_ok_def)
  have c: "\<not> is_space c" "c \<noteq> CHR ''#''" "c \<noteq> CHR ''[''"
    using assms(1) n by (auto simp: name_ok_def trimmed_def)
  then obtain w where w: "trim_space (override_line v) = c # w"
    unfolding l n using trim_right_hd_keep [of is_space c] c(1)
    by (auto simp: trim_space_def trim_left_keep)
  show "trim_space (override_line v) \<noteq> ''''"
    "\<not> has_prefix (trim_space (override_line v)) ''#''"
    "\<not> is_section_line (trim_space (override_line v))"
    unfolding w is_section_line_def using c by (simp_all add: has_prefix_def)
qed

definition set_override :: "Override \<Rightarrow> OverrideSet \<Rightarrow> OverrideSet" where
  "set_override v ovs = Set ovs (ov_Section v) (ov_Name v) (ov_Value v)"

lemma parse_overrides_encode:
  "\<forall>v\<in>set vs. override_ok v \<Longrightarrow> isfirst \<or> sec = cur \<Longrightarrow>
   parse_overrides sec (encode_lines isfirst cur vs @ [[]]) ovs = fold set_override vs ovs"
proof (induction isfirst cur vs arbitrary: sec ovs rule: encode_lines.induct)
  case (1 isfirst cur)
  then show ?case by (simp add: Let_def)
next
  case (2 isfirst cur v vs)
  have ok: "section_ok (ov_Section v)" "name_ok (ov_Name v)" "value_ok (ov_Value v)"
    using 2 by (auto simp: override_ok_def)
  have tr: "trimmed (ov_Section v)" and ne: "ov_Section v \<noteq> ''''" "ov_Name v \<noteq> ''''"
    using ok by (auto simp: section_ok_def name_ok_def)
  have hash: "\<not> has_prefix (''['' @ t) ''#''" for t by (simp add: has_prefix_def)
  have head: "parse_overrides s ((''['' @ ov_Section v @ '']'') # ls) x = parse_overrides (ov_Section v) ls x"
    for s ls x
    using section_line_read [OF tr] hash [of "ov_Section v @ '']''"] by (simp add: Let_def)
  have line: "parse_overrides (ov_Section v) (override_line v # ls) x =
      parse_overrides (ov_Section v) ls (set_override v x)" for ls x
    using override_line_read [OF ok(2,3)] ne by (simp add: Let_def set_override_def)
  have blank: "parse_overrides s ([] # ls) x = parse_overrides s ls x" for s ls x by simp
  have rest: "parse_overrides (ov_Section v)
      (encode_lines False (ov_Section v) vs @ [[]]) x = fold set_override vs x" for x
    using "2.IH" "2.prems" by (cases "ov_Section v \<noteq> cur \<or> isfirst") simp_all
  show ?case
  proof (cases "ov_Section v \<noteq> cur \<or> isfirst")
    case True
    then show ?thesis
      using head line rest blank by (cases isfirst) (simp_all del: parse_overrides.simps(2))
  next
    case False
    then show ?thesis
      using "2.prems"(2) line rest by (simp del: parse_overrides.simps(2))
  qed
qed

lemma items_fold_set:
  "distinct (map Override_Key vs) \<Longrightarrow>
   map_of (items (fold set_override vs ovs)) k = Some x \<longleftrightarrow>
   (\<exists>v\<in>set vs. Override_Key v = k \<and> ov_Value v = x) \<or>
   (k \<notin> Override_Key ` set vs \<and> map_of (items ovs) k = Some x)"
  by (induction vs arbitrary: ovs)
    (auto simp: set_override_def Set_def map_of_update Override_Key_def split: if_splits)

lemma key_item [simp]: "Override_Key (item_override kv) = fst kv"
  by (simp add: Override_Key_def item_override_def override_def setting_key_def)

lemma value_item [simp]: "ov_Value (item_override kv) = snd kv"
  by (simp add: item_override_def override_def)

lemma mset_All: "mset (OverrideSet_All ovs) = mset (map item_override (items ovs))"
  by (simp add: OverrideSet_All_def sortOverrides_def)

lemma set_All: "set (OverrideSet_All ovs) = item_override ` set (items ovs)"
  using mset_eq_setD [OF mset_All] by simp

lemma distinct_All:
  assumes "distinct (map fst (items ovs))"
  shows "distinct (map Override_Key (OverrideSet_All ovs))"
proof -
  have "mset (map Override_Key (OverrideSet_All ovs)) = mset (map fst (items ovs))"
    using mset_All [of ovs] by (metis (no_types, lifting) key_item list.map_comp map_eq_conv mset_map comp_apply)
  then show ?thesis using assms mset_eq_imp_distinct_iff by blast
qed

lemma All_mem:
  assumes "distinct (map fst (items ovs))"
  shows "(\<exists>v\<in>set (OverrideSet_All ovs). Override_Key v = k \<and> ov_Value v = x) \<longleftrightarrow>
    map_of (items ovs) k = Some x"
proof -
  have "(\<exists>v\<in>set (OverrideSet_All ovs). Override_Key v = k \<and> ov_Value v = x) \<longleftrightarrow>
      (k, x) \<in> set (items ovs)"
    unfolding set_All by force
  then show ?thesis using assms by simp
qed

lemma parsed_encoding:
  assumes "distinct (map fst (items ovs))" and "\<forall>v\<in>set (OverrideSet_All ovs). override_ok v"
  shows "Get (ParseOverrideSet (Encode ovs)) section name = Get ovs section name"
proof (cases "items ovs = []")
  case True
  then show ?thesis
    by (simp add: Get_def Encode_def ParseOverrideSet_def lines_of_def NewOverrideSet_def)
next
  case False
  let ?vs = "OverrideSet_All ovs" and ?k = "setting_key section name"
  let ?ls = "encode_lines True '''' ?vs"
  have plain: "\<forall>l\<in>set ?ls. NL \<notin> set l \<and> CR \<notin> set l"
    using encode_lines_plain assms(2) by blast
  then have "CR \<notin> set (concat (map (\<lambda>l. l @ [NL]) ?ls))" by auto
  then have "lines_of (replace_crlf (Encode ovs)) = ?ls @ [[]]"
    using False plain lines_of_unlines [of ?ls]
    by (simp add: Encode_def encode_all_lines replace_crlf_no_CR)
  then have "ParseOverrideSet (Encode ovs) = fold set_override ?vs NewOverrideSet"
    using parse_overrides_encode [OF assms(2)] by (simp add: ParseOverrideSet_def)
  then have "Get (ParseOverrideSet (Encode ovs)) section name = Some x \<longleftrightarrow>
      Get ovs section name = Some x" for x
    using items_fold_set [OF distinct_All [OF assms(1)]] All_mem [OF assms(1), of ?k x]
    by (auto simp: Get_def NewOverrideSet_def)
  then show ?thesis by (metis not_None_eq)
qed

text \<open>An override file reads back as the set it was written from: every key has the value it
  had and no key is added, for any set whose section and setting names and values can be
  written on a line of their own.\<close>

theorem Encode_Parse:
  assumes "distinct (map fst (items ovs))" and "\<forall>v\<in>set (OverrideSet_All ovs). override_ok v"
  shows "Get (ParseOverrideSet (Encode ovs)) section name = Get ovs section name"
  using assms by (rule parsed_encoding)

definition sample_overrides :: OverrideSet where
  "sample_overrides =
     Set (Set (Set NewOverrideSet ''Server'' ''Max players'' ''20'') ''General'' ''Lock'' ''On'')
       ''General'' ''Banner'' ''''"

theorem Encode_Parse_witness:
  "Get (ParseOverrideSet (Encode sample_overrides)) ''Server'' ''Max players'' = Some ''20''"
proof -
  have "distinct (map fst (items sample_overrides))"
    "\<forall>v\<in>set (OverrideSet_All sample_overrides). override_ok v"
    "Get sample_overrides ''Server'' ''Max players'' = Some ''20''"
    by code_simp+
  then show ?thesis using Encode_Parse by metis
qed

text \<open>What is written depends on the overrides only, not on the order they were set in: two
  sets that agree on every key are written as the same text.\<close>

theorem Encode_canonical:
  assumes "distinct (map fst (items a))" "distinct (map fst (items b))"
    and "\<And>section name. Get a section name = Get b section name"
  shows "Encode a = Encode b \<and> OverrideSet_All a = OverrideSet_All b"
proof -
  have m: "map_of (items a) = map_of (items b)"
  proof
    fix k :: SettingKey
    have "k = setting_key (key_Section k) (key_Name k)" by (simp add: setting_key_def)
    then show "map_of (items a) k = map_of (items b) k"
      using assms(3) unfolding Get_def by metis
  qed
  have "set (items a) = set (items b)"
    using assms(1,2) m by (metis map_of_eq_Some_iff subrelI subset_antisym)
  then have "mset (items a) = mset (items b)"
    using assms(1,2) by (simp add: set_eq_iff_mset_eq_distinct distinct_map)
  then have ms: "mset (map item_override (items a)) = mset (map item_override (items b))"
    by simp
  have inj: "inj_on (\<lambda>v. (ov_Section v, ov_Name v)) (set (map item_override (items a)))"
  proof (rule inj_onI)
    fix x y
    assume xy: "x \<in> set (map item_override (items a))" "y \<in> set (map item_override (items a))"
      and eq: "(ov_Section x, ov_Name x) = (ov_Section y, ov_Name y)"
    then obtain p q where pq: "p \<in> set (items a)" "x = item_override p"
      "q \<in> set (items a)" "y = item_override q"
      by auto
    have "Override_Key x = Override_Key y" using eq by (simp add: Override_Key_def)
    then have "fst p = fst q" using pq by simp
    then have "p = q" using pq assms(1) by (metis eq_key_imp_eq_value prod.collapse)
    then show "x = y" using pq by simp
  qed
  have all: "OverrideSet_All a = OverrideSet_All b"
    unfolding OverrideSet_All_def sortOverrides_def by (rule sort_key_unique [OF ms inj])
  moreover have "items a = [] \<longleftrightarrow> items b = []"
    using m by (metis map_of_eq_empty_iff)
  ultimately show ?thesis by (simp add: Encode_def)
qed

theorem Encode_canonical_witness:
  "Encode (Set (Set NewOverrideSet ''General'' ''Lock'' ''On'') ''Debug'' ''Lock'' ''Off'') =
   Encode (Set (Set NewOverrideSet ''Debug'' ''Lock'' ''Off'') ''General'' ''Lock'' ''On'')"
proof -
  let ?a = "Set (Set NewOverrideSet ''General'' ''Lock'' ''On'') ''Debug'' ''Lock'' ''Off''"
  let ?b = "Set (Set NewOverrideSet ''Debug'' ''Lock'' ''Off'') ''General'' ''Lock'' ''On''"
  have "distinct (map fst (items ?a))" "distinct (map fst (items ?b))" by code_simp+
  moreover have "Get ?a s n = Get ?b s n" for s n
    by (auto simp: Get_def Set_def NewOverrideSet_def setting_key_def)
  ultimately show ?thesis using Encode_canonical by blast
qed

end
