(* ===== verification/BepinexMerge.thy ===== *)
theory BepinexMerge
  imports BepinexProofs
begin

text \<open>
  What \<open>Merge\<close> and \<open>PlanImport\<close> guarantee: every override is reported once, the merged file
  parses to the same settings with exactly the overridden values changed, and only values the
  mod accepts are imported.
\<close>

section \<open>Two files that differ in values only\<close>

definition same_entry :: "string \<Rightarrow> string \<Rightarrow> bool" where
  "same_entry l1 l2 =
     (l1 = l2 \<or> (entry_line l1 \<and> entry_line l2 \<and>
       fst (splitEntry l1) = fst (splitEntry l2) \<and>
       fst (snd (splitEntry l1)) = fst (snd (splitEntry l2))))"

definition erase_value :: "Setting \<Rightarrow> Setting" where
  "erase_value s = s\<lparr>set_Value := ''''\<rparr>"

definition erase_section :: "ConfigSection \<Rightarrow> ConfigSection" where
  "erase_section sec = sec\<lparr>cs_Settings := map erase_value (cs_Settings sec)\<rparr>"

definition shape_eq :: "PState \<Rightarrow> PState \<Rightarrow> bool" where
  \<comment> \<open>two parser states that differ only in values, line texts and warnings\<close>
  "shape_eq a b =
     (curSection a = curSection b \<and> ps_desc a = ps_desc b \<and> pending a = pending b \<and>
      havePending a = havePending b \<and> seenSection a = seenSection b \<and>
      map erase_section (Sections (ps_file a)) = map erase_section (Sections (ps_file b)))"

lemma erase_section_name [simp]: "cs_Name (erase_section sec) = cs_Name sec"
  by (simp add: erase_section_def)

lemma shape_names:
  assumes "map erase_section xs = map erase_section ys" and "k < length xs"
  shows "cs_Name (xs ! k) = cs_Name (ys ! k)"
  using assms by (metis erase_section_name length_map nth_map)

lemma erase_add_setting:
  assumes "map erase_section xs = map erase_section ys" and "k < length xs"
    and "erase_value s = erase_value t"
  shows "map erase_section (add_setting k s xs) = map erase_section (add_setting k t ys)"
proof -
  have k: "k < length ys" using assms by (metis length_map)
  have "erase_section (xs ! k) = erase_section (ys ! k)"
    using assms k by (metis nth_map)
  then have "erase_section ((xs ! k)\<lparr>cs_Settings := cs_Settings (xs ! k) @ [s]\<rparr>) =
      erase_section ((ys ! k)\<lparr>cs_Settings := cs_Settings (ys ! k) @ [t]\<rparr>)"
    using assms(3) by (simp add: erase_section_def) (metis ConfigSection.surjective ConfigSection.update_convs(2) ConfigSection.ext_inject)
  then show ?thesis by (simp add: add_setting_def map_update assms(1))
qed

lemma shape_warn: "shape_eq a b \<Longrightarrow> shape_eq (ps_warn i r m a) (ps_warn i r' m' b)"
  by (simp add: shape_eq_def ps_warn_def ps_reset_def)

lemma step_header_sections [simp]: "Sections (step_header raw body f) = Sections f"
  by (simp add: step_header_def Let_def split: prod.splits bool.splits)

lemma shape_entry:
  assumes sh: "shape_eq a b" and inv: "cur_last a" and fst: "fst (splitEntry l1) = fst (splitEntry l2)"
    "fst (snd (splitEntry l1)) = fst (snd (splitEntry l2))"
  shows "shape_eq (step_entry i l1 a) (step_entry i l2 b)"
proof -
  obtain key sep v1 where s1: "splitEntry l1 = (key, sep, v1)" by (cases "splitEntry l1")
  obtain v2 where s2: "splitEntry l2 = (key, sep, v2)" using fst s1 by (cases "splitEntry l2") simp
  show ?thesis
  proof (cases "key = '''' \<or> curSection a = None")
    case True
    moreover have "curSection b = curSection a" using sh by (simp add: shape_eq_def)
    ultimately show ?thesis
      using s1 s2 shape_warn [OF sh] by (auto simp: step_entry_def)
  next
    case False
    then obtain k where k: "curSection a = Some k" "curSection b = Some k"
      using sh by (auto simp: shape_eq_def)
    have lt: "k < length (Sections (ps_file a))"
      using inv k by (auto simp: cur_last_def split: if_splits)
    have m: "map erase_section (Sections (ps_file a)) = map erase_section (Sections (ps_file b))"
      using sh by (simp add: shape_eq_def)
    define S where "S v = (pending b)\<lparr>set_Section := cs_Name (Sections (ps_file b) ! k),
        set_Name := key, set_Value := v, set_Description := join [NL] (ps_desc b),
        Orphaned := \<not> havePending b, lineIndex := i, separator := sep\<rparr>" for v
    have "erase_value (S v1) = erase_value (S v2)" by (simp add: S_def erase_value_def)
    then have adds: "map erase_section (add_setting k (S v1) (Sections (ps_file a))) =
        map erase_section (add_setting k (S v2) (Sections (ps_file b)))"
      by (rule erase_add_setting [OF m lt])
    have eqs: "ps_desc a = ps_desc b" "pending a = pending b" "havePending a = havePending b"
      "seenSection a = seenSection b"
      using sh by (simp_all add: shape_eq_def)
    have "step_entry i l1 a = ps_reset (a\<lparr>ps_file := (ps_file a)\<lparr>Sections :=
        add_setting k (S v1) (Sections (ps_file a))\<rparr>\<rparr>)"
      "step_entry i l2 b = ps_reset (b\<lparr>ps_file := (ps_file b)\<lparr>Sections :=
        add_setting k (S v2) (Sections (ps_file b))\<rparr>\<rparr>)"
      using False k s1 s2 shape_names [OF m lt] eqs
      by (simp_all add: step_entry_def Let_def S_def)
    then show ?thesis
      using adds k eqs by (simp add: shape_eq_def ps_reset_def)
  qed
qed

lemma shape_step_same:
  assumes sh: "shape_eq a b" and inv: "cur_last a"
  shows "shape_eq (parse_step i l a) (parse_step i l b)"
proof -
  have entry: "shape_eq (step_entry i l a) (step_entry i l b)"
    by (rule shape_entry [OF sh inv]) simp_all
  have len: "length (Sections (ps_file a)) = length (Sections (ps_file b))"
    using sh by (metis length_map shape_eq_def)
  have seen: "seenSection a = seenSection b" "pending a = pending b" "ps_desc a = ps_desc b"
    using sh by (simp_all add: shape_eq_def)
  have head: "shape_eq (a\<lparr>ps_file := step_header l t (ps_file a)\<rparr>)
      (b\<lparr>ps_file := step_header l t (ps_file b)\<rparr>)" for t
    using sh by (simp add: shape_eq_def)
  have desc: "shape_eq (a\<lparr>ps_desc := d, havePending := True\<rparr>) (b\<lparr>ps_desc := d, havePending := True\<rparr>)" for d
    using sh by (simp add: shape_eq_def)
  have meta: "shape_eq (a\<lparr>pending := p, havePending := True\<rparr>) (b\<lparr>pending := p, havePending := True\<rparr>)" for p
    using sh by (simp add: shape_eq_def)
  have sec: "shape_eq (ps_reset (a\<lparr>seenSection := True,
        ps_file := (ps_file a)\<lparr>Sections := Sections (ps_file a) @ [s]\<rparr>, curSection := k\<rparr>))
      (ps_reset (b\<lparr>seenSection := True,
        ps_file := (ps_file b)\<lparr>Sections := Sections (ps_file b) @ [s]\<rparr>, curSection := k\<rparr>))" for s k
    using sh by (simp add: shape_eq_def ps_reset_def)
  show ?thesis
    using entry head desc meta sec shape_warn [OF sh] sh
    by (simp add: parse_step_def Let_def seen len)
qed

lemma shape_step:
  assumes sh: "shape_eq a b" and inv: "cur_last a" and same: "same_entry l1 l2"
  shows "shape_eq (parse_step i l1 a) (parse_step i l2 b)"
proof (cases "l1 = l2")
  case True
  then show ?thesis using shape_step_same [OF sh inv] by simp
next
  case False
  then show ?thesis
    using shape_entry [OF sh inv] same by (auto simp: entry_line_step same_entry_def)
qed

lemma shape_lines:
  "list_all2 same_entry ls1 ls2 \<Longrightarrow> shape_eq a b \<Longrightarrow> parsed_inv (pre @ ls1) (length pre) a \<Longrightarrow>
   shape_eq (parse_lines (length pre) ls1 a) (parse_lines (length pre) ls2 b)"
proof (induction ls1 ls2 arbitrary: a b pre rule: list_all2_induct)
  case Nil
  then show ?case by simp
next
  case (Cons x xs y ys)
  have "parsed_inv (pre @ x # xs) (Suc (length pre)) (parse_step (length pre) x a)"
    using parsed_inv_step [OF Cons.prems(2)] by simp
  moreover have "shape_eq (parse_step (length pre) x a) (parse_step (length pre) y b)"
    using shape_step Cons.prems Cons.hyps(1) by (simp add: parsed_inv_def)
  ultimately show ?case using Cons.IH [of _ _ "pre @ [x]"] by simp
qed

text \<open>The settings of a file are its erased settings with the values read back from its lines.\<close>

lemma Settings_erase: "map erase_value (Settings f) = concat (map cs_Settings (map erase_section (Sections f)))"
  by (simp add: Settings_def erase_section_def map_concat comp_def)

definition value_at :: "string list \<Rightarrow> Setting \<Rightarrow> Setting" where
  "value_at ls s = s\<lparr>set_Value := snd (snd (splitEntry (ls ! lineIndex s)))\<rparr>"

lemma value_at_erase: "setting_at ls s \<Longrightarrow> value_at ls (erase_value s) = s"
  by (simp add: setting_at_def value_at_def erase_value_def)

lemma Settings_same_entry:
  assumes f1: "replace_crlf body1 \<noteq> ''''" and f2: "replace_crlf body2 \<noteq> ''''"
    and same: "list_all2 same_entry (lines_of (replace_crlf body1)) (lines_of (replace_crlf body2))"
  shows "Settings (ParseConfigFile name body2) =
    map (value_at (lines_of (replace_crlf body2))) (Settings (ParseConfigFile name body1))"
proof -
  let ?l1 = "lines_of (replace_crlf body1)" and ?l2 = "lines_of (replace_crlf body2)"
  let ?i = "\<lambda>ls. parse_init ((empty_ConfigFile name)\<lparr>cf_lines := ls\<rparr>)"
  have "shape_eq (parse_lines (length ([] :: string list)) ?l1 (?i ?l1)) (parse_lines (length ([] :: string list)) ?l2 (?i ?l2))"
    by (rule shape_lines [OF same])
      (simp_all add: shape_eq_def parse_init_def parsed_inv_init empty_ConfigFile_def
        parsed_inv_def cur_last_def Settings_def)
  then have "map erase_section (Sections (ParseConfigFile name body1)) =
      map erase_section (Sections (ParseConfigFile name body2))"
    using f1 f2 by (simp add: ParseConfigFile_def Let_def shape_eq_def)
  then have e: "map erase_value (Settings (ParseConfigFile name body1)) =
      map erase_value (Settings (ParseConfigFile name body2))"
    by (simp only: Settings_erase)
  have "Settings (ParseConfigFile name body2) =
      map (value_at ?l2) (map erase_value (Settings (ParseConfigFile name body2)))"
    using ParseConfigFile_settings [of _ name body2] f2
    by (simp add: map_idI value_at_erase ParseConfigFile_lines)
  also have "\<dots> = map (value_at ?l2) (map erase_value (Settings (ParseConfigFile name body1)))"
    by (simp only: e)
  also have "\<dots> = map (value_at ?l2) (Settings (ParseConfigFile name body1))"
    by (simp add: value_at_def erase_value_def)
  finally show ?thesis .
qed

section \<open>The report\<close>

definition declared :: "ConfigFile \<Rightarrow> Override \<Rightarrow> Setting option" where
  "declared f v = map_of (merge_index f) (Override_Key v)"

definition unchanged :: "ConfigFile \<Rightarrow> Override \<Rightarrow> bool" where
  "unchanged f v =
     (case declared f v of None \<Rightarrow> False
      | Some s \<Rightarrow> trim_space (set_Value s) = trim_space (ov_Value v))"

lemma merge_fold_report:
  "ms_pending (fold (merge_step f) vs st) = ms_pending st @ filter (\<lambda>v. declared f v = None) vs \<and>
   Applied (ms_report (fold (merge_step f) vs st)) =
     Applied (ms_report st) @ filter (\<lambda>v. declared f v \<noteq> None \<and> \<not> unchanged f v) vs \<and>
   NoOp (ms_report (fold (merge_step f) vs st)) =
     NoOp (ms_report st) @ filter (unchanged f) vs \<and>
   Appended (ms_report (fold (merge_step f) vs st)) = Appended (ms_report st) @
     filter (\<lambda>v. declared f v = None \<and> ov_Section v \<in> set (SectionNames f)) vs \<and>
   Stale (ms_report (fold (merge_step f) vs st)) = Stale (ms_report st) @
     filter (\<lambda>v. declared f v = None \<and> ov_Section v \<notin> set (SectionNames f)) vs"
proof (induction vs arbitrary: st)
  case Nil
  then show ?case by simp
next
  case (Cons v vs)
  then show ?case
    by (cases "declared f v") (simp_all add: merge_step_def Let_def unchanged_def declared_def)
qed

lemma zero_report [simp]:
  "Applied empty_report = []" "NoOp empty_report = []" "Appended empty_report = []"
  "Stale empty_report = []"
  by (simp_all add: empty_report_def)

text \<open>No override is lost from the report or counted twice: each one is reported exactly once,
  as applied, as already in place, as appended to a section the mod has, or as stale; what is
  reported applied is declared by the mod and differs from the generated value.\<close>

theorem Merge_report_partition:
  "mset (Applied (snd (Merge f ovs))) + mset (NoOp (snd (Merge f ovs))) +
     mset (Appended (snd (Merge f ovs))) + mset (Stale (snd (Merge f ovs))) =
   mset (map item_override (items ovs))"
proof (cases "length (cf_lines f) = 0 \<and> length (Sections f) = 0")
  case True
  then show ?thesis using mset_All by (simp add: Merge_def)
next
  case False
  let ?vs = "OverrideSet_All ovs"
  have p: "mset (filter (\<lambda>v. declared f v \<noteq> None \<and> \<not> unchanged f v) vs) +
      mset (filter (unchanged f) vs) +
      mset (filter (\<lambda>v. declared f v = None \<and> ov_Section v \<in> set (SectionNames f)) vs) +
      mset (filter (\<lambda>v. declared f v = None \<and> ov_Section v \<notin> set (SectionNames f)) vs) = mset vs" for vs
  proof (induction vs)
    case (Cons v vs)
    then show ?case by (cases "declared f v") (auto simp: unchanged_def)
  qed simp
  show ?thesis
    using False p [of ?vs] mset_All [of ovs]
    by (simp add: Merge_def Let_def merge_fold_report)
qed

section \<open>The merged text\<close>

lemma merge_index_fold:
  "distinct (map Setting_Key ss) \<Longrightarrow>
   \<forall>x\<in>set ss. map_of m (Setting_Key x) = None \<Longrightarrow>
   map_of (fold (\<lambda>s m. AList.update (Setting_Key s) s m) ss m) k = Some s \<longleftrightarrow>
   (s \<in> set ss \<and> Setting_Key s = k) \<or> map_of m k = Some s"
proof (induction ss arbitrary: m)
  case Nil
  then show ?case by simp
next
  case (Cons t ss)
  have "\<forall>x\<in>set ss. map_of (AList.update (Setting_Key t) t m) (Setting_Key x) = None"
  proof
    fix x assume "x \<in> set ss"
    then have "Setting_Key x \<noteq> Setting_Key t" "map_of m (Setting_Key x) = None"
      using Cons.prems by (metis distinct.simps(2) image_eqI list.simps(9) set_map, simp)
    then show "map_of (AList.update (Setting_Key t) t m) (Setting_Key x) = None"
      by (simp add: map_of_update)
  qed
  then have "map_of (fold (\<lambda>s m. AList.update (Setting_Key s) s m) ss
        (AList.update (Setting_Key t) t m)) k = Some s \<longleftrightarrow>
      (s \<in> set ss \<and> Setting_Key s = k) \<or> map_of (AList.update (Setting_Key t) t m) k = Some s"
    using Cons by simp
  then show ?case using Cons.prems by (auto simp: map_of_update)
qed

lemma declared_iff:
  assumes "distinct (map Setting_Key (Settings f))"
  shows "declared f v = Some s \<longleftrightarrow> s \<in> set (Settings f) \<and> Setting_Key s = Override_Key v"
  using merge_index_fold [OF assms, of "[]"] by (simp add: declared_def merge_index_def)

definition new_line :: "Override list \<Rightarrow> Setting \<Rightarrow> string \<Rightarrow> string" where
  "new_line vs s old =
     (case find (\<lambda>v. Override_Key v = Setting_Key s) vs of
        None \<Rightarrow> old
      | Some v \<Rightarrow> if trim_space (set_Value s) = trim_space (ov_Value v) then old
                  else set_Name s @ separator s @ ov_Value v)"

lemma merge_fold_lines:
  assumes "distinct (map Setting_Key (Settings f))" "distinct (map lineIndex (Settings f))"
    and "\<forall>s\<in>set (Settings f). lineIndex s < length (ms_lines st)"
    and "distinct (map Override_Key vs)" "\<forall>v\<in>set vs. declared f v \<noteq> None"
  shows "length (ms_lines (fold (merge_step f) vs st)) = length (ms_lines st) \<and>
    (\<forall>s\<in>set (Settings f). ms_lines (fold (merge_step f) vs st) ! lineIndex s =
       new_line vs s (ms_lines st ! lineIndex s)) \<and>
    (\<forall>j. j \<notin> lineIndex ` set (Settings f) \<longrightarrow>
       ms_lines (fold (merge_step f) vs st) ! j = ms_lines st ! j)"
  using assms(3-5)
proof (induction vs arbitrary: st)
  case Nil
  then show ?case by (simp add: new_line_def)
next
  case (Cons v vs)
  obtain t where t: "declared f v = Some t" using Cons.prems(3) by auto
  then have tin: "t \<in> set (Settings f)" and tkey: "Setting_Key t = Override_Key v"
    using declared_iff [OF assms(1)] by auto
  let ?new = "set_Name t @ separator t @ ov_Value v"
  let ?st = "merge_step f v st"
  have lines: "ms_lines ?st = (if unchanged f v then ms_lines st
      else (ms_lines st)[lineIndex t := ?new])"
    using t by (simp add: merge_step_def declared_def unchanged_def Let_def)
  have one: "ms_lines ?st ! lineIndex s =
      (if s = t \<and> \<not> unchanged f v then ?new else ms_lines st ! lineIndex s)"
    if "s \<in> set (Settings f)" for s
    using that tin assms(2) Cons.prems(1) lines
    by (auto simp: nth_list_update distinct_map dest: inj_onD)
  have IH: "length (ms_lines (fold (merge_step f) vs ?st)) = length (ms_lines ?st) \<and>
    (\<forall>s\<in>set (Settings f). ms_lines (fold (merge_step f) vs ?st) ! lineIndex s =
       new_line vs s (ms_lines ?st ! lineIndex s)) \<and>
    (\<forall>j. j \<notin> lineIndex ` set (Settings f) \<longrightarrow>
       ms_lines (fold (merge_step f) vs ?st) ! j = ms_lines ?st ! j)"
    using Cons.IH [of ?st] Cons.prems lines by simp
  have new: "new_line vs s (ms_lines ?st ! lineIndex s) = new_line (v # vs) s (ms_lines st ! lineIndex s)"
    if s: "s \<in> set (Settings f)" for s
  proof (cases "s = t")
    case True
    have "find (\<lambda>w. Override_Key w = Setting_Key s) vs = None"
      using Cons.prems(2) True tkey by (simp add: find_None_iff) (metis image_eqI)
    then show ?thesis
      using True one [OF s] tkey t by (simp add: new_line_def unchanged_def)
  next
    case False
    then have "Override_Key v \<noteq> Setting_Key s"
      using s tin tkey assms(1) by (auto simp: distinct_map dest: inj_onD)
    then show ?thesis using False one [OF s] by (simp add: new_line_def)
  qed
  have rest: "ms_lines ?st ! j = ms_lines st ! j" if "j \<notin> lineIndex ` set (Settings f)" for j
    using that tin lines by (cases "unchanged f v") (auto intro!: nth_list_update_neq)
  show ?case using IH new rest lines by simp
qed

lemma dropWhile_keeps: "c \<in> set s \<Longrightarrow> \<not> P c \<Longrightarrow> c \<in> set (dropWhile P s)"
  by (induction s) auto

lemma trim_space_keeps: "c \<in> set s \<Longrightarrow> \<not> is_space c \<Longrightarrow> c \<in> set (trim_space s)"
  by (simp add: trim_space_def trim_right_def trim_left_def dropWhile_keeps)

lemma entry_made:
  assumes n: "name_ok n" and v: "value_ok v" and sep: "list_all blankc b" "list_all blankc d"
  defines "l \<equiv> n @ (b @ ''='' @ d) @ v"
  shows "entry_line l" "splitEntry l = (n, b @ ''='' @ d, v)"
proof -
  show "splitEntry l = (n, b @ ''='' @ d, v)"
    using splitEntry_make [of n v b d] n v sep by (simp add: l_def name_ok_def value_ok_def)
  obtain c cs where c: "n = c # cs" "\<not> is_space c" "c \<noteq> CHR ''#''" "c \<noteq> CHR ''[''"
    using n by (cases n) (auto simp: name_ok_def trimmed_def)
  then obtain w where w: "trim_space l = c # w"
    using trim_right_hd_keep [of is_space c] by (auto simp: l_def trim_space_def trim_left_keep)
  have "CHR ''='' \<in> set (trim_space l)"
    by (rule trim_space_keeps) (simp_all add: l_def is_space_def)
  then show "entry_line l"
    using c w by (auto simp: entry_line_def Let_def has_prefix_def is_section_line_def contains_def
        str_index_char_iff)
qed

lemma find_All:
  assumes "distinct (map fst (items ovs))"
  shows "find (\<lambda>v. Override_Key v = Setting_Key s) (OverrideSet_All ovs) = None \<longleftrightarrow>
      Get ovs (set_Section s) (set_Name s) = None"
    and "find (\<lambda>v. Override_Key v = Setting_Key s) (OverrideSet_All ovs) = Some v \<Longrightarrow>
      v \<in> set (OverrideSet_All ovs) \<and> Override_Key v = Setting_Key s \<and>
      Get ovs (set_Section s) (set_Name s) = Some (ov_Value v)"
proof -
  let ?k = "Setting_Key s"
  have g: "Get ovs (set_Section s) (set_Name s) = map_of (items ovs) ?k"
    by (simp add: Get_def Setting_Key_def)
  show "find (\<lambda>v. Override_Key v = ?k) (OverrideSet_All ovs) = None \<longleftrightarrow>
      Get ovs (set_Section s) (set_Name s) = None"
    unfolding g find_None_iff using All_mem [OF assms] by (metis not_None_eq)
  assume "find (\<lambda>v. Override_Key v = ?k) (OverrideSet_All ovs) = Some v"
  then have "v \<in> set (OverrideSet_All ovs)" "Override_Key v = ?k"
    by (auto simp: find_Some_iff)
  then show "v \<in> set (OverrideSet_All ovs) \<and> Override_Key v = ?k \<and>
      Get ovs (set_Section s) (set_Name s) = Some (ov_Value v)"
    unfolding g using All_mem [OF assms, of ?k "ov_Value v"] by blast
qed

definition with_override :: "OverrideSet \<Rightarrow> Setting \<Rightarrow> Setting" where
  "with_override ovs s =
     (case Get ovs (set_Section s) (set_Name s) of
        None \<Rightarrow> s
      | Some v \<Rightarrow> s\<lparr>set_Value := v\<rparr>)"

lemma blankc_plain: "\<not> blankc NL" "\<not> blankc CR"
  by (simp_all add: blankc_def NL_def CR_def TAB_def)

lemma new_line_entry:
  assumes s: "setting_at ls s" and d: "distinct (map fst (items ovs))"
    and ok: "\<forall>v\<in>set (OverrideSet_All ovs). name_ok (ov_Name v) \<and> value_ok (ov_Value v)"
    and ln: "ln = new_line (OverrideSet_All ovs) s (ls ! lineIndex s)"
  shows "same_entry (ls ! lineIndex s) ln \<and> snd (snd (splitEntry ln)) = set_Value (with_override ovs s) \<and>
    (ln = ls ! lineIndex s \<or> NL \<notin> set ln \<and> CR \<notin> set ln)"
proof -
  have sp: "splitEntry (ls ! lineIndex s) = (set_Name s, separator s, set_Value s)"
    and ne: "set_Name s \<noteq> ''''" and el: "entry_line (ls ! lineIndex s)"
    using s by (auto simp: setting_at_def)
  note parts = splitEntry_parts [OF sp ne]
  show ?thesis
  proof (cases "find (\<lambda>v. Override_Key v = Setting_Key s) (OverrideSet_All ovs)")
    case None
    then show ?thesis
      using find_All(1) [OF d, of s] sp by (simp add: new_line_def with_override_def same_entry_def ln)
  next
    case (Some v)
    note v = find_All(2) [OF d Some]
    have name: "ov_Name v = set_Name s"
      using v by (simp add: Override_Key_def Setting_Key_def setting_key_def)
    have vok: "name_ok (set_Name s)" "value_ok (ov_Value v)" using ok v name by auto
    show ?thesis
    proof (cases "trim_space (set_Value s) = trim_space (ov_Value v)")
      case True
      then have "set_Value s = ov_Value v" using parts(2) vok(2) by (simp add: value_ok_def)
      then show ?thesis
        using Some v sp True by (simp add: new_line_def with_override_def same_entry_def ln)
    next
      case False
      obtain b e where be: "separator s = b @ ''='' @ e" "list_all blankc b" "list_all blankc e"
        using parts(4) by blast
      have l: "ln = set_Name s @ (b @ ''='' @ e) @ ov_Value v"
        using Some False be(1) by (simp add: ln new_line_def)
      have bl: "NL \<notin> set x \<and> CR \<notin> set x" if "list_all blankc x" for x
        using that blankc_plain by (auto simp: list_all_iff)
      have "NL \<noteq> CHR ''=''" "CR \<noteq> CHR ''=''" by (simp_all add: NL_def CR_def)
      then have "NL \<notin> set ln \<and> CR \<notin> set ln"
        using vok bl [OF be(2)] bl [OF be(3)] unfolding l by (auto simp: name_ok_def value_ok_def)
      then show ?thesis
        using entry_made [OF vok be(2,3)] sp el v be(1) unfolding l
        by (simp add: same_entry_def with_override_def)
    qed
  qed
qed

lemma lines_plain: "c \<notin> set s \<Longrightarrow> l \<in> set (split_on d s) \<Longrightarrow> c \<notin> set l"
proof (induction s arbitrary: l)
  case Nil
  then show ?case by simp
next
  case (Cons x s)
  obtain h t where ht: "split_on d s = h # t" by (cases "split_on d s") auto
  then show ?case using Cons by (auto split: if_splits)
qed

lemma join_no_CR: "\<forall>l\<in>set xs. CR \<notin> set l \<Longrightarrow> CR \<notin> set (join [NL] xs)"
  by (induction "[NL]" xs rule: join.induct) auto

lemma merged_settings:
  assumes plain: "CR \<notin> set (replace_crlf body)"
    and keys: "distinct (map Setting_Key (Settings (ParseConfigFile name body)))"
    and d: "distinct (map fst (items ovs))"
    and ok: "\<forall>v\<in>set (OverrideSet_All ovs). name_ok (ov_Name v) \<and> value_ok (ov_Value v)"
    and all: "Appended (snd (Merge (ParseConfigFile name body) ovs)) = []"
      "Stale (snd (Merge (ParseConfigFile name body) ovs)) = []"
  shows "Settings (ParseConfigFile name (fst (Merge (ParseConfigFile name body) ovs))) =
    map (with_override ovs) (Settings (ParseConfigFile name body))"
proof (cases "replace_crlf body = ''''")
  case True
  then have f: "ParseConfigFile name body = empty_ConfigFile name" by (rule ParseConfigFile_empty)
  then have "OverrideSet_All ovs = []"
    using all(2) by (simp add: Merge_def empty_ConfigFile_def)
  then have "items ovs = []" using set_All [of ovs] by simp
  then show ?thesis
    unfolding f by (simp add: Merge_def Encode_def ParseConfigFile_empty) (simp add: empty_ConfigFile_def Encode_def ParseConfigFile_empty Settings_def ParseConfigFile_def)
next
  case False
  define f where "f = ParseConfigFile name body"
  define ls where "ls = lines_of (replace_crlf body)"
  have fl: "cf_lines f = ls" "ls \<noteq> []"
    using False by (simp_all add: f_def ls_def ParseConfigFile_lines lines_of_def)
  let ?vs = "OverrideSet_All ovs"
  let ?st0 = "\<lparr>ms_lines = ls, ms_report = empty_report, ms_pending = []\<rparr>"
  define ls' where "ls' = ms_lines (fold (merge_step f) ?vs ?st0)"
  have ss: "\<forall>s\<in>set (Settings f). setting_at ls s"
    using ParseConfigFile_settings [of _ name body] fl(1) unfolding f_def by blast
  have dec: "\<forall>v\<in>set ?vs. declared f v \<noteq> None"
  proof -
    have "filter (\<lambda>v. declared f v = None \<and> ov_Section v \<in> set (SectionNames f)) ?vs = []"
      "filter (\<lambda>v. declared f v = None \<and> ov_Section v \<notin> set (SectionNames f)) ?vs = []"
      using all fl by (simp_all add: Merge_def Let_def merge_fold_report f_def [symmetric])
    then show ?thesis by (auto simp: filter_empty_conv)
  qed
  then have "ms_pending (fold (merge_step f) ?vs ?st0) = []"
    by (auto simp: merge_fold_report filter_empty_conv)
  then have out: "fst (Merge f ovs) = join [NL] ls'"
    using fl by (simp add: Merge_def Let_def ls'_def)
  have idx: "distinct (map lineIndex (Settings f))"
    using ParseConfigFile_indices strict_sorted_iff unfolding f_def by blast
  have L: "length ls' = length ls"
    "\<forall>s\<in>set (Settings f). ls' ! lineIndex s = new_line ?vs s (ls ! lineIndex s)"
    "\<forall>j. j \<notin> lineIndex ` set (Settings f) \<longrightarrow> ls' ! j = ls ! j"
    using merge_fold_lines [OF keys [folded f_def] idx _ distinct_All [OF d] dec, of ?st0] ss
    by (simp_all add: ls'_def setting_at_def)
  have entry: "same_entry (ls ! lineIndex s) (ls' ! lineIndex s) \<and>
      snd (snd (splitEntry (ls' ! lineIndex s))) = set_Value (with_override ovs s) \<and>
      (ls' ! lineIndex s = ls ! lineIndex s \<or> NL \<notin> set (ls' ! lineIndex s) \<and> CR \<notin> set (ls' ! lineIndex s))"
    if "s \<in> set (Settings f)" for s
    using new_line_entry [OF _ d ok] ss L(2) that by blast
  have line: "same_entry (ls ! j) (ls' ! j) \<and> NL \<notin> set (ls' ! j) \<and> CR \<notin> set (ls' ! j)"
    if j: "j < length ls" for j
  proof -
    have "NL \<notin> set (ls ! j)" "CR \<notin> set (ls ! j)"
      using j plain split_on_parts lines_plain unfolding ls_def lines_of_def by (metis nth_mem)+
    moreover obtain s where "s \<in> set (Settings f)" "j = lineIndex s"
      if "j \<in> lineIndex ` set (Settings f)"
      by blast
    ultimately show ?thesis
      using entry L(3) by (cases "j \<in> lineIndex ` set (Settings f)") (metis, simp add: same_entry_def)
  qed
  have same: "list_all2 same_entry ls ls'"
    using line L(1) by (simp add: list_all2_conv_all_nth)
  have nl: "\<forall>l\<in>set ls'. NL \<notin> set l \<and> CR \<notin> set l"
    using line L(1) by (metis in_set_conv_nth)
  have "ls' \<noteq> []" using fl(2) L(1) by auto
  then have lines': "lines_of (replace_crlf (join [NL] ls')) = ls'"
    using nl by (simp add: replace_crlf_no_CR join_no_CR lines_of_join)
  have nonempty: "replace_crlf (join [NL] ls') \<noteq> ''''"
  proof
    assume e: "replace_crlf (join [NL] ls') = ''''"
    then have "ls' = [[]]" using lines' by (simp add: lines_of_def)
    then have "ls = [[]]"
      using same by (auto simp: list_all2_Cons2 same_entry_def entry_line_def)
    then have "join [NL] ls = ''''" by simp
    then show False using False by (simp add: ls_def lines_of_def join_split_on)
  qed
  have "Settings (ParseConfigFile name (join [NL] ls')) = map (value_at ls') (Settings f)"
    using Settings_same_entry [OF False nonempty] same unfolding lines' ls_def f_def by blast
  moreover have "value_at ls' s = with_override ovs s" if "s \<in> set (Settings f)" for s
    using entry [OF that] by (auto simp: value_at_def with_override_def split: option.splits)
  ultimately show ?thesis
    unfolding f_def [symmetric] out by simp
qed

text \<open>C2: Merging changes the values it is told to change and nothing else: when every override
  names a setting the generated file declares, the merged text parses to the same settings in
  the same order with the same descriptions, types, defaults and accepted values, an overridden
  setting having the operator's value and any other the value the mod wrote.\<close>

theorem Merge_values:
  assumes plain: "CR \<notin> set (replace_crlf body)"
    and keys: "distinct (map Setting_Key (Settings (ParseConfigFile name body)))"
    and d: "distinct (map fst (items ovs))"
    and ok: "\<forall>v\<in>set (OverrideSet_All ovs). name_ok (ov_Name v) \<and> value_ok (ov_Value v)"
    and all: "Appended (snd (Merge (ParseConfigFile name body) ovs)) = []"
      "Stale (snd (Merge (ParseConfigFile name body) ovs)) = []"
  shows "Settings (ParseConfigFile name (fst (Merge (ParseConfigFile name body) ovs))) =
    map (with_override ovs) (Settings (ParseConfigFile name body))"
  using assms by (rule merged_settings)

definition sample_config :: string where
  "sample_config =
     ''## Settings file was created by plugin Jotunn v2.20.0'' @ [NL] @
     ''## Plugin GUID: com.jotunn.jotunn'' @ [NL, NL] @
     ''[Server]'' @ [NL, NL] @
     ''## How many may join'' @ [NL] @
     ''# Setting type: Int32'' @ [NL] @
     ''# Default value: 10'' @ [NL] @
     ''# Acceptable value range: From 1 to 64'' @ [NL] @
     ''Max players = 10'' @ [NL] @
     ''Motd = hello'' @ [NL]"

definition sample_change :: OverrideSet where
  "sample_change = Set NewOverrideSet ''Server'' ''Max players'' ''20''"

theorem Merge_values_witness:
  "map set_Value (Settings (ParseConfigFile ''j.cfg''
     (fst (Merge (ParseConfigFile ''j.cfg'' sample_config) sample_change)))) = [''20'', ''hello'']"
proof -
  have "CR \<notin> set (replace_crlf sample_config)"
    "distinct (map Setting_Key (Settings (ParseConfigFile ''j.cfg'' sample_config)))"
    "distinct (map fst (items sample_change))"
    "\<forall>v\<in>set (OverrideSet_All sample_change). name_ok (ov_Name v) \<and> value_ok (ov_Value v)"
    "Appended (snd (Merge (ParseConfigFile ''j.cfg'' sample_config) sample_change)) = []"
    "Stale (snd (Merge (ParseConfigFile ''j.cfg'' sample_config) sample_change)) = []"
    "map set_Value (map (with_override sample_change)
       (Settings (ParseConfigFile ''j.cfg'' sample_config))) = [''20'', ''hello'']"
    by code_simp+
  then show ?thesis using Merge_values by metis
qed

section \<open>Imports\<close>

text \<open>An import never sets a value the mod would refuse: an entry planned as a change names a
  setting the generated file declares, its value passes that setting's validation and differs
  from its baseline, and an import never drops or invents an entry of the pasted file.\<close>

theorem PlanImport_sound:
  assumes "e \<in> set (Entries (PlanImport pf lt generated pasted))"
  shows "(\<exists>inc\<in>set (Settings (ParseConfigFile '''' pasted)). e = plan_entry pf lt generated inc) \<and>
    length (Entries (PlanImport pf lt generated pasted)) =
      length (Settings (ParseConfigFile '''' pasted)) \<and>
    (ie_Status e = ImportApply \<longrightarrow>
      (\<exists>known. ConfigFile_Lookup generated (ie_Section e) (ie_Name e) = Some known \<and>
        Validate pf lt known (ie_Value e) = None \<and>
        ie_Value e \<noteq> trim_space (if HasDefault known then set_Default known else set_Value known)))"
proof -
  obtain inc where inc: "inc \<in> set (Settings (ParseConfigFile '''' pasted))"
    "e = plan_entry pf lt generated inc"
    using assms by (auto simp: PlanImport_def Let_def)
  show ?thesis
  proof (intro conjI impI)
    show "\<exists>inc\<in>set (Settings (ParseConfigFile '''' pasted)). e = plan_entry pf lt generated inc"
      using inc by blast
    show "length (Entries (PlanImport pf lt generated pasted)) =
        length (Settings (ParseConfigFile '''' pasted))"
      by (simp add: PlanImport_def Let_def)
    assume "ie_Status e = ImportApply"
    then show "\<exists>known. ConfigFile_Lookup generated (ie_Section e) (ie_Name e) = Some known \<and>
        Validate pf lt known (ie_Value e) = None \<and>
        ie_Value e \<noteq> trim_space (if HasDefault known then set_Default known else set_Value known)"
      unfolding inc(2)
      by (auto simp: plan_entry_def Let_def split: option.splits if_splits)
  qed
qed

theorem PlanImport_sound_witness:
  "\<exists>e known. e \<in> set (Entries (PlanImport atoi (<) (ParseConfigFile ''j.cfg'' sample_config)
       (''[Server]'' @ [NL] @ ''Max players = 32''))) \<and>
     ConfigFile_Lookup (ParseConfigFile ''j.cfg'' sample_config) ''Server'' ''Max players'' = Some known \<and>
     Validate atoi (<) known ''32'' = None"
proof -
  let ?p = "PlanImport atoi (<) (ParseConfigFile ''j.cfg'' sample_config)
       (''[Server]'' @ [NL] @ ''Max players = 32'')"
  let ?e = "hd (Entries ?p)"
  have "Entries ?p \<noteq> []" by code_simp
  then have mem: "?e \<in> set (Entries ?p)" by simp
  have e1: "ie_Status ?e = ImportApply" by code_simp
  have e2: "ie_Section ?e = ''Server''" by code_simp
  have e3: "ie_Name ?e = ''Max players''" by code_simp
  have e4: "ie_Value ?e = ''32''" by code_simp
  note e = e1 e2 e3 e4
  obtain known where "ConfigFile_Lookup (ParseConfigFile ''j.cfg'' sample_config) ''Server'' ''Max players'' = Some known"
    "Validate atoi (<) known ''32'' = None"
    using PlanImport_sound [OF mem] unfolding e by blast
  then show ?thesis using mem by blast
qed

end
