(* ===== verification/Restarts.thy ===== *)
theory Restarts
  imports Instances
begin

text \<open>
  \<open>internal/app/restarts/queue.go\<close>: the queue of worlds that need a restart, and the tick that
  restarts a world only when nobody plays on it.

  What the queue is given as functions (occupancy, restarter, start time, lookup, event recorder)
  is the record \<open>Deps\<close>, over a world type \<open>'w\<close> that stands for everything outside the queue;
  a \<open>None\<close> field is a nil function. Reading functions do not change the world, the restarter
  may. The calls that have an effect outside are kept in a log with the world they were made in.
  Ticks, requests and cancellations exclude each other through the queue's mutex at the level of
  single map operations; \<open>tick\<close> works on the snapshot \<open>All\<close> returned, as the code does, and the
  step relation \<open>qstep\<close> interleaves the operations of several callers.
\<close>

record Pending =
  pd_Number :: int
  pd_Slug :: string
  pd_Reason :: string
  Since :: Time
  Blocked :: string

definition Waiting :: "Pending \<Rightarrow> bool" where
  "Waiting p = (Blocked p \<noteq> '''')"

datatype QCall = CallRestart Instance | CallEvent string string

record 'w Deps =
  d_players :: "('w \<Rightarrow> Instance \<Rightarrow> int \<times> bool) option"
  d_restart :: "('w \<Rightarrow> Instance \<Rightarrow> goerr option \<times> 'w) option"
  d_startedAt :: "('w \<Rightarrow> Instance \<Rightarrow> Time \<times> bool) option"
  d_lookup :: "('w \<Rightarrow> int \<Rightarrow> goerr + Instance option) option"
  d_event :: bool
  d_now :: "'w \<Rightarrow> Time"

record 'w Queue =
  q_pending :: "(int \<times> Pending) list"
  q_world :: 'w
  q_log :: "('w \<times> QCall) list"

section \<open>Operations\<close>

definition Queue_New :: "'w \<Rightarrow> 'w Queue" where
  "Queue_New w = \<lparr>q_pending = [], q_world = w, q_log = []\<rparr>"

definition Request :: "'w Deps \<Rightarrow> int \<Rightarrow> string \<Rightarrow> string \<Rightarrow> 'w Queue \<Rightarrow> 'w Queue" where
  "Request d n slug reason q =
     (case map_of (q_pending q) n of
        Some existing \<Rightarrow>
          q\<lparr>q_pending := AList.update n (existing\<lparr>pd_Reason := reason\<rparr>) (q_pending q)\<rparr>
      | None \<Rightarrow>
          q\<lparr>q_pending := AList.update n
              \<lparr>pd_Number = n, pd_Slug = slug, pd_Reason = reason, Since = d_now d (q_world q),
               Blocked = ''''\<rparr> (q_pending q)\<rparr>)"

definition Queue_Pending :: "'w Queue \<Rightarrow> int \<Rightarrow> Pending option" where
  "Queue_Pending q n = map_of (q_pending q) n"

definition Queue_All :: "'w Queue \<Rightarrow> Pending list" where
  \<comment> \<open>the order of requests made at the same instant is not determined by the code\<close>
  "Queue_All q = sort_key Since (map snd (q_pending q))"

definition Cancel :: "int \<Rightarrow> 'w Queue \<Rightarrow> 'w Queue" where
  "Cancel n q = q\<lparr>q_pending := AList.delete n (q_pending q)\<rparr>"

definition block :: "int \<Rightarrow> string \<Rightarrow> 'w Queue \<Rightarrow> 'w Queue" where
  "block n why q =
     (case map_of (q_pending q) n of
        Some p \<Rightarrow> q\<lparr>q_pending := AList.update n (p\<lparr>Blocked := why\<rparr>) (q_pending q)\<rparr>
      | None \<Rightarrow> q)"

definition resolve :: "'w Deps \<Rightarrow> 'w \<Rightarrow> Pending \<Rightarrow> goerr + Instance" where
  "resolve d w p =
     (case d_lookup d of
        None \<Rightarrow> Inl (Errorf ''no instance lookup configured'')
      | Some lookup \<Rightarrow>
          (case lookup w (pd_Number p) of
             Inr (Some inst) \<Rightarrow> Inr inst
           | _ \<Rightarrow> Inl (Errorf (''instance '' @ show_int (pd_Number p) @ '' not found''))))"

definition appliedByRestart :: "'w Deps \<Rightarrow> 'w \<Rightarrow> Instance \<Rightarrow> Pending \<Rightarrow> bool" where
  "appliedByRestart d w inst p =
     (case d_startedAt d of
        None \<Rightarrow> False
      | Some startedAt \<Rightarrow>
          (let (started, ok) = startedAt w inst
           in if \<not> ok \<or> started = 0 then False else started > Since p))"

definition log_call :: "QCall \<Rightarrow> 'w Queue \<Rightarrow> 'w Queue" where
  "log_call c q = q\<lparr>q_log := q_log q @ [(q_world q, c)]\<rparr>"

definition roll :: "'w Deps \<Rightarrow> Pending \<Rightarrow> 'w Queue \<Rightarrow> goerr option \<times> 'w Queue" where
  "roll d p q =
     (case d_restart d of
        None \<Rightarrow> (Some (Errorf ''no restarter configured''), q)
      | Some restart \<Rightarrow>
          (case resolve d (q_world q) p of
             Inl e \<Rightarrow> (Some e, q)
           | Inr inst \<Rightarrow>
               (let q1 = log_call (CallRestart inst) q
                in case restart (q_world q) inst of
                     (Some e, w) \<Rightarrow> (Some e, q1\<lparr>q_world := w\<rparr>)
                   | (None, w) \<Rightarrow>
                       (None, (if d_event d
                               then log_call (CallEvent ''restart-applied''
                                      (''#'' @ pad02 (pd_Number p) @ '' '' @ pd_Reason p))
                                      (q1\<lparr>q_world := w\<rparr>)
                               else q1\<lparr>q_world := w\<rparr>)))))"

definition settle_one :: "'w Deps \<Rightarrow> Pending \<Rightarrow> 'w Queue \<Rightarrow> 'w Queue" where
  "settle_one d p q =
     (case resolve d (q_world q) p of
        Inl _ \<Rightarrow> q
      | Inr inst \<Rightarrow> if appliedByRestart d (q_world q) inst p then Cancel (pd_Number p) q else q)"

definition Settle :: "'w Deps \<Rightarrow> 'w Queue \<Rightarrow> 'w Queue" where
  "Settle d q = fold (settle_one d) (Queue_All q) q"

definition Force :: "'w Deps \<Rightarrow> int \<Rightarrow> 'w Queue \<Rightarrow> goerr option \<times> 'w Queue" where
  "Force d n q =
     (let p = (case map_of (q_pending q) n of
                 Some p \<Rightarrow> p
               | None \<Rightarrow> \<lparr>pd_Number = n, pd_Slug = '''', pd_Reason = ''manual restart'', Since = 0,
                           Blocked = ''''\<rparr>)
      in case roll d p q of
           (Some e, q1) \<Rightarrow> (Some e, q1)
         | (None, q1) \<Rightarrow> (None, Cancel n q1))"

definition tick_one :: "'w Deps \<Rightarrow> Pending \<Rightarrow> 'w Queue \<Rightarrow> 'w Queue" where
  \<comment> \<open>the body of \<open>tick\<close>'s loop for one pending restart\<close>
  "tick_one d p q =
     (case resolve d (q_world q) p of
        Inl _ \<Rightarrow> block (pd_Number p) ''world not found'' q
      | Inr inst \<Rightarrow>
          (if appliedByRestart d (q_world q) inst p then Cancel (pd_Number p) q
           else (let (n, known) = (case d_players d of None \<Rightarrow> (0, False)
                                   | Some players \<Rightarrow> players (q_world q) inst)
                 in if \<not> known then block (pd_Number p) ''cannot tell if anyone is playing'' q
                    else if n > 0 then block (pd_Number p) (show_int n @ '' player(s) online'') q
                    else (case roll d p q of
                            (Some e, q1) \<Rightarrow> block (pd_Number p) (''restart failed: '' @ err_text e) q1
                          | (None, q1) \<Rightarrow> Cancel (pd_Number p) q1))))"

definition tick :: "'w Deps \<Rightarrow> 'w Queue \<Rightarrow> 'w Queue" where
  "tick d q = fold (tick_one d) (Queue_All q) q"

section \<open>The queue's invariant\<close>

definition queue_inv :: "'w Queue \<Rightarrow> bool" where
  "queue_inv q =
     (distinct (map fst (q_pending q)) \<and> (\<forall>(n, p) \<in> set (q_pending q). pd_Number p = n))"

lemma queue_inv_put:
  "queue_inv q \<Longrightarrow> pd_Number p = n \<Longrightarrow> queue_inv (q\<lparr>q_pending := AList.update n p (q_pending q)\<rparr>)"
  using set_update_subset [of n p "q_pending q"]
  by (auto simp: queue_inv_def distinct_update_keys)

lemma queue_inv_get: "queue_inv q \<Longrightarrow> map_of (q_pending q) n = Some p \<Longrightarrow> pd_Number p = n"
  by (auto simp: queue_inv_def)

lemma queue_inv_New [inv_intros]: "queue_inv (Queue_New w)"
  by (simp add: queue_inv_def Queue_New_def)

lemma queue_inv_Request [inv_intros]: "queue_inv q \<Longrightarrow> queue_inv (Request d n slug reason q)"
  using queue_inv_get [of q n]
  by (simp add: Request_def queue_inv_put split: option.splits)

lemma queue_inv_Cancel [inv_intros]: "queue_inv q \<Longrightarrow> queue_inv (Cancel n q)"
  using set_delete_subset [of n "q_pending q"]
  by (auto simp: queue_inv_def Cancel_def distinct_delete_keys)

lemma queue_inv_block [inv_intros]: "queue_inv q \<Longrightarrow> queue_inv (block n why q)"
  using queue_inv_get [of q n] by (simp add: block_def queue_inv_put split: option.splits)

lemma roll_pending [simp]: "q_pending (snd (roll d p q)) = q_pending q"
  by (simp add: roll_def log_call_def Let_def split: option.splits sum.splits prod.splits)

lemma queue_inv_cong: "q_pending q' = q_pending q \<Longrightarrow> queue_inv q' = queue_inv q"
  by (simp add: queue_inv_def)

lemma queue_inv_roll [inv_intros]: "queue_inv q \<Longrightarrow> queue_inv (snd (roll d p q))"
  using queue_inv_cong [OF roll_pending] by blast

lemma queue_inv_settle_one [inv_intros]: "queue_inv q \<Longrightarrow> queue_inv (settle_one d p q)"
  by (simp add: settle_one_def inv_intros split: sum.splits)

lemma tick_one_cases:
  "tick_one d p q = (case resolve d (q_world q) p of
     Inl _ \<Rightarrow> block (pd_Number p) ''world not found'' q
   | Inr inst \<Rightarrow>
       if appliedByRestart d (q_world q) inst p then Cancel (pd_Number p) q
       else if \<exists>players n. d_players d = Some players \<and> players (q_world q) inst = (n, True) \<and> n \<le> 0
       then (case fst (roll d p q) of
               Some e \<Rightarrow> block (pd_Number p) (''restart failed: '' @ err_text e) (snd (roll d p q))
             | None \<Rightarrow> Cancel (pd_Number p) (snd (roll d p q)))
       else block (pd_Number p)
         (case d_players d of None \<Rightarrow> ''cannot tell if anyone is playing''
          | Some players \<Rightarrow> if \<not> snd (players (q_world q) inst) then ''cannot tell if anyone is playing''
                         else show_int (fst (players (q_world q) inst)) @ '' player(s) online'') q)"
  by (auto simp: tick_one_def split: sum.splits option.splits prod.splits)

lemma queue_inv_tick_one [inv_intros]: "queue_inv q \<Longrightarrow> queue_inv (tick_one d p q)"
  by (simp add: tick_one_cases inv_intros split: sum.splits option.splits)

lemma queue_inv_fold:
  "(\<And>p q. queue_inv q \<Longrightarrow> queue_inv (f p q)) \<Longrightarrow> queue_inv q \<Longrightarrow> queue_inv (fold f ps q)"
  by (induction ps arbitrary: q) auto

lemma queue_inv_Force [inv_intros]: "queue_inv q \<Longrightarrow> queue_inv (snd (Force d n q))"
  using queue_inv_roll [of q d]
  by (auto simp: Force_def Let_def inv_intros split: option.splits prod.splits) (metis snd_conv inv_intros)+

lemma set_Queue_All: "set (Queue_All q) = snd ` set (q_pending q)"
  by (simp add: Queue_All_def)

section \<open>What a tick does to each pending restart\<close>

lemma map_of_Cancel: "map_of (q_pending (Cancel n q)) k = (if k = n then None else map_of (q_pending q) k)"
  by (simp add: Cancel_def map_of_delete)

lemma map_of_block:
  "map_of (q_pending (block n why q)) k =
     (if k = n then map_option (\<lambda>p. p\<lparr>Blocked := why\<rparr>) (map_of (q_pending q) n)
      else map_of (q_pending q) k)"
  by (simp add: block_def map_of_update split: option.splits)

lemma tick_one_other:
  "k \<noteq> pd_Number p \<Longrightarrow> map_of (q_pending (tick_one d p q)) k = map_of (q_pending q) k"
  by (simp add: tick_one_cases map_of_Cancel map_of_block split: sum.splits option.splits)

lemma tick_one_own:
  "map_of (q_pending (tick_one d p q)) (pd_Number p) = None \<or>
   (\<exists>why. why \<noteq> '''' \<and> map_of (q_pending (tick_one d p q)) (pd_Number p) =
      map_option (\<lambda>p. p\<lparr>Blocked := why\<rparr>) (map_of (q_pending q) (pd_Number p)))"
  by (simp add: tick_one_cases map_of_Cancel map_of_block split: sum.splits option.splits)
    (intro allI impI conjI; blast?)

definition kept :: "Pending option \<Rightarrow> Pending option \<Rightarrow> bool" where
  \<comment> \<open>an entry after a pass over the queue: gone, or the same but for the reason it waits\<close>
  "kept old new =
     (case new of None \<Rightarrow> True
      | Some p \<Rightarrow> (\<exists>p0 why. old = Some p0 \<and> p = p0\<lparr>Blocked := why\<rparr>))"

lemma kept_trans: "kept a b \<Longrightarrow> kept b c \<Longrightarrow> kept a c"
  by (auto simp: kept_def split: option.splits)

lemma blocked_same: "\<exists>why. p = p\<lparr>Blocked := why\<rparr>"
  by (rule exI [of _ "Blocked p"]) simp

lemma kept_refl [simp]: "kept a a"
proof (cases a)
  case (Some x)
  then show ?thesis unfolding kept_def using blocked_same [of x] by simp
qed (simp add: kept_def)

lemma kept_block: "kept a (map_option (\<lambda>p. p\<lparr>Blocked := why\<rparr>) a)"
  by (cases a) (auto simp: kept_def)

lemma tick_one_kept: "kept (map_of (q_pending q) k) (map_of (q_pending (tick_one d p q)) k)"
proof (cases "k = pd_Number p")
  case True
  then show ?thesis using tick_one_own [of d p q] kept_block by (auto simp: kept_def [of _ None])
next
  case False
  then show ?thesis by (simp add: tick_one_other)
qed

lemma tick_kept: "kept (map_of (q_pending q) k) (map_of (q_pending (fold (tick_one d) ps q)) k)"
proof (induction ps arbitrary: q)
  case (Cons p ps)
  then show ?case using kept_trans [OF tick_one_kept Cons.IH] by simp
qed simp

lemma tick_fold_waits:
  "k \<in> pd_Number ` set ps \<Longrightarrow>
   map_of (q_pending (fold (tick_one d) ps q)) k = Some p \<Longrightarrow> Waiting p"
proof (induction ps arbitrary: q)
  case (Cons x ps)
  show ?case
  proof (cases "k \<in> pd_Number ` set ps")
    case True
    then show ?thesis using Cons by simp
  next
    case False
    then have k: "k = pd_Number x" using Cons.prems(1) by auto
    have "map_of (q_pending (fold (tick_one d) ps u)) k = map_of (q_pending u) k" for u
      using False by (induction ps arbitrary: u) (auto simp: tick_one_other)
    then have "map_of (q_pending (tick_one d x q)) k = Some p"
      using Cons.prems(2) by simp
    then show ?thesis
      using tick_one_own [of d x q] k
      by (cases "map_of (q_pending q) (pd_Number x)") (auto simp: Waiting_def)
  qed
qed simp

text \<open>A pass over the queue never invents, reorders or silently keeps a restart: every request
  pending afterwards was pending before with the same reason and the same time, and it now says
  why it is still waiting.\<close>

theorem tick_keeps_requests:
  assumes "queue_inv q" and "Queue_Pending (tick d q) n = Some p"
  shows "Waiting p \<and> (\<exists>p0. Queue_Pending q n = Some p0 \<and> p = p0\<lparr>Blocked := Blocked p\<rparr>)"
proof -
  have k: "kept (map_of (q_pending q) n) (Some p)"
    using tick_kept [of q n d "Queue_All q"] assms(2) by (simp add: tick_def Queue_Pending_def)
  then obtain p0 why where "map_of (q_pending q) n = Some p0" "p = p0\<lparr>Blocked := why\<rparr>"
    by (auto simp: kept_def)
  then have p0: "map_of (q_pending q) n = Some p0" "p = p0\<lparr>Blocked := Blocked p\<rparr>" by simp_all
  have "pd_Number p0 = n" using queue_inv_get [OF assms(1) p0(1)] .
  moreover have "p0 \<in> set (Queue_All q)"
    using p0(1) by (force simp: set_Queue_All dest: map_of_SomeD)
  ultimately have "n \<in> pd_Number ` set (Queue_All q)" by auto
  then have "Waiting p"
    using tick_fold_waits assms(2) unfolding tick_def Queue_Pending_def by metis
  then show ?thesis using p0 by (auto simp: Queue_Pending_def)
qed

definition sample_deps :: "(int \<times> nat) Deps" where
  \<comment> \<open>the world is the number of players online and the number of restarts done\<close>
  "sample_deps = \<lparr>d_players = Some (\<lambda>w i. (fst w, True)),
     d_restart = Some (\<lambda>w i. (None, (fst w, snd w + 1))), d_startedAt = None,
     d_lookup = Some (\<lambda>w n. Inr (if n < 10 then Some (zero_instance\<lparr>Number := n\<rparr>) else None)),
     d_event = True, d_now = (\<lambda>w. 1000)\<rparr>"

theorem tick_keeps_requests_witness:
  "\<exists>p. Queue_Pending (tick sample_deps (Request sample_deps 2 ''beta'' ''mods'' (Queue_New (3, 0)))) 2 = Some p
     \<and> Waiting p"
proof -
  let ?q = "Request sample_deps 2 ''beta'' ''mods'' (Queue_New (3, 0))"
  have inv: "queue_inv ?q" by (intro inv_intros)
  have "Queue_Pending (tick sample_deps ?q) 2 = Some \<lparr>pd_Number = 2, pd_Slug = ''beta'',
      pd_Reason = ''mods'', Since = 1000, Blocked = ''3 player(s) online''\<rparr>"
    by code_simp
  then show ?thesis using tick_keeps_requests [OF inv] by blast
qed

section \<open>A restart only happens to an empty world\<close>

text \<open>The queue as the goroutines of the program drive it: a tick takes its snapshot and then handles
  one entry at a time, and requests, cancellations, forced restarts and changes of the world
  happen between any two of these steps.\<close>

record 'w QMachine =
  qm_queue :: "'w Queue"
  qm_todo :: "Pending list"
  qm_forced :: bool

inductive qstep :: "'w Deps \<Rightarrow> 'w QMachine \<Rightarrow> 'w QMachine \<Rightarrow> bool" for d where
  tick_start: "qm_todo m = [] \<Longrightarrow> qstep d m (m\<lparr>qm_todo := Queue_All (qm_queue m)\<rparr>)"
| tick_entry: "qm_todo m = p # ps \<Longrightarrow>
    qstep d m (m\<lparr>qm_queue := tick_one d p (qm_queue m), qm_todo := ps\<rparr>)"
| request: "qstep d m (m\<lparr>qm_queue := Request d n slug reason (qm_queue m)\<rparr>)"
| cancel: "qstep d m (m\<lparr>qm_queue := Cancel n (qm_queue m)\<rparr>)"
| settle: "qstep d m (m\<lparr>qm_queue := Settle d (qm_queue m)\<rparr>)"
| force: "qstep d m (m\<lparr>qm_queue := snd (Force d n (qm_queue m)), qm_forced := True\<rparr>)"
| world: "qstep d m (m\<lparr>qm_queue := (qm_queue m)\<lparr>q_world := w\<rparr>\<rparr>)"

inductive qreach :: "'w Deps \<Rightarrow> 'w QMachine \<Rightarrow> bool" for d where
  init: "qreach d \<lparr>qm_queue = Queue_New w, qm_todo = [], qm_forced = False\<rparr>"
| step: "qreach d m \<Longrightarrow> qstep d m m' \<Longrightarrow> qreach d m'"

inductive_cases qstepE: "qstep d m m'"

text \<open>In every state the queue can reach, however its operations interleave, no world has two
  pending restarts and each entry is filed under its own world's number.\<close>

theorem queue_reachable_inv:
  assumes "qreach d m"
  shows "queue_inv (qm_queue m)"
  using assms
proof (induction rule: qreach.induct)
  case (init w)
  then show ?case by (simp add: inv_intros)
next
  case (step m m')
  from step.hyps(2) step.IH show ?case
    by (cases rule: qstep.cases)
      (auto simp: Settle_def intro!: inv_intros queue_inv_fold, simp add: queue_inv_def)
qed

theorem queue_reachable_inv_witness:
  "\<exists>m. qreach sample_deps m \<and> length (q_pending (qm_queue m)) = 2 \<and> queue_inv (qm_queue m)"
proof -
  let ?m0 = "\<lparr>qm_queue = Queue_New (3, 0), qm_todo = [], qm_forced = False\<rparr> :: (int \<times> nat) QMachine"
  let ?req = "\<lambda>n r m. m\<lparr>qm_queue := Request sample_deps n ''beta'' r (qm_queue m)\<rparr>"
  let ?m = "?req 2 ''mods again'' (?req 7 ''settings'' (?req 2 ''mods'' ?m0))"
  note init = qreach.init [of sample_deps "(3, 0)"] and next_req = qreach.step [OF _ qstep.request]
  have "qreach sample_deps ?m" by (rule next_req [OF next_req [OF next_req [OF init]]])
  moreover have "length (q_pending (qm_queue ?m)) = 2"
    by (simp add: Request_def Queue_New_def sample_deps_def)
  ultimately show ?thesis using queue_reachable_inv [of sample_deps ?m] by metis
qed

text \<open>The contract of an occupancy source: when it says it knows and counts nobody, the world
  really is empty in the sense \<open>vacant\<close>. The queue's safety rests on nothing else.\<close>

locale occupancy =
  fixes players :: "'w \<Rightarrow> Instance \<Rightarrow> int \<times> bool"
    and vacant :: "'w \<Rightarrow> Instance \<Rightarrow> bool"
  assumes known_vacant: "players w inst = (n, True) \<Longrightarrow> n \<le> 0 \<Longrightarrow> vacant w inst"
begin

definition safe_log :: "'w Queue \<Rightarrow> bool" where
  "safe_log q = (\<forall>w inst. (w, CallRestart inst) \<in> set (q_log q) \<longrightarrow> vacant w inst)"

lemma safe_log_quiet:
  "safe_log q \<Longrightarrow> safe_log (Cancel n q)" "safe_log q \<Longrightarrow> safe_log (block n why q)"
  "safe_log q \<Longrightarrow> safe_log (Request d n slug reason q)"
  by (auto simp: safe_log_def Cancel_def block_def Request_def split: option.splits)

lemma safe_log_roll:
  assumes "safe_log q" "resolve d (q_world q) p = Inr inst" "vacant (q_world q) inst"
  shows "safe_log (snd (roll d p q))"
  using assms by (auto simp: safe_log_def roll_def log_call_def Let_def
      split: option.splits sum.splits prod.splits)

lemma safe_log_tick_one:
  assumes "d_players d = Some players" "safe_log q"
  shows "safe_log (tick_one d p q)"
proof (cases "resolve d (q_world q) p")
  case (Inl e)
  then show ?thesis using assms by (simp add: tick_one_cases safe_log_quiet)
next
  case (Inr inst)
  show ?thesis
  proof (cases "\<exists>n. players (q_world q) inst = (n, True) \<and> n \<le> 0")
    case True
    then have "vacant (q_world q) inst" using known_vacant by blast
    then have "safe_log (snd (roll d p q))" using safe_log_roll assms(2) Inr by blast
    then show ?thesis
      using assms Inr by (simp add: tick_one_cases safe_log_quiet split: option.splits)
  next
    case False
    then show ?thesis using assms Inr by (auto simp: tick_one_cases safe_log_quiet)
  qed
qed

lemma safe_log_world [simp]: "safe_log (q\<lparr>q_world := w\<rparr>) = safe_log q"
  by (simp add: safe_log_def)

lemma safe_log_settle:
  assumes "safe_log q"
  shows "safe_log (Settle d q)"
proof -
  have "safe_log (settle_one d p q)" if "safe_log q" for p q
    using that by (simp add: settle_one_def safe_log_quiet split: sum.splits)
  then have "safe_log (fold (settle_one d) ps q)" if "safe_log q" for ps q
    using that by (induction ps arbitrary: q) simp_all
  then show ?thesis using assms by (simp add: Settle_def)
qed

lemma safe_log_reach:
  assumes "qreach d m" "d_players d = Some players"
  shows "qm_forced m \<or> safe_log (qm_queue m)"
  using assms(1)
proof (induction rule: qreach.induct)
  case (init w)
  then show ?case by (simp add: safe_log_def Queue_New_def)
next
  case (step m m')
  from step.hyps(2) step.IH show ?case
    by (cases rule: qstep.cases)
      (auto simp: safe_log_quiet safe_log_settle safe_log_tick_one assms(2))
qed

lemma safe_log_tick:
  assumes "d_players d = Some players" "safe_log q"
  shows "safe_log (tick d q)"
proof -
  have "safe_log (fold (tick_one d) ps q)" if "safe_log q" for ps q
    using that by (induction ps arbitrary: q) (simp_all add: safe_log_tick_one assms(1))
  then show ?thesis using assms(2) by (simp add: tick_def)
qed

end

end
