(* ===== verification/Occupancy.thy ===== *)
theory Occupancy
  imports Restarts
begin

text \<open>
  \<open>internal/domain/valheimlog.go\<close> and \<open>internal/app/occupancy/tracker.go\<close>: who is connected to a
  Valheim world, read from its log, and the occupancy source \<open>internal/wiring/wiring.go\<close>
  gives the restart queue.

  The regular expressions are written out as a leftmost search for their literal prefix followed
  by seventeen digits. The tracker's clock is an argument; its goroutines are sequences of the
  mutex-protected operations \<open>begin_stream\<close>, \<open>set_online\<close> and \<open>drop_stream\<close>.
\<close>

section \<open>Connection lines\<close>

datatype ConnEvent = ConnNone | ConnJoined | ConnLeft

fun find_id :: "string \<Rightarrow> string \<Rightarrow> string option" where
  \<comment> \<open>the submatch of \<open>prefix (\d{17})\<close> at the leftmost position where it matches\<close>
  "find_id prefix [] = None"
| "find_id prefix (c # s) =
     (let rest = drop (length prefix) (c # s); ds = take 17 rest
      in if has_prefix (c # s) prefix \<and> length ds = 17 \<and> list_all is_digit ds then Some ds
         else find_id prefix s)"

definition ValheimConnection :: "string \<Rightarrow> string \<times> ConnEvent" where
  "ValheimConnection line =
     (case find_id ''Got connection SteamID '' line of
        Some pid \<Rightarrow> (pid, ConnJoined)
      | None \<Rightarrow>
          (case find_id ''Closing socket '' line of
             Some pid \<Rightarrow> (pid, ConnLeft)
           | None \<Rightarrow> ('''', ConnNone)))"

lemma find_id_digits: "find_id prefix s = Some ds \<Longrightarrow> length ds = 17 \<and> list_all is_digit ds"
  by (induction prefix s rule: find_id.induct) (auto simp: Let_def split: if_splits)

section \<open>The tracker\<close>

record world =
  online :: "string list"
  connectedAt :: Time
  live :: bool

record Tracker =
  tr_state :: "(int \<times> world) list"
  settle :: int

definition Tracker_New :: Tracker where
  \<comment> \<open>ten seconds to settle\<close>
  "Tracker_New = \<lparr>tr_state = [], settle = 10 * 10 ^ 9\<rparr>"

definition Players :: "Tracker \<Rightarrow> Time \<Rightarrow> int \<Rightarrow> int \<times> bool" where
  "Players t now n =
     (case map_of (tr_state t) n of
        None \<Rightarrow> (0, False)
      | Some w \<Rightarrow>
          (if \<not> live w then (0, False)
           else if now - connectedAt w < settle t then (0, False)
           else (int (length (online w)), True)))"

definition begin_stream :: "int \<Rightarrow> Time \<Rightarrow> Tracker \<Rightarrow> Tracker" where
  "begin_stream n now t =
     t\<lparr>tr_state := AList.update n \<lparr>online = [], connectedAt = now, live = True\<rparr> (tr_state t)\<rparr>"

definition drop_stream :: "int \<Rightarrow> Tracker \<Rightarrow> Tracker" where
  "drop_stream n t =
     (case map_of (tr_state t) n of
        None \<Rightarrow> t
      | Some w \<Rightarrow> t\<lparr>tr_state := AList.update n (w\<lparr>live := False\<rparr>) (tr_state t)\<rparr>)"

definition set_online :: "int \<Rightarrow> string \<Rightarrow> bool \<Rightarrow> Tracker \<Rightarrow> Tracker" where
  \<comment> \<open>the set of ids is a list without duplicates\<close>
  "set_online n pid on t =
     (case map_of (tr_state t) n of
        None \<Rightarrow> t
      | Some w \<Rightarrow>
          t\<lparr>tr_state := AList.update n
              (w\<lparr>online := (if on then List.insert pid (online w) else remove1 pid (online w))\<rparr>)
              (tr_state t)\<rparr>)"

definition consume_line :: "int \<Rightarrow> string \<Rightarrow> Tracker \<Rightarrow> Tracker" where
  "consume_line n line t =
     (case ValheimConnection line of
        (pid, ConnJoined) \<Rightarrow> set_online n pid True t
      | (pid, ConnLeft) \<Rightarrow> set_online n pid False t
      | (_, ConnNone) \<Rightarrow> t)"

definition consume :: "int \<Rightarrow> Time \<Rightarrow> string list option \<Rightarrow> Tracker \<Rightarrow> Tracker" where
  \<comment> \<open>\<open>None\<close> when the stream cannot be opened; otherwise the lines read before it ended\<close>
  "consume n now stream t =
     (case stream of
        None \<Rightarrow> t
      | Some ls \<Rightarrow> fold (consume_line n) ls (begin_stream n now t))"

definition watch_round :: "int \<Rightarrow> Time \<Rightarrow> string list option \<Rightarrow> Tracker \<Rightarrow> Tracker" where
  \<comment> \<open>one turn of \<open>Watch\<close>'s loop\<close>
  "watch_round n now stream t = drop_stream n (consume n now stream t)"

section \<open>What the log says about who is online\<close>

fun online_after :: "(string \<times> bool) list \<Rightarrow> string \<Rightarrow> bool" where
  \<comment> \<open>specification: the last event of an id, newest first, decides\<close>
  "online_after [] pid = False"
| "online_after ((i, on) # evs) pid = (if i = pid then on else online_after evs pid)"

definition line_events :: "string list \<Rightarrow> (string \<times> bool) list" where
  "line_events ls = List.map_filter (\<lambda>l. case ValheimConnection l of
     (pid, ConnJoined) \<Rightarrow> Some (pid, True) | (pid, ConnLeft) \<Rightarrow> Some (pid, False)
   | (_, ConnNone) \<Rightarrow> None) ls"

lemma line_events_snoc:
  "line_events (ls @ [l]) = line_events ls @ (case ValheimConnection l of
     (pid, ConnJoined) \<Rightarrow> [(pid, True)] | (pid, ConnLeft) \<Rightarrow> [(pid, False)] | (_, ConnNone) \<Rightarrow> [])"
  by (cases "ValheimConnection l"; cases "snd (ValheimConnection l)")
    (auto simp: line_events_def List.map_filter_def)

definition stream_world :: "int \<Rightarrow> Time \<Rightarrow> string list \<Rightarrow> Tracker \<Rightarrow> bool" where
  \<comment> \<open>the state of a world whose open stream has delivered the lines \<open>ls\<close>\<close>
  "stream_world n now ls t =
     (\<exists>w. map_of (tr_state t) n = Some w \<and> live w \<and> connectedAt w = now \<and> distinct (online w) \<and>
        set (online w) = {pid. online_after (rev (line_events ls)) pid})"

lemma stream_world_line:
  assumes "stream_world n now ls t"
  shows "stream_world n now (ls @ [l]) (consume_line n l t)"
proof -
  obtain w where w: "map_of (tr_state t) n = Some w" "live w" "connectedAt w = now"
    "distinct (online w)" "set (online w) = {pid. online_after (rev (line_events ls)) pid}"
    using assms by (auto simp: stream_world_def)
  obtain pid ev where ev: "ValheimConnection l = (pid, ev)" by (cases "ValheimConnection l")
  show ?thesis
    using w ev
    by (cases ev)
      (auto simp: stream_world_def consume_line_def set_online_def map_of_update line_events_snoc)
qed

lemma stream_world_consume: "stream_world n now ls (consume n now (Some ls) t)"
proof (induction ls rule: rev_induct)
  case Nil
  then show ?case
    by (simp add: stream_world_def consume_def begin_stream_def map_of_update line_events_def)
next
  case (snoc l ls)
  then show ?case using stream_world_line by (simp add: consume_def)
qed

definition online_now :: "string list \<Rightarrow> string set" where
  \<comment> \<open>the ids whose last event in the log is a connection\<close>
  "online_now ls = {pid. online_after (rev (line_events ls)) pid}"

text \<open>While a log stream is open and settled the tracker counts exactly the players whose last
  event in the stream is a connection, each once however often it is logged; and after a stream
  ended it answers that it does not know, until a new one is open and settled.\<close>

theorem Players_counts_online:
  assumes "later - now \<ge> settle t"
  shows "Players (consume n now (Some ls) t) later n = (int (card (online_now ls)), True) \<and>
    snd (Players (watch_round n now stream t) any n) = False"
proof -
  obtain w where w: "map_of (tr_state (consume n now (Some ls) t)) n = Some w" "live w"
    "connectedAt w = now" "distinct (online w)" "set (online w) = online_now ls"
    using stream_world_consume [of n now ls t] by (auto simp: stream_world_def online_now_def)
  have "length (online w) = card (online_now ls)"
    using w(4,5) distinct_card by metis
  moreover have "settle (consume n now (Some ls) t) = settle t"
  proof -
    have "settle (fold (consume_line n) xs u) = settle u" for xs u
    proof (induction xs arbitrary: u)
      case (Cons x xs)
      have "settle (consume_line n x u) = settle u"
        by (simp add: consume_line_def set_online_def split: prod.splits ConnEvent.splits option.splits)
      then show ?case using Cons by simp
    qed simp
    then show ?thesis by (simp add: consume_def begin_stream_def)
  qed
  moreover have "snd (Players (drop_stream n u) any n) = False" for u
    by (auto simp: Players_def drop_stream_def map_of_update split: option.splits)
  ultimately show ?thesis using w assms by (simp add: Players_def watch_round_def)
qed

theorem Players_counts_online_witness:
  "Players (consume 3 100 (Some [''Got connection SteamID 76561198000000001'',
     ''Got connection SteamID 76561198000000001'', ''Got connection SteamID 76561198000000002'',
     ''Closing socket 76561198000000002'']) Tracker_New) (100 + 10 * 10 ^ 9) 3 = (1, True)"
proof -
  let ?ls = "[''Got connection SteamID 76561198000000001'',
     ''Got connection SteamID 76561198000000001'', ''Got connection SteamID 76561198000000002'',
     ''Closing socket 76561198000000002'']"
  have e: "line_events ?ls = [(''76561198000000001'', True), (''76561198000000001'', True),
      (''76561198000000002'', True), (''76561198000000002'', False)]"
    by code_simp
  have "online_now ?ls = {''76561198000000001''}"
    unfolding online_now_def e by (auto split: if_splits)
  moreover have "settle Tracker_New \<le> (100 + 10 * 10 ^ 9) - 100" by (simp add: Tracker_New_def)
  ultimately show ?thesis
    using Players_counts_online [of Tracker_New "100 + 10 * 10 ^ 9" 100 3 ?ls None 0] by simp
qed

section \<open>The occupancy source of the restart queue\<close>

definition wired_players ::
    "('w \<Rightarrow> Tracker) \<Rightarrow> ('w \<Rightarrow> Time) \<Rightarrow> ('w \<Rightarrow> string \<Rightarrow> int \<times> bool) \<Rightarrow> 'w \<Rightarrow> Instance \<Rightarrow> int \<times> bool" where
  \<comment> \<open>the tracker when it knows, otherwise the server's own status endpoint \<open>status\<close>\<close>
  "wired_players tracker clock status w inst =
     (case Players (tracker w) (clock w) (Number inst) of
        (n, True) \<Rightarrow> (n, True)
      | (_, False) \<Rightarrow> status w (slot_name ValheimProfile inst))"

definition nobody_on ::
    "('w \<Rightarrow> Tracker) \<Rightarrow> ('w \<Rightarrow> Time) \<Rightarrow> ('w \<Rightarrow> string \<Rightarrow> int \<times> bool) \<Rightarrow> 'w \<Rightarrow> Instance \<Rightarrow> bool" where
  \<comment> \<open>a settled live stream shows no player online, or the server reports none\<close>
  "nobody_on tracker clock status w inst =
     ((\<exists>wd. map_of (tr_state (tracker w)) (Number inst) = Some wd \<and> live wd \<and>
         clock w - connectedAt wd \<ge> settle (tracker w) \<and> online wd = []) \<or>
      (\<exists>n\<le>0. status w (slot_name ValheimProfile inst) = (n, True)))"

interpretation wired: occupancy "wired_players tracker clock status" "nobody_on tracker clock status"
  for tracker clock status
  by unfold_locales
    (auto simp: wired_players_def nobody_on_def Players_def split: option.splits if_splits bool.splits prod.splits)

text \<open>The restart queue, wired to the log tracker with the server's status as fallback, never
  restarts a world with somebody on it: every restart a tick makes is of a world whose live and
  settled log stream shows nobody online, or whose server itself reports no players, at that
  moment.\<close>

theorem tick_restarts_only_vacant:
  assumes "d_players d = Some (wired_players tracker clock status)"
    and "(w, CallRestart inst) \<in> set (q_log (tick d (q\<lparr>q_log := []\<rparr>)))"
  shows "nobody_on tracker clock status w inst"
proof -
  have "wired.safe_log tracker clock status (tick d (q\<lparr>q_log := []\<rparr>))"
    by (rule wired.safe_log_tick [OF assms(1)]) (simp add: wired.safe_log_def)
  then show ?thesis using assms(2) unfolding wired.safe_log_def by blast
qed


type_synonym Outside = "Tracker \<times> Time \<times> (string \<Rightarrow> int \<times> bool)"

definition sample_wired :: "Outside Deps" where
  "sample_wired = \<lparr>d_players = Some (wired_players fst (\<lambda>w. fst (snd w)) (\<lambda>w. snd (snd w))),
     d_restart = Some (\<lambda>w i. (None, w)), d_startedAt = None,
     d_lookup = Some (\<lambda>w n. Inr (Some (zero_instance\<lparr>Number := n, Slug := ''alfa''\<rparr>))),
     d_event = False, d_now = (\<lambda>w. fst (snd w))\<rparr>"

definition sample_outside :: Outside where
  "sample_outside = (begin_stream 1 0 Tracker_New, 20 * 10 ^ 9, (\<lambda>name. (0, name = ''vh-alfa-02'')))"

definition sample_world :: Instance where
  "sample_world = zero_instance\<lparr>Number := 1, Slug := ''alfa''\<rparr>"

definition sample_pending :: Pending where
  "sample_pending = \<lparr>pd_Number = 1, pd_Slug = ''alfa'', pd_Reason = ''mods'', Since = 20 * 10 ^ 9,
     Blocked = ''''\<rparr>"

definition sample_queue :: "Outside Queue" where
  "sample_queue = Request sample_wired 1 ''alfa'' ''mods'' (Queue_New sample_outside)"

lemma sample_wired_simps:
  "d_players sample_wired = Some (wired_players fst (\<lambda>w. fst (snd w)) (\<lambda>w. snd (snd w)))"
  "d_restart sample_wired = Some (\<lambda>w i. (None, w))" "d_startedAt sample_wired = None"
  "d_lookup sample_wired = Some (\<lambda>w n. Inr (Some (zero_instance\<lparr>Number := n, Slug := ''alfa''\<rparr>)))"
  "\<not> d_event sample_wired" "d_now sample_wired = (\<lambda>w. fst (snd w))"
  by (simp_all add: sample_wired_def)

lemma sample_queue_eq:
  "sample_queue = \<lparr>q_pending = [(1, sample_pending)], q_world = sample_outside, q_log = []\<rparr>"
  by (simp add: sample_queue_def Request_def Queue_New_def sample_wired_simps sample_pending_def
      sample_outside_def)

lemma sample_all: "Queue_All sample_queue = [sample_pending]"
  by (simp add: Queue_All_def sample_queue_eq)

lemma sample_log:
  "q_log (tick_one sample_wired sample_pending sample_queue) = [(sample_outside, CallRestart sample_world)]"
proof -
  have p: "wired_players fst (\<lambda>w. fst (snd w)) (\<lambda>w. snd (snd w)) sample_outside sample_world = (0, True)"
    by code_simp
  have n: "pd_Number sample_pending = 1" by (simp add: sample_pending_def)
  have r: "resolve sample_wired sample_outside sample_pending = Inr sample_world"
    by (simp add: resolve_def sample_wired_simps n sample_world_def)
  show ?thesis
    by (simp add: tick_one_def roll_def log_call_def Cancel_def appliedByRestart_def sample_queue_eq
        r p sample_wired_simps)
qed

theorem tick_restarts_only_vacant_witness:
  "nobody_on fst (\<lambda>w. fst (snd w)) (\<lambda>w. snd (snd w)) sample_outside sample_world"
proof -
  have "sample_queue\<lparr>q_log := []\<rparr> = sample_queue" by (simp add: sample_queue_eq)
  then have "(sample_outside, CallRestart sample_world) \<in>
      set (q_log (tick sample_wired (sample_queue\<lparr>q_log := []\<rparr>)))"
    by (simp add: tick_def sample_all sample_log)
  then show ?thesis using tick_restarts_only_vacant [OF sample_wired_simps(1)] by blast
qed



end
