(* ===== verification/StateStore.thy ===== *)
theory StateStore
  imports Instances
begin

text \<open>
  \<open>internal/ports/state.go\<close>: the contract of the store of desired state, as the locale
  \<open>state_store\<close>, and \<open>internal/infra/state/memory/memory.go\<close>, its in-process implementation,
  which interprets it.

  A document's maps are \<open>None\<close> where Go has a nil map. A store operation returns its result
  with the store after it; a mutation is a function from a document to its result and the
  document as the mutation left it.
\<close>

record Document =
  Data :: "(string \<times> string) list option"
  Annotations :: "(string \<times> string) list option"
  Raw :: string

definition empty_doc :: Document where
  "empty_doc = \<lparr>Data = None, Annotations = None, Raw = ''''\<rparr>"

definition data_get :: "Document \<Rightarrow> string \<Rightarrow> string" where
  \<comment> \<open>\<open>doc.Data[key]\<close>, also for a nil map\<close>
  "data_get d key = (case Data d of None \<Rightarrow> '''' | Some m \<Rightarrow> mget m key '''')"

definition data_put :: "string \<Rightarrow> string \<Rightarrow> Document \<Rightarrow> Document" where
  \<comment> \<open>\<open>if doc.Data == nil { doc.Data = map{} }; doc.Data[key] = v\<close>\<close>
  "data_put key v d =
     d\<lparr>Data := Some (AList.update key v (case Data d of None \<Rightarrow> [] | Some m \<Rightarrow> m))\<rparr>"

definition working_doc :: "Document \<Rightarrow> Document" where
  \<comment> \<open>the document handed to a mutation: its data map is never nil\<close>
  "working_doc d = d\<lparr>Data := Some (case Data d of None \<Rightarrow> [] | Some m \<Rightarrow> m)\<rparr>"

lemma data_get_put [simp]: "data_get (data_put k v d) j = (if j = k then v else data_get d j)"
  by (simp add: data_get_def data_put_def mget_update) (simp add: mget_def split: option.splits)

lemma data_get_working [simp]: "data_get (working_doc d) k = data_get d k"
  by (simp add: data_get_def working_doc_def mget_def split: option.splits)

lemma data_get_empty [simp]: "data_get empty_doc k = ''''"
  by (simp add: data_get_def empty_doc_def)

type_synonym Mutate = "Document \<Rightarrow> (goerr + bool) \<times> Document"

section \<open>The contract\<close>

text \<open>What the clients rely on: a patch that reports no change, or fails, changes no document; one
  that reports a change has applied the mutation to the document that was there, or to an empty
  one, and has touched no other path. The text of a path is read back as it was written.\<close>

locale state_store =
  fixes get :: "'s \<Rightarrow> string \<Rightarrow> goerr + Document"
    and patch :: "string \<Rightarrow> Mutate \<Rightarrow> 's \<Rightarrow> (goerr + bool) \<times> 's"
  assumes patch_quiet: "patch p f s = (r, s') \<Longrightarrow> r \<noteq> Inr True \<Longrightarrow> get s' q = get s q"
    and patch_found: "patch p f s = (Inr c, s') \<Longrightarrow> get s p = Inr d \<Longrightarrow>
      fst (f (working_doc d)) = Inr c \<and> (c \<longrightarrow> get s' p = Inr (snd (f (working_doc d))))"
    and patch_absent: "patch p f s = (Inr c, s') \<Longrightarrow> get s p = Inl e \<Longrightarrow>
      fst (f (working_doc empty_doc)) = Inr c \<and>
      (c \<longrightarrow> get s' p = Inr (snd (f (working_doc empty_doc))))"
    and patch_other: "patch p f s = (r, s') \<Longrightarrow> q \<noteq> p \<Longrightarrow> get s' q = get s q"
begin

definition text_of :: "'s \<Rightarrow> string \<Rightarrow> string \<Rightarrow> string" where
  \<comment> \<open>the text under a key of the document at a path; empty when there is none\<close>
  "text_of s p key = (case get s p of Inl _ \<Rightarrow> '''' | Inr d \<Rightarrow> data_get d key)"

text \<open>A mutation that rewrites one key: \<open>edit\<close> returns the new text, or \<open>None\<close> for no change.\<close>

lemma patch_edit:
  assumes f: "\<And>d. f d = (case edit (data_get d key) of
      None \<Rightarrow> (Inr False, d) | Some t \<Rightarrow> (Inr True, data_put key t d))"
    and p: "patch p f s = (Inr c, s')"
  shows "c = (edit (text_of s p key) \<noteq> None) \<and>
    text_of s' p key = (case edit (text_of s p key) of None \<Rightarrow> text_of s p key | Some t \<Rightarrow> t) \<and>
    (\<forall>k. k \<noteq> key \<longrightarrow> text_of s' p k = text_of s p k)"
proof (cases "get s p")
  case (Inl e)
  then have c: "fst (f (working_doc empty_doc)) = Inr c"
    "c \<longrightarrow> get s' p = Inr (snd (f (working_doc empty_doc)))"
    using patch_absent p by blast+
  show ?thesis
  proof (cases "edit ''''")
    case None
    then have "\<not> c" using c(1) f by simp
    then have "get s' p = get s p" using patch_quiet p by blast
    then show ?thesis using Inl None \<open>\<not> c\<close> by (simp add: text_of_def)
  next
    case (Some t)
    then show ?thesis using c f Inl by (simp add: text_of_def)
  qed
next
  case (Inr d)
  then have c: "fst (f (working_doc d)) = Inr c" "c \<longrightarrow> get s' p = Inr (snd (f (working_doc d)))"
    using patch_found p by blast+
  show ?thesis
  proof (cases "edit (data_get d key)")
    case None
    then have "\<not> c" using c(1) f by simp
    then have "get s' p = get s p" using patch_quiet p by blast
    then show ?thesis using Inr None \<open>\<not> c\<close> by (simp add: text_of_def)
  next
    case (Some t)
    then show ?thesis using c f Inr by (simp add: text_of_def)
  qed
qed

lemma patch_error:
  "patch p f s = (Inl e, s') \<Longrightarrow> text_of s' q k = text_of s q k"
  using patch_quiet by (simp add: text_of_def)

end

section \<open>The in-memory store\<close>

record Store =
  docs :: "(string \<times> Document) list"

definition Store_New :: Store where
  "Store_New = \<lparr>docs = []\<rparr>"

definition Store_Get :: "Store \<Rightarrow> string \<Rightarrow> goerr + Document" where
  "Store_Get s path =
     (case map_of (docs s) path of None \<Rightarrow> Inl (Sentinel ErrNotExist) | Some d \<Rightarrow> Inr d)"

definition Store_Put :: "string \<Rightarrow> Document \<Rightarrow> Store \<Rightarrow> Store" where
  "Store_Put path doc s = s\<lparr>docs := AList.update path doc (docs s)\<rparr>"

definition Store_Patch :: "string \<Rightarrow> Mutate \<Rightarrow> Store \<Rightarrow> (goerr + bool) \<times> Store" where
  "Store_Patch path mutate s =
     (let doc = (case map_of (docs s) path of None \<Rightarrow> empty_doc | Some d \<Rightarrow> d);
          working = doc\<lparr>Data := Some (case Data doc of None \<Rightarrow> [] | Some m \<Rightarrow> m)\<rparr>
      in case mutate working of
           (Inl e, _) \<Rightarrow> (Inl e, s)
         | (Inr changed, working') \<Rightarrow>
             (if \<not> changed then (Inr False, s)
              else (Inr True, s\<lparr>docs := AList.update path working' (docs s)\<rparr>)))"

definition under :: "string \<Rightarrow> string \<Rightarrow> bool" where
  \<comment> \<open>\<open>strings.HasPrefix(key, strings.TrimSuffix(path, "/")+"/")\<close>\<close>
  "under path key = has_prefix key (trim_suffix path ''/'' @ ''/'')"

definition Store_Delete :: "string \<Rightarrow> Store \<Rightarrow> Store" where
  "Store_Delete path s =
     s\<lparr>docs := filter (\<lambda>kv. \<not> under path (fst kv)) (AList.delete path (docs s))\<rparr>"

definition Store_PutTree :: "string \<Rightarrow> (string \<times> Document) list \<Rightarrow> Store \<Rightarrow> Store" where
  "Store_PutTree dirPath tree s =
     s\<lparr>docs := fold (\<lambda>(name, doc) m. AList.update (trim_suffix dirPath ''/'' @ ''/'' @ name) doc m) tree
                (filter (\<lambda>kv. \<not> under dirPath (fst kv)) (docs s))\<rparr>"

interpretation mem: state_store Store_Get Store_Patch
proof unfold_locales
  fix p f s r s' q
  assume "Store_Patch p f s = (r, s')" "r \<noteq> Inr True"
  then show "Store_Get s' q = Store_Get s q"
    by (auto simp: Store_Patch_def Let_def split: prod.splits sum.splits if_splits)
next
  fix p f s c s' d
  assume "Store_Patch p f s = (Inr c, s')" "Store_Get s p = Inr d"
  then show "fst (f (working_doc d)) = Inr c \<and> (c \<longrightarrow> Store_Get s' p = Inr (snd (f (working_doc d))))"
    by (auto simp: Store_Patch_def Store_Get_def Let_def working_doc_def map_of_update
        split: prod.splits sum.splits if_splits option.splits)
next
  fix p f s c s' e
  assume "Store_Patch p f s = (Inr c, s')" "Store_Get s p = Inl e"
  then show "fst (f (working_doc empty_doc)) = Inr c \<and>
      (c \<longrightarrow> Store_Get s' p = Inr (snd (f (working_doc empty_doc))))"
    by (auto simp: Store_Patch_def Store_Get_def Let_def working_doc_def map_of_update
        split: prod.splits sum.splits if_splits option.splits)
next
  fix p f s r s' q
  assume "Store_Patch p f s = (r, s')" "q \<noteq> p"
  then show "Store_Get s' q = Store_Get s q"
    by (auto simp: Store_Patch_def Store_Get_def Let_def map_of_update
        split: prod.splits sum.splits if_splits)
qed

lemma map_of_filter_key:
  "map_of (filter (\<lambda>kv. P (fst kv)) m) k = (if P k then map_of m k else None)"
  by (induction m) auto

lemma map_of_put_tree:
  "distinct (map fst tree) \<Longrightarrow>
   map_of (fold (\<lambda>(name, doc) m. AList.update (pre @ name) doc m) tree m) k =
   (case map_of (map (\<lambda>(n, d). (pre @ n, d)) tree) k of Some d \<Rightarrow> Some d | None \<Rightarrow> map_of m k)"
proof (induction tree arbitrary: m)
  case Nil
  then show ?case by simp
next
  case (Cons nd tree)
  obtain n d where nd: "nd = (n, d)" by (cases nd)
  have "map_of (map (\<lambda>(n, d). (pre @ n, d)) tree) (pre @ n) = None"
    using Cons.prems nd by (force simp: map_of_eq_None_iff)
  then show ?case using Cons nd by (auto simp: map_of_update split: option.splits)
qed

lemma Store_PutTree_read:
  assumes "distinct (map fst tree)"
  shows "Store_Get (Store_PutTree dir tree s) (trim_suffix dir ''/'' @ ''/'' @ name) =
      (case map_of tree name of Some d \<Rightarrow> Inr d | None \<Rightarrow> Inl (Sentinel ErrNotExist))"
    and "\<not> under dir path \<Longrightarrow> Store_Get (Store_PutTree dir tree s) path = Store_Get s path"
proof -
  let ?pre = "trim_suffix dir ''/'' @ ''/''"
  have app: "(\<lambda>(name, doc) m. AList.update (trim_suffix dir ''/'' @ ''/'' @ name) doc m) =
      (\<lambda>(name, doc) m. AList.update (?pre @ name) doc m)" by (simp add: fun_eq_iff)
  have in_dir: "under dir (?pre @ name)"
    using has_prefix_append [of ?pre name] by (simp add: under_def)
  have key: "map_of (map (\<lambda>(n, d). (?pre @ n, d)) xs) (?pre @ name) = map_of xs name" for xs :: "(string \<times> Document) list"
    by (induction xs) auto
  have out: "map_of (map (\<lambda>(n, d). (?pre @ n, d)) tree) path = None" if "\<not> under dir path"
    using that has_prefix_append [of ?pre] by (force simp: under_def map_of_eq_None_iff)
  have get: "Store_Get (Store_PutTree dir tree s) k =
      (case map_of (map (\<lambda>(n, d). (?pre @ n, d)) tree) k of
         Some d \<Rightarrow> Inr d
       | None \<Rightarrow> if under dir k then Inl (Sentinel ErrNotExist) else Store_Get s k)" for k
    using map_of_put_tree [OF assms, of ?pre "filter (\<lambda>kv. \<not> under dir (fst kv)) (docs s)" k]
    unfolding Store_Get_def Store_PutTree_def app
    by (simp add: map_of_filter_key [of "\<lambda>k. \<not> under dir k"] split: option.splits)
  show "Store_Get (Store_PutTree dir tree s) (trim_suffix dir ''/'' @ ''/'' @ name) =
      (case map_of tree name of Some d \<Rightarrow> Inr d | None \<Rightarrow> Inl (Sentinel ErrNotExist))"
    using get [of "?pre @ name"] key [of tree] in_dir by (simp split: option.splits)
  show "\<not> under dir path \<Longrightarrow> Store_Get (Store_PutTree dir tree s) path = Store_Get s path"
    using get [of path] out by auto
qed

text \<open>Writing a tree makes a directory hold exactly the files given: each reads back as written,
  any other file there is gone, and no document outside the directory is touched.\<close>

theorem PutTree_exact:
  assumes "distinct (map fst tree)"
  shows "Store_Get (Store_PutTree dir tree s) (trim_suffix dir ''/'' @ ''/'' @ name) =
      (case map_of tree name of Some d \<Rightarrow> Inr d | None \<Rightarrow> Inl (Sentinel ErrNotExist)) \<and>
    (under dir path \<or> Store_Get (Store_PutTree dir tree s) path = Store_Get s path)"
  using Store_PutTree_read [OF assms] by blast

theorem PutTree_exact_witness:
  "Store_Get (Store_PutTree ''manifests/mc-alfa-01/'' [(''pvc.yaml'', empty_doc)]
     (Store_Put ''manifests/mc-alfa-01/old.yaml'' empty_doc Store_New)) ''manifests/mc-alfa-01/old.yaml''
   = Inl (Sentinel ErrNotExist)"
proof -
  have "distinct (map fst [(''pvc.yaml'', empty_doc)])" by simp
  moreover have "trim_suffix ''manifests/mc-alfa-01/'' ''/'' @ ''/'' @ ''old.yaml'' =
      ''manifests/mc-alfa-01/old.yaml''" by code_simp
  ultimately show ?thesis
    using PutTree_exact [of "[(''pvc.yaml'', empty_doc)]" "''manifests/mc-alfa-01/''"
        "Store_Put ''manifests/mc-alfa-01/old.yaml'' empty_doc Store_New" "''old.yaml''" "''''"]
    by simp
qed

end
