(* ===== verification/ModLists.thy ===== *)
theory ModLists
  imports StateStore
begin

text \<open>
  The services that edit one text of one document: \<open>internal/app/admins/admins.go\<close>,
  \<open>internal/app/mods/mods.go\<close> and \<open>internal/app/access/mods.go\<close>, with the line format of
  \<open>internal/domain/access.go\<close>. They are clients of \<open>state_store\<close>: each operation takes the
  store's \<open>get\<close> or \<open>patch\<close> and the store itself, \<open>None\<close> for a nil store. Calls of the audit
  recorder are returned as a list of (actor, action, detail); the commit message of a patch is not
  kept, no store depends on it.
\<close>

section \<open>Lines\<close>

definition ParseUsers :: "string \<Rightarrow> string list" where
  "ParseUsers content =
     filter (\<lambda>t. \<not> (t = '''' \<or> has_prefix t ''#'')) (map trim_space (lines_of content))"

definition Fields :: "string \<Rightarrow> string list" where
  "Fields s = GoStrings.fields s"

section \<open>Patching one text\<close>

type_synonym Audit = "string \<times> string \<times> string"

definition actorOrHyphen :: "string list \<Rightarrow> string" where
  "actorOrHyphen actor = (case actor of a # _ \<Rightarrow> if a \<noteq> '''' then a else ''-'' | [] \<Rightarrow> ''-'')"

definition edit_text :: "string \<Rightarrow> (string \<Rightarrow> string option) \<Rightarrow> Mutate" where
  \<comment> \<open>a mutation of the text under \<open>key\<close>; \<open>None\<close> reports no change\<close>
  "edit_text key edit d =
     (case edit (data_get d key) of
        None \<Rightarrow> (Inr False, d)
      | Some t \<Rightarrow> (Inr True, data_put key t d))"

definition store_patch ::
    "(string \<Rightarrow> Mutate \<Rightarrow> 's \<Rightarrow> (goerr + bool) \<times> 's) \<Rightarrow> string \<Rightarrow> Mutate \<Rightarrow> 's option \<Rightarrow>
     (goerr + bool) \<times> 's option" where
  \<comment> \<open>\<open>if m.store == nil { return false, ports.ErrNotImplemented }\<close>, else \<open>m.store.Patch\<close>\<close>
  "store_patch patch path f st =
     (case st of
        None \<Rightarrow> (Inl (Sentinel ErrNotImplemented), None)
      | Some s \<Rightarrow> (case patch path f s of (r, s') \<Rightarrow> (r, Some s')))"

definition audited :: "bool \<Rightarrow> string list \<Rightarrow> string \<Rightarrow> string \<Rightarrow> (goerr + bool) \<Rightarrow> Audit list" where
  \<comment> \<open>\<open>if changed && m.audit != nil\<close>, after an error has returned\<close>
  "audited on actor action detail r =
     (if r = Inr True \<and> on then [(actorOrHyphen actor, action, detail)] else [])"

section \<open>Valheim admins\<close>

definition Admins_List ::
    "('s \<Rightarrow> string \<Rightarrow> goerr + Document) \<Rightarrow> string \<Rightarrow> (goerr + string list) option \<Rightarrow> 's option \<Rightarrow>
     goerr + string list" where
  "Admins_List get path reader st =
     (case reader of
        Some r \<Rightarrow> r
      | None \<Rightarrow>
          (case st of
             None \<Rightarrow> Inl (Sentinel ErrNotImplemented)
           | Some s \<Rightarrow>
               (case get s path of
                  Inl e \<Rightarrow> Inl e
                | Inr d \<Rightarrow> (case Data d of Some m \<Rightarrow> Inr (GoStrings.fields (mget m ''ADMINLIST_IDS'' ''''))
                            | None \<Rightarrow> Inr []))))"

definition admins_grant_edit :: "string \<Rightarrow> string \<Rightarrow> string option" where
  "admins_grant_edit steamID cur =
     (if steamID \<in> set (GoStrings.fields cur) then None
      else Some (trim_space (join '' '' (GoStrings.fields cur @ [steamID]))))"

definition Admins_Grant where
  "Admins_Grant patch path audit steamID actor st =
     (let (r, st') = store_patch patch path (edit_text ''ADMINLIST_IDS'' (admins_grant_edit steamID)) st
      in (r, st', audited audit actor ''admin-grant'' steamID r))"

definition admins_revoke_edit :: "string \<Rightarrow> string \<Rightarrow> string option" where
  "admins_revoke_edit steamID cur =
     (let kept = filter (\<lambda>i. i \<noteq> steamID) (GoStrings.fields cur)
      in if steamID \<notin> set (GoStrings.fields cur) then None else Some (join '' '' kept))"

definition Admins_Revoke where
  "Admins_Revoke patch path audit steamID actor st =
     (let (r, st') = store_patch patch path (edit_text ''ADMINLIST_IDS'' (admins_revoke_edit steamID)) st
      in (r, st', audited audit actor ''admin-revoke'' steamID r))"

section \<open>Valheim mods\<close>

definition mods_parse :: "string \<Rightarrow> string list" where
  "mods_parse content =
     filter (\<lambda>t. \<not> (t = '''' \<or> has_prefix t ''#'')) (map trim_space (lines_of content))"

definition InstalledMods ::
    "('s \<Rightarrow> string \<Rightarrow> goerr + Document) \<Rightarrow> string \<Rightarrow> (goerr + string list) option \<Rightarrow> 's option \<Rightarrow>
     goerr + string list" where
  "InstalledMods get path reader st =
     (case reader of
        Some r \<Rightarrow> r
      | None \<Rightarrow>
          (case st of
             None \<Rightarrow> Inl (Sentinel ErrNotImplemented)
           | Some s \<Rightarrow>
               (case get s path of
                  Inl e \<Rightarrow> Inl e
                | Inr d \<Rightarrow> (case Data d of None \<Rightarrow> Inr []
                            | Some m \<Rightarrow> Inr (mods_parse (mget m ''mods.txt'' ''''))))))"

fun install_loop :: "string list \<Rightarrow> string \<Rightarrow> nat \<Rightarrow> string list \<Rightarrow> string \<times> nat" where
  \<comment> \<open>\<open>present\<close>, the text built so far and the count of added entries\<close>
  "install_loop present body added [] = (body, added)"
| "install_loop present body added (e0 # es) =
     (let e = trim_space e0
      in if e = '''' \<or> e \<in> set present then install_loop present body added es
         else install_loop (e # present) (body @ [NL] @ e) (added + 1) es)"

definition trim_nl_right :: "string \<Rightarrow> string" where
  "trim_nl_right s = trim_right (\<lambda>c. c = NL) s"

definition trim_nl_left :: "string \<Rightarrow> string" where
  "trim_nl_left s = trim_left (\<lambda>c. c = NL) s"

definition mods_install_edit :: "string list \<Rightarrow> string \<Rightarrow> string option" where
  "mods_install_edit entries cur =
     (let (body, added) = install_loop (mods_parse cur) (trim_nl_right cur) 0 entries
      in if added = 0 then None else Some (body @ [NL]))"

definition Mods_Install where
  "Mods_Install patch path entries st =
     store_patch patch path (edit_text ''mods.txt'' (mods_install_edit entries)) st"

fun uniq_trimmed :: "string list \<Rightarrow> string list \<Rightarrow> string list" where
  "uniq_trimmed seen [] = []"
| "uniq_trimmed seen (e0 # es) =
     (let e = trim_space e0
      in if e = '''' \<or> e \<in> set seen then uniq_trimmed seen es
         else e # uniq_trimmed (e # seen) es)"

definition replace_want :: "string list \<Rightarrow> string" where
  "replace_want entries = join [NL] (sort (uniq_trimmed [] entries)) @ [NL]"

definition mods_replace_edit :: "string list \<Rightarrow> string \<Rightarrow> string option" where
  "mods_replace_edit entries cur =
     (let want = replace_want entries
      in if join [NL] (sort (mods_parse cur)) @ [NL] = want then None else Some want)"

definition Mods_Replace where
  "Mods_Replace patch path entries st =
     store_patch patch path (edit_text ''mods.txt'' (mods_replace_edit entries)) st"

definition is_mod_line :: "string \<Rightarrow> string \<Rightarrow> bool" where
  \<comment> \<open>an entry of the mod \<open>nsName\<close>, whatever its version\<close>
  "is_mod_line nsName ln =
     (let t = trim_space ln; parts = split_on CHR ''/'' t
      in t \<noteq> '''' \<and> \<not> has_prefix t ''#'' \<and> length parts \<ge> 2 \<and>
         parts ! 0 @ ''/'' @ parts ! 1 = nsName)"

definition mods_remove_edit :: "string \<Rightarrow> string \<Rightarrow> string option" where
  "mods_remove_edit nsName cur =
     (let ls = lines_of (trim_nl_right cur); kept = filter (\<lambda>ln. \<not> is_mod_line nsName ln) ls
      in if \<not> list_ex (is_mod_line nsName) ls then None else Some (join [NL] kept @ [NL]))"

definition Mods_Remove where
  "Mods_Remove patch path nsName st =
     store_patch patch path (edit_text ''mods.txt'' (mods_remove_edit nsName)) st"

section \<open>Minecraft mods\<close>

definition ParseMods :: "string \<Rightarrow> string list" where
  "ParseMods content =
     filter (\<lambda>t. \<not> (t = '''' \<or> has_prefix t ''#'')) (map trim_space (lines_of content))"

definition mc_install_edit :: "string list \<Rightarrow> string \<Rightarrow> string option" where
  "mc_install_edit slugs cur =
     (let (body, added) = install_loop (ParseMods cur) (trim_nl_right cur) 0 slugs
      in if added = 0 then None else Some (trim_nl_left body @ [NL]))"

definition ModManager_Install where
  "ModManager_Install patch path slugs st =
     store_patch patch path (edit_text ''mods.txt'' (mc_install_edit slugs)) st"

definition drop_lines :: "(string \<Rightarrow> bool) \<Rightarrow> string \<Rightarrow> string option" where
  \<comment> \<open>drop the lines whose trimmed text is hit; no change when none is\<close>
  "drop_lines hit cur =
     (let ls = lines_of cur
      in if \<not> list_ex (\<lambda>ln. hit (trim_space ln)) ls then None
         else Some (join [NL] (filter (\<lambda>ln. \<not> hit (trim_space ln)) ls)))"

definition Uninstall where
  "Uninstall patch path slug0 st =
     (let slug = trim_space slug0
      in store_patch patch path (edit_text ''mods.txt'' (drop_lines (\<lambda>t. t = slug))) st)"

definition set_version_key :: "string \<Rightarrow> string \<Rightarrow> bool \<times> Document \<Rightarrow> bool \<times> Document" where
  \<comment> \<open>one \<open>if v != "" && doc.Data[key] != TrimSpace(v)\<close> of \<open>SetVersion\<close>\<close>
  "set_version_key key v cd =
     (if v \<noteq> '''' \<and> data_get (snd cd) key \<noteq> trim_space v
      then (True, data_put key (trim_space v) (snd cd)) else cd)"

definition SetVersion where
  "SetVersion patch path loaderKey0 mcVersion loaderVersion0 st =
     (let loaderVersion = (if loaderVersion0 = '''' \<or> loaderVersion0 = ''recommended'' then ''latest''
                           else loaderVersion0);
          loaderKey = (if loaderKey0 = '''' then ''NEOFORGE_VERSION'' else loaderKey0)
      in store_patch patch path
           (\<lambda>d. (case set_version_key loaderKey loaderVersion
                        (set_version_key ''MINECRAFT_VERSION'' mcVersion (False, working_doc d)) of
                   (changed, d') \<Rightarrow> (Inr changed, d'))) st)"

definition switch_body :: "string \<Rightarrow> string list \<Rightarrow> string" where
  "switch_body packName slugs =
     ''# Modpack: '' @ packName @ [NL] @
     concat (map (\<lambda>s. if trim_space s \<noteq> '''' then trim_space s @ [NL] else '''') slugs)"

definition SwitchModpack where
  "SwitchModpack patch path packName mcVersion slugs st =
     store_patch patch path
       (\<lambda>d. let d1 = working_doc d;
                d2 = (if mcVersion \<noteq> '''' then data_put ''MINECRAFT_VERSION'' (trim_space mcVersion) d1
                      else d1)
            in (Inr True, data_put ''mods.txt'' (switch_body packName slugs) d2)) st"

end
