(* ===== verification/ModListProofs.thy ===== *)
theory ModListProofs
  imports ModLists
begin

text \<open>
  The list services keep what they do not change: proved once for any store that meets the
  contract, and used through the in-memory store's interpretation.
\<close>

section \<open>Clients of the store contract\<close>

context state_store
begin

lemma store_patch_edit:
  assumes "store_patch patch p (edit_text key edit) (Some s) = (Inr c, st)"
  shows "\<exists>s'. st = Some s' \<and> c = (edit (text_of s p key) \<noteq> None) \<and>
    text_of s' p key = (case edit (text_of s p key) of None \<Rightarrow> text_of s p key | Some t \<Rightarrow> t) \<and>
    (\<forall>k. k \<noteq> key \<longrightarrow> text_of s' p k = text_of s p k) \<and>
    (\<forall>q. q \<noteq> p \<longrightarrow> get s' q = get s q)"
proof -
  obtain r s' where rs: "patch p (edit_text key edit) s = (r, s')"
    by (cases "patch p (edit_text key edit) s")
  then have st: "st = Some s'" "r = Inr c" using assms by (simp_all add: store_patch_def)
  show ?thesis
    using patch_edit [where f = "edit_text key edit" and edit = edit and key = key] rs st patch_other
    by (simp add: edit_text_def)
qed

lemma store_patch_fails:
  assumes "store_patch patch p f (Some s) = (Inl e, st)"
  shows "\<exists>s'. st = Some s' \<and> (\<forall>q. get s' q = get s q)"
proof -
  obtain r s' where rs: "patch p f s = (r, s')" by (cases "patch p f s")
  then have "st = Some s'" "r = Inl e" using assms by (simp_all add: store_patch_def)
  then show ?thesis using patch_quiet rs by blast
qed

lemma list_text: "get s p = Inr d \<Longrightarrow> Data d = Some m \<Longrightarrow> mget m k '''' = text_of s p k"
  by (simp add: text_of_def data_get_def)

end

section \<open>Lines of a list file\<close>

definition clean :: "string \<Rightarrow> string list" where
  "clean s = filter (\<lambda>t. \<not> (t = '''' \<or> has_prefix t ''#'')) (map trim_space (lines_of s))"

lemma parsers_clean: "mods_parse = clean" "ParseMods = clean" "ParseUsers = clean"
  by (simp_all add: fun_eq_iff clean_def mods_parse_def ParseMods_def ParseUsers_def)

lemma lines_of_append: "lines_of (a @ NL # b) = lines_of a @ lines_of b"
  unfolding lines_of_def
proof (induction a)
  case (Cons x a)
  then show ?case by (auto split: list.splits)
qed simp

lemma clean_append: "clean (a @ NL # b) = clean a @ clean b"
  by (simp add: clean_def lines_of_append)

lemma clean_Nil [simp]: "clean [] = []"
  by (simp add: clean_def lines_of_def)

lemma clean_snoc_NL: "clean (a @ [NL]) = clean a"
  by (simp add: clean_append)

lemma clean_trim_nl [simp]: "clean (trim_nl_right s) = clean s"
proof (induction s rule: rev_induct)
  case Nil
  then show ?case by (simp add: trim_nl_right_def trim_right_def)
next
  case (snoc c s)
  show ?case
  proof (cases "c = NL")
    case True
    then have "trim_nl_right (s @ [c]) = trim_nl_right s" by (simp add: trim_nl_right_def trim_right_def)
    then show ?thesis using snoc True by (simp add: clean_snoc_NL)
  next
    case False
    then show ?thesis by (simp add: trim_nl_right_def trim_right_def)
  qed
qed

lemma clean_Cons_NL: "clean (NL # s) = clean s"
  using clean_append [of "[]"] by simp

lemma clean_trim_nl_left [simp]: "clean (trim_nl_left s) = clean s"
  by (induction s) (simp_all add: trim_nl_left_def trim_left_def clean_Cons_NL)

definition list_entry :: "string \<Rightarrow> bool" where
  \<comment> \<open>an entry that survives being written on a line of its own\<close>
  "list_entry e = (e \<noteq> '''' \<and> trimmed e \<and> NL \<notin> set e \<and> hd e \<noteq> CHR ''#'')"

lemma hash_prefix: "has_prefix s ''#'' \<longleftrightarrow> s \<noteq> [] \<and> hd s = CHR ''#''"
  by (cases s) (auto simp: has_prefix_def)

lemma clean_entry: "list_entry e \<Longrightarrow> clean e = [e]"
  by (cases e) (auto simp: list_entry_def clean_def lines_of_def split_on_no_sep has_prefix_def)

lemma clean_entries:
  "\<forall>e\<in>set es. list_entry e \<Longrightarrow> clean (body @ concat (map (\<lambda>e. NL # e) es)) = clean body @ es"
proof (induction es arbitrary: body)
  case (Cons e es)
  have "clean (e @ concat (map (\<lambda>e. NL # e) es)) = e # es"
    using Cons.IH [of e] Cons.prems by (simp add: clean_entry)
  then show ?case by (simp add: clean_append)
qed simp

lemma clean_items: "t \<in> set (clean s) \<Longrightarrow> list_entry t"
proof -
  assume "t \<in> set (clean s)"
  then obtain l where l: "l \<in> set (lines_of s)" "t = trim_space l" "t \<noteq> ''''" "\<not> has_prefix t ''#''"
    by (auto simp: clean_def)
  have "NL \<notin> set l" using l(1) split_on_parts by (auto simp: lines_of_def)
  then have "NL \<notin> set t" using l(2) trim_space_subset by blast
  then show "list_entry t" using l by (auto simp: list_entry_def hash_prefix)
qed

lemma install_loop_body:
  "install_loop present body n es =
     (body @ concat (map (\<lambda>e. NL # e) (uniq_trimmed present es)), n + length (uniq_trimmed present es))"
  by (induction present body n es rule: install_loop.induct) (simp_all add: Let_def)

lemma uniq_trimmed_set:
  "e \<in> set (uniq_trimmed seen es) \<longleftrightarrow> e \<in> trim_space ` set es \<and> e \<noteq> '''' \<and> e \<notin> set seen"
  by (induction seen es rule: uniq_trimmed.induct) (auto simp: Let_def)

lemma uniq_trimmed_distinct: "distinct (uniq_trimmed seen es)"
  by (induction seen es rule: uniq_trimmed.induct) (auto simp: Let_def uniq_trimmed_set)

definition entry_text :: "string \<Rightarrow> bool" where
  \<comment> \<open>what an operator may install: one line that is not a comment\<close>
  "entry_text e = (NL \<notin> set e \<and> \<not> has_prefix (trim_space e) ''#'')"

lemma uniq_entries:
  "\<forall>e\<in>set es. entry_text e \<Longrightarrow> \<forall>e\<in>set (uniq_trimmed seen es). list_entry e"
proof
  fix e assume es: "\<forall>e\<in>set es. entry_text e" and "e \<in> set (uniq_trimmed seen es)"
  then obtain x where "x \<in> set es" "e = trim_space x" "e \<noteq> ''''" by (auto simp: uniq_trimmed_set)
  then show "list_entry e"
    using es trim_space_subset [of x] by (auto simp: list_entry_def entry_text_def hash_prefix)
qed

section \<open>Installing, replacing and removing mods\<close>

definition installed :: "Store \<Rightarrow> string \<Rightarrow> string list" where
  "installed s path = mods_parse (mem.text_of s path ''mods.txt'')"

lemma installed_reads:
  "Store_Get s path = Inr d \<Longrightarrow> InstalledMods Store_Get path None (Some s) = Inr (installed s path)"
  by (auto simp: InstalledMods_def installed_def mem.text_of_def data_get_def mods_parse_def
      lines_of_def split: option.splits)

text \<open>Installing mods adds exactly the entries that were not there, once each and in the order
  given, after the entries that were; comments and other keys and documents are untouched, and
  the change is reported exactly when something was added.\<close>

theorem Install_adds:
  assumes "\<forall>e\<in>set entries. entry_text e"
    and "Mods_Install Store_Patch path entries (Some s) = (Inr changed, st)"
  shows "\<exists>s'. st = Some s' \<and>
    installed s' path = installed s path @ uniq_trimmed (installed s path) entries \<and>
    changed = (uniq_trimmed (installed s path) entries \<noteq> []) \<and>
    (\<forall>q. q \<noteq> path \<longrightarrow> Store_Get s' q = Store_Get s q)"
proof -
  let ?cur = "mem.text_of s path ''mods.txt''"
  let ?new = "uniq_trimmed (clean ?cur) entries"
  let ?body = "trim_nl_right ?cur @ concat (map (\<lambda>e. NL # e) ?new)"
  have edit: "mods_install_edit entries ?cur = (if ?new = [] then None else Some (?body @ [NL]))"
    by (simp add: mods_install_edit_def install_loop_body parsers_clean)
  have "clean (?body @ [NL]) = clean ?cur @ ?new"
    using clean_entries [OF uniq_entries [OF assms(1)]] by (simp only: clean_snoc_NL clean_trim_nl)
  moreover obtain s' where "st = Some s'" "changed = (mods_install_edit entries ?cur \<noteq> None)"
    "mem.text_of s' path ''mods.txt'' =
       (case mods_install_edit entries ?cur of None \<Rightarrow> ?cur | Some t \<Rightarrow> t)"
    "\<forall>q. q \<noteq> path \<longrightarrow> Store_Get s' q = Store_Get s q"
    using mem.store_patch_edit [OF assms(2) [unfolded Mods_Install_def]] by auto
  ultimately show ?thesis
    using edit by (cases "?new = []") (simp_all add: installed_def parsers_clean)
qed

definition sample_mods :: Store where
  "sample_mods = Store_Put ''mods.yaml'' (data_put ''mods.txt''
     (''# ours'' @ [NL] @ ''denikson/BepInExPack_Valheim/5.4.2202'' @ [NL]) empty_doc) Store_New"

theorem Install_adds_witness:
  "\<exists>s'. snd (Mods_Install Store_Patch ''mods.yaml'' ['' ValheimModding/Jotunn/2.20.0'',
       ''denikson/BepInExPack_Valheim/5.4.2202''] (Some sample_mods)) = Some s' \<and>
     installed s' ''mods.yaml'' =
       [''denikson/BepInExPack_Valheim/5.4.2202'', ''ValheimModding/Jotunn/2.20.0'']"
proof -
  let ?es = "['' ValheimModding/Jotunn/2.20.0'', ''denikson/BepInExPack_Valheim/5.4.2202'']"
  have ok: "\<forall>e\<in>set ?es. entry_text e" by code_simp
  have i: "installed sample_mods ''mods.yaml'' = [''denikson/BepInExPack_Valheim/5.4.2202'']"
    by (simp add: installed_def mem.text_of_def) code_simp
  have u: "uniq_trimmed [''denikson/BepInExPack_Valheim/5.4.2202''] ?es = [''ValheimModding/Jotunn/2.20.0'']"
    by code_simp
  have "fst (Mods_Install Store_Patch ''mods.yaml'' ?es (Some sample_mods)) = Inr True" by code_simp
  then obtain st where "Mods_Install Store_Patch ''mods.yaml'' ?es (Some sample_mods) = (Inr True, st)"
    by (cases "Mods_Install Store_Patch ''mods.yaml'' ?es (Some sample_mods)") simp
  note r = this
  show ?thesis using Install_adds [OF ok r] r unfolding i u by auto
qed

lemma clean_join:
  "\<forall>l\<in>set ls. NL \<notin> set l \<Longrightarrow>
   clean (join [NL] ls @ [NL]) = filter (\<lambda>t. \<not> (t = '''' \<or> has_prefix t ''#'')) (map trim_space ls)"
proof (cases "ls = []")
  case True
  then show ?thesis using clean_snoc_NL [of "[]"] by simp
next
  case False
  assume "\<forall>l\<in>set ls. NL \<notin> set l"
  then have "lines_of (join [NL] ls) = ls" using False lines_of_join by blast
  then show ?thesis using clean_snoc_NL [of "join [NL] ls"] by (simp add: clean_def)
qed

lemma clean_join_entries: "\<forall>l\<in>set ls. list_entry l \<Longrightarrow> clean (join [NL] ls @ [NL]) = ls"
proof -
  assume a: "\<forall>l\<in>set ls. list_entry l"
  then have "map trim_space ls = ls" by (simp add: map_idI list_entry_def)
  moreover have "filter (\<lambda>t. \<not> (t = '''' \<or> has_prefix t ''#'')) ls = ls"
    using a by (auto simp: list_entry_def has_prefix_def filter_id_conv neq_Nil_conv)
  ultimately show ?thesis using clean_join [of ls] a by (simp add: list_entry_def)
qed

text \<open>Replacing the mod list installs exactly the given set, each entry once, whatever was
  there; and doing it again changes nothing and says so.\<close>

theorem Replace_exact:
  assumes "\<forall>e\<in>set entries. entry_text e"
    and "Mods_Replace Store_Patch path entries (Some s) = (Inr changed, st)"
  shows "\<exists>s'. st = Some s' \<and> mset (installed s' path) = mset (uniq_trimmed [] entries) \<and>
    distinct (installed s' path) \<and>
    set (installed s' path) = trim_space ` set entries - {''''} \<and>
    fst (Mods_Replace Store_Patch path entries (Some s')) = Inr False"
proof -
  let ?u = "uniq_trimmed [] entries" and ?cur = "mem.text_of s path ''mods.txt''"
  have u: "\<forall>e\<in>set (sort ?u). list_entry e" using uniq_entries [OF assms(1)] by simp
  have want: "clean (replace_want entries) = sort ?u"
    unfolding replace_want_def by (rule clean_join_entries [OF u])
  have read: "sort (clean t) = sort ?u" if "mods_replace_edit entries t = None" for t
  proof -
    have "\<forall>l\<in>set (sort (clean t)). list_entry l" using clean_items by simp
    then have "clean (join [NL] (sort (clean t)) @ [NL]) = sort (clean t)"
      by (rule clean_join_entries)
    moreover have "join [NL] (sort (clean t)) @ [NL] = replace_want entries"
      using that by (simp add: mods_replace_edit_def Let_def parsers_clean split: if_splits)
    ultimately show ?thesis using want by simp
  qed
  obtain s' where s': "st = Some s'" "mem.text_of s' path ''mods.txt'' =
      (case mods_replace_edit entries ?cur of None \<Rightarrow> ?cur | Some t \<Rightarrow> t)"
    using mem.store_patch_edit [OF assms(2) [unfolded Mods_Replace_def]] by auto
  have now: "sort (installed s' path) = sort ?u"
    using read [of ?cur] want s'(2)
    by (auto simp: installed_def parsers_clean mods_replace_edit_def Let_def sorted_sort_id
        split: option.splits if_splits)
  then have m: "mset (installed s' path) = mset ?u" by (metis mset_sort)
  then have "distinct (installed s' path)" and "set (installed s' path) = set ?u"
    using uniq_trimmed_distinct mset_eq_imp_distinct_iff mset_eq_setD by blast+
  moreover have "set ?u = trim_space ` set entries - {''''}" by (auto simp: uniq_trimmed_set)
  moreover have "mods_replace_edit entries (mem.text_of s' path ''mods.txt'') = None"
    using now by (simp add: mods_replace_edit_def Let_def replace_want_def installed_def)
  then have "fst (Mods_Replace Store_Patch path entries (Some s')) = Inr False"
    by (auto simp: Mods_Replace_def store_patch_def edit_text_def Store_Patch_def Let_def
        mem.text_of_def Store_Get_def data_get_def mget_def empty_doc_def split: option.splits prod.splits sum.splits)
  ultimately show ?thesis using s'(1) m by simp
qed

theorem Replace_exact_witness:
  "\<exists>s'. snd (Mods_Replace Store_Patch ''mods.yaml'' [''b/B/1.0.0'', ''a/A/1.0.0'', ''b/B/1.0.0'']
       (Some sample_mods)) = Some s' \<and>
     set (installed s' ''mods.yaml'') = {''a/A/1.0.0'', ''b/B/1.0.0''}"
proof -
  let ?es = "[''b/B/1.0.0'', ''a/A/1.0.0'', ''b/B/1.0.0'']"
  have ok: "\<forall>e\<in>set ?es. entry_text e" by code_simp
  have t: "trim_space ` set ?es - {''''} = {''a/A/1.0.0'', ''b/B/1.0.0''}"
    by (simp add: trimmed_def is_space_def) blast
  have "fst (Mods_Replace Store_Patch ''mods.yaml'' ?es (Some sample_mods)) = Inr True" by code_simp
  then obtain st where "Mods_Replace Store_Patch ''mods.yaml'' ?es (Some sample_mods) = (Inr True, st)"
    by (cases "Mods_Replace Store_Patch ''mods.yaml'' ?es (Some sample_mods)") simp
  then show ?thesis using Replace_exact [OF ok, of "''mods.yaml''" sample_mods True st] unfolding t by auto
qed

definition mod_entry :: "string \<Rightarrow> string \<Rightarrow> bool" where
  \<comment> \<open>an installed entry whose first two segments are the mod's name\<close>
  "mod_entry nsName e =
     (let parts = split_on CHR ''/'' e in length parts \<ge> 2 \<and> parts ! 0 @ ''/'' @ parts ! 1 = nsName)"

text \<open>Removing a mod takes out its entry in every version and no other mod; the order and the
  comments of the rest stay, and the change is reported exactly when the mod was installed.\<close>

theorem Remove_exact:
  "Mods_Remove Store_Patch path nsName (Some s) = (Inr changed, st) \<longrightarrow>
   (\<exists>s'. st = Some s' \<and>
      installed s' path = filter (\<lambda>e. \<not> mod_entry nsName e) (installed s path) \<and>
      changed = list_ex (mod_entry nsName) (installed s path))"
proof
  assume a: "Mods_Remove Store_Patch path nsName (Some s) = (Inr changed, st)"
  let ?cur = "mem.text_of s path ''mods.txt''"
  let ?ls = "lines_of (trim_nl_right ?cur)" and ?ok = "\<lambda>t. \<not> (t = '''' \<or> has_prefix t ''#'')"
  have line: "is_mod_line nsName ln \<longleftrightarrow> ?ok (trim_space ln) \<and> mod_entry nsName (trim_space ln)" for ln
    by (auto simp: is_mod_line_def mod_entry_def Let_def)
  have cur: "clean ?cur = filter ?ok (map trim_space ?ls)"
    using clean_trim_nl [of ?cur] by (simp add: clean_def)
  have nl: "\<forall>l\<in>set (filter (\<lambda>ln. \<not> is_mod_line nsName ln) ?ls). NL \<notin> set l"
    using split_on_parts by (auto simp: lines_of_def)
  have keep: "filter ?ok (map trim_space (filter (\<lambda>ln. \<not> is_mod_line nsName ln) xs)) =
      filter (\<lambda>e. \<not> mod_entry nsName e) (filter ?ok (map trim_space xs))" for xs
    by (induction xs) (auto simp: line)
  have hit: "list_ex (is_mod_line nsName) xs = list_ex (mod_entry nsName) (filter ?ok (map trim_space xs))" for xs
    by (induction xs) (auto simp: line)
  have edit: "mods_remove_edit nsName ?cur =
      (if list_ex (mod_entry nsName) (clean ?cur)
       then Some (join [NL] (filter (\<lambda>ln. \<not> is_mod_line nsName ln) ?ls) @ [NL]) else None)"
    unfolding cur by (simp add: mods_remove_edit_def Let_def hit)
  have gone: "clean (join [NL] (filter (\<lambda>ln. \<not> is_mod_line nsName ln) ?ls) @ [NL]) =
      filter (\<lambda>e. \<not> mod_entry nsName e) (clean ?cur)"
    unfolding clean_join [OF nl] keep cur ..
  have none: "filter (\<lambda>e. \<not> mod_entry nsName e) xs = xs" if "\<not> list_ex (mod_entry nsName) xs" for xs
    using that by (simp add: filter_id_conv list_ex_iff)
  show "\<exists>s'. st = Some s' \<and>
      installed s' path = filter (\<lambda>e. \<not> mod_entry nsName e) (installed s path) \<and>
      changed = list_ex (mod_entry nsName) (installed s path)"
  proof -
    obtain s' where s': "st = Some s'" "changed = (mods_remove_edit nsName ?cur \<noteq> None)"
      "mem.text_of s' path ''mods.txt'' =
         (case mods_remove_edit nsName ?cur of None \<Rightarrow> ?cur | Some t \<Rightarrow> t)"
      using mem.store_patch_edit [OF a [unfolded Mods_Remove_def]] by auto
    show ?thesis
      using s' edit gone none [of "clean ?cur"]
      by (cases "list_ex (mod_entry nsName) (clean ?cur)")
        (simp_all add: installed_def parsers_clean)
  qed
qed

theorem Remove_exact_witness:
  "\<exists>s'. snd (Mods_Remove Store_Patch ''mods.yaml'' ''denikson/BepInExPack_Valheim'' (Some sample_mods)) =
     Some s' \<and> installed s' ''mods.yaml'' = []"
proof -
  have i: "installed sample_mods ''mods.yaml'' = [''denikson/BepInExPack_Valheim/5.4.2202'']"
    by (simp add: installed_def mem.text_of_def) code_simp
  have f: "filter (\<lambda>e. \<not> mod_entry ''denikson/BepInExPack_Valheim'' e)
      [''denikson/BepInExPack_Valheim/5.4.2202''] = []" by code_simp
  let ?r = "Mods_Remove Store_Patch ''mods.yaml'' ''denikson/BepInExPack_Valheim'' (Some sample_mods)"
  have "fst ?r = Inr True" by code_simp
  then obtain st where "?r = (Inr True, st)" by (cases ?r) simp
  then show ?thesis
    using Remove_exact [of "''mods.yaml''" "''denikson/BepInExPack_Valheim''" sample_mods True st]
    unfolding i f by auto
qed

section \<open>Admins\<close>

definition admins :: "Store \<Rightarrow> string \<Rightarrow> string list" where
  "admins s path = GoStrings.fields (mem.text_of s path ''ADMINLIST_IDS'')"

definition steam_id :: "string \<Rightarrow> bool" where
  "steam_id i = (i \<noteq> '''' \<and> list_all (\<lambda>c. \<not> is_space c) i)"

lemma fields_trim: "GoStrings.fields (trim_space (join '' '' ws)) = ws"
  if "\<forall>w\<in>set ws. steam_id w"
proof -
  have w: "\<forall>w\<in>set ws. w \<noteq> [] \<and> (\<forall>c\<in>set w. \<not> is_space c)"
    using that by (auto simp: steam_id_def list_all_iff)
  have "trimmed (join '' '' ws)"
  proof (cases ws rule: rev_cases)
    case Nil
    then show ?thesis by (simp add: trimmed_def)
  next
    case (snoc us u)
    have "hd (join '' '' ws) = hd (hd ws)"
    proof -
      obtain x xs where "ws = x # xs" using snoc by (metis append_is_Nil_conv neq_Nil_conv)
      moreover have "x \<noteq> []" using w calculation by simp
      ultimately show ?thesis by (cases xs) auto
    qed
    moreover have "last (join '' '' ws) = last u"
      using w snoc join_append [of us "[u]" "'' ''"] by (cases "us = []") simp_all
    moreover have "hd ws \<in> set ws" "u \<in> set ws" using snoc by (metis hd_in_set snoc_eq_iff_butlast, simp)
    then have "\<not> is_space (hd (hd ws))" "\<not> is_space (last u)" using w by simp_all
    ultimately show ?thesis by (simp add: trimmed_def)
  qed
  then show ?thesis using fields_join_space [OF w] by simp
qed

text \<open>Granting admin adds the id once, at the end, and revoking takes out every occurrence of it
  and nothing else; each reports and audits a change exactly when the list changed.\<close>

theorem admin_changes:
  assumes "steam_id i"
    and "Admins_Grant Store_Patch path True i actor (Some s) = (Inr granted, st1, log1)"
    and "Admins_Revoke Store_Patch path True i actor (Some s) = (Inr revoked, st2, log2)"
  shows "\<exists>s1 s2. st1 = Some s1 \<and> st2 = Some s2 \<and>
    admins s1 path = (if i \<in> set (admins s path) then admins s path else admins s path @ [i]) \<and>
    granted = (i \<notin> set (admins s path)) \<and> (log1 = [] \<longleftrightarrow> \<not> granted) \<and>
    admins s2 path = filter (\<lambda>x. x \<noteq> i) (admins s path) \<and>
    revoked = (i \<in> set (admins s path)) \<and> (log2 = [] \<longleftrightarrow> \<not> revoked)"
proof -
  let ?cur = "mem.text_of s path ''ADMINLIST_IDS''"
  have ids: "\<forall>w\<in>set (GoStrings.fields ?cur). steam_id w"
    using fields_items by (auto simp: steam_id_def list_all_iff)
  have g: "store_patch Store_Patch path (edit_text ''ADMINLIST_IDS'' (admins_grant_edit i)) (Some s) =
      (Inr granted, st1)" "log1 = audited True actor ''admin-grant'' i (Inr granted)"
    using assms(2) by (auto simp: Admins_Grant_def Let_def split: prod.splits)
  have r: "store_patch Store_Patch path (edit_text ''ADMINLIST_IDS'' (admins_revoke_edit i)) (Some s) =
      (Inr revoked, st2)" "log2 = audited True actor ''admin-revoke'' i (Inr revoked)"
    using assms(3) by (auto simp: Admins_Revoke_def Let_def split: prod.splits)
  have "\<forall>w\<in>set (GoStrings.fields ?cur @ [i]). steam_id w" using ids assms(1) by simp
  then have f1: "GoStrings.fields (trim_space (join '' '' (GoStrings.fields ?cur @ [i]))) = GoStrings.fields ?cur @ [i]"
    by (rule fields_trim)
  have f2: "GoStrings.fields (join '' '' (filter (\<lambda>x. x \<noteq> i) (GoStrings.fields ?cur))) =
      filter (\<lambda>x. x \<noteq> i) (GoStrings.fields ?cur)"
    using ids by (intro fields_join_space) (auto simp: steam_id_def list_all_iff)
  have f3: "filter (\<lambda>x. x \<noteq> i) xs = xs" if "i \<notin> set xs" for xs :: "string list"
    using that by (auto simp: filter_id_conv)
  obtain s1 where s1: "st1 = Some s1" "granted = (admins_grant_edit i ?cur \<noteq> None)"
    "mem.text_of s1 path ''ADMINLIST_IDS'' =
       (case admins_grant_edit i ?cur of None \<Rightarrow> ?cur | Some t \<Rightarrow> t)"
    using mem.store_patch_edit [OF g(1)] by auto
  obtain s2 where s2: "st2 = Some s2" "revoked = (admins_revoke_edit i ?cur \<noteq> None)"
    "mem.text_of s2 path ''ADMINLIST_IDS'' =
       (case admins_revoke_edit i ?cur of None \<Rightarrow> ?cur | Some t \<Rightarrow> t)"
    using mem.store_patch_edit [OF r(1)] by auto
  show ?thesis
    using s1 s2 f1 f2 f3 g(2) r(2)
    by (cases "i \<in> set (GoStrings.fields ?cur)")
      (simp_all add: admins_def admins_grant_edit_def admins_revoke_edit_def Let_def audited_def)
qed

theorem admin_changes_witness:
  "\<exists>s1. fst (snd (Admins_Grant Store_Patch ''admins.yaml'' True ''76561198000000001'' [''ops'']
       (Some Store_New))) = Some s1 \<and> admins s1 ''admins.yaml'' = [''76561198000000001'']"
proof -
  let ?i = "''76561198000000001''"
  let ?g = "Admins_Grant Store_Patch ''admins.yaml'' True ?i [''ops''] (Some Store_New)"
  let ?r = "Admins_Revoke Store_Patch ''admins.yaml'' True ?i [''ops''] (Some Store_New)"
  have ok: "steam_id ?i" by code_simp
  have "fst ?g = Inr True" "fst ?r = Inr False" by code_simp+
  then obtain st1 l1 st2 l2 where g: "?g = (Inr True, st1, l1)" and r: "?r = (Inr False, st2, l2)"
    by (metis prod.collapse)
  have "admins Store_New ''admins.yaml'' = []"
    by (simp add: admins_def mem.text_of_def Store_New_def Store_Get_def) code_simp
  then show ?thesis using admin_changes [OF ok g r] g by auto
qed

end
