(* ===== verification/Access.thy ===== *)
theory Access
  imports ModListProofs
begin

text \<open>
  \<open>internal/app/access/access.go\<close> and \<open>internal/domain/validation.go\<close>: operators and the
  whitelist of a Minecraft server, kept in the state store and applied live over RCON.

  The console is a function \<open>exec\<close> from a command to a reply or an error over a world type
  \<open>'w\<close>, \<open>None\<close> for a nil console; the store is \<open>None\<close> for a nil store. The four operations
  that change a list have the same body in the code up to the key, the command, the reply that
  means nothing was to do, and the reload of the whitelist; \<open>access_change\<close> is that body.
\<close>

section \<open>User names\<close>

definition mc_name_char :: "char \<Rightarrow> bool" where
  "mc_name_char c = (is_lower c \<or> is_upper c \<or> is_digit c \<or> c = CHR ''_'')"

definition ValidateMinecraftUsername :: "string \<Rightarrow> goerr option" where
  \<comment> \<open>\<open>^[a-zA-Z0-9_]{1,16}$\<close>\<close>
  "ValidateMinecraftUsername u =
     (if list_all mc_name_char u \<and> 1 \<le> length u \<and> length u \<le> 16 then None
      else Some (Sentinel ErrInvalidMinecraftUsername))"

definition access_ParseUsers :: "string \<Rightarrow> string list" where
  "access_ParseUsers content =
     filter (\<lambda>t. \<not> (t = '''' \<or> has_prefix t ''#'')) (map trim_space (lines_of content))"

definition ParsePlayerList :: "string \<Rightarrow> string list" where
  "ParsePlayerList res =
     (let parts = split_on CHR '':'' res
      in if length parts < 2 then []
         else (let raw = trim_space (parts ! 1)
               in if raw = '''' then []
                  else filter (\<lambda>n. n \<noteq> '''') (map trim_space (split_on CHR '','' raw))))"

section \<open>Changing a list\<close>

type_synonym 'w Exec = "'w \<Rightarrow> string \<Rightarrow> (goerr + string) \<times> 'w"

definition grant_user_edit :: "string \<Rightarrow> string \<Rightarrow> string option" where
  "grant_user_edit username cur =
     (if list_ex (\<lambda>u. equal_fold u username) (access_ParseUsers cur) then None
      else Some (trim_nl_left (trim_nl_right cur @ [NL] @ username) @ [NL]))"

definition revoke_user_edit :: "string \<Rightarrow> string \<Rightarrow> string option" where
  "revoke_user_edit username = drop_lines (\<lambda>t. equal_fold t username)"

definition change_store ::
    "(string \<Rightarrow> Mutate \<Rightarrow> 's \<Rightarrow> (goerr + bool) \<times> 's) \<Rightarrow> string \<Rightarrow> Mutate \<Rightarrow> 's option \<Rightarrow>
     bool \<times> goerr option \<times> 's option" where
  \<comment> \<open>\<open>changed\<close> and \<open>storeErr\<close> after the patch, if there is a store\<close>
  "change_store patch path f st =
     (case st of
        None \<Rightarrow> (False, None, None)
      | Some s \<Rightarrow>
          (case patch path f s of
             (Inl e, s') \<Rightarrow> (False, Some e, Some s')
           | (Inr c, s') \<Rightarrow> (c, None, Some s')))"

definition change_live ::
    "'w Exec option \<Rightarrow> string \<Rightarrow> string \<Rightarrow> bool \<Rightarrow> bool \<Rightarrow> bool \<Rightarrow> 'w \<Rightarrow> bool \<times> goerr option \<times> 'w" where
  \<comment> \<open>\<open>changed\<close> and \<open>rconErr\<close> after the command; \<open>no_store\<close> is \<open>a.store == nil || storeErr != nil\<close>\<close>
  "change_live console cmd quiet reload no_store changed w =
     (case console of
        None \<Rightarrow> (changed, None, w)
      | Some exec \<Rightarrow>
          (case exec w cmd of
             (Inl e, w1) \<Rightarrow> (changed, Some e, w1)
           | (Inr res, w1) \<Rightarrow>
               (if contains (to_lower res) quiet then False else if no_store then True else changed,
                None,
                if reload then snd (exec w1 ''/whitelist reload'') else w1)))"

definition access_change where
  "access_change patch path console audit f cmd quiet reload action username actor st w =
     (case ValidateMinecraftUsername username of
        Some e \<Rightarrow> (Inl e, st, w, [])
      | None \<Rightarrow>
          (let (changed0, storeErr, st1) = change_store patch path f st;
               (changed, rconErr, w1) =
                 change_live console cmd quiet reload (st = None \<or> storeErr \<noteq> None) changed0 w
           in if st = None \<and> console = None then (Inl (Sentinel ErrNotImplemented), st1, w1, [])
              else if storeErr \<noteq> None \<and> (console = None \<or> rconErr \<noteq> None)
              then (Inl (case (storeErr, rconErr) of
                           (Some se, Some re) \<Rightarrow> Wrap (''store patch: '' @ err_text se @ ''; rcon: '') re ''''
                         | (Some se, None) \<Rightarrow> se
                         | (None, _) \<Rightarrow> Errorf ''''), st1, w1, [])
              else if st = None \<and> rconErr \<noteq> None then (Inl (the rconErr), st1, w1, [])
              else (Inr changed, st1, w1, audited audit actor action username (Inr changed))))"

definition GrantOp where
  "GrantOp patch path console audit username =
     access_change patch path console audit (edit_text ''ops.txt'' (grant_user_edit username))
       (''/op '' @ username) ''already'' False ''mc-op-grant'' username"

definition RevokeOp where
  "RevokeOp patch path console audit username =
     access_change patch path console audit (edit_text ''ops.txt'' (revoke_user_edit username))
       (''/deop '' @ username) ''not an op'' False ''mc-op-revoke'' username"

definition AddWhitelist where
  "AddWhitelist patch path console audit username =
     access_change patch path console audit (edit_text ''whitelist.txt'' (grant_user_edit username))
       (''/whitelist add '' @ username) ''already'' True ''mc-whitelist-add'' username"

definition RemoveWhitelist where
  "RemoveWhitelist patch path console audit username =
     access_change patch path console audit (edit_text ''whitelist.txt'' (revoke_user_edit username))
       (''/whitelist remove '' @ username) ''not whitelisted'' True ''mc-whitelist-remove'' username"

section \<open>Reading and switching\<close>

definition ListAccess ::
    "('s \<Rightarrow> string \<Rightarrow> goerr + Document) \<Rightarrow> string \<Rightarrow> 'w Exec option \<Rightarrow>
     (goerr + string list \<times> string list) option \<Rightarrow> 's option \<Rightarrow> 'w \<Rightarrow>
     (goerr + string list \<times> string list) \<times> 'w" where
  "ListAccess get path console reader st w =
     (case reader of
        Some r \<Rightarrow> (r, w)
      | None \<Rightarrow>
          (if st = None \<and> console = None then (Inl (Sentinel ErrNotImplemented), w)
           else (let stored = (case st of None \<Rightarrow> Inl None
                               | Some s \<Rightarrow> (case get s path of Inl e \<Rightarrow> Inl (Some e) | Inr d \<Rightarrow> Inr d))
                 in case stored of
                      Inr d \<Rightarrow>
                        (Inr (case Data d of
                                None \<Rightarrow> ([], [])
                              | Some m \<Rightarrow> (access_ParseUsers (mget m ''ops.txt'' ''''),
                                          access_ParseUsers (mget m ''whitelist.txt'' ''''))), w)
                    | Inl storeErr \<Rightarrow>
                        (let (res, w1) = (case console of
                               None \<Rightarrow> (None, w)
                             | Some exec \<Rightarrow>
                                 (case exec w ''/whitelist list'' of
                                    (Inr r, w1) \<Rightarrow> (Some r, w1) | (Inl _, w1) \<Rightarrow> (None, w1)))
                         in case res of
                              Some r \<Rightarrow> (Inr ([], ParsePlayerList r), w1)
                            | None \<Rightarrow>
                                (case storeErr of
                                   None \<Rightarrow> (Inr ([], []), w1)
                                 | Some e \<Rightarrow> if errors_is e ErrNotExist then (Inr ([], []), w1)
                                             else (Inl e, w1))))))"

definition OnlinePlayers :: "'w Exec option \<Rightarrow> 'w \<Rightarrow> (goerr + string list) \<times> 'w" where
  "OnlinePlayers console w =
     (case console of
        None \<Rightarrow> (Inl (Errorf ''rcon client not configured''), w)
      | Some exec \<Rightarrow>
          (case exec w ''/list'' of
             (Inl e, w1) \<Rightarrow> (Inl e, w1)
           | (Inr res, w1) \<Rightarrow> (Inr (ParsePlayerList res), w1)))"

definition WhitelistEnforced :: "'w Exec option \<Rightarrow> 'w \<Rightarrow> (goerr + bool) \<times> 'w" where
  "WhitelistEnforced console w =
     (case console of
        None \<Rightarrow> (Inl (Errorf ''rcon client not configured''), w)
      | Some exec \<Rightarrow>
          (case exec w ''/whitelist on'' of
             (Inl e, w1) \<Rightarrow> (Inl e, w1)
           | (Inr res, w1) \<Rightarrow>
               (if contains (to_lower res) ''already'' then (Inr True, w1)
                else (Inr False, snd (exec w1 ''/whitelist off'')))))"

definition SetWhitelistEnforced ::
    "'w Exec option \<Rightarrow> bool \<Rightarrow> bool \<Rightarrow> string list \<Rightarrow> 'w \<Rightarrow> goerr option \<times> 'w \<times> Audit list" where
  "SetWhitelistEnforced console audit enforce actor w =
     (case console of
        None \<Rightarrow> (Some (Errorf ''rcon client not configured''), w, [])
      | Some exec \<Rightarrow>
          (case exec w (if enforce then ''/whitelist on'' else ''/whitelist off'') of
             (Inl e, w1) \<Rightarrow> (Some e, w1, [])
           | (Inr _, w1) \<Rightarrow>
               (None, w1,
                if audit then [(actorOrHyphen actor, ''mc-whitelist-toggle'',
                                if enforce then ''enabled'' else ''disabled'')]
                else [])))"

section \<open>What a change leaves in the store\<close>

lemma mc_name_char_plain:
  "mc_name_char c \<Longrightarrow> \<not> is_space c \<and> c \<noteq> NL \<and> c \<noteq> CHR ''#''"
  by (auto simp: mc_name_char_def is_lower_def is_upper_def is_digit_def is_space_code NL_def code_def)

lemma valid_name_entry: "ValidateMinecraftUsername u = None \<Longrightarrow> list_entry u"
proof -
  assume "ValidateMinecraftUsername u = None"
  then have u: "\<forall>c\<in>set u. mc_name_char c" "u \<noteq> []"
    by (auto simp: ValidateMinecraftUsername_def list_all_iff split: if_splits)
  then have "mc_name_char (hd u)" "mc_name_char (last u)"
    using hd_in_set last_in_set by blast+
  then show ?thesis
    using u mc_name_char_plain by (auto simp: list_entry_def trimmed_def)
qed

lemma mc_name_hash:
  assumes "ValidateMinecraftUsername u = None" "map lower_char t = map lower_char u"
  shows "hd t \<noteq> CHR ''#''"
proof
  assume h: "hd t = CHR ''#''"
  have ne: "u \<noteq> []" and "\<forall>c\<in>set u. mc_name_char c"
    using assms(1) by (auto simp: ValidateMinecraftUsername_def list_all_iff split: if_splits)
  then have c: "mc_name_char (hd u)" using hd_in_set by blast
  have "t \<noteq> []" using ne assms(2) by auto
  then have "lower_char (hd t) = lower_char (hd u)"
    using assms(2) ne by (metis hd_map)
  then have "lower_char (hd u) = CHR ''#''"
    using h by (simp add: lower_char_def is_upper_def code_def)
  then show False
    using c mc_name_char_plain [OF c]
    by (auto simp: lower_char_def mc_name_char_def char_eq_code is_upper_def code_lower split: if_splits)
      (auto simp: code_def is_lower_def is_digit_def)
qed

lemma access_parser: "access_ParseUsers = clean"
  by (simp add: fun_eq_iff access_ParseUsers_def clean_def)

lemma grant_user_clean:
  assumes "list_entry u" "grant_user_edit u cur = Some t"
  shows "clean t = clean cur @ [u]"
proof -
  have "clean (trim_nl_right cur @ NL # u) = clean cur @ [u]"
    using assms(1) by (simp add: clean_append clean_entry)
  moreover have "t = trim_nl_left (trim_nl_right cur @ NL # u) @ [NL]"
    using assms(2) by (simp add: grant_user_edit_def split: if_splits)
  ultimately show ?thesis by (simp add: clean_snoc_NL)
qed

lemma drop_lines_clean:
  assumes "\<And>t. hit t \<Longrightarrow> t \<noteq> '''' \<and> \<not> has_prefix t ''#''"
  shows "(case drop_lines hit cur of None \<Rightarrow> clean cur | Some t \<Rightarrow> clean t) =
      filter (\<lambda>t. \<not> hit t) (clean cur) \<and>
    (drop_lines hit cur \<noteq> None \<longleftrightarrow> list_ex hit (clean cur))"
proof -
  let ?ok = "\<lambda>t. \<not> (t = '''' \<or> has_prefix t ''#'')" and ?ls = "lines_of cur"
  have keep: "filter ?ok (map trim_space (filter (\<lambda>ln. \<not> hit (trim_space ln)) xs)) =
      filter (\<lambda>t. \<not> hit t) (filter ?ok (map trim_space xs))" for xs
    using assms by (induction xs) auto
  have ex: "list_ex (\<lambda>ln. hit (trim_space ln)) xs = list_ex hit (filter ?ok (map trim_space xs))" for xs
    using assms by (induction xs) auto
  have nl: "\<forall>l\<in>set (filter (\<lambda>ln. \<not> hit (trim_space ln)) ?ls). NL \<notin> set l"
    using split_on_parts by (auto simp: lines_of_def)
  have "clean (join [NL] (filter (\<lambda>ln. \<not> hit (trim_space ln)) ?ls)) =
      filter (\<lambda>t. \<not> hit t) (clean cur)"
    using clean_join [OF nl] keep [of ?ls] by (simp add: clean_snoc_NL) (simp add: clean_def)
  moreover have "filter (\<lambda>t. \<not> hit t) xs = xs" if "\<not> list_ex hit xs" for xs
    using that by (simp add: filter_id_conv list_ex_iff)
  moreover have "list_ex (\<lambda>ln. hit (trim_space ln)) ?ls = list_ex hit (clean cur)"
    by (simp add: ex clean_def)
  ultimately show ?thesis
    by (cases "list_ex hit (clean cur)") (simp_all add: drop_lines_def Let_def)
qed

definition users :: "Store \<Rightarrow> string \<Rightarrow> string \<Rightarrow> string list" where
  "users s path key = access_ParseUsers (mem.text_of s path key)"

lemma change_store_mem:
  assumes "change_store Store_Patch path (edit_text key edit) (Some s) = (c, e, st)"
  shows "\<exists>s'. e = None \<and> st = Some s' \<and> c = (edit (mem.text_of s path key) \<noteq> None) \<and>
    mem.text_of s' path key =
      (case edit (mem.text_of s path key) of None \<Rightarrow> mem.text_of s path key | Some t \<Rightarrow> t) \<and>
    (\<forall>k. k \<noteq> key \<longrightarrow> mem.text_of s' path k = mem.text_of s path k)"
proof -
  obtain r s' where p: "Store_Patch path (edit_text key edit) s = (r, s')"
    by (cases "Store_Patch path (edit_text key edit) s")
  have "\<exists>b. r = Inr b"
    using p by (auto simp: Store_Patch_def edit_text_def Let_def split: option.splits if_splits)
  then obtain b where r: "r = Inr b" by blast
  have "store_patch Store_Patch path (edit_text key edit) (Some s) = (Inr b, Some s')"
    using p r by (simp add: store_patch_def)
  then show ?thesis
    using mem.store_patch_edit [of path key edit s b "Some s'"] assms p r
    by (auto simp: change_store_def)
qed

lemma access_change_store:
  assumes "ValidateMinecraftUsername username = None"
    and "access_change Store_Patch path console audit (edit_text key edit) cmd quiet reload action
      username actor (Some s) w = (r, st, w', log)"
  shows "\<exists>s' b. r = Inr b \<and> st = Some s' \<and> (console = None \<longrightarrow> b = (edit (mem.text_of s path key) \<noteq> None)) \<and>
    mem.text_of s' path key =
      (case edit (mem.text_of s path key) of None \<Rightarrow> mem.text_of s path key | Some t \<Rightarrow> t) \<and>
    (\<forall>k. k \<noteq> key \<longrightarrow> mem.text_of s' path k = mem.text_of s path k)"
proof -
  obtain c e st1 where cs: "change_store Store_Patch path (edit_text key edit) (Some s) = (c, e, st1)"
    by (metis prod.collapse)
  obtain c' e' w1 where cl: "change_live console cmd quiet reload False c w = (c', e', w1)"
    by (metis prod.collapse)
  note m = change_store_mem [OF cs]
  have e: "e = None" using m by blast
  have r: "r = Inr c'" "st = st1"
    using assms cs cl e by (auto simp: access_change_def)
  have "console = None \<longrightarrow> c' = c"
    using cl by (auto simp: change_live_def)
  then show ?thesis using m r by auto
qed

text \<open>Whatever the live server replies, the desired state ends up right: after a grant the user
  is on the list, added once at the end unless a name that differs only in case was there; after
  a revoke no spelling of the name is; everybody else stays, in order, and the other list of the
  document is not touched. Operators and whitelist behave alike.\<close>

theorem access_lists_follow:
  assumes "ValidateMinecraftUsername u = None"
    and "GrantOp Store_Patch path console audit u actor (Some s) w = (r1, st1, w1, log1)"
    and "RemoveWhitelist Store_Patch path console audit u actor (Some s) w = (r2, st2, w2, log2)"
  shows "\<exists>s1 s2. st1 = Some s1 \<and> st2 = Some s2 \<and>
    users s1 path ''ops.txt'' =
      (if list_ex (\<lambda>x. equal_fold x u) (users s path ''ops.txt'') then users s path ''ops.txt''
       else users s path ''ops.txt'' @ [u]) \<and>
    users s1 path ''whitelist.txt'' = users s path ''whitelist.txt'' \<and>
    users s2 path ''whitelist.txt'' =
      filter (\<lambda>x. \<not> equal_fold x u) (users s path ''whitelist.txt'') \<and>
    users s2 path ''ops.txt'' = users s path ''ops.txt''"
proof -
  note e = valid_name_entry [OF assms(1)]
  obtain s1 where s1: "st1 = Some s1" "mem.text_of s1 path ''ops.txt'' =
      (case grant_user_edit u (mem.text_of s path ''ops.txt'') of
         None \<Rightarrow> mem.text_of s path ''ops.txt'' | Some t \<Rightarrow> t)"
    "mem.text_of s1 path ''whitelist.txt'' = mem.text_of s path ''whitelist.txt''"
    using access_change_store [OF assms(1) assms(2) [unfolded GrantOp_def]] by auto
  obtain s2 where s2: "st2 = Some s2" "mem.text_of s2 path ''whitelist.txt'' =
      (case revoke_user_edit u (mem.text_of s path ''whitelist.txt'') of
         None \<Rightarrow> mem.text_of s path ''whitelist.txt'' | Some t \<Rightarrow> t)"
    "mem.text_of s2 path ''ops.txt'' = mem.text_of s path ''ops.txt''"
    using access_change_store [OF assms(1) assms(3) [unfolded RemoveWhitelist_def]] by auto
  have g: "users s1 path ''ops.txt'' =
      (if list_ex (\<lambda>x. equal_fold x u) (users s path ''ops.txt'') then users s path ''ops.txt''
       else users s path ''ops.txt'' @ [u])"
  proof (cases "grant_user_edit u (mem.text_of s path ''ops.txt'')")
    case None
    then have "list_ex (\<lambda>x. equal_fold x u) (users s path ''ops.txt'')"
      by (simp add: users_def grant_user_edit_def split: if_splits)
    then show ?thesis using s1(2) None by (simp add: users_def)
  next
    case (Some t)
    then have "\<not> list_ex (\<lambda>x. equal_fold x u) (users s path ''ops.txt'')"
      by (simp add: users_def grant_user_edit_def split: if_splits)
    then show ?thesis
      using s1(2) Some grant_user_clean [OF e Some] by (simp add: users_def access_parser)
  qed
  have hit: "equal_fold t u \<Longrightarrow> t \<noteq> '''' \<and> \<not> has_prefix t ''#''" for t
    using e mc_name_hash [OF assms(1)] by (auto simp: equal_fold_def list_entry_def hash_prefix to_lower_def)
  have "users s2 path ''whitelist.txt'' =
      filter (\<lambda>x. \<not> equal_fold x u) (users s path ''whitelist.txt'')"
    using s2(2) drop_lines_clean [of "\<lambda>t. equal_fold t u" "mem.text_of s path ''whitelist.txt''", OF hit]
    by (auto simp: users_def access_parser revoke_user_edit_def split: option.splits)
  then show ?thesis using s1 s2 g by (auto simp: users_def)
qed

definition sample_access :: Store where
  "sample_access = Store_Put ''access.yaml'' (data_put ''ops.txt'' (''# staff'' @ [NL] @ ''yaya'' @ [NL])
     (data_put ''whitelist.txt'' (''Yaya'' @ [NL] @ ''kiko'' @ [NL]) empty_doc)) Store_New"

theorem access_lists_follow_witness:
  "\<exists>s2. fst (snd (RemoveWhitelist Store_Patch ''access.yaml'' (None :: unit Exec option) True ''yaya'' []
     (Some sample_access) ())) = Some s2 \<and> users s2 ''access.yaml'' ''whitelist.txt'' = [''kiko'']"
proof -
  let ?g = "GrantOp Store_Patch ''access.yaml'' (None :: unit Exec option) True ''yaya'' []
     (Some sample_access) ()"
  let ?r = "RemoveWhitelist Store_Patch ''access.yaml'' (None :: unit Exec option) True ''yaya'' []
     (Some sample_access) ()"
  have ok: "ValidateMinecraftUsername ''yaya'' = None" by code_simp
  obtain r1 st1 w1 l1 r2 st2 w2 l2 where g: "?g = (r1, st1, w1, l1)" and r: "?r = (r2, st2, w2, l2)"
    by (metis prod.collapse)
  have u: "users sample_access ''access.yaml'' ''whitelist.txt'' = [''Yaya'', ''kiko'']"
    by (simp add: users_def mem.text_of_def) code_simp
  have f: "filter (\<lambda>x. \<not> equal_fold x ''yaya'') [''Yaya'', ''kiko''] = [''kiko'']" by code_simp
  show ?thesis using access_lists_follow [OF ok g r] r unfolding u f by auto
qed

end
