(* ===== verification/SqlStore.thy ===== *)
theory SqlStore
  imports Accounts Budgets
begin

text \<open>
  The tables of \<open>internal/infra/store\<close> that carry decisions: creation requests
  (\<open>requests.go\<close>), sessions (\<open>sessions.go\<close>), tiers, game settings and global settings
  (\<open>capacity.go\<close>).

  A table is an association list by primary key; an \<open>INSERT ... ON CONFLICT DO UPDATE\<close> is written
  out as what it does to the row. \<open>db\<close> is the driver: the error it returns for a statement, if
  any, under the name used in the error text; a statement that fails changes nothing. The JSON
  round trip of a request's spec is the identity (no field of it carries a tag), on ASCII text.
\<close>

type_synonym Db = "string \<Rightarrow> goerr option"

record Session =
  ses_ID :: string
  ses_Subject :: string
  ses_Email :: string
  ses_Name :: string
  ses_Username :: string
  ses_Roles :: "Role list"
  ses_IDToken :: string
  ses_CreatedAt :: Time
  ses_ExpiresAt :: Time

record SessionRow =
  \<comment> \<open>a row of \<open>sessions\<close>: the roles as stored, and the rest of the session\<close>
  row_roles :: string
  row_session :: Session

record Tables =
  t_requests :: "(string \<times> InstanceRequest) list"
  t_sessions :: "(string \<times> SessionRow) list"
  t_tiers :: "((GameID \<times> string) \<times> Tier) list"
  t_settings :: "(GameID \<times> GameSettings) list"
  t_meta :: "(string \<times> string) list"

definition empty_tables :: Tables where
  "empty_tables = \<lparr>t_requests = [], t_sessions = [], t_tiers = [], t_settings = [], t_meta = []\<rparr>"

section \<open>Creation requests\<close>

definition upsert_request :: "Time \<Rightarrow> InstanceRequest \<Rightarrow> InstanceRequest option \<Rightarrow> InstanceRequest" where
  \<comment> \<open>the row after the insert, or after \<open>DO UPDATE\<close> of the row that was there\<close>
  "upsert_request now r old =
     (case old of
        None \<Rightarrow> r\<lparr>req_CreatedAt := (if req_CreatedAt r = 0 then now else req_CreatedAt r)\<rparr>
      | Some q \<Rightarrow> q\<lparr>req_Status := req_Status r, req_Note := req_Note r,
                    req_DecidedAt := req_DecidedAt r, req_DecidedBy := req_DecidedBy r,
                    req_Number := req_Number r\<rparr>)"

definition PutRequest :: "Db \<Rightarrow> Time \<Rightarrow> InstanceRequest \<Rightarrow> Tables \<Rightarrow> goerr option \<times> Tables" where
  "PutRequest db now r t =
     (if req_ID r = '''' \<or> req_Subject r = '''' then (Some (Errorf ''put request: empty id or subject''), t)
      else case db ''put request'' of
             Some e \<Rightarrow> (Some (Wrap (''put request '' @ go_quote (req_ID r) @ '': '') e ''''), t)
           | None \<Rightarrow>
               (None, t\<lparr>t_requests := AList.update (req_ID r)
                        (upsert_request now r (map_of (t_requests t) (req_ID r))) (t_requests t)\<rparr>))"

definition GetRequest :: "Db \<Rightarrow> string \<Rightarrow> Tables \<Rightarrow> goerr + InstanceRequest option" where
  "GetRequest db rid t =
     (case db ''get request'' of
        Some e \<Rightarrow> Inl (Wrap (''get request '' @ go_quote rid @ '': '') e '''')
      | None \<Rightarrow> Inr (map_of (t_requests t) rid))"

definition listRequests :: "Db \<Rightarrow> (InstanceRequest \<Rightarrow> bool) \<Rightarrow> Tables \<Rightarrow> goerr + InstanceRequest list" where
  \<comment> \<open>\<open>ORDER BY created_at ASC\<close>; the order of rows made at the same time is SQLite's\<close>
  "listRequests db P t =
     (case db ''list requests'' of
        Some e \<Rightarrow> Inl (Wrap ''list requests: '' e '''')
      | None \<Rightarrow> Inr (sort_key req_CreatedAt (filter P (map snd (t_requests t)))))"

definition ListRequests :: "Db \<Rightarrow> string \<Rightarrow> Tables \<Rightarrow> goerr + InstanceRequest list" where
  "ListRequests db status t =
     (if status = '''' then listRequests db (\<lambda>r. True) t
      else listRequests db (\<lambda>r. req_Status r = status) t)"

definition ListRequestsFor :: "Db \<Rightarrow> string \<Rightarrow> Tables \<Rightarrow> goerr + InstanceRequest list" where
  "ListRequestsFor db subject t = listRequests db (\<lambda>r. req_Subject r = subject) t"

section \<open>Sessions\<close>

definition encodeRoles :: "Role list \<Rightarrow> string" where
  "encodeRoles roles = join '' '' (filter (\<lambda>s. s \<noteq> '''') (map trim_space roles))"

definition decodeRoles :: "string \<Rightarrow> Role list" where
  "decodeRoles s = GoStrings.fields s"

definition CreateSession :: "Db \<Rightarrow> Time \<Rightarrow> Session \<Rightarrow> Tables \<Rightarrow> goerr option \<times> Tables" where
  "CreateSession db now s t =
     (if ses_ID s = '''' \<or> ses_Subject s = '''' then (Some (Errorf ''create session: empty id or subject''), t)
      else case (if map_of (t_sessions t) (ses_ID s) \<noteq> None then Some (Errorf ''UNIQUE constraint failed'')
                 else db ''create session'') of
             Some e \<Rightarrow> (Some (Wrap ''create session: '' e ''''), t)
           | None \<Rightarrow>
               (None, t\<lparr>t_sessions := AList.update (ses_ID s)
                  \<lparr>row_roles = encodeRoles (ses_Roles s),
                   row_session = s\<lparr>ses_CreatedAt := (if ses_CreatedAt s = 0 then now else ses_CreatedAt s)\<rparr>\<rparr>
                  (t_sessions t)\<rparr>))"

definition LoadSession :: "Db \<Rightarrow> Time \<Rightarrow> string \<Rightarrow> Tables \<Rightarrow> goerr + Session option" where
  "LoadSession db now sid t =
     (if sid = '''' then Inr None
      else case db ''load session'' of
             Some e \<Rightarrow> Inl (Wrap ''load session: '' e '''')
           | None \<Rightarrow>
               (case map_of (t_sessions t) sid of
                  None \<Rightarrow> Inr None
                | Some row \<Rightarrow>
                    if \<not> ses_ExpiresAt (row_session row) > now then Inr None
                    else Inr (Some ((row_session row)\<lparr>ses_Roles := decodeRoles (row_roles row)\<rparr>))))"

definition map_rows :: "(SessionRow \<Rightarrow> SessionRow) \<Rightarrow> Tables \<Rightarrow> Tables" where
  "map_rows f t = t\<lparr>t_sessions := map (\<lambda>(k, r). (k, f r)) (t_sessions t)\<rparr>"

definition TouchSession :: "Db \<Rightarrow> string \<Rightarrow> Time \<Rightarrow> Tables \<Rightarrow> goerr option \<times> Tables" where
  "TouchSession db sid expiresAt t =
     (case db ''touch session'' of
        Some e \<Rightarrow> (Some (Wrap ''touch session: '' e ''''), t)
      | None \<Rightarrow> (None, t\<lparr>t_sessions := map (\<lambda>(k, r). (k,
          if k = sid then r\<lparr>row_session := (row_session r)\<lparr>ses_ExpiresAt := expiresAt\<rparr>\<rparr> else r))
          (t_sessions t)\<rparr>))"

definition delete_rows :: "(SessionRow \<Rightarrow> bool) \<Rightarrow> Tables \<Rightarrow> Tables" where
  "delete_rows P t = t\<lparr>t_sessions := filter (\<lambda>kr. \<not> P (snd kr)) (t_sessions t)\<rparr>"

definition DeleteSession :: "Db \<Rightarrow> string \<Rightarrow> Tables \<Rightarrow> goerr option \<times> Tables" where
  "DeleteSession db sid t =
     (case db ''delete session'' of
        Some e \<Rightarrow> (Some (Wrap ''delete session: '' e ''''), t)
      | None \<Rightarrow> (None, t\<lparr>t_sessions := AList.delete sid (t_sessions t)\<rparr>))"

definition DeleteSessionsFor :: "Db \<Rightarrow> string \<Rightarrow> Tables \<Rightarrow> goerr option \<times> Tables" where
  "DeleteSessionsFor db subject t =
     (case db ''delete sessions'' of
        Some e \<Rightarrow> (Some (Wrap (''delete sessions for '' @ go_quote subject @ '': '') e ''''), t)
      | None \<Rightarrow> (None, delete_rows (\<lambda>r. ses_Subject (row_session r) = subject) t))"

definition PurgeExpiredSessions :: "Db \<Rightarrow> Time \<Rightarrow> Tables \<Rightarrow> (goerr + nat) \<times> Tables" where
  "PurgeExpiredSessions db now t =
     (case db ''purge sessions'' of
        Some e \<Rightarrow> (Inl (Wrap ''purge sessions: '' e ''''), t)
      | None \<Rightarrow>
          (let t' = delete_rows (\<lambda>r. ses_ExpiresAt (row_session r) \<le> now) t
           in (Inr (length (t_sessions t) - length (t_sessions t')), t')))"

definition mutate_row :: "Time \<Rightarrow> string \<Rightarrow> (Role list \<Rightarrow> Role list) \<Rightarrow> SessionRow \<Rightarrow> SessionRow" where
  \<comment> \<open>what a live row of the subject (of anyone when it is empty) becomes\<close>
  "mutate_row now subject apply_roles r =
     (if ses_ExpiresAt (row_session r) > now \<and>
         (subject = '''' \<or> ses_Subject (row_session r) = subject)
      then r\<lparr>row_roles := encodeRoles (apply_roles (decodeRoles (row_roles r)))\<rparr>
      else r)"

definition mutateSessionRoles ::
    "Db \<Rightarrow> Time \<Rightarrow> string \<Rightarrow> (Role list \<Rightarrow> Role list) \<Rightarrow> Tables \<Rightarrow> goerr option \<times> Tables" where
  \<comment> \<open>when the driver fails the first update, no row is changed\<close>
  "mutateSessionRoles db now subject apply_roles t =
     (case db ''read sessions'' of
        Some e \<Rightarrow> (Some (Wrap ''read sessions for role update: '' e ''''), t)
      | None \<Rightarrow>
          (let t' = map_rows (mutate_row now subject apply_roles) t
           in if t_sessions t' = t_sessions t then (None, t)
              else case db ''update session roles'' of
                     Some e \<Rightarrow> (Some (Wrap ''update session roles: '' e ''''), t)
                   | None \<Rightarrow> (None, t')))"

definition AddSessionRole :: "Db \<Rightarrow> Time \<Rightarrow> string \<Rightarrow> Role \<Rightarrow> Tables \<Rightarrow> goerr option \<times> Tables" where
  "AddSessionRole db now subject role t =
     (if subject = '''' \<or> role = '''' then (None, t)
      else mutateSessionRoles db now subject
             (\<lambda>roles. if role \<in> set roles then roles else roles @ [role]) t)"

definition RemoveSessionRole :: "Db \<Rightarrow> Time \<Rightarrow> string \<Rightarrow> Role \<Rightarrow> Tables \<Rightarrow> goerr option \<times> Tables" where
  "RemoveSessionRole db now subject role t =
     (if subject = '''' \<or> role = '''' then (None, t)
      else mutateSessionRoles db now subject (filter (\<lambda>r. r \<noteq> role)) t)"

definition RemoveSessionRoleEverywhere :: "Db \<Rightarrow> Time \<Rightarrow> Role \<Rightarrow> Tables \<Rightarrow> goerr option \<times> Tables" where
  "RemoveSessionRoleEverywhere db now role t =
     (if role = '''' then (None, t)
      else mutateSessionRoles db now '''' (filter (\<lambda>r. r \<noteq> role)) t)"

section \<open>Tiers and settings\<close>

definition ListTiers :: "Db \<Rightarrow> GameID \<Rightarrow> Tables \<Rightarrow> goerr + Tier list" where
  "ListTiers db game t =
     (case db ''list tiers'' of
        Some e \<Rightarrow> Inl (Wrap (''list tiers for '' @ game @ '': '') e '''')
      | None \<Rightarrow> Inr (sort_key (\<lambda>x. (tier_SortOrder x, tier_Key x))
                      (map snd (filter (\<lambda>kv. fst (fst kv) = game) (t_tiers t)))))"

definition PutTier :: "Db \<Rightarrow> Tier \<Rightarrow> Tables \<Rightarrow> goerr option \<times> Tables" where
  "PutTier db x t =
     (if tier_GameID x = '''' \<or> tier_Key x = '''' then (Some (Errorf ''put tier: empty game or key''), t)
      else case db ''put tier'' of
             Some e \<Rightarrow> (Some (Wrap (''put tier '' @ tier_GameID x @ ''/'' @ tier_Key x @ '': '') e ''''), t)
           | None \<Rightarrow> (None, t\<lparr>t_tiers := AList.update (tier_GameID x, tier_Key x) x (t_tiers t)\<rparr>))"

definition DeleteTier :: "Db \<Rightarrow> GameID \<Rightarrow> string \<Rightarrow> Tables \<Rightarrow> goerr option \<times> Tables" where
  "DeleteTier db game key t =
     (case db ''delete tier'' of
        Some e \<Rightarrow> (Some (Wrap (''delete tier '' @ game @ ''/'' @ key @ '': '') e ''''), t)
      | None \<Rightarrow> (None, t\<lparr>t_tiers := AList.delete (game, key) (t_tiers t)\<rparr>))"

definition GetGameSettings :: "Db \<Rightarrow> GameID \<Rightarrow> Tables \<Rightarrow> goerr + GameSettings option" where
  "GetGameSettings db game t =
     (case db ''get settings'' of
        Some e \<Rightarrow> Inl (Wrap (''get settings for '' @ game @ '': '') e '''')
      | None \<Rightarrow> Inr (map_of (t_settings t) game))"

definition settings_row :: "GameSettings \<Rightarrow> GameSettings" where
  \<comment> \<open>the columns of \<open>game_settings\<close>: the ceiling's two limits, not its requests\<close>
  "settings_row g = g\<lparr>gs_Ceiling := zero_resources\<lparr>MemLimitGiB := MemLimitGiB (gs_Ceiling g),
                       CPULimitMilli := CPULimitMilli (gs_Ceiling g)\<rparr>\<rparr>"

definition PutGameSettings :: "Db \<Rightarrow> GameSettings \<Rightarrow> Tables \<Rightarrow> goerr option \<times> Tables" where
  "PutGameSettings db g t =
     (if gs_GameID g = '''' then (Some (Errorf ''put game settings: empty game''), t)
      else case db ''put settings'' of
             Some e \<Rightarrow> (Some (Wrap (''put settings for '' @ gs_GameID g @ '': '') e ''''), t)
           | None \<Rightarrow> (None, t\<lparr>t_settings := AList.update (gs_GameID g) (settings_row g) (t_settings t)\<rparr>))"

definition GetGlobalInt :: "Db \<Rightarrow> string \<Rightarrow> Tables \<Rightarrow> goerr + (int \<times> bool)" where
  "GetGlobalInt db key t =
     (case db ''get global'' of
        Some e \<Rightarrow> Inl (Wrap (''get global '' @ go_quote key @ '': '') e '''')
      | None \<Rightarrow>
          (case map_of (t_meta t) key of
             None \<Rightarrow> Inr (0, False)
           | Some raw \<Rightarrow>
               (case atoi (trim_space raw) of
                  None \<Rightarrow> Inl (Errorf (''global '' @ go_quote key @ '' is not a number: '' @ go_quote raw))
                | Some n \<Rightarrow> Inr (n, True))))"

definition SetGlobalInt :: "Db \<Rightarrow> string \<Rightarrow> int \<Rightarrow> Tables \<Rightarrow> goerr option \<times> Tables" where
  "SetGlobalInt db key n t =
     (case db ''set global'' of
        Some e \<Rightarrow> (Some (Wrap (''set global '' @ go_quote key @ '': '') e ''''), t)
      | None \<Rightarrow> (None, t\<lparr>t_meta := AList.update key (show_int n) (t_meta t)\<rparr>))"

end
