(* ===== verification/Requests.thy ===== *)
theory Requests
  imports SqlStore ModLists
begin

text \<open>
  \<open>internal/app/requests/service.go\<close>: an account may create so many worlds on its own and asks
  an administrator for more.

  The request store is the record of operations \<open>ReqStore\<close> over a table type \<open>'t\<close>, with the laws
  of the locale \<open>request_store\<close>; the SQL store interprets it. Creating a world and granting
  access to it act on the rest of the program, a world type \<open>'e\<close>. The random identifier and the
  clock are arguments. A \<open>None\<close> field of the service is a nil one.
\<close>

section \<open>The request store\<close>

record 't ReqStore =
  rs_Put :: "InstanceRequest \<Rightarrow> 't \<Rightarrow> goerr option \<times> 't"
  rs_Get :: "string \<Rightarrow> 't \<Rightarrow> goerr + InstanceRequest option"
  rs_List :: "string \<Rightarrow> 't \<Rightarrow> goerr + InstanceRequest list"
  rs_ListFor :: "string \<Rightarrow> 't \<Rightarrow> goerr + InstanceRequest list"

definition decide_row :: "InstanceRequest \<Rightarrow> InstanceRequest \<Rightarrow> InstanceRequest" where
  \<comment> \<open>the stored request \<open>q\<close> with the decision of \<open>r\<close>\<close>
  "decide_row r q = q\<lparr>req_Status := req_Status r, req_Note := req_Note r,
     req_DecidedAt := req_DecidedAt r, req_DecidedBy := req_DecidedBy r, req_Number := req_Number r\<rparr>"

locale request_store =
  fixes rs :: "'t ReqStore"
    and request_at :: "'t \<Rightarrow> string \<Rightarrow> InstanceRequest option"
  assumes get_ok: "rs_Get rs i t = Inr got \<Longrightarrow> got = request_at t i"
    and list_for_ok: "rs_ListFor rs s t = Inr xs \<Longrightarrow> request_at t i = Some r \<Longrightarrow> req_Subject r = s \<Longrightarrow>
      r \<in> set xs"
    and put_fail: "rs_Put rs r t = (Some e, t') \<Longrightarrow> request_at t' i = request_at t i"
    and put_new: "rs_Put rs r t = (None, t') \<Longrightarrow> request_at t (req_ID r) = None \<Longrightarrow>
      request_at t' i = (if i = req_ID r
        then Some (r\<lparr>req_CreatedAt := req_CreatedAt (the (request_at t' (req_ID r)))\<rparr>)
        else request_at t i)"
    and put_old: "rs_Put rs r t = (None, t') \<Longrightarrow> request_at t (req_ID r) = Some q \<Longrightarrow>
      request_at t' i = (if i = req_ID r then Some (decide_row r q) else request_at t i)"

definition sql_requests :: "Db \<Rightarrow> Time \<Rightarrow> Tables ReqStore" where
  "sql_requests db now = \<lparr>rs_Put = PutRequest db now, rs_Get = GetRequest db,
     rs_List = ListRequests db, rs_ListFor = ListRequestsFor db\<rparr>"

definition sql_request_at :: "Tables \<Rightarrow> string \<Rightarrow> InstanceRequest option" where
  "sql_request_at t i = map_of (t_requests t) i"

interpretation sql: request_store "sql_requests db now" sql_request_at for db now
proof unfold_locales
  fix i t r
  assume "rs_Get (sql_requests db now) i t = Inr r"
  then show "r = sql_request_at t i"
    by (simp add: sql_requests_def GetRequest_def sql_request_at_def split: option.splits)
next
  fix s t xs i r
  assume l: "rs_ListFor (sql_requests db now) s t = Inr xs" and r: "sql_request_at t i = Some r"
    and s: "req_Subject r = s"
  have xs: "xs = sort_key req_CreatedAt (filter (\<lambda>r. req_Subject r = s) (map snd (t_requests t)))"
    using l by (simp add: sql_requests_def ListRequestsFor_def listRequests_def split: option.splits)
  have "r \<in> set (map snd (t_requests t))"
    using r by (force simp: sql_request_at_def dest: map_of_SomeD)
  then show "r \<in> set xs" using s by (simp only: xs set_sort set_filter) simp
next
  fix r t e t' i
  assume "rs_Put (sql_requests db now) r t = (Some e, t')"
  then show "sql_request_at t' i = sql_request_at t i"
    by (auto simp: sql_requests_def PutRequest_def split: if_splits option.splits)
next
  fix r t t' i
  assume "rs_Put (sql_requests db now) r t = (None, t')" "sql_request_at t (req_ID r) = None"
  then show "sql_request_at t' i = (if i = req_ID r
      then Some (r\<lparr>req_CreatedAt := req_CreatedAt (the (sql_request_at t' (req_ID r)))\<rparr>)
      else sql_request_at t i)"
    by (auto simp: sql_requests_def PutRequest_def sql_request_at_def map_of_update upsert_request_def
        split: if_splits option.splits)
next
  fix r t t' q i
  assume "rs_Put (sql_requests db now) r t = (None, t')" "sql_request_at t (req_ID r) = Some q"
  then show "sql_request_at t' i = (if i = req_ID r then Some (decide_row r q) else sql_request_at t i)"
    by (auto simp: sql_requests_def PutRequest_def sql_request_at_def map_of_update upsert_request_def
        decide_row_def split: if_splits option.splits)
qed

section \<open>The service\<close>

record ('e, 't) ReqService =
  sv_store :: "'t ReqStore option"
  sv_create :: "('e \<Rightarrow> GameID \<Rightarrow> Instance \<Rightarrow> ModList \<Rightarrow> string \<Rightarrow> (goerr + Instance) \<times> 'e) option"
  sv_grant :: "('e \<Rightarrow> string \<Rightarrow> GameID \<Rightarrow> int \<Rightarrow> string \<Rightarrow> goerr option \<times> 'e) option"
  sv_list :: "('e \<Rightarrow> goerr + Instance list) option"
  sv_limit :: "('e \<Rightarrow> int) option"
  sv_audit :: bool

record ('e, 't) ReqState =
  rq_env :: 'e
  rq_tables :: 't
  rq_audit :: "Audit list"

definition FreeCreations :: int where "FreeCreations = 1"

definition CreatedBySubject :: "('e, 't) ReqService \<Rightarrow> 'e \<Rightarrow> string \<Rightarrow> goerr + int" where
  "CreatedBySubject s e subject =
     (case sv_list s of
        None \<Rightarrow> Inr 0
      | Some list \<Rightarrow>
          if subject = '''' then Inr 0
          else (case list e of
                  Inl err \<Rightarrow> Inl err
                | Inr insts \<Rightarrow> Inr (int (length (filter (\<lambda>i. CreatedBy i = subject) insts)))))"

definition CreationLimit :: "('e, 't) ReqService \<Rightarrow> 'e \<Rightarrow> int" where
  "CreationLimit s e =
     (case sv_limit s of
        None \<Rightarrow> FreeCreations
      | Some limit \<Rightarrow> (let n = limit e in if n < 0 then 0 else n))"

definition MayCreateDirectly :: "('e, 't) ReqService \<Rightarrow> 'e \<Rightarrow> string \<Rightarrow> goerr + bool" where
  "MayCreateDirectly s e subject =
     (case CreatedBySubject s e subject of
        Inl err \<Rightarrow> Inl err
      | Inr n \<Rightarrow> Inr (n < CreationLimit s e))"

definition req_record ::
    "('e, 't) ReqService \<Rightarrow> string \<Rightarrow> string \<Rightarrow> string \<Rightarrow> ('e, 't) ReqState \<Rightarrow> ('e, 't) ReqState" where
  "req_record s actor action detail st =
     (if \<not> sv_audit s then st
      else st\<lparr>rq_audit := rq_audit st @ [(if actor = '''' then ''-'' else actor, action, detail)]\<rparr>)"

definition Submit ::
    "('e, 't) ReqService \<Rightarrow> string \<Rightarrow> Time \<Rightarrow> string \<Rightarrow> Instance \<Rightarrow> ModList \<Rightarrow> ('e, 't) ReqState \<Rightarrow>
     (goerr + InstanceRequest) \<times> ('e, 't) ReqState" where
  "Submit s newid now subject inst mods st =
     (case sv_store s of
        None \<Rightarrow> (Inl (Errorf ''submit: no request store configured''), st)
      | Some rs \<Rightarrow>
          if subject = '''' then (Inl (Errorf ''submit: empty subject''), st)
          else case rs_ListFor rs subject (rq_tables st) of
                 Inl err \<Rightarrow> (Inl err, st)
               | Inr requests \<Rightarrow>
                   (case find req_Pending requests of
                      Some r \<Rightarrow> (Inl (Errorf (''you already have a pending request for '' @
                                  go_quote (req_Name r))), st)
                    | None \<Rightarrow>
                        (let req = \<lparr>req_ID = newid, req_Subject = subject, req_GameID = inst_GameID inst,
                                    req_Name = inst_Name inst, req_Instance = inst, req_Mods = mods,
                                    req_Status = RequestPending, req_Note = '''', req_CreatedAt = now,
                                    req_DecidedAt = 0, req_DecidedBy = '''', req_Number = 0\<rparr>
                         in case rs_Put rs req (rq_tables st) of
                              (Some err, t) \<Rightarrow> (Inl err, st\<lparr>rq_tables := t\<rparr>)
                            | (None, t) \<Rightarrow>
                                (Inr req, req_record s subject ''instance-request-submit''
                                            (req_Label req) (st\<lparr>rq_tables := t\<rparr>)))))"

definition PendingRequests :: "('e, 't) ReqService \<Rightarrow> ('e, 't) ReqState \<Rightarrow> goerr + InstanceRequest list" where
  "PendingRequests s st =
     (case sv_store s of None \<Rightarrow> Inr [] | Some rs \<Rightarrow> rs_List rs RequestPending (rq_tables st))"

definition AllRequests :: "('e, 't) ReqService \<Rightarrow> ('e, 't) ReqState \<Rightarrow> goerr + InstanceRequest list" where
  "AllRequests s st =
     (case sv_store s of None \<Rightarrow> Inr [] | Some rs \<Rightarrow> rs_List rs '''' (rq_tables st))"

definition ForSubject ::
    "('e, 't) ReqService \<Rightarrow> string \<Rightarrow> ('e, 't) ReqState \<Rightarrow> goerr + InstanceRequest list" where
  "ForSubject s subject st =
     (case sv_store s of None \<Rightarrow> Inr [] | Some rs \<Rightarrow> rs_ListFor rs subject (rq_tables st))"

definition pending_request ::
    "'t ReqStore \<Rightarrow> string \<Rightarrow> 't \<Rightarrow> goerr + InstanceRequest" where
  \<comment> \<open>the lookup and the two refusals that \<open>Approve\<close> and \<open>Deny\<close> start with\<close>
  "pending_request rs rid t =
     (case rs_Get rs rid t of
        Inl err \<Rightarrow> Inl err
      | Inr None \<Rightarrow> Inl (Errorf ''no such request'')
      | Inr (Some req) \<Rightarrow> if \<not> req_Pending req then Inl (Sentinel ErrRequestNotPending) else Inr req)"

definition Approve ::
    "('e, 't) ReqService \<Rightarrow> Time \<Rightarrow> string \<Rightarrow> string \<Rightarrow> ('e, 't) ReqState \<Rightarrow>
     (Instance option \<times> goerr option) \<times> ('e, 't) ReqState" where
  "Approve s now rid actor st =
     (case sv_store s of
        None \<Rightarrow> ((None, Some (Errorf ''approve: no request store configured'')), st)
      | Some rs \<Rightarrow>
     (case sv_create s of
        None \<Rightarrow> ((None, Some (Errorf ''approve: no instance creator configured'')), st)
      | Some create \<Rightarrow>
     (case pending_request rs rid (rq_tables st) of
        Inl err \<Rightarrow> ((None, Some err), st)
      | Inr req \<Rightarrow>
     (case create (rq_env st) (req_GameID req) ((req_Instance req)\<lparr>CreatedBy := req_Subject req\<rparr>)
             (req_Mods req) actor of
        (Inl err, e) \<Rightarrow> ((None, Some err), st\<lparr>rq_env := e\<rparr>)
      | (Inr created, e) \<Rightarrow>
          (let (gerr, e2) = (case sv_grant s of
                 None \<Rightarrow> (None, e)
               | Some grant \<Rightarrow> grant e (req_Subject req) (inst_GameID created) (Number created) actor)
           in case gerr of
                Some g \<Rightarrow> ((Some created, Some (Wrap ''world created but access could not be granted: '' g '''')),
                           st\<lparr>rq_env := e2\<rparr>)
              | None \<Rightarrow>
                  (let req' = req\<lparr>req_Status := RequestApproved, req_DecidedAt := now,
                                  req_DecidedBy := actor, req_Number := Number created\<rparr>
                   in case rs_Put rs req' (rq_tables st) of
                        (Some err, t) \<Rightarrow> ((Some created, Some err), st\<lparr>rq_env := e2, rq_tables := t\<rparr>)
                      | (None, t) \<Rightarrow>
                          ((Some created, None),
                           req_record s actor ''instance-request-approve'' (req_Label req')
                             (st\<lparr>rq_env := e2, rq_tables := t\<rparr>))))))))"

definition Deny ::
    "('e, 't) ReqService \<Rightarrow> Time \<Rightarrow> string \<Rightarrow> string \<Rightarrow> string \<Rightarrow> ('e, 't) ReqState \<Rightarrow>
     goerr option \<times> ('e, 't) ReqState" where
  "Deny s now rid note0 actor st =
     (case sv_store s of
        None \<Rightarrow> (Some (Errorf ''deny: no request store configured''), st)
      | Some rs \<Rightarrow>
     (case pending_request rs rid (rq_tables st) of
        Inl err \<Rightarrow> (Some err, st)
      | Inr req \<Rightarrow>
          (let req' = req\<lparr>req_Status := RequestDenied, req_DecidedAt := now, req_DecidedBy := actor,
                          req_Note := note0\<rparr>
           in case rs_Put rs req' (rq_tables st) of
                (Some err, t) \<Rightarrow> (Some err, st\<lparr>rq_tables := t\<rparr>)
              | (None, t) \<Rightarrow>
                  (None, req_record s actor ''instance-request-deny'' (req_Label req')
                           (st\<lparr>rq_tables := t\<rparr>)))))"

definition GrantCreator ::
    "('e, 't) ReqService \<Rightarrow> string \<Rightarrow> GameID \<Rightarrow> int \<Rightarrow> string \<Rightarrow> 'e \<Rightarrow> goerr option \<times> 'e" where
  "GrantCreator s subject game n actor e =
     (case sv_grant s of
        None \<Rightarrow> (None, e)
      | Some grant \<Rightarrow> if subject = '''' then (None, e) else grant e subject game n actor)"

section \<open>The life of a request\<close>

text \<open>What the operations of the service do in any order, by any number of accounts. A submit draws
  an identifier that no request has yet.\<close>

inductive rstep ::
    "('e, 't) ReqService \<Rightarrow> ('t \<Rightarrow> string \<Rightarrow> InstanceRequest option) \<Rightarrow>
     ('e, 't) ReqState \<Rightarrow> ('e, 't) ReqState \<Rightarrow> bool" for s request_at where
  submit: "request_at (rq_tables st) newid = None \<Longrightarrow>
    rstep s request_at st (snd (Submit s newid now subject inst mods st))"
| approve: "rstep s request_at st (snd (Approve s now rid actor st))"
| deny: "rstep s request_at st (snd (Deny s now rid note0 actor st))"
| env: "rstep s request_at st (st\<lparr>rq_env := e\<rparr>)"

inductive_cases rstepE: "rstep s request_at st st'"

lemma req_record_tables [simp]:
  "rq_tables (req_record s a b c st) = rq_tables st" "rq_env (req_record s a b c st) = rq_env st"
  by (simp_all add: req_record_def)

context request_store
begin

definition keyed :: "'t \<Rightarrow> bool" where
  "keyed t = (\<forall>i r. request_at t i = Some r \<longrightarrow> req_ID r = i)"

definition one_pending :: "'t \<Rightarrow> bool" where
  \<comment> \<open>no account has two requests waiting\<close>
  "one_pending t = (\<forall>i j r q. request_at t i = Some r \<longrightarrow> request_at t j = Some q \<longrightarrow> req_Pending r \<longrightarrow>
     req_Pending q \<longrightarrow> req_Subject r = req_Subject q \<longrightarrow> i = j)"

definition settled :: "InstanceRequest option \<Rightarrow> InstanceRequest option \<Rightarrow> bool" where
  \<comment> \<open>how a request may change: not at all once it is decided, and never in what it asks for\<close>
  "settled old new = (case old of
     None \<Rightarrow> True
   | Some r \<Rightarrow> (\<exists>q. new = Some q \<and> req_Subject q = req_Subject r \<and> req_Instance q = req_Instance r \<and>
       req_Mods q = req_Mods r \<and> (\<not> req_Pending r \<longrightarrow> q = r)))"

lemma settled_refl [simp]: "settled a a"
  by (simp add: settled_def split: option.splits)

lemma settled_trans: "settled a b \<Longrightarrow> settled b c \<Longrightarrow> settled a c"
  by (auto simp: settled_def split: option.splits)

lemma pending_request_ok:
  "pending_request rs i t = Inr r \<Longrightarrow> request_at t i = Some r \<and> req_Pending r"
  by (auto simp: pending_request_def split: sum.splits option.splits if_splits dest: get_ok)

lemma decide_ok:
  assumes inv: "keyed t" "one_pending t" and r: "request_at t i = Some r" "req_Pending r"
    and d: "req_ID d = req_ID r" "req_Status d \<noteq> RequestPending"
    and put: "rs_Put rs d t = (res, t')"
  shows "keyed t' \<and> one_pending t' \<and> (\<forall>j. settled (request_at t j) (request_at t' j))"
proof (cases res)
  case (Some e)
  then have "request_at t' j = request_at t j" for j using put_fail put by blast
  then show ?thesis using inv by (simp add: keyed_def one_pending_def)
next
  case None
  have i: "req_ID r = i" using inv(1) r(1) by (simp add: keyed_def)
  have at: "request_at t' j = (if j = i then Some (decide_row d r) else request_at t j)" for j
    using put_old [of d t t' r j] put None r(1) d(1) i by simp
  have "\<not> req_Pending (decide_row d r)" using d(2) by (simp add: decide_row_def req_Pending_def)
  then have "one_pending t'" using inv(2) unfolding one_pending_def at by (simp split: if_splits)
  moreover have "keyed t'" using inv(1) i unfolding keyed_def at by (simp add: decide_row_def)
  moreover have "settled (request_at t j) (request_at t' j)" for j
    using r unfolding at by (cases "j = i") (simp_all add: settled_def [of "Some r"] decide_row_def)
  ultimately show ?thesis by blast
qed

lemma Submit_ok:
  assumes s: "sv_store s = Some rs" and inv: "keyed (rq_tables st)" "one_pending (rq_tables st)"
    and fresh: "request_at (rq_tables st) newid = None"
    and run: "Submit s newid now subject inst mods st = (res, st')"
  shows "keyed (rq_tables st') \<and> one_pending (rq_tables st') \<and>
    (\<forall>j. settled (request_at (rq_tables st) j) (request_at (rq_tables st') j))"
proof -
  let ?t = "rq_tables st"
  let ?req = "\<lparr>req_ID = newid, req_Subject = subject, req_GameID = inst_GameID inst,
      req_Name = inst_Name inst, req_Instance = inst, req_Mods = mods, req_Status = RequestPending,
      req_Note = '''', req_CreatedAt = now, req_DecidedAt = 0, req_DecidedBy = '''', req_Number = 0\<rparr>"
  have quiet: ?thesis if "rq_tables st' = ?t" using that inv by simp
  show ?thesis
  proof (cases "subject = ''''")
    case True
    then show ?thesis using run s quiet by (auto simp: Submit_def)
  next
    case ne: False
    show ?thesis
    proof (cases "rs_ListFor rs subject ?t")
      case (Inl e)
      then show ?thesis using run s ne quiet by (auto simp: Submit_def)
    next
      case (Inr xs)
      show ?thesis
      proof (cases "find req_Pending xs")
        case (Some r)
        then show ?thesis using run s ne Inr quiet by (auto simp: Submit_def)
      next
        case None
        obtain perr t where put: "rs_Put rs ?req ?t = (perr, t)" by (cases "rs_Put rs ?req ?t")
        have st': "rq_tables st' = t"
          using run s ne Inr None put by (auto simp: Submit_def Let_def split: option.splits)
        show ?thesis
        proof (cases perr)
          case (Some e)
          then have "request_at t j = request_at ?t j" for j using put_fail put by blast
          then show ?thesis using inv st' by (simp add: keyed_def one_pending_def)
        next
          case p: None
          obtain c where at: "request_at t j =
              (if j = newid then Some (?req\<lparr>req_CreatedAt := c\<rparr>) else request_at ?t j)" for j
            using put_new [of ?req ?t t] put p fresh by auto
          have free: "\<not> (req_Pending r \<and> req_Subject r = subject)" if "request_at ?t j = Some r" for j r
            using list_for_ok [OF Inr that] None by (auto simp: find_None_iff_Ball)
          have "keyed t" using inv(1) unfolding keyed_def at by simp
          moreover have "one_pending t"
            using inv(2) free unfolding one_pending_def at by (simp split: if_splits) metis
          moreover have "settled (request_at ?t j) (request_at t j)" for j
            unfolding at using fresh by (simp add: settled_def split: option.splits)
          ultimately show ?thesis by (simp add: st')
        qed
      qed
    qed
  qed
qed

lemma Approve_ok:
  assumes s: "sv_store s = Some rs" and inv: "keyed (rq_tables st)" "one_pending (rq_tables st)"
    and run: "Approve s now rid actor st = (res, st')"
  shows "keyed (rq_tables st') \<and> one_pending (rq_tables st') \<and>
    (\<forall>j. settled (request_at (rq_tables st) j) (request_at (rq_tables st') j))"
proof -
  let ?t = "rq_tables st"
  have quiet: ?thesis if "rq_tables st' = ?t" using that inv by simp
  show ?thesis
  proof (cases "rq_tables st' = ?t")
    case False
    then obtain req d perr where "pending_request rs rid ?t = Inr req"
      and put: "rs_Put rs d ?t = (perr, rq_tables st')" and d: "req_ID d = req_ID req"
      "req_Status d = RequestApproved"
      using run s
      by (auto simp: Approve_def Let_def split: option.splits sum.splits prod.splits)
    then have "request_at ?t rid = Some req" "req_Pending req" using pending_request_ok by blast+
    then show ?thesis using decide_ok [OF inv _ _ d(1) _ put] d(2) by simp
  qed (rule quiet)
qed

lemma Deny_ok:
  assumes s: "sv_store s = Some rs" and inv: "keyed (rq_tables st)" "one_pending (rq_tables st)"
    and run: "Deny s now rid note0 actor st = (res, st')"
  shows "keyed (rq_tables st') \<and> one_pending (rq_tables st') \<and>
    (\<forall>j. settled (request_at (rq_tables st) j) (request_at (rq_tables st') j))"
proof -
  let ?t = "rq_tables st"
  have quiet: ?thesis if "rq_tables st' = ?t" using that inv by simp
  show ?thesis
  proof (cases "rq_tables st' = ?t")
    case False
    then obtain req d perr where "pending_request rs rid ?t = Inr req"
      and put: "rs_Put rs d ?t = (perr, rq_tables st')" and d: "req_ID d = req_ID req"
      "req_Status d = RequestDenied"
      using run s
      by (auto simp: Deny_def Let_def split: option.splits sum.splits prod.splits)
    then have "request_at ?t rid = Some req" "req_Pending req" using pending_request_ok by blast+
    then show ?thesis using decide_ok [OF inv _ _ d(1) _ put] d(2) by simp
  qed (rule quiet)
qed

lemma step_ok:
  assumes "rstep s request_at st st'" "sv_store s = Some rs" "keyed (rq_tables st)" "one_pending (rq_tables st)"
  shows "keyed (rq_tables st') \<and> one_pending (rq_tables st') \<and>
    (\<forall>j. settled (request_at (rq_tables st) j) (request_at (rq_tables st') j))"
  using assms(1)
proof (cases rule: rstep.cases)
  case (submit newid now subject inst mods)
  then show ?thesis using Submit_ok [OF assms(2-4)] by (metis prod.collapse)
next
  case (approve now rid actor)
  then show ?thesis using Approve_ok [OF assms(2-4)] by (metis prod.collapse)
next
  case (deny now rid note0 actor)
  then show ?thesis using Deny_ok [OF assms(2-4)] by (metis prod.collapse)
next
  case (env e)
  then show ?thesis using assms(3,4) by simp
qed

lemma steps_ok:
  assumes "(rstep s request_at)\<^sup>*\<^sup>* st st'" "sv_store s = Some rs" "keyed (rq_tables st)"
    "one_pending (rq_tables st)"
  shows "keyed (rq_tables st') \<and> one_pending (rq_tables st') \<and>
    (\<forall>j. settled (request_at (rq_tables st) j) (request_at (rq_tables st') j))"
  using assms(1)
proof (induction rule: rtranclp_induct)
  case base
  then show ?case using assms(3,4) by simp
next
  case (step y z)
  then show ?case using step_ok [OF step.hyps(2) assms(2)] settled_trans by blast
qed

end

definition new_state :: "'e \<Rightarrow> ('e, Tables) ReqState" where
  "new_state e = \<lparr>rq_env = e, rq_tables = empty_tables, rq_audit = []\<rparr>"

text \<open>C3: Starting from an empty store, no sequence of submits, approvals and denials, whatever the
  database and the world creation answer, gives an account two requests waiting at once; and a
  request that was decided is never decided again or altered: neither its outcome nor what it
  asks for changes.\<close>

theorem requests_reachable:
  assumes "sv_store s = Some (sql_requests db now)"
    and "(rstep s sql_request_at)\<^sup>*\<^sup>* (new_state e) st"
    and "(rstep s sql_request_at)\<^sup>*\<^sup>* st st'"
    and "sql_request_at (rq_tables st) i = Some r"
  shows "(sql_request_at (rq_tables st) j = Some q \<longrightarrow> req_Pending r \<longrightarrow> req_Pending q \<longrightarrow>
       req_Subject r = req_Subject q \<longrightarrow> i = j) \<and>
    (\<exists>r'. sql_request_at (rq_tables st') i = Some r' \<and> req_Subject r' = req_Subject r \<and>
       req_Instance r' = req_Instance r \<and> (\<not> req_Pending r \<longrightarrow> r' = r))"
proof -
  have e: "sql.keyed empty_tables" "sql.one_pending empty_tables"
    by (simp_all add: sql.keyed_def sql.one_pending_def sql_request_at_def empty_tables_def)
  have inv: "sql.keyed (rq_tables st)" "sql.one_pending (rq_tables st)"
    using sql.steps_ok [OF assms(2,1)] e by (simp_all add: new_state_def)
  have "sql.settled (sql_request_at (rq_tables st) i) (sql_request_at (rq_tables st') i)"
    using sql.steps_ok [OF assms(3,1) inv] by blast
  then have "\<exists>r'. sql_request_at (rq_tables st') i = Some r' \<and> req_Subject r' = req_Subject r \<and>
       req_Instance r' = req_Instance r \<and> (\<not> req_Pending r \<longrightarrow> r' = r)"
    using assms(4) by (auto simp: sql.settled_def)
  then show ?thesis using inv(2) assms(4) unfolding sql.one_pending_def by blast
qed

definition sample_service :: "(nat, Tables) ReqService" where
  \<comment> \<open>the world is the number of game worlds created\<close>
  "sample_service = \<lparr>sv_store = Some (sql_requests (\<lambda>op. None) 7),
     sv_create = Some (\<lambda>n g i m actor. (Inr (i\<lparr>inst_GameID := g, Number := int n + 1\<rparr>), n + 1)),
     sv_grant = Some (\<lambda>n subject g k actor. (if subject = ''ann'' then Some (Errorf ''registry down'') else None, n)),
     sv_list = None, sv_limit = None, sv_audit = True\<rparr>"

definition sample_inst :: Instance where
  "sample_inst = zero_instance\<lparr>inst_GameID := ''valheim'', inst_Name := ''Midgard''\<rparr>"

definition sample_submitted :: "string \<Rightarrow> (nat, Tables) ReqState" where
  "sample_submitted who =
     snd (Submit sample_service ''r1'' 5 who sample_inst empty_modlist (new_state 0))"

theorem requests_reachable_witness:
  "\<exists>r'. sql_request_at (rq_tables (snd (Deny sample_service 9 ''r1'' ''no'' ''root''
       (snd (Approve sample_service 8 ''r1'' ''root'' (sample_submitted ''bob'')))))) ''r1'' = Some r' \<and>
     req_Status r' = RequestApproved"
proof -
  let ?st1 = "snd (Approve sample_service 8 ''r1'' ''root'' (sample_submitted ''bob''))"
  let ?st2 = "snd (Deny sample_service 9 ''r1'' ''no'' ''root'' ?st1)"
  have sv: "sv_store sample_service = Some (sql_requests (\<lambda>op. None) 7)"
    by (simp add: sample_service_def)
  have "rstep sample_service sql_request_at (new_state 0) (sample_submitted ''bob'')"
    unfolding sample_submitted_def by (rule rstep.submit) (simp add: new_state_def sql_request_at_def empty_tables_def)
  then have r1: "(rstep sample_service sql_request_at)\<^sup>*\<^sup>* (new_state 0) ?st1"
    using rstep.approve [of sample_service sql_request_at "sample_submitted ''bob''" 8 "''r1''" "''root''"]
    by (meson r_into_rtranclp rtranclp_trans)
  have r2: "(rstep sample_service sql_request_at)\<^sup>*\<^sup>* ?st1 ?st2"
    by (rule r_into_rtranclp) (rule rstep.deny)
  have "map_option req_Status (sql_request_at (rq_tables ?st1) ''r1'') = Some RequestApproved"
    by (simp add: sample_submitted_def sample_service_def Approve_def Submit_def new_state_def
        empty_tables_def sql_requests_def sql_request_at_def ListRequestsFor_def listRequests_def
        PutRequest_def GetRequest_def pending_request_def upsert_request_def req_Pending_def
        req_record_def Let_def sample_inst_def zero_instance_def)
  then obtain r where r: "sql_request_at (rq_tables ?st1) ''r1'' = Some r" "req_Status r = RequestApproved"
    by blast
  have "\<not> req_Pending r" using r(2) by (simp add: req_Pending_def)
  moreover obtain r' where "sql_request_at (rq_tables ?st2) ''r1'' = Some r'" "\<not> req_Pending r \<longrightarrow> r' = r"
    using conjunct2 [OF requests_reachable [OF sv r1 r2 r(1)]] by metis
  ultimately show ?thesis using r(2) by metis
qed

text \<open>Approving a waiting request creates the world for the account that asked, grants it access,
  and records the approval with the world's number; and when access cannot be granted the world
  has been created all the same and the request still waits, so that approving it again creates
  a second world.\<close>

theorem Approve_outcomes:
  assumes "sv_store s = Some (sql_requests db now)" and "sv_create s = Some create"
    and "sv_grant s = Some grant" and "db ''get request'' = None" and "db ''put request'' = None"
    and "sql_request_at (rq_tables st) i = Some req" and "req_Pending req" and "req_ID req = i"
    and "i \<noteq> ''''" and "req_Subject req \<noteq> ''''"
    and "create (rq_env st) (req_GameID req) ((req_Instance req)\<lparr>CreatedBy := req_Subject req\<rparr>)
           (req_Mods req) actor = (Inr world, e1)"
    and "grant e1 (req_Subject req) (inst_GameID world) (Number world) actor = (gerr, e2)"
  shows "(gerr = None \<longrightarrow>
      (\<exists>st' r'. Approve s later i actor st = ((Some world, None), st') \<and> rq_env st' = e2 \<and>
        sql_request_at (rq_tables st') i = Some r' \<and> req_Status r' = RequestApproved \<and>
        req_Number r' = Number world \<and> req_DecidedBy r' = actor)) \<and>
    (gerr \<noteq> None \<longrightarrow>
      (\<exists>err st'. Approve s later i actor st = ((Some world, Some err), st') \<and> rq_env st' = e2 \<and>
        sql_request_at (rq_tables st') i = Some req))"
proof -
  let ?rs = "sql_requests db now" and ?t = "rq_tables st"
  let ?req = "req\<lparr>req_Status := RequestApproved, req_DecidedAt := later, req_DecidedBy := actor,
      req_Number := Number world\<rparr>"
  have p: "pending_request ?rs i ?t = Inr req"
    using assms(4,6,7) by (simp add: pending_request_def sql_requests_def GetRequest_def sql_request_at_def)
  have put: "rs_Put ?rs ?req ?t =
      (None, ?t\<lparr>t_requests := AList.update i (decide_row ?req req) (t_requests ?t)\<rparr>)"
    using assms(5,6,8-10)
    by (simp add: sql_requests_def PutRequest_def sql_request_at_def upsert_request_def decide_row_def)
  have run: "Approve s later i actor st =
      (case gerr of
         Some g \<Rightarrow> ((Some world, Some (Wrap ''world created but access could not be granted: '' g '''')),
                   st\<lparr>rq_env := e2\<rparr>)
       | None \<Rightarrow> ((Some world, None), req_record s actor ''instance-request-approve'' (req_Label ?req)
           (st\<lparr>rq_env := e2, rq_tables := ?t\<lparr>t_requests :=
              AList.update i (decide_row ?req req) (t_requests ?t)\<rparr>\<rparr>)))"
    by (simp add: Approve_def assms(1-3,11,12) p put Let_def split: option.split)
  show ?thesis
  proof (cases gerr)
    case None
    then show ?thesis unfolding run by (simp add: sql_request_at_def map_of_update decide_row_def)
  next
    case (Some g)
    then show ?thesis unfolding run using assms(6) by simp
  qed
qed

theorem Approve_outcomes_witness:
  "\<exists>world err st1. Approve sample_service 8 ''r1'' ''root'' (sample_submitted ''ann'') =
       ((Some world, Some err), st1) \<and> rq_env st1 = 1 \<and>
     rq_env (snd (Approve sample_service 8 ''r1'' ''root'' st1)) = 2"
proof -
  let ?st = "sample_submitted ''ann''"
  have sv: "sv_store sample_service = Some (sql_requests (\<lambda>op. None) 7)"
    "sv_create sample_service = Some (\<lambda>n g i m actor. (Inr (i\<lparr>inst_GameID := g, Number := int n + 1\<rparr>), n + 1))"
    "sv_grant sample_service = Some (\<lambda>n subject g k actor.
       (if subject = ''ann'' then Some (Errorf ''registry down'') else None, n))"
    by (simp_all add: sample_service_def)
  have "map_option req_Subject (sql_request_at (rq_tables ?st) ''r1'') = Some ''ann''"
    "map_option req_ID (sql_request_at (rq_tables ?st) ''r1'') = Some ''r1''"
    "map_option req_Status (sql_request_at (rq_tables ?st) ''r1'') = Some RequestPending"
    "rq_env ?st = 0"
    by code_simp+
  then obtain r where r: "sql_request_at (rq_tables ?st) ''r1'' = Some r" "req_Subject r = ''ann''"
    "req_ID r = ''r1''" "req_Pending r" "rq_env ?st = 0"
    by (auto simp: req_Pending_def)
  let ?w = "\<lambda>n. (req_Instance r)\<lparr>CreatedBy := ''ann'', inst_GameID := req_GameID r, Number := n\<rparr>"
  have cr: "(\<lambda>n g i m actor. (Inr (i\<lparr>inst_GameID := g, Number := int n + 1\<rparr>), n + 1)) k (req_GameID r)
      ((req_Instance r)\<lparr>CreatedBy := req_Subject r\<rparr>) (req_Mods r) ''root'' =
      (Inr (?w (int k + 1)), k + 1)" for k :: nat
    using r(2) by simp
  note step = Approve_outcomes [OF sv _ _ _ r(4,3), where actor = "''root''" and later = 8 and
      gerr = "Some (Errorf ''registry down'')"]
  obtain err st1 where a: "Approve sample_service 8 ''r1'' ''root'' ?st = ((Some (?w 1), Some err), st1)"
    "rq_env st1 = 1" "sql_request_at (rq_tables st1) ''r1'' = Some r"
    using step [of ?st, where world = "?w 1" and ?e1.0 = 1 and ?e2.0 = 1] r cr [of 0] by auto
  obtain err2 st2 where
    "Approve sample_service 8 ''r1'' ''root'' st1 = ((Some (?w 2), Some err2), st2)" "rq_env st2 = 2"
    using step [of st1, where world = "?w 2" and ?e1.0 = 2 and ?e2.0 = 2] r a cr [of 1] by auto
  then show ?thesis using a by simp
qed

end
