(* ===== verification/Capacity.thy ===== *)
theory Capacity
  imports SqlStore ModLists
begin

text \<open>
  \<open>internal/app/capacity/service.go\<close>: the catalogue of sizes, the settings of a game and the gate
  on what a world may use.

  The three stores are records of operations over one table type \<open>'t\<close>; \<open>capacity_store\<close> states
  what the service relies on, and the SQL store interprets it. \<open>None\<close> is a nil store.
\<close>

record 't Tiers =
  tt_List :: "GameID \<Rightarrow> 't \<Rightarrow> goerr + Tier list"
  tt_Put :: "Tier \<Rightarrow> 't \<Rightarrow> goerr option \<times> 't"
  tt_Delete :: "GameID \<Rightarrow> string \<Rightarrow> 't \<Rightarrow> goerr option \<times> 't"

record 't SettingsStore =
  gst_Get :: "GameID \<Rightarrow> 't \<Rightarrow> goerr + GameSettings option"
  gst_Put :: "GameSettings \<Rightarrow> 't \<Rightarrow> goerr option \<times> 't"

record 't Globals =
  gl_Get :: "string \<Rightarrow> 't \<Rightarrow> goerr + (int \<times> bool)"
  gl_Set :: "string \<Rightarrow> int \<Rightarrow> 't \<Rightarrow> goerr option \<times> 't"

record 't CapService =
  cap_tiers :: "'t Tiers option"
  cap_settings :: "'t SettingsStore option"
  cap_globals :: "'t Globals option"
  cap_audit :: bool

section \<open>Operations\<close>

definition cap_record :: "'t CapService \<Rightarrow> string \<Rightarrow> string \<Rightarrow> string \<Rightarrow> Audit list" where
  "cap_record s actor action detail =
     (if \<not> cap_audit s then [] else [(if actor = '''' then ''-'' else actor, action, detail)])"

fun put_tiers :: "'t Tiers \<Rightarrow> Tier list \<Rightarrow> 't \<Rightarrow> goerr option \<times> 't" where
  "put_tiers ts [] t = (None, t)"
| "put_tiers ts (x # xs) t =
     (case tt_Put ts x t of
        (Some e, t') \<Rightarrow> (Some e, t')
      | (None, t') \<Rightarrow> put_tiers ts xs t')"

definition seed_settings ::
    "'t CapService \<Rightarrow> GameID \<Rightarrow> GameSettings \<Rightarrow> 't \<Rightarrow> goerr option \<times> 't" where
  "seed_settings s game defaults t =
     (case cap_settings s of
        None \<Rightarrow> (None, t)
      | Some ss \<Rightarrow>
          (case gst_Get ss game t of
             Inl e \<Rightarrow> (Some e, t)
           | Inr (Some _) \<Rightarrow> (None, t)
           | Inr None \<Rightarrow> gst_Put ss (defaults\<lparr>gs_GameID := game\<rparr>) t))"

definition seed_tiers :: "'t CapService \<Rightarrow> GameID \<Rightarrow> 't \<Rightarrow> goerr option \<times> 't" where
  "seed_tiers s game t =
     (case cap_tiers s of
        None \<Rightarrow> (None, t)
      | Some ts \<Rightarrow>
          (case tt_List ts game t of
             Inl e \<Rightarrow> (Some e, t)
           | Inr have_tiers \<Rightarrow> if length have_tiers > 0 then (None, t)
                      else put_tiers ts (DefaultTiersFor game) t))"

definition Seed :: "'t CapService \<Rightarrow> GameID \<Rightarrow> GameSettings \<Rightarrow> 't \<Rightarrow> goerr option \<times> 't" where
  "Seed s game defaults t =
     (case seed_settings s game defaults t of
        (Some e, t1) \<Rightarrow> (Some e, t1)
      | (None, t1) \<Rightarrow> seed_tiers s game t1)"

definition Tiers_list :: "'t CapService \<Rightarrow> GameID \<Rightarrow> 't \<Rightarrow> goerr + Tier list" where
  "Tiers_list s game t = (case cap_tiers s of None \<Rightarrow> Inr [] | Some ts \<Rightarrow> tt_List ts game t)"

definition Tier_by_key :: "'t CapService \<Rightarrow> GameID \<Rightarrow> string \<Rightarrow> 't \<Rightarrow> goerr + Tier option" where
  "Tier_by_key s game key t =
     (case Tiers_list s game t of
        Inl e \<Rightarrow> Inl e
      | Inr xs \<Rightarrow> Inr (find (\<lambda>x. tier_Key x = key) xs))"

definition cap_PutTier ::
    "'t CapService \<Rightarrow> Tier \<Rightarrow> string \<Rightarrow> 't \<Rightarrow> goerr option \<times> 't \<times> Audit list" where
  "cap_PutTier s x actor t =
     (case cap_tiers s of
        None \<Rightarrow> (Some (Errorf ''no tier store configured''), t, [])
      | Some ts \<Rightarrow>
          (case Resources_Validate (tier_Resources x) of
             Some e \<Rightarrow> (Some (Wrap (''tier '' @ tier_GameID x @ ''/'' @ tier_Key x @ '': '') e ''''), t, [])
           | None \<Rightarrow>
               (case tt_Put ts x t of
                  (Some e, t') \<Rightarrow> (Some e, t', [])
                | (None, t') \<Rightarrow> (None, t', cap_record s actor ''tier-save''
                    (tier_GameID x @ ''/'' @ tier_Key x @ '' -> '' @ show_int (MemRequestGiB (tier_Resources x))
                     @ ''/'' @ show_int (MemLimitGiB (tier_Resources x)) @ '' GiB'')))))"

definition cap_DeleteTier ::
    "'t CapService \<Rightarrow> GameID \<Rightarrow> string \<Rightarrow> string \<Rightarrow> 't \<Rightarrow> goerr option \<times> 't \<times> Audit list" where
  "cap_DeleteTier s game key actor t =
     (case cap_tiers s of
        None \<Rightarrow> (Some (Errorf ''no tier store configured''), t, [])
      | Some ts \<Rightarrow>
          (case tt_Delete ts game key t of
             (Some e, t') \<Rightarrow> (Some e, t', [])
           | (None, t') \<Rightarrow> (None, t', cap_record s actor ''tier-delete'' (game @ ''/'' @ key))))"

definition cap_Settings :: "'t CapService \<Rightarrow> GameID \<Rightarrow> 't \<Rightarrow> goerr + GameSettings" where
  \<comment> \<open>the zero settings that come with an error are not used by any caller\<close>
  "cap_Settings s game t =
     (let zero = \<lparr>gs_GameID = game, gs_TotalBudgetGiB = 0, gs_MaxInstances = 0, gs_MaxRunning = 0,
                  gs_Ceiling = zero_resources\<rparr>
      in case cap_settings s of
           None \<Rightarrow> Inr zero
         | Some ss \<Rightarrow>
             (case gst_Get ss game t of
                Inl e \<Rightarrow> Inl e
              | Inr None \<Rightarrow> Inr zero
              | Inr (Some g) \<Rightarrow> Inr g))"

definition cap_PutSettings ::
    "'t CapService \<Rightarrow> GameSettings \<Rightarrow> string \<Rightarrow> 't \<Rightarrow> goerr option \<times> 't \<times> Audit list" where
  "cap_PutSettings s g actor t =
     (case cap_settings s of
        None \<Rightarrow> (Some (Errorf ''no settings store configured''), t, [])
      | Some ss \<Rightarrow>
          (case gst_Put ss g t of
             (Some e, t') \<Rightarrow> (Some e, t', [])
           | (None, t') \<Rightarrow> (None, t', cap_record s actor ''game-settings-save''
               (gs_GameID g @ '' budget='' @ show_int (gs_TotalBudgetGiB g) @ '' max='' @
                show_int (gs_MaxInstances g) @ '' running='' @ show_int (gs_MaxRunning g) @
                '' ceiling='' @ show_int (MemLimitGiB (gs_Ceiling g))))))"

definition CheckResources ::
    "'t CapService \<Rightarrow> GameID \<Rightarrow> Resources \<Rightarrow> bool \<Rightarrow> 't \<Rightarrow> goerr option" where
  "CheckResources s game r isAdmin t =
     (case Resources_Validate r of
        Some e \<Rightarrow> Some e
      | None \<Rightarrow>
          if isAdmin then None
          else (case cap_Settings s game t of
                  Inl e \<Rightarrow> Some e
                | Inr g \<Rightarrow>
                    (case GameSettings_Allows g r of
                       Some e \<Rightarrow> Some (Wrap '''' (Sentinel ErrAboveCeiling) ('': '' @ err_text e))
                     | None \<Rightarrow> None)))"

definition FreeCreationsKey :: string where "FreeCreationsKey = ''free_creations''"
definition DefaultFreeCreations :: int where "DefaultFreeCreations = 1"

definition cap_FreeCreations :: "'t CapService \<Rightarrow> 't \<Rightarrow> int" where
  "cap_FreeCreations s t =
     (case cap_globals s of
        None \<Rightarrow> DefaultFreeCreations
      | Some gl \<Rightarrow>
          (case gl_Get gl FreeCreationsKey t of
             Inl e \<Rightarrow> DefaultFreeCreations
           | Inr (n, ok) \<Rightarrow> if \<not> ok \<or> n < 0 then DefaultFreeCreations else n))"

definition SetFreeCreations ::
    "'t CapService \<Rightarrow> int \<Rightarrow> string \<Rightarrow> 't \<Rightarrow> goerr option \<times> 't \<times> Audit list" where
  "SetFreeCreations s n actor t =
     (case cap_globals s of
        None \<Rightarrow> (Some (Errorf ''no global settings store configured''), t, [])
      | Some gl \<Rightarrow>
          if n < 0 then (Some (Errorf (''creation allowance cannot be negative, got '' @ show_int n)), t, [])
          else (case gl_Set gl FreeCreationsKey n t of
                  (Some e, t') \<Rightarrow> (Some e, t', [])
                | (None, t') \<Rightarrow> (None, t', cap_record s actor ''free-creations-set'' (show_int n))))"

section \<open>The stores behind it\<close>

definition sql_tiers :: "Db \<Rightarrow> Tables Tiers" where
  "sql_tiers db = \<lparr>tt_List = ListTiers db, tt_Put = PutTier db, tt_Delete = DeleteTier db\<rparr>"

definition sql_settings :: "Db \<Rightarrow> Tables SettingsStore" where
  "sql_settings db = \<lparr>gst_Get = GetGameSettings db, gst_Put = PutGameSettings db\<rparr>"

definition sql_globals :: "Db \<Rightarrow> Tables Globals" where
  "sql_globals db = \<lparr>gl_Get = GetGlobalInt db, gl_Set = SetGlobalInt db\<rparr>"

definition sql_capacity :: "Db \<Rightarrow> Tables CapService" where
  "sql_capacity db = \<lparr>cap_tiers = Some (sql_tiers db), cap_settings = Some (sql_settings db),
     cap_globals = Some (sql_globals db), cap_audit = True\<rparr>"

text \<open>The contract of the settings store: a save that succeeds is what is read next, up to a stored
  form \<open>kept\<close>, and saves of one game do not touch another.\<close>

locale settings_store =
  fixes ss :: "'t SettingsStore"
    and kept :: "GameSettings \<Rightarrow> GameSettings"
  assumes put_get: "gst_Put ss g t = (None, t') \<Longrightarrow> gst_Get ss (gs_GameID g) t' = Inr got \<Longrightarrow> got = Some (kept g)"
    and put_get_other: "gst_Put ss g t = (None, t') \<Longrightarrow> h \<noteq> gs_GameID g \<Longrightarrow> gst_Get ss h t' = gst_Get ss h t"
begin

lemma check_after_put:
  assumes "cap_settings s = Some ss" "gst_Put ss g t = (None, t')"
    and "CheckResources s (gs_GameID g) r False t' = None"
  shows "Resources_Validate r = None \<and> Resources_Fits r (gs_Ceiling (kept g))"
proof -
  have v: "Resources_Validate r = None"
    using assms(3) by (simp add: CheckResources_def split: option.splits)
  obtain got where got: "gst_Get ss (gs_GameID g) t' = Inr got"
    using assms(1,3) v by (cases "gst_Get ss (gs_GameID g) t'") (auto simp: CheckResources_def cap_Settings_def)
  then have "got = Some (kept g)" using put_get assms(2) by blast
  then have "GameSettings_Allows (kept g) r = None"
    using assms(1,3) v got by (simp add: CheckResources_def cap_Settings_def split: option.splits)
  then show ?thesis using v by (simp add: GameSettings_Allows_def split: if_splits)
qed

end

interpretation sql: settings_store "sql_settings db" settings_row for db
  by unfold_locales
    (auto simp: sql_settings_def PutGameSettings_def GetGameSettings_def map_of_update
      split: if_splits option.splits)

section \<open>Properties\<close>

text \<open>The gate on sizes: what an administrator asks for only has to be well formed; anybody
  else's request passes exactly when it is well formed and fits the game's ceiling, and is
  otherwise refused as above the ceiling.\<close>

theorem CheckResources_exact:
  assumes "cap_Settings s game t = Inr g"
  shows "(CheckResources s game r True t = None \<longleftrightarrow> Resources_Validate r = None) \<and>
    (CheckResources s game r False t = None \<longleftrightarrow>
       Resources_Validate r = None \<and> Resources_Fits r (gs_Ceiling g)) \<and>
    (Resources_Validate r = None \<and> \<not> Resources_Fits r (gs_Ceiling g) \<longrightarrow>
       (\<exists>e. CheckResources s game r False t = Some e \<and> errors_is e ErrAboveCeiling))"
  using assms by (auto simp: CheckResources_def GameSettings_Allows_def split: option.splits)

definition small_settings :: GameSettings where
  "small_settings = \<lparr>gs_GameID = ''valheim'', gs_TotalBudgetGiB = 32, gs_MaxInstances = 4,
     gs_MaxRunning = 2, gs_Ceiling = \<lparr>MemRequestGiB = 4, MemLimitGiB = 8, CPURequestMilli = 1000,
     CPULimitMilli = 2000\<rparr>\<rparr>"

theorem CheckResources_exact_witness:
  "\<exists>e. CheckResources (sql_capacity (\<lambda>op. None)) ''valheim'' (mem_resources 6 12) False
     (snd (PutGameSettings (\<lambda>op. None) small_settings empty_tables)) = Some e \<and>
     errors_is e ErrAboveCeiling"
proof -
  let ?t = "snd (PutGameSettings (\<lambda>op. None) small_settings empty_tables)"
  let ?c = "sql_capacity (\<lambda>op. None)" and ?g = "settings_row small_settings"
  have s: "cap_Settings ?c ''valheim'' ?t = Inr ?g"
    by (simp add: cap_Settings_def sql_capacity_def sql_settings_def GetGameSettings_def
        PutGameSettings_def small_settings_def settings_row_def zero_resources_def empty_tables_def)
  have v: "Resources_Validate (mem_resources 6 12) = None" by code_simp
  have "\<not> Resources_Fits (mem_resources 6 12) (gs_Ceiling ?g)" by code_simp
  then show ?thesis using CheckResources_exact [OF s, of "mem_resources 6 12"] v by (simp only: simp_thms)
qed

text \<open>Once a ceiling is saved nobody but an administrator gets past its memory limit or its CPU
  limit; but the ceiling's memory and CPU requests are not stored, and a request that sets no CPU
  limit is never refused for CPU.\<close>

theorem ceiling_holds:
  assumes "cap_PutSettings (sql_capacity db) g actor t = (None, t', log)"
    and "CheckResources (sql_capacity db) (gs_GameID g) r False t' = None"
  shows "(MemLimitGiB (gs_Ceiling g) > 0 \<longrightarrow> MemLimitGiB r \<le> MemLimitGiB (gs_Ceiling g)) \<and>
    (CPULimitMilli (gs_Ceiling g) > 0 \<longrightarrow> CPULimitMilli r \<le> CPULimitMilli (gs_Ceiling g)) \<and>
    (\<forall>q. CheckResources (sql_capacity db) (gs_GameID g)
           (r\<lparr>CPURequestMilli := \<bar>q\<bar>, CPULimitMilli := 0\<rparr>) False t' = None)"
proof -
  have put: "gst_Put (sql_settings db) g t = (None, t')" and s: "cap_settings (sql_capacity db) = Some (sql_settings db)"
    using assms(1) by (auto simp: cap_PutSettings_def sql_capacity_def split: prod.splits option.splits)
  have ok: "Resources_Validate r = None" "Resources_Fits r (gs_Ceiling (settings_row g))"
    using sql.check_after_put [OF s put assms(2)] by blast+
  have get: "gst_Get (sql_settings db) (gs_GameID g) t' = Inr (Some (settings_row g))"
    using assms(2) s ok(1) sql.put_get [OF put]
    by (cases "gst_Get (sql_settings db) (gs_GameID g) t'") (auto simp: CheckResources_def cap_Settings_def)
  have free: "Resources_Validate (r\<lparr>CPURequestMilli := \<bar>q\<bar>, CPULimitMilli := 0\<rparr>) = None" for q
    using ok(1) by (simp add: Resources_Validate_def split: if_splits)
  have fits: "Resources_Fits (r\<lparr>CPURequestMilli := \<bar>q\<bar>, CPULimitMilli := 0\<rparr>) (gs_Ceiling (settings_row g))" for q
    using ok(2) by (simp add: Resources_Fits_def settings_row_def zero_resources_def split: if_splits)
  have "CheckResources (sql_capacity db) (gs_GameID g)
      (r\<lparr>CPURequestMilli := \<bar>q\<bar>, CPULimitMilli := 0\<rparr>) False t' = None" for q
    using free fits s get by (simp add: CheckResources_def cap_Settings_def GameSettings_Allows_def)
  then show ?thesis
    using ok(2) by (auto simp: Resources_Fits_def settings_row_def zero_resources_def split: if_splits)
qed

theorem ceiling_holds_witness:
  "CheckResources (sql_capacity (\<lambda>op. None)) ''valheim''
     \<lparr>MemRequestGiB = 4, MemLimitGiB = 8, CPURequestMilli = 64000, CPULimitMilli = 0\<rparr> False
     (fst (snd (cap_PutSettings (sql_capacity (\<lambda>op. None)) small_settings ''root'' empty_tables))) = None"
proof -
  let ?c = "sql_capacity (\<lambda>op. None)" and ?r = "\<lparr>MemRequestGiB = 4, MemLimitGiB = 8, CPURequestMilli = 500, CPULimitMilli = 1000\<rparr>"
  let ?p = "cap_PutSettings ?c small_settings ''root'' empty_tables"
  have g: "gs_GameID small_settings = ''valheim''" by (simp add: small_settings_def)
  have "fst ?p = None" by code_simp
  then obtain t' log where p: "?p = (None, t', log)" by (metis prod.collapse)
  have "CheckResources ?c ''valheim'' ?r False (fst (snd ?p)) = None" by code_simp
  then have "CheckResources ?c ''valheim'' (?r\<lparr>CPURequestMilli := \<bar>64000\<bar>, CPULimitMilli := 0\<rparr>) False t' = None"
    using ceiling_holds [OF p] unfolding g by (simp only: p fst_conv snd_conv)
  then show ?thesis by (simp add: p)
qed

lemma GetGameSettings_put:
  "PutTier db x t = (e, t') \<Longrightarrow> t_settings t' = t_settings t"
  by (auto simp: PutTier_def split: if_splits option.splits)

lemma put_tiers_settings: "t_settings (snd (put_tiers (sql_tiers db) xs t)) = t_settings t"
proof (induction xs arbitrary: t)
  case (Cons x xs)
  obtain e t' where p: "PutTier db x t = (e, t')" by (cases "PutTier db x t")
  then show ?case
    using Cons GetGameSettings_put [OF p] by (simp add: sql_tiers_def split: option.splits)
qed simp

text \<open>Seeding a game never overwrites what an operator has saved: existing settings and an
  existing catalogue come out of it exactly as they went in.\<close>

theorem Seed_preserves:
  assumes "Seed (sql_capacity db) game defaults t = (e, t')"
  shows "(\<forall>h g. map_of (t_settings t) h = Some g \<longrightarrow> map_of (t_settings t') h = Some g) \<and>
    ((\<exists>x. x \<in> set (t_tiers t) \<and> fst (fst x) = game) \<longrightarrow> t_tiers t' = t_tiers t)"
proof -
  obtain e1 t1 where s1: "seed_settings (sql_capacity db) game defaults t = (e1, t1)"
    by (cases "seed_settings (sql_capacity db) game defaults t")
  have a: "t_tiers t1 = t_tiers t" and b: "\<forall>h g. map_of (t_settings t) h = Some g \<longrightarrow> map_of (t_settings t1) h = Some g"
    using s1 by (auto simp: seed_settings_def sql_capacity_def sql_settings_def GetGameSettings_def
        PutGameSettings_def map_of_update split: option.splits sum.splits if_splits)
  show ?thesis
  proof (cases e1)
    case (Some x)
    then show ?thesis using assms s1 a b by (simp add: Seed_def)
  next
    case None
    then have s2: "seed_tiers (sql_capacity db) game t1 = (e, t')" using assms s1 by (simp add: Seed_def)
    have "t_settings t' = t_settings t1"
      using s2 put_tiers_settings [of db "DefaultTiersFor game" t1]
      by (auto simp: seed_tiers_def sql_capacity_def split: sum.splits if_splits option.splits)
    moreover have "t_tiers t' = t_tiers t" if "x \<in> set (t_tiers t)" "fst (fst x) = game" for x
    proof -
      have ne: "filter (\<lambda>kv. fst (fst kv) = game) (t_tiers t) \<noteq> []" using that by (auto simp: filter_empty_conv)
      show ?thesis
      proof (cases "db ''list tiers''")
        case n: None
        then have "tt_List (sql_tiers db) game t1 = Inr (sort_key (\<lambda>x. (tier_SortOrder x, tier_Key x))
            (map snd (filter (\<lambda>kv. fst (fst kv) = game) (t_tiers t))))"
          using a by (simp add: sql_tiers_def ListTiers_def)
        then show ?thesis using s2 ne a by (simp add: seed_tiers_def sql_capacity_def split: if_splits)
      next
        case (Some err)
        then show ?thesis
          using s2 a by (simp add: seed_tiers_def sql_capacity_def sql_tiers_def ListTiers_def)
      qed
    qed
    ultimately show ?thesis using b by auto
  qed
qed

theorem Seed_preserves_witness:
  "map_of (t_settings (snd (Seed (sql_capacity (\<lambda>op. None)) ''valheim''
      (small_settings\<lparr>gs_MaxRunning := 9\<rparr>)
      (snd (PutGameSettings (\<lambda>op. None) small_settings empty_tables))))) ''valheim'' =
   Some (settings_row small_settings)"
proof -
  let ?t = "snd (PutGameSettings (\<lambda>op. None) small_settings empty_tables)"
  have "map_of (t_settings ?t) ''valheim'' = Some (settings_row small_settings)" by code_simp
  then show ?thesis
    using Seed_preserves [of "\<lambda>op. None" "''valheim''" "small_settings\<lparr>gs_MaxRunning := 9\<rparr>" ?t]
    by (metis prod.collapse)
qed

end
