(* ===== verification/Authz.thy ===== *)
theory Authz
  imports SqlStore ModLists
begin

text \<open>
  \<open>internal/app/authz/service.go\<close>: granting and revoking the roles that let an account operate an
  Instance.

  Three parties keep state: the accounts and the sessions (tables, type \<open>'t\<close>) and the role
  registry of the identity provider (type \<open>'g\<close>, a parameter: the Zitadel client is outside the
  model). \<open>session_roles\<close> is what the service relies on from the session store; the SQL store
  interprets it. \<open>None\<close> is a nil field; the log of errors is not kept.
\<close>

record 'g Registry =
  rg_Add :: "Role \<Rightarrow> string \<Rightarrow> 'g \<Rightarrow> goerr option \<times> 'g"
  rg_Remove :: "Role \<Rightarrow> 'g \<Rightarrow> goerr option \<times> 'g"
  rg_Grant :: "string \<Rightarrow> Role \<Rightarrow> 'g \<Rightarrow> goerr option \<times> 'g"
  rg_Revoke :: "string \<Rightarrow> Role \<Rightarrow> 'g \<Rightarrow> goerr option \<times> 'g"
  rg_RolesFor :: "string \<Rightarrow> 'g \<Rightarrow> goerr + Role list"

record 't Sessions =
  ss_Add :: "string \<Rightarrow> Role \<Rightarrow> 't \<Rightarrow> goerr option \<times> 't"
  ss_Remove :: "string \<Rightarrow> Role \<Rightarrow> 't \<Rightarrow> goerr option \<times> 't"
  ss_RemoveEverywhere :: "Role \<Rightarrow> 't \<Rightarrow> goerr option \<times> 't"
  ss_DeleteFor :: "string \<Rightarrow> 't \<Rightarrow> goerr option \<times> 't"
  ss_Purge :: "'t \<Rightarrow> (goerr + nat) \<times> 't"

record ('g, 't) AuthzService =
  az_accounts :: "(string \<Rightarrow> 't \<Rightarrow> goerr + Account option) option"
  az_sessions :: "'t Sessions option"
  az_registry :: "'g Registry option"
  az_owners :: "(string \<Rightarrow> 't \<Rightarrow> goerr + InstanceID list) option"
  az_audit :: bool

record ('g, 't) AuthzState =
  as_registry :: 'g
  as_tables :: 't
  as_audit :: "Audit list"

section \<open>Operations\<close>

definition HasRegistry :: "('g, 't) AuthzService \<Rightarrow> bool" where
  "HasRegistry s = (az_registry s \<noteq> None)"

definition az_record ::
    "('g, 't) AuthzService \<Rightarrow> string \<Rightarrow> string \<Rightarrow> string \<Rightarrow> ('g, 't) AuthzState \<Rightarrow> ('g, 't) AuthzState" where
  "az_record s actor action detail st =
     (if \<not> az_audit s then st
      else st\<lparr>as_audit := as_audit st @ [(if actor = '''' then ''-'' else actor, action, detail)]\<rparr>)"

definition sign_in_account :: "Time \<Rightarrow> Identity \<Rightarrow> Account" where
  \<comment> \<open>the account \<open>RecordSignIn\<close> upserts\<close>
  "sign_in_account now i = \<lparr>acc_Subject = id_Subject i, acc_Email = id_Email i, acc_Name = id_Name i,
     acc_Username = id_Username i, acc_FirstSeen = now, acc_LastSeen = now\<rparr>"

definition RecordSignIn ::
    "(Account \<Rightarrow> 't \<Rightarrow> goerr option \<times> 't) option \<Rightarrow> Time \<Rightarrow> Identity \<Rightarrow> 't \<Rightarrow> goerr option \<times> 't" where
  "RecordSignIn upsert now i t =
     (case upsert of
        None \<Rightarrow> (None, t)
      | Some up \<Rightarrow> if id_Subject i = '''' then (Some (Errorf ''record sign-in: empty subject''), t)
                   else up (sign_in_account now i) t)"

definition requireAccount :: "('g, 't) AuthzService \<Rightarrow> string \<Rightarrow> 't \<Rightarrow> goerr option" where
  "requireAccount s subject t =
     (case az_accounts s of
        None \<Rightarrow> Some (Sentinel ErrNoAccount)
      | Some acc \<Rightarrow>
          (case acc subject t of
             Inl e \<Rightarrow> Some e
           | Inr None \<Rightarrow> Some (Sentinel ErrNoAccount)
           | Inr (Some _) \<Rightarrow> None))"

definition RolesFor :: "('g, 't) AuthzService \<Rightarrow> string \<Rightarrow> 'g \<Rightarrow> goerr + Role list" where
  "RolesFor s subject g = (case az_registry s of None \<Rightarrow> Inr [] | Some rg \<Rightarrow> rg_RolesFor rg subject g)"

definition subjectLabel :: "('g, 't) AuthzService \<Rightarrow> string \<Rightarrow> 't \<Rightarrow> string" where
  "subjectLabel s subject t =
     (case az_accounts s of
        None \<Rightarrow> subject
      | Some acc \<Rightarrow>
          if subject = '''' then subject
          else (case acc subject t of
                  Inr (Some a) \<Rightarrow> Account_Label a
                | _ \<Rightarrow> subject))"

definition grantDetail :: "('g, 't) AuthzService \<Rightarrow> GameID \<Rightarrow> int \<Rightarrow> string \<Rightarrow> 't \<Rightarrow> string" where
  "grantDetail s game n subject t =
     game @ '' #'' @ pad02 n @ '' -> '' @ subjectLabel s subject t"

definition Authz_Grant ::
    "('g, 't) AuthzService \<Rightarrow> string \<Rightarrow> GameID \<Rightarrow> int \<Rightarrow> string \<Rightarrow> ('g, 't) AuthzState \<Rightarrow>
     goerr option \<times> ('g, 't) AuthzState" where
  "Authz_Grant s subject game n actor st =
     (case az_registry s of
        None \<Rightarrow> (Some (Errorf ''grant: no role registry configured''), st)
      | Some rg \<Rightarrow>
          (case requireAccount s subject (as_tables st) of
             Some e \<Rightarrow> (Some e, st)
           | None \<Rightarrow>
               (let role = InstanceRole game n
                in case rg_Grant rg subject role (as_registry st) of
                     (Some e, g) \<Rightarrow>
                       (Some (Wrap (''grant '' @ role @ '' to '' @ subject @ '': '') e ''''),
                        st\<lparr>as_registry := g\<rparr>)
                   | (None, g) \<Rightarrow>
                       (let t = (case az_sessions s of
                              None \<Rightarrow> as_tables st
                            | Some ss \<Rightarrow> snd (ss_Add ss subject role (as_tables st)))
                        in (None, az_record s actor ''grant'' (grantDetail s game n subject t)
                              (st\<lparr>as_registry := g, as_tables := t\<rparr>))))))"

definition Authz_Revoke ::
    "('g, 't) AuthzService \<Rightarrow> string \<Rightarrow> GameID \<Rightarrow> int \<Rightarrow> string \<Rightarrow> ('g, 't) AuthzState \<Rightarrow>
     goerr option \<times> ('g, 't) AuthzState" where
  "Authz_Revoke s subject game n actor st =
     (case az_registry s of
        None \<Rightarrow> (Some (Errorf ''revoke: no role registry configured''), st)
      | Some rg \<Rightarrow>
          (let role = InstanceRole game n
           in case rg_Revoke rg subject role (as_registry st) of
                (Some e, g) \<Rightarrow>
                  (Some (Wrap (''revoke '' @ role @ '' from '' @ subject @ '': '') e ''''),
                   st\<lparr>as_registry := g\<rparr>)
              | (None, g) \<Rightarrow>
                  (let (serr, t) = (case az_sessions s of
                         None \<Rightarrow> (None, as_tables st)
                       | Some ss \<Rightarrow> ss_Remove ss subject role (as_tables st))
                   in case serr of
                        Some e \<Rightarrow>
                          (Some (Wrap (''revoke '' @ role @ '' from '' @ subject @
                             '': role removed in the registry but still live in the session: '') e ''''),
                           st\<lparr>as_registry := g, as_tables := t\<rparr>)
                      | None \<Rightarrow>
                          (None, az_record s actor ''revoke'' (grantDetail s game n subject t)
                             (st\<lparr>as_registry := g, as_tables := t\<rparr>)))))"

definition RevokeSessions ::
    "('g, 't) AuthzService \<Rightarrow> string \<Rightarrow> string \<Rightarrow> ('g, 't) AuthzState \<Rightarrow>
     goerr option \<times> ('g, 't) AuthzState" where
  "RevokeSessions s subject actor st =
     (case az_sessions s of
        None \<Rightarrow> (None, st)
      | Some ss \<Rightarrow>
          (case ss_DeleteFor ss subject (as_tables st) of
             (Some e, t) \<Rightarrow> (Some e, st\<lparr>as_tables := t\<rparr>)
           | (None, t) \<Rightarrow> (None, az_record s actor ''revoke-sessions'' (subjectLabel s subject t)
                                   (st\<lparr>as_tables := t\<rparr>))))"

definition EnsureInstanceRole ::
    "('g, 't) AuthzService \<Rightarrow> Instance \<Rightarrow> 'g \<Rightarrow> goerr option \<times> 'g" where
  "EnsureInstanceRole s inst g =
     (case az_registry s of
        None \<Rightarrow> (None, g)
      | Some rg \<Rightarrow>
          rg_Add rg (InstanceRole (inst_GameID inst) (Number inst))
            (inst_GameID inst @ '' '' @ pad02 (Number inst) @ '' - '' @ inst_Name inst) g)"

definition RetireInstanceRole ::
    "('g, 't) AuthzService \<Rightarrow> Instance \<Rightarrow> 'g \<Rightarrow> goerr option \<times> 'g" where
  "RetireInstanceRole s inst g =
     (case az_registry s of
        None \<Rightarrow> (None, g)
      | Some rg \<Rightarrow> rg_Remove rg (InstanceRole (inst_GameID inst) (Number inst)) g)"

definition Authz_Purge :: "('g, 't) AuthzService \<Rightarrow> 't \<Rightarrow> (goerr + nat) \<times> 't" where
  "Authz_Purge s t = (case az_sessions s of None \<Rightarrow> (Inr 0, t) | Some ss \<Rightarrow> ss_Purge ss t)"

fun reconcile_roles ::
    "('g, 't) AuthzService \<Rightarrow> Instance list \<Rightarrow> nat \<Rightarrow> nat \<Rightarrow> 'g \<Rightarrow> (nat \<times> nat) \<times> 'g" where
  "reconcile_roles s [] created failed g = ((created, failed), g)"
| "reconcile_roles s (inst # insts) created failed g =
     (case EnsureInstanceRole s inst g of
        (None, g') \<Rightarrow> reconcile_roles s insts (created + 1) failed g'
      | (Some e, g') \<Rightarrow>
          if errors_is e ErrRoleExists then reconcile_roles s insts created failed g'
          else reconcile_roles s insts created (failed + 1) g')"

definition ReconcileInstanceRoles ::
    "('g, 't) AuthzService \<Rightarrow> Instance list \<Rightarrow> 'g \<Rightarrow> (nat \<times> nat) \<times> 'g" where
  "ReconcileInstanceRoles s insts g =
     (if \<not> HasRegistry s then ((0, 0), g) else reconcile_roles s insts 0 0 g)"

definition OwnedBy :: "('g, 't) AuthzService \<Rightarrow> string \<Rightarrow> 't \<Rightarrow> goerr + InstanceID list" where
  "OwnedBy s subject t =
     (case az_owners s of
        None \<Rightarrow> Inr []
      | Some owned \<Rightarrow> if subject = '''' then Inr [] else owned subject t)"

definition RetireInstanceRoleFromSessions ::
    "('g, 't) AuthzService \<Rightarrow> GameID \<Rightarrow> int \<Rightarrow> 't \<Rightarrow> goerr option \<times> 't" where
  "RetireInstanceRoleFromSessions s game n t =
     (case az_sessions s of
        None \<Rightarrow> (None, t)
      | Some ss \<Rightarrow> ss_RemoveEverywhere ss (InstanceRole game n) t)"

section \<open>The session store's contract\<close>

text \<open>\<open>live t i\<close> is the session that a request with session id \<open>i\<close> is served under, if any. A role
  taken from a subject is gone from every live session of it, one given is in all of them, and
  nothing else about any session changes.\<close>

locale session_roles =
  fixes ss :: "'t Sessions"
    and live :: "'t \<Rightarrow> string \<Rightarrow> Session option"
    and plain_role :: "Role \<Rightarrow> bool"
  assumes remove_live: "ss_Remove ss subject role t = (None, t') \<Longrightarrow> subject \<noteq> '''' \<Longrightarrow> role \<noteq> '''' \<Longrightarrow>
      live t' i = map_option (\<lambda>x. if ses_Subject x = subject
        then x\<lparr>ses_Roles := filter (\<lambda>r. r \<noteq> role) (ses_Roles x)\<rparr> else x) (live t i)"
    and add_live: "ss_Add ss subject role t = (None, t') \<Longrightarrow> subject \<noteq> '''' \<Longrightarrow> plain_role role \<Longrightarrow>
      live t' i = map_option (\<lambda>x. if ses_Subject x = subject \<and> role \<notin> set (ses_Roles x)
        then x\<lparr>ses_Roles := ses_Roles x @ [role]\<rparr> else x) (live t i)"
begin

lemma revoke_live:
  assumes "az_sessions s = Some ss" "Authz_Revoke s subject game n actor st = (None, st')" "subject \<noteq> ''''"
    and "InstanceRole game n \<noteq> ''''"
  shows "live (as_tables st') i = map_option (\<lambda>x. if ses_Subject x = subject
        then x\<lparr>ses_Roles := filter (\<lambda>r. r \<noteq> InstanceRole game n) (ses_Roles x)\<rparr> else x)
      (live (as_tables st) i)"
proof -
  obtain t where "ss_Remove ss subject (InstanceRole game n) (as_tables st) = (None, t)"
    and "as_tables st' = t"
    using assms(1,2) by (auto simp: Authz_Revoke_def Let_def az_record_def
        split: option.splits prod.splits if_splits)
  then show ?thesis using remove_live assms(3,4) by blast
qed

end

lemma InstanceRole_not_empty [simp]: "InstanceRole g n \<noteq> ''''"
  by (simp add: InstanceRole_def rolePrefix_def)

definition sql_sessions :: "Db \<Rightarrow> Time \<Rightarrow> Tables Sessions" where
  "sql_sessions db now = \<lparr>ss_Add = AddSessionRole db now, ss_Remove = RemoveSessionRole db now,
     ss_RemoveEverywhere = RemoveSessionRoleEverywhere db now, ss_DeleteFor = DeleteSessionsFor db,
     ss_Purge = PurgeExpiredSessions db now\<rparr>"

definition sql_live :: "Time \<Rightarrow> Tables \<Rightarrow> string \<Rightarrow> Session option" where
  \<comment> \<open>what \<open>LoadSession\<close> returns when the database answers\<close>
  "sql_live now t i = (case LoadSession (\<lambda>op. None) now i t of Inr s \<Rightarrow> s | Inl e \<Rightarrow> None)"

definition one_word :: "Role \<Rightarrow> bool" where
  "one_word r = (r \<noteq> '''' \<and> list_all (\<lambda>c. \<not> is_space c) r)"

lemma one_word_trim: "one_word r \<Longrightarrow> trim_space r = r"
  by (cases r) (auto simp: one_word_def trimmed_def list_all_iff)

lemma decode_encode: "\<forall>r\<in>set rs. one_word r \<Longrightarrow> decodeRoles (encodeRoles rs) = rs"
proof -
  assume a: "\<forall>r\<in>set rs. one_word r"
  then have "map trim_space rs = rs" by (simp add: map_idI one_word_trim)
  moreover have "filter (\<lambda>s. s \<noteq> '''') rs = rs" using a by (auto simp: filter_id_conv one_word_def)
  ultimately show ?thesis
    using a fields_join_space [of rs] by (simp add: decodeRoles_def encodeRoles_def one_word_def list_all_iff)
qed

lemma decode_words: "r \<in> set (decodeRoles s) \<Longrightarrow> one_word r"
  using fields_items by (simp add: decodeRoles_def one_word_def list_all_iff)

lemma live_mutate:
  assumes "mutateSessionRoles db now subject f t = (None, t')"
    and "\<And>rs. \<forall>r\<in>set rs. one_word r \<Longrightarrow> \<forall>r\<in>set (f rs). one_word r"
  shows "sql_live now t' i = map_option (\<lambda>x. if subject = '''' \<or> ses_Subject x = subject
      then x\<lparr>ses_Roles := f (ses_Roles x)\<rparr> else x) (sql_live now t i)"
proof -
  have t': "t_sessions t' = map (\<lambda>(k, r). (k, mutate_row now subject f r)) (t_sessions t)"
    using assms(1) by (auto simp: mutateSessionRoles_def map_rows_def Let_def split: option.splits if_splits)
  have get: "map_of (t_sessions t') i = map_option (mutate_row now subject f) (map_of (t_sessions t) i)"
    unfolding t' by (induction "t_sessions t") (auto simp: map_of_map comp_def map_option_case)
  have dec: "decodeRoles (encodeRoles (f (decodeRoles x))) = f (decodeRoles x)" for x
    using decode_encode assms(2) decode_words by blast
  show ?thesis
    using get dec
    by (auto simp: sql_live_def LoadSession_def mutate_row_def split: option.splits)
qed

interpretation sql: session_roles "sql_sessions db now" "sql_live now" one_word for db now
proof unfold_locales
  fix subject role t t' i
  assume "ss_Remove (sql_sessions db now) subject role t = (None, t')" "subject \<noteq> ''''" "role \<noteq> ''''"
  then have "mutateSessionRoles db now subject (filter (\<lambda>r. r \<noteq> role)) t = (None, t')" "subject \<noteq> ''''"
    by (auto simp: sql_sessions_def RemoveSessionRole_def)
  then show "sql_live now t' i = map_option (\<lambda>x. if ses_Subject x = subject
        then x\<lparr>ses_Roles := filter (\<lambda>r. r \<noteq> role) (ses_Roles x)\<rparr> else x) (sql_live now t i)"
    using live_mutate [of db now subject "filter (\<lambda>r. r \<noteq> role)" t t' i] by simp
next
  fix subject i :: string and role :: Role and t t' :: Tables
  let ?f = "\<lambda>roles. if role \<in> set roles then roles else roles @ [role]"
  assume "ss_Add (sql_sessions db now) subject role t = (None, t')" "subject \<noteq> ''''" and r: "one_word role"
  then have "mutateSessionRoles db now subject ?f t = (None, t')" "subject \<noteq> ''''"
    by (auto simp: sql_sessions_def AddSessionRole_def one_word_def)
  then have "sql_live now t' i = map_option (\<lambda>x. if subject = '''' \<or> ses_Subject x = subject
      then x\<lparr>ses_Roles := ?f (ses_Roles x)\<rparr> else x) (sql_live now t i)"
    using live_mutate [of db now subject ?f t t' i] r by simp
  then show "sql_live now t' i = map_option (\<lambda>x. if ses_Subject x = subject \<and> role \<notin> set (ses_Roles x)
        then x\<lparr>ses_Roles := ses_Roles x @ [role]\<rparr> else x) (sql_live now t i)"
    using \<open>subject \<noteq> ''''\<close> by (auto intro!: option.map_cong0)
qed

section \<open>Properties\<close>

definition session_identity :: "Session \<Rightarrow> Identity" where
  \<comment> \<open>the identity a request is served under\<close>
  "session_identity s = \<lparr>id_Subject = ses_Subject s, id_Email = ses_Email s, id_Name = ses_Name s,
     id_Username = ses_Username s, id_Roles = ses_Roles s\<rparr>"

text \<open>C5: A revocation that reports success takes effect at once: no live session of the account may
  operate the Instance any more, unless the account is an administrator or owns it; what other
  accounts may do, and what this account may do elsewhere, is as before.\<close>

theorem revoke_is_immediate:
  assumes "az_sessions s = Some (sql_sessions db now)"
    and "Authz_Revoke s subject game n actor st = (None, st')" and "subject \<noteq> ''''"
    and "sql_live now (as_tables st) i = Some ses"
  shows "\<exists>ses'. sql_live now (as_tables st') i = Some ses' \<and> ses_Subject ses' = ses_Subject ses \<and>
    (ses_Subject ses = subject \<longrightarrow> \<not> HasRole (session_identity ses') (InstanceRole game n)) \<and>
    (\<forall>role. ses_Subject ses \<noteq> subject \<or> role \<noteq> InstanceRole game n \<longrightarrow>
       HasRole (session_identity ses') role = HasRole (session_identity ses) role)"
  using sql.revoke_live [OF assms(1-3), of i] assms(4)
  by (auto simp: HasRole_def session_identity_def)

definition sample_session :: Session where
  "sample_session = \<lparr>ses_ID = ''c1'', ses_Subject = ''ann'', ses_Email = '''', ses_Name = '''',
     ses_Username = ''ann'', ses_Roles = [''agrelha-gmod-03'', ''agrelha-user''], ses_IDToken = '''',
     ses_CreatedAt = 1, ses_ExpiresAt = 100\<rparr>"

definition sample_authz :: "(unit, Tables) AuthzService" where
  "sample_authz = \<lparr>az_accounts = Some (\<lambda>subject t. Inr None),
     az_sessions = Some (sql_sessions (\<lambda>op. None) 50),
     az_registry = Some \<lparr>rg_Add = (\<lambda>r d g. (None, g)), rg_Remove = (\<lambda>r g. (None, g)),
       rg_Grant = (\<lambda>u r g. (None, g)), rg_Revoke = (\<lambda>u r g. (None, g)), rg_RolesFor = (\<lambda>u g. Inr [])\<rparr>,
     az_owners = None, az_audit = True\<rparr>"

definition sample_authz_state :: "(unit, Tables) AuthzState" where
  "sample_authz_state = \<lparr>as_registry = (),
     as_tables = snd (CreateSession (\<lambda>op. None) 2 sample_session empty_tables), as_audit = []\<rparr>"

theorem revoke_is_immediate_witness:
  "\<exists>st' ses'. Authz_Revoke sample_authz ''ann'' ''gmod'' 3 ''root'' sample_authz_state = (None, st') \<and>
     sql_live 50 (as_tables st') ''c1'' = Some ses' \<and>
     \<not> HasRole (session_identity ses') ''agrelha-gmod-03'' \<and>
     HasRole (session_identity ses') ''agrelha-user''"
proof -
  let ?r = "Authz_Revoke sample_authz ''ann'' ''gmod'' 3 ''root'' sample_authz_state"
  have ss: "az_sessions sample_authz = Some (sql_sessions (\<lambda>op. None) 50)" by (simp add: sample_authz_def)
  have role: "InstanceRole ''gmod'' 3 = ''agrelha-gmod-03''" by code_simp
  have "fst ?r = None" by code_simp
  then obtain st' where r: "?r = (None, st')" by (metis prod.collapse)
  have l: "map_option ses_Subject (sql_live 50 (as_tables sample_authz_state) ''c1'') = Some ''ann''"
    "map_option ses_Roles (sql_live 50 (as_tables sample_authz_state) ''c1'') =
      Some [''agrelha-gmod-03'', ''agrelha-user'']"
    by code_simp+
  then obtain ses where ses: "sql_live 50 (as_tables sample_authz_state) ''c1'' = Some ses"
    "ses_Subject ses = ''ann''" "ses_Roles ses = [''agrelha-gmod-03'', ''agrelha-user'']"
    by auto
  obtain ses' where "sql_live 50 (as_tables st') ''c1'' = Some ses'"
    "\<not> HasRole (session_identity ses') ''agrelha-gmod-03''"
    "HasRole (session_identity ses') ''agrelha-user'' = HasRole (session_identity ses) ''agrelha-user''"
    using revoke_is_immediate [OF ss r _ ses(1)] ses(2) unfolding role by auto
  then show ?thesis using r ses(3) by (auto simp: HasRole_def session_identity_def)
qed

text \<open>Nobody who has never signed in is granted anything: the grant is refused, the registry
  is not asked, and the sessions, the accounts and the audit trail stay as they are.\<close>

theorem grant_needs_account:
  assumes "az_accounts s = Some acc" and "acc subject (as_tables st) = Inr None"
  shows "\<exists>e. Authz_Grant s subject game n actor st = (Some e, st) \<and>
    (az_registry s \<noteq> None \<longrightarrow> e = Sentinel ErrNoAccount)"
  using assms by (auto simp: Authz_Grant_def requireAccount_def split: option.splits)

theorem grant_needs_account_witness:
  "Authz_Grant sample_authz ''zed'' ''gmod'' 3 ''root'' sample_authz_state =
     (Some (Sentinel ErrNoAccount), sample_authz_state)"
proof -
  have "az_accounts sample_authz = Some (\<lambda>subject t. Inr None)" "az_registry sample_authz \<noteq> None"
    by (simp_all add: sample_authz_def)
  then show ?thesis using grant_needs_account [of sample_authz "\<lambda>subject t. Inr None" "''zed''"] by blast
qed

end
