(* ===== verification/Ops.thy ===== *)
theory Ops
  imports Prelude
begin

text \<open>
  Stateful operations of the application services: a function from a state to a result and the
  state after it. A result is a value, an error the caller handles, or a crash (Go's \<open>panic\<close>,
  which nobody recovers from). \<open>wp m Q E w\<close> says that \<open>m\<close>, run in \<open>w\<close>, does not crash, that \<open>Q\<close>
  holds of its value and the state after it, and \<open>E\<close> of its error and that state. The rules of the
  combinators are in the collection \<open>wp\<close>, so that \<open>simp add: wp\<close> steps through an operation.
\<close>

named_theorems wp \<open>weakest preconditions of the combinators\<close>

datatype 'a res = Ok 'a | Err goerr | Crash string

type_synonym ('w, 'a) op = "'w \<Rightarrow> 'a res \<times> 'w"

section \<open>Combinators\<close>

definition ret :: "'a \<Rightarrow> ('w, 'a) op" where
  "ret x w = (Ok x, w)"

definition fail :: "goerr \<Rightarrow> ('w, 'a) op" where
  "fail e w = (Err e, w)"

definition bindo :: "('w, 'a) op \<Rightarrow> ('a \<Rightarrow> ('w, 'b) op) \<Rightarrow> ('w, 'b) op" where
  \<comment> \<open>\<open>x, err := m(); if err != nil { return err }\<close>, then \<open>f x\<close>\<close>
  "bindo m f w =
     (case m w of (Ok x, w') \<Rightarrow> f x w' | (Err e, w') \<Rightarrow> (Err e, w') | (Crash s, w') \<Rightarrow> (Crash s, w'))"

definition seqo :: "('w, unit) op \<Rightarrow> ('w, 'b) op \<Rightarrow> ('w, 'b) op" where
  "seqo m n = bindo m (\<lambda>_. n)"

definition attempt :: "('w, 'a) op \<Rightarrow> ('w, goerr + 'a) op" where
  \<comment> \<open>\<open>x, err := m()\<close> with the error looked at by what follows\<close>
  "attempt m w =
     (case m w of (Ok x, w') \<Rightarrow> (Ok (Inr x), w') | (Err e, w') \<Rightarrow> (Ok (Inl e), w')
                | (Crash s, w') \<Rightarrow> (Crash s, w'))"

definition ignore :: "('w, 'a) op \<Rightarrow> ('w, unit) op" where
  \<comment> \<open>\<open>_ = m()\<close>\<close>
  "ignore m = bindo (attempt m) (\<lambda>_. ret ())"

definition wrapped :: "string \<Rightarrow> ('w, 'a) op \<Rightarrow> ('w, 'a) op" where
  \<comment> \<open>\<open>fmt.Errorf("...: %w", err)\<close> around the error of \<open>m\<close>\<close>
  "wrapped pre m w =
     (case m w of (Err e, w') \<Rightarrow> (Err (Wrap pre e ''''), w') | (Ok x, w') \<Rightarrow> (Ok x, w')
                | (Crash s, w') \<Rightarrow> (Crash s, w'))"

definition cleanup :: "('w, 'a) op \<Rightarrow> ('w, unit) op \<Rightarrow> ('w, 'a) op" where
  \<comment> \<open>\<open>if err := m(); err != nil { c(); return err }\<close>\<close>
  "cleanup m c =
     bindo (attempt m) (\<lambda>r. case r of Inr x \<Rightarrow> ret x | Inl e \<Rightarrow> seqo c (fail e))"

definition whenO :: "bool \<Rightarrow> ('w, unit) op \<Rightarrow> ('w, unit) op" where
  "whenO b m = (if b then m else ret ())"

definition checkO :: "goerr option \<Rightarrow> ('w, unit) op" where
  \<comment> \<open>\<open>if err := e; err != nil { return err }\<close>\<close>
  "checkO e = (case e of None \<Rightarrow> ret () | Some e \<Rightarrow> fail e)"

definition optO :: "('c option) \<Rightarrow> ('c \<Rightarrow> ('w, unit) op) \<Rightarrow> ('w, unit) op" where
  \<comment> \<open>\<open>if x != nil { ... }\<close>\<close>
  "optO c f = (case c of None \<Rightarrow> ret () | Some x \<Rightarrow> f x)"

definition of_sum :: "goerr + 'a \<Rightarrow> ('w, 'a) op" where
  "of_sum r = (case r of Inl e \<Rightarrow> fail e | Inr x \<Rightarrow> ret x)"

definition of_outcome :: "'a outcome \<Rightarrow> ('w, 'a) op" where
  \<comment> \<open>a pure function that can panic\<close>
  "of_outcome r w = (case r of Val x \<Rightarrow> (Ok x, w) | Panic s \<Rightarrow> (Crash s, w))"

definition gets :: "('w \<Rightarrow> 'a) \<Rightarrow> ('w, 'a) op" where
  "gets f w = (Ok (f w), w)"

definition modify :: "('w \<Rightarrow> 'w) \<Rightarrow> ('w, unit) op" where
  "modify f w = (Ok (), f w)"

definition zoom :: "('w \<Rightarrow> 'p) \<Rightarrow> ('p \<Rightarrow> 'w \<Rightarrow> 'w) \<Rightarrow> ('p, 'a) op \<Rightarrow> ('w, 'a) op" where
  \<comment> \<open>an operation on a part of the state\<close>
  "zoom get put m w = (case m (get w) of (r, p) \<Rightarrow> (r, put p w))"

definition of_step :: "('p \<Rightarrow> (goerr + 'a) \<times> 'p) \<Rightarrow> ('p, 'a) op" where
  \<comment> \<open>an operation given as a result with the state after it\<close>
  "of_step m p = (case m p of (Inl e, p') \<Rightarrow> (Err e, p') | (Inr x, p') \<Rightarrow> (Ok x, p'))"

definition of_exec :: "('p \<Rightarrow> goerr option \<times> 'p) \<Rightarrow> ('p, unit) op" where
  "of_exec m p = (case m p of (Some e, p') \<Rightarrow> (Err e, p') | (None, p') \<Rightarrow> (Ok (), p'))"

fun mapO :: "('a \<Rightarrow> ('w, 'b) op) \<Rightarrow> 'a list \<Rightarrow> ('w, 'b list) op" where
  "mapO f [] = ret []"
| "mapO f (x # xs) = bindo (f x) (\<lambda>y. bindo (mapO f xs) (\<lambda>ys. ret (y # ys)))"

fun forO :: "('a \<Rightarrow> ('w, unit) op) \<Rightarrow> 'a list \<Rightarrow> ('w, unit) op" where
  "forO f [] = ret ()"
| "forO f (x # xs) = seqo (f x) (forO f xs)"

section \<open>Weakest preconditions\<close>

definition wp :: "('w, 'a) op \<Rightarrow> ('a \<Rightarrow> 'w \<Rightarrow> bool) \<Rightarrow> (goerr \<Rightarrow> 'w \<Rightarrow> bool) \<Rightarrow> 'w \<Rightarrow> bool" where
  "wp m Q E w = (case m w of (Ok x, w') \<Rightarrow> Q x w' | (Err e, w') \<Rightarrow> E e w' | (Crash s, w') \<Rightarrow> False)"

text \<open>The rules are equations between predicates on states, so that they also rewrite inside the
  postconditions they build.\<close>

lemma wp_ret [wp]: "wp (ret x) Q E = Q x"
  by (simp add: fun_eq_iff wp_def ret_def)

lemma wp_fail [wp]: "wp (fail e) Q E = E e"
  by (simp add: fun_eq_iff wp_def fail_def)

lemma wp_bindo [wp]: "wp (bindo m f) Q E = wp m (\<lambda>x. wp (f x) Q E) E"
  by (simp add: fun_eq_iff wp_def bindo_def split: prod.split res.split)

lemma wp_seqo [wp]: "wp (seqo m n) Q E = wp m (\<lambda>_. wp n Q E) E"
  by (simp add: seqo_def wp_bindo)

lemma wp_attempt [wp]: "wp (attempt m) Q E = wp m (\<lambda>x. Q (Inr x)) (\<lambda>e. Q (Inl e))"
  by (simp add: fun_eq_iff wp_def attempt_def split: prod.split res.split)

lemma wp_ignore [wp]: "wp (ignore m) Q E = wp m (\<lambda>_. Q ()) (\<lambda>_. Q ())"
  by (simp add: ignore_def wp)

lemma wp_wrapped [wp]: "wp (wrapped pre m) Q E = wp m Q (\<lambda>e. E (Wrap pre e ''''))"
  by (simp add: fun_eq_iff wp_def wrapped_def split: prod.split res.split)

lemma wp_cleanup [wp]: "wp (cleanup m c) Q E = wp m Q (\<lambda>e. wp c (\<lambda>_. E e) E)"
  by (simp add: cleanup_def wp)

lemma wp_whenO [wp]: "wp (whenO b m) Q E = (if b then wp m Q E else Q ())"
  by (simp add: whenO_def wp)

lemma wp_checkO [wp]: "wp (checkO e) Q E = (case e of None \<Rightarrow> Q () | Some e \<Rightarrow> E e)"
  by (simp add: checkO_def wp split: option.split)

lemma wp_optO [wp]: "wp (optO c f) Q E = (case c of None \<Rightarrow> Q () | Some x \<Rightarrow> wp (f x) Q E)"
  by (simp add: optO_def wp split: option.split)

lemma wp_of_sum [wp]: "wp (of_sum r) Q E = (case r of Inl e \<Rightarrow> E e | Inr x \<Rightarrow> Q x)"
  by (simp add: of_sum_def wp split: sum.split)

lemma wp_of_outcome [wp]:
  "wp (of_outcome r) Q E = (case r of Val x \<Rightarrow> Q x | Panic s \<Rightarrow> (\<lambda>w. False))"
  by (simp add: fun_eq_iff wp_def of_outcome_def split: outcome.split)

lemma wp_gets [wp]: "wp (gets f) Q E = (\<lambda>w. Q (f w) w)"
  by (simp add: fun_eq_iff wp_def gets_def)

lemma wp_modify [wp]: "wp (modify f) Q E = (\<lambda>w. Q () (f w))"
  by (simp add: fun_eq_iff wp_def modify_def)

lemma wp_zoom [wp]:
  "wp (zoom get put m) Q E = (\<lambda>w. wp m (\<lambda>x p. Q x (put p w)) (\<lambda>e p. E e (put p w)) (get w))"
  by (simp add: fun_eq_iff wp_def zoom_def split: prod.split res.split)

lemma wp_of_step [wp]:
  "wp (of_step m) Q E = (\<lambda>p. case m p of (Inl e, p') \<Rightarrow> E e p' | (Inr x, p') \<Rightarrow> Q x p')"
  by (simp add: fun_eq_iff wp_def of_step_def split: prod.split sum.split)

lemma wp_of_exec [wp]:
  "wp (of_exec m) Q E = (\<lambda>p. case m p of (Some e, p') \<Rightarrow> E e p' | (None, p') \<Rightarrow> Q () p')"
  by (simp add: fun_eq_iff wp_def of_exec_def split: prod.split option.split)

lemma wp_mono:
  assumes "wp m Q E w" and "\<And>x w'. Q x w' \<Longrightarrow> Q' x w'" and "\<And>e w'. E e w' \<Longrightarrow> E' e w'"
  shows "wp m Q' E' w"
  using assms by (auto simp: wp_def split: prod.splits res.splits)

lemma wp_conj:
  "wp m (\<lambda>x w. Q x w \<and> Q' x w) (\<lambda>e w. E e w \<and> E' e w) w \<longleftrightarrow> wp m Q E w \<and> wp m Q' E' w"
  by (auto simp: wp_def split: prod.splits res.splits)

lemma wp_mapO:
  assumes "\<And>x w. x \<in> set xs \<Longrightarrow> I w \<Longrightarrow> wp (f x) (\<lambda>y w'. R x y \<and> I w') (\<lambda>e w'. I w') w" and "I w"
  shows "wp (mapO f xs) (\<lambda>ys w'. list_all2 R xs ys \<and> I w') (\<lambda>e w'. I w') w"
  using assms
proof (induction xs arbitrary: w)
  case Nil
  then show ?case by (simp add: wp)
next
  case (Cons x xs)
  have "wp (f x) (\<lambda>y w'. R x y \<and> I w') (\<lambda>e w'. I w') w" using Cons.prems by simp
  moreover have "wp (mapO f xs) (\<lambda>ys w'. list_all2 R xs ys \<and> I w') (\<lambda>e w'. I w') w'" if "I w'" for w'
    using Cons.IH Cons.prems(1) that by simp
  ultimately show ?case
    by (auto simp: wp elim!: wp_mono)
qed

lemma wp_forO:
  assumes "\<And>x w. x \<in> set xs \<Longrightarrow> I w \<Longrightarrow> wp (f x) (\<lambda>_ w'. I w') (\<lambda>e w'. I w') w" and "I w"
  shows "wp (forO f xs) (\<lambda>_ w'. I w') (\<lambda>e w'. I w') w"
  using assms
proof (induction xs arbitrary: w)
  case (Cons x xs)
  have "wp (f x) (\<lambda>_ w'. I w') (\<lambda>e w'. I w') w" using Cons.prems by simp
  moreover have "wp (forO f xs) (\<lambda>_ w'. I w') (\<lambda>e w'. I w') w'" if "I w'" for w'
    using Cons.IH Cons.prems(1) that by simp
  ultimately show ?case unfolding forO.simps wp_seqo by (rule wp_mono)
qed (simp add: wp)

lemma wp_run: "wp m Q E w \<Longrightarrow> m w = (Ok x, w') \<Longrightarrow> Q x w'"
  by (simp add: wp_def)

lemma wp_run_err: "wp m Q E w \<Longrightarrow> m w = (Err e, w') \<Longrightarrow> E e w'"
  by (simp add: wp_def)

lemma wp_no_crash: "wp m Q E w \<Longrightarrow> m w \<noteq> (Crash s, w')"
  by (auto simp: wp_def)

lemmas op_defs = ret_def fail_def bindo_def seqo_def attempt_def ignore_def wrapped_def cleanup_def
  whenO_def checkO_def optO_def of_sum_def of_outcome_def gets_def modify_def zoom_def of_step_def
  of_exec_def

end
