(* ===== verification/Ports.thy ===== *)
theory Ports
  imports Instances Ops
begin

text \<open>
  \<open>internal/ports/runtime.go\<close>: how a server is addressed, and what a runtime says about it: what
  the operator asked for (\<open>Lifecycle\<close>), whether players can connect (\<open>Available\<close>), and how it last
  died (\<open>Failure\<close>). The counters are \<open>int32\<close> in the code; they are only copied and compared.
\<close>

record ServerRef =
  sref_Name :: string
  sref_Scope :: string
  sref_Host :: Host
  sref_ID :: InstanceID

definition LifecycleRunning :: string where "LifecycleRunning = ''running''"
definition LifecycleStopped :: string where "LifecycleStopped = ''stopped''"
definition LifecycleUnknown :: string where "LifecycleUnknown = ''unknown''"

record Failure =
  fl_RestartCount :: int
  fl_WaitingReason :: string
  fl_Restarting :: bool
  fl_ExitCode :: int
  fl_Reason :: string
  fl_FinishedAt :: Time
  fl_OOMKilled :: bool
  fl_InitRestartCount :: int
  fl_InitStep :: string

record Status =
  st_Lifecycle :: string
  st_Available :: bool
  st_StartedAt :: Time
  st_Address :: string
  st_Failure :: Failure

definition no_failure :: Failure where
  "no_failure = \<lparr>fl_RestartCount = 0, fl_WaitingReason = '''', fl_Restarting = False, fl_ExitCode = 0,
     fl_Reason = '''', fl_FinishedAt = 0, fl_OOMKilled = False, fl_InitRestartCount = 0, fl_InitStep = ''''\<rparr>"

definition Crashed :: "Failure \<Rightarrow> bool" where
  "Crashed f = (fl_RestartCount f > 0 \<or> fl_InitRestartCount f > 0 \<or>
     fl_WaitingReason f = ''CrashLoopBackOff'' \<or> fl_FinishedAt f \<noteq> 0)"

definition CrashLooping :: "Failure \<Rightarrow> bool" where
  "CrashLooping f = ((fl_Restarting f \<or> fl_WaitingReason f = ''CrashLoopBackOff'') \<and>
     (fl_RestartCount f > 0 \<or> fl_InitRestartCount f > 0))"

definition FailedBeforeStart :: "Failure \<Rightarrow> bool" where
  "FailedBeforeStart f = (fl_InitRestartCount f > 0 \<or> fl_InitStep f \<noteq> '''')"

lemma crash_looping_crashed: "CrashLooping f \<Longrightarrow> Crashed f"
  by (auto simp: CrashLooping_def Crashed_def)

end
