(* ===== verification/Incidents.thy ===== *)
theory Incidents
  imports Ports Accounts SqlStore
begin

text \<open>
  \<open>internal/domain/health.go\<close>, \<open>internal/infra/store/incidents.go\<close> and
  \<open>internal/app/health/watcher.go\<close>: the incidents of a world, their table, and the watcher that
  turns a runtime's account of a dead server into one.

  The table is the list of its rows in the order of insertion. The column list of the \<open>INSERT\<close> and
  of the \<open>SELECT\<close>s has no place for an incident's \<open>Step\<close>, so a row's step is empty.
\<close>

record Incident =
  inc_ID :: int
  inc_WorldID :: string
  inc_GameID :: GameID
  inc_Number :: int
  inc_At :: Time
  inc_RestartCount :: int
  inc_ExitCode :: int
  inc_Reason :: string
  inc_OOMKilled :: bool
  inc_LogTail :: string
  inc_Step :: string
  inc_Acknowledged :: bool

section \<open>Summaries\<close>

definition em_dash :: string where
  \<comment> \<open>U+2014 in UTF-8\<close>
  "em_dash = [CHR 0xE2, CHR 0x80, CHR 0x94]"

definition stepSummary :: "string \<Rightarrow> int \<Rightarrow> string" where
  "stepSummary step restarts =
     (let what = (if step = ''mod-reconciler'' then ''Mod install''
                  else if step = ''sync-configs'' then ''Config sync'' else step)
      in if restarts > 0
         then what @ '' failed '' @ em_dash @ '' the server never started ('' @ show_int restarts @ '' attempts)''
         else what @ '' failed '' @ em_dash @ '' the server never started'')"

definition Incident_Summary :: "Incident \<Rightarrow> string" where
  "Incident_Summary i =
     (if inc_Step i \<noteq> '''' then stepSummary (inc_Step i) (inc_RestartCount i)
      else if inc_OOMKilled i
        then ''Out of memory '' @ em_dash @ '' the server exceeded its tier'' @ [CHR 0x27] @ ''s limit''
      else if inc_Reason i = ''CrashLoopBackOff''
        then ''Crash loop '' @ em_dash @ '' restarted '' @ show_int (inc_RestartCount i) @ '' times''
      else if inc_ExitCode i \<noteq> 0 then ''Exited with code '' @ show_int (inc_ExitCode i)
      else if inc_Reason i \<noteq> '''' then inc_Reason i
      else ''Stopped unexpectedly'')"

definition SupersededBy :: "Incident \<Rightarrow> Time \<Rightarrow> bool" where
  "SupersededBy i started =
     (if started = 0 \<or> inc_At i = 0 then False else inc_At i < started)"

section \<open>The table\<close>

record IncidentTable =
  it_rows :: "Incident list"
  it_next :: int

definition RecordIncident ::
    "Db \<Rightarrow> Time \<Rightarrow> Incident \<Rightarrow> IncidentTable \<Rightarrow> (goerr + int) \<times> IncidentTable" where
  "RecordIncident db now i t =
     (case db ''record incident'' of
        Some e \<Rightarrow> (Inl e, t)
      | None \<Rightarrow>
          (Inr (it_next t),
           t\<lparr>it_rows := it_rows t @ [i\<lparr>inc_ID := it_next t,
               inc_At := (if inc_At i = 0 then now else inc_At i),
               inc_Step := '''', inc_Acknowledged := False\<rparr>],
             it_next := it_next t + 1\<rparr>))"

definition newest_first :: "Incident list \<Rightarrow> Incident list" where
  \<comment> \<open>\<open>ORDER BY at DESC, id DESC\<close>\<close>
  "newest_first rows = rev (sort_key (\<lambda>i. (inc_At i, inc_ID i)) rows)"

definition first_row :: "Incident list \<Rightarrow> Incident option" where
  "first_row rows = (case rows of [] \<Rightarrow> None | r # _ \<Rightarrow> Some (r\<lparr>inc_Acknowledged := False\<rparr>))"

definition LastIncident :: "Db \<Rightarrow> string \<Rightarrow> IncidentTable \<Rightarrow> goerr + Incident option" where
  \<comment> \<open>the acknowledgement is not among the columns read\<close>
  "LastIncident db world t =
     (if world = '''' then Inr None
      else case db ''last incident'' of
             Some e \<Rightarrow> Inl e
           | None \<Rightarrow> Inr (first_row (newest_first (filter (\<lambda>r. inc_WorldID r = world) (it_rows t)))))"

definition ListIncidents :: "Db \<Rightarrow> string \<Rightarrow> int \<Rightarrow> bool \<Rightarrow> IncidentTable \<Rightarrow> goerr + Incident list" where
  "ListIncidents db world limit oldestFirst t =
     (if world = '''' then Inr []
      else (let n = (if limit \<le> 0 then 20 else limit);
                rows = newest_first (filter (\<lambda>r. inc_WorldID r = world) (it_rows t));
                ordered = (if oldestFirst then rev rows else rows)
            in case db ''list incidents'' of
                 Some e \<Rightarrow> Inl e
               | None \<Rightarrow> Inr (take (nat n) ordered)))"

definition AcknowledgeIncident :: "Db \<Rightarrow> int \<Rightarrow> IncidentTable \<Rightarrow> goerr option \<times> IncidentTable" where
  "AcknowledgeIncident db iid t =
     (case db ''acknowledge incident'' of
        Some e \<Rightarrow> (Some e, t)
      | None \<Rightarrow> (None, t\<lparr>it_rows :=
          map (\<lambda>r. if inc_ID r = iid then r\<lparr>inc_Acknowledged := True\<rparr> else r) (it_rows t)\<rparr>))"

definition LastUnacknowledgedIncident ::
    "Db \<Rightarrow> string \<Rightarrow> IncidentTable \<Rightarrow> goerr + Incident option" where
  "LastUnacknowledgedIncident db world t =
     (if world = '''' then Inr None
      else case db ''last unacknowledged'' of
             Some e \<Rightarrow> Inl e
           | None \<Rightarrow> Inr (first_row (newest_first
               (filter (\<lambda>r. inc_WorldID r = world \<and> \<not> inc_Acknowledged r) (it_rows t)))))"

section \<open>The watcher\<close>

text \<open>One game's instances as the watcher sees them during a check: what listing them, asking for
  a status and reading the logs of the dead container answer.\<close>

record Source =
  src_GameID :: GameID
  src_List :: "goerr + Instance list"
  src_Status :: "int \<Rightarrow> goerr + Status"
  src_CrashLogs :: "int \<Rightarrow> int \<Rightarrow> string \<Rightarrow> goerr + string"

record HealthState =
  hs_incidents :: IncidentTable
  hs_events :: "(string \<times> string) list"

definition defaultTail :: int where "defaultTail = 100"
definition maxTailBytes :: nat where "maxTailBytes = 65536"

definition restartCount :: "Failure \<Rightarrow> int" where
  "restartCount f = (if FailedBeforeStart f then fl_InitRestartCount f else fl_RestartCount f)"

definition failureReason :: "Failure \<Rightarrow> string" where
  "failureReason f = (if fl_WaitingReason f \<noteq> '''' then fl_WaitingReason f else fl_Reason f)"

definition isNew :: "Failure \<Rightarrow> Incident option \<Rightarrow> bool" where
  "isNew f prev =
     (case prev of
        None \<Rightarrow> True
      | Some i \<Rightarrow>
          (if restartCount f > inc_RestartCount i then True
           else if fl_InitStep f \<noteq> inc_Step i then True
           else fl_FinishedAt f > inc_At i))"

definition captureTail :: "Source \<Rightarrow> int \<Rightarrow> int \<Rightarrow> string \<Rightarrow> string" where
  "captureTail src n tail step =
     (case src_CrashLogs src n tail step of
        Inl e \<Rightarrow> ''''
      | Inr b \<Rightarrow> trim_right (\<lambda>c. c = NL) (take maxTailBytes b))"

definition new_incident :: "Source \<Rightarrow> int \<Rightarrow> Instance \<Rightarrow> Failure \<Rightarrow> Time \<Rightarrow> Incident" where
  "new_incident src tail inst f now =
     \<lparr>inc_ID = 0, inc_WorldID = WorldID inst, inc_GameID = src_GameID src, inc_Number = Number inst,
      inc_At = now, inc_RestartCount = restartCount f, inc_ExitCode = fl_ExitCode f,
      inc_Reason = failureReason f, inc_OOMKilled = fl_OOMKilled f,
      inc_LogTail = captureTail src (Number inst) tail (fl_InitStep f),
      inc_Step = fl_InitStep f, inc_Acknowledged = False\<rparr>"

definition checkOne ::
    "Db \<Rightarrow> int \<Rightarrow> Time \<Rightarrow> Source \<Rightarrow> Instance \<Rightarrow> HealthState \<Rightarrow> bool \<times> HealthState" where
  "checkOne db tail now src inst h =
     (case src_Status src (Number inst) of
        Inl e \<Rightarrow> (False, h)
      | Inr st \<Rightarrow>
          if \<not> Crashed (st_Failure st) then (False, h)
          else case LastIncident db (WorldID inst) (hs_incidents h) of
                 Inl e \<Rightarrow> (False, h)
               | Inr prev \<Rightarrow>
                   if \<not> isNew (st_Failure st) prev then (False, h)
                   else (let i = new_incident src tail inst (st_Failure st) now
                         in case RecordIncident db now i (hs_incidents h) of
                              (Inl e, t) \<Rightarrow> (False, h\<lparr>hs_incidents := t\<rparr>)
                            | (Inr n, t) \<Rightarrow>
                                (True, h\<lparr>hs_incidents := t,
                                   hs_events := hs_events h @ [(''crash'', inst_Name inst @ '': '' @ Incident_Summary i)]\<rparr>)))"

fun check_all :: "Db \<Rightarrow> int \<Rightarrow> Time \<Rightarrow> Source \<Rightarrow> Instance list \<Rightarrow> HealthState \<Rightarrow> nat \<times> HealthState" where
  "check_all db tail now src [] h = (0, h)"
| "check_all db tail now src (i # is) h =
     (case checkOne db tail now src i h of (b, h1) \<Rightarrow>
      case check_all db tail now src is h1 of (n, h2) \<Rightarrow> ((if b then Suc n else n), h2))"

fun Check :: "Db \<Rightarrow> int \<Rightarrow> Time \<Rightarrow> Source list \<Rightarrow> HealthState \<Rightarrow> nat \<times> HealthState" where
  "Check db tail now [] h = (0, h)"
| "Check db tail now (src # srcs) h =
     (case src_List src of
        Inl e \<Rightarrow> Check db tail now srcs h
      | Inr insts \<Rightarrow>
          (case check_all db tail now src insts h of (n, h1) \<Rightarrow>
           case Check db tail now srcs h1 of (m, h2) \<Rightarrow> (n + m, h2)))"

section \<open>Proofs\<close>

definition incidents_ok :: "IncidentTable \<Rightarrow> bool" where
  \<comment> \<open>ids are below the next one, and no row has a step\<close>
  "incidents_ok t = (\<forall>r\<in>set (it_rows t). inc_ID r < it_next t \<and> inc_Step r = '''')"

lemma incidents_ok_record [inv_intros]:
  "incidents_ok t \<Longrightarrow> RecordIncident db now i t = (r, t') \<Longrightarrow> incidents_ok t'"
  by (fastforce simp: incidents_ok_def RecordIncident_def split: option.splits)

lemma incidents_ok_ack [inv_intros]:
  "incidents_ok t \<Longrightarrow> AcknowledgeIncident db n t = (r, t') \<Longrightarrow> incidents_ok t'"
  by (auto simp: incidents_ok_def AcknowledgeIncident_def split: option.splits)

lemma sort_key_snoc:
  assumes "\<forall>x\<in>set xs. f x \<le> f y"
  shows "sort_key f (xs @ [y]) = sort_key f xs @ [y]"
proof (rule properties_for_sort_key)
  fix k
  show "filter (\<lambda>x. f k = f x) (sort_key f xs @ [y]) = filter (\<lambda>x. f k = f x) (xs @ [y])"
    using sort_key_stable [of f "f k" xs] by (simp add: eq_commute)
next
  show "sorted (map f (sort_key f xs @ [y]))" using assms by (simp add: sorted_append)
qed simp

lemma newest_first_snoc:
  assumes "\<forall>r\<in>set rows. inc_At r \<le> inc_At i \<and> inc_ID r < inc_ID i"
  shows "newest_first (rows @ [i]) = i # newest_first rows"
  using assms by (subst newest_first_def, subst sort_key_snoc) (auto simp: newest_first_def less_eq_prod_def)

lemma first_newest_in:
  "first_row (newest_first rows) = Some i \<Longrightarrow> \<exists>r\<in>set rows. i = r\<lparr>inc_Acknowledged := False\<rparr>"
proof -
  assume a: "first_row (newest_first rows) = Some i"
  then obtain r rs where "newest_first rows = r # rs" "i = r\<lparr>inc_Acknowledged := False\<rparr>"
    by (auto simp: first_row_def split: list.splits)
  moreover have "set (newest_first rows) = set rows" by (simp add: newest_first_def)
  ultimately show ?thesis by (metis list.set_intros(1))
qed

fun check_times ::
    "Db \<Rightarrow> int \<Rightarrow> Source \<Rightarrow> Instance \<Rightarrow> Time list \<Rightarrow> HealthState \<Rightarrow> nat \<times> HealthState" where
  \<comment> \<open>checks of one world at the given times, the runtime's account of it staying the same\<close>
  "check_times db tail src inst [] h = (0, h)"
| "check_times db tail src inst (now # ts) h =
     (case checkOne db tail now src inst h of (b, h1) \<Rightarrow>
      case check_times db tail src inst ts h1 of (n, h2) \<Rightarrow> ((if b then Suc n else n), h2))"

abbreviation up :: Db where "up \<equiv> \<lambda>op. None"

lemma checkOne_new:
  assumes "src_Status src (Number inst) = Inr st" and "Crashed (st_Failure st)"
    and "LastIncident up (WorldID inst) (hs_incidents h) = Inr prev" and "isNew (st_Failure st) prev"
  shows "\<exists>h'. checkOne up tail now src inst h = (True, h') \<and>
    it_next (hs_incidents h') = it_next (hs_incidents h) + 1 \<and>
    it_rows (hs_incidents h') = it_rows (hs_incidents h) @
      [(new_incident src tail inst (st_Failure st) now)\<lparr>inc_ID := it_next (hs_incidents h),
         inc_Step := '''', inc_Acknowledged := False\<rparr>]"
  using assms by (simp add: checkOne_def RecordIncident_def new_incident_def Let_def)

lemma checkOne_old:
  assumes "src_Status src (Number inst) = Inr st" and "Crashed (st_Failure st)"
    and "LastIncident up (WorldID inst) (hs_incidents h) = Inr prev" and "\<not> isNew (st_Failure st) prev"
  shows "checkOne up tail now src inst h = (False, h)"
  using assms by (simp add: checkOne_def)

lemma check_times_old:
  assumes "src_Status src (Number inst) = Inr st" and "Crashed (st_Failure st)"
    and "LastIncident up (WorldID inst) (hs_incidents h) = Inr prev" and "\<not> isNew (st_Failure st) prev"
  shows "check_times up tail src inst ts h = (0, h)"
  by (induction ts) (use checkOne_old [OF assms] in simp_all)

lemma check_times_always:
  assumes "src_Status src (Number inst) = Inr st" and "Crashed (st_Failure st)"
    and "WorldID inst = '''' \<or> fl_InitStep (st_Failure st) \<noteq> ''''" and "incidents_ok (hs_incidents h)"
  shows "fst (check_times up tail src inst ts h) = length ts"
  using assms(4)
proof (induction ts arbitrary: h)
  case (Cons now ts)
  obtain prev where prev: "LastIncident up (WorldID inst) (hs_incidents h) = Inr prev"
    by (cases "WorldID inst = []") (auto simp: LastIncident_def)
  have "isNew (st_Failure st) prev"
  proof (cases prev)
    case (Some i)
    then have "WorldID inst \<noteq> ''''" "inc_Step i = ''''"
      using prev Cons.prems first_newest_in
      by (fastforce simp: LastIncident_def incidents_ok_def split: if_splits)+
    then show ?thesis using assms(3) Some by (simp add: isNew_def)
  qed (simp add: isNew_def)
  then obtain h' where h': "checkOne up tail now src inst h = (True, h')"
    "it_next (hs_incidents h') = it_next (hs_incidents h) + 1"
    "it_rows (hs_incidents h') = it_rows (hs_incidents h) @
      [(new_incident src tail inst (st_Failure st) now)\<lparr>inc_ID := it_next (hs_incidents h),
         inc_Step := '''', inc_Acknowledged := False\<rparr>]"
    using checkOne_new [OF assms(1,2) prev] by blast
  then have "incidents_ok (hs_incidents h')"
    using Cons.prems by (fastforce simp: incidents_ok_def)
  then show ?case using Cons.IH h'(1) by (simp split: prod.split) (metis fst_conv)
qed simp

text \<open>C38: A crash is recorded once: as long as the runtime tells the same story of a world, however
  often the watcher looks, a server that ran and died gives one incident, or none when it is on
  record already. But the table has no column for the step of a setup failure, and incidents without a world id are
  not found again: for those every single check records another incident.\<close>

theorem crash_recorded_once:
  assumes "src_Status src (Number inst) = Inr st" and "Crashed (st_Failure st)"
    and "incidents_ok (hs_incidents h)"
    and "LastIncident up (WorldID inst) (hs_incidents h) = Inr prev"
    and "\<forall>r\<in>set (it_rows (hs_incidents h)). inc_At r \<le> now" and "fl_FinishedAt (st_Failure st) \<le> now"
  shows "fst (check_times up tail src inst (now # ts) h) =
    (if WorldID inst = '''' \<or> fl_InitStep (st_Failure st) \<noteq> '''' then length (now # ts)
     else if isNew (st_Failure st) prev then 1 else 0)"
proof -
  let ?f = "st_Failure st" and ?w = "\<lambda>r. inc_WorldID r = WorldID inst"
  consider (always) "WorldID inst = '''' \<or> fl_InitStep ?f \<noteq> ''''"
    | (old) "\<not> (WorldID inst = '''' \<or> fl_InitStep ?f \<noteq> '''')" "\<not> isNew ?f prev"
    | (fresh) "WorldID inst \<noteq> ''''" "fl_InitStep ?f = ''''" "isNew ?f prev" by blast
  then show ?thesis
  proof cases
    case always
    then show ?thesis
      by (simp only: check_times_always [OF assms(1,2) always assms(3)] simp_thms if_True)
  next
    case old
    then show ?thesis
      by (simp only: check_times_old [OF assms(1,2,4)] simp_thms if_False fst_conv)
  next
    case fresh
    let ?i = "(new_incident src tail inst ?f now)\<lparr>inc_ID := it_next (hs_incidents h),
         inc_Step := '''', inc_Acknowledged := False\<rparr>"
    obtain h' where h': "checkOne up tail now src inst h = (True, h')"
      "it_rows (hs_incidents h') = it_rows (hs_incidents h) @ [?i]"
      using checkOne_new [OF assms(1,2,4) fresh(3)] by blast
    have "LastIncident up (WorldID inst) (hs_incidents h') = Inr (Some ?i)"
      using fresh(1) h'(2) assms(3,5)
        newest_first_snoc [of "filter ?w (it_rows (hs_incidents h))" ?i]
      by (simp add: LastIncident_def first_row_def new_incident_def incidents_ok_def)
    moreover have "\<not> isNew ?f (Some ?i)"
      using fresh(2) assms(6) by (simp add: isNew_def new_incident_def)
    ultimately have "check_times up tail src inst ts h' = (0, h')"
      using check_times_old [OF assms(1,2)] by blast
    then show ?thesis using h'(1) fresh by simp
  qed
qed

definition crashed_source :: "string \<Rightarrow> Source" where
  "crashed_source step = \<lparr>src_GameID = GameMinecraft, src_List = Inr [],
     src_Status = (\<lambda>n. Inr \<lparr>st_Lifecycle = LifecycleRunning, st_Available = False, st_StartedAt = 0,
       st_Address = '''', st_Failure = no_failure\<lparr>fl_RestartCount := 2, fl_ExitCode := 1,
         fl_FinishedAt := 10, fl_InitStep := step\<rparr>\<rparr>),
     src_CrashLogs = (\<lambda>n tail step. Inr ''java.lang.OutOfMemoryError'')\<rparr>"

definition watched :: Instance where
  "watched = zero_instance\<lparr>WorldID := ''w1'', Number := 1\<rparr>"

definition fresh_health :: HealthState where
  "fresh_health = \<lparr>hs_incidents = \<lparr>it_rows = [], it_next = 1\<rparr>, hs_events = []\<rparr>"

theorem crash_recorded_once_witness:
  "fst (check_times up 100 (crashed_source '''') watched [30, 60, 90] fresh_health) = 1 \<and>
   fst (check_times up 100 (crashed_source ''mod-reconciler'') watched [30, 60, 90] fresh_health) = 3"
proof -
  let ?st = "\<lambda>step. \<lparr>st_Lifecycle = LifecycleRunning, st_Available = False, st_StartedAt = 0,
       st_Address = '''', st_Failure = no_failure\<lparr>fl_RestartCount := 2, fl_ExitCode := 1,
         fl_FinishedAt := 10, fl_InitStep := step\<rparr>\<rparr>"
  have st: "src_Status (crashed_source step) (Number watched) = Inr (?st step)" for step
    by (simp add: crashed_source_def)
  have cr: "Crashed (st_Failure (?st step))" for step by (simp add: Crashed_def)
  have ok: "incidents_ok (hs_incidents fresh_health)"
    and prev: "LastIncident up (WorldID watched) (hs_incidents fresh_health) = Inr None"
    and at: "\<forall>r\<in>set (it_rows (hs_incidents fresh_health)). inc_At r \<le> 30"
    by (simp_all add: incidents_ok_def fresh_health_def LastIncident_def newest_first_def first_row_def)
  have fin: "fl_FinishedAt (st_Failure (?st step)) \<le> 30" for step by simp
  have w: "WorldID watched = ''w1''" by (simp add: watched_def)
  show ?thesis
    using crash_recorded_once [OF st cr ok prev at fin, of 100 "''''" "[60, 90]"]
      crash_recorded_once [OF st cr ok prev at fin, of 100 "''mod-reconciler''" "[60, 90]"]
    unfolding w by (simp add: isNew_def)
qed

end
