(* ===== verification/InstanceTables.thy ===== *)
theory InstanceTables
  imports SqlStore Ops
begin

text \<open>
  \<open>internal/infra/store/instances.go\<close>, \<open>instance_tables.go\<close>, \<open>instance_repo.go\<close> and
  \<open>ownership.go\<close>: the tables of worlds, described as column lists, and the repository that turns
  a row into an Instance and back.

  A row is a map from column names to cells (a missing one is \<open>NULL\<close>) with the two timestamps
  SQLite writes; \<open>now\<close> is \<open>CURRENT_TIMESTAMP\<close>, which \<open>asTime\<close> reads back. A table is an
  association list by its primary key \<open>number\<close>. \<open>db\<close> is the driver, as in \<open>SqlStore\<close>.
\<close>

section \<open>Columns and tables\<close>

record InstanceRecord =
  ir_Number :: int
  ir_WorldID :: string
  ir_Name :: string
  ir_Slug :: string
  ir_Seed :: string
  ir_Password :: string
  ir_Loader :: string
  ir_Source :: string
  ir_Pack :: string
  ir_PackProvider :: string
  ir_PackRef :: string
  ir_MCVersion :: string
  ir_Tier :: string
  ir_State :: string
  ir_MOTD :: string
  ir_Difficulty :: string
  ir_Gamemode :: string
  ir_WorldType :: string
  ir_Map :: string
  ir_CollectionID :: string
  ir_MaxPlayers :: int
  ir_LBIP :: string
  ir_MemRequestGiB :: int
  ir_MemLimitGiB :: int
  ir_CPURequestMilli :: int
  ir_CPULimitMilli :: int
  ir_HeapInitGiB :: int
  ir_CreatedBy :: string
  ir_Host :: string
  ir_CreatedAt :: Time
  ir_LastUsed :: Time

definition zero_record :: InstanceRecord where
  "zero_record =
     \<lparr>ir_Number = 0, ir_WorldID = '''', ir_Name = '''', ir_Slug = '''', ir_Seed = '''',
      ir_Password = '''', ir_Loader = '''', ir_Source = '''', ir_Pack = '''',
      ir_PackProvider = '''', ir_PackRef = '''', ir_MCVersion = '''', ir_Tier = '''',
      ir_State = '''', ir_MOTD = '''', ir_Difficulty = '''', ir_Gamemode = '''',
      ir_WorldType = '''', ir_Map = '''', ir_CollectionID = '''', ir_MaxPlayers = 0,
      ir_LBIP = '''', ir_MemRequestGiB = 0, ir_MemLimitGiB = 0, ir_CPURequestMilli = 0,
      ir_CPULimitMilli = 0, ir_HeapInitGiB = 0, ir_CreatedBy = '''', ir_Host = '''',
      ir_CreatedAt = 0, ir_LastUsed = 0\<rparr>"

datatype Cell = Text string | Number_cell int

fun scan_text :: "Cell \<Rightarrow> goerr + string" where
  \<comment> \<open>\<open>database/sql\<close> converting a cell into a string\<close>
  "scan_text (Text s) = Inr s"
| "scan_text (Number_cell n) = Inr (show_int n)"

fun scan_int :: "Cell \<Rightarrow> goerr + int" where
  "scan_int (Number_cell n) = Inr n"
| "scan_int (Text s) =
     (case atoi s of None \<Rightarrow> Inl (Errorf ''sql: Scan error: invalid syntax'') | Some n \<Rightarrow> Inr n)"

record instanceColumn =
  ic_name :: string
  ic_sel :: "Cell option"
    \<comment> \<open>what \<open>COALESCE\<close> selects for \<open>NULL\<close>, if the column is selected through it\<close>
  ic_bind :: "InstanceRecord \<Rightarrow> Cell"
  ic_dest :: "Cell \<Rightarrow> InstanceRecord \<Rightarrow> goerr + InstanceRecord"

definition text_column ::
    "Cell option \<Rightarrow> string \<Rightarrow> (InstanceRecord \<Rightarrow> string) \<Rightarrow>
     ((string \<Rightarrow> string) \<Rightarrow> InstanceRecord \<Rightarrow> InstanceRecord) \<Rightarrow> instanceColumn" where
  "text_column d name get upd =
     \<lparr>ic_name = name, ic_sel = d, ic_bind = (\<lambda>r. Text (get r)),
      ic_dest = (\<lambda>v r. case scan_text v of Inl e \<Rightarrow> Inl e | Inr s \<Rightarrow> Inr (upd (\<lambda>_. s) r))\<rparr>"

definition int_column ::
    "Cell option \<Rightarrow> string \<Rightarrow> (InstanceRecord \<Rightarrow> int) \<Rightarrow>
     ((int \<Rightarrow> int) \<Rightarrow> InstanceRecord \<Rightarrow> InstanceRecord) \<Rightarrow> instanceColumn" where
  "int_column d name get upd =
     \<lparr>ic_name = name, ic_sel = d, ic_bind = (\<lambda>r. Number_cell (get r)),
      ic_dest = (\<lambda>v r. case scan_int v of Inl e \<Rightarrow> Inl e | Inr n \<Rightarrow> Inr (upd (\<lambda>_. n) r))\<rparr>"

abbreviation textCol where "textCol \<equiv> text_column (Some (Text ''''))"
abbreviation intCol where "intCol \<equiv> int_column (Some (Number_cell 0))"
abbreviation strictText where "strictText \<equiv> text_column None"
abbreviation strictInt where "strictInt \<equiv> int_column None"
abbreviation textOr where "textOr d \<equiv> text_column (Some (Text d))"

definition coreInstanceColumns :: "instanceColumn list" where
  "coreInstanceColumns =
     [strictInt ''number'' ir_Number ir_Number_update,
      textCol ''world_id'' ir_WorldID ir_WorldID_update,
      strictText ''name'' ir_Name ir_Name_update,
      strictText ''slug'' ir_Slug ir_Slug_update,
      textCol ''seed'' ir_Seed ir_Seed_update,
      textCol ''source'' ir_Source ir_Source_update,
      strictText ''tier'' ir_Tier ir_Tier_update,
      strictText ''state'' ir_State ir_State_update,
      textCol ''motd'' ir_MOTD ir_MOTD_update,
      intCol ''max_players'' ir_MaxPlayers ir_MaxPlayers_update,
      textCol ''lb_ip'' ir_LBIP ir_LBIP_update,
      textCol ''created_by'' ir_CreatedBy ir_CreatedBy_update,
      textCol ''host'' ir_Host ir_Host_update,
      intCol ''mem_request_gib'' ir_MemRequestGiB ir_MemRequestGiB_update,
      intCol ''mem_limit_gib'' ir_MemLimitGiB ir_MemLimitGiB_update,
      intCol ''cpu_request_milli'' ir_CPURequestMilli ir_CPURequestMilli_update,
      intCol ''cpu_limit_milli'' ir_CPULimitMilli ir_CPULimitMilli_update]"

definition minecraftColumns :: "instanceColumn list" where
  "minecraftColumns =
     [textCol ''loader'' ir_Loader ir_Loader_update,
      textCol ''pack'' ir_Pack ir_Pack_update,
      textCol ''pack_provider'' ir_PackProvider ir_PackProvider_update,
      textCol ''pack_ref'' ir_PackRef ir_PackRef_update,
      textCol ''mc_version'' ir_MCVersion ir_MCVersion_update,
      textOr ''normal'' ''difficulty'' ir_Difficulty ir_Difficulty_update,
      textOr ''survival'' ''gamemode'' ir_Gamemode ir_Gamemode_update,
      textOr ''default'' ''world_type'' ir_WorldType ir_WorldType_update,
      intCol ''heap_init_gib'' ir_HeapInitGiB ir_HeapInitGiB_update]"

definition valheimColumns :: "instanceColumn list" where
  "valheimColumns =
     [textCol ''password'' ir_Password ir_Password_update]"

definition gmodColumns :: "instanceColumn list" where
  "gmodColumns =
     [textCol ''pack'' ir_Pack ir_Pack_update,
      textCol ''pack_provider'' ir_PackProvider ir_PackProvider_update,
      textCol ''pack_ref'' ir_PackRef ir_PackRef_update,
      textOr ''sandbox'' ''gamemode'' ir_Gamemode ir_Gamemode_update,
      textOr ''gm_construct'' ''map'' ir_Map ir_Map_update,
      textCol ''password'' ir_Password ir_Password_update]"

record instanceTable =
  it_name :: string
  it_columns :: "instanceColumn list"

definition instanceTables :: "(GameID \<times> instanceTable) list" where
  "instanceTables =
     [(GameMinecraft, \<lparr>it_name = ''mc_instances'', it_columns = coreInstanceColumns @ minecraftColumns\<rparr>),
      (GameValheim, \<lparr>it_name = ''valheim_instances'', it_columns = coreInstanceColumns @ valheimColumns\<rparr>),
      (GameGMod, \<lparr>it_name = ''gmod_instances'', it_columns = coreInstanceColumns @ gmodColumns\<rparr>)]"

definition tableFor :: "GameID \<Rightarrow> goerr + instanceTable" where
  "tableFor g =
     (case map_of instanceTables g of
        None \<Rightarrow> Inl (Errorf (''no instance table registered for game '' @ go_quote g))
      | Some t \<Rightarrow> Inr t)"

section \<open>Rows\<close>

record Row =
  row_cells :: "string \<Rightarrow> Cell option"
  row_created :: Time
  row_used :: Time

type_synonym Rows = "(int \<times> Row) list"
type_synonym InstanceDb = "(string \<times> Rows) list"

definition bind_cells :: "instanceColumn list \<Rightarrow> InstanceRecord \<Rightarrow> string \<Rightarrow> Cell option" where
  "bind_cells cs r = map_of (map (\<lambda>c. (ic_name c, ic_bind c r)) cs)"

definition merge_cell :: "string \<Rightarrow> Cell option \<Rightarrow> Cell \<Rightarrow> Cell option" where
  \<comment> \<open>the \<open>SET\<close> of one column: \<open>number\<close> is left, \<open>world_id\<close> and \<open>created_by\<close> keep their first value\<close>
  "merge_cell name old new =
     (if name = ''number'' then old
      else if name = ''world_id'' then (if old = Some (Text '''') then Some new else old)
      else if name = ''created_by'' then (if old = Some (Text '''') then Some new else old)
      else Some new)"

definition merge_cells ::
    "instanceColumn list \<Rightarrow> InstanceRecord \<Rightarrow> (string \<Rightarrow> Cell option) \<Rightarrow> string \<Rightarrow> Cell option" where
  "merge_cells cs r old =
     fold (\<lambda>c m. m(ic_name c := merge_cell (ic_name c) (old (ic_name c)) (ic_bind c r))) cs old"

definition upsert_row ::
    "instanceColumn list \<Rightarrow> Time \<Rightarrow> InstanceRecord \<Rightarrow> Row option \<Rightarrow> Row" where
  "upsert_row cs now r old =
     (case old of
        None \<Rightarrow> \<lparr>row_cells = bind_cells cs r, row_created = now, row_used = now\<rparr>
      | Some q \<Rightarrow> q\<lparr>row_cells := merge_cells cs r (row_cells q), row_used := now\<rparr>)"

fun scan_cells ::
    "instanceColumn list \<Rightarrow> (string \<Rightarrow> Cell option) \<Rightarrow> InstanceRecord \<Rightarrow> goerr + InstanceRecord" where
  "scan_cells [] m r = Inr r"
| "scan_cells (c # cs) m r =
     (case (case m (ic_name c) of None \<Rightarrow> ic_sel c | Some v \<Rightarrow> Some v) of
        None \<Rightarrow> Inl (Errorf (''sql: Scan error on column '' @ ic_name c @ '': converting NULL''))
      | Some v \<Rightarrow> (case ic_dest c v r of Inl e \<Rightarrow> Inl e | Inr r' \<Rightarrow> scan_cells cs m r'))"

definition scan_row :: "instanceTable \<Rightarrow> Row \<Rightarrow> goerr + InstanceRecord" where
  "scan_row t q =
     (case scan_cells (it_columns t) (row_cells q) zero_record of
        Inl e \<Rightarrow> Inl e
      | Inr r \<Rightarrow> Inr (r\<lparr>ir_CreatedAt := row_created q, ir_LastUsed := row_used q\<rparr>))"

definition table_rows :: "InstanceDb \<Rightarrow> instanceTable \<Rightarrow> Rows" where
  "table_rows d t = mget d (it_name t) []"

definition upsertInstanceRow ::
    "Db \<Rightarrow> Time \<Rightarrow> GameID \<Rightarrow> InstanceRecord \<Rightarrow> InstanceDb \<Rightarrow> goerr option \<times> InstanceDb" where
  "upsertInstanceRow db now g r d =
     (case tableFor g of
        Inl e \<Rightarrow> (Some e, d)
      | Inr t \<Rightarrow>
          (case db ''upsert instance'' of
             Some e \<Rightarrow>
               (Some (Wrap (''upsert '' @ g @ '' instance '' @ show_int (ir_Number r) @ '': '') e ''''), d)
           | None \<Rightarrow>
               (let rows = table_rows d t;
                    row = upsert_row (it_columns t) now r (map_of rows (ir_Number r))
                in (None, AList.update (it_name t) (AList.update (ir_Number r) row rows) d))))"

definition getInstanceRow ::
    "Db \<Rightarrow> GameID \<Rightarrow> int \<Rightarrow> InstanceDb \<Rightarrow> goerr + InstanceRecord option" where
  "getInstanceRow db g n d =
     (case tableFor g of
        Inl e \<Rightarrow> Inl e
      | Inr t \<Rightarrow>
          (let failed = (\<lambda>e. Wrap (''get '' @ g @ '' instance '' @ show_int n @ '': '') e '''')
           in case db ''get instance'' of
                Some e \<Rightarrow> Inl (failed e)
              | None \<Rightarrow>
                  (case map_of (table_rows d t) n of
                     None \<Rightarrow> Inr None
                   | Some q \<Rightarrow> (case scan_row t q of Inl e \<Rightarrow> Inl (failed e) | Inr r \<Rightarrow> Inr (Some r)))))"

fun scan_rows :: "instanceTable \<Rightarrow> Rows \<Rightarrow> goerr + InstanceRecord list" where
  "scan_rows t [] = Inr []"
| "scan_rows t ((n, q) # rows) =
     (case scan_row t q of
        Inl e \<Rightarrow> Inl e
      | Inr r \<Rightarrow> (case scan_rows t rows of Inl e \<Rightarrow> Inl e | Inr rs \<Rightarrow> Inr (r # rs)))"

definition listInstanceRows :: "Db \<Rightarrow> GameID \<Rightarrow> InstanceDb \<Rightarrow> goerr + InstanceRecord list" where
  "listInstanceRows db g d =
     (case tableFor g of
        Inl e \<Rightarrow> Inl e
      | Inr t \<Rightarrow>
          (case db ''list instances'' of
             Some e \<Rightarrow> Inl (Wrap (''list '' @ g @ '' instances: '') e '''')
           | None \<Rightarrow> scan_rows t (sort_key fst (table_rows d t))))"

definition updateInstanceRowState ::
    "Db \<Rightarrow> Time \<Rightarrow> GameID \<Rightarrow> int \<Rightarrow> string \<Rightarrow> InstanceDb \<Rightarrow> goerr option \<times> InstanceDb" where
  "updateInstanceRowState db now g n state d =
     (case tableFor g of
        Inl e \<Rightarrow> (Some e, d)
      | Inr t \<Rightarrow>
          (case db ''update instance state'' of
             Some e \<Rightarrow> (Some e, d)
           | None \<Rightarrow>
               (case map_of (table_rows d t) n of
                  None \<Rightarrow> (None, d)
                | Some q \<Rightarrow>
                    (None, AList.update (it_name t)
                       (AList.update n (q\<lparr>row_cells := (row_cells q)(''state'' \<mapsto> Text state),
                          row_used := now\<rparr>) (table_rows d t)) d))))"

definition deleteInstanceRow :: "Db \<Rightarrow> GameID \<Rightarrow> int \<Rightarrow> InstanceDb \<Rightarrow> goerr option \<times> InstanceDb" where
  "deleteInstanceRow db g n d =
     (case tableFor g of
        Inl e \<Rightarrow> (Some e, d)
      | Inr t \<Rightarrow>
          (case db ''delete instance'' of
             Some e \<Rightarrow> (Some e, d)
           | None \<Rightarrow> (None, AList.update (it_name t) (AList.delete n (table_rows d t)) d)))"

section \<open>Records and Instances\<close>

definition mapCoreToRecord :: "Instance \<Rightarrow> InstanceRecord" where
  "mapCoreToRecord inst =
     zero_record\<lparr>ir_Number := Number inst, ir_WorldID := WorldID inst, ir_Name := inst_Name inst,
       ir_Slug := Slug inst, ir_Source := inst_Source inst, ir_Tier := inst_Tier inst,
       ir_MemRequestGiB := MemRequestGiB (inst_Resources inst),
       ir_MemLimitGiB := MemLimitGiB (inst_Resources inst),
       ir_CPURequestMilli := CPURequestMilli (inst_Resources inst),
       ir_CPULimitMilli := CPULimitMilli (inst_Resources inst),
       ir_State := State inst, ir_MOTD := MOTD inst, ir_MaxPlayers := MaxPlayers inst,
       ir_LBIP := LBIP inst, ir_Host := EffectiveHost inst, ir_CreatedBy := CreatedBy inst,
       ir_CreatedAt := CreatedAt inst, ir_LastUsed := LastUsed inst\<rparr>"

definition mapCoreFromRecord :: "InstanceRecord \<Rightarrow> GameID \<Rightarrow> Instance" where
  "mapCoreFromRecord r g =
     zero_instance\<lparr>WorldID := ir_WorldID r, inst_GameID := g, Number := ir_Number r,
       inst_Name := ir_Name r, Slug := ir_Slug r, inst_Source := NormalizeSource (ir_Source r),
       inst_Tier := NormalizeTier (ir_Tier r),
       inst_Resources := \<lparr>MemRequestGiB = ir_MemRequestGiB r, MemLimitGiB = ir_MemLimitGiB r,
         CPURequestMilli = ir_CPURequestMilli r, CPULimitMilli = ir_CPULimitMilli r\<rparr>,
       State := ir_State r, MOTD := ir_MOTD r, MaxPlayers := ir_MaxPlayers r, LBIP := ir_LBIP r,
       inst_Host := NormalizeHost (ir_Host r), CreatedBy := ir_CreatedBy r,
       CreatedAt := ir_CreatedAt r, LastUsed := ir_LastUsed r\<rparr>"

definition pack_to_record :: "Pack option \<Rightarrow> InstanceRecord \<Rightarrow> InstanceRecord" where
  "pack_to_record p r =
     (case p of
        None \<Rightarrow> r
      | Some p \<Rightarrow> r\<lparr>ir_Pack := pack_Name p, ir_PackProvider := pack_Provider p, ir_PackRef := pack_Ref p\<rparr>)"

definition game_to_record :: "Instance \<Rightarrow> InstanceRecord \<Rightarrow> InstanceRecord" where
  \<comment> \<open>the \<open>ToRecord\<close> of the game's mapper, if it has one\<close>
  "game_to_record inst r =
     (if inst_GameID inst = GameMinecraft then
        (case Minecraft inst of
           None \<Rightarrow> r
         | Some m \<Rightarrow>
             pack_to_record (mc_Pack m)
               (r\<lparr>ir_Loader := mc_Loader m, ir_MCVersion := mc_MCVersion m,
                  ir_Difficulty := mc_Difficulty m, ir_Gamemode := mc_Gamemode m,
                  ir_WorldType := mc_WorldType m, ir_Seed := mc_Seed m,
                  ir_HeapInitGiB := mc_HeapInitGiB m\<rparr>))
      else if inst_GameID inst = GameGMod then
        (case GMod inst of
           None \<Rightarrow> r
         | Some g \<Rightarrow>
             pack_to_record (gm_Pack g)
               (r\<lparr>ir_Gamemode := gm_Gamemode g, ir_Map := gm_Map g, ir_Password := gm_Password g\<rparr>))
      else if inst_GameID inst = GameValheim then
        (case Valheim inst of
           None \<Rightarrow> r
         | Some v \<Rightarrow> r\<lparr>ir_Password := vh_Password v, ir_Seed := vh_Seed v\<rparr>)
      else r)"

definition toRecord :: "Instance \<Rightarrow> InstanceRecord" where
  "toRecord inst = game_to_record inst (mapCoreToRecord inst)"

definition record_pack :: "Provider \<Rightarrow> InstanceRecord \<Rightarrow> Pack" where
  "record_pack d r =
     \<lparr>pack_Provider = (if ir_PackProvider r = '''' then d else ir_PackProvider r),
      pack_Ref = ir_PackRef r, pack_Name = ir_Pack r\<rparr>"

definition game_from_record :: "InstanceRecord \<Rightarrow> GameID \<Rightarrow> Instance \<Rightarrow> Instance" where
  "game_from_record r g inst =
     (if g = GameMinecraft then
        inst\<lparr>Minecraft := Some
          \<lparr>mc_Loader = ParseLoader (ir_Loader r),
           mc_Pack = (if inst_Source inst = SourceModpack \<and> ir_PackRef r \<noteq> ''''
                      then Some (record_pack ProviderCurseForge r) else None),
           mc_MCVersion = ir_MCVersion r, mc_Difficulty = ir_Difficulty r,
           mc_Gamemode = ir_Gamemode r, mc_WorldType = ir_WorldType r, mc_Seed = ir_Seed r,
           mc_HeapInitGiB = ir_HeapInitGiB r\<rparr>\<rparr>
      else if g = GameGMod then
        inst\<lparr>GMod := Some
          \<lparr>gm_Pack = (if ir_PackRef r \<noteq> '''' then Some (record_pack ProviderSteamWorkshop r) else None),
           gm_Gamemode = ir_Gamemode r, gm_Map = ir_Map r, gm_Password = ir_Password r\<rparr>\<rparr>
      else if g = GameValheim then
        inst\<lparr>Valheim := Some \<lparr>vh_Password = ir_Password r, vh_Seed = ir_Seed r\<rparr>\<rparr>
      else inst)"

definition fromRecord :: "InstanceRecord \<Rightarrow> GameID \<Rightarrow> Instance outcome" where
  "fromRecord r g =
     (let inst = game_from_record r g (mapCoreFromRecord r g)
      in case ProfileFor g of
           None \<Rightarrow> Panic (unknown_game g)
         | Some profile \<Rightarrow> EnsureDefaults profile '''' inst)"

section \<open>The repository\<close>

text \<open>A repository is its game profile; \<open>None\<close> is one without a store, whose methods do nothing.\<close>

type_synonym InstanceRepo = "GameProfile option"

definition Repo_Upsert :: "InstanceRepo \<Rightarrow> Db \<Rightarrow> Time \<Rightarrow> Instance \<Rightarrow> (InstanceDb, unit) op" where
  "Repo_Upsert repo db now inst =
     (case repo of
        None \<Rightarrow> ret ()
      | Some p \<Rightarrow>
          (let inst = (if inst_GameID inst = '''' then inst\<lparr>inst_GameID := gp_ID p\<rparr> else inst)
           in of_exec (upsertInstanceRow db now (inst_GameID inst) (toRecord inst))))"

definition Repo_Get :: "InstanceRepo \<Rightarrow> Db \<Rightarrow> int \<Rightarrow> (InstanceDb, Instance option) op" where
  "Repo_Get repo db n =
     (case repo of
        None \<Rightarrow> ret None
      | Some p \<Rightarrow>
          bindo (gets (getInstanceRow db (gp_ID p) n)) (\<lambda>r. bindo (of_sum r) (\<lambda>r.
            case r of
              None \<Rightarrow> ret None
            | Some r \<Rightarrow> bindo (of_outcome (fromRecord r (gp_ID p))) (\<lambda>i. ret (Some i)))))"

definition Repo_List :: "InstanceRepo \<Rightarrow> Db \<Rightarrow> (InstanceDb, Instance list) op" where
  "Repo_List repo db =
     (case repo of
        None \<Rightarrow> ret []
      | Some p \<Rightarrow>
          bindo (gets (listInstanceRows db (gp_ID p))) (\<lambda>rs. bindo (of_sum rs) (\<lambda>rs.
            mapO (\<lambda>r. of_outcome (fromRecord r (gp_ID p))) rs)))"

definition Repo_UpdateState :: "InstanceRepo \<Rightarrow> Db \<Rightarrow> Time \<Rightarrow> int \<Rightarrow> string \<Rightarrow> (InstanceDb, unit) op" where
  "Repo_UpdateState repo db now n state =
     (case repo of
        None \<Rightarrow> ret ()
      | Some p \<Rightarrow> of_exec (updateInstanceRowState db now (gp_ID p) n state))"

definition Repo_Delete :: "InstanceRepo \<Rightarrow> Db \<Rightarrow> int \<Rightarrow> (InstanceDb, unit) op" where
  "Repo_Delete repo db n =
     (case repo of
        None \<Rightarrow> ret ()
      | Some p \<Rightarrow> of_exec (deleteInstanceRow db (gp_ID p) n))"

definition InstancesCreatedBy :: "Db \<Rightarrow> string \<Rightarrow> InstanceDb \<Rightarrow> goerr + InstanceID list" where
  "InstancesCreatedBy db subject d =
     (if subject = '''' then Inr []
      else case db ''list instances created by'' of
             Some e \<Rightarrow> Inl (Wrap (''list instances created by '' @ go_quote subject @ '' in ''
                               @ gp_Table ValheimProfile @ '': '') e '''')
           | None \<Rightarrow>
               Inr (concat (map (\<lambda>p. map (\<lambda>(n, q). NewInstanceID (gp_ID p) n)
                      (filter (\<lambda>(n, q). row_cells q ''created_by'' = Some (Text subject))
                         (sort_key fst (mget d (gp_Table p) []))))
                    Profiles)))"

section \<open>Rows read back what was written\<close>

definition kept_core :: "InstanceRecord \<Rightarrow> InstanceRecord" where
  \<comment> \<open>the fields every table has a column for\<close>
  "kept_core r =
     zero_record\<lparr>ir_Number := ir_Number r, ir_WorldID := ir_WorldID r, ir_Name := ir_Name r,
       ir_Slug := ir_Slug r, ir_Seed := ir_Seed r, ir_Source := ir_Source r, ir_Tier := ir_Tier r,
       ir_State := ir_State r, ir_MOTD := ir_MOTD r, ir_MaxPlayers := ir_MaxPlayers r,
       ir_LBIP := ir_LBIP r, ir_CreatedBy := ir_CreatedBy r, ir_Host := ir_Host r,
       ir_MemRequestGiB := ir_MemRequestGiB r, ir_MemLimitGiB := ir_MemLimitGiB r,
       ir_CPURequestMilli := ir_CPURequestMilli r, ir_CPULimitMilli := ir_CPULimitMilli r\<rparr>"

definition kept_fields :: "GameID \<Rightarrow> InstanceRecord \<Rightarrow> InstanceRecord" where
  "kept_fields g r =
     (if g = GameMinecraft then
        (kept_core r)\<lparr>ir_Loader := ir_Loader r, ir_Pack := ir_Pack r, ir_PackProvider := ir_PackProvider r,
          ir_PackRef := ir_PackRef r, ir_MCVersion := ir_MCVersion r, ir_Difficulty := ir_Difficulty r,
          ir_Gamemode := ir_Gamemode r, ir_WorldType := ir_WorldType r, ir_HeapInitGiB := ir_HeapInitGiB r\<rparr>
      else if g = GameValheim then (kept_core r)\<lparr>ir_Password := ir_Password r\<rparr>
      else (kept_core r)\<lparr>ir_Pack := ir_Pack r, ir_PackProvider := ir_PackProvider r,
          ir_PackRef := ir_PackRef r, ir_Gamemode := ir_Gamemode r, ir_Map := ir_Map r,
          ir_Password := ir_Password r\<rparr>)"

lemmas column_defs = text_column_def int_column_def coreInstanceColumns_def minecraftColumns_def
  valheimColumns_def gmodColumns_def

lemma scan_cells_cong:
  assumes "\<And>c. c \<in> set cs \<Longrightarrow> m (ic_name c) = n (ic_name c)"
  shows "scan_cells cs m r = scan_cells cs n r"
  using assms by (induction cs arbitrary: r) (auto split: option.split sum.split)

fun scan_self :: "instanceColumn list \<Rightarrow> InstanceRecord \<Rightarrow> InstanceRecord \<Rightarrow> goerr + InstanceRecord" where
  \<comment> \<open>scanning the cells a record was bound to\<close>
  "scan_self [] r s = Inr s"
| "scan_self (c # cs) r s =
     (case ic_dest c (ic_bind c r) s of Inl e \<Rightarrow> Inl e | Inr s' \<Rightarrow> scan_self cs r s')"

lemma bind_cells_at:
  "distinct (map ic_name cs) \<Longrightarrow> c \<in> set cs \<Longrightarrow> bind_cells cs r (ic_name c) = Some (ic_bind c r)"
  by (simp add: bind_cells_def map_of_eq_Some_iff comp_def rev_image_eqI)

lemma scan_bind_self:
  assumes "\<And>c. c \<in> set cs \<Longrightarrow> m (ic_name c) = Some (ic_bind c r)"
  shows "scan_cells cs m s = scan_self cs r s"
  using assms by (induction cs arbitrary: s) (auto split: sum.split)

lemma distinct_columns:
  "distinct (map ic_name (coreInstanceColumns @ minecraftColumns))"
  "distinct (map ic_name (coreInstanceColumns @ valheimColumns))"
  "distinct (map ic_name (coreInstanceColumns @ gmodColumns))"
  by (simp_all add: column_defs)

lemma scan_self_core: "scan_self (coreInstanceColumns @ cs) r zero_record = scan_self cs r (kept_core r)"
  by (simp add: column_defs kept_core_def)

lemma scan_self_tables:
  "scan_self (coreInstanceColumns @ minecraftColumns) r zero_record = Inr (kept_fields GameMinecraft r)"
  "scan_self (coreInstanceColumns @ valheimColumns) r zero_record = Inr (kept_fields GameValheim r)"
  "scan_self (coreInstanceColumns @ gmodColumns) r zero_record = Inr (kept_fields GameGMod r)"
  unfolding scan_self_core by (simp_all add: column_defs kept_fields_def)

definition merge_record :: "InstanceRecord \<Rightarrow> InstanceRecord \<Rightarrow> InstanceRecord" where
  "merge_record r old =
     r\<lparr>ir_Number := ir_Number old,
       ir_WorldID := (if ir_WorldID old = '''' then ir_WorldID r else ir_WorldID old),
       ir_CreatedBy := (if ir_CreatedBy old = '''' then ir_CreatedBy r else ir_CreatedBy old)\<rparr>"

lemma merge_columns:
  "\<forall>c\<in>set (coreInstanceColumns @ minecraftColumns @ valheimColumns @ gmodColumns).
     merge_cell (ic_name c) (Some (ic_bind c old)) (ic_bind c r) = Some (ic_bind c (merge_record r old))"
  by (simp add: column_defs merge_cell_def merge_record_def)

lemma set_state_columns:
  "\<forall>c\<in>set (coreInstanceColumns @ minecraftColumns @ valheimColumns @ gmodColumns).
     ic_bind c (r\<lparr>ir_State := s\<rparr>) = (if ic_name c = ''state'' then Text s else ic_bind c r)"
  by (simp add: column_defs)

lemma tableFor_cases:
  assumes "tableFor g = Inr t"
  obtains (mc) "g = GameMinecraft" "t = \<lparr>it_name = ''mc_instances'', it_columns = coreInstanceColumns @ minecraftColumns\<rparr>"
    | (vh) "g = GameValheim" "t = \<lparr>it_name = ''valheim_instances'', it_columns = coreInstanceColumns @ valheimColumns\<rparr>"
    | (gm) "g = GameGMod" "t = \<lparr>it_name = ''gmod_instances'', it_columns = coreInstanceColumns @ gmodColumns\<rparr>"
  using assms by (auto simp: tableFor_def instanceTables_def split: if_splits)

lemma tableFor_props:
  assumes "tableFor g = Inr t"
  shows tableFor_distinct: "distinct (map ic_name (it_columns t))"
    and tableFor_scan: "scan_self (it_columns t) r zero_record = Inr (kept_fields g r)"
    and tableFor_columns: "set (it_columns t) \<subseteq>
      set (coreInstanceColumns @ minecraftColumns @ valheimColumns @ gmodColumns)"
    and tableFor_state: "''state'' \<in> ic_name ` set (it_columns t)"
proof -
  have "''state'' \<in> ic_name ` set coreInstanceColumns" by (simp add: column_defs)
  moreover from assms have "set coreInstanceColumns \<subseteq> set (it_columns t)"
    by (cases rule: tableFor_cases) auto
  ultimately show "''state'' \<in> ic_name ` set (it_columns t)" by blast
  show "distinct (map ic_name (it_columns t))"
    using assms distinct_columns by (cases rule: tableFor_cases) auto
  show "scan_self (it_columns t) r zero_record = Inr (kept_fields g r)"
    using assms by (cases rule: tableFor_cases) (simp_all only: scan_self_tables instanceTable.select_convs)
  show "set (it_columns t) \<subseteq> set (coreInstanceColumns @ minecraftColumns @ valheimColumns @ gmodColumns)"
    using assms by (cases rule: tableFor_cases) auto
qed

lemma tableFor_names: "tableFor g = Inr t \<Longrightarrow> tableFor g' = Inr t' \<Longrightarrow> it_name t = it_name t' \<Longrightarrow> g = g'"
  by (elim tableFor_cases) simp_all

lemma bind_cells_None: "k \<notin> ic_name ` set cs \<Longrightarrow> bind_cells cs r k = None"
  by (auto simp: bind_cells_def map_of_eq_None_iff)

lemma fold_cells:
  "distinct (map ic_name cs) \<Longrightarrow> fold (\<lambda>c m. m(ic_name c := f c)) cs m k =
     (if k \<in> ic_name ` set cs then f (the (find (\<lambda>c. ic_name c = k) cs)) else m k)"
  by (induction cs arbitrary: m) (auto simp: image_iff)

lemma merge_bind:
  assumes t: "tableFor g = Inr t"
  shows "merge_cells (it_columns t) r (bind_cells (it_columns t) old) =
    bind_cells (it_columns t) (merge_record r old)"
proof
  fix k
  let ?cs = "it_columns t"
  show "merge_cells ?cs r (bind_cells ?cs old) k = bind_cells ?cs (merge_record r old) k"
  proof (cases "k \<in> ic_name ` set ?cs")
    case False
    then show ?thesis by (simp add: merge_cells_def fold_cells tableFor_distinct [OF t] bind_cells_None)
  next
    case True
    then obtain c where "find (\<lambda>c. ic_name c = k) ?cs = Some c"
      by (cases "find (\<lambda>c. ic_name c = k) ?cs") (auto simp: find_None_iff)
    then have c: "find (\<lambda>c. ic_name c = k) ?cs = Some c" "c \<in> set ?cs" "ic_name c = k"
      by (auto simp: find_Some_iff)
    moreover have "merge_cell (ic_name c) (Some (ic_bind c old)) (ic_bind c r) = Some (ic_bind c (merge_record r old))"
      using merge_columns tableFor_columns [OF t] c(2) by blast
    ultimately show ?thesis
      using True bind_cells_at [OF tableFor_distinct [OF t] c(2)]
      by (simp add: merge_cells_def fold_cells tableFor_distinct [OF t])
  qed
qed

lemma state_bind:
  assumes t: "tableFor g = Inr t"
  shows "(bind_cells (it_columns t) r)(''state'' \<mapsto> Text s) = bind_cells (it_columns t) (r\<lparr>ir_State := s\<rparr>)"
proof
  fix k
  let ?cs = "it_columns t"
  show "((bind_cells ?cs r)(''state'' \<mapsto> Text s)) k = bind_cells ?cs (r\<lparr>ir_State := s\<rparr>) k"
  proof (cases "k \<in> ic_name ` set ?cs")
    case False
    then have "k \<noteq> ''state''" using tableFor_state [OF t] by auto
    with False show ?thesis by (simp add: bind_cells_None)
  next
    case True
    then obtain c where c: "c \<in> set ?cs" "k = ic_name c" by blast
    then show ?thesis
      using bind_cells_at [OF tableFor_distinct [OF t] c(1)] set_state_columns tableFor_columns [OF t]
      by (simp add: subset_iff)
  qed
qed

section \<open>The tables as maps from slots to records\<close>

definition row_ok :: "instanceTable \<Rightarrow> int \<Rightarrow> Row \<Rightarrow> bool" where
  "row_ok t n q = (\<exists>r. ir_Number r = n \<and> row_cells q = bind_cells (it_columns t) r)"

definition db_ok :: "InstanceDb \<Rightarrow> bool" where
  \<comment> \<open>slots are distinct, and every row was written by an upsert or a state change\<close>
  "db_ok d = (\<forall>g t. tableFor g = Inr t \<longrightarrow>
     distinct (map fst (table_rows d t)) \<and> (\<forall>(n, q)\<in>set (table_rows d t). row_ok t n q))"

abbreviation sql_up :: Db where "sql_up \<equiv> \<lambda>_. None"

definition record_at :: "InstanceDb \<Rightarrow> GameID \<Rightarrow> int \<Rightarrow> InstanceRecord option" where
  "record_at d g n = (case getInstanceRow sql_up g n d of Inr r \<Rightarrow> r | Inl e \<Rightarrow> None)"

lemma db_okE:
  "db_ok d \<Longrightarrow> tableFor g = Inr t \<Longrightarrow> distinct (map fst (table_rows d t))"
  "db_ok d \<Longrightarrow> tableFor g = Inr t \<Longrightarrow> (n, q) \<in> set (table_rows d t) \<Longrightarrow> row_ok t n q"
  by (simp add: db_ok_def) (fastforce simp: db_ok_def)

lemma scan_bound:
  assumes "tableFor g = Inr t" and "row_cells q = bind_cells (it_columns t) r"
  shows "scan_row t q = Inr ((kept_fields g r)\<lparr>ir_CreatedAt := row_created q, ir_LastUsed := row_used q\<rparr>)"
proof -
  have "scan_cells (it_columns t) (row_cells q) zero_record = scan_self (it_columns t) r zero_record"
    by (rule scan_bind_self) (simp add: assms(2) bind_cells_at tableFor_distinct [OF assms(1)])
  then show ?thesis by (simp add: scan_row_def tableFor_scan [OF assms(1)])
qed

lemma kept_fields_sel [simp]:
  "ir_Number (kept_fields g r) = ir_Number r" "ir_WorldID (kept_fields g r) = ir_WorldID r"
  "ir_CreatedBy (kept_fields g r) = ir_CreatedBy r"
  by (simp_all add: kept_fields_def kept_core_def)

lemma record_at_row:
  assumes "tableFor g = Inr t" and "db_ok d"
  shows "record_at d g n =
    (case map_of (table_rows d t) n of None \<Rightarrow> None
     | Some q \<Rightarrow> (case scan_row t q of Inr r \<Rightarrow> Some r | Inl e \<Rightarrow> None))"
  using assms(1) by (auto simp: record_at_def getInstanceRow_def Let_def split: option.split sum.split)

lemma record_at_Number:
  assumes "db_ok d" and "record_at d g n = Some r"
  shows "ir_Number r = n"
proof (cases "tableFor g")
  case (Inr t)
  then obtain q where q: "map_of (table_rows d t) n = Some q" "scan_row t q = Inr r"
    using assms by (auto simp: record_at_row split: option.splits sum.splits)
  obtain r' where "ir_Number r' = n" "row_cells q = bind_cells (it_columns t) r'"
    using db_okE(2) [OF assms(1) Inr map_of_SomeD [OF q(1)]] by (auto simp: row_ok_def)
  then show ?thesis using scan_bound [OF Inr, of q r'] q(2) by auto
qed (use assms in \<open>simp add: record_at_def getInstanceRow_def\<close>)


lemma table_rows_update:
  assumes "tableFor g = Inr t" and "tableFor g' = Inr t'"
  shows "table_rows (AList.update (it_name t) rows d) t' = (if g' = g then rows else table_rows d t')"
  using assms tableFor_names [OF assms] by (auto simp: table_rows_def mget_update)

lemma record_at_update:
  assumes "tableFor g = Inr t"
  shows "record_at (AList.update (it_name t) rows d) g' n =
    (if g' = g then
       (case map_of rows n of None \<Rightarrow> None
        | Some q \<Rightarrow> (case scan_row t q of Inr r \<Rightarrow> Some r | Inl e \<Rightarrow> None))
     else record_at d g' n)"
proof (cases "tableFor g'")
  case (Inl e)
  then show ?thesis using assms by (auto simp: record_at_def getInstanceRow_def)
next
  case (Inr t')
  then show ?thesis
    using assms table_rows_update [OF assms Inr]
    by (auto simp: record_at_def getInstanceRow_def Let_def split: option.split sum.split)
qed

lemma db_ok_update:
  assumes "db_ok d" and "tableFor g = Inr t" and "distinct (map fst rows)"
    and "\<And>n q. (n, q) \<in> set rows \<Longrightarrow> row_ok t n q"
  shows "db_ok (AList.update (it_name t) rows d)"
  unfolding db_ok_def
proof (intro allI impI)
  fix g' t' assume t': "tableFor g' = Inr t'"
  show "distinct (map fst (table_rows (AList.update (it_name t) rows d) t')) \<and>
    (\<forall>(n, q)\<in>set (table_rows (AList.update (it_name t) rows d) t'). row_ok t' n q)"
    using assms db_okE [OF assms(1) t'] t' by (auto simp: table_rows_update [OF assms(2) t'])
qed

lemma row_ok_upsert:
  assumes t: "tableFor g = Inr t" and old: "\<And>q. old = Some q \<Longrightarrow> row_ok t (ir_Number r) q"
  shows "row_ok t (ir_Number r) (upsert_row (it_columns t) now r old)"
proof (cases old)
  case (Some q)
  then obtain o' where "ir_Number o' = ir_Number r" "row_cells q = bind_cells (it_columns t) o'"
    using old by (auto simp: row_ok_def)
  then show ?thesis
    using Some by (auto simp: row_ok_def upsert_row_def merge_bind [OF t] merge_record_def
      intro!: exI [of _ "merge_record r o'"])
qed (auto simp: row_ok_def upsert_row_def)

lemma scan_upsert:
  assumes t: "tableFor g = Inr t" and "db_ok d" and q: "map_of (table_rows d t) (ir_Number r) = Some q"
  shows "\<exists>o'. record_at d g (ir_Number r) = Some o' \<and>
    scan_row t (upsert_row (it_columns t) now r (Some q)) =
      Inr ((kept_fields g (merge_record r o'))\<lparr>ir_CreatedAt := ir_CreatedAt o', ir_LastUsed := now\<rparr>)"
proof -
  obtain o' where o': "ir_Number o' = ir_Number r" "row_cells q = bind_cells (it_columns t) o'"
    using db_okE(2) [OF assms(2) t map_of_SomeD [OF q]] by (auto simp: row_ok_def)
  have keep: "merge_record r ((kept_fields g x)\<lparr>ir_CreatedAt := a, ir_LastUsed := b\<rparr>) = merge_record r x"
    for x a b by (simp add: merge_record_def)
  have "record_at d g (ir_Number r) =
      Some ((kept_fields g o')\<lparr>ir_CreatedAt := row_created q, ir_LastUsed := row_used q\<rparr>)"
    using q by (simp add: record_at_row [OF t assms(2)] scan_bound [OF t o'(2)])
  moreover have "scan_row t (upsert_row (it_columns t) now r (Some q)) =
      Inr ((kept_fields g (merge_record r o'))\<lparr>ir_CreatedAt := row_created q, ir_LastUsed := now\<rparr>)"
    by (subst scan_bound [OF t, of _ "merge_record r o'"])
      (simp_all add: upsert_row_def o'(2) merge_bind [OF t])
  ultimately show ?thesis by (simp add: keep)
qed

lemma upsert_spec:
  assumes t: "tableFor g = Inr t" and ok: "db_ok d"
  shows "\<exists>d'. upsertInstanceRow sql_up now g r d = (None, d') \<and> db_ok d' \<and>
    (\<forall>g' n. record_at d' g' n = (if g' = g \<and> n = ir_Number r then
      Some (case record_at d g (ir_Number r) of
          None \<Rightarrow> (kept_fields g r)\<lparr>ir_CreatedAt := now, ir_LastUsed := now\<rparr>
        | Some o' \<Rightarrow> (kept_fields g (merge_record r o'))\<lparr>ir_CreatedAt := ir_CreatedAt o', ir_LastUsed := now\<rparr>)
      else record_at d g' n))"
proof -
  let ?rows = "table_rows d t"
  let ?row = "upsert_row (it_columns t) now r (map_of ?rows (ir_Number r))"
  let ?d = "AList.update (it_name t) (AList.update (ir_Number r) ?row ?rows) d"
  have "upsertInstanceRow sql_up now g r d = (None, ?d)"
    by (simp add: upsertInstanceRow_def t Let_def)
  moreover have "db_ok ?d"
  proof (rule db_ok_update [OF ok t])
    show "distinct (map fst (AList.update (ir_Number r) ?row ?rows))"
      using db_okE(1) [OF ok t] by (rule distinct_update_keys)
    fix n q assume "(n, q) \<in> set (AList.update (ir_Number r) ?row ?rows)"
    then have "(n, q) = (ir_Number r, ?row) \<or> (n, q) \<in> set ?rows"
      using set_update_subset by fastforce
    then show "row_ok t n q"
      using db_okE(2) [OF ok t] row_ok_upsert [OF t] by (blast dest: map_of_SomeD)
  qed
  moreover have "scan_row t ?row = Inr (case record_at d g (ir_Number r) of
      None \<Rightarrow> (kept_fields g r)\<lparr>ir_CreatedAt := now, ir_LastUsed := now\<rparr>
    | Some o' \<Rightarrow> (kept_fields g (merge_record r o'))\<lparr>ir_CreatedAt := ir_CreatedAt o', ir_LastUsed := now\<rparr>)"
  proof (cases "map_of ?rows (ir_Number r)")
    case None
    then show ?thesis
      by (subst scan_bound [OF t, of _ r]) (simp_all add: upsert_row_def record_at_row [OF t ok])
  next
    case (Some q)
    then show ?thesis using scan_upsert [OF t ok Some, of now] by auto
  qed
  then have "record_at ?d g' n = (if g' = g \<and> n = ir_Number r then
      Some (case record_at d g (ir_Number r) of
          None \<Rightarrow> (kept_fields g r)\<lparr>ir_CreatedAt := now, ir_LastUsed := now\<rparr>
        | Some o' \<Rightarrow> (kept_fields g (merge_record r o'))\<lparr>ir_CreatedAt := ir_CreatedAt o', ir_LastUsed := now\<rparr>)
      else record_at d g' n)" for g' n
    using record_at_row [OF t ok, of n] by (auto simp: record_at_update [OF t] map_of_update)
  ultimately show ?thesis by blast
qed

lemma delete_spec:
  assumes t: "tableFor g = Inr t" and ok: "db_ok d"
  shows "\<exists>d'. deleteInstanceRow sql_up g m d = (None, d') \<and> db_ok d' \<and>
    (\<forall>g' n. record_at d' g' n = (if g' = g \<and> n = m then None else record_at d g' n))"
proof -
  let ?d = "AList.update (it_name t) (AList.delete m (table_rows d t)) d"
  have "db_ok ?d"
  proof (rule db_ok_update [OF ok t])
    show "distinct (map fst (AList.delete m (table_rows d t)))"
      using db_okE(1) [OF ok t] by (rule distinct_delete_keys)
    fix n q assume "(n, q) \<in> set (AList.delete m (table_rows d t))"
    then have "(n, q) \<in> set (table_rows d t)" by (rule subsetD [OF set_delete_subset])
    then show "row_ok t n q" by (rule db_okE(2) [OF ok t])
  qed
  then show ?thesis
    by (auto simp: deleteInstanceRow_def t record_at_update [OF t] map_of_delete record_at_row [OF t ok])
qed

lemma update_state_spec:
  assumes t: "tableFor g = Inr t" and ok: "db_ok d"
  shows "\<exists>d'. updateInstanceRowState sql_up now g m s d = (None, d') \<and> db_ok d' \<and>
    (\<forall>g' n. record_at d' g' n = (if g' = g \<and> n = m
      then map_option (\<lambda>r. r\<lparr>ir_State := s, ir_LastUsed := now\<rparr>) (record_at d g n) else record_at d g' n))"
proof (cases "map_of (table_rows d t) m")
  case None
  then show ?thesis
    using ok by (auto simp: updateInstanceRowState_def t record_at_row [OF t ok])
next
  case (Some q)
  let ?q = "q\<lparr>row_cells := (row_cells q)(''state'' \<mapsto> Text s), row_used := now\<rparr>"
  let ?d = "AList.update (it_name t) (AList.update m ?q (table_rows d t)) d"
  obtain o' where o': "ir_Number o' = m" "row_cells q = bind_cells (it_columns t) o'"
    using db_okE(2) [OF ok t map_of_SomeD [OF Some]] by (auto simp: row_ok_def)
  have q: "row_cells ?q = bind_cells (it_columns t) (o'\<lparr>ir_State := s\<rparr>)"
    by (simp add: o'(2) state_bind [OF t])
  have "db_ok ?d"
  proof (rule db_ok_update [OF ok t])
    show "distinct (map fst (AList.update m ?q (table_rows d t)))"
      using db_okE(1) [OF ok t] by (rule distinct_update_keys)
    fix n q' assume "(n, q') \<in> set (AList.update m ?q (table_rows d t))"
    then consider "n = m" "q' = ?q" | "(n, q') \<in> set (table_rows d t)" using set_update_subset by fastforce
    then show "row_ok t n q'"
      using db_okE(2) [OF ok t] q o'(1) by cases (auto simp: row_ok_def intro!: exI [of _ "o'\<lparr>ir_State := s\<rparr>"])
  qed
  moreover have "scan_row t ?q = Inr ((kept_fields g o')\<lparr>ir_CreatedAt := row_created q, ir_State := s, ir_LastUsed := now\<rparr>)"
    by (subst scan_bound [OF t q]) (simp add: kept_fields_def kept_core_def)
  ultimately show ?thesis
    using Some scan_bound [OF t o'(2)]
    by (auto simp: updateInstanceRowState_def t record_at_update [OF t] map_of_update record_at_row [OF t ok])
qed


section \<open>Instances read back what was saved\<close>

definition instance_at :: "GameProfile \<Rightarrow> InstanceDb \<Rightarrow> int \<Rightarrow> Instance option" where
  "instance_at p d n =
     (case record_at d (gp_ID p) n of
        None \<Rightarrow> None
      | Some r \<Rightarrow> (case fromRecord r (gp_ID p) of Val i \<Rightarrow> Some i | Panic s \<Rightarrow> None))"

definition pack_storable :: "Pack option \<Rightarrow> bool" where
  "pack_storable p = (case p of None \<Rightarrow> True | Some p \<Rightarrow> pack_Provider p \<noteq> '''' \<and> pack_Ref p \<noteq> '''')"

definition game_storable :: "GameID \<Rightarrow> Instance \<Rightarrow> bool" where
  "game_storable g i =
     (if g = GameMinecraft then
        Valheim i = None \<and> GMod i = None \<and>
        (case Minecraft i of
           None \<Rightarrow> False
         | Some m \<Rightarrow> ParseLoader (mc_Loader m) = mc_Loader m \<and> mc_Difficulty m \<noteq> '''' \<and>
             mc_Gamemode m \<noteq> '''' \<and> mc_WorldType m \<noteq> '''' \<and> pack_storable (mc_Pack m) \<and>
             (mc_Pack m \<noteq> None \<longrightarrow> inst_Source i = SourceModpack))
      else if g = GameGMod then
        Valheim i = None \<and> Minecraft i = None \<and>
        (case GMod i of
           None \<Rightarrow> False
         | Some m \<Rightarrow> gm_Gamemode m \<noteq> '''' \<and> gm_Map m \<noteq> '''' \<and> pack_storable (gm_Pack m))
      else Minecraft i = None \<and> GMod i = None \<and> Valheim i \<noteq> None)"

definition storable :: "GameProfile \<Rightarrow> Instance \<Rightarrow> bool" where
  \<comment> \<open>a complete Instance of the repository's game, in the spelling the database keeps\<close>
  "storable p i =
     (inst_GameID i = gp_ID p \<and> NormalizeSource (inst_Source i) = inst_Source i \<and>
      NormalizeTier (inst_Tier i) = inst_Tier i \<and> NormalizeHost (inst_Host i) = inst_Host i \<and>
      \<not> HostUnreachable i \<and> \<not> HostUnknown i \<and> Slug i \<noteq> '''' \<and> State i \<noteq> '''' \<and> 0 < MaxPlayers i \<and>
      (MOTD i = '''' \<longrightarrow> LBIP i = '''' \<and> inst_Name i = '''') \<and> game_storable (gp_ID p) i)"

lemma tier_not_empty: "NormalizeTier t \<noteq> ''''"
  by (simp add: NormalizeTier_def Let_def TierSmall_def TierLarge_def TierMedium_def)

lemma storable_complete:
  assumes "registered p" and "storable p i"
  shows "EnsureDefaults p '''' i = Val i"
proof -
  have gs: "game_storable (gp_ID p) i" using assms(2) by (simp add: storable_def)
  have upd: "Minecraft i = Some m \<Longrightarrow> i\<lparr>Minecraft := Some m\<rparr> = i"
    "GMod i = Some c \<Longrightarrow> i\<lparr>GMod := Some c\<rparr> = i" for m c by (cases i, simp)+
  have "game_defaults p i = Val i"
    using registered_cases [OF assms(1)]
  proof (elim disjE)
    assume g: "gp_ID p = GameMinecraft"
    then obtain m where "Minecraft i = Some m" "mc_Difficulty m \<noteq> ''''" "mc_Gamemode m \<noteq> ''''" "mc_WorldType m \<noteq> ''''"
      using gs by (auto simp: game_storable_def split: option.splits)
    then show ?thesis using g upd(1) by (simp add: game_defaults_def default_str_def)
  next
    assume g: "gp_ID p = GameValheim"
    then obtain v where "Valheim i = Some v" using gs by (auto simp: game_storable_def)
    then show ?thesis using g by (simp add: game_defaults_def)
  next
    assume g: "gp_ID p = GameGMod"
    then obtain m where "GMod i = Some m" "gm_Gamemode m \<noteq> ''''" "gm_Map m \<noteq> ''''"
      using gs by (auto simp: game_storable_def split: option.splits)
    then show ?thesis using g upd(2) by (simp add: game_defaults_def default_str_def)
  qed
  moreover have "common_defaults p '''' i = i"
    by (rule common_defaults_id)
      (use assms(2) tier_not_empty [of "inst_Tier i"] in \<open>auto simp: storable_def AssignLBIP_def\<close>)
  moreover have "inst_GameID i = gp_ID p" using assms(2) by (simp add: storable_def)
  moreover have "i\<lparr>inst_GameID := gp_ID p\<rparr> = i" using calculation(3) by (cases i) simp
  ultimately show ?thesis using assms(1) unfolding EnsureDefaults_Val by metis
qed

lemma Normalize_own [simp]:
  "NormalizeTier (NormalizeTier t) = NormalizeTier t"
  "ParseLoader (ParseLoader l) = ParseLoader l"
proof -
  have "NormalizeTier TierSmall = TierSmall" "NormalizeTier TierLarge = TierLarge"
    "NormalizeTier TierMedium = TierMedium" by code_simp+
  then show "NormalizeTier (NormalizeTier t) = NormalizeTier t" by (simp add: NormalizeTier_def Let_def)
  have "ParseLoader l \<in> set [LoaderFabric, LoaderForge, LoaderNeoForge, LoaderVanilla, '''']"
    by (simp add: ParseLoader_def Let_def)
  moreover have "\<forall>k\<in>set [LoaderFabric, LoaderForge, LoaderNeoForge, LoaderVanilla, '''']. ParseLoader k = k"
    by code_simp
  ultimately show "ParseLoader (ParseLoader l) = ParseLoader l" by blast
qed

abbreviation catalogued :: "GameProfile \<Rightarrow> bool" where
  "catalogued p \<equiv> ProfileFor (gp_ID p) = Some p"

lemma fromRecord_storable:
  assumes "catalogued p" and "fromRecord r (gp_ID p) = Val i"
  shows "storable p i" and "Number i = ir_Number r" and "WorldID i = ir_WorldID r"
    and "CreatedBy i = ir_CreatedBy r" and "CreatedAt i = ir_CreatedAt r"
proof -
  let ?g = "game_from_record r (gp_ID p) (mapCoreFromRecord r (gp_ID p))"
  have reg: "registered p" using assms(1) by (rule ProfileFor_registered)
  have "EnsureDefaults p '''' ?g = Val i" using assms by (simp add: fromRecord_def Let_def)
  moreover have "inst_GameID ?g = gp_ID p" by (simp add: game_from_record_def mapCoreFromRecord_def)
  ultimately obtain k where k: "game_defaults p ?g = Val k" "i = common_defaults p '''' k"
    unfolding EnsureDefaults_Val by (metis Instance.surjective Instance.update_convs(2))
  have src: "NormalizeSource (inst_Source ?g) = inst_Source ?g" "NormalizeTier (inst_Tier ?g) = inst_Tier ?g"
     "NormalizeHost (inst_Host ?g) = inst_Host ?g" "\<not> HostUnreachable ?g" "\<not> HostUnknown ?g"
     "inst_Tier ?g \<noteq> ''''" "Number ?g = ir_Number r" "WorldID ?g = ir_WorldID r"
     "CreatedBy ?g = ir_CreatedBy r" "CreatedAt ?g = ir_CreatedAt r"
    by (simp_all add: game_from_record_def mapCoreFromRecord_def zero_instance_def tier_not_empty)
  have frame: "inst_GameID k = inst_GameID ?g \<and> inst_Source k = inst_Source ?g \<and> inst_Tier k = inst_Tier ?g \<and>
      inst_Host k = inst_Host ?g \<and> HostUnreachable k = HostUnreachable ?g \<and> HostUnknown k = HostUnknown ?g \<and>
      Number k = Number ?g \<and> WorldID k = WorldID ?g \<and> CreatedBy k = CreatedBy ?g \<and> CreatedAt k = CreatedAt ?g"
    using k(1) by (auto simp: game_defaults_def Let_def split: if_splits option.splits)
  have "game_storable (gp_ID p) k"
    using registered_cases [OF reg]
  proof (elim disjE)
    assume g: "gp_ID p = GameMinecraft"
    show ?thesis
      using k(1) g by (auto simp: game_defaults_def Let_def game_storable_def game_from_record_def
        mapCoreFromRecord_def zero_instance_def default_str_def pack_storable_def record_pack_def
        ProviderCurseForge_def)
  next
    assume g: "gp_ID p = GameValheim"
    show ?thesis
      using k(1) g by (auto simp: game_defaults_def Let_def game_storable_def game_from_record_def
        mapCoreFromRecord_def zero_instance_def)
  next
    assume g: "gp_ID p = GameGMod"
    show ?thesis
      using k(1) g by (auto simp: game_defaults_def Let_def game_storable_def game_from_record_def
        mapCoreFromRecord_def zero_instance_def default_str_def pack_storable_def record_pack_def
        ProviderSteamWorkshop_def)
  qed
  then have "game_storable (gp_ID p) i"
    unfolding game_storable_def k(2) common_defaults_fields .
  moreover have "HostUnreachable i = HostUnreachable k" "HostUnknown i = HostUnknown k"
    unfolding k(2) by (simp_all add: common_defaults_def Let_def)
  moreover have "MOTD i = '''' \<longrightarrow> LBIP i = '''' \<and> inst_Name i = ''''"
    unfolding k(2) using common_defaults_MOTD by blast
  moreover have "Slug i \<noteq> ''''" "State i \<noteq> ''''" "0 < MaxPlayers i"
    unfolding k(2) common_defaults_fields
    by (simp_all add: StateStopped_def)
  ultimately show "storable p i"
    using frame src \<open>inst_GameID ?g = gp_ID p\<close> by (simp add: storable_def k(2) common_defaults_fields)
  have "CreatedAt i = CreatedAt k" by (simp add: k(2) common_defaults_def Let_def)
  then show "Number i = ir_Number r" "WorldID i = ir_WorldID r" "CreatedBy i = ir_CreatedBy r"
    "CreatedAt i = ir_CreatedAt r"
    using frame src(7-10) by (simp_all add: k(2) common_defaults_fields)
qed


lemma storable_update [simp]:
  "storable p (i\<lparr>WorldID := w, CreatedBy := b\<rparr>) = storable p i"
  "storable p (i\<lparr>CreatedAt := c, LastUsed := u\<rparr>) = storable p i"
  by (simp_all add: storable_def game_storable_def cong: option.case_cong)

lemma fromRecord_toRecord:
  assumes "catalogued p" and "storable p i"
  shows "fromRecord ((kept_fields (gp_ID p) (toRecord i))\<lparr>ir_CreatedAt := c, ir_LastUsed := u\<rparr>) (gp_ID p) =
    Val (i\<lparr>CreatedAt := c, LastUsed := u\<rparr>)"
proof -
  let ?i = "i\<lparr>CreatedAt := c, LastUsed := u\<rparr>"
  let ?r = "(kept_fields (gp_ID p) (toRecord i))\<lparr>ir_CreatedAt := c, ir_LastUsed := u\<rparr>"
  have gs: "game_storable (gp_ID p) i" and id: "inst_GameID i = gp_ID p"
    using assms(2) by (simp_all add: storable_def)
  have "storable p ?i" using assms(2) by simp
  have core: "Number ?i = ir_Number ?r" "WorldID ?i = ir_WorldID ?r" "inst_Name ?i = ir_Name ?r"
    "Slug ?i = ir_Slug ?r" "inst_Source ?i = NormalizeSource (ir_Source ?r)"
    "inst_Tier ?i = NormalizeTier (ir_Tier ?r)" "State ?i = ir_State ?r" "MOTD ?i = ir_MOTD ?r"
    "MaxPlayers ?i = ir_MaxPlayers ?r" "LBIP ?i = ir_LBIP ?r" "inst_Host ?i = NormalizeHost (ir_Host ?r)"
    "CreatedBy ?i = ir_CreatedBy ?r" "CreatedAt ?i = ir_CreatedAt ?r" "LastUsed ?i = ir_LastUsed ?r"
    "inst_Resources ?i = \<lparr>MemRequestGiB = ir_MemRequestGiB ?r, MemLimitGiB = ir_MemLimitGiB ?r,
       CPURequestMilli = ir_CPURequestMilli ?r, CPULimitMilli = ir_CPULimitMilli ?r\<rparr>"
    using assms(2)
    by (simp_all add: toRecord_def game_to_record_def pack_to_record_def mapCoreToRecord_def
      kept_fields_def kept_core_def storable_def EffectiveHost_def zero_record_def split: option.split)
  let ?j = "game_from_record ?r (gp_ID p) (mapCoreFromRecord ?r (gp_ID p))"
  have frame: "Number ?j = Number ?i" "WorldID ?j = WorldID ?i" "inst_Name ?j = inst_Name ?i"
    "Slug ?j = Slug ?i" "inst_Source ?j = inst_Source ?i" "inst_Tier ?j = inst_Tier ?i" "State ?j = State ?i"
    "MOTD ?j = MOTD ?i" "MaxPlayers ?j = MaxPlayers ?i" "LBIP ?j = LBIP ?i" "inst_Host ?j = inst_Host ?i"
    "CreatedBy ?j = CreatedBy ?i" "CreatedAt ?j = CreatedAt ?i" "LastUsed ?j = LastUsed ?i"
    "inst_Resources ?j = inst_Resources ?i" "inst_GameID ?j = inst_GameID ?i"
    "HostUnreachable ?j = HostUnreachable ?i" "HostUnknown ?j = HostUnknown ?i"
    unfolding core(1-15) using assms(2)
    by (simp_all add: game_from_record_def mapCoreFromRecord_def zero_instance_def storable_def)
  have "Minecraft ?j = Minecraft ?i \<and> Valheim ?j = Valheim ?i \<and> GMod ?j = GMod ?i"
    using registered_cases [OF ProfileFor_registered [OF assms(1)]]
  proof (elim disjE)
    assume g: "gp_ID p = GameMinecraft"
    then obtain m where m: "Minecraft i = Some m" "ParseLoader (mc_Loader m) = mc_Loader m"
      "pack_storable (mc_Pack m)" "mc_Pack m \<noteq> None \<longrightarrow> inst_Source i = SourceModpack"
      "Valheim i = None" "GMod i = None"
      using gs by (auto simp: game_storable_def split: option.splits)
    then show ?thesis
      using g id assms(2)
      by (cases "mc_Pack m")
        (simp_all add: game_from_record_def mapCoreFromRecord_def record_pack_def pack_storable_def
          kept_fields_def kept_core_def toRecord_def game_to_record_def pack_to_record_def
          mapCoreToRecord_def zero_record_def storable_def zero_instance_def)
  next
    assume g: "gp_ID p = GameValheim"
    then obtain v where m: "Minecraft i = None" "Valheim i = Some v" "GMod i = None"
      using gs by (auto simp: game_storable_def)
    then show ?thesis
      using g id
      by (simp add: game_from_record_def mapCoreFromRecord_def kept_fields_def kept_core_def
        toRecord_def game_to_record_def mapCoreToRecord_def zero_instance_def)
  next
    assume g: "gp_ID p = GameGMod"
    then obtain m where m: "GMod i = Some m" "pack_storable (gm_Pack m)" "Valheim i = None" "Minecraft i = None"
      using gs by (auto simp: game_storable_def split: option.splits)
    then show ?thesis
      using g id
      by (cases "gm_Pack m")
        (simp_all add: game_from_record_def mapCoreFromRecord_def record_pack_def pack_storable_def
          kept_fields_def kept_core_def toRecord_def game_to_record_def pack_to_record_def
          mapCoreToRecord_def zero_record_def zero_instance_def)
  qed
  moreover have "Instance.more ?j = Instance.more ?i" by simp
  ultimately have "?j = ?i" using frame by (intro Instance.equality) (simp_all only:)
  then show ?thesis
    using assms(1) storable_complete [OF ProfileFor_registered [OF assms(1)] \<open>storable p ?i\<close>]
    by (simp add: fromRecord_def Let_def)
qed


section \<open>The repository as a map from slots to Instances\<close>

definition joined :: "Time \<Rightarrow> Instance option \<Rightarrow> Instance \<Rightarrow> Instance" where
  \<comment> \<open>what a save leaves in the slot: identity and creator have their first value\<close>
  "joined now old i =
     (case old of
        None \<Rightarrow> i\<lparr>CreatedAt := now, LastUsed := now\<rparr>
      | Some j \<Rightarrow>
          i\<lparr>WorldID := (if WorldID j = '''' then WorldID i else WorldID j),
            CreatedBy := (if CreatedBy j = '''' then CreatedBy i else CreatedBy j),
            CreatedAt := CreatedAt j, LastUsed := now\<rparr>)"

lemma catalogued_table: "catalogued p \<Longrightarrow> \<exists>t. tableFor (gp_ID p) = Inr t"
  by (auto simp: ProfileFor_iff tableFor_def instanceTables_def)

lemma fromRecord_val: "catalogued p \<Longrightarrow> \<exists>i. fromRecord r (gp_ID p) = Val i"
  using EnsureDefaults_total [OF ProfileFor_registered,
      of "gp_ID p" p "game_from_record r (gp_ID p) (mapCoreFromRecord r (gp_ID p))" "''''"]
  by (auto simp: fromRecord_def Let_def game_from_record_def mapCoreFromRecord_def)

lemma instance_at_record:
  assumes "catalogued p" and "record_at d (gp_ID p) n = Some r"
  shows "\<exists>j. instance_at p d n = Some j \<and> WorldID j = ir_WorldID r \<and> CreatedBy j = ir_CreatedBy r \<and>
    CreatedAt j = ir_CreatedAt r"
  using fromRecord_val [OF assms(1), of r] fromRecord_storable [OF assms(1), of r] assms(2)
  by (auto simp: instance_at_def)

lemma instance_at_None: "catalogued p \<Longrightarrow> instance_at p d n = None \<longleftrightarrow> record_at d (gp_ID p) n = None"
  using instance_at_record [of p d n] by (cases "record_at d (gp_ID p) n") (auto simp: instance_at_def)

lemma instance_at_storable:
  assumes "catalogued p" and "db_ok d" and "instance_at p d n = Some i"
  shows "storable p i" and "Number i = n"
proof -
  obtain r where "record_at d (gp_ID p) n = Some r" "fromRecord r (gp_ID p) = Val i"
    using assms(3) by (auto simp: instance_at_def split: option.splits outcome.splits)
  then show "storable p i" "Number i = n"
    using fromRecord_storable [OF assms(1)] record_at_Number [OF assms(2)] by auto
qed

lemma toRecord_sel [simp]:
  "ir_Number (toRecord i) = Number i" "ir_WorldID (toRecord i) = WorldID i" "ir_CreatedBy (toRecord i) = CreatedBy i"
  by (simp_all add: toRecord_def game_to_record_def mapCoreToRecord_def pack_to_record_def split: option.split)

lemma merge_toRecord:
  assumes "ir_Number o' = Number i"
  shows "merge_record (toRecord i) o' =
    toRecord (i\<lparr>WorldID := (if ir_WorldID o' = '''' then WorldID i else ir_WorldID o'),
                CreatedBy := (if ir_CreatedBy o' = '''' then CreatedBy i else ir_CreatedBy o')\<rparr>)"
proof -
  have upd: "toRecord (i\<lparr>WorldID := w, CreatedBy := b\<rparr>) = (toRecord i)\<lparr>ir_WorldID := w, ir_CreatedBy := b\<rparr>"
    for w b
    by (cases "Minecraft i"; cases "GMod i"; cases "Valheim i")
      (simp_all add: toRecord_def game_to_record_def mapCoreToRecord_def pack_to_record_def EffectiveHost_def
        split: option.split)
  show ?thesis by (simp add: upd merge_record_def assms)
qed

definition saved_as :: "GameProfile \<Rightarrow> InstanceDb \<Rightarrow> int \<Rightarrow> Instance option \<Rightarrow> InstanceDb \<Rightarrow> bool" where
  \<comment> \<open>\<open>d'\<close> is \<open>d\<close> with the slot \<open>n\<close> of the game of \<open>p\<close> set\<close>
  "saved_as p d n x d' \<longleftrightarrow> db_ok d' \<and>
     (\<forall>m. instance_at p d' m = (if m = n then x else instance_at p d m)) \<and>
     (\<forall>g m. g \<noteq> gp_ID p \<longrightarrow> record_at d' g m = record_at d g m)"

lemma Repo_Upsert_spec:
  assumes "catalogued p" and "db_ok d" and "storable p i" and "db ''upsert instance'' = None"
  shows "\<exists>d'. Repo_Upsert (Some p) db now i d = (Ok (), d') \<and>
    saved_as p d (Number i) (Some (joined now (instance_at p d (Number i)) i)) d'"
proof -
  let ?g = "gp_ID p" and ?r = "toRecord i"
  obtain t where t: "tableFor ?g = Inr t" using catalogued_table [OF assms(1)] by blast
  have up: "upsertInstanceRow db now ?g ?r d = upsertInstanceRow sql_up now ?g ?r d"
    using assms(4) t by (simp add: upsertInstanceRow_def)
  obtain d' where d': "upsertInstanceRow sql_up now ?g ?r d = (None, d')" "db_ok d'"
    and at: "\<And>g' n. record_at d' g' n = (if g' = ?g \<and> n = Number i then
        Some (case record_at d ?g (Number i) of
            None \<Rightarrow> (kept_fields ?g ?r)\<lparr>ir_CreatedAt := now, ir_LastUsed := now\<rparr>
          | Some o' \<Rightarrow> (kept_fields ?g (merge_record ?r o'))\<lparr>ir_CreatedAt := ir_CreatedAt o', ir_LastUsed := now\<rparr>)
        else record_at d g' n)"
    using upsert_spec [OF t assms(2), of now ?r] unfolding toRecord_sel by blast
  have "instance_at p d' (Number i) = Some (joined now (instance_at p d (Number i)) i)"
  proof (cases "record_at d ?g (Number i)")
    case None
    then show ?thesis
      using at [of ?g "Number i"] fromRecord_toRecord [OF assms(1,3), of now now]
        instance_at_None [OF assms(1), of d "Number i"]
      by (simp only: instance_at_def [of p d' "Number i"] joined_def simp_thms if_True option.case outcome.case)
  next
    case (Some o')
    let ?i = "i\<lparr>WorldID := (if ir_WorldID o' = '''' then WorldID i else ir_WorldID o'),
                CreatedBy := (if ir_CreatedBy o' = '''' then CreatedBy i else ir_CreatedBy o')\<rparr>"
    obtain j where j: "instance_at p d (Number i) = Some j" "WorldID j = ir_WorldID o'"
      "CreatedBy j = ir_CreatedBy o'" "CreatedAt j = ir_CreatedAt o'"
      using instance_at_record [OF assms(1) Some] by blast
    have "storable p ?i" using assms(3) by simp
    from fromRecord_toRecord [OF assms(1) this]
    have "fromRecord ((kept_fields ?g (merge_record ?r o'))\<lparr>ir_CreatedAt := ir_CreatedAt o', ir_LastUsed := now\<rparr>) ?g =
        Val (?i\<lparr>CreatedAt := ir_CreatedAt o', LastUsed := now\<rparr>)"
      by (simp only: merge_toRecord [OF record_at_Number [OF assms(2) Some]])
    then show ?thesis
      using at [of ?g "Number i"] Some j
      by (simp only: instance_at_def [of p d' "Number i"] joined_def simp_thms if_True option.case outcome.case)
  qed
  then have "saved_as p d (Number i) (Some (joined now (instance_at p d (Number i)) i)) d'"
    using d'(2) at by (simp add: saved_as_def) (simp add: instance_at_def)
  moreover have "inst_GameID i = ?g" "?g \<noteq> ''''"
    using assms(1,3) by (auto simp: storable_def ProfileFor_iff GameMinecraft_def GameValheim_def GameGMod_def)
  ultimately show ?thesis
    using d'(1) up by (auto simp: Repo_Upsert_def of_exec_def)
qed


definition reached :: "Instance \<Rightarrow> Instance" where
  \<comment> \<open>without the two flags of an Instance in memory that no column holds\<close>
  "reached i = i\<lparr>HostUnreachable := False, HostUnknown := False\<rparr>"

lemma toRecord_reached: "toRecord (reached i) = toRecord i"
  by (simp add: toRecord_def game_to_record_def mapCoreToRecord_def reached_def EffectiveHost_def)

lemma reached_sel [simp]:
  "Number (reached i) = Number i" "inst_GameID (reached i) = inst_GameID i" "WorldID (reached i) = WorldID i"
  "CreatedBy (reached i) = CreatedBy i" "State (reached i) = State i"
  by (simp_all add: reached_def)

lemma Repo_Upsert_reached:
  assumes "inst_GameID i \<noteq> ''''"
  shows "Repo_Upsert (Some p) db now (reached i) = Repo_Upsert (Some p) db now i"
  using assms by (simp add: Repo_Upsert_def toRecord_reached)

lemma Repo_Upsert_any:
  assumes "catalogued p" and "db_ok d" and "inst_GameID i = gp_ID p" and "db ''upsert instance'' = None"
  shows "\<exists>d' j. Repo_Upsert (Some p) db now i d = (Ok (), d') \<and> saved_as p d (Number i) (Some j) d' \<and>
    Number j = Number i \<and>
    WorldID j = (case instance_at p d (Number i) of
        None \<Rightarrow> WorldID i | Some old \<Rightarrow> if WorldID old = '''' then WorldID i else WorldID old) \<and>
    (storable p (reached i) \<longrightarrow> j = joined now (instance_at p d (Number i)) (reached i))"
proof -
  let ?g = "gp_ID p" and ?r = "toRecord i"
  obtain t where t: "tableFor ?g = Inr t" using catalogued_table [OF assms(1)] by blast
  have g: "?g \<noteq> ''''"
    using assms(1) by (auto simp: ProfileFor_iff GameMinecraft_def GameValheim_def GameGMod_def)
  have up: "upsertInstanceRow db now ?g ?r d = upsertInstanceRow sql_up now ?g ?r d"
    using assms(4) t by (simp add: upsertInstanceRow_def)
  obtain d' where d': "upsertInstanceRow sql_up now ?g ?r d = (None, d')" "db_ok d'"
    and at: "\<And>g' n. record_at d' g' n = (if g' = ?g \<and> n = Number i then
        Some (case record_at d ?g (Number i) of
            None \<Rightarrow> (kept_fields ?g ?r)\<lparr>ir_CreatedAt := now, ir_LastUsed := now\<rparr>
          | Some o' \<Rightarrow> (kept_fields ?g (merge_record ?r o'))\<lparr>ir_CreatedAt := ir_CreatedAt o', ir_LastUsed := now\<rparr>)
        else record_at d g' n)"
    using upsert_spec [OF t assms(2), of now ?r] unfolding toRecord_sel by blast
  obtain r where r: "record_at d' ?g (Number i) = Some r" "ir_Number r = Number i"
    "ir_WorldID r = (case record_at d ?g (Number i) of
        None \<Rightarrow> WorldID i | Some o' \<Rightarrow> if ir_WorldID o' = '''' then WorldID i else ir_WorldID o')"
    using at [of ?g "Number i"] record_at_Number [OF assms(2)]
    by (cases "record_at d ?g (Number i)") (auto simp: merge_record_def)
  obtain j where j: "instance_at p d' (Number i) = Some j" "WorldID j = ir_WorldID r"
    using instance_at_record [OF assms(1) r(1)] by blast
  have "Number j = Number i" using instance_at_storable(2) [OF assms(1) d'(2) j(1)] .
  moreover have "saved_as p d (Number i) (Some j) d'"
    using d'(2) at j(1) by (simp add: saved_as_def) (simp add: instance_at_def)
  moreover have run: "Repo_Upsert (Some p) db now i d = (Ok (), d')"
    using d'(1) up g assms(3) by (simp add: Repo_Upsert_def of_exec_def)
  moreover have "WorldID j = (case instance_at p d (Number i) of
        None \<Rightarrow> WorldID i | Some old \<Rightarrow> if WorldID old = '''' then WorldID i else WorldID old)"
  proof (cases "record_at d ?g (Number i)")
    case None
    then have "instance_at p d (Number i) = None" using instance_at_None [OF assms(1)] by simp
    then show ?thesis using None j(2) r(3) by simp
  next
    case (Some o')
    then show ?thesis using j(2) r(3) instance_at_record [OF assms(1) Some] by auto
  qed
  moreover have "j = joined now (instance_at p d (Number i)) (reached i)" if st: "storable p (reached i)"
  proof -
    obtain d2 where "Repo_Upsert (Some p) db now (reached i) d = (Ok (), d2)"
      "saved_as p d (Number i) (Some (joined now (instance_at p d (Number i)) (reached i))) d2"
      using Repo_Upsert_spec [where db = db and now = now, OF assms(1,2) st assms(4)] by auto
    moreover from this have "d2 = d'" using run Repo_Upsert_reached [of i p db now] g assms(3) by simp
    ultimately show ?thesis using j(1) by (simp add: saved_as_def)
  qed
  ultimately show ?thesis by blast
qed

lemma Repo_Upsert_error:
  assumes "inst_GameID i = gp_ID p" and "catalogued p" and "db ''upsert instance'' = Some e"
  shows "\<exists>e'. Repo_Upsert (Some p) db now i d = (Err e', d)"
proof -
  obtain t where "tableFor (gp_ID p) = Inr t" using catalogued_table [OF assms(2)] by blast
  moreover have "inst_GameID i \<noteq> ''''"
    using assms(1,2) by (auto simp: ProfileFor_iff GameMinecraft_def GameValheim_def GameGMod_def)
  moreover note assms(1)
  ultimately show ?thesis
    using assms(3) by (auto simp: Repo_Upsert_def of_exec_def upsertInstanceRow_def)
qed

lemma Repo_Get_spec:
  assumes "catalogued p" and "db_ok d"
  shows "Repo_Get (Some p) db n d =
    (case db ''get instance'' of
       None \<Rightarrow> (Ok (instance_at p d n), d)
     | Some e \<Rightarrow> (Err (Wrap (''get '' @ gp_ID p @ '' instance '' @ show_int n @ '': '') e ''''), d))"
proof -
  obtain t where t: "tableFor (gp_ID p) = Inr t" using catalogued_table [OF assms(1)] by blast
  show ?thesis
  proof (cases "db ''get instance''")
    case (Some e)
    then show ?thesis using t by (simp add: Repo_Get_def getInstanceRow_def op_defs)
  next
    case None
    show ?thesis
    proof (cases "map_of (table_rows d t) n")
      case None': None
      then show ?thesis
        using None t by (simp add: Repo_Get_def getInstanceRow_def op_defs instance_at_def record_at_row [OF t assms(2)])
    next
      case (Some q)
      obtain o' where "row_cells q = bind_cells (it_columns t) o'"
        using db_okE(2) [OF assms(2) t map_of_SomeD [OF Some]] by (auto simp: row_ok_def)
      then obtain r where r: "scan_row t q = Inr r" using scan_bound [OF t] by blast
      obtain i where "fromRecord r (gp_ID p) = Val i" using fromRecord_val [OF assms(1)] by blast
      then show ?thesis
        using None t Some r
        by (simp add: Repo_Get_def getInstanceRow_def op_defs instance_at_def record_at_row [OF t assms(2)])
    qed
  qed
qed

lemma Repo_Delete_spec:
  assumes "catalogued p" and "db_ok d" and "db ''delete instance'' = None"
  shows "\<exists>d'. Repo_Delete (Some p) db n d = (Ok (), d') \<and> saved_as p d n None d'"
proof -
  obtain t where t: "tableFor (gp_ID p) = Inr t" using catalogued_table [OF assms(1)] by blast
  have "deleteInstanceRow db (gp_ID p) n d = deleteInstanceRow sql_up (gp_ID p) n d"
    using assms(3) t by (simp add: deleteInstanceRow_def)
  then show ?thesis
    using delete_spec [OF t assms(2), of n]
    by (auto simp: Repo_Delete_def of_exec_def saved_as_def instance_at_def)
qed

lemma Repo_Delete_error:
  "catalogued p \<Longrightarrow> db ''delete instance'' = Some e \<Longrightarrow> Repo_Delete (Some p) db n d = (Err e, d)"
  using catalogued_table [of p] by (auto simp: Repo_Delete_def of_exec_def deleteInstanceRow_def)

lemma fromRecord_state:
  assumes "s \<noteq> ''''" and "fromRecord r (gp_ID p) = Val i" and "catalogued p"
  shows "fromRecord (r\<lparr>ir_State := s, ir_LastUsed := now\<rparr>) (gp_ID p) = Val (i\<lparr>State := s, LastUsed := now\<rparr>)"
proof -
  let ?upd = "\<lambda>i. i\<lparr>State := s, LastUsed := now\<rparr>"
  have game: "game_defaults p (?upd j) = Val (?upd k)" if "game_defaults p j = Val k" for j k
    using that by (auto simp: game_defaults_def Let_def split: if_splits option.splits)
  have common: "common_defaults p lb (?upd k) = ?upd (common_defaults p lb k)" for k lb
    using assms(1) by (simp add: common_defaults_def Let_def)
  have "game_from_record (r\<lparr>ir_State := s, ir_LastUsed := now\<rparr>) (gp_ID p)
      (mapCoreFromRecord (r\<lparr>ir_State := s, ir_LastUsed := now\<rparr>) (gp_ID p)) =
    ?upd (game_from_record r (gp_ID p) (mapCoreFromRecord r (gp_ID p)))"
    by (simp add: game_from_record_def mapCoreFromRecord_def record_pack_def)
  moreover have "EnsureDefaults p '''' (?upd j) = Val (?upd k)" if ed: "EnsureDefaults p '''' j = Val k" for j k
  proof -
    obtain k' where "registered p" "inst_GameID j = '''' \<or> inst_GameID j = gp_ID p"
      "game_defaults p (j\<lparr>inst_GameID := gp_ID p\<rparr>) = Val k'" "k = common_defaults p '''' k'"
      using ed unfolding EnsureDefaults_Val by blast
    moreover have "(?upd j)\<lparr>inst_GameID := gp_ID p\<rparr> = ?upd (j\<lparr>inst_GameID := gp_ID p\<rparr>)" by simp
    moreover have "inst_GameID (?upd j) = inst_GameID j" by simp
    ultimately show ?thesis using game common unfolding EnsureDefaults_Val by metis
  qed
  ultimately show ?thesis using assms(2,3) by (simp add: fromRecord_def Let_def)
qed

lemma Repo_UpdateState_spec:
  assumes "catalogued p" and "db_ok d" and "db ''update instance state'' = None" and "s \<noteq> ''''"
  shows "\<exists>d'. Repo_UpdateState (Some p) db now n s d = (Ok (), d') \<and>
    saved_as p d n (map_option (\<lambda>i. i\<lparr>State := s, LastUsed := now\<rparr>) (instance_at p d n)) d'"
proof -
  obtain t where t: "tableFor (gp_ID p) = Inr t" using catalogued_table [OF assms(1)] by blast
  have "updateInstanceRowState db now (gp_ID p) n s d = updateInstanceRowState sql_up now (gp_ID p) n s d"
    using assms(3) t by (simp add: updateInstanceRowState_def)
  moreover obtain d' where d': "updateInstanceRowState sql_up now (gp_ID p) n s d = (None, d')" "db_ok d'"
    and at: "\<And>g' m. record_at d' g' m = (if g' = gp_ID p \<and> m = n
      then map_option (\<lambda>r. r\<lparr>ir_State := s, ir_LastUsed := now\<rparr>) (record_at d (gp_ID p) m) else record_at d g' m)"
    using update_state_spec [OF t assms(2), of now n s] by blast
  moreover have "instance_at p d' n = map_option (\<lambda>i. i\<lparr>State := s, LastUsed := now\<rparr>) (instance_at p d n)"
  proof (cases "record_at d (gp_ID p) n")
    case (Some r)
    obtain i where "fromRecord r (gp_ID p) = Val i" using fromRecord_val [OF assms(1)] by blast
    then show ?thesis
      using Some at [of "gp_ID p" n] fromRecord_state [OF assms(4) _ assms(1), of r i now] by (simp add: instance_at_def)
  qed (simp add: instance_at_def at)
  moreover have "instance_at p d' m = instance_at p d m" if "m \<noteq> n" for m
    using that by (simp add: instance_at_def at)
  ultimately show ?thesis by (auto simp: Repo_UpdateState_def of_exec_def saved_as_def)
qed

lemma Repo_UpdateState_error:
  "catalogued p \<Longrightarrow> db ''update instance state'' = Some e \<Longrightarrow> Repo_UpdateState (Some p) db now n s d = (Err e, d)"
  using catalogued_table [of p] by (auto simp: Repo_UpdateState_def of_exec_def updateInstanceRowState_def)


lemma scan_rows_ok:
  assumes t: "tableFor g = Inr t" and rows: "\<And>n q. (n, q) \<in> set rows \<Longrightarrow> row_ok t n q"
  shows "\<exists>rs. scan_rows t rows = Inr rs \<and> map ir_Number rs = map fst rows \<and>
    list_all2 (\<lambda>(n, q) r. scan_row t q = Inr r) rows rs"
  using rows
proof (induction rows)
  case (Cons x rows)
  obtain n q where x: "x = (n, q)" by (cases x)
  then obtain o' where "ir_Number o' = n" "row_cells q = bind_cells (it_columns t) o'"
    using Cons.prems by (force simp: row_ok_def)
  then obtain r where r: "scan_row t q = Inr r" "ir_Number r = n" using scan_bound [OF t] by auto
  obtain rs where "scan_rows t rows = Inr rs" "map ir_Number rs = map fst rows"
    "list_all2 (\<lambda>(n, q) r. scan_row t q = Inr r) rows rs"
    using Cons by (metis list.set_intros(2))
  then show ?case using r x by auto
qed simp

lemma mapO_fromRecord:
  assumes "catalogued p"
  shows "mapO (\<lambda>r. of_outcome (fromRecord r (gp_ID p))) rs d =
    (Ok (map (\<lambda>r. case fromRecord r (gp_ID p) of Val i \<Rightarrow> i) rs), d)"
proof (induction rs)
  case (Cons r rs)
  obtain i where "fromRecord r (gp_ID p) = Val i" using fromRecord_val [OF assms] by blast
  then show ?case using Cons by (simp add: op_defs)
qed (simp add: op_defs)

lemma Repo_List_spec:
  assumes p: "catalogued p" and ok: "db_ok d" and "db ''list instances'' = None"
  shows "\<exists>is. Repo_List (Some p) db d = (Ok is, d) \<and> sorted (map Number is) \<and> distinct (map Number is) \<and>
    (\<forall>i. i \<in> set is \<longleftrightarrow> instance_at p d (Number i) = Some i)"
proof -
  obtain t where t: "tableFor (gp_ID p) = Inr t" using catalogued_table [OF assms(1)] by blast
  let ?rows = "sort_key fst (table_rows d t)"
  define f where "f = (\<lambda>r. case fromRecord r (gp_ID p) of Val i \<Rightarrow> i)"
  have f: "fromRecord r (gp_ID p) = Val (f r)" for r
    using fromRecord_val [OF p, of r] by (auto simp: f_def)
  have dist: "distinct (map fst ?rows)" using db_okE(1) [OF ok t] by (metis distinct_map distinct_sort set_sort)
  have fst_rows: "sorted (map fst ?rows)" by simp
  obtain rs where rs: "scan_rows t ?rows = Inr rs" "map ir_Number rs = map fst ?rows"
    "list_all2 (\<lambda>(n, q) r. scan_row t q = Inr r) ?rows rs"
    using scan_rows_ok [OF t, of ?rows] db_okE(2) [OF ok t] by auto
  have list: "Repo_List (Some p) db d = (Ok (map f rs), d)"
    using rs(1) t assms(3) by (simp add: Repo_List_def listInstanceRows_def bindo_def gets_def of_sum_def ret_def
      mapO_fromRecord [OF p] f_def)
  have num: "Number (f r) = ir_Number r" for r
    using fromRecord_storable(2) [OF p f] .
  then have nums: "map Number (map f rs) = map fst ?rows" using rs(2) by (simp add: comp_def)
  have at: "instance_at p d n = Some i \<longleftrightarrow> (\<exists>q r. (n, q) \<in> set ?rows \<and> scan_row t q = Inr r \<and> f r = i)" for n i
  proof -
    have iff: "(n, q) \<in> set (table_rows d t) \<longleftrightarrow> map_of (table_rows d t) n = Some q" for q
      using db_okE(1) [OF ok t] by simp
    then show ?thesis
      by (cases "map_of (table_rows d t) n")
        (auto simp: instance_at_def record_at_row [OF t ok] f set_sort iff simp del: map_of_eq_Some_iff
          split: sum.splits)
  qed
  have "i \<in> set (map f rs) \<longleftrightarrow> instance_at p d (Number i) = Some i" for i
  proof
    assume "i \<in> set (map f rs)"
    then obtain k where k: "k < length rs" "i = f (rs ! k)" by (auto simp: in_set_conv_nth)
    then have "scan_row t (snd (?rows ! k)) = Inr (rs ! k)" "k < length ?rows"
      using rs(3) by (simp_all add: list_all2_conv_all_nth case_prod_unfold)
    moreover have "fst (?rows ! k) = Number i" using k rs(2) num \<open>k < length ?rows\<close> by (metis nth_map)
    ultimately show "instance_at p d (Number i) = Some i"
      using k(2) unfolding at by (metis nth_mem prod.collapse)
  next
    assume "instance_at p d (Number i) = Some i"
    then obtain q r where qr: "(Number i, q) \<in> set ?rows" "scan_row t q = Inr r" "f r = i" using at by blast
    obtain k where "k < length ?rows" "?rows ! k = (Number i, q)"
      using qr(1) unfolding in_set_conv_nth by blast
    then have "k < length rs" "rs ! k = r" using rs(3) qr(2) by (fastforce simp: list_all2_conv_all_nth)+
    then show "i \<in> set (map f rs)" using qr(3) by (metis image_eqI list.set_map nth_mem)
  qed
  then show ?thesis using list nums fst_rows dist by (metis (no_types, lifting))
qed

section \<open>The contract of the repository\<close>

locale slot_store =
  fixes at :: "'s \<Rightarrow> int \<Rightarrow> Instance option"
    and ok :: "'s \<Rightarrow> bool"
    and fit :: "Instance \<Rightarrow> bool"
    and save :: "Time \<Rightarrow> Instance \<Rightarrow> 's \<Rightarrow> 's"
    and set_state :: "Time \<Rightarrow> int \<Rightarrow> string \<Rightarrow> 's \<Rightarrow> 's"
  assumes ok_save: "ok s \<Longrightarrow> fit i \<Longrightarrow> ok (save now i s)"
    and at_save: "ok s \<Longrightarrow> fit i \<Longrightarrow>
      at (save now i s) n = (if n = Number i then Some (joined now (at s n) i) else at s n)"
    and ok_state: "ok s \<Longrightarrow> st \<noteq> '''' \<Longrightarrow> ok (set_state now n st s)"
    and at_state: "ok s \<Longrightarrow> st \<noteq> '''' \<Longrightarrow>
      at (set_state now n st s) m =
        (if m = n then map_option (\<lambda>i. i\<lparr>State := st, LastUsed := now\<rparr>) (at s m) else at s m)"
begin

fun run :: "(Time \<times> (Instance + int \<times> string)) list \<Rightarrow> 's \<Rightarrow> 's" where
  "run [] s = s"
| "run ((now, Inl i) # ops) s = run ops (save now i s)"
| "run ((now, Inr (n, st)) # ops) s = run ops (set_state now n st s)"

definition allowed :: "(Time \<times> (Instance + int \<times> string)) list \<Rightarrow> bool" where
  "allowed ops = (\<forall>(now, x)\<in>set ops. case x of Inl i \<Rightarrow> fit i | Inr (n, st) \<Rightarrow> st \<noteq> '''')"

definition same_world :: "Instance \<Rightarrow> Instance \<Rightarrow> bool" where
  \<comment> \<open>\<open>j\<close> is the world \<open>i\<close>, whatever else changed\<close>
  "same_world i j \<longleftrightarrow> CreatedAt j = CreatedAt i \<and> (WorldID i \<noteq> '''' \<longrightarrow> WorldID j = WorldID i) \<and>
     (CreatedBy i \<noteq> '''' \<longrightarrow> CreatedBy j = CreatedBy i)"

lemma same_world_trans: "same_world i j \<Longrightarrow> same_world j k \<Longrightarrow> same_world i k"
  by (auto simp: same_world_def)

lemma run_identity:
  "ok s \<Longrightarrow> allowed ops \<Longrightarrow> at s n = Some i \<Longrightarrow> \<exists>j. at (run ops s) n = Some j \<and> same_world i j"
proof (induction ops s arbitrary: i rule: run.induct)
  case (1 s)
  then show ?case by (auto simp: same_world_def)
next
  case (2 now i' ops s)
  then have fit: "fit i'" and a: "allowed ops" by (auto simp: allowed_def)
  obtain j where "at (save now i' s) n = Some j" "same_world i j"
    using at_save [OF \<open>ok s\<close> fit, of now n] \<open>at s n = Some i\<close>
    by (cases "n = Number i'") (auto simp: joined_def same_world_def)
  then show ?case using 2(1) [OF ok_save [OF \<open>ok s\<close> fit] a] same_world_trans by fastforce
next
  case (3 now m st ops s)
  then have st: "st \<noteq> ''''" and a: "allowed ops" by (auto simp: allowed_def)
  obtain j where "at (set_state now m st s) n = Some j" "same_world i j"
    using at_state [OF \<open>ok s\<close> st, of now m n] \<open>at s n = Some i\<close>
    by (cases "n = m") (auto simp: same_world_def)
  then show ?case using 3(1) [OF ok_state [OF \<open>ok s\<close> st] a] same_world_trans by fastforce
qed

end


lemma repo_contract:
  assumes "catalogued p"
  shows "slot_store (instance_at p) db_ok (storable p)
    (\<lambda>now i d. snd (Repo_Upsert (Some p) sql_up now i d))
    (\<lambda>now n st d. snd (Repo_UpdateState (Some p) sql_up now n st d))"
proof
  fix d i now n
  assume a: "db_ok d" "storable p i"
  obtain d' where "Repo_Upsert (Some p) sql_up now i d = (Ok (), d')"
    "saved_as p d (Number i) (Some (joined now (instance_at p d (Number i)) i)) d'"
    using Repo_Upsert_spec [OF assms a, of sql_up now] by blast
  then show "db_ok (snd (Repo_Upsert (Some p) sql_up now i d))"
    and "instance_at p (snd (Repo_Upsert (Some p) sql_up now i d)) n =
      (if n = Number i then Some (joined now (instance_at p d n) i) else instance_at p d n)"
    by (auto simp: saved_as_def)
next
  fix d and st :: string and now n m
  assume a: "db_ok d" "st \<noteq> ''''"
  obtain d' where "Repo_UpdateState (Some p) sql_up now n st d = (Ok (), d')"
    "saved_as p d n (map_option (\<lambda>i. i\<lparr>State := st, LastUsed := now\<rparr>) (instance_at p d n)) d'"
    using Repo_UpdateState_spec [OF assms a(1) refl a(2)] by blast
  then show "db_ok (snd (Repo_UpdateState (Some p) sql_up now n st d))"
    and "instance_at p (snd (Repo_UpdateState (Some p) sql_up now n st d)) m =
      (if m = n then map_option (\<lambda>i. i\<lparr>State := st, LastUsed := now\<rparr>) (instance_at p d m) else instance_at p d m)"
    by (auto simp: saved_as_def)
qed

interpretation minecraft_slots: slot_store "instance_at MinecraftProfile" db_ok "storable MinecraftProfile"
  "\<lambda>now i d. snd (Repo_Upsert (Some MinecraftProfile) sql_up now i d)"
  "\<lambda>now n st d. snd (Repo_UpdateState (Some MinecraftProfile) sql_up now n st d)"
  by (rule repo_contract) simp

interpretation valheim_slots: slot_store "instance_at ValheimProfile" db_ok "storable ValheimProfile"
  "\<lambda>now i d. snd (Repo_Upsert (Some ValheimProfile) sql_up now i d)"
  "\<lambda>now n st d. snd (Repo_UpdateState (Some ValheimProfile) sql_up now n st d)"
  by (rule repo_contract) simp

interpretation gmod_slots: slot_store "instance_at GModProfile" db_ok "storable GModProfile"
  "\<lambda>now i d. snd (Repo_Upsert (Some GModProfile) sql_up now i d)"
  "\<lambda>now n st d. snd (Repo_UpdateState (Some GModProfile) sql_up now n st d)"
  by (rule repo_contract) simp

section \<open>Properties\<close>

lemma db_ok_empty: "db_ok []"
  by (simp add: db_ok_def table_rows_def mget_def)

text \<open>C32: What a repository saves it reads back: after an upsert of a complete Instance of the game
  the slot holds it, under the identity, the creator and the creation time of the world that was
  there before, if any; every other slot of the game and every other table reads as before, and
  every Instance that is read is complete, so it can be saved again.\<close>

theorem saved_Instance_read_back:
  assumes "catalogued p" and "db_ok d" and "storable p i"
  shows "\<exists>d'. Repo_Upsert (Some p) sql_up now i d = (Ok (), d') \<and> db_ok d' \<and>
    (\<forall>n. Repo_Get (Some p) sql_up n d' =
       (Ok (if n = Number i then Some (joined now (instance_at p d n) i) else instance_at p d n), d')) \<and>
    (\<forall>g n. g \<noteq> gp_ID p \<longrightarrow> getInstanceRow sql_up g n d' = getInstanceRow sql_up g n d) \<and>
    (\<forall>n j. instance_at p d n = Some j \<longrightarrow> storable p j \<and> Number j = n)"
proof -
  obtain d' where d': "Repo_Upsert (Some p) sql_up now i d = (Ok (), d')"
    "saved_as p d (Number i) (Some (joined now (instance_at p d (Number i)) i)) d'"
    using Repo_Upsert_spec [OF assms, of sql_up] by blast
  have "getInstanceRow sql_up g n d' = getInstanceRow sql_up g n d" if "g \<noteq> gp_ID p" for g n
  proof (cases "tableFor g")
    case (Inl e)
    then show ?thesis by (simp add: getInstanceRow_def)
  next
    case (Inr t)
    have total: "\<exists>x. getInstanceRow sql_up g n e = Inr x" if "db_ok e" for e
      using scan_bound [OF Inr] db_okE(2) [OF that Inr]
      by (fastforce simp: getInstanceRow_def Inr Let_def row_ok_def split: option.split dest: map_of_SomeD)
    have "record_at d' g n = record_at d g n" "db_ok d'"
      using d'(2) that by (auto simp: saved_as_def)
    then show ?thesis using total [of d] total [of d'] assms(2) by (auto simp: record_at_def)
  qed
  then show ?thesis
    using d' Repo_Get_spec [OF assms(1), of d' sql_up] instance_at_storable [OF assms(1,2)]
    by (auto simp: saved_as_def)
qed

definition saved_sample :: Instance where
  "saved_sample = zero_instance\<lparr>inst_GameID := GameValheim, Number := 2, inst_Name := ''Ashlands'',
     Slug := ''ashlands'', inst_Source := SourceModlist, inst_Tier := TierMedium, State := StateStopped,
     MOTD := ''Ashlands'', MaxPlayers := 10, inst_Host := HostCluster, WorldID := ''w2'', CreatedBy := ''ada'',
     Valheim := Some \<lparr>vh_Password = ''secret'', vh_Seed = ''abc''\<rparr>\<rparr>"

lemma saved_sample_storable: "storable ValheimProfile saved_sample"
  by code_simp

theorem saved_Instance_read_back_witness:
  "\<exists>d'. Repo_Upsert (Some ValheimProfile) sql_up 50 saved_sample [] = (Ok (), d') \<and>
     Repo_Get (Some ValheimProfile) sql_up 2 d' = (Ok (Some (saved_sample\<lparr>CreatedAt := 50, LastUsed := 50\<rparr>)), d')"
proof -
  have "Number saved_sample = 2" "instance_at ValheimProfile [] 2 = None"
    by (simp_all add: saved_sample_def instance_at_None) (simp add: record_at_def getInstanceRow_def
      tableFor_def instanceTables_def table_rows_def mget_def)
  then show ?thesis
    using saved_Instance_read_back [OF _ db_ok_empty saved_sample_storable, of 50]
    by (auto simp: joined_def)
qed

fun repo_history ::
    "GameProfile \<Rightarrow> (Time \<times> (Instance + int \<times> string)) list \<Rightarrow> InstanceDb \<Rightarrow> InstanceDb" where
  \<comment> \<open>a sequence of saves and state changes of one game, each at its time\<close>
  "repo_history p [] d = d"
| "repo_history p ((now, Inl i) # ops) d = repo_history p ops (snd (Repo_Upsert (Some p) sql_up now i d))"
| "repo_history p ((now, Inr (n, st)) # ops) d =
     repo_history p ops (snd (Repo_UpdateState (Some p) sql_up now n st d))"

text \<open>C33: The identity of a world never changes: whatever sequence of saves and state changes
  follows, a world that is in the table stays there with its creation time, and its world id and
  creator stay what they first were; the id under which its incidents are recorded is never lost.\<close>

theorem world_identity_stable:
  assumes "catalogued p" and "db_ok d" and "instance_at p d n = Some i"
    and "\<forall>(now, x)\<in>set ops. case x of Inl j \<Rightarrow> storable p j | Inr (m, st) \<Rightarrow> st \<noteq> ''''"
  shows "\<exists>j. instance_at p (repo_history p ops d) n = Some j \<and> CreatedAt j = CreatedAt i \<and>
    (WorldID i \<noteq> '''' \<longrightarrow> WorldID j = WorldID i) \<and> (CreatedBy i \<noteq> '''' \<longrightarrow> CreatedBy j = CreatedBy i)"
proof -
  note contract = repo_contract [OF assms(1)]
  have run: "repo_history p ops d = slot_store.run
      (\<lambda>now i d. snd (Repo_Upsert (Some p) sql_up now i d))
      (\<lambda>now n st d. snd (Repo_UpdateState (Some p) sql_up now n st d)) ops d" for ops d
  proof (induction ops arbitrary: d)
    case (Cons x ops)
    obtain now y where "x = (now, y)" by (cases x)
    then show ?case using Cons by (cases y) (auto simp: slot_store.run.simps [OF contract])
  qed (simp add: slot_store.run.simps [OF contract])
  show ?thesis
    using slot_store.run_identity [OF contract assms(2) _ assms(3)] assms(4)
    by (simp add: run slot_store.allowed_def [OF contract] slot_store.same_world_def [OF contract])
qed


theorem world_identity_stable_witness:
  "\<exists>d j. instance_at ValheimProfile (repo_history ValheimProfile
        [(60, Inl (saved_sample\<lparr>WorldID := ''other'', CreatedBy := ''bob''\<rparr>)), (70, Inr (2, StateRunning))] d) 2 = Some j \<and>
     WorldID j = ''w2'' \<and> CreatedBy j = ''ada''"
proof -
  obtain d where d: "db_ok d" "instance_at ValheimProfile d 2 = Some (joined 50 (instance_at ValheimProfile [] 2) saved_sample)"
    using Repo_Upsert_spec [OF _ db_ok_empty saved_sample_storable, of sql_up 50]
    by (auto simp: saved_as_def saved_sample_def)
  have "instance_at ValheimProfile [] 2 = None"
    by (simp add: instance_at_None record_at_def getInstanceRow_def tableFor_def instanceTables_def
      table_rows_def mget_def)
  then have at: "instance_at ValheimProfile d 2 = Some (saved_sample\<lparr>CreatedAt := 50, LastUsed := 50\<rparr>)"
    using d(2) by (simp add: joined_def)
  let ?ops = "[(60, Inl (saved_sample\<lparr>WorldID := ''other'', CreatedBy := ''bob''\<rparr>)), (70, Inr (2, StateRunning))]"
  have hyp: "\<forall>(now, x)\<in>set ?ops. case x of Inl j \<Rightarrow> storable ValheimProfile j | Inr (m, st) \<Rightarrow> st \<noteq> ''''"
    by (simp add: saved_sample_storable StateRunning_def)
  have sel: "WorldID saved_sample = ''w2''" "CreatedBy saved_sample = ''ada''" by (simp_all add: saved_sample_def)
  have "catalogued ValheimProfile" by simp
  from world_identity_stable [OF this d(1) at hyp]
  obtain j where "instance_at ValheimProfile (repo_history ValheimProfile ?ops d) 2 = Some j"
    "WorldID j = ''w2''" "CreatedBy j = ''ada''"
    by (auto simp: sel simp del: repo_history.simps)
  then show ?thesis by blast
qed

end
