(* ===== verification/Manager.thy ===== *)
theory Manager
  imports InstanceTables Ports Budgets StateStore ModLists Mods
begin

text \<open>
  \<open>internal/app/instances/manager.go\<close>, first half: the manager of a game's worlds over the
  database of worlds, the store of desired state, and the runtime, reconciler and renderer of a
  host (\<open>internal/ports/runtime.go\<close>, \<open>reconciler.go\<close>, \<open>installed.go\<close>): listing, creating,
  starting, stopping, deleting and resizing worlds and saving their settings.

  The manager's fields are the record \<open>Manager\<close>: an optional collaborator is an \<open>option\<close>, and what a
  collaborator does is a function of the outside world \<open>'x\<close> to its answer and the world after it.
  The operations are in the state monad of \<open>Ops\<close> over \<open>World\<close>: the database of worlds, the store of
  desired state \<open>'s\<close>, the outside world, the clock (constant while an operation runs, as the mutex
  \<open>budgetMu\<close> and the single database connection make operations sequential), and what was recorded:
  the audit trail, the events, and the commands given to the outside (\<open>w_calls\<close>). Log lines are left
  out, and a context never expires. \<open>None\<close> as repository is one without a database.
\<close>

section \<open>Collaborators\<close>

type_synonym ('x, 'a) call = "'x \<Rightarrow> (goerr + 'a) \<times> 'x"
type_synonym Files = "(string \<times> string) list"

record LogOptions =
  lo_Tail :: int
  lo_Follow :: bool
  lo_Container :: string
  lo_Previous :: bool

record 'x Runtime =
  rt_Start :: "ServerRef \<Rightarrow> ('x, unit) call"
  rt_Stop :: "ServerRef \<Rightarrow> ('x, unit) call"
  rt_Restart :: "ServerRef \<Rightarrow> ('x, unit) call"
  rt_Status :: "ServerRef \<Rightarrow> ('x, Status) call"
  rt_Logs :: "ServerRef \<Rightarrow> LogOptions \<Rightarrow> ('x, string) call"

record 'x Reconciler =
  \<comment> \<open>with the optional interfaces \<open>Materializer\<close> and \<open>Destroyer\<close>\<close>
  rc_Converge :: "ServerRef \<Rightarrow> ('x, unit) call"
  rc_Async :: bool
  rc_Materialize :: "(ServerRef \<Rightarrow> Files \<Rightarrow> ('x, unit) call) option"
  rc_Destroy :: "(ServerRef \<Rightarrow> ('x, unit) call) option"

record 'x JobRunner =
  jr_CreateBackupJob :: "string \<Rightarrow> string \<Rightarrow> string \<Rightarrow> string \<Rightarrow> ('x, unit) call"
  jr_CreateRestoreJob :: "string \<Rightarrow> string \<Rightarrow> string \<Rightarrow> string \<Rightarrow> ('x, unit) call"

record 's StoreOps =
  so_Get :: "'s \<Rightarrow> string \<Rightarrow> goerr + Document"
  so_Patch :: "string \<Rightarrow> string \<Rightarrow> Mutate \<Rightarrow> 's \<Rightarrow> (goerr + bool) \<times> 's"
  so_PutTree :: "string \<Rightarrow> (string \<times> Document) list \<Rightarrow> string \<Rightarrow> 's \<Rightarrow> goerr option \<times> 's"
  so_Delete :: "string \<Rightarrow> string \<Rightarrow> 's \<Rightarrow> goerr option \<times> 's"

record ('s, 'x) Manager =
  m_repo :: InstanceRepo
  m_db :: Db
  m_stateStore :: "'s StoreOps option"
  m_reconciler :: "'x Reconciler option"
  m_preConverge :: "(Instance \<Rightarrow> ('x, unit) call) option"
  m_defaultHost :: Host
  m_runtime :: "'x Runtime option"
  m_totalBudgetGiB :: int
  m_maxInstances :: int
  m_maxRunning :: int
  m_instancesRelPath :: string
  m_lbBaseIP :: string
  m_renderer :: "Instance \<Rightarrow> ModList \<Rightarrow> goerr + Files"
  m_namespace :: string
  m_gameID :: GameID
  m_installed :: "(InstanceID \<Rightarrow> ('x, PackFacts) call) option"
  m_profile :: GameProfile
  m_backupsPVC :: string
  m_serverRefResolver :: "(Instance \<Rightarrow> ServerRef) option"
  m_audit :: bool
  m_event :: bool
  m_depResolver :: "(string \<Rightarrow> string \<Rightarrow> string \<Rightarrow> ('x, string list) call) option"
  m_versionResolver :: "(string \<Rightarrow> goerr + string) option"
  m_modsReader :: "(int \<Rightarrow> ('x, string list) call) option"
  m_cfModsReader :: "(int \<Rightarrow> ('x, string list) call) option"
  m_cfResolver :: "(string \<Rightarrow> string \<Rightarrow> string \<Rightarrow> ('x, string list) call) option"
  m_configsReader :: "(int \<Rightarrow> ('x, (string \<times> string) list) call) option"
  m_globalConfigsReader :: "('x, (string \<times> string) list) call option"
  m_globalConfigsPath :: string
  m_backupsDir :: string
  m_preStopHook :: "(Instance \<Rightarrow> 'x \<Rightarrow> 'x) option"
  m_preDeleteHook :: "(Instance \<Rightarrow> 'x \<Rightarrow> 'x) option"
  m_roleRegistrar :: "(Instance \<Rightarrow> ('x, unit) call) option"
  m_roleRetirer :: "(Instance \<Rightarrow> ('x, unit) call) option"
  m_sessionRoleRetirer :: "(GameID \<Rightarrow> int \<Rightarrow> ('x, unit) call) option"
  m_telemetryProvider :: "(Instance \<Rightarrow> 'x \<Rightarrow> int \<times> bool) option"
  m_afterSyncHook :: "(string \<Rightarrow> string \<Rightarrow> string \<Rightarrow> (string \<Rightarrow> bool) \<Rightarrow> 'x \<Rightarrow> 'x) option"
  m_commandExecutor :: "(Instance \<Rightarrow> string \<Rightarrow> ('x, string) call) option"
  m_jobRunner :: "'x JobRunner option"
  m_sourceReconciler :: "(Instance \<Rightarrow> 'x \<Rightarrow> ((goerr + bool) \<times> Instance) \<times> 'x) option"
  m_newID :: "'x \<Rightarrow> string \<times> 'x"

section \<open>The world an operation runs in\<close>

datatype Call =
    CStart ServerRef
  | CStop ServerRef
  | CRestart ServerRef
  | CMaterialize ServerRef Files
  | CPreConverge Instance
  | CConverge ServerRef
  | CDestroy ServerRef
  | CPreStop Instance
  | CPreDelete Instance
  | CReserveRole Instance
  | CRetireRole Instance
  | CRetireSessions GameID int
  | CCommand Instance string
  | CBackup string string string string
  | CRestore string string string string
  | CSync string string string

record ('s, 'x) World =
  w_db :: InstanceDb
  w_store :: 's
  w_ext :: 'x
  w_now :: Time
  w_calls :: "Call list"
  w_audit :: "Audit list"
  w_events :: "(string \<times> string) list"

type_synonym ('s, 'x, 'a) mop = "(('s, 'x) World, 'a) op"

definition on_db :: "(InstanceDb, 'a) op \<Rightarrow> ('s, 'x, 'a) mop" where
  "on_db = zoom w_db (\<lambda>d w. w\<lparr>w_db := d\<rparr>)"

definition on_store :: "('s, 'a) op \<Rightarrow> ('s, 'x, 'a) mop" where
  "on_store = zoom w_store (\<lambda>s w. w\<lparr>w_store := s\<rparr>)"

definition on_ext :: "('x, 'a) op \<Rightarrow> ('s, 'x, 'a) mop" where
  "on_ext = zoom w_ext (\<lambda>x w. w\<lparr>w_ext := x\<rparr>)"

definition ask :: "('x, 'a) call \<Rightarrow> ('s, 'x, 'a) mop" where
  \<comment> \<open>a question to the outside\<close>
  "ask f = on_ext (of_step f)"

definition command :: "Call \<Rightarrow> ('x, 'a) call \<Rightarrow> ('s, 'x, 'a) mop" where
  \<comment> \<open>a command to the outside, on the record\<close>
  "command c f = seqo (modify (\<lambda>w. w\<lparr>w_calls := w_calls w @ [c]\<rparr>)) (ask f)"

definition hook :: "Call \<Rightarrow> ('x \<Rightarrow> 'x) \<Rightarrow> ('s, 'x, unit) mop" where
  "hook c f = command c (\<lambda>x. (Inr (), f x))"

definition repo_Get :: "('s, 'x) Manager \<Rightarrow> int \<Rightarrow> ('s, 'x, Instance option) mop" where
  "repo_Get m n = on_db (Repo_Get (m_repo m) (m_db m) n)"

definition repo_List :: "('s, 'x) Manager \<Rightarrow> ('s, 'x, Instance list) mop" where
  "repo_List m = on_db (Repo_List (m_repo m) (m_db m))"

definition repo_Upsert :: "('s, 'x) Manager \<Rightarrow> Instance \<Rightarrow> ('s, 'x, unit) mop" where
  "repo_Upsert m inst = bindo (gets w_now) (\<lambda>now. on_db (Repo_Upsert (m_repo m) (m_db m) now inst))"

definition repo_UpdateState :: "('s, 'x) Manager \<Rightarrow> int \<Rightarrow> string \<Rightarrow> ('s, 'x, unit) mop" where
  "repo_UpdateState m n st =
     bindo (gets w_now) (\<lambda>now. on_db (Repo_UpdateState (m_repo m) (m_db m) now n st))"

definition repo_Delete :: "('s, 'x) Manager \<Rightarrow> int \<Rightarrow> ('s, 'x, unit) mop" where
  "repo_Delete m n = on_db (Repo_Delete (m_repo m) (m_db m) n)"

definition store_get :: "'s StoreOps \<Rightarrow> string \<Rightarrow> ('s, 'x, goerr + Document) mop" where
  "store_get so path = gets (\<lambda>w. so_Get so (w_store w) path)"

definition RecordAudit :: "('s, 'x) Manager \<Rightarrow> string list \<Rightarrow> string \<Rightarrow> string \<Rightarrow> ('s, 'x, unit) mop" where
  \<comment> \<open>\<open>if m.audit != nil { _ = m.audit.RecordAudit(...) }\<close>\<close>
  "RecordAudit m actor action detail =
     whenO (m_audit m)
       (modify (\<lambda>w. w\<lparr>w_audit := w_audit w @ [(actorOrHyphen actor, action, detail)]\<rparr>))"

definition RecordEvent :: "('s, 'x) Manager \<Rightarrow> string \<Rightarrow> string list \<Rightarrow> ('s, 'x, unit) mop" where
  "RecordEvent m kind actor =
     whenO (m_event m) (modify (\<lambda>w. w\<lparr>w_events := w_events w @ [(kind, actorOrHyphen actor)]\<rparr>))"

section \<open>Construction\<close>

definition WithGameID :: "GameID \<Rightarrow> ('s, 'x) Manager \<Rightarrow> ('s, 'x) Manager outcome" where
  "WithGameID g m =
     (case ProfileFor g of
        None \<Rightarrow> Panic (''unknown or unregistered game ID '' @ go_quote g)
      | Some p \<Rightarrow> Val (m\<lparr>m_gameID := g, m_profile := p\<rparr>))"

definition WithGameProfile :: "GameProfile \<Rightarrow> ('s, 'x) Manager \<Rightarrow> ('s, 'x) Manager outcome" where
  "WithGameProfile p m = Val (m\<lparr>m_gameID := gp_ID p, m_profile := p\<rparr>)"

definition WithPreDeleteHook :: "(Instance \<Rightarrow> 'x \<Rightarrow> 'x) \<Rightarrow> ('s, 'x) Manager \<Rightarrow> ('s, 'x) Manager outcome" where
  "WithPreDeleteHook fn m =
     Val (m\<lparr>m_preDeleteHook := Some (case m_preDeleteHook m of
                                       None \<Rightarrow> fn
                                     | Some prev \<Rightarrow> (\<lambda>inst x. fn inst (prev inst x)))\<rparr>)"

definition WithDefaultHost :: "string \<Rightarrow> ('s, 'x) Manager \<Rightarrow> ('s, 'x) Manager outcome" where
  "WithDefaultHost h m = Val (m\<lparr>m_defaultHost := NormalizeHost h\<rparr>)"

fun ApplyOptions ::
    "(('s, 'x) Manager \<Rightarrow> ('s, 'x) Manager outcome) list \<Rightarrow> ('s, 'x) Manager \<Rightarrow> ('s, 'x) Manager outcome" where
  "ApplyOptions [] m = Val m"
| "ApplyOptions (opt # opts) m = bindv (opt m) (ApplyOptions opts)"

definition mc_configs_path :: string where
  "mc_configs_path = ''manifests/minecraft-modded/configs.yaml''"

definition NewInstanceManager ::
    "(('s, 'x) Manager \<Rightarrow> ('s, 'x) Manager outcome) list \<Rightarrow> ('s, 'x) Manager \<Rightarrow> ('s, 'x) Manager outcome" where
  \<comment> \<open>the arguments of the constructor are the fields of the record it is given\<close>
  "NewInstanceManager opts m =
     (let m = m\<lparr>m_totalBudgetGiB := (if m_totalBudgetGiB m \<le> 0 then DefaultTotalBudgetGiB else m_totalBudgetGiB m),
               m_maxInstances := (if m_maxInstances m \<le> 0 then DefaultMaxInstances else m_maxInstances m),
               m_maxRunning := (if m_maxRunning m \<le> 0 then DefaultMaxRunning else m_maxRunning m),
               m_instancesRelPath := (if m_instancesRelPath m = '''' then ''manifests/minecraft-modded''
                                      else m_instancesRelPath m),
               m_globalConfigsPath := mc_configs_path, m_gameID := GameMinecraft,
               m_profile := MinecraftProfile\<rparr>
      in bindv (ApplyOptions opts m) (\<lambda>m.
         bindv (if gp_ID (m_profile m) = ''''
                then (case ProfileFor (m_gameID m) of
                        None \<Rightarrow> Panic (''unknown or unregistered game ID '' @ go_quote (m_gameID m))
                      | Some p \<Rightarrow> Val (m\<lparr>m_profile := p\<rparr>))
                else Val m) (\<lambda>m.
         Val (if gp_ID (m_profile m) = GameValheim \<and> m_globalConfigsPath m = mc_configs_path
              then m\<lparr>m_globalConfigsPath := ''manifests/valheim-mod-configs.yaml''\<rparr> else m))))"

section \<open>Paths and names\<close>

definition instanceRoot :: "('s, 'x) Manager \<Rightarrow> Host \<Rightarrow> string" where
  "instanceRoot m host = (if IsCluster host then m_instancesRelPath m else ''compose/'' @ m_gameID m)"

definition instanceDirFor :: "('s, 'x) Manager \<Rightarrow> Instance \<Rightarrow> string" where
  "instanceDirFor m inst = instanceRoot m (EffectiveHost inst) @ ''/'' @ InstanceDirName (Number inst)"

definition readsFromCluster :: "('s, 'x) Manager \<Rightarrow> int \<Rightarrow> ('s, 'x, bool) mop" where
  "readsFromCluster m n =
     bindo (attempt (repo_Get m n)) (\<lambda>r. ret (case r of
         Inr (Some inst) \<Rightarrow> IsCluster (EffectiveHost inst)
       | _ \<Rightarrow> True))"

definition instanceDir :: "('s, 'x) Manager \<Rightarrow> int \<Rightarrow> ('s, 'x, string) mop" where
  "instanceDir m n =
     bindo (attempt (repo_Get m n)) (\<lambda>r. ret (case r of
         Inr (Some inst) \<Rightarrow> instanceDirFor m inst
       | _ \<Rightarrow> m_instancesRelPath m @ ''/'' @ InstanceDirName n))"

definition profileFor :: "('s, 'x) Manager \<Rightarrow> Instance \<Rightarrow> GameProfile" where
  "profileFor m inst =
     (case (if inst_GameID inst \<noteq> '''' then ProfileFor (inst_GameID inst) else None) of
        Some p \<Rightarrow> p
      | None \<Rightarrow>
          (if gp_ID (m_profile m) \<noteq> '''' then m_profile m
           else case (if m_gameID m \<noteq> '''' then ProfileFor (m_gameID m) else None) of
                  Some p \<Rightarrow> p
                | None \<Rightarrow> MinecraftProfile))"

definition gamePrefix :: "('s, 'x) Manager \<Rightarrow> string" where
  "gamePrefix m =
     (case (if m_gameID m \<noteq> '''' then ProfileFor (m_gameID m) else None) of
        Some p \<Rightarrow> gp_Prefix p
      | None \<Rightarrow>
          (if gp_ID (m_profile m) \<noteq> '''' then gp_Prefix (m_profile m) else gp_Prefix MinecraftProfile))"

definition effectiveBackupsPVC :: "('s, 'x) Manager \<Rightarrow> string" where
  "effectiveBackupsPVC m =
     (if m_backupsPVC m \<noteq> '''' then m_backupsPVC m
      else let i = (if m_gameID m = '''' then gp_ID (m_profile m) else m_gameID m)
           in if i = GameValheim then ''valheim-backups''
              else if i = GameMinecraft then ''minecraft-modded-backups''
              else case ProfileFor i of
                     Some p \<Rightarrow> gp_Prefix p @ ''-backups''
                   | None \<Rightarrow>
                       (if gp_Prefix (m_profile m) \<noteq> '''' then gp_Prefix (m_profile m) @ ''-backups''
                        else ''minecraft-modded-backups''))"

definition serverRef :: "('s, 'x) Manager \<Rightarrow> Instance \<Rightarrow> ('s, 'x, ServerRef) mop" where
  "serverRef m inst =
     bindo (of_outcome (DeploymentName inst (profileFor m inst))) (\<lambda>name.
       let ref = \<lparr>sref_Name = name, sref_Scope = m_namespace m, sref_Host = '''', sref_ID = NewInstanceID '''' 0\<rparr>;
           ref = (case m_serverRefResolver m of None \<Rightarrow> ref | Some f \<Rightarrow> f inst)
       in ret (ref\<lparr>sref_Host := EffectiveHost inst,
                   sref_ID := NewInstanceID (gp_ID (profileFor m inst)) (Number inst)\<rparr>))"

definition retireSessionRole :: "('s, 'x) Manager \<Rightarrow> GameID \<Rightarrow> int \<Rightarrow> ('s, 'x, unit) mop" where
  "retireSessionRole m game number =
     (case m_sessionRoleRetirer m of
        None \<Rightarrow> ret ()
      | Some f \<Rightarrow>
          (if number \<le> 0 then ret ()
           else let game = (if game = '''' then gp_ID (m_profile m) else game)
                in ignore (command (CRetireSessions game number) (f game number))))"

section \<open>What the runtime says\<close>

definition reconcileInstalledBuild :: "('s, 'x) Manager \<Rightarrow> Instance \<Rightarrow> ('s, 'x, Instance) mop" where
  \<comment> \<open>returns the Instance the pointer is left at\<close>
  "reconcileInstalledBuild m inst =
     (case (m_installed m, Minecraft inst) of
        (Some installed, Some mc) \<Rightarrow>
          (if \<not> PackDefined inst then ret inst
           else bindo (attempt (ask (installed (NewInstanceID (gp_ID (profileFor m inst)) (Number inst))))) (\<lambda>r.
             case r of
               Inl e \<Rightarrow> ret inst
             | Inr got \<Rightarrow>
                 (let (loader, version) = PackFacts_Resolve got (mc_Loader mc) (mc_MCVersion mc)
                  in if loader = mc_Loader mc \<and> version = mc_MCVersion mc then ret inst
                     else let inst = inst\<lparr>Minecraft := Some (mc\<lparr>mc_Loader := loader, mc_MCVersion := version\<rparr>)\<rparr>
                          in seqo (ignore (repo_Upsert m inst)) (ret inst))))
      | _ \<Rightarrow> ret inst)"

definition stateFromStatus :: "Status \<Rightarrow> string" where
  "stateFromStatus st =
     (if CrashLooping (st_Failure st) then StateError
      else if st_Available st then StateRunning
      else if st_Lifecycle st = LifecycleStopped then StateStopped
      else StateProvisioning)"

definition refreshSource :: "('s, 'x) Manager \<Rightarrow> Instance \<Rightarrow> ('s, 'x, Instance) mop" where
  "refreshSource m inst =
     (case m_sourceReconciler m of
        None \<Rightarrow> ret inst
      | Some f \<Rightarrow>
          (if \<not> IsCluster (EffectiveHost inst) then ret inst
           else bindo (on_ext (\<lambda>x. case f inst x of (r, x') \<Rightarrow> (Ok r, x'))) (\<lambda>(changed, inst).
             seqo (whenO (changed = Inr True) (ignore (repo_Upsert m inst))) (ret inst))))"

definition recordStatus :: "('s, 'x) Manager \<Rightarrow> Instance \<Rightarrow> Status \<Rightarrow> ('s, 'x, Instance) mop" where
  "recordStatus m inst st =
     (let newState = stateFromStatus st;
          inst1 = inst\<lparr>State := newState\<rparr>;
          inst2 = (if st_Address st \<noteq> '''' \<and> st_Address st \<noteq> LBIP inst1 then inst1\<lparr>LBIP := st_Address st\<rparr> else inst1)
      in seqo (whenO (State inst \<noteq> newState) (ignore (repo_UpdateState m (Number inst) newState)))
           (seqo (whenO (st_Address st \<noteq> '''' \<and> st_Address st \<noteq> LBIP inst1) (ignore (repo_Upsert m inst2)))
              (ret inst2)))"

definition listed :: "('s, 'x) Manager \<Rightarrow> Instance \<Rightarrow> ('s, 'x, Instance) mop" where
  \<comment> \<open>one turn of the loop of \<open>ListInstances\<close>\<close>
  "listed m inst =
     bindo (refreshSource m inst) (\<lambda>inst.
     bindo (case m_runtime m of
              None \<Rightarrow> ret inst
            | Some rt \<Rightarrow>
                bindo (serverRef m inst) (\<lambda>ref.
                bindo (attempt (ask (rt_Status rt ref))) (\<lambda>r.
                  case r of
                    Inl e \<Rightarrow> (if errors_is e ErrUnknownHost then ret (inst\<lparr>HostUnknown := True\<rparr>)
                              else ret (inst\<lparr>HostUnreachable := True\<rparr>))
                  | Inr st \<Rightarrow> recordStatus m inst st)))
       (reconcileInstalledBuild m))"

definition ListInstances :: "('s, 'x) Manager \<Rightarrow> ('s, 'x, Instance list) mop" where
  "ListInstances m =
     bindo (wrapped ''list instances: '' (repo_List m)) (\<lambda>records.
     bindo (mapO (listed m) records) (\<lambda>is. ret (sort_key Number is)))"

definition ListInstancesByGame :: "('s, 'x) Manager \<Rightarrow> GameID \<Rightarrow> ('s, 'x, Instance list) mop" where
  "ListInstancesByGame m g =
     bindo (ListInstances m) (\<lambda>all. ret (filter (\<lambda>inst. inst_GameID inst = g) all))"

definition unknown_host_error :: "Instance \<Rightarrow> goerr \<Rightarrow> goerr" where
  "unknown_host_error inst e =
     Wrap (''instance '' @ show_int (Number inst) @ '' declares host '' @ go_quote (EffectiveHost inst) @ '': '') e ''''"

definition GetInstance :: "('s, 'x) Manager \<Rightarrow> int \<Rightarrow> ('s, 'x, Instance option) mop" where
  "GetInstance m n =
     bindo (wrapped (''get instance '' @ show_int n @ '': '') (repo_Get m n)) (\<lambda>rec.
       case rec of
         None \<Rightarrow> ret None
       | Some inst \<Rightarrow>
           bindo (refreshSource m inst) (\<lambda>inst.
           bindo (case m_runtime m of
                    None \<Rightarrow> ret inst
                  | Some rt \<Rightarrow>
                      bindo (serverRef m inst) (\<lambda>ref.
                      bindo (attempt (ask (rt_Status rt ref))) (\<lambda>r.
                        case r of
                          Inl e \<Rightarrow> (if errors_is e ErrUnknownHost then fail (unknown_host_error inst e)
                                    else ret (inst\<lparr>HostUnreachable := True\<rparr>))
                        | Inr st \<Rightarrow> recordStatus m inst st)))
             (\<lambda>inst. bindo (reconcileInstalledBuild m inst) (\<lambda>inst. ret (Some inst)))))"

definition not_found :: "int \<Rightarrow> goerr" where
  "not_found n = Errorf (''instance '' @ show_int n @ '' not found'')"

definition with_instance :: "('s, 'x) Manager \<Rightarrow> int \<Rightarrow> (Instance \<Rightarrow> ('s, 'x, 'a) mop) \<Rightarrow> ('s, 'x, 'a) mop" where
  \<comment> \<open>\<open>inst, err := m.GetInstance(...)\<close>, an error for a missing one, then \<open>k\<close>\<close>
  "with_instance m n k =
     bindo (GetInstance m n) (\<lambda>r. case r of None \<Rightarrow> fail (not_found n) | Some inst \<Rightarrow> k inst)"

section \<open>Reading the Mod list\<close>

definition joinLines :: "string list \<Rightarrow> string" where
  "joinLines ls = (if ls = [] then '''' else join [NL] ls @ [NL])"

definition mods_txt :: "string \<Rightarrow> string list" where
  \<comment> \<open>the entries of a \<open>mods.txt\<close>, without comments and optional marks\<close>
  "mods_txt t =
     map (\<lambda>l. trim_suffix l ''?'')
       (filter (\<lambda>l. l \<noteq> '''' \<and> \<not> has_prefix l ''#'') (map trim_space (split_on NL t)))"

definition GetInstalledMods :: "('s, 'x) Manager \<Rightarrow> int \<Rightarrow> ('s, 'x, string list) mop" where
  "GetInstalledMods m n =
     bindo (case m_modsReader m of None \<Rightarrow> ret False | Some _ \<Rightarrow> readsFromCluster m n) (\<lambda>cluster.
       if cluster then (case m_modsReader m of Some f \<Rightarrow> ask (f n) | None \<Rightarrow> ret [])
       else (case m_stateStore m of
               None \<Rightarrow> ret []
             | Some so \<Rightarrow>
                 bindo (instanceDir m n) (\<lambda>dir.
                 bindo (store_get so (dir @ ''/mods.yaml'')) (\<lambda>r.
                   case r of
                     Inl e \<Rightarrow> fail e
                   | Inr doc \<Rightarrow> ret (if Data doc = None then [] else mods_txt (data_get doc ''mods.txt''))))))"

definition GetCurseForgeMods :: "('s, 'x) Manager \<Rightarrow> int \<Rightarrow> ('s, 'x, string list) mop" where
  "GetCurseForgeMods m n =
     bindo (case m_cfModsReader m of None \<Rightarrow> ret False | Some _ \<Rightarrow> readsFromCluster m n) (\<lambda>cluster.
       if cluster then (case m_cfModsReader m of Some f \<Rightarrow> ask (f n) | None \<Rightarrow> ret [])
       else (case m_stateStore m of
               None \<Rightarrow> ret []
             | Some so \<Rightarrow>
                 bindo (instanceDir m n) (\<lambda>dir.
                 bindo (store_get so (dir @ ''/mods.yaml'')) (\<lambda>r.
                   case r of
                     Inl e \<Rightarrow> (if errors_is e ErrNotExist then ret [] else fail e)
                   | Inr doc \<Rightarrow>
                       ret (if Data doc = None then []
                            else map MCModRef_Entry (SplitModLines (data_get doc ''curseforge.txt'') ProviderCurseForge))))))"

definition GetModList :: "('s, 'x) Manager \<Rightarrow> int \<Rightarrow> ('s, 'x, ModList) mop" where
  "GetModList m n =
     bindo (GetInstalledMods m n) (\<lambda>primary.
       let out = empty_modlist\<lparr>ml_Primary := joinLines primary\<rparr>
       in if m_gameID m \<noteq> GameMinecraft then ret out
          else bindo (GetCurseForgeMods m n) (\<lambda>cf. ret (out\<lparr>ml_CurseForge := joinLines cf\<rparr>)))"

section \<open>Writing Desired state\<close>

definition configsFileName :: string where "configsFileName = ''configs.yaml''"
definition modsFileName :: string where "modsFileName = ''mods.yaml''"

definition raw_doc :: "string \<Rightarrow> Document" where
  "raw_doc c = \<lparr>Data = None, Annotations = None, Raw = c\<rparr>"

definition preserved ::
    "(string \<Rightarrow> goerr + Document) \<Rightarrow> string \<Rightarrow> string \<Rightarrow> (string \<times> Document) list \<Rightarrow> (string \<times> Document) list" where
  \<comment> \<open>one turn of the loop over \<open>preserve\<close>\<close>
  "preserved get dir fname tree =
     (if map_of tree fname = None then tree
      else case get (dir @ ''/'' @ fname) of
             Inl e \<Rightarrow> tree
           | Inr old \<Rightarrow>
               (if Raw old \<noteq> '''' \<and> (fname \<noteq> configsFileName \<or> (case Data old of None \<Rightarrow> False | Some d \<Rightarrow> d \<noteq> []))
                then AList.update fname (raw_doc (Raw old)) tree else tree))"

definition converge_on ::
    "('s, 'x) Manager \<Rightarrow> Instance \<Rightarrow> Files \<Rightarrow> bool \<Rightarrow> 'x Reconciler \<Rightarrow> ('s, 'x, unit) mop" where
  \<comment> \<open>the part of \<open>writeRendered\<close> after the store was written\<close>
  "converge_on m inst files converge rc =
     bindo (serverRef m inst) (\<lambda>ref.
     seqo (case rc_Materialize rc of
             Some f \<Rightarrow> wrapped (''materialize '' @ EffectiveHost inst @ '': '') (command (CMaterialize ref files) (f ref files))
           | None \<Rightarrow>
               (if \<not> rc_Async rc
                then fail (Wrap (''reconciler for '' @ EffectiveHost inst @ '' does not implement ports.Materializer: '')
                             (Sentinel ErrNotImplemented) '''')
                else ret ()))
     (whenO converge
        (seqo (optO (m_preConverge m) (\<lambda>f.
                 wrapped (''pre-converge '' @ EffectiveHost inst @ '': '') (command (CPreConverge inst) (f inst))))
           (wrapped (''converge '' @ EffectiveHost inst @ '': '') (command (CConverge ref) (rc_Converge rc ref))))))"

definition writeRendered ::
    "('s, 'x) Manager \<Rightarrow> Instance \<Rightarrow> ModList \<Rightarrow> string \<Rightarrow> bool \<Rightarrow> string list \<Rightarrow> ('s, 'x, unit) mop" where
  "writeRendered m inst mods commitMsg converge preserve =
     bindo (wrapped ''render manifests: '' (of_sum (m_renderer m inst mods))) (\<lambda>files.
       case m_stateStore m of
         None \<Rightarrow>
           fail (Wrap (''instance '' @ show_int (Number inst) @ '' on '' @ EffectiveHost inst @ '': '')
                  (Sentinel ErrNoStateStore) '''')
       | Some so \<Rightarrow>
           bindo (gets w_store) (\<lambda>s.
             let dir = instanceDirFor m inst;
                 tree = map (\<lambda>(f, c). (f, raw_doc c)) files;
                 tree = fold (preserved (so_Get so s) dir) preserve tree
             in seqo (wrapped ''state store write instance manifests: ''
                        (on_store (of_exec (so_PutTree so dir tree commitMsg))))
                  (optO (m_reconciler m) (converge_on m inst files converge))))"

definition writeManifestsConverging ::
    "('s, 'x) Manager \<Rightarrow> Instance \<Rightarrow> ModList \<Rightarrow> string \<Rightarrow> bool \<Rightarrow> ('s, 'x, unit) mop" where
  "writeManifestsConverging m inst mods commitMsg converge =
     writeRendered m inst mods commitMsg converge [configsFileName]"

definition writeManifests :: "('s, 'x) Manager \<Rightarrow> Instance \<Rightarrow> ModList \<Rightarrow> string \<Rightarrow> ('s, 'x, unit) mop" where
  "writeManifests m inst mods commitMsg = writeManifestsConverging m inst mods commitMsg True"

definition writeSettingsManifests :: "('s, 'x) Manager \<Rightarrow> Instance \<Rightarrow> string \<Rightarrow> ('s, 'x, unit) mop" where
  "writeSettingsManifests m inst commitMsg =
     writeRendered m inst empty_modlist commitMsg False [configsFileName, modsFileName]"

end
