(* ===== verification/Lifecycle.thy ===== *)
theory Lifecycle
  imports Manager
begin

text \<open>
  The operations of \<open>internal/app/instances/manager.go\<close> on the life of a world: create, resize,
  start, stop, delete, restart, settings, what is left of a provision, and the questions and
  commands a runtime answers. Definitions only; \<open>LifecycleProofs\<close> proves them correct.
\<close>

section \<open>Guards\<close>

definition checkLBIPFree :: "('s, 'x) Manager \<Rightarrow> Instance \<Rightarrow> ('s, 'x, unit) mop" where
  "checkLBIPFree m inst =
     (if LBIP inst = '''' \<or> m_repo m = None then ret ()
      else bindo (attempt (repo_List m)) (\<lambda>r.
        case r of
          Inl e \<Rightarrow> ret ()
        | Inr all \<Rightarrow>
            (case find (\<lambda>other. LBIP other = LBIP inst \<and>
                      \<not> (inst_GameID other = inst_GameID inst \<and> Number other = Number inst)) all of
               None \<Rightarrow> ret ()
             | Some other \<Rightarrow>
                 fail (Errorf (''address '' @ LBIP inst @ '' is already used by '' @ inst_GameID other
                   @ '' instance #'' @ pad02 (Number other) @ '' ('' @ inst_Name other
                   @ ''): change the game's LB base so the ranges do not overlap'')))))"

definition existingWorldName :: "Document \<Rightarrow> string" where
  "existingWorldName doc =
     (case find (\<lambda>key. trim_space (data_get doc key) \<noteq> '''') [''SERVER_NAME'', ''LEVEL'', ''WORLD_NAME''] of
        Some key \<Rightarrow> trim_space (data_get doc key)
      | None \<Rightarrow> ''an unknown world'')"

definition doc_empty :: "Document \<Rightarrow> bool" where
  \<comment> \<open>\<open>len(doc.Data) == 0 && len(doc.Raw) == 0\<close>\<close>
  "doc_empty d = ((case Data d of None \<Rightarrow> True | Some m \<Rightarrow> m = []) \<and> Raw d = '''')"

definition checkInstanceDirFree :: "('s, 'x) Manager \<Rightarrow> Instance \<Rightarrow> ('s, 'x, unit) mop" where
  "checkInstanceDirFree m inst =
     optO (m_stateStore m) (\<lambda>so.
       bindo (store_get so (instanceDirFor m inst @ ''/slot.yaml'')) (\<lambda>r.
         case r of
           Inl e \<Rightarrow> ret ()
         | Inr doc \<Rightarrow>
             (if doc_empty doc then ret ()
              else fail (Errorf (''instance '' @ pad02 (Number inst) @ '' already exists in ''
                @ instanceRoot m (EffectiveHost inst) @ '' as '' @ go_quote (existingWorldName doc)
                @ '', but this agrelha's database does not know it: refusing to overwrite. Point at a ''
                @ ''different branch or repository, or reconcile the database first'')))))"

section \<open>Create\<close>

definition free_number :: "int \<Rightarrow> int list \<Rightarrow> int option" where
  \<comment> \<open>\<open>for n := 1; n <= m.maxInstances; n++ { if !usedNumbers[n] { ... break } }\<close>\<close>
  "free_number maxInstances used = find (\<lambda>n. n \<notin> set used) [1..maxInstances]"

definition choose_number :: "int \<Rightarrow> int list \<Rightarrow> int \<Rightarrow> goerr + int" where
  "choose_number maxInstances used number =
     (let chosen = (if number \<le> 0 then
                      Inr (case free_number maxInstances used of Some n \<Rightarrow> n | None \<Rightarrow> number)
                    else if number \<in> set used then
                      Inl (Errorf (''instance number '' @ show_int number @ '' is already in use''))
                    else Inr number)
      in case chosen of
           Inl e \<Rightarrow> Inl e
         | Inr n \<Rightarrow>
             (if n \<le> 0 \<or> n > maxInstances
              then Inl (Errorf (''invalid instance number '' @ show_int n @ '' (must be 1..''
                          @ show_int maxInstances @ '')''))
              else Inr n))"

definition default_name :: "Instance \<Rightarrow> Instance" where
  "default_name inst =
     (if trim_space (inst_Name inst) \<noteq> '''' then inst
      else inst\<lparr>inst_Name :=
        (if inst_GameID inst = GameValheim then ''Valheim ''
         else if inst_GameID inst = GameGMod then ''GMod '' else ''World '') @ pad02 (Number inst)\<rparr>)"

definition releaseRole :: "('s, 'x) Manager \<Rightarrow> Instance \<Rightarrow> ('s, 'x, unit) mop" where
  "releaseRole m inst =
     optO (m_roleRetirer m) (\<lambda>f. ignore (command (CRetireRole inst) (f inst)))"

definition newWorldID :: "('s, 'x) Manager \<Rightarrow> Instance \<Rightarrow> ('s, 'x, Instance) mop" where
  "newWorldID m inst =
     (if WorldID inst \<noteq> '''' then ret inst
      else bindo (on_ext (\<lambda>x. case m_newID m x of (i, x') \<Rightarrow> (Ok i, x'))) (\<lambda>i. ret (inst\<lparr>WorldID := i\<rparr>)))"

definition createWorld :: "('s, 'x) Manager \<Rightarrow> Instance \<Rightarrow> ModList \<Rightarrow> string list \<Rightarrow> ('s, 'x, Instance) mop" where
  \<comment> \<open>\<open>CreateInstance\<close> once the Instance is numbered and complete\<close>
  "createWorld m inst mods actor =
     seqo (checkLBIPFree m inst)
     (seqo (checkInstanceDirFree m inst)
     (seqo (retireSessionRole m (inst_GameID inst) (Number inst))
     (seqo (optO (m_roleRegistrar m) (\<lambda>f.
              wrapped (''reserve access role for instance '' @ pad02 (Number inst) @ '': '')
                (command (CReserveRole inst) (f inst))))
     (seqo (cleanup
              (writeManifests m inst mods (gamePrefix m @ '': create instance '' @ pad02 (Number inst)
                 @ '' ('' @ inst_Name inst @ '')''))
              (releaseRole m inst))
     (seqo (wrapped ''save instance record: '' (cleanup (repo_Upsert m inst) (releaseRole m inst)))
     (let action = gamePrefix m @ ''-instance-create''
      in seqo (RecordAudit m actor action (''World #'' @ pad02 (Number inst) @ '' '' @ go_quote (inst_Name inst)))
           (seqo (RecordEvent m action actor) (ret inst))))))))"

definition CreateInstance ::
    "('s, 'x) Manager \<Rightarrow> Instance \<Rightarrow> ModList \<Rightarrow> string list \<Rightarrow> ('s, 'x, Instance) mop" where
  "CreateInstance m inst mods actor =
     (let inst = (if inst_Host inst = '''' \<and> m_defaultHost m \<noteq> '''' then inst\<lparr>inst_Host := m_defaultHost m\<rparr> else inst)
      in bindo (repo_List m) (\<lambda>existing.
         let profile = profileFor m inst
         in bindo (of_outcome (CalculateBudget profile existing (m_totalBudgetGiB m) (m_maxRunning m) (m_maxInstances m)))
         (\<lambda>budget. seqo (checkO (CanCreate budget))
         (bindo (of_sum (choose_number (m_maxInstances m) (map Number existing) (Number inst))) (\<lambda>n.
            let inst = inst\<lparr>Number := n\<rparr>;
                inst = (if inst_GameID inst = '''' then inst\<lparr>inst_GameID := gp_ID profile\<rparr> else inst)
            in bindo (newWorldID m inst) (\<lambda>inst.
               bindo (of_outcome (EnsureDefaults profile (m_lbBaseIP m) (default_name inst))) (\<lambda>inst.
               createWorld m inst mods actor)))))))"

section \<open>Resize\<close>

definition SetResources :: "('s, 'x) Manager \<Rightarrow> int \<Rightarrow> Resources \<Rightarrow> string list \<Rightarrow> ('s, 'x, unit) mop" where
  "SetResources m n r actor =
     seqo (checkO (Resources_Validate r))
     (with_instance m n (\<lambda>inst.
        bindo (wrapped (''read current mods for instance '' @ show_int n @ '': '') (GetModList m n)) (\<lambda>mods.
          let inst = inst\<lparr>inst_Resources := r\<rparr>;
              size = show_int (MemRequestGiB r) @ ''/'' @ show_int (MemLimitGiB r) @ '' GiB''
          in seqo (writeManifests m inst mods (gamePrefix m @ '': resize instance '' @ pad02 n @ '' to '' @ size))
             (seqo (wrapped (''save instance '' @ show_int n @ '' resources: '') (repo_Upsert m inst))
             (RecordAudit m actor (gamePrefix m @ ''-instance-resize'') (''#'' @ pad02 n @ '' -> '' @ size))))))"

definition ApplyTier :: "('s, 'x) Manager \<Rightarrow> int \<Rightarrow> Tier \<Rightarrow> string list \<Rightarrow> ('s, 'x, unit) mop" where
  "ApplyTier m n tier actor =
     with_instance m n (\<lambda>inst.
       seqo (SetResources m n (tier_Resources tier) actor)
         (if tier_Key tier = '''' \<or> tier_Key tier = inst_Tier inst then ret ()
          else repo_Upsert m (inst\<lparr>inst_Tier := NormalizeTier (tier_Key tier),
                                  inst_Resources := tier_Resources tier\<rparr>)))"

section \<open>Start, stop, restart\<close>

definition start_mods :: "('s, 'x) Manager \<Rightarrow> int \<Rightarrow> Instance \<Rightarrow> ('s, 'x, ModList) mop" where
  "start_mods m n inst =
     (if \<not> cap_Mods (gp_Capabilities (profileFor m inst)) then ret empty_modlist
      else bindo (attempt (GetModList m n)) (\<lambda>r.
        case r of
          Inr mods \<Rightarrow> ret mods
        | Inl e \<Rightarrow>
            (if errors_is e ErrNotExist then ret empty_modlist
             else fail (Wrap (''start instance '' @ show_int (Number inst)
                          @ '': converge: read mod list: '') e ''''))))"

definition bring_up :: "('s, 'x) Manager \<Rightarrow> int \<Rightarrow> Instance \<Rightarrow> ('s, 'x, unit) mop" where
  \<comment> \<open>the part of \<open>StartInstance\<close> that makes the server run\<close>
  "bring_up m n inst =
     (if m_reconciler m \<noteq> None \<and> \<not> IsCluster (EffectiveHost inst) then
        bindo (start_mods m n inst) (\<lambda>mods.
          wrapped (''start instance '' @ show_int (Number inst) @ '': converge: '')
            (writeManifests m inst mods (gamePrefix m @ '': start instance '' @ pad02 (Number inst) @ '' (converge)'')))
      else optO (m_runtime m) (\<lambda>rt.
        bindo (serverRef m inst) (\<lambda>ref.
          wrapped (''start instance '' @ show_int (Number inst) @ '': '') (command (CStart ref) (rt_Start rt ref)))))"

definition StartInstance :: "('s, 'x) Manager \<Rightarrow> int \<Rightarrow> string list \<Rightarrow> ('s, 'x, unit) mop" where
  "StartInstance m n actor =
     with_instance m n (\<lambda>inst.
       if State inst = StateRunning then ret ()
       else bindo (ListInstances m) (\<lambda>instances.
         let others = filter (\<lambda>other. Number other \<noteq> n) instances;
             profile = profileFor m inst
         in bindo (of_outcome (CalculateBudget profile others (m_totalBudgetGiB m) (m_maxRunning m) (m_maxInstances m)))
            (\<lambda>budget. bindo (of_outcome (CanStart budget profile inst)) (\<lambda>refused.
            seqo (checkO refused)
            (seqo (bring_up m n inst)
            (seqo (repo_UpdateState m n StateRunning)
            (let action = gamePrefix m @ ''-instance-start''
             in seqo (RecordAudit m actor action (''Instance #'' @ pad02 n)) (RecordEvent m action actor))))))))"

definition StopInstance :: "('s, 'x) Manager \<Rightarrow> int \<Rightarrow> string list \<Rightarrow> ('s, 'x, unit) mop" where
  "StopInstance m n actor =
     with_instance m n (\<lambda>inst.
       seqo (optO (m_preStopHook m) (\<lambda>f. whenO (State inst = StateRunning) (hook (CPreStop inst) (f inst))))
       (seqo (optO (m_runtime m) (\<lambda>rt.
                bindo (serverRef m inst) (\<lambda>ref.
                  wrapped (''stop instance '' @ show_int (Number inst) @ '': '') (command (CStop ref) (rt_Stop rt ref)))))
       (seqo (repo_UpdateState m n StateStopped)
       (let action = gamePrefix m @ ''-instance-stop''
        in seqo (RecordAudit m actor action (''Instance #'' @ pad02 n)) (RecordEvent m action actor)))))"

definition RestartInstance :: "('s, 'x) Manager \<Rightarrow> int \<Rightarrow> string list \<Rightarrow> ('s, 'x, unit) mop" where
  "RestartInstance m n actor =
     with_instance m n (\<lambda>inst.
       seqo (optO (m_runtime m) (\<lambda>rt.
               bindo (serverRef m inst) (\<lambda>ref.
                 wrapped (''restart instance '' @ show_int n @ '': '') (command (CRestart ref) (rt_Restart rt ref)))))
       (let action = gamePrefix m @ ''-instance-restart''
        in seqo (RecordAudit m actor action (''Instance #'' @ pad02 n)) (RecordEvent m action actor)))"

section \<open>Delete\<close>

definition refuse_running :: "('s, 'x) Manager \<Rightarrow> int \<Rightarrow> Instance \<Rightarrow> ('s, 'x, unit) mop" where
  "refuse_running m n inst =
     optO (m_runtime m) (\<lambda>rt.
       bindo (serverRef m inst) (\<lambda>ref.
       bindo (attempt (ask (rt_Status rt ref))) (\<lambda>r.
         case r of
           Inl e \<Rightarrow> ret ()
         | Inr st \<Rightarrow>
             (if st_Lifecycle st = LifecycleRunning \<or> st_Available st
              then fail (Errorf (''instance '' @ show_int n @ '' ('' @ inst_Name inst
                     @ '') must be stopped before it can be deleted''))
              else ret ()))))"

definition tear_down :: "('s, 'x) Manager \<Rightarrow> int \<Rightarrow> Instance \<Rightarrow> ('s, 'x, unit) mop" where
  "tear_down m n inst =
     (case m_reconciler m of
        None \<Rightarrow> ret ()
      | Some rc \<Rightarrow>
          (case rc_Destroy rc of
             None \<Rightarrow> ret ()
           | Some f \<Rightarrow>
               (if IsCluster (EffectiveHost inst) then ret ()
                else bindo (serverRef m inst) (\<lambda>ref.
                  wrapped (''delete instance '' @ show_int n @ '': tear down '' @ EffectiveHost inst @ '': '')
                    (command (CDestroy ref) (f ref))))))"

definition retireRole :: "('s, 'x) Manager \<Rightarrow> int \<Rightarrow> Instance \<Rightarrow> string list \<Rightarrow> ('s, 'x, unit) mop" where
  "retireRole m n inst actor =
     optO (m_roleRetirer m) (\<lambda>f.
       bindo (attempt (command (CRetireRole inst) (f inst))) (\<lambda>r.
         case r of
           Inr _ \<Rightarrow> ret ()
         | Inl e \<Rightarrow> RecordAudit m actor (gamePrefix m @ ''-instance-role-orphaned'')
                       (''Instance #'' @ pad02 n @ '': '' @ err_text e)))"

definition DeleteInstance :: "('s, 'x) Manager \<Rightarrow> int \<Rightarrow> string list \<Rightarrow> ('s, 'x, unit) mop" where
  "DeleteInstance m n actor =
     with_instance m n (\<lambda>inst.
       seqo (optO (m_preDeleteHook m) (\<lambda>f. hook (CPreDelete inst) (f inst)))
       (seqo (refuse_running m n inst)
       (seqo (tear_down m n inst)
       (seqo (optO (m_stateStore m) (\<lambda>so.
                wrapped ''state store delete instance manifests: ''
                  (on_store (of_exec (so_Delete so (instanceDirFor m inst)
                     (gamePrefix m @ '': delete instance '' @ pad02 n @ '' ('' @ inst_Name inst @ '')''))))))
       (seqo (repo_Delete m n)
       (seqo (retireSessionRole m (inst_GameID inst) n)
       (seqo (retireRole m n inst actor)
       (let action = gamePrefix m @ ''-instance-delete''
        in seqo (RecordAudit m actor action (''Instance #'' @ pad02 n)) (RecordEvent m action actor)))))))))"

section \<open>Settings\<close>

definition persistSettings :: "('s, 'x) Manager \<Rightarrow> Instance \<Rightarrow> string list \<Rightarrow> ('s, 'x, unit) mop" where
  "persistSettings m inst actor =
     (let failed = ''update instance '' @ show_int (Number inst) @ '' settings: ''
      in seqo (wrapped failed (writeSettingsManifests m inst
                 (gamePrefix m @ '': update instance '' @ pad02 (Number inst) @ '' settings'')))
         (seqo (wrapped failed (repo_Upsert m inst))
         (RecordAudit m actor (gamePrefix m @ ''-settings-save'') (''Updated settings for #'' @ pad02 (Number inst)))))"

definition edit_settings :: "string \<Rightarrow> string \<Rightarrow> string \<Rightarrow> Instance \<Rightarrow> Instance" where
  "edit_settings name motd tier inst =
     inst\<lparr>inst_Name := (if name \<noteq> '''' then name else inst_Name inst), MOTD := motd,
          inst_Tier := NormalizeTier tier\<rparr>"

definition edit_password :: "string \<Rightarrow> Instance \<Rightarrow> Instance" where
  "edit_password password inst =
     (if password = '''' then inst
      else inst\<lparr>Valheim := Some ((case Valheim inst of None \<Rightarrow> \<lparr>vh_Password = '''', vh_Seed = ''''\<rparr> | Some v \<Rightarrow> v)
             \<lparr>vh_Password := password\<rparr>)\<rparr>)"

definition UpdateSettings ::
    "('s, 'x) Manager \<Rightarrow> int \<Rightarrow> string \<Rightarrow> string \<Rightarrow> string \<Rightarrow> string list \<Rightarrow> ('s, 'x, unit) mop" where
  "UpdateSettings m n name motd tier actor =
     with_instance m n (\<lambda>inst. persistSettings m (edit_settings name motd tier inst) actor)"

definition UpdateValheimSettings ::
    "('s, 'x) Manager \<Rightarrow> int \<Rightarrow> string \<Rightarrow> string \<Rightarrow> string \<Rightarrow> string \<Rightarrow> string list \<Rightarrow> ('s, 'x, unit) mop" where
  "UpdateValheimSettings m n name motd tier password actor =
     with_instance m n (\<lambda>inst.
       persistSettings m (edit_password password (edit_settings name motd tier inst)) actor)"

definition SaveInstance :: "('s, 'x) Manager \<Rightarrow> Instance \<Rightarrow> ('s, 'x, unit) mop" where
  "SaveInstance m inst =
     (if m_repo m = None then fail (Sentinel ErrNotImplemented) else repo_Upsert m inst)"

definition Manager_Budget :: "('s, 'x) Manager \<Rightarrow> Instance list \<Rightarrow> Budget outcome" where
  "Manager_Budget m is =
     CalculateBudget (profileFor m zero_instance) is (m_totalBudgetGiB m) (m_maxRunning m) (m_maxInstances m)"

section \<open>What a runtime tells\<close>

definition RuntimeStatus :: "('s, 'x) Manager \<Rightarrow> int \<Rightarrow> ('s, 'x, Status) mop" where
  "RuntimeStatus m n =
     (case m_runtime m of
        None \<Rightarrow> fail (Sentinel ErrNotImplemented)
      | Some rt \<Rightarrow> with_instance m n (\<lambda>inst. bindo (serverRef m inst) (\<lambda>ref. ask (rt_Status rt ref))))"

definition InstanceLogs :: "('s, 'x) Manager \<Rightarrow> int \<Rightarrow> int \<Rightarrow> ('s, 'x, string) mop" where
  \<comment> \<open>the stream as the text it delivers\<close>
  "InstanceLogs m n tail =
     (case m_runtime m of
        None \<Rightarrow> fail (Sentinel ErrNotImplemented)
      | Some rt \<Rightarrow>
          with_instance m n (\<lambda>inst. bindo (serverRef m inst) (\<lambda>ref.
            ask (rt_Logs rt ref \<lparr>lo_Tail = (if tail \<le> 0 then 100 else tail), lo_Follow = True,
              lo_Container = '''', lo_Previous = False\<rparr>))))"

definition CrashLogs :: "('s, 'x) Manager \<Rightarrow> int \<Rightarrow> int \<Rightarrow> string list \<Rightarrow> ('s, 'x, string) mop" where
  "CrashLogs m n tail step =
     (case m_runtime m of
        None \<Rightarrow> fail (Sentinel ErrNotImplemented)
      | Some rt \<Rightarrow>
          with_instance m n (\<lambda>inst. bindo (serverRef m inst) (\<lambda>ref.
            ask (rt_Logs rt ref \<lparr>lo_Tail = (if tail \<le> 0 then 100 else tail), lo_Follow = False,
              lo_Container = (case step of [] \<Rightarrow> '''' | s # _ \<Rightarrow> s), lo_Previous = True\<rparr>))))"

definition ExecuteCommand :: "('s, 'x) Manager \<Rightarrow> int \<Rightarrow> string \<Rightarrow> ('s, 'x, string) mop" where
  "ExecuteCommand m n cmd =
     (case m_commandExecutor m of
        None \<Rightarrow> fail (Errorf ''command execution not configured'')
      | Some f \<Rightarrow> with_instance m n (\<lambda>inst. command (CCommand inst cmd) (f inst cmd)))"

record ProvisionState =
  pv_Phase :: string
  pv_Ready :: bool
  pv_Cause :: string

definition provision :: "string \<Rightarrow> bool \<Rightarrow> string \<Rightarrow> ProvisionState" where
  "provision phase ready cause = \<lparr>pv_Phase = phase, pv_Ready = ready, pv_Cause = cause\<rparr>"

definition provisionFailure :: "Failure \<Rightarrow> string" where
  "provisionFailure f =
     (if fl_WaitingReason f = ''ImagePullBackOff'' \<or> fl_WaitingReason f = ''ErrImagePull'' then
        ''The server image could not be pulled. Check the registry credentials and that the tag exists.''
      else if fl_WaitingReason f = ''CreateContainerConfigError'' then
        ''The container could not be configured. A referenced secret or config is missing.''
      else if FailedBeforeStart f then
        ''Setup failed before the server started, during ''
        @ (if fl_InitStep f = '''' then ''setup'' else fl_InitStep f)
        @ ''. The mod or pack download is the usual cause.''
      else if fl_OOMKilled f then
        ''The server ran out of memory and was killed. A larger tier, or a lighter pack, will fix it.''
      else if CrashLooping f then
        (if fl_Reason f \<noteq> '''' then
           ''The server keeps restarting ('' @ fl_Reason f @ '', exit '' @ show_int (fl_ExitCode f)
           @ ''). Its logs name the cause.''
         else
           ''The server keeps restarting after '' @ show_int (fl_RestartCount f)
           @ '' attempts. Its logs name the cause.'')
      else '''')"

definition ProvisioningStatus :: "('s, 'x) Manager \<Rightarrow> int \<Rightarrow> ('s, 'x, ProvisionState \<times> goerr option) mop" where
  \<comment> \<open>the state is returned beside the error\<close>
  "ProvisioningStatus m n =
     bindo (attempt (GetInstance m n)) (\<lambda>r.
       case r of
         Inr (Some inst) \<Rightarrow>
           (case m_runtime m of
              None \<Rightarrow> ret (provision ''ready'' True '''', None)
            | Some rt \<Rightarrow>
                bindo (serverRef m inst) (\<lambda>ref.
                bindo (attempt (ask (rt_Status rt ref))) (\<lambda>r.
                  ret (case r of
                         Inl e \<Rightarrow> (provision ''syncing'' False '''', Some e)
                       | Inr st \<Rightarrow>
                           (let cause = provisionFailure (st_Failure st)
                            in (if st_Available st then provision ''ready'' True ''''
                                else if cause \<noteq> '''' then provision ''failed'' False cause
                                else if st_Lifecycle st = LifecycleRunning then provision ''booting'' False ''''
                                else provision ''syncing'' False '''', None))))))
       | _ \<Rightarrow> ret (provision ''unknown'' False '''', Some (Errorf ''instance not found'')))"

section \<open>Statistics\<close>

definition quot :: "int \<Rightarrow> int \<Rightarrow> int" where
  \<comment> \<open>Go's division, towards zero\<close>
  "quot a b = sgn a * (\<bar>a\<bar> div b)"

definition rem :: "int \<Rightarrow> int \<Rightarrow> int" where
  "rem a b = sgn a * (\<bar>a\<bar> mod b)"

definition round_minutes :: "int \<Rightarrow> int" where
  \<comment> \<open>a duration in nanoseconds, rounded to minutes, halves away from zero\<close>
  "round_minutes d = sgn d * ((\<bar>d\<bar> + 30000000000) div 60000000000)"

definition FormatDuration :: "int \<Rightarrow> string" where
  "FormatDuration d =
     (let mins = round_minutes d;
          days = quot (quot mins 60) 24;
          h = rem (quot mins 60) 24;
          m = rem mins 60
      in if days > 0 then show_int days @ ''d '' @ show_int h @ ''h''
         else if h > 0 then show_int h @ ''h '' @ show_int m @ ''m''
         else show_int m @ ''m'')"

record InstanceStat =
  is_Players :: int
  is_PlayersKnown :: bool
  is_Uptime :: string

definition uptime_of :: "('s, 'x) Manager \<Rightarrow> Instance \<Rightarrow> ('s, 'x, string) mop" where
  "uptime_of m inst =
     (case m_runtime m of
        None \<Rightarrow> ret ''''
      | Some rt \<Rightarrow>
          bindo (serverRef m inst) (\<lambda>ref.
          bindo (attempt (ask (rt_Status rt ref))) (\<lambda>r.
          bindo (gets w_now) (\<lambda>now. ret (case r of
              Inr ps \<Rightarrow> (if st_StartedAt ps \<noteq> 0 then FormatDuration (now - st_StartedAt ps) else '''')
            | Inl e \<Rightarrow> '''')))))"

definition InstanceStats :: "('s, 'x) Manager \<Rightarrow> Instance list \<Rightarrow> ('s, 'x, (int \<times> InstanceStat) list) mop" where
  "InstanceStats m insts =
     bindo (mapO (\<lambda>inst.
         bindo (uptime_of m inst) (\<lambda>up.
         bindo (gets w_ext) (\<lambda>x.
           let (players, known) = (case m_telemetryProvider m of None \<Rightarrow> (0, False) | Some f \<Rightarrow> f inst x)
           in ret (Number inst, \<lparr>is_Players = players, is_PlayersKnown = known, is_Uptime = up\<rparr>))))
       (filter (\<lambda>inst. State inst = StateRunning) insts))
     (\<lambda>stats. ret (fold (\<lambda>(n, st) out. AList.update n st out) stats []))"

end
