(* ===== verification/Frames.thy ===== *)
theory Frames
  imports Lifecycle
begin

text \<open>
  What an operation leaves alone, whatever its collaborators answer. \<open>keeps R m\<close> says that the
  world after \<open>m\<close> is related by \<open>R\<close> to the one before, however \<open>m\<close> ends. For a reflexive and
  transitive \<open>R\<close> the combinators keep this, which is the locale \<open>op_frame\<close>; its interpretations are
  the frames the managers' proofs use: the database of worlds, the store of desired state, and the
  commands given to the outside.
\<close>

definition keeps :: "('w \<Rightarrow> 'w \<Rightarrow> bool) \<Rightarrow> ('w, 'a) op \<Rightarrow> bool" where
  "keeps R m = (\<forall>w. R w (snd (m w)))"

lemma keepsD: "keeps R m \<Longrightarrow> m w = (r, w') \<Longrightarrow> R w w'"
  by (metis keeps_def snd_conv)

locale op_frame =
  fixes R :: "'w \<Rightarrow> 'w \<Rightarrow> bool"
  assumes refl_R: "R w w"
    and trans_R: "R a b \<Longrightarrow> R b c \<Longrightarrow> R a c"
begin

lemma r_ret [intro!]: "keeps R (ret x)"
  by (simp add: keeps_def ret_def refl_R)

lemma r_fail [intro!]: "keeps R (fail e)"
  by (simp add: keeps_def fail_def refl_R)

lemma r_gets [intro!]: "keeps R (gets f)"
  by (simp add: keeps_def gets_def refl_R)

lemma r_of_sum [intro!]: "keeps R (of_sum r)"
  by (auto simp: of_sum_def split: sum.split)

lemma r_of_outcome [intro!]: "keeps R (of_outcome r)"
  by (auto simp: keeps_def of_outcome_def refl_R split: outcome.split)

lemma r_checkO [intro!]: "keeps R (checkO e)"
  by (auto simp: checkO_def split: option.split)

lemma r_bindo [intro!]:
  assumes "keeps R m" and "\<And>x. keeps R (f x)"
  shows "keeps R (bindo m f)"
  unfolding keeps_def
proof
  fix w
  obtain r w1 where m: "m w = (r, w1)" by (cases "m w")
  then have "R w w1" using assms(1) by (metis keeps_def snd_conv)
  then show "R w (snd (bindo m f w))"
    using m assms(2) trans_R by (cases r) (auto simp: bindo_def keeps_def)
qed

lemma r_bindo_value:
  \<comment> \<open>when what follows needs to know what \<open>m\<close> returned\<close>
  assumes "keeps R m" and "\<And>w x w1. m w = (Ok x, w1) \<Longrightarrow> keeps R (f x)"
  shows "keeps R (bindo m f)"
  unfolding keeps_def
proof
  fix w
  obtain r w1 where m: "m w = (r, w1)" by (cases "m w")
  then have "R w w1" using assms(1) by (metis keeps_def snd_conv)
  then show "R w (snd (bindo m f w))"
    using m assms(2) [of w _ w1] trans_R by (cases r) (auto simp: bindo_def keeps_def)
qed

lemma r_seqo [intro!]: "keeps R m \<Longrightarrow> keeps R n \<Longrightarrow> keeps R (seqo m n)"
  by (auto simp: seqo_def)

lemma r_attempt [intro!]: "keeps R m \<Longrightarrow> keeps R (attempt m)"
  unfolding keeps_def attempt_def by (auto split: prod.split res.split) (metis snd_conv)+

lemma r_wrapped [intro!]: "keeps R m \<Longrightarrow> keeps R (wrapped s m)"
  unfolding keeps_def wrapped_def by (auto split: prod.split res.split) (metis snd_conv)+

lemma r_ignore [intro!]: "keeps R m \<Longrightarrow> keeps R (ignore m)"
  by (auto simp: ignore_def)

lemma r_cleanup [intro!]: "keeps R m \<Longrightarrow> keeps R c \<Longrightarrow> keeps R (cleanup m c)"
  by (auto simp: cleanup_def split: sum.split)

lemma r_whenO [intro!]: "(b \<Longrightarrow> keeps R m) \<Longrightarrow> keeps R (whenO b m)"
  by (auto simp: whenO_def)

lemma r_optO [intro!]: "(\<And>x. c = Some x \<Longrightarrow> keeps R (f x)) \<Longrightarrow> keeps R (optO c f)"
  by (auto simp: optO_def split: option.split)

lemma r_mapO [intro!]: "(\<And>x. keeps R (f x)) \<Longrightarrow> keeps R (mapO f xs)"
  by (induction xs) auto

lemma r_modify: "(\<And>w. R w (f w)) \<Longrightarrow> keeps R (modify f)"
  by (simp add: keeps_def modify_def)

lemma r_zoom: "(\<And>w p. R w (put p w)) \<Longrightarrow> keeps R (zoom get put m)"
  by (simp add: keeps_def zoom_def split: prod.split)

lemma r_if [intro!]: "(b \<Longrightarrow> keeps R m) \<Longrightarrow> (\<not> b \<Longrightarrow> keeps R n) \<Longrightarrow> keeps R (if b then m else n)"
  by simp

lemma r_case_option [intro!]:
  "(c = None \<Longrightarrow> keeps R m) \<Longrightarrow> (\<And>x. c = Some x \<Longrightarrow> keeps R (f x)) \<Longrightarrow>
   keeps R (case c of None \<Rightarrow> m | Some x \<Rightarrow> f x)"
  by (cases c) auto

lemma r_case_sum [intro!]:
  "(\<And>e. c = Inl e \<Longrightarrow> keeps R (g e)) \<Longrightarrow> (\<And>x. c = Inr x \<Longrightarrow> keeps R (f x)) \<Longrightarrow>
   keeps R (case c of Inl e \<Rightarrow> g e | Inr x \<Rightarrow> f x)"
  by (cases c) auto

lemma r_case_prod [intro!]: "(\<And>x y. keeps R (f x y)) \<Longrightarrow> keeps R (case c of (x, y) \<Rightarrow> f x y)"
  by (cases c) auto

end

section \<open>Frames of a manager's world\<close>

definition same_db :: "('s, 'x) World \<Rightarrow> ('s, 'x) World \<Rightarrow> bool" where
  "same_db w w' \<longleftrightarrow> w_db w' = w_db w"

definition same_store :: "('s, 'x) World \<Rightarrow> ('s, 'x) World \<Rightarrow> bool" where
  "same_store w w' \<longleftrightarrow> w_store w' = w_store w"

definition only_calls :: "(Call \<Rightarrow> bool) \<Rightarrow> ('s, 'x) World \<Rightarrow> ('s, 'x) World \<Rightarrow> bool" where
  "only_calls P w w' \<longleftrightarrow> (\<exists>cs. w_calls w' = w_calls w @ cs \<and> (\<forall>c\<in>set cs. P c))"

interpretation fr_db: op_frame same_db
  by unfold_locales (simp_all add: same_db_def)

interpretation fr_store: op_frame same_store
  by unfold_locales (simp_all add: same_store_def)

interpretation fr_calls: op_frame "only_calls P" for P
proof
  show "only_calls P w w" for w :: "('a, 'b) World" by (simp add: only_calls_def)
  show "only_calls P a c" if "only_calls P a b" "only_calls P b c" for a b c :: "('a, 'b) World"
    using that unfolding only_calls_def by (metis Un_iff append.assoc set_append)
qed

section \<open>The building blocks\<close>

named_theorems frames \<open>what the building blocks of the manager respect\<close>

lemma ask_frames [frames]:
  "keeps same_db (ask f)" "keeps same_store (ask f)" "keeps (only_calls P) (ask f)"
  by (auto simp: ask_def on_ext_def same_db_def same_store_def only_calls_def
    intro!: fr_db.r_zoom fr_store.r_zoom fr_calls.r_zoom)

lemma on_ext_frames [frames]:
  "keeps same_db (on_ext f)" "keeps same_store (on_ext f)" "keeps (only_calls P) (on_ext f)"
  by (auto simp: on_ext_def same_db_def same_store_def only_calls_def
    intro!: fr_db.r_zoom fr_store.r_zoom fr_calls.r_zoom)

lemma command_frames [frames]:
  "keeps same_db (command c f)" "keeps same_store (command c f)"
  "P c \<Longrightarrow> keeps (only_calls P) (command c f)"
  unfolding command_def
  by (auto simp: same_db_def same_store_def only_calls_def
    intro!: ask_frames fr_db.r_seqo fr_store.r_seqo fr_calls.r_seqo fr_db.r_modify fr_store.r_modify fr_calls.r_modify)

lemma on_store_frames [frames]:
  "keeps same_db (on_store f)" "keeps (only_calls P) (on_store f)"
  by (auto simp: on_store_def same_db_def only_calls_def intro!: fr_db.r_zoom fr_calls.r_zoom)

lemma on_db_frames [frames]:
  "keeps same_store (on_db f)" "keeps (only_calls P) (on_db f)"
  by (auto simp: on_db_def same_store_def only_calls_def intro!: fr_store.r_zoom fr_calls.r_zoom)

lemma record_frames [frames]:
  "keeps same_db (RecordAudit m actor a d)" "keeps same_store (RecordAudit m actor a d)"
  "keeps (only_calls P) (RecordAudit m actor a d)"
  "keeps same_db (RecordEvent m a actor)" "keeps same_store (RecordEvent m a actor)"
  "keeps (only_calls P) (RecordEvent m a actor)"
  unfolding RecordAudit_def RecordEvent_def
  by (auto simp: same_db_def same_store_def only_calls_def
    intro!: fr_db.r_whenO fr_store.r_whenO fr_calls.r_whenO fr_db.r_modify fr_store.r_modify fr_calls.r_modify)

interpretation fr_same: op_frame "(=)"
  by unfold_locales simp_all

lemma zoom_same:
  assumes "keeps (=) m" and "\<And>w. put (get w) w = w"
  shows "keeps (=) (zoom get put m)"
  using assms unfolding keeps_def zoom_def by (auto split: prod.split) (metis snd_conv)

lemma same_keeps:
  assumes "keeps (=) m"
  shows "keeps same_db m" "keeps same_store m" "keeps (only_calls P) m"
  using assms unfolding keeps_def by (simp_all add: same_db_def same_store_def only_calls_def)

lemma repo_reads_same: "keeps (=) (repo_Get m n)" "keeps (=) (repo_List m)"
proof -
  have "keeps (=) (Repo_Get r db n)" for r db by (auto simp: Repo_Get_def)
  then show "keeps (=) (repo_Get m n)" by (auto simp: repo_Get_def on_db_def intro: zoom_same)
  have "keeps (=) (Repo_List r db)" for r db by (auto simp: Repo_List_def)
  then show "keeps (=) (repo_List m)" by (auto simp: repo_List_def on_db_def intro: zoom_same)
qed

lemma readers_same:
  "keeps (=) (readsFromCluster m n)" "keeps (=) (instanceDir m n)" "keeps (=) (store_get so p)"
  "keeps (=) (serverRef m inst)"
  by (auto simp: readsFromCluster_def instanceDir_def store_get_def serverRef_def Let_def intro!: repo_reads_same)

lemma checks_same: "keeps (=) (checkLBIPFree m inst)" "keeps (=) (checkInstanceDirFree m inst)"
  by (auto simp: checkLBIPFree_def checkInstanceDirFree_def intro!: repo_reads_same readers_same)

lemmas reader_frames [frames] =
  repo_reads_same [THEN same_keeps(1)] readers_same [THEN same_keeps(1)] readers_same [THEN same_keeps(2)]
  readers_same [THEN same_keeps(3)] checks_same [THEN same_keeps(1)] checks_same [THEN same_keeps(2)]
  checks_same [THEN same_keeps(3)]

lemma repo_frames [frames]:
  "keeps same_store (repo_Get m n)" "keeps (only_calls P) (repo_Get m n)"
  "keeps same_store (repo_List m)" "keeps (only_calls P) (repo_List m)"
  "keeps same_store (repo_Upsert m inst)" "keeps (only_calls P) (repo_Upsert m inst)"
  "keeps same_store (repo_UpdateState m n st)" "keeps (only_calls P) (repo_UpdateState m n st)"
  "keeps same_store (repo_Delete m n)" "keeps (only_calls P) (repo_Delete m n)"
  by (auto simp: repo_Get_def repo_List_def repo_Upsert_def repo_UpdateState_def repo_Delete_def intro!: frames)

lemma observe_frames [frames]:
  "keeps same_store (reconcileInstalledBuild m inst)" "keeps (only_calls P) (reconcileInstalledBuild m inst)"
  "keeps same_store (refreshSource m inst)" "keeps (only_calls P) (refreshSource m inst)"
  "keeps same_store (recordStatus m inst st)" "keeps (only_calls P) (recordStatus m inst st)"
  by (auto simp: reconcileInstalledBuild_def refreshSource_def recordStatus_def Let_def intro!: frames)

lemma listing_frames [frames]:
  "keeps same_store (ListInstances m)" "keeps (only_calls P) (ListInstances m)"
  "keeps same_store (GetInstance m n)" "keeps (only_calls P) (GetInstance m n)"
  by (auto simp: ListInstances_def GetInstance_def listed_def intro!: frames)

lemma with_instance_frames [frames]:
  "(\<And>inst. keeps same_store (k inst)) \<Longrightarrow> keeps same_store (with_instance m n k)"
  "(\<And>inst. keeps (only_calls P) (k inst)) \<Longrightarrow> keeps (only_calls P) (with_instance m n k)"
  by (auto simp: with_instance_def intro!: frames)

lemma mod_list_frames [frames]:
  "keeps same_db (GetInstalledMods m n)" "keeps same_store (GetInstalledMods m n)" "keeps (only_calls P) (GetInstalledMods m n)"
  "keeps same_db (GetCurseForgeMods m n)" "keeps same_store (GetCurseForgeMods m n)" "keeps (only_calls P) (GetCurseForgeMods m n)"
  by (auto simp: GetInstalledMods_def GetCurseForgeMods_def intro!: frames)

lemma GetModList_frames [frames]:
  "keeps same_db (GetModList m n)" "keeps same_store (GetModList m n)" "keeps (only_calls P) (GetModList m n)"
  by (auto simp: GetModList_def Let_def intro!: frames)

lemma role_frames [frames]:
  "keeps same_db (retireSessionRole m g n)" "keeps same_store (retireSessionRole m g n)"
  "keeps same_db (releaseRole m inst)" "keeps same_store (releaseRole m inst)"
  "keeps same_db (retireRole m n inst actor)" "keeps same_store (retireRole m n inst actor)"
  by (auto simp: retireSessionRole_def releaseRole_def retireRole_def Let_def intro!: frames)

lemma converge_on_frames [frames]:
  "keeps same_db (converge_on m inst files c rc)" "keeps same_store (converge_on m inst files c rc)"
  by (auto simp: converge_on_def intro!: frames)

lemma writeRendered_frames [frames]:
  "keeps same_db (writeRendered m inst mods msg c pres)"
  "keeps same_db (writeManifestsConverging m inst mods msg c)"
  "keeps same_db (writeManifests m inst mods msg)"
  "keeps same_db (writeSettingsManifests m inst msg)"
  by (auto simp: writeManifests_def writeManifestsConverging_def writeSettingsManifests_def writeRendered_def Let_def
    intro!: frames)

end
