(* ===== verification/LifecycleProofs.thy ===== *)
theory LifecycleProofs
  imports Frames
begin

text \<open>
  The life of a world is managed safely: slots are never shared or lost, a world is deleted only
  when it is down and torn down, a settings save neither converges nor touches the Mod list, and
  what the start budget does and does not bound. Each proof runs an operation step by step with
  the elimination rules below and the frames of \<open>Frames\<close>.
\<close>

section \<open>Running an operation step by step\<close>

lemma bindo_cases:
  assumes "bindo m f w = (r, w')"
  obtains (ok) x w1 where "m w = (Ok x, w1)" "f x w1 = (r, w')"
    | (err) e where "m w = (Err e, w')" "r = Err e"
    | (crash) s where "m w = (Crash s, w')" "r = Crash s"
  using assms by (auto simp: bindo_def split: prod.splits res.splits)

lemma seqo_cases:
  assumes "seqo m n w = (r, w')"
  obtains (ok) w1 where "m w = (Ok (), w1)" "n w1 = (r, w')"
    | (err) e where "m w = (Err e, w')" "r = Err e"
    | (crash) s where "m w = (Crash s, w')" "r = Crash s"
  using assms unfolding seqo_def by (elim bindo_cases) auto

lemma wrapped_cases:
  assumes "wrapped pre m w = (r, w')"
  obtains (ok) x where "m w = (Ok x, w')" "r = Ok x"
    | (err) e where "m w = (Err e, w')" "r = Err (Wrap pre e '''')"
    | (crash) s where "m w = (Crash s, w')" "r = Crash s"
  using assms by (auto simp: wrapped_def split: prod.splits res.splits)

lemma cleanup_cases:
  assumes "cleanup m c w = (r, w')"
  obtains (ok) x where "m w = (Ok x, w')" "r = Ok x"
    | (err) e w1 where "m w = (Err e, w1)" "c w1 = (Ok (), w')" "r = Err e"
    | (err2) e e' w1 where "m w = (Err e, w1)" "c w1 = (Err e', w')" "r = Err e'"
    | (crash2) e s w1 where "m w = (Err e, w1)" "c w1 = (Crash s, w')" "r = Crash s"
    | (crash) s where "m w = (Crash s, w')" "r = Crash s"
  using assms
  by (auto simp: cleanup_def bindo_def attempt_def seqo_def ret_def fail_def split: prod.splits res.splits)

lemma not_ok_simps [simp]: "Err e \<noteq> Ok x" "Crash s \<noteq> Ok x" "Ok x \<noteq> Err e" "Ok x \<noteq> Crash s"
  by simp_all

lemma seqo_skip:
  \<comment> \<open>a step that keeps \<open>R\<close>, before the rest\<close>
  assumes "seqo m n w = (r, w')" and "keeps R m"
  obtains (rest) w1 where "R w w1" "n w1 = (r, w')" | (stop) "R w w'" "\<And>x. r \<noteq> Ok x"
  using assms(1)
proof (cases rule: seqo_cases)
  case (ok w1)
  then show ?thesis using that(1) keepsD [OF assms(2)] by blast
qed (use that(2) keepsD [OF assms(2)] in auto)

lemma bindo_skip:
  assumes "bindo m f w = (r, w')" and "keeps R m"
  obtains (rest) x w1 where "R w w1" "m w = (Ok x, w1)" "f x w1 = (r, w')" | (stop) "R w w'" "\<And>x. r \<noteq> Ok x"
  using assms(1)
proof (cases rule: bindo_cases)
  case (ok x w1)
  then show ?thesis using that(1) keepsD [OF assms(2)] by blast
qed (use that(2) keepsD [OF assms(2)] in auto)

section \<open>The database of a manager\<close>

definition manages :: "('s, 'x) Manager \<Rightarrow> GameProfile \<Rightarrow> bool" where
  \<comment> \<open>as \<open>NewInstanceManager\<close> is called: the repository is the one of the manager's game\<close>
  "manages m p \<longleftrightarrow> catalogued p \<and> m_repo m = Some p \<and> m_profile m = p \<and> m_gameID m = gp_ID p"

abbreviation slot :: "GameProfile \<Rightarrow> ('s, 'x) World \<Rightarrow> int \<Rightarrow> Instance option" where
  "slot p w \<equiv> instance_at p (w_db w)"

lemma repo_Upsert_run:
  assumes m: "manages m p" and ok: "db_ok (w_db w)" and g: "inst_GameID inst = gp_ID p"
    and run: "repo_Upsert m inst w = (r, w')"
  obtains (saved) j where "r = Ok ()" "saved_as p (w_db w) (Number inst) (Some j) (w_db w')"
      "WorldID j = (case slot p w (Number inst) of
        None \<Rightarrow> WorldID inst | Some old \<Rightarrow> if WorldID old = '''' then WorldID inst else WorldID old)"
      "storable p (reached inst) \<Longrightarrow> j = joined (w_now w) (slot p w (Number inst)) (reached inst)"
    | (failed) e where "r = Err e" "w_db w' = w_db w"
proof -
  have repo: "m_repo m = Some p" and c: "catalogued p" using m by (simp_all add: manages_def)
  have step: "repo_Upsert m inst w =
      (case Repo_Upsert (Some p) (m_db m) (w_now w) inst (w_db w) of (r, d) \<Rightarrow> (r, w\<lparr>w_db := d\<rparr>))"
    by (simp add: repo_Upsert_def on_db_def zoom_def bindo_def gets_def repo)
  show thesis
  proof (cases "m_db m ''upsert instance''")
    case None
    then show thesis
      using Repo_Upsert_any [OF c ok g, of "m_db m" "w_now w"] step run saved by auto
  next
    case (Some e)
    then show thesis
      using Repo_Upsert_error [where db = "m_db m" and now = "w_now w" and d = "w_db w", OF g c] step run failed
      by auto
  qed
qed

lemma repo_Delete_run:
  assumes m: "manages m p" and ok: "db_ok (w_db w)" and run: "repo_Delete m n w = (r, w')"
  obtains (gone) "r = Ok ()" "saved_as p (w_db w) n None (w_db w')"
    | (failed) e where "r = Err e" "w_db w' = w_db w"
proof -
  have repo: "m_repo m = Some p" and c: "catalogued p" using m by (simp_all add: manages_def)
  have step: "repo_Delete m n w =
      (case Repo_Delete (Some p) (m_db m) n (w_db w) of (r, d) \<Rightarrow> (r, w\<lparr>w_db := d\<rparr>))"
    by (simp add: repo_Delete_def on_db_def zoom_def repo)
  show thesis
  proof (cases "m_db m ''delete instance''")
    case None
    then show thesis using Repo_Delete_spec [OF c ok, of "m_db m" n] step run gone by auto
  next
    case (Some e)
    then show thesis using Repo_Delete_error [where db = "m_db m", OF c] step run failed by auto
  qed
qed

lemma repo_List_run:
  assumes m: "manages m p" and ok: "db_ok (w_db w)" and run: "repo_List m w = (Ok is, w')"
  shows "w' = w" "sorted (map Number is)" "distinct (map Number is)"
    "i \<in> set is \<longleftrightarrow> slot p w (Number i) = Some i"
proof -
  have repo: "m_repo m = Some p" and c: "catalogued p" using m by (simp_all add: manages_def)
  have step: "repo_List m w = (case Repo_List (Some p) (m_db m) (w_db w) of (r, d) \<Rightarrow> (r, w\<lparr>w_db := d\<rparr>))"
    by (simp add: repo_List_def on_db_def zoom_def repo)
  obtain t where t: "tableFor (gp_ID p) = Inr t" using catalogued_table [OF c] by blast
  have "m_db m ''list instances'' = None"
  proof (rule ccontr)
    assume "m_db m ''list instances'' \<noteq> None"
    then show False using run step t by (auto simp: Repo_List_def listInstanceRows_def op_defs)
  qed
  then obtain js where "Repo_List (Some p) (m_db m) (w_db w) = (Ok js, w_db w)" "sorted (map Number js)"
    "distinct (map Number js)" "\<And>i. i \<in> set js \<longleftrightarrow> slot p w (Number i) = Some i"
    using Repo_List_spec [OF c ok] by blast
  then show "w' = w" "sorted (map Number is)" "distinct (map Number is)"
    "i \<in> set is \<longleftrightarrow> slot p w (Number i) = Some i"
    using run step by auto
qed

section \<open>Creating a world\<close>

lemma choose_number_free:
  "choose_number k used n = Inr x \<Longrightarrow> x \<notin> set used \<and> 1 \<le> x \<and> x \<le> k"
  by (auto simp: choose_number_def free_number_def find_Some_iff split: if_splits option.splits)

lemma createWorld_db:
  fixes m :: "('s, 'x) Manager"
  assumes m: "manages m p" and ok: "db_ok (w_db w)" and g: "inst_GameID inst = gp_ID p"
    and run: "createWorld m inst mods actor w = (r, w')"
  shows "(w_db w' = w_db w \<and> (\<forall>i. r \<noteq> Ok i)) \<or>
    (r = Ok inst \<and> (\<exists>j. saved_as p (w_db w) (Number inst) (Some j) (w_db w') \<and>
       (slot p w (Number inst) = None \<longrightarrow> WorldID j = WorldID inst)))"
  (is "?none w' r \<or> ?made w' r")
proof -
  let ?role = "optO (m_roleRegistrar m) (\<lambda>f.
      wrapped (''reserve access role for instance '' @ pad02 (Number inst) @ '': '') (command (CReserveRole inst) (f inst)))"
  let ?put = "cleanup (writeManifests m inst mods (gamePrefix m @ '': create instance '' @ pad02 (Number inst)
         @ '' ('' @ inst_Name inst @ '')'')) (releaseRole m inst)"
  let ?save = "wrapped ''save instance record: '' (cleanup (repo_Upsert m inst) (releaseRole m inst))"
  let ?note = "let action = gamePrefix m @ ''-instance-create''
      in seqo (RecordAudit m actor action (''World #'' @ pad02 (Number inst) @ '' '' @ go_quote (inst_Name inst)))
           (seqo (RecordEvent m action actor) (ret inst))"
  have role: "keeps same_db ?role" and wr: "keeps same_db ?put" and noted: "keeps same_db ?note"
    by (auto simp: Let_def intro!: frames)
  have save: "?none w2 r2 \<or> ?made w2 r2" if "w_db w1 = w_db w" "seqo ?save ?note w1 = (r2, w2)" for w1 w2 r2
    using that(2)
  proof (cases rule: seqo_cases)
    case (ok w3)
    then have saved: "repo_Upsert m inst w1 = (Ok (), w3)"
      by (elim wrapped_cases cleanup_cases) auto
    have "w_db w2 = w_db w3" using keepsD [OF noted ok(2)] by (simp add: same_db_def)
    moreover have "r2 = Ok inst"
      using ok(2) by (auto simp: Let_def RecordAudit_def RecordEvent_def op_defs split: if_splits)
    ultimately show ?thesis
      using repo_Upsert_run [OF m _ g saved] that(1) assms(2)
      by (metis (no_types, lifting) not_ok_simps(3) option.case(1))
  next
    case (err e)
    have rel: "keeps same_db (releaseRole m inst)" by (auto intro!: frames)
    from err(1) obtain e' w3 where "repo_Upsert m inst w1 = (Err e', w3)" "w_db w2 = w_db w3"
      by (elim wrapped_cases cleanup_cases) (auto dest: keepsD [OF rel] simp: same_db_def)
    then show ?thesis
      using repo_Upsert_run [OF m _ g] that(1) assms(2) err(2) by (metis not_ok_simps(1,3))
  next
    case (crash s)
    have rel: "keeps same_db (releaseRole m inst)" by (auto intro!: frames)
    have up: "repo_Upsert m inst w1 \<noteq> (Crash s', w3)" for s' w3
      using repo_Upsert_run [OF m _ g, of w1 "Crash s'" w3] that(1) assms(2) by auto
    from crash(1) obtain e' w3 where "repo_Upsert m inst w1 = (Err e', w3)" "w_db w2 = w_db w3"
      using up by (elim wrapped_cases cleanup_cases) (auto dest: keepsD [OF rel] simp: same_db_def)
    then show ?thesis
      using repo_Upsert_run [OF m _ g] that(1) assms(2) crash(2) by (metis not_ok_simps(2,3))
  qed
  define good where "good n \<longleftrightarrow> (\<forall>w1 r2 w2. w_db w1 = w_db w \<longrightarrow> n w1 = (r2, w2) \<longrightarrow> ?none w2 r2 \<or> ?made w2 r2)"
    for n :: "('s, 'x, Instance) mop"
  have chain: "good (seqo a n)" if "keeps same_db a" "good n" for a n
    unfolding good_def
  proof (intro allI impI)
    fix w1 r2 w2 assume w1: "w_db w1 = w_db w" and seq: "seqo a n w1 = (r2, w2)"
    from seq that(1) show "?none w2 r2 \<or> ?made w2 r2"
    proof (cases rule: seqo_skip)
      case (rest w3)
      then show ?thesis using that(2) w1 by (simp add: good_def same_db_def)
    qed (use w1 in \<open>simp add: same_db_def\<close>)
  qed
  have fin: "good (seqo ?save ?note)" using save by (simp add: good_def)
  have "good (createWorld m inst mods actor)"
    unfolding createWorld_def
    by (rule chain [OF _ chain [OF _ chain [OF _ chain [OF role chain [OF wr fin]]]]]) (intro frames)+
  then show ?thesis using run by (simp add: good_def)
qed


lemma EnsureDefaults_frame:
  assumes "EnsureDefaults p lb i = Val j"
  shows "Number j = Number i" "WorldID j = WorldID i" "inst_GameID j = gp_ID p"
proof -
  obtain k where k: "game_defaults p (i\<lparr>inst_GameID := gp_ID p\<rparr>) = Val k" "j = common_defaults p lb k"
    using assms unfolding EnsureDefaults_Val by blast
  then have "Number k = Number i \<and> WorldID k = WorldID i \<and> inst_GameID k = gp_ID p"
    by (auto simp: game_defaults_def Let_def split: if_splits option.splits)
  then show "Number j = Number i" "WorldID j = WorldID i" "inst_GameID j = gp_ID p"
    using k(2) by (simp_all add: common_defaults_fields)
qed

lemma profileFor_managed:
  "manages m p \<Longrightarrow> inst_GameID inst = '''' \<or> inst_GameID inst = gp_ID p \<Longrightarrow> profileFor m inst = p"
  by (auto simp: manages_def profileFor_def ProfileFor_iff split: option.split)

lemma of_sum_run: "of_sum x w = (Ok y, w') \<longleftrightarrow> x = Inr y \<and> w' = w"
  by (auto simp: of_sum_def ret_def fail_def split: sum.splits)

lemma of_outcome_run: "of_outcome x w = (Ok y, w') \<longleftrightarrow> x = Val y \<and> w' = w"
  by (auto simp: of_outcome_def split: outcome.splits)

definition numbered :: "('s, 'x) Manager \<Rightarrow> Instance \<Rightarrow> ModList \<Rightarrow> string list \<Rightarrow> int \<Rightarrow> ('s, 'x, Instance) mop" where
  \<comment> \<open>the rest of \<open>CreateInstance\<close> once the slot is chosen\<close>
  "numbered m inst mods actor n =
     (let profile = profileFor m inst;
          inst = inst\<lparr>Number := n\<rparr>;
          inst = (if inst_GameID inst = '''' then inst\<lparr>inst_GameID := gp_ID profile\<rparr> else inst)
      in bindo (newWorldID m inst) (\<lambda>inst.
         bindo (of_outcome (EnsureDefaults profile (m_lbBaseIP m) (default_name inst))) (\<lambda>inst.
         createWorld m inst mods actor)))"

lemma numbered_db:
  fixes m :: "('s, 'x) Manager"
  assumes m: "manages m p" and ok: "db_ok (w_db w)"
    and g: "inst_GameID inst = '''' \<or> inst_GameID inst = gp_ID p"
    and run: "numbered m inst mods actor n w = (r, w')"
  shows "(w_db w' = w_db w \<and> (\<forall>i. r \<noteq> Ok i)) \<or>
    (\<exists>i j. r = Ok i \<and> Number i = n \<and> saved_as p (w_db w) n (Some j) (w_db w') \<and>
       (slot p w n = None \<longrightarrow> WorldID j = WorldID i))"
proof -
  let ?i = "(let i = inst\<lparr>Number := n\<rparr> in if inst_GameID i = '''' then i\<lparr>inst_GameID := gp_ID p\<rparr> else i)"
  have new: "keeps same_db (newWorldID m ?i)" by (auto simp: newWorldID_def intro!: frames)
  have p: "profileFor m inst = p" by (rule profileFor_managed [OF m g])
  let ?rest = "\<lambda>i. bindo (of_outcome (EnsureDefaults p (m_lbBaseIP m) (default_name i))) (\<lambda>i. createWorld m i mods actor)"
  have "bindo (newWorldID m ?i) ?rest w = (r, w')"
    using run by (simp add: numbered_def Let_def p)
  from this new show ?thesis
  proof (cases rule: bindo_skip)
    case (rest i w1)
    have i: "Number i = n"
      using rest(2) by (auto simp: newWorldID_def Let_def on_ext_def op_defs split: if_splits prod.splits)
    from rest(3) show ?thesis
    proof (cases rule: bindo_cases)
      case (ok i2 w2)
      then have i2: "EnsureDefaults p (m_lbBaseIP m) (default_name i) = Val i2" "w2 = w1"
        by (simp_all add: of_outcome_run)
      have "Number i2 = n" "inst_GameID i2 = gp_ID p"
        using EnsureDefaults_frame [OF i2(1)] i by (simp_all add: default_name_def)
      then show ?thesis
        using createWorld_db [OF m _ _ ok(2)] ok rest(1) assms(2) i2(2) unfolding same_db_def by metis
    qed (use rest(1) in \<open>auto simp: same_db_def of_outcome_def split: outcome.splits\<close>)
  qed (auto simp: same_db_def)
qed

text \<open>C6: Creating a world never takes a slot that is in use and never touches another world: a
  successful create fills exactly one slot, free before and within 1 and the limit, with the world
  it returns; a failed one leaves the database of worlds as it was, whatever the store, the role
  registry, the reconciler or the database answered.\<close>

theorem CreateInstance_slots:
  assumes "manages m p" and "db_ok (w_db w)" and "inst_GameID inst = '''' \<or> inst_GameID inst = gp_ID p"
    and "CreateInstance m inst mods actor w = (r, w')"
  shows "(w_db w' = w_db w \<and> (\<forall>i. r \<noteq> Ok i)) \<or>
    (\<exists>i j. r = Ok i \<and> slot p w (Number i) = None \<and> 1 \<le> Number i \<and> Number i \<le> m_maxInstances m \<and>
       WorldID j = WorldID i \<and> saved_as p (w_db w) (Number i) (Some j) (w_db w'))"
proof -
  let ?inst = "if inst_Host inst = '''' \<and> m_defaultHost m \<noteq> '''' then inst\<lparr>inst_Host := m_defaultHost m\<rparr> else inst"
  let ?g = "\<lambda>existing budget. seqo (checkO (CanCreate budget))
    (bindo (of_sum (choose_number (m_maxInstances m) (map Number existing) (Number ?inst)))
      (numbered m ?inst mods actor))"
  have g: "inst_GameID ?inst = '''' \<or> inst_GameID ?inst = gp_ID p" using assms(3) by simp
  have run: "bindo (repo_List m) (\<lambda>existing. bindo (of_outcome (CalculateBudget (profileFor m ?inst) existing
      (m_totalBudgetGiB m) (m_maxRunning m) (m_maxInstances m))) (?g existing)) w = (r, w')"
    using assms(4) unfolding CreateInstance_def numbered_def Let_def .
  then show ?thesis
  proof (cases rule: bindo_cases)
    case (ok existing w1)
    note list = repo_List_run [OF assms(1,2) ok(1)]
    from ok(2) show ?thesis
    proof (cases rule: bindo_cases)
      case ok2: (ok budget w2)
      have w2: "w2 = w" using ok2(1) list(1) by (simp add: of_outcome_run)
      from ok2(2) show ?thesis
      proof (cases rule: seqo_cases)
        case ok3: (ok w3)
        have w3: "w3 = w" using ok3(1) w2 by (auto simp: checkO_def ret_def fail_def split: option.splits)
        from ok3(2) show ?thesis
        proof (cases rule: bindo_cases)
          case ok4: (ok n w4)
          then have n: "choose_number (m_maxInstances m) (map Number existing) (Number ?inst) = Inr n" "w4 = w"
            using w3 by (simp_all add: of_sum_run)
          have free: "n \<notin> set (map Number existing)" "1 \<le> n" "n \<le> m_maxInstances m"
            using choose_number_free [OF n(1)] by auto
          have "slot p w n = None"
          proof (rule ccontr)
            assume "slot p w n \<noteq> None"
            then obtain i where i: "slot p w n = Some i" by blast
            have "Number i = n"
              using assms(1) instance_at_storable(2) [OF _ assms(2) i] by (simp add: manages_def)
            then have "i \<in> set existing" using list(4) i by blast
            then show False using free(1) \<open>Number i = n\<close> by auto
          qed
          then show ?thesis
            using numbered_db [OF assms(1) _ g ok4(2)] assms(2) n(2) free(2,3) by metis
        qed (use w3 in \<open>auto simp: of_sum_def ret_def fail_def split: sum.splits\<close>)
      qed (use w2 in \<open>auto simp: checkO_def ret_def fail_def split: option.splits\<close>)
    qed (use list(1) in \<open>auto simp: of_outcome_def split: outcome.splits\<close>)
  qed (use keepsD [OF repo_reads_same(2) [of m]] in auto)
qed


section \<open>Looking at a world\<close>

definition sane_sources :: "('s, 'x) Manager \<Rightarrow> bool" where
  \<comment> \<open>the source reconciler corrects the source of a world, not which world it is\<close>
  "sane_sources m \<longleftrightarrow> (\<forall>f inst x r inst' x'. m_sourceReconciler m = Some f \<longrightarrow> f inst x = ((r, inst'), x') \<longrightarrow>
     Number inst' = Number inst \<and> inst_GameID inst' = inst_GameID inst)"

definition touch :: "GameProfile \<Rightarrow> int \<Rightarrow> ('s, 'x) World \<Rightarrow> ('s, 'x) World \<Rightarrow> bool" where
  \<comment> \<open>only the record of slot \<open>n\<close> may change, and it does not go away\<close>
  "touch p n w w' \<longleftrightarrow> (db_ok (w_db w) \<longrightarrow> db_ok (w_db w') \<and>
     (\<forall>k. k \<noteq> n \<longrightarrow> slot p w' k = slot p w k) \<and> (slot p w n \<noteq> None \<longrightarrow> slot p w' n \<noteq> None))"

interpretation fr_touch: op_frame "touch p n" for p n
proof
  show "touch p n w w" for w :: "('a, 'b) World" by (simp add: touch_def)
  show "touch p n a c" if "touch p n a b" "touch p n b c" for a b c :: "('a, 'b) World"
    using that by (simp add: touch_def)
qed

lemma touch_same: "keeps (=) m \<Longrightarrow> keeps (touch p n) m" "keeps same_db m \<Longrightarrow> keeps (touch p n) m"
  by (simp_all add: keeps_def touch_def same_db_def)

lemma touch_blocks [frames]:
  "keeps (touch p n) (ask f)" "keeps (touch p n) (on_ext g)" "keeps (touch p n) (command c f)"
  "keeps (touch p n) (serverRef m inst)" "keeps (touch p n) (RecordAudit m actor a b)"
  "keeps (touch p n) (RecordEvent m a actor)" "keeps (touch p n) (GetModList m k)"
  "keeps (touch p n) (writeManifests m inst mods msg)" "keeps (touch p n) (writeSettingsManifests m inst msg)"
  "keeps (touch p n) (on_store h)"
  by (rule touch_same(2); rule frames)+

lemma touch_Upsert:
  assumes "manages m p" and "Number inst = n" and "inst_GameID inst = gp_ID p"
  shows "keeps (touch p n) (repo_Upsert m inst)"
  unfolding keeps_def
proof
  fix w
  obtain r w' where run: "repo_Upsert m inst w = (r, w')" by (cases "repo_Upsert m inst w")
  show "touch p n w (snd (repo_Upsert m inst w))"
  proof (cases "db_ok (w_db w)")
    case True
    from repo_Upsert_run [OF assms(1) True assms(3) run] show ?thesis
      using run assms(2) by cases (auto simp: touch_def saved_as_def)
  qed (simp add: touch_def)
qed

lemma touch_UpdateState:
  assumes "manages m p" and "st \<noteq> ''''"
  shows "keeps (touch p n) (repo_UpdateState m n st)"
  unfolding keeps_def
proof
  fix w
  have repo: "m_repo m = Some p" and c: "catalogued p" using assms(1) by (simp_all add: manages_def)
  have step: "repo_UpdateState m n st w =
      (case Repo_UpdateState (Some p) (m_db m) (w_now w) n st (w_db w) of (r, d) \<Rightarrow> (r, w\<lparr>w_db := d\<rparr>))"
    by (simp add: repo_UpdateState_def on_db_def zoom_def bindo_def gets_def repo)
  show "touch p n w (snd (repo_UpdateState m n st w))"
  proof (cases "db_ok (w_db w)")
    case True
    show ?thesis
    proof (cases "m_db m ''update instance state''")
      case None
      then show ?thesis
        using Repo_UpdateState_spec [where db = "m_db m" and now = "w_now w" and n = n, OF c True None assms(2)] step
        by (auto simp: touch_def saved_as_def)
    next
      case (Some e)
      then show ?thesis using Repo_UpdateState_error [where db = "m_db m", OF c] step by (auto simp: touch_def)
    qed
  qed (simp add: touch_def)
qed

definition ours :: "GameProfile \<Rightarrow> int \<Rightarrow> Instance \<Rightarrow> bool" where
  "ours p n inst \<longleftrightarrow> Number inst = n \<and> inst_GameID inst = gp_ID p"

lemma ours_update [simp]:
  "ours p n (inst\<lparr>State := st\<rparr>) = ours p n inst" "ours p n (inst\<lparr>LBIP := a\<rparr>) = ours p n inst"
  "ours p n (inst\<lparr>HostUnreachable := b\<rparr>) = ours p n inst" "ours p n (inst\<lparr>HostUnknown := b\<rparr>) = ours p n inst"
  "ours p n (inst\<lparr>Minecraft := c\<rparr>) = ours p n inst" "ours p n (inst\<lparr>inst_Resources := rs\<rparr>) = ours p n inst"
  by (simp_all add: ours_def)

lemma stateFromStatus_not_empty: "stateFromStatus st \<noteq> ''''"
  by (simp add: stateFromStatus_def state_consts)

lemma refreshSource_touch:
  assumes "manages m p" and "sane_sources m" and "ours p n inst"
  shows "keeps (touch p n) (refreshSource m inst)" and "refreshSource m inst w = (Ok i, w') \<Longrightarrow> ours p n i"
proof -
  have step: "(\<lambda>x. case f inst x of (r, x') \<Rightarrow> (Ok r, x')) x = (Ok (c, i), x') \<Longrightarrow> m_sourceReconciler m = Some f \<Longrightarrow> ours p n i"
    for f x c i x'
    using assms(2,3) unfolding sane_sources_def ours_def by (auto split: prod.splits) metis+
  then have val_ok: "on_ext (\<lambda>x. case f inst x of (r, x') \<Rightarrow> (Ok r, x')) w = (Ok (c, i), w') \<Longrightarrow>
      m_sourceReconciler m = Some f \<Longrightarrow> ours p n i" for f w c i w'
    by (auto simp: on_ext_def zoom_def split: prod.splits)
  show "keeps (touch p n) (refreshSource m inst)"
    unfolding refreshSource_def
  proof (intro fr_touch.r_case_option fr_touch.r_if fr_touch.r_ret)
    fix f assume f: "m_sourceReconciler m = Some f"
    show "keeps (touch p n) (bindo (on_ext (\<lambda>x. case f inst x of (r, x') \<Rightarrow> (Ok r, x')))
        (\<lambda>(changed, i). seqo (whenO (changed = Inr True) (ignore (repo_Upsert m i))) (ret i)))"
    proof (rule fr_touch.r_bindo_value)
      show "keeps (touch p n) (on_ext (\<lambda>x. case f inst x of (r, x') \<Rightarrow> (Ok r, x')))"
        by (rule touch_same(2)) (rule frames)
      fix w x w1 assume "on_ext (\<lambda>x. case f inst x of (r, x') \<Rightarrow> (Ok r, x')) w = (Ok x, w1)"
      then obtain c i where "x = (c, i)" "ours p n i" using val_ok [OF _ f] by (cases x) blast
      then show "keeps (touch p n) ((\<lambda>(changed, i). seqo (whenO (changed = Inr True) (ignore (repo_Upsert m i))) (ret i)) x)"
        by (auto simp: ours_def intro!: touch_Upsert assms(1))
    qed
  qed
  show "refreshSource m inst w = (Ok i, w') \<Longrightarrow> ours p n i"
    using assms(3)
    by (auto simp: refreshSource_def ret_def split: option.splits if_splits elim!: bindo_cases seqo_cases
      dest!: val_ok)
qed


lemma recordStatus_touch:
  assumes "manages m p" and "ours p n inst"
  shows "keeps (touch p n) (recordStatus m inst st)"
    and "recordStatus m inst st w = (Ok i, w') \<Longrightarrow> ours p n i \<and> State i = stateFromStatus st"
proof -
  let ?i = "(if st_Address st \<noteq> '''' \<and> st_Address st \<noteq> LBIP (inst\<lparr>State := stateFromStatus st\<rparr>)
      then inst\<lparr>State := stateFromStatus st\<rparr>\<lparr>LBIP := st_Address st\<rparr> else inst\<lparr>State := stateFromStatus st\<rparr>)"
  have ours: "ours p n ?i" and n: "Number inst = n" using assms(2) by (simp_all add: ours_def)
  then have "keeps (touch p n) (repo_Upsert m ?i)" by (intro touch_Upsert assms(1)) (simp_all add: ours_def)
  moreover have "keeps (touch p n) (repo_UpdateState m (Number inst) (stateFromStatus st))"
    unfolding n by (rule touch_UpdateState [OF assms(1) stateFromStatus_not_empty])
  ultimately show "keeps (touch p n) (recordStatus m inst st)"
    unfolding recordStatus_def Let_def by (intro fr_touch.r_seqo fr_touch.r_whenO fr_touch.r_ignore fr_touch.r_ret)
  show "recordStatus m inst st w = (Ok i, w') \<Longrightarrow> ours p n i \<and> State i = stateFromStatus st"
    using ours unfolding recordStatus_def Let_def by (auto simp: ret_def elim!: seqo_cases split: if_splits)
qed

lemma reconcileInstalledBuild_touch:
  assumes "manages m p" and "ours p n inst"
  shows "keeps (touch p n) (reconcileInstalledBuild m inst)"
    and "reconcileInstalledBuild m inst w = (Ok i, w') \<Longrightarrow> ours p n i \<and> State i = State inst"
proof -
  have up: "keeps (touch p n) (repo_Upsert m (inst\<lparr>Minecraft := c\<rparr>))" for c
    using assms by (intro touch_Upsert) (simp_all add: ours_def)
  show "keeps (touch p n) (reconcileInstalledBuild m inst)"
    unfolding reconcileInstalledBuild_def Let_def
    by (auto intro!: up frames split: option.split)
  show "reconcileInstalledBuild m inst w = (Ok i, w') \<Longrightarrow> ours p n i \<and> State i = State inst"
    using assms(2) unfolding reconcileInstalledBuild_def Let_def
    by (auto simp: ret_def elim!: seqo_cases bindo_cases split: option.splits if_splits sum.splits prod.splits)
qed

lemma repo_Get_run:
  assumes "manages m p" and "db_ok (w_db w)" and "repo_Get m n w = (Ok x, w')"
  shows "w' = w" "x = slot p w n"
proof -
  have repo: "m_repo m = Some p" and c: "catalogued p" using assms(1) by (simp_all add: manages_def)
  then show "w' = w" "x = slot p w n"
    using assms(3) Repo_Get_spec [OF c assms(2), of "m_db m" n]
    by (auto simp: repo_Get_def on_db_def zoom_def split: option.splits)
qed

lemma GetInstance_run:
  assumes m: "manages m p" "sane_sources m" and ok: "db_ok (w_db w)" and run: "GetInstance m n w = (r, w')"
  shows "touch p n w w'" and "r = Ok (Some i) \<Longrightarrow> ours p n i \<and> slot p w n \<noteq> None"
    and "r = Ok None \<Longrightarrow> slot p w n = None"
proof -
  let ?status = "\<lambda>inst. case m_runtime m of None \<Rightarrow> ret inst
     | Some rt \<Rightarrow> bindo (serverRef m inst) (\<lambda>ref. bindo (attempt (ask (rt_Status rt ref))) (\<lambda>r. case r of
           Inl e \<Rightarrow> (if errors_is e ErrUnknownHost then fail (unknown_host_error inst e)
                     else ret (inst\<lparr>HostUnreachable := True\<rparr>))
         | Inr st \<Rightarrow> recordStatus m inst st))"
  let ?rest = "\<lambda>inst. bindo (?status inst) (\<lambda>inst. bindo (reconcileInstalledBuild m inst) (\<lambda>inst. ret (Some inst)))"
  have status: "keeps (touch p n) (?status i)" if "ours p n i" for i
    using that by (auto intro!: recordStatus_touch(1) m(1) frames)
  have status_val: "ours p n j" if "ours p n i" "?status i w1 = (Ok j, w2)" for i j w1 w2
    using that recordStatus_touch(2) [OF m(1) that(1)]
    by (auto simp: ret_def fail_def split: option.splits sum.splits if_splits elim!: bindo_cases)
  have rest: "keeps (touch p n) (?rest i)" if "ours p n i" for i
    by (intro fr_touch.r_bindo_value fr_touch.r_bindo fr_touch.r_ret status that)
      (use status_val [OF that] reconcileInstalledBuild_touch(1) [OF m(1)] in blast)
  have rest_val: "\<exists>k. j = Some k \<and> ours p n k" if "ours p n i" "?rest i w1 = (Ok j, w2)" for i j w1 w2
    using that(2) status_val [OF that(1)] reconcileInstalledBuild_touch(2) [OF m(1)]
    by (fastforce simp: ret_def elim!: bindo_cases)
  have found: "ours p n i" if "slot p w n = Some i" for i
    using instance_at_storable [OF _ ok that] m(1) by (simp add: ours_def manages_def storable_def)
  from run have "touch p n w w' \<and> (\<forall>i. r = Ok (Some i) \<longrightarrow> ours p n i \<and> slot p w n \<noteq> None) \<and>
      (r = Ok None \<longrightarrow> slot p w n = None)"
    unfolding GetInstance_def
  proof (cases rule: bindo_cases)
    case (ok x w1)
    from ok(1) have "repo_Get m n w = (Ok x, w1)" by (cases rule: wrapped_cases) auto
    then have x: "w1 = w" "x = slot p w n" using repo_Get_run [OF m(1) assms(3)] by blast+
    show ?thesis
    proof (cases x)
      case None
      then show ?thesis using ok(2) x by (auto simp: ret_def fr_touch.refl_R)
    next
      case (Some i)
      then have i: "ours p n i" using found x(2) by simp
      then have src: "keeps (touch p n) (refreshSource m i)" by (rule refreshSource_touch(1) [OF m])
      from ok(2) Some have "bindo (refreshSource m i) ?rest w = (r, w')" using x(1) by simp
      then show ?thesis
      proof (cases rule: bindo_cases)
        case ok2: (ok j w2)
        then have j: "ours p n j" using refreshSource_touch(2) [OF m i] by blast
        have "touch p n w w'"
          using keepsD [OF src ok2(1)] keepsD [OF rest [OF j] ok2(2)] by (rule fr_touch.trans_R)
        then show ?thesis using rest_val [OF j] ok2(2) x(2) Some by fastforce
      qed (use keepsD [OF src] x(2) Some in auto)
    qed
  next
    case (err e)
    then have "w_db w' = w_db w"
      using keepsD [OF repo_reads_same(1) [of m n]] by (auto elim!: wrapped_cases)
    then show ?thesis using err by (simp add: touch_def)
  next
    case (crash s)
    then have "w_db w' = w_db w"
      using keepsD [OF repo_reads_same(1) [of m n]] by (auto elim!: wrapped_cases)
    then show ?thesis using crash by (simp add: touch_def)
  qed
  then show "touch p n w w'" and "r = Ok (Some i) \<Longrightarrow> ours p n i \<and> slot p w n \<noteq> None"
    and "r = Ok None \<Longrightarrow> slot p w n = None" by blast+
qed


section \<open>Deleting a world\<close>

lemma command_run:
  "command c f w = (case f (w_ext w) of
      (Inr x, y) \<Rightarrow> (Ok x, w\<lparr>w_calls := w_calls w @ [c], w_ext := y\<rparr>)
    | (Inl e, y) \<Rightarrow> (Err e, w\<lparr>w_calls := w_calls w @ [c], w_ext := y\<rparr>))"
  by (simp add: command_def ask_def on_ext_def zoom_def of_step_def seqo_def bindo_def modify_def
    split: prod.split sum.split)

lemma ask_run:
  "ask f w = (case f (w_ext w) of (Inr x, y) \<Rightarrow> (Ok x, w\<lparr>w_ext := y\<rparr>) | (Inl e, y) \<Rightarrow> (Err e, w\<lparr>w_ext := y\<rparr>))"
  by (simp add: ask_def on_ext_def zoom_def of_step_def split: prod.split sum.split)

definition finishes :: "('w, unit) op \<Rightarrow> bool" where
  \<comment> \<open>the operation cannot fail\<close>
  "finishes m = (\<forall>w. \<exists>w'. m w = (Ok (), w'))"

lemma finishes_seqo: "finishes m \<Longrightarrow> finishes n \<Longrightarrow> finishes (seqo m n)"
  unfolding finishes_def seqo_def bindo_def by (metis (mono_tags, lifting) case_prod_conv res.case(1))

lemma finishes_notes: "finishes (RecordAudit m actor a d)" "finishes (RecordEvent m a actor)"
  by (simp_all add: finishes_def RecordAudit_def RecordEvent_def whenO_def modify_def ret_def)

lemma finishes_roles: "finishes (retireSessionRole m g n)" "finishes (retireRole m n inst actor)"
proof -
  show "finishes (retireSessionRole m g n)"
    by (auto simp: finishes_def retireSessionRole_def Let_def ignore_def attempt_def bindo_def ret_def command_run
      split: option.split prod.split sum.split)
  have "finishes (optO x (\<lambda>f. bindo (attempt (command (CRetireRole inst) (f inst)))
      (\<lambda>r. case r of Inr _ \<Rightarrow> ret () | Inl e \<Rightarrow> RecordAudit m actor a (d e))))"
    for x and a and d :: "goerr \<Rightarrow> string"
    using finishes_notes(1) [of m actor a]
    by (auto simp: finishes_def optO_def attempt_def bindo_def ret_def command_run
      split: option.split prod.split sum.split)
  then show "finishes (retireRole m n inst actor)" unfolding retireRole_def .
qed

definition delete_rest :: "('s, 'x) Manager \<Rightarrow> int \<Rightarrow> Instance \<Rightarrow> string list \<Rightarrow> ('s, 'x, unit) mop" where
  \<comment> \<open>what is left of \<open>DeleteInstance\<close> once the manifests are gone\<close>
  "delete_rest m n inst actor =
     seqo (repo_Delete m n)
       (seqo (retireSessionRole m (inst_GameID inst) n)
       (seqo (retireRole m n inst actor)
       (let action = gamePrefix m @ ''-instance-delete''
        in seqo (RecordAudit m actor action (''Instance #'' @ pad02 n)) (RecordEvent m action actor))))"

definition delete_store :: "('s, 'x) Manager \<Rightarrow> int \<Rightarrow> Instance \<Rightarrow> ('s, 'x, unit) mop" where
  "delete_store m n inst =
     optO (m_stateStore m) (\<lambda>so. wrapped ''state store delete instance manifests: ''
       (on_store (of_exec (so_Delete so (instanceDirFor m inst)
          (gamePrefix m @ '': delete instance '' @ pad02 n @ '' ('' @ inst_Name inst @ '')'')))))"

definition delete_checked :: "('s, 'x) Manager \<Rightarrow> int \<Rightarrow> Instance \<Rightarrow> ('s, 'x, unit) mop" where
  \<comment> \<open>what comes before the manifests go\<close>
  "delete_checked m n inst =
     seqo (optO (m_preDeleteHook m) (\<lambda>f. hook (CPreDelete inst) (f inst)))
       (seqo (refuse_running m n inst) (tear_down m n inst))"

lemma seqo_assoc: "seqo (seqo a b) c = seqo a (seqo b c)"
  by (rule ext) (auto simp: seqo_def bindo_def split: prod.splits res.splits)

lemma DeleteInstance_parts:
  "DeleteInstance m n actor = with_instance m n (\<lambda>inst.
     seqo (delete_checked m n inst) (seqo (delete_store m n inst) (delete_rest m n inst actor)))"
  unfolding DeleteInstance_def delete_checked_def delete_store_def delete_rest_def Let_def seqo_assoc ..

lemma delete_parts_frames [frames]:
  "keeps same_db (delete_checked m n inst)" "keeps same_store (delete_checked m n inst)"
  "keeps same_db (delete_store m n inst)"
  by (auto simp: delete_checked_def delete_store_def refuse_running_def tear_down_def hook_def intro!: frames)

lemma delete_rest_run:
  assumes "manages m p" and "db_ok (w_db w)" and "delete_rest m n inst actor w = (r, w')"
  shows "(r = Ok () \<and> saved_as p (w_db w) n None (w_db w')) \<or> (r \<noteq> Ok () \<and> w_db w' = w_db w)"
proof -
  let ?fin = "seqo (retireSessionRole m (inst_GameID inst) n) (seqo (retireRole m n inst actor)
       (let action = gamePrefix m @ ''-instance-delete''
        in seqo (RecordAudit m actor action (''Instance #'' @ pad02 n)) (RecordEvent m action actor)))"
  have fin: "finishes ?fin" "keeps same_db ?fin"
    unfolding Let_def by (intro finishes_seqo finishes_roles finishes_notes) (auto intro!: frames)
  from assms(3) show ?thesis
    unfolding delete_rest_def
  proof (cases rule: seqo_cases)
    case (ok w1)
    have "saved_as p (w_db w) n None (w_db w1)"
      using repo_Delete_run [OF assms(1,2) ok(1)] by auto
    moreover have "w_db w' = w_db w1" using keepsD [OF fin(2) ok(2)] by (simp add: same_db_def)
    moreover have "r = Ok ()" using fin(1) ok(2) unfolding finishes_def by (metis prod.inject)
    ultimately show ?thesis by simp
  next
    case (err e)
    then show ?thesis using repo_Delete_run [OF assms(1,2) err(1)] by auto
  next
    case (crash s)
    then show ?thesis using repo_Delete_run [OF assms(1,2) crash(1)] by auto
  qed
qed

text \<open>C8: A delete reports success exactly when the record of the world is gone; any failure before
  (the pre-delete status, tearing the server down, removing the manifests, the database) leaves
  the world listed, so the delete can be retried, and no other world's record changes.\<close>

theorem delete_all_or_nothing:
  assumes "manages m p" and "sane_sources m" and "db_ok (w_db w)" and "slot p w n \<noteq> None"
    and "DeleteInstance m n actor w = (r, w')"
  shows "(r = Ok () \<longleftrightarrow> slot p w' n = None) \<and> (\<forall>k. k \<noteq> n \<longrightarrow> slot p w' k = slot p w k) \<and> db_ok (w_db w')"
proof -
  note get = GetInstance_run [OF assms(1-3)]
  have kept: "slot p w' n \<noteq> None \<and> (\<forall>k. k \<noteq> n \<longrightarrow> slot p w' k = slot p w k) \<and> db_ok (w_db w')"
    if "touch p n w w1" "w_db w' = w_db w1" for w1
    using that assms(3,4) by (simp add: touch_def)
  from assms(5) show ?thesis
    unfolding DeleteInstance_parts with_instance_def
  proof (cases rule: bindo_cases)
    case (ok x w1)
    then obtain i where x: "x = Some i" using get(3) [OF ok(1)] assms(4) by (cases x) auto
    have touch1: "touch p n w w1" and ok1: "db_ok (w_db w1)"
      using get(1) [OF ok(1)] assms(3) by (simp_all add: touch_def)
    from ok(2) x have "seqo (delete_checked m n i) (seqo (delete_store m n i) (delete_rest m n i actor)) w1 = (r, w')"
      by simp
    from this delete_parts_frames(1) show ?thesis
    proof (cases rule: seqo_skip)
      case (rest w2)
      from rest(2) delete_parts_frames(3) show ?thesis
      proof (cases rule: seqo_skip)
        case rest2: (rest w3)
        have db: "w_db w3 = w_db w1" using rest(1) rest2(1) by (simp add: same_db_def)
        have "db_ok (w_db w3)" using db ok1 by simp
        from delete_rest_run [OF assms(1) this rest2(2)] show ?thesis
        proof (elim disjE)
          assume "r = Ok () \<and> saved_as p (w_db w3) n None (w_db w')"
          then show ?thesis using touch1 db assms(3) by (auto simp: saved_as_def touch_def)
        next
          assume "r \<noteq> Ok () \<and> w_db w' = w_db w3"
          then show ?thesis using kept [OF touch1] db by auto
        qed
      qed (use kept [OF touch1] rest(1) in \<open>auto simp: same_db_def\<close>)
    qed (use kept [OF touch1] in \<open>auto simp: same_db_def\<close>)
  qed (use kept [OF get(1)] in auto)
qed


definition says_running :: "'x Runtime \<Rightarrow> bool" where
  "says_running rt \<longleftrightarrow>
     (\<forall>ref x. \<exists>st x'. rt_Status rt ref x = (Inr st, x') \<and> (st_Lifecycle st = LifecycleRunning \<or> st_Available st))"

definition fails_always :: "('x, 'a) call \<Rightarrow> bool" where
  "fails_always f \<longleftrightarrow> (\<forall>x. \<exists>e x'. f x = (Inl e, x'))"

lemma refuse_running_run:
  assumes "m_runtime m = Some rt" and "says_running rt"
  shows "refuse_running m n inst w \<noteq> (Ok (), w')"
proof
  assume "refuse_running m n inst w = (Ok (), w')"
  then have "bindo (serverRef m inst) (\<lambda>ref. bindo (attempt (ask (rt_Status rt ref))) (\<lambda>r. case r of
        Inl e \<Rightarrow> ret ()
      | Inr st \<Rightarrow> (if st_Lifecycle st = LifecycleRunning \<or> st_Available st
              then fail (Errorf (''instance '' @ show_int n @ '' ('' @ inst_Name inst
                     @ '') must be stopped before it can be deleted''))
              else ret ()))) w = (Ok (), w')"
    by (simp add: refuse_running_def optO_def assms(1))
  then show False
  proof (cases rule: bindo_cases)
    case (ok ref w1)
    obtain st x' where st: "rt_Status rt ref (w_ext w1) = (Inr st, x')"
      "st_Lifecycle st = LifecycleRunning \<or> st_Available st"
      using assms(2) unfolding says_running_def by blast
    then have "attempt (ask (rt_Status rt ref)) w1 = (Ok (Inr st), w1\<lparr>w_ext := x'\<rparr>)"
      by (simp add: attempt_def ask_run)
    then show False using ok(2) st(2) by (simp add: bindo_def fail_def)
  qed auto
qed

lemma tear_down_run:
  assumes "m_reconciler m = Some rc" and "rc_Destroy rc = Some f" and "\<not> IsCluster (EffectiveHost inst)"
    and "\<And>ref. fails_always (f ref)"
  shows "tear_down m n inst w \<noteq> (Ok (), w')"
proof
  assume "tear_down m n inst w = (Ok (), w')"
  then have "bindo (serverRef m inst) (\<lambda>ref. wrapped (''delete instance '' @ show_int n @ '': tear down '' @ EffectiveHost inst @ '': '')
      (command (CDestroy ref) (f ref))) w = (Ok (), w')"
    using assms(1-3) by (simp add: tear_down_def)
  then show False
  proof (cases rule: bindo_cases)
    case (ok ref w1)
    obtain e x' where "f ref (w_ext w1) = (Inl e, x')" using assms(4) unfolding fails_always_def by blast
    then show False using ok(2) by (simp add: wrapped_def command_run)
  qed auto
qed


section \<open>Saving settings\<close>

definition is_materialize :: "Call \<Rightarrow> bool" where
  "is_materialize c = (case c of CMaterialize _ _ \<Rightarrow> True | _ \<Rightarrow> False)"

locale desired_state =
  \<comment> \<open>what the manager relies on when it writes a directory of the store\<close>
  fixes so :: "'s StoreOps"
  assumes put_in: "so_PutTree so dir tree msg s = (None, s') \<Longrightarrow> distinct (map fst tree) \<Longrightarrow>
      map_of tree name = Some (raw_doc c) \<Longrightarrow> \<exists>d. so_Get so s' (trim_suffix dir ''/'' @ ''/'' @ name) = Inr d \<and> Raw d = c"
    and put_other: "so_PutTree so dir tree msg s = (None, s') \<Longrightarrow> distinct (map fst tree) \<Longrightarrow>
      \<not> under dir q \<Longrightarrow> so_Get so s' q = so_Get so s q"
    and put_failed: "so_PutTree so dir tree msg s = (Some e, s') \<Longrightarrow> so_Get so s' q = so_Get so s q"
    and delete_under: "so_Delete so path msg s = (None, s') \<Longrightarrow> q = path \<or> under path q \<Longrightarrow>
      \<exists>e. so_Get so s' q = Inl e"
    and delete_other: "so_Delete so path msg s = (r, s') \<Longrightarrow> q \<noteq> path \<Longrightarrow> \<not> under path q \<Longrightarrow>
      so_Get so s' q = so_Get so s q"
begin

definition raw_at :: "'s \<Rightarrow> string \<Rightarrow> string option" where
  \<comment> \<open>the bytes of a file\<close>
  "raw_at s q = (case so_Get so s q of Inl e \<Rightarrow> None | Inr d \<Rightarrow> Some (Raw d))"

lemma preserved_keys: "map fst (preserved get dir f tree) = map fst tree"
proof (cases "map_of tree f")
  case (Some c)
  then have "f \<in> fst ` set tree" by (metis domI dom_map_of_conv_image_fst)
  then show ?thesis by (auto simp: preserved_def update_keys split: sum.split option.split)
qed (simp add: preserved_def)

lemma preserved_at:
  "map_of tree f \<noteq> None \<Longrightarrow> get (dir @ ''/'' @ f) = Inr d \<Longrightarrow> Raw d \<noteq> '''' \<Longrightarrow> f \<noteq> configsFileName \<Longrightarrow>
   map_of (preserved get dir f tree) f = Some (raw_doc (Raw d))"
  by (simp add: preserved_def map_of_update)

text \<open>A preserved file keeps its bytes through a write of the directory.\<close>

lemma write_preserves:
  assumes files: "distinct (map fst files)" "f \<in> fst ` set files" "f \<noteq> configsFileName"
    and old: "so_Get so s (dir @ ''/'' @ f) = Inr d" "Raw d \<noteq> ''''"
    and dir: "trim_suffix dir ''/'' = dir"
    and put: "so_PutTree so dir (fold (preserved (so_Get so s) dir) [configsFileName, f]
        (map (\<lambda>(f, c). (f, raw_doc c)) files)) msg s = (r, s')"
  shows "raw_at s' (dir @ ''/'' @ f) = Some (Raw d)"
proof (cases r)
  case None
  let ?t0 = "map (\<lambda>(f, c). (f, raw_doc c)) files"
  let ?t1 = "preserved (so_Get so s) dir configsFileName ?t0"
  let ?t2 = "preserved (so_Get so s) dir f ?t1"
  have keys: "map fst ?t0 = map fst files" by (simp add: case_prod_unfold comp_def)
  have "map_of ?t1 f \<noteq> None"
    unfolding map_of_eq_None_iff set_map [symmetric] preserved_keys keys using files(2) by simp
  then have "map_of ?t2 f = Some (raw_doc (Raw d))"
    using preserved_at [of ?t1 f "so_Get so s" dir d] old files(3) by blast
  moreover have "distinct (map fst ?t2)" by (simp only: preserved_keys keys files(1))
  moreover have "so_PutTree so dir ?t2 msg s = (None, s')" using put None by simp
  ultimately obtain d' where "so_Get so s' (trim_suffix dir ''/'' @ ''/'' @ f) = Inr d'" "Raw d' = Raw d"
    using put_in by blast
  then show ?thesis by (simp add: dir raw_at_def)
next
  case (Some e)
  then have "so_Get so s' (dir @ ''/'' @ f) = so_Get so s (dir @ ''/'' @ f)" using put put_failed by blast
  then show ?thesis using old(1) by (simp add: raw_at_def)
qed

end

definition mem_ops :: "Store StoreOps" where
  "mem_ops = \<lparr>so_Get = Store_Get, so_Patch = (\<lambda>p msg f. Store_Patch p f),
     so_PutTree = (\<lambda>d t msg s. (None, Store_PutTree d t s)), so_Delete = (\<lambda>p msg s. (None, Store_Delete p s))\<rparr>"

interpretation memory: desired_state mem_ops
proof
  fix dir :: string and tree msg and s s' :: Store and name c
  assume a: "so_PutTree mem_ops dir tree msg s = (None, s')" "distinct (map fst tree)" "map_of tree name = Some (raw_doc c)"
  then show "\<exists>d. so_Get mem_ops s' (trim_suffix dir ''/'' @ ''/'' @ name) = Inr d \<and> Raw d = c"
    using Store_PutTree_read(1) [OF a(2), of dir s name] by (auto simp: mem_ops_def raw_doc_def)
next
  fix dir :: string and tree msg and s s' :: Store and q
  assume "so_PutTree mem_ops dir tree msg s = (None, s')" "distinct (map fst tree)" "\<not> under dir q"
  then show "so_Get mem_ops s' q = so_Get mem_ops s q"
    using Store_PutTree_read(2) by (auto simp: mem_ops_def)
qed (auto simp: mem_ops_def Store_Get_def Store_Delete_def map_of_filter_key [of "\<lambda>k. \<not> under _ k"] map_of_delete)


lemma trim_instance_dir:
  assumes "0 \<le> Number inst"
  shows "trim_suffix (instanceDirFor m inst) ''/'' = instanceDirFor m inst"
proof -
  have "list_all is_digit (pad02 (Number inst))" "pad02 (Number inst) \<noteq> ''''"
    using pad02_digits [OF assms] by auto
  then have "is_digit (last (instanceDirFor m inst))"
    by (auto simp: instanceDirFor_def InstanceDirName_def list_all_iff dest!: last_in_set)
  then have "last (instanceDirFor m inst) \<noteq> CHR ''/''" by (auto simp: is_digit_def code_def)
  then show ?thesis
    by (cases "instanceDirFor m inst" rule: rev_cases) (auto simp: trim_suffix_def has_suffix_def)
qed

lemma converge_on_materializes:
  "keeps (only_calls is_materialize) (converge_on m inst files False rc)"
  by (auto simp: converge_on_def is_materialize_def whenO_def intro!: frames)

lemma writeSettings_calls: "keeps (only_calls is_materialize) (writeSettingsManifests m inst msg)"
  unfolding writeSettingsManifests_def writeRendered_def Let_def
  by (auto intro!: frames converge_on_materializes)

lemma persistSettings_run:
  assumes "desired_state so" and "m_stateStore m = Some so" and "0 \<le> Number inst"
    and files: "\<forall>i ml fs. m_renderer m i ml = Inr fs \<longrightarrow> distinct (map fst fs) \<and> modsFileName \<in> fst ` set fs"
    and old: "so_Get so (w_store w) (instanceDirFor m inst @ ''/'' @ modsFileName) = Inr d" "Raw d \<noteq> ''''"
    and run: "persistSettings m inst actor w = (r, w')"
  shows "\<exists>d'. so_Get so (w_store w') (instanceDirFor m inst @ ''/'' @ modsFileName) = Inr d' \<and> Raw d' = Raw d"
proof -
  let ?path = "instanceDirFor m inst @ ''/'' @ modsFileName"
  let ?kept = "\<lambda>w. \<exists>d'. so_Get so (w_store w) ?path = Inr d' \<and> Raw d' = Raw d"
  have wr: "?kept w2" if "writeSettingsManifests m inst msg w = (r2, w2)" for msg r2 w2
    using that unfolding writeSettingsManifests_def writeRendered_def Let_def assms(2) option.case
  proof (cases rule: bindo_cases)
    case (ok fs w3)
    then have fs: "m_renderer m inst empty_modlist = Inr fs" "w3 = w"
      by (auto simp: of_sum_run elim!: wrapped_cases)
    define t where "t = fold (preserved (so_Get so (w_store w)) (instanceDirFor m inst)) [configsFileName, modsFileName]
        (map (\<lambda>(f, c). (f, raw_doc c)) fs)"
    let ?dir = "instanceDirFor m inst"
    obtain e s' where put: "so_PutTree so ?dir t msg (w_store w) = (e, s')" by (cases "so_PutTree so ?dir t msg (w_store w)")
    have "desired_state.raw_at so s' ?path = Some (Raw d)"
      by (rule desired_state.write_preserves [OF assms(1) _ _ _ old trim_instance_dir [OF assms(3)] put [unfolded t_def]])
        (use files fs(1) in \<open>auto simp: modsFileName_def configsFileName_def\<close>)
    then have kept: "?kept (w\<lparr>w_store := s'\<rparr>)"
      by (auto simp: desired_state.raw_at_def [OF assms(1)] split: sum.splits)
    have conv: "keeps same_store (optO (m_reconciler m) (converge_on m inst fs False))"
      by (auto intro!: frames)
    have put_run: "on_store (of_exec (so_PutTree so ?dir t msg)) w =
        ((case e of Some e \<Rightarrow> Err e | None \<Rightarrow> Ok ()), w\<lparr>w_store := s'\<rparr>)"
      unfolding on_store_def zoom_def of_exec_def put by (simp split: option.split)
    from ok(2) have "seqo (wrapped ''state store write instance manifests: ''
          (on_store (of_exec (so_PutTree so ?dir t msg))))
        (optO (m_reconciler m) (converge_on m inst fs False)) w = (r2, w2)"
      by (simp add: fs(2) bindo_def gets_def t_def)
    then have "w_store w2 = s'"
      by (auto elim!: seqo_cases wrapped_cases dest: keepsD [OF conv] simp: put_run same_store_def split: option.splits)
    then show ?thesis using kept by simp
  qed (use old in \<open>auto elim!: wrapped_cases simp: of_sum_def ret_def fail_def split: sum.splits\<close>)
  have tail: "keeps same_store (seqo (wrapped f (repo_Upsert m inst)) (RecordAudit m actor a b))" for f a b
    by (auto intro!: frames)
  show ?thesis
    using run unfolding persistSettings_def Let_def
    by (auto elim!: seqo_cases [where m = "wrapped _ (writeSettingsManifests _ _ _)"] wrapped_cases
      dest!: keepsD [OF tail] wr simp: same_store_def)
qed


lemma settings_same_dir [simp]:
  "instanceDirFor m (edit_settings name motd tier inst) = instanceDirFor m inst"
  "instanceDirFor m (edit_password password inst) = instanceDirFor m inst"
  "Number (edit_settings name motd tier inst) = Number inst"
  "Number (edit_password password inst) = Number inst"
  by (simp_all add: edit_settings_def edit_password_def instanceDirFor_def EffectiveHost_def)


section \<open>A manager to try the properties on\<close>

definition booting_status :: Status where
  "booting_status = \<lparr>st_Lifecycle = LifecycleRunning, st_Available = False, st_StartedAt = 0,
     st_Address = '''', st_Failure = no_failure\<rparr>"

definition quiet_runtime :: "Status \<Rightarrow> unit Runtime" where
  \<comment> \<open>a runtime that accepts every command and always reports \<open>st\<close>\<close>
  "quiet_runtime st = \<lparr>rt_Start = (\<lambda>ref x. (Inr (), x)), rt_Stop = (\<lambda>ref x. (Inr (), x)),
     rt_Restart = (\<lambda>ref x. (Inr (), x)), rt_Status = (\<lambda>ref x. (Inr st, x)), rt_Logs = (\<lambda>ref opts x. (Inr '''', x))\<rparr>"

definition sample_manager :: "unit Runtime option \<Rightarrow> (Store, unit) Manager" where
  "sample_manager rt =
     \<lparr>m_repo = Some ValheimProfile, m_db = sql_up, m_stateStore = Some mem_ops, m_reconciler = None,
      m_preConverge = None, m_defaultHost = '''', m_runtime = rt, m_totalBudgetGiB = 24, m_maxInstances = 4,
      m_maxRunning = 2, m_instancesRelPath = ''manifests/valheim'', m_lbBaseIP = '''',
      m_renderer = (\<lambda>i ml. Inr [(''slot.yaml'', ''x''), (''mods.yaml'', ml_Primary ml)]),
      m_namespace = ''valheim'', m_gameID = GameValheim, m_installed = None, m_profile = ValheimProfile,
      m_backupsPVC = '''', m_serverRefResolver = None, m_audit = True, m_event = True, m_depResolver = None,
      m_versionResolver = None, m_modsReader = None, m_cfModsReader = None, m_cfResolver = None,
      m_configsReader = None, m_globalConfigsReader = None, m_globalConfigsPath = '''', m_backupsDir = '''',
      m_preStopHook = None, m_preDeleteHook = None, m_roleRegistrar = None, m_roleRetirer = None,
      m_sessionRoleRetirer = None, m_telemetryProvider = None, m_afterSyncHook = None,
      m_commandExecutor = None, m_jobRunner = None, m_sourceReconciler = None, m_newID = (\<lambda>x. (''w9'', x))\<rparr>"

definition sample_world :: "InstanceDb \<Rightarrow> (Store, unit) World" where
  "sample_world d = \<lparr>w_db = d, w_store = Store_Put ''manifests/valheim/instance-02/mods.yaml'' (raw_doc ''mods'') Store_New,
     w_ext = (), w_now = 100, w_calls = [], w_audit = [], w_events = []\<rparr>"

lemma sample_manages: "manages (sample_manager rt) ValheimProfile" "sane_sources (sample_manager rt)"
  by (simp_all add: manages_def sample_manager_def sane_sources_def)

lemma sample_db:
  obtains d where "db_ok d" "instance_at ValheimProfile d 2 = Some (saved_sample\<lparr>CreatedAt := 50, LastUsed := 50\<rparr>)"
    "\<And>k. k \<noteq> 2 \<Longrightarrow> instance_at ValheimProfile d k = None"
proof -
  have none: "instance_at ValheimProfile [] k = None" for k
    by (simp add: instance_at_None record_at_def getInstanceRow_def tableFor_def instanceTables_def table_rows_def mget_def)
  have two: "Number saved_sample = 2" by (simp add: saved_sample_def)
  obtain d where "saved_as ValheimProfile [] 2 (Some (joined 50 (instance_at ValheimProfile [] 2) saved_sample)) d"
    using Repo_Upsert_spec [OF _ db_ok_empty saved_sample_storable, of sql_up 50] two by auto
  then show thesis using that [of d] none by (simp add: saved_as_def joined_def)
qed

theorem CreateInstance_slots_witness:
  "\<exists>w. slot ValheimProfile w 2 \<noteq> None \<and>
     (let (r, w') = CreateInstance (sample_manager None) (saved_sample\<lparr>Number := 2\<rparr>) empty_modlist [] w
      in slot ValheimProfile w' 2 = slot ValheimProfile w 2)"
proof -
  obtain d where d: "db_ok d" "instance_at ValheimProfile d 2 = Some (saved_sample\<lparr>CreatedAt := 50, LastUsed := 50\<rparr>)"
    by (rule sample_db)
  let ?m = "sample_manager None" and ?i = "saved_sample\<lparr>Number := 2\<rparr>" and ?w = "sample_world d"
  obtain r w' where run: "CreateInstance ?m ?i empty_modlist [] ?w = (r, w')"
    by (cases "CreateInstance ?m ?i empty_modlist [] ?w")
  have "db_ok (w_db ?w)" "inst_GameID ?i = '''' \<or> inst_GameID ?i = gp_ID ValheimProfile"
    using d(1) by (simp_all add: sample_world_def saved_sample_def)
  from CreateInstance_slots [OF sample_manages(1) this run]
  have "slot ValheimProfile w' 2 = slot ValheimProfile ?w 2"
    using d(2) by (auto simp: saved_as_def sample_world_def)
  then show ?thesis using run d(2) by (intro exI [of _ ?w]) (simp add: sample_world_def)
qed


lemma sample_fields [simp]:
  "m_repo (sample_manager rt) = Some ValheimProfile" "m_db (sample_manager rt) = sql_up"
  "m_runtime (sample_manager rt) = rt" "m_sourceReconciler (sample_manager rt) = None"
  "m_installed (sample_manager rt) = None" "m_serverRefResolver (sample_manager rt) = None"
  "m_profile (sample_manager rt) = ValheimProfile" "m_gameID (sample_manager rt) = GameValheim"
  "w_db (sample_world d) = d" "sample_world d\<lparr>w_db := d'\<rparr> = sample_world d'"
  by (simp_all add: sample_manager_def sample_world_def)

lemma sample_get:
  assumes "db_ok d" and "instance_at ValheimProfile d 2 = Some i"
  shows "GetInstance (sample_manager None) 2 (sample_world d) = (Ok (Some i), sample_world d)"
proof -
  have "Repo_Get (Some ValheimProfile) sql_up 2 d = (Ok (Some i), d)"
    using Repo_Get_spec [OF _ assms(1), of ValheimProfile sql_up 2] assms(2) by simp
  then show ?thesis
    by (simp add: GetInstance_def wrapped_def repo_Get_def on_db_def zoom_def bindo_def refreshSource_def ret_def
      reconcileInstalledBuild_def)
qed

theorem delete_all_or_nothing_witness:
  "\<exists>w. slot ValheimProfile w 2 \<noteq> None \<and>
     (let (r, w') = DeleteInstance (sample_manager None) 2 [''ada''] w
      in r = Ok () \<longleftrightarrow> slot ValheimProfile w' 2 = None)"
proof -
  obtain d where d: "db_ok d" "instance_at ValheimProfile d 2 = Some (saved_sample\<lparr>CreatedAt := 50, LastUsed := 50\<rparr>)"
    by (rule sample_db)
  let ?m = "sample_manager None" and ?w = "sample_world d"
  obtain r w' where run: "DeleteInstance ?m 2 [''ada''] ?w = (r, w')" by (cases "DeleteInstance ?m 2 [''ada''] ?w")
  have "db_ok (w_db ?w)" "slot ValheimProfile ?w 2 \<noteq> None" using d by (simp_all add: sample_world_def)
  from delete_all_or_nothing [OF sample_manages this run] show ?thesis
    using run d(2) by (intro exI [of _ ?w]) (auto simp: sample_world_def)
qed

lemma serverRef_sample:
  "inst_GameID i = GameValheim \<Longrightarrow> \<exists>ref. serverRef (sample_manager rt) i w = (Ok ref, w)"
  by (simp add: serverRef_def bindo_def of_outcome_def ret_def profileFor_def DeploymentName_def
    Let_def)

lemma recordStatus_run:
  assumes "manages m p" and "db_ok (w_db w)" and "m_db m ''update instance state'' = None" and "st_Address st = ''''"
  shows "\<exists>d. recordStatus m i st w = (Ok (i\<lparr>State := stateFromStatus st\<rparr>), w\<lparr>w_db := d\<rparr>)"
proof -
  have m: "m_repo m = Some p" "catalogued p" using assms(1) by (simp_all add: manages_def)
  obtain d where "Repo_UpdateState (Some p) (m_db m) (w_now w) (Number i) (stateFromStatus st) (w_db w) = (Ok (), d)"
    using Repo_UpdateState_spec [where db = "m_db m" and s = "stateFromStatus st", OF m(2) assms(2,3)] stateFromStatus_not_empty by blast
  then have "repo_UpdateState m (Number i) (stateFromStatus st) w = (Ok (), w\<lparr>w_db := d\<rparr>)"
    by (simp add: repo_UpdateState_def on_db_def zoom_def m(1) bindo_def gets_def)
  then show ?thesis
    by (auto simp: recordStatus_def Let_def assms(4) whenO_def seqo_def bindo_def ignore_def attempt_def ret_def
      intro: exI [of _ "w_db w"])
qed

lemma sample_status:
  assumes "db_ok d" and "instance_at ValheimProfile d 2 = Some (saved_sample\<lparr>CreatedAt := 50, LastUsed := 50\<rparr>)"
  obtains i w1 where "GetInstance (sample_manager (Some (quiet_runtime booting_status))) 2 (sample_world d) = (Ok (Some i), w1)"
proof -
  let ?m = "sample_manager (Some (quiet_runtime booting_status))" and ?i = "saved_sample\<lparr>CreatedAt := 50, LastUsed := 50\<rparr>"
  have get: "repo_Get ?m 2 (sample_world d) = (Ok (Some ?i), sample_world d)"
    using Repo_Get_spec [OF _ assms(1), of ValheimProfile sql_up 2] assms(2)
    by (simp add: repo_Get_def on_db_def zoom_def)
  obtain ref where ref: "serverRef ?m ?i (sample_world d) = (Ok ref, sample_world d)"
    using serverRef_sample [of ?i] by (auto simp: saved_sample_def)
  have up: "attempt (ask (rt_Status (quiet_runtime booting_status) ref)) (sample_world d) = (Ok (Inr booting_status), sample_world d)"
    by (simp add: attempt_def ask_run quiet_runtime_def sample_world_def)
  obtain d' where rec: "recordStatus ?m ?i booting_status (sample_world d) =
      (Ok (?i\<lparr>State := stateFromStatus booting_status\<rparr>), sample_world d\<lparr>w_db := d'\<rparr>)"
    using recordStatus_run [OF sample_manages(1), of "sample_world d"] assms(1) by (force simp: booting_status_def)
  show thesis
    by (rule that) (simp add: GetInstance_def wrapped_def get bindo_def refreshSource_def ret_def ref up rec
      reconcileInstalledBuild_def)
qed




section \<open>The start budget\<close>

definition fits :: "('s, 'x) Manager \<Rightarrow> Instance \<Rightarrow> Instance list \<Rightarrow> bool" where
  \<comment> \<open>the world beside the running ones stays within both limits\<close>
  "fits m inst others \<longleftrightarrow>
     (let running = filter (\<lambda>i. State i = StateRunning) others; p = profileFor m inst;
          most = (if m_maxRunning m \<le> 0 then DefaultMaxRunning else m_maxRunning m);
          budget = (if m_totalBudgetGiB m \<le> 0 then DefaultTotalBudgetGiB else m_totalBudgetGiB m)
      in int (length running) + 1 \<le> most \<and> (\<Sum>i\<leftarrow>inst # running. mem_of p i) \<le> budget)"

lemma budget_exact:
  assumes "registered (profileFor m inst)"
  shows "\<exists>b r. CalculateBudget (profileFor m inst) others (m_totalBudgetGiB m) (m_maxRunning m) (m_maxInstances m) = Val b \<and>
    CanStart b (profileFor m inst) inst = Val r \<and> (r = None \<longleftrightarrow> fits m inst others) \<and>
    (r \<noteq> None \<longrightarrow> (\<exists>msg. r = Some (Errorf msg)))"
proof -
  let ?p = "profileFor m inst"
  obtain b where b: "CalculateBudget ?p others (m_totalBudgetGiB m) (m_maxRunning m) (m_maxInstances m) = Val b"
    using CalculateBudget_val [OF assms] by blast
  have f: "UsedGiB b = (\<Sum>i\<leftarrow>filter (\<lambda>i. State i = StateRunning) others. mem_of ?p i)"
    "RunningCount b = int (length (filter (\<lambda>i. State i = StateRunning) others))"
    "MaxRunning b = (if m_maxRunning m \<le> 0 then DefaultMaxRunning else m_maxRunning m)"
    "TotalBudgetGiB b = (if m_totalBudgetGiB m \<le> 0 then DefaultTotalBudgetGiB else m_totalBudgetGiB m)"
    using b by (auto simp: CalculateBudget_def Let_def usage_sum [OF assms] is_running_def cong: filter_cong)
  then have pos: "0 < TotalBudgetGiB b" "0 < MaxRunning b"
    by (simp_all add: DefaultMaxRunning_def DefaultTotalBudgetGiB_def)
  have exact: "CanStart b ?p inst = Val None \<longleftrightarrow> fits m inst others"
    unfolding CanStart_None [OF assms pos] fits_def Let_def f by auto
  have "\<exists>r. CanStart b ?p inst = Val r \<and> (r \<noteq> None \<longrightarrow> (\<exists>msg. r = Some (Errorf msg)))"
    by (simp add: CanStart_def MemoryGiB_mem_of [OF assms])
  then show ?thesis using b exact by force
qed

lemma bring_up_db: "keeps same_db (bring_up m n inst)"
  unfolding bring_up_def start_mods_def by (auto intro!: frames)

text \<open>C7: Starting a stopped world is refused exactly when it would break the limit on running worlds or
  the memory budget over the others as listed, and a refusal changes nothing but what the listing
  itself refreshed; within the limits the server is brought up, a failure of which is the result,
  and a success marks the world running.\<close>

theorem start_exactly_in_budget:
  assumes "manages m p" and "db_ok (w_db w2)" and "m_db m ''update instance state'' = None"
    and "GetInstance m n w = (Ok (Some inst), w1)" and "State inst \<noteq> StateRunning"
    and "registered (profileFor m inst)" and "ListInstances m w1 = (Ok listing, w2)"
    and "StartInstance m n actor w = (r, w')"
  shows "if fits m inst (filter (\<lambda>i. Number i \<noteq> n) listing)
    then (\<forall>e w3. bring_up m n inst w2 = (Err e, w3) \<longrightarrow> r = Err e \<and> w' = w3) \<and>
         (\<forall>w3. bring_up m n inst w2 = (Ok (), w3) \<longrightarrow> r = Ok () \<and>
            slot p w' n = map_option (\<lambda>i. i\<lparr>State := StateRunning, LastUsed := w_now w3\<rparr>) (slot p w3 n))
    else (\<exists>msg. r = Err (Errorf msg)) \<and> w' = w2 \<and> w_store w' = w_store w \<and> w_calls w' = w_calls w"
proof -
  let ?others = "filter (\<lambda>i. Number i \<noteq> n) listing"
  obtain b x where b: "CalculateBudget (profileFor m inst) ?others (m_totalBudgetGiB m) (m_maxRunning m) (m_maxInstances m) = Val b"
    "CanStart b (profileFor m inst) inst = Val x" "x = None \<longleftrightarrow> fits m inst ?others" "x \<noteq> None \<longrightarrow> (\<exists>msg. x = Some (Errorf msg))"
    using budget_exact [OF assms(6)] by blast
  let ?notes = "seqo (RecordAudit m actor (gamePrefix m @ ''-instance-start'') (''Instance #'' @ pad02 n))
      (RecordEvent m (gamePrefix m @ ''-instance-start'') actor)"
  have run: "seqo (checkO x) (seqo (bring_up m n inst) (seqo (repo_UpdateState m n StateRunning) ?notes)) w2 = (r, w')"
    using assms(8) unfolding StartInstance_def with_instance_def
    by (simp add: bindo_def [of "GetInstance m n"] bindo_def [of "ListInstances m"] bindo_def [of "of_outcome _"]
      assms(4,5,7) of_outcome_def b(1,2) Let_def)
  show ?thesis
  proof (cases "fits m inst ?others")
    case True
    then have x: "x = None" using b(3) by simp
    have state: "repo_UpdateState m n StateRunning w3 = (Ok (), w4) \<and> saved_as p (w_db w3) n
        (map_option (\<lambda>i. i\<lparr>State := StateRunning, LastUsed := w_now w3\<rparr>) (slot p w3 n)) (w_db w4)"
      if w4: "w4 = snd (repo_UpdateState m n StateRunning w3)" and db: "w_db w3 = w_db w2" for w3 w4
    proof -
      have "m_repo m = Some p" "catalogued p" using assms(1) by (simp_all add: manages_def)
      moreover obtain d where "Repo_UpdateState (Some p) (m_db m) (w_now w3) n StateRunning (w_db w3) = (Ok (), d)"
        "saved_as p (w_db w3) n (map_option (\<lambda>i. i\<lparr>State := StateRunning, LastUsed := w_now w3\<rparr>) (slot p w3 n)) d"
        using Repo_UpdateState_spec [where db = "m_db m" and s = StateRunning and now = "w_now w3" and n = n,
          OF \<open>catalogued p\<close> _ assms(3)] assms(2) db
        by (auto simp: StateRunning_def)
      ultimately show ?thesis
        using w4 by (simp add: repo_UpdateState_def on_db_def zoom_def bindo_def gets_def)
    qed
    have fin: "finishes ?notes" "keeps same_db ?notes" by (auto intro!: finishes_seqo finishes_notes frames)
    have started: "r = Ok () \<and> slot p w' n = map_option (\<lambda>i. i\<lparr>State := StateRunning, LastUsed := w_now w3\<rparr>) (slot p w3 n)"
      if up: "bring_up m n inst w2 = (Ok (), w3)" for w3
    proof -
      have "w_db w3 = w_db w2" using keepsD [OF bring_up_db up] by (simp add: same_db_def)
      then obtain w4 where w4: "repo_UpdateState m n StateRunning w3 = (Ok (), w4)" "saved_as p (w_db w3) n
          (map_option (\<lambda>i. i\<lparr>State := StateRunning, LastUsed := w_now w3\<rparr>) (slot p w3 n)) (w_db w4)"
        using state by blast
      then have "?notes w4 = (r, w')" using run x up by (simp add: checkO_def seqo_def bindo_def ret_def)
      then have "r = Ok ()" "w_db w' = w_db w4"
        using fin(1) keepsD [OF fin(2)] by (auto simp: finishes_def same_db_def, metis prod.inject)
      then show ?thesis using w4(2) by (simp add: saved_as_def)
    qed
    from run x show ?thesis using True started by (auto simp: checkO_def seqo_def bindo_def ret_def)
  next
    case False
    then obtain msg where "x = Some (Errorf msg)" using b(3,4) by blast
    then have "r = Err (Errorf msg)" "w' = w2" using run by (simp_all add: checkO_def seqo_def bindo_def fail_def)
    moreover have "w_store w2 = w_store w" "w_calls w2 = w_calls w"
      using keepsD [OF listing_frames(3) assms(4)] keepsD [OF listing_frames(1) assms(7)]
        keepsD [OF listing_frames(4) [of "\<lambda>_. False"] assms(4)] keepsD [OF listing_frames(2) [of "\<lambda>_. False"] assms(7)]
      by (auto simp: same_store_def only_calls_def)
    ultimately show ?thesis using False by simp
  qed
qed


lemma mapO_ret: "(\<And>x. x \<in> set xs \<Longrightarrow> f x w = (Ok x, w)) \<Longrightarrow> mapO f xs w = (Ok xs, w)"
  by (induction xs) (simp_all add: ret_def bindo_def)

theorem start_exactly_in_budget_witness:
  "\<exists>w. map_option State (slot ValheimProfile w 2) = Some StateStopped \<and>
     (let (r, w') = StartInstance (sample_manager None) 2 [''ada''] w
      in r = Ok () \<and> map_option State (slot ValheimProfile w' 2) = Some StateRunning)"
proof -
  obtain d where d: "db_ok d" "instance_at ValheimProfile d 2 = Some (saved_sample\<lparr>CreatedAt := 50, LastUsed := 50\<rparr>)"
    "\<And>k. k \<noteq> 2 \<Longrightarrow> instance_at ValheimProfile d k = None"
    by (rule sample_db) blast
  let ?m = "sample_manager None" and ?w = "sample_world d" and ?i = "saved_sample\<lparr>CreatedAt := 50, LastUsed := 50\<rparr>"
  obtain r w' where run: "StartInstance ?m 2 [''ada''] ?w = (r, w')" by (cases "StartInstance ?m 2 [''ada''] ?w")
  obtain xs where xs: "Repo_List (Some ValheimProfile) sql_up d = (Ok xs, d)"
    "\<And>i. i \<in> set xs \<longleftrightarrow> instance_at ValheimProfile d (Number i) = Some i"
    using Repo_List_spec [OF _ d(1), of ValheimProfile sql_up] by auto
  have listing: "ListInstances ?m ?w = (Ok (sort_key Number xs), ?w)"
    by (simp add: ListInstances_def repo_List_def on_db_def zoom_def wrapped_def bindo_def xs(1)) (simp add: ret_def bindo_def
      listed_def refreshSource_def reconcileInstalledBuild_def mapO_ret)
  have others: "filter (\<lambda>i. Number i \<noteq> 2) (sort_key Number xs) = []"
    using xs(2) d(3) by (fastforce simp: filter_empty_conv)
  have profile: "profileFor ?m ?i = ValheimProfile" by (simp add: profileFor_def saved_sample_def)
  have fit: "fits ?m ?i (filter (\<lambda>i. Number i \<noteq> 2) (sort_key Number xs))"
    unfolding others by code_simp
  have up: "bring_up ?m 2 ?i ?w = (Ok (), ?w)"
    by (simp add: bring_up_def optO_def ret_def sample_manager_def)
  have "State ?i \<noteq> StateRunning" "db_ok (w_db ?w)" "m_db ?m ''update instance state'' = None"
    using d(1) by (simp_all add: saved_sample_def StateStopped_def StateRunning_def)
  from start_exactly_in_budget [OF sample_manages(1) this(2,3) sample_get [OF d(1,2)] this(1) _ listing run]
  have "r = Ok () \<and> map_option State (slot ValheimProfile w' 2) = Some StateRunning"
    using fit up d(2) by (simp add: profile)
  then show ?thesis using run d(2) by (intro exI [of _ ?w]) (simp add: saved_sample_def)
qed

end
