(* ===== verification/ManagerMods.thy ===== *)
theory ManagerMods
  imports Lifecycle
begin

text \<open>
  The part of \<open>internal/app/instances/manager.go\<close> that edits what a world runs with: installing,
  replacing and removing mods of both catalogues, and the config files of a world and of a whole
  game. Every edit is one \<open>Patch\<close> of one document of Desired state; the function handed to it is a
  pure function of the document.

  \<open>InstallMod\<close> and \<open>InstallCurseForgeMod\<close> count the entries they add in a variable the patch
  function captures. The count here is that of the document the store has at the path, which is
  the one the contract \<open>state_store\<close> says the function is run on.
\<close>

section \<open>Patching a document\<close>

definition patch_doc :: "'s StoreOps \<Rightarrow> string \<Rightarrow> string \<Rightarrow> Mutate \<Rightarrow> ('s, 'x, bool) mop" where
  "patch_doc so path msg f = on_store (of_step (so_Patch so path msg f))"

definition doc_text :: "'s StoreOps \<Rightarrow> string \<Rightarrow> string \<Rightarrow> ('s, 'x, string) mop" where
  \<comment> \<open>the text under a key of the document at a path, empty when there is none\<close>
  "doc_text so path key =
     bindo (store_get so path) (\<lambda>r. ret (case r of Inl e \<Rightarrow> '''' | Inr d \<Rightarrow> data_get d key))"

definition require_slug :: "string \<Rightarrow> (string \<Rightarrow> ('s, 'x, 'a) mop) \<Rightarrow> ('s, 'x, 'a) mop" where
  \<comment> \<open>\<open>slug = strings.TrimSpace(slug); if slug == "" { return ... }\<close>\<close>
  "require_slug slug k =
     (if trim_space slug = '''' then fail (Errorf ''mod slug required'') else k (trim_space slug))"

definition need_store :: "('s, 'x) Manager \<Rightarrow> ('s StoreOps \<Rightarrow> ('s, 'x, 'a) mop) \<Rightarrow> ('s, 'x, 'a) mop" where
  "need_store m k =
     (case m_stateStore m of None \<Rightarrow> fail (Sentinel ErrNotImplemented) | Some so \<Rightarrow> k so)"

definition loader_and_version :: "Instance \<Rightarrow> string \<times> string" where
  \<comment> \<open>\<open>(mcVer, loader)\<close>, empty without a Minecraft config\<close>
  "loader_and_version inst =
     (case Minecraft inst of None \<Rightarrow> ('''', '''') | Some mc \<Rightarrow> (mc_MCVersion mc, mc_Loader mc))"

section \<open>Installing\<close>

record ModLines =
  ml_lines :: "string list"
  ml_at :: "(string \<times> nat) list"
  ml_added :: nat
  ml_touched :: nat

definition index_line :: "GameID \<Rightarrow> string \<Rightarrow> ModLines \<Rightarrow> ModLines" where
  \<comment> \<open>one line of \<open>mods.txt\<close>: blank lines go, the first line of a mod is the one \<open>at\<close> names\<close>
  "index_line g l s =
     (if trim_space l = '''' then s
      else let s' = s\<lparr>ml_lines := ml_lines s @ [l]\<rparr>
           in case ParseModRef l g of
                None \<Rightarrow> s'
              | Some ref \<Rightarrow>
                  (if map_of (ml_at s) (ModRef_Key ref) = None
                   then s'\<lparr>ml_at := AList.update (ModRef_Key ref) (length (ml_lines s)) (ml_at s)\<rparr> else s'))"

definition index_lines :: "GameID \<Rightarrow> string \<Rightarrow> ModLines" where
  "index_lines g cur =
     fold (index_line g) (split_on NL cur) \<lparr>ml_lines = [], ml_at = [], ml_added = 0, ml_touched = 0\<rparr>"

definition pin_version :: "(string \<Rightarrow> goerr + string) option \<Rightarrow> ModRef \<Rightarrow> goerr + ModRef" where
  "pin_version resolver ref =
     (if mr_Version ref \<noteq> '''' then Inr ref
      else case resolver of
             None \<Rightarrow> Inr ref
           | Some f \<Rightarrow>
               (case f (ModRef_FullName ref) of
                  Inl e \<Rightarrow> Inl (Wrap (''cannot install '' @ ModRef_FullName ref @ '': '') e '''')
                | Inr v \<Rightarrow>
                    (if v = '''' then Inl (Errorf (''no mod named '' @ ModRef_FullName ref @ '' exists''))
                     else Inr (ref\<lparr>mr_Version := v\<rparr>))))"

definition install_one ::
    "(string \<Rightarrow> goerr + string) option \<Rightarrow> GameID \<Rightarrow> bool \<Rightarrow> string \<Rightarrow> ModLines \<Rightarrow> goerr + ModLines" where
  \<comment> \<open>one entry of \<open>wanted\<close>; only the first may repin a line\<close>
  "install_one resolver g isfirst w s =
     (case ParseModRef w g of
        None \<Rightarrow> Inr s
      | Some ref \<Rightarrow>
          (case map_of (ml_at s) (ModRef_Key ref) of
             Some idx \<Rightarrow>
               Inr (if isfirst \<and> mr_Version ref \<noteq> '''' \<and> ml_lines s ! idx \<noteq> ModRef_Entry ref
                    then s\<lparr>ml_lines := (ml_lines s)[idx := ModRef_Entry ref], ml_touched := ml_touched s + 1\<rparr>
                    else s)
           | None \<Rightarrow>
               (case pin_version resolver ref of
                  Inl e \<Rightarrow> Inl e
                | Inr ref \<Rightarrow>
                    Inr (s\<lparr>ml_lines := ml_lines s @ [ModRef_Entry ref],
                           ml_at := AList.update (ModRef_Key ref) (length (ml_lines s)) (ml_at s),
                           ml_added := ml_added s + 1, ml_touched := ml_touched s + 1\<rparr>))))"

fun install_all ::
    "(string \<Rightarrow> goerr + string) option \<Rightarrow> GameID \<Rightarrow> bool \<Rightarrow> string list \<Rightarrow> ModLines \<Rightarrow> goerr + ModLines" where
  "install_all resolver g isfirst [] s = Inr s"
| "install_all resolver g isfirst (w # ws) s =
     (case install_one resolver g isfirst w s of
        Inl e \<Rightarrow> Inl e
      | Inr s' \<Rightarrow> install_all resolver g False ws s')"

definition install_text ::
    "(string \<Rightarrow> goerr + string) option \<Rightarrow> GameID \<Rightarrow> string list \<Rightarrow> string \<Rightarrow> goerr + (string option \<times> nat)" where
  \<comment> \<open>the new \<open>mods.txt\<close>, \<open>None\<close> for no change, and the number of entries added\<close>
  "install_text resolver g wanted cur =
     (case install_all resolver g True wanted (index_lines g cur) of
        Inl e \<Rightarrow> Inl e
      | Inr s \<Rightarrow>
          Inr (if ml_touched s = 0 then None else Some (join [NL] (ml_lines s) @ [NL]), ml_added s))"

definition install_edit ::
    "(string \<Rightarrow> goerr + string) option \<Rightarrow> GameID \<Rightarrow> string list \<Rightarrow> Mutate" where
  "install_edit resolver g wanted d =
     (let d = working_doc d
      in case install_text resolver g wanted (data_get d ''mods.txt'') of
           Inl e \<Rightarrow> (Inl e, d)
         | Inr (None, _) \<Rightarrow> (Inr False, d)
         | Inr (Some t, _) \<Rightarrow> (Inr True, data_put ''mods.txt'' t d))"

definition install_entries ::
    "('s, 'x) Manager \<Rightarrow> int \<Rightarrow> string \<Rightarrow> string list \<Rightarrow> string list \<Rightarrow> 's StoreOps \<Rightarrow> ('s, 'x, nat) mop" where
  \<comment> \<open>\<open>InstallMod\<close> once it knows what to install\<close>
  "install_entries m n slug wanted actor so =
     bindo (instanceDir m n) (\<lambda>dir.
     let path = dir @ ''/mods.yaml'';
         msg = gamePrefix m @ '': install '' @ slug @ '' into instance #'' @ pad02 n
     in bindo (doc_text so path ''mods.txt'') (\<lambda>cur.
        bindo (patch_doc so path msg (install_edit (m_versionResolver m) (m_gameID m) wanted)) (\<lambda>changed.
        seqo (whenO changed (RecordAudit m actor (gamePrefix m @ ''-mod-install'')
                (''Installed '' @ slug @ '' into #'' @ pad02 n)))
          (ret (case install_text (m_versionResolver m) (m_gameID m) wanted cur of
                  Inl e \<Rightarrow> 0 | Inr (_, added) \<Rightarrow> added)))))"

definition resolve_deps :: "('s, 'x) Manager \<Rightarrow> string \<Rightarrow> Instance \<Rightarrow> ('s, 'x, string list) mop" where
  \<comment> \<open>what the resolver adds; nothing when it fails\<close>
  "resolve_deps m slug inst =
     (case m_depResolver m of
        None \<Rightarrow> ret []
      | Some f \<Rightarrow>
          (let (mcVer, loader) = loader_and_version inst
           in bindo (attempt (ask (f slug mcVer loader))) (\<lambda>r.
                ret (case r of Inl e \<Rightarrow> [] | Inr deps \<Rightarrow> deps))))"

definition InstallMod :: "('s, 'x) Manager \<Rightarrow> int \<Rightarrow> string \<Rightarrow> string list \<Rightarrow> ('s, 'x, nat) mop" where
  "InstallMod m n slug actor =
     require_slug slug (\<lambda>slug.
     with_instance m n (\<lambda>inst.
       if \<not> CanInstallMods inst then fail (VanillaImmutableErr inst)
       else bindo (resolve_deps m slug inst) (\<lambda>deps.
            need_store m (install_entries m n slug (slug # deps) actor))))"

section \<open>Replacing the list\<close>

definition set_key :: "string \<Rightarrow> string \<Rightarrow> Mutate" where
  \<comment> \<open>\<open>if doc.Data[key] == v { return false, nil }; doc.Data[key] = v\<close>\<close>
  "set_key key v d =
     (let d = working_doc d
      in if data_get d key = v then (Inr False, d) else (Inr True, data_put key v d))"

definition mods_body :: "string list \<Rightarrow> string" where
  "mods_body entries =
     concat (map (\<lambda>e. trim_space e @ [NL]) (filter (\<lambda>e. trim_space e \<noteq> '''') entries))"

definition synced :: "string list \<Rightarrow> string \<Rightarrow> bool" where
  \<comment> \<open>the check handed to the hook after a sync: every entry is a line of the text\<close>
  "synced entries txt = (\<forall>e\<in>set entries. trim_space e \<in> trim_space ` set (split_on NL txt))"

definition sync_hook ::
    "('s, 'x) Manager \<Rightarrow> string \<Rightarrow> string \<Rightarrow> string \<Rightarrow> (string \<Rightarrow> bool) \<Rightarrow> ('s, 'x, unit) mop" where
  "sync_hook m cm dep key want =
     optO (m_afterSyncHook m) (\<lambda>f. hook (CSync cm dep key) (f cm dep key want))"

definition host_reconciles :: "('s, 'x) Manager \<Rightarrow> Instance \<Rightarrow> bool" where
  "host_reconciles m inst \<longleftrightarrow> m_reconciler m \<noteq> None \<and> \<not> IsCluster (EffectiveHost inst)"

definition ReplaceMods ::
    "('s, 'x) Manager \<Rightarrow> int \<Rightarrow> string list \<Rightarrow> string \<Rightarrow> string list \<Rightarrow> ('s, 'x, bool) mop" where
  "ReplaceMods m n entries detail actor =
     with_instance m n (\<lambda>inst.
       if \<not> CanInstallMods inst then fail (VanillaImmutableErr inst)
       else need_store m (\<lambda>so.
         let body = mods_body entries;
             msg = gamePrefix m @ '': update mods on instance #'' @ pad02 n;
             failed = ''converge mods on instance '' @ show_int n @ '': ''
         in bindo (instanceDir m n) (\<lambda>dir.
            bindo (patch_doc so (dir @ ''/mods.yaml'') msg (set_key ''mods.txt'' body)) (\<lambda>changed.
            seqo (whenO (host_reconciles m inst)
                   (bindo (if m_gameID m = GameMinecraft
                           then wrapped (failed @ ''read curseforge mods: '') (GetCurseForgeMods m n) else ret []) (\<lambda>cf.
                      wrapped failed (writeManifestsConverging m inst
                        (empty_modlist\<lparr>ml_Primary := body,
                           ml_CurseForge := (if m_gameID m = GameMinecraft then joinLines cf else '''')\<rparr>)
                        msg (State inst = StateRunning)))))
            (if \<not> changed then ret False
             else seqo (RecordAudit m actor (gamePrefix m @ ''-mod-update'')
                          (''#'' @ pad02 n @ '': '' @
                             (if detail = '''' then ''Updated mods on #'' @ pad02 n else detail)))
               (if host_reconciles m inst then ret True
                else seqo (if m_afterSyncHook m = None then ret ()
                           else bindo (of_outcome (ModsCMName inst (profileFor m inst))) (\<lambda>cm.
                                bindo (serverRef m inst) (\<lambda>ref.
                                  sync_hook m cm (sref_Name ref) ''mods.txt'' (synced entries))))
                       (ret True)))))))"

section \<open>The CurseForge list\<close>

definition index_refs :: "MCModRef list \<Rightarrow> (string \<times> nat) list" where
  \<comment> \<open>the first place of each key\<close>
  "index_refs refs =
     fold (\<lambda>(i, r) at. if map_of at (MCModRef_Key r) = None then AList.update (MCModRef_Key r) i at else at)
       (enumerate 0 refs) []"

fun cf_install :: "string list \<Rightarrow> MCModRef list \<Rightarrow> (string \<times> nat) list \<Rightarrow> nat \<Rightarrow> MCModRef list \<times> nat" where
  "cf_install [] refs at added = (refs, added)"
| "cf_install (line # wanted) refs at added =
     (case ParseMCModRef line ProviderCurseForge of
        None \<Rightarrow> cf_install wanted refs at added
      | Some ref \<Rightarrow>
          (case map_of at (MCModRef_Key ref) of
             Some i \<Rightarrow>
               (if MCModRef_Entry (refs ! i) \<noteq> MCModRef_Entry ref
                then cf_install wanted (refs[i := ref]) at (added + 1)
                else cf_install wanted refs at added)
           | None \<Rightarrow>
               cf_install wanted (refs @ [ref]) (AList.update (MCModRef_Key ref) (length refs) at) (added + 1)))"

definition cf_install_text :: "string list \<Rightarrow> string \<Rightarrow> string option \<times> nat" where
  "cf_install_text wanted cur =
     (let refs = SplitModLines cur ProviderCurseForge;
          (refs', added) = cf_install wanted refs (index_refs refs) 0
      in (if added = 0 then None else Some (JoinModLines refs'), added))"

definition cf_install_edit :: "string list \<Rightarrow> Mutate" where
  "cf_install_edit wanted d =
     (let d = working_doc d
      in case cf_install_text wanted (data_get d ''curseforge.txt'') of
           (None, _) \<Rightarrow> (Inr False, d)
         | (Some t, _) \<Rightarrow> (Inr True, data_put ''curseforge.txt'' t d))"

definition InstallCurseForgeMod :: "('s, 'x) Manager \<Rightarrow> int \<Rightarrow> string \<Rightarrow> string list \<Rightarrow> ('s, 'x, nat) mop" where
  "InstallCurseForgeMod m n slug actor =
     require_slug slug (\<lambda>slug.
     with_instance m n (\<lambda>inst.
       if inst_GameID inst \<noteq> GameMinecraft then fail (Errorf ''CurseForge mods are a Minecraft concept'')
       else if \<not> CanInstallMods inst then fail (VanillaImmutableErr inst)
       else case m_cfResolver m of
              None \<Rightarrow> fail (Errorf ''CurseForge is not configured'')
            | Some f \<Rightarrow>
                need_store m (\<lambda>so.
                let (mcVer, loader) = loader_and_version inst
                in bindo (wrapped (''cannot install '' @ slug @ '': '') (ask (f slug mcVer loader))) (\<lambda>wanted.
                   if wanted = []
                   then fail (Errorf (''no CurseForge mod named '' @ slug @ '' exists for '' @ mcVer @ ''/'' @ loader))
                   else bindo (instanceDir m n) (\<lambda>dir.
                     let path = dir @ ''/mods.yaml'';
                         msg = gamePrefix m @ '': install curseforge '' @ slug @ '' into instance #'' @ pad02 n
                     in bindo (doc_text so path ''curseforge.txt'') (\<lambda>cur.
                        bindo (patch_doc so path msg (cf_install_edit wanted)) (\<lambda>changed.
                        let added = snd (cf_install_text wanted cur)
                        in seqo (whenO changed (RecordAudit m actor (gamePrefix m @ ''-mod-install'')
                                  (''Installed curseforge '' @ slug @ '' into #'' @ pad02 n @ '' (''
                                     @ show_int (int added) @ '' entries)'')))
                             (ret added))))))))"

definition cf_remove_edit :: "string \<Rightarrow> Mutate" where
  \<comment> \<open>drop every entry with the key\<close>
  "cf_remove_edit key d =
     (if Data d = None then (Inr False, d)
      else let refs = SplitModLines (data_get d ''curseforge.txt'') ProviderCurseForge
           in if \<not> list_ex (\<lambda>r. MCModRef_Key r = key) refs then (Inr False, d)
              else (Inr True, data_put ''curseforge.txt'' (JoinModLines (filter (\<lambda>r. MCModRef_Key r \<noteq> key) refs)) d))"

definition RemoveCurseForgeMod :: "('s, 'x) Manager \<Rightarrow> int \<Rightarrow> string \<Rightarrow> string list \<Rightarrow> ('s, 'x, unit) mop" where
  "RemoveCurseForgeMod m n slug actor =
     require_slug slug (\<lambda>slug.
     need_store m (\<lambda>so.
       case ParseMCModRef slug ProviderCurseForge of
         None \<Rightarrow> fail (Errorf ''mod slug required'')
       | Some target \<Rightarrow>
           bindo (instanceDir m n) (\<lambda>dir.
           bindo (patch_doc so (dir @ ''/mods.yaml'')
                    (gamePrefix m @ '': remove curseforge '' @ mcr_Slug target @ '' from instance #'' @ pad02 n)
                    (cf_remove_edit (MCModRef_Key target))) (\<lambda>changed.
             whenO changed (RecordAudit m actor (gamePrefix m @ ''-mod-remove'')
               (''Removed curseforge '' @ mcr_Slug target @ '' from #'' @ pad02 n))))))"

section \<open>Removing\<close>

definition has_key :: "GameID \<Rightarrow> string \<Rightarrow> string \<Rightarrow> bool" where
  \<comment> \<open>the line is an entry of the mod the slug names\<close>
  "has_key g slug l =
     (case (ParseModRef slug g, ParseModRef l g) of
        (Some target, Some ref) \<Rightarrow> ModRef_Key ref = ModRef_Key target
      | _ \<Rightarrow> False)"

definition remove_text :: "GameID \<Rightarrow> string \<Rightarrow> string \<Rightarrow> string option" where
  "remove_text g slug cur =
     (let ls = split_on NL cur
      in if \<not> list_ex (has_key g slug) ls then None
         else Some (join [NL] (filter (\<lambda>l. \<not> has_key g slug l) ls)))"

definition remove_edit :: "GameID \<Rightarrow> string \<Rightarrow> Mutate" where
  "remove_edit g slug d =
     (if Data d = None then (Inr False, d)
      else case remove_text g slug (data_get d ''mods.txt'') of
             None \<Rightarrow> (Inr False, d)
           | Some t \<Rightarrow> (Inr True, data_put ''mods.txt'' t d))"

definition RemoveMod :: "('s, 'x) Manager \<Rightarrow> int \<Rightarrow> string \<Rightarrow> string list \<Rightarrow> ('s, 'x, unit) mop" where
  "RemoveMod m n slug actor =
     require_slug slug (\<lambda>slug.
     need_store m (\<lambda>so.
     bindo (instanceDir m n) (\<lambda>dir.
     bindo (patch_doc so (dir @ ''/mods.yaml'')
              (gamePrefix m @ '': remove '' @ slug @ '' from instance #'' @ pad02 n)
              (remove_edit (m_gameID m) slug)) (\<lambda>changed.
       whenO changed (RecordAudit m actor (gamePrefix m @ ''-mod-remove'')
         (''Removed '' @ slug @ '' from #'' @ pad02 n))))))"

section \<open>Config files of a world\<close>

definition from_cluster ::
    "('s, 'x) Manager \<Rightarrow> int \<Rightarrow> (Files \<Rightarrow> ('s, 'x, 'a) mop) \<Rightarrow> ('s, 'x, 'a) mop \<Rightarrow> ('s, 'x, 'a) mop" where
  \<comment> \<open>\<open>if m.configsReader != nil && m.readsFromCluster(n) { data, err := m.configsReader(n) ... }\<close>\<close>
  "from_cluster m n k other =
     (case m_configsReader m of
        None \<Rightarrow> other
      | Some f \<Rightarrow> bindo (readsFromCluster m n) (\<lambda>c. if c then bindo (ask (f n)) k else other))"

definition data_at :: "'s StoreOps \<Rightarrow> string \<Rightarrow> ('s, 'x, Files) mop" where
  \<comment> \<open>the data of a document; none for a missing one\<close>
  "data_at so path =
     bindo (store_get so path) (\<lambda>r.
       case r of
         Inl e \<Rightarrow> (if errors_is e ErrNotExist then ret [] else fail e)
       | Inr doc \<Rightarrow> ret (case Data doc of None \<Rightarrow> [] | Some d \<Rightarrow> d))"

definition file_names :: "Files \<Rightarrow> string list" where
  "file_names d = sort (remdups (map fst d))"

definition ListConfigs :: "('s, 'x) Manager \<Rightarrow> int \<Rightarrow> ('s, 'x, string list) mop" where
  "ListConfigs m n =
     from_cluster m n (\<lambda>d. ret (file_names d))
       (case m_stateStore m of
          None \<Rightarrow> ret []
        | Some so \<Rightarrow> bindo (instanceDir m n) (\<lambda>dir.
            bindo (data_at so (dir @ ''/configs.yaml'')) (\<lambda>d. ret (file_names d))))"

definition configDataAt :: "'s StoreOps \<Rightarrow> string \<Rightarrow> ('s, 'x, Files) mop" where
  "configDataAt so path = data_at so path"

definition ListConfigData :: "('s, 'x) Manager \<Rightarrow> int \<Rightarrow> ('s, 'x, Files) mop" where
  "ListConfigData m n =
     from_cluster m n ret
       (case m_stateStore m of
          None \<Rightarrow> ret []
        | Some so \<Rightarrow> bindo (instanceDir m n) (\<lambda>dir. configDataAt so (dir @ ''/configs.yaml'')))"

definition ListConfigDataFor :: "('s, 'x) Manager \<Rightarrow> Instance \<Rightarrow> ('s, 'x, Files) mop" where
  "ListConfigDataFor m inst =
     (case (m_configsReader m, IsCluster (EffectiveHost inst)) of
        (Some f, True) \<Rightarrow> ask (f (Number inst))
      | _ \<Rightarrow>
          (case m_stateStore m of
             None \<Rightarrow> ret []
           | Some so \<Rightarrow>
               (let own = instanceDirFor m inst @ ''/configs.yaml'';
                    fallback = m_instancesRelPath m @ ''/'' @ InstanceDirName (Number inst) @ ''/configs.yaml''
                in bindo (attempt (configDataAt so own)) (\<lambda>r.
                   case r of
                     Inr (d # ds) \<Rightarrow> ret (d # ds)
                   | _ \<Rightarrow>
                       (if fallback = own then of_sum r
                        else bindo (attempt (configDataAt so fallback)) (\<lambda>fb.
                          case fb of Inr (d # ds) \<Rightarrow> ret (d # ds) | _ \<Rightarrow> of_sum r))))))"

definition GetConfig :: "('s, 'x) Manager \<Rightarrow> int \<Rightarrow> string \<Rightarrow> ('s, 'x, string) mop" where
  "GetConfig m n filename =
     from_cluster m n (\<lambda>d. ret (mget d filename ''''))
       (need_store m (\<lambda>so. bindo (instanceDir m n) (\<lambda>dir.
          bindo (data_at so (dir @ ''/configs.yaml'')) (\<lambda>d. ret (mget d filename '''')))))"

definition remove_key :: "string \<Rightarrow> Mutate" where
  "remove_key key d =
     (case Data d of
        None \<Rightarrow> (Inr False, d)
      | Some m \<Rightarrow> (if map_of m key = None then (Inr False, d) else (Inr True, d\<lparr>Data := Some (AList.delete key m)\<rparr>)))"

definition SaveConfig :: "('s, 'x) Manager \<Rightarrow> int \<Rightarrow> string \<Rightarrow> string \<Rightarrow> string list \<Rightarrow> ('s, 'x, bool) mop" where
  "SaveConfig m n filename content actor =
     need_store m (\<lambda>so.
     bindo (instanceDir m n) (\<lambda>dir.
     bindo (patch_doc so (dir @ ''/configs.yaml'')
              (''agrelha: edit config '' @ filename @ '' for instance #'' @ pad02 n) (set_key filename content)) (\<lambda>changed.
     seqo (whenO changed (RecordAudit m actor (gamePrefix m @ ''-config-edit'')
             (''Saved '' @ filename @ '' on #'' @ pad02 n)))
       (ret changed))))"

definition DeleteConfig :: "('s, 'x) Manager \<Rightarrow> int \<Rightarrow> string \<Rightarrow> string list \<Rightarrow> ('s, 'x, bool) mop" where
  "DeleteConfig m n filename actor =
     need_store m (\<lambda>so.
     bindo (instanceDir m n) (\<lambda>dir.
     bindo (patch_doc so (dir @ ''/configs.yaml'')
              (''agrelha: delete config '' @ filename @ '' for instance #'' @ pad02 n) (remove_key filename)) (\<lambda>changed.
     seqo (whenO changed (RecordAudit m actor (gamePrefix m @ ''-config-delete'')
             (''Deleted '' @ filename @ '' on #'' @ pad02 n)))
       (ret changed))))"

section \<open>Config files of a game\<close>

definition ListGlobalConfigs :: "('s, 'x) Manager \<Rightarrow> ('s, 'x, string list) mop" where
  "ListGlobalConfigs m =
     (case m_globalConfigsReader m of
        Some f \<Rightarrow> bindo (ask f) (\<lambda>d. ret (file_names d))
      | None \<Rightarrow>
          (case m_stateStore m of
             None \<Rightarrow> ret []
           | Some so \<Rightarrow> bindo (data_at so (m_globalConfigsPath m)) (\<lambda>d. ret (file_names d))))"

definition GetGlobalConfig :: "('s, 'x) Manager \<Rightarrow> string \<Rightarrow> ('s, 'x, string) mop" where
  "GetGlobalConfig m filename =
     (case m_globalConfigsReader m of
        Some f \<Rightarrow> bindo (ask f) (\<lambda>d. ret (mget d filename ''''))
      | None \<Rightarrow> need_store m (\<lambda>so. bindo (data_at so (m_globalConfigsPath m)) (\<lambda>d. ret (mget d filename ''''))))"

definition SaveGlobalConfig :: "('s, 'x) Manager \<Rightarrow> string \<Rightarrow> string \<Rightarrow> string list \<Rightarrow> ('s, 'x, bool) mop" where
  "SaveGlobalConfig m filename content actor =
     need_store m (\<lambda>so.
     bindo (patch_doc so (m_globalConfigsPath m) (''agrelha: edit minecraft config '' @ filename)
              (set_key filename content)) (\<lambda>changed.
     seqo (whenO changed (RecordAudit m actor ''mc-config-edit'' filename))
     (seqo (whenO changed (sync_hook m ''minecraft-neoforge-configs'' '''' filename (\<lambda>v. v = content)))
       (ret changed))))"

definition DeleteGlobalConfig :: "('s, 'x) Manager \<Rightarrow> string \<Rightarrow> string list \<Rightarrow> ('s, 'x, bool) mop" where
  "DeleteGlobalConfig m filename actor =
     need_store m (\<lambda>so.
     bindo (patch_doc so (m_globalConfigsPath m) (''agrelha: delete minecraft config '' @ filename)
              (remove_key filename)) (\<lambda>changed.
     seqo (whenO changed (RecordAudit m actor ''mc-config-delete'' filename))
     (seqo (whenO changed (sync_hook m ''minecraft-neoforge-configs'' '''' filename (\<lambda>v. v = '''')))
       (ret changed))))"

end
