(* ===== verification/ManagerModsProofs.thy ===== *)
theory ManagerModsProofs
  imports ManagerMods LifecycleProofs
begin

text \<open>
  The edits of a world's mods and configs: what an install writes and counts, what a removal takes
  out, and that configs read back what was saved. The patch functions are clients of the
  contract \<open>state_store\<close>.
\<close>

section \<open>Installing adds exactly what is missing\<close>

definition ref_keys :: "GameID \<Rightarrow> string list \<Rightarrow> string set" where
  \<comment> \<open>the mods that lines or requested entries name\<close>
  "ref_keys g ls = {ModRef_Key r |l r. l \<in> set ls \<and> ParseModRef l g = Some r}"

definition mod_lines :: "string \<Rightarrow> string list" where
  "mod_lines cur = filter (\<lambda>l. trim_space l \<noteq> '''') (split_on NL cur)"

lemma ref_keys_simps [simp]:
  "ref_keys g [] = {}"
  "ref_keys g (l # ls) = (case ParseModRef l g of None \<Rightarrow> {} | Some r \<Rightarrow> {ModRef_Key r}) \<union> ref_keys g ls"
  by (auto simp: ref_keys_def split: option.split)

lemma ref_keys_append [simp]: "ref_keys g (ls @ ls') = ref_keys g ls \<union> ref_keys g ls'"
  by (auto simp: ref_keys_def)

definition indexed :: "GameID \<Rightarrow> ModLines \<Rightarrow> bool" where
  \<comment> \<open>\<open>at\<close> names every mod of the lines, each at a line of its own\<close>
  "indexed g s \<longleftrightarrow> dom (map_of (ml_at s)) = ref_keys g (ml_lines s) \<and>
     (\<forall>k i. map_of (ml_at s) k = Some i \<longrightarrow> i < length (ml_lines s) \<and>
        (\<exists>r. ParseModRef (ml_lines s ! i) g = Some r \<and> ModRef_Key r = k))"

lemma indexed_step:
  assumes "indexed g s"
  shows "indexed g (index_line g l s)"
    and "ml_lines (index_line g l s) = ml_lines s @ (if trim_space l = '''' then [] else [l])"
    and "ml_added (index_line g l s) = ml_added s" "ml_touched (index_line g l s) = ml_touched s"
proof -
  show "ml_lines (index_line g l s) = ml_lines s @ (if trim_space l = '''' then [] else [l])"
    "ml_added (index_line g l s) = ml_added s" "ml_touched (index_line g l s) = ml_touched s"
    by (auto simp: index_line_def Let_def split: option.split)
  show "indexed g (index_line g l s)"
  proof (cases "trim_space l = ''''")
    case True
    then show ?thesis using assms by (simp add: index_line_def)
  next
    case False
    then show ?thesis
      using assms unfolding indexed_def index_line_def Let_def
      by (auto simp: nth_append update_conv' dest: less_SucI split: option.splits if_splits)
  qed
qed

lemma indexed_lines:
  "indexed g (index_lines g cur) \<and> ml_lines (index_lines g cur) = mod_lines cur \<and>
   ml_added (index_lines g cur) = 0 \<and> ml_touched (index_lines g cur) = 0"
proof -
  have run: "indexed g s \<Longrightarrow> indexed g (fold (index_line g) ls s) \<and>
      ml_lines (fold (index_line g) ls s) = ml_lines s @ filter (\<lambda>l. trim_space l \<noteq> '''') ls \<and>
      ml_added (fold (index_line g) ls s) = ml_added s \<and> ml_touched (fold (index_line g) ls s) = ml_touched s" for ls s
    by (induction ls arbitrary: s) (simp_all add: indexed_step)
  have "indexed g \<lparr>ml_lines = [], ml_at = [], ml_added = 0, ml_touched = 0\<rparr>" by (simp add: indexed_def)
  from run [OF this, of "split_on NL cur"] show ?thesis by (simp add: index_lines_def mod_lines_def)
qed

lemma pin_version_keeps:
  assumes "pin_version resolver ref = Inr ref'"
  shows "ModRef_Key ref' = ModRef_Key ref" and "resolver \<noteq> None \<Longrightarrow> mr_Version ref' \<noteq> ''''"
  using assms by (auto simp: pin_version_def ModRef_Key_def split: if_splits option.splits sum.splits)

lemma install_rest:
  assumes "install_all resolver g False ws s = Inr s'"
  shows "\<exists>new. ml_lines s' = ml_lines s @ map ModRef_Entry new \<and> ml_added s' = ml_added s + length new \<and>
    ml_touched s' = ml_touched s + length new \<and> distinct (map ModRef_Key new) \<and>
    set (map ModRef_Key new) = ref_keys g ws - dom (map_of (ml_at s)) \<and>
    (\<forall>r\<in>set new. resolver \<noteq> None \<longrightarrow> mr_Version r \<noteq> '''')"
  using assms
proof (induction ws arbitrary: s)
  case Nil
  then show ?case by (intro exI [of _ "[]"]) simp
next
  case (Cons w ws)
  from Cons.prems obtain s1 where s1: "install_one resolver g False w s = Inr s1" "install_all resolver g False ws s1 = Inr s'"
    by (auto split: sum.splits)
  from Cons.IH [OF s1(2)] obtain new where new: "ml_lines s' = ml_lines s1 @ map ModRef_Entry new"
    "ml_added s' = ml_added s1 + length new" "ml_touched s' = ml_touched s1 + length new" "distinct (map ModRef_Key new)"
    "set (map ModRef_Key new) = ref_keys g ws - dom (map_of (ml_at s1))" "\<forall>r\<in>set new. resolver \<noteq> None \<longrightarrow> mr_Version r \<noteq> ''''"
    by blast
  show ?case
  proof (cases "\<exists>ref. ParseModRef w g = Some ref \<and> map_of (ml_at s) (ModRef_Key ref) = None")
    case False
    then have "s1 = s" "ref_keys g [w] \<subseteq> dom (map_of (ml_at s))"
      using s1(1) by (auto simp: install_one_def split: option.splits)
    then show ?thesis using new by (intro exI [of _ new]) auto
  next
    case True
    then obtain ref ref' where ref: "ParseModRef w g = Some ref" "map_of (ml_at s) (ModRef_Key ref) = None"
      "pin_version resolver ref = Inr ref'"
      using s1(1) by (auto simp: install_one_def split: sum.splits)
    note key = pin_version_keeps [OF ref(3)]
    have "s1 = s\<lparr>ml_lines := ml_lines s @ [ModRef_Entry ref'],
        ml_at := AList.update (ModRef_Key ref') (length (ml_lines s)) (ml_at s),
        ml_added := ml_added s + 1, ml_touched := ml_touched s + 1\<rparr>"
      using s1(1) ref by (simp add: install_one_def)
    then show ?thesis
      using new key ref by (intro exI [of _ "ref' # new"]) (auto simp: update_conv')
  qed
qed

definition repinned :: "GameID \<Rightarrow> string \<Rightarrow> string list \<Rightarrow> string list \<Rightarrow> bool" where
  \<comment> \<open>the lines with the line of the mod \<open>w\<close> names moved to the version \<open>w\<close> asks for\<close>
  "repinned g w ls ls' \<longleftrightarrow>
     (\<exists>i r old. i < length ls \<and> ParseModRef w g = Some r \<and> mr_Version r \<noteq> '''' \<and> ParseModRef (ls ! i) g = Some old \<and>
        ModRef_Key old = ModRef_Key r \<and> ls ! i \<noteq> ModRef_Entry r \<and> ls' = ls[i := ModRef_Entry r])"

lemma install_text_exact:
  assumes "install_text resolver g (w # deps) cur = Inr (t, added)"
  shows "\<exists>kept new. (kept = mod_lines cur \<or> repinned g w (mod_lines cur) kept) \<and>
    t = (if kept = mod_lines cur \<and> new = [] then None else Some (join [NL] (kept @ map ModRef_Entry new) @ [NL])) \<and>
    added = length new \<and> distinct (map ModRef_Key new) \<and>
    set (map ModRef_Key new) = ref_keys g (w # deps) - ref_keys g (mod_lines cur) \<and>
    (\<forall>r\<in>set new. resolver \<noteq> None \<longrightarrow> mr_Version r \<noteq> '''')"
proof -
  define s where "s = index_lines g cur"
  have s: "indexed g s" "ml_lines s = mod_lines cur" "ml_added s = 0" "ml_touched s = 0"
    using indexed_lines [of g cur] by (simp_all add: s_def)
  then have at: "dom (map_of (ml_at s)) = ref_keys g (mod_lines cur)" by (simp add: indexed_def)
  from assms obtain s' where s': "install_all resolver g True (w # deps) s = Inr s'"
    "t = (if ml_touched s' = 0 then None else Some (join [NL] (ml_lines s') @ [NL]))" "added = ml_added s'"
    by (auto simp: install_text_def s_def [symmetric] split: sum.splits)
  show ?thesis
  proof (cases "\<exists>r i. ParseModRef w g = Some r \<and> map_of (ml_at s) (ModRef_Key r) = Some i \<and> mr_Version r \<noteq> '''' \<and>
      ml_lines s ! i \<noteq> ModRef_Entry r")
    case False
    then have "install_one resolver g True w s = install_one resolver g False w s"
      by (auto simp: install_one_def split: option.split)
    then have "install_all resolver g False (w # deps) s = Inr s'" using s'(1) by simp
    from install_rest [OF this] obtain new where new: "ml_lines s' = mod_lines cur @ map ModRef_Entry new"
      "ml_added s' = length new" "ml_touched s' = length new" "distinct (map ModRef_Key new)"
      "set (map ModRef_Key new) = ref_keys g (w # deps) - ref_keys g (mod_lines cur)"
      "\<forall>r\<in>set new. resolver \<noteq> None \<longrightarrow> mr_Version r \<noteq> ''''"
      using s at by auto
    show ?thesis
      by (rule exI [of _ "mod_lines cur"], rule exI [of _ new]) (use new s'(2,3) in auto)
  next
    case True
    then obtain r i where r: "ParseModRef w g = Some r" "map_of (ml_at s) (ModRef_Key r) = Some i" "mr_Version r \<noteq> ''''"
      "ml_lines s ! i \<noteq> ModRef_Entry r" by blast
    then obtain old where old: "i < length (mod_lines cur)" "ParseModRef (mod_lines cur ! i) g = Some old"
      "ModRef_Key old = ModRef_Key r"
      using s(1,2) unfolding indexed_def by metis
    let ?kept = "(mod_lines cur)[i := ModRef_Entry r]"
    have "install_all resolver g False deps (s\<lparr>ml_lines := ?kept, ml_touched := 1\<rparr>) = Inr s'"
      using s'(1) r s by (simp add: install_one_def)
    from install_rest [OF this] obtain new where new: "ml_lines s' = ?kept @ map ModRef_Entry new"
      "ml_added s' = length new" "ml_touched s' = 1 + length new" "distinct (map ModRef_Key new)"
      "set (map ModRef_Key new) = ref_keys g deps - ref_keys g (mod_lines cur)"
      "\<forall>r\<in>set new. resolver \<noteq> None \<longrightarrow> mr_Version r \<noteq> ''''"
      using s at by auto
    have "ModRef_Key r \<in> ref_keys g (mod_lines cur)" using r(2) at by blast
    then have keys: "set (map ModRef_Key new) = ref_keys g (w # deps) - ref_keys g (mod_lines cur)"
      using new(5) r(1) by auto
    have "repinned g w (mod_lines cur) ?kept" "?kept \<noteq> mod_lines cur"
      using r old s(2) by (auto simp: repinned_def) (metis nth_list_update_eq)
    then show ?thesis
      by (intro exI [of _ ?kept] exI [of _ new] conjI disjI2) (use new keys s'(2,3) in simp_all)
  qed
qed

section \<open>Patches through the contract of the store\<close>

context state_store
begin

text \<open>A mutation of one text that can also refuse.\<close>

lemma patch_text:
  assumes f: "\<And>d. f d = (case edit (data_get d key) of
      Inl e \<Rightarrow> (Inl e, g d) | Inr None \<Rightarrow> (Inr False, g d) | Inr (Some t) \<Rightarrow> (Inr True, data_put key t d))"
    and p: "patch p f s = (Inr c, s')"
  obtains x where "edit (text_of s p key) = Inr x" "c = (x \<noteq> None)"
    "text_of s' p key = (case x of None \<Rightarrow> text_of s p key | Some t \<Rightarrow> t)"
    "\<And>k. k \<noteq> key \<Longrightarrow> text_of s' p k = text_of s p k"
    "\<And>q k. q \<noteq> p \<Longrightarrow> text_of s' q k = text_of s q k"
proof -
  have other: "text_of s' q k = text_of s q k" if "q \<noteq> p" for q k
    using patch_other [OF p that] by (simp add: text_of_def)
  define d where "d = (case get s p of Inl e \<Rightarrow> empty_doc | Inr d \<Rightarrow> d)"
  have d: "data_get d k = text_of s p k" for k
    by (simp add: d_def text_of_def split: sum.split)
  have run: "fst (f (working_doc d)) = Inr c" "c \<longrightarrow> get s' p = Inr (snd (f (working_doc d)))"
    using patch_found [OF p] patch_absent [OF p] by (auto simp: d_def split: sum.splits)
  from run(1) obtain x where x: "edit (text_of s p key) = Inr x" "c = (x \<noteq> None)"
    by (auto simp: f d split: sum.splits option.splits)
  show thesis
  proof (cases x)
    case None
    then have "get s' p = get s p" using x(2) patch_quiet [OF p] by blast
    then show ?thesis by (intro that [of x]) (use x None other in \<open>simp_all add: text_of_def\<close>)
  next
    case (Some t)
    then have "get s' p = Inr (data_put key t (working_doc d))" using run(2) x by (simp add: f d)
    then have "text_of s' p k = (if k = key then t else text_of s p k)" for k
      by (simp add: text_of_def [of s'] d)
    then show ?thesis by (intro that [of x]) (use x Some other in simp_all)
  qed
qed

end

lemma data_put_working [simp]: "data_put k v (working_doc d) = data_put k v d"
  by (simp add: data_put_def working_doc_def split: option.split)

lemma install_edit_run:
  "install_edit resolver g wanted d = (case map_sum id fst (install_text resolver g wanted (data_get d ''mods.txt'')) of
      Inl e \<Rightarrow> (Inl e, working_doc d) | Inr None \<Rightarrow> (Inr False, working_doc d) | Inr (Some t) \<Rightarrow> (Inr True, data_put ''mods.txt'' t d))"
  by (simp add: install_edit_def Let_def split: sum.split option.split prod.split)

lemma set_key_run:
  "set_key key v d = (case (if data_get d key = v then Inr None else Inr (Some v)) of
      Inl e \<Rightarrow> (Inl e, working_doc d) | Inr None \<Rightarrow> (Inr False, working_doc d) | Inr (Some t) \<Rightarrow> (Inr True, data_put key t d))"
  by (simp add: set_key_def Let_def)

definition keeps_contract :: "'s StoreOps \<Rightarrow> bool" where
  \<comment> \<open>the store honours the contract of its port, whatever the message\<close>
  "keeps_contract so \<longleftrightarrow> (\<forall>msg. state_store (so_Get so) (\<lambda>p. so_Patch so p msg))"

abbreviation stored :: "'s StoreOps \<Rightarrow> ('s, 'x) World \<Rightarrow> string \<Rightarrow> string \<Rightarrow> string" where
  "stored so w \<equiv> state_store.text_of (so_Get so) (w_store w)"

lemma patch_doc_run:
  assumes "patch_doc so path msg f w = (Ok c, w')"
  obtains s' where "so_Patch so path msg f (w_store w) = (Inr c, s')" "w' = w\<lparr>w_store := s'\<rparr>"
  using assms by (auto simp: patch_doc_def on_store_def zoom_def of_step_def split: prod.splits sum.splits)

lemma doc_text_run: "doc_text so path key w = (Ok (stored so w path key), w)"
  if "keeps_contract so"
proof -
  have "state_store (so_Get so) (\<lambda>p. so_Patch so p '''')" using that by (simp add: keeps_contract_def)
  then show ?thesis
    by (simp add: doc_text_def store_get_def gets_def bindo_def ret_def state_store.text_of_def split: sum.split)
qed

lemma edits_frames [frames]:
  "keeps same_db (patch_doc so path msg f)" "keeps (only_calls P) (patch_doc so path msg f)"
  "keeps same_db (doc_text so path key)" "keeps same_store (doc_text so path key)"
  "keeps same_store (instanceDir m n)" "keeps same_store (readsFromCluster m n)"
  by (auto simp: patch_doc_def doc_text_def store_get_def instanceDir_def readsFromCluster_def intro!: frames)

lemma gets_seqo_run:
  "require_slug slug k w = (Ok x, w') \<longleftrightarrow> trim_space slug \<noteq> '''' \<and> k (trim_space slug) w = (Ok x, w')"
  "need_store m j w = (Ok y, w') \<longleftrightarrow> (\<exists>so. m_stateStore m = Some so \<and> j so w = (Ok y, w'))"
  by (auto simp: require_slug_def need_store_def fail_def split: option.split)

lemma with_instance_run:
  assumes "with_instance m n k w = (Ok y, w')"
  obtains inst w1 where "w_store w1 = w_store w" "k inst w1 = (Ok y, w')" "GetInstance m n w = (Ok (Some inst), w1)"
  using assms unfolding with_instance_def
  by (elim bindo_cases)
    (auto simp: fail_def same_store_def dest: keepsD [OF listing_frames(3)] split: option.splits)

lemma whenO_record_store: "keeps same_store (whenO b (RecordAudit m actor x y))"
  by (intro fr_store.r_whenO record_frames)

lemma install_entries_run:
  assumes "keeps_contract so" and "install_entries m n slug wanted actor so w = (Ok added, w')"
  obtains path x where
    "install_text (m_versionResolver m) (m_gameID m) wanted (stored so w path ''mods.txt'') = Inr (x, added)"
    "stored so w' path ''mods.txt'' = (case x of None \<Rightarrow> stored so w path ''mods.txt'' | Some t \<Rightarrow> t)"
    "\<And>q k. (q, k) \<noteq> (path, ''mods.txt'') \<Longrightarrow> stored so w' q k = stored so w q k"
proof -
  note ss = assms(1) [unfolded keeps_contract_def, rule_format]
  let ?text = "install_text (m_versionResolver m) (m_gameID m) wanted"
  let ?msg = "gamePrefix m @ '': install '' @ slug @ '' into instance #'' @ pad02 n"
  let ?edit = "install_edit (m_versionResolver m) (m_gameID m) wanted"
  from assms(2) obtain dir w1 where w1: "w_store w1 = w_store w"
    and run: "bindo (patch_doc so (dir @ ''/mods.yaml'') ?msg ?edit) (\<lambda>changed.
        seqo (whenO changed (RecordAudit m actor (gamePrefix m @ ''-mod-install'')
                (''Installed '' @ slug @ '' into #'' @ pad02 n)))
          (ret (case ?text (stored so w1 (dir @ ''/mods.yaml'') ''mods.txt'') of
                  Inl e \<Rightarrow> 0 | Inr (_, added) \<Rightarrow> added))) w1 = (Ok added, w')"
    unfolding install_entries_def
    by (elim bindo_skip [OF _ edits_frames(5)])
      (auto simp: Let_def bindo_def [of "doc_text _ _ _"] doc_text_run [OF assms(1)] same_store_def)
  let ?path = "dir @ ''/mods.yaml''"
  from run obtain c w2 where patch: "patch_doc so ?path ?msg ?edit w1 = (Ok c, w2)"
    and fin: "w_store w' = w_store w2"
      "added = (case ?text (stored so w1 ?path ''mods.txt'') of Inl e \<Rightarrow> 0 | Inr (_, added) \<Rightarrow> added)"
    by (elim bindo_cases seqo_cases) (auto simp: ret_def same_store_def dest!: keepsD [OF whenO_record_store])
  from patch obtain s' where s': "so_Patch so ?path ?msg ?edit (w_store w) = (Inr c, s')" "w_store w' = s'"
    using w1 fin(1) by (elim patch_doc_run) simp
  show thesis
  proof (rule state_store.patch_text [OF ss install_edit_run s'(1)])
    fix x
    assume x: "map_sum id fst (?text (stored so w ?path ''mods.txt'')) = Inr x"
      and new: "state_store.text_of (so_Get so) s' ?path ''mods.txt'' = (case x of None \<Rightarrow> stored so w ?path ''mods.txt'' | Some t \<Rightarrow> t)"
      and others: "\<And>k. k \<noteq> ''mods.txt'' \<Longrightarrow> state_store.text_of (so_Get so) s' ?path k = stored so w ?path k"
        "\<And>q k. q \<noteq> ?path \<Longrightarrow> state_store.text_of (so_Get so) s' q k = stored so w q k"
    from x obtain k where k: "?text (stored so w ?path ''mods.txt'') = Inr (x, k)"
      by (cases "?text (stored so w ?path ''mods.txt'')") auto
    show thesis
    proof (rule that [of ?path x])
      fix q and k :: string
      assume "(q, k) \<noteq> (?path, ''mods.txt'')"
      then show "stored so w' q k = stored so w q k" using others s'(2) by (cases "q = ?path") auto
    qed (use k new fin(2) w1 s'(2) in auto)
  qed
qed



lemma memory_contract: "keeps_contract mem_ops"
  using mem.state_store_axioms by (simp add: keeps_contract_def mem_ops_def)

lemma sample_dir:
  assumes "db_ok d" and "instance_at ValheimProfile d 2 = Some (saved_sample\<lparr>CreatedAt := 50, LastUsed := 50\<rparr>)"
  shows "instanceDir (sample_manager None) 2 (sample_world d) = (Ok ''manifests/valheim/instance-02'', sample_world d)"
proof -
  have "Repo_Get (Some ValheimProfile) sql_up 2 d = (Ok (Some (saved_sample\<lparr>CreatedAt := 50, LastUsed := 50\<rparr>)), d)"
    using Repo_Get_spec [OF _ assms(1), of ValheimProfile sql_up 2] assms(2) by simp
  moreover have "instanceDirFor (sample_manager None) (saved_sample\<lparr>CreatedAt := 50, LastUsed := 50\<rparr>) =
      ''manifests/valheim/instance-02''"
    by code_simp
  ultimately show ?thesis
    by (simp add: instanceDir_def repo_Get_def on_db_def zoom_def bindo_def attempt_def ret_def)
qed

lemma sample_store [simp]: "m_stateStore (sample_manager rt) = Some mem_ops" "m_depResolver (sample_manager rt) = None"
  "m_versionResolver (sample_manager rt) = None" "m_configsReader (sample_manager rt) = None"
  by (simp_all add: sample_manager_def)

lemma install_edit_Some:
  "install_text resolver g wanted (data_get d ''mods.txt'') = Inr (Some t, k) \<Longrightarrow>
   install_edit resolver g wanted (working_doc d) = (Inr True, data_put ''mods.txt'' t d)"
  by (simp add: install_edit_def Let_def)

lemma sample_install:
  assumes "db_ok d" and "instance_at ValheimProfile d 2 = Some (saved_sample\<lparr>CreatedAt := 50, LastUsed := 50\<rparr>)"
  shows "\<exists>w'. InstallMod (sample_manager None) 2 ''denikson-BepInExPack_Valheim'' [''ada''] (sample_world d) = (Ok 1, w')"
proof -
  let ?i = "saved_sample\<lparr>CreatedAt := 50, LastUsed := 50\<rparr>"
  have slug: "trim_space ''denikson-BepInExPack_Valheim'' = ''denikson-BepInExPack_Valheim''" by code_simp
  have can: "CanInstallMods ?i" by code_simp
  have inst: "install_text None GameValheim [''denikson-BepInExPack_Valheim''] '''' =
      Inr (Some (''denikson-BepInExPack_Valheim'' @ [NL]), 1)"
    by code_simp
  let ?path = "''manifests/valheim/instance-02/mods.yaml''"
  have cur: "stored mem_ops (sample_world d) ?path ''mods.txt'' = ''''"
    by (simp add: mem_ops_def) (simp add: mem.text_of_def sample_world_def Store_Get_def Store_Put_def Store_New_def
      raw_doc_def data_get_def)
  have edit: "install_edit None GameValheim [''denikson-BepInExPack_Valheim''] (working_doc (raw_doc ''mods'')) =
      (Inr True, data_put ''mods.txt'' (''denikson-BepInExPack_Valheim'' @ [NL]) (raw_doc ''mods''))"
    using install_edit_Some [of None GameValheim "[''denikson-BepInExPack_Valheim'']" "raw_doc ''mods''"] inst
    by (simp add: raw_doc_def data_get_def)
  obtain s' where "so_Patch mem_ops ?path msg (install_edit None GameValheim [''denikson-BepInExPack_Valheim''])
      (w_store (sample_world d)) = (Inr True, s')" for msg
    using edit by (auto simp: mem_ops_def sample_world_def Store_Patch_def Store_Put_def Store_New_def Let_def
      working_doc_def)
  then have "patch_doc mem_ops ?path msg (install_edit None GameValheim [''denikson-BepInExPack_Valheim'']) (sample_world d) =
      (Ok True, (sample_world d)\<lparr>w_store := s'\<rparr>)" for msg
    by (simp add: patch_doc_def on_store_def zoom_def of_step_def)
  then have "\<exists>w'. install_entries (sample_manager None) 2 ''denikson-BepInExPack_Valheim'' [''denikson-BepInExPack_Valheim'']
      [''ada''] mem_ops (sample_world d) = (Ok 1, w')"
    using cur inst by (simp add: install_entries_def bindo_def sample_dir [OF assms] Let_def doc_text_run [OF memory_contract]
      seqo_def ret_def whenO_def RecordAudit_def modify_def)
  then show ?thesis
    using sample_get [OF assms] can
    by (simp add: InstallMod_def require_slug_def slug with_instance_def bindo_def resolve_deps_def ret_def need_store_def)
qed



section \<open>Configs read back what was saved\<close>

lemma instanceDir_run:
  assumes "instanceDir m n w = (r, w1)" and "w_db w' = w_db w"
  shows "w1 = w" and "instanceDir m n w' = (r, w')"
proof -
  have same: "snd (instanceDir m n v) = v" for v
    using readers_same(2) [of m n] unfolding keeps_def by (metis surjective_pairing)
  then show "w1 = w" using assms(1) by (metis snd_conv)
  have "fst (instanceDir m n w') = fst (instanceDir m n w)"
    by (simp add: instanceDir_def repo_Get_def on_db_def zoom_def attempt_def bindo_def ret_def assms(2)
      split: prod.split res.split)
  then show "instanceDir m n w' = (r, w')" using same [of w'] assms(1) by (metis fst_conv prod.collapse)
qed

context state_store
begin

lemma patch_at:
  assumes "patch p f s = (Inr c, s')"
  obtains d where "\<And>k. data_get d k = text_of s p k" "fst (f (working_doc d)) = Inr c"
    "\<And>k. text_of s' p k = (if c then data_get (snd (f (working_doc d))) k else text_of s p k)"
    "\<And>q k. q \<noteq> p \<Longrightarrow> text_of s' q k = text_of s q k"
proof
  let ?d = "case get s p of Inl e \<Rightarrow> empty_doc | Inr d \<Rightarrow> d"
  show "data_get ?d k = text_of s p k" for k by (simp add: text_of_def split: sum.split)
  show "fst (f (working_doc ?d)) = Inr c"
    using patch_found [OF assms] patch_absent [OF assms] by (auto split: sum.split)
  show "text_of s' p k = (if c then data_get (snd (f (working_doc ?d))) k else text_of s p k)" for k
    using patch_found [OF assms] patch_absent [OF assms] patch_quiet [OF assms] by (auto simp: text_of_def split: sum.split)
  show "text_of s' q k = text_of s q k" if "q \<noteq> p" for q k
    using patch_other [OF assms that] by (simp add: text_of_def)
qed

end

lemma remove_key_run:
  "fst (remove_key key d) = Inr (case Data d of None \<Rightarrow> False | Some m \<Rightarrow> map_of m key \<noteq> None)"
  "data_get (snd (remove_key key d)) k = (if k = key then '''' else data_get d k)"
  by (auto simp: remove_key_def data_get_def mget_def map_of_delete split: option.split)

lemma GetConfig_run:
  assumes "keeps_contract so" and "m_stateStore m = Some so" and "m_configsReader m = None"
    and "GetConfig m n f w = (Ok x, w1)"
  obtains dir where "instanceDir m n w = (Ok dir, w)" "x = stored so w (dir @ ''/configs.yaml'') f"
proof -
  from assms(4) obtain dir w2 where dir: "instanceDir m n w = (Ok dir, w2)"
    and rest: "bindo (data_at so (dir @ ''/configs.yaml'')) (\<lambda>d. ret (mget d f '''')) w2 = (Ok x, w1)"
    unfolding GetConfig_def from_cluster_def assms(3) option.case gets_seqo_run assms(2) by (auto elim: bindo_cases)
  have w2: "w2 = w" using instanceDir_run(1) [OF dir] by simp
  have ss: "state_store (so_Get so) (\<lambda>p. so_Patch so p '''')" using assms(1) by (simp add: keeps_contract_def)
  have "x = stored so w (dir @ ''/configs.yaml'') f"
    using rest unfolding w2 data_at_def store_get_def
    by (auto simp: gets_def bindo_def ret_def fail_def state_store.text_of_def [OF ss] data_get_def mget_def
      split: sum.splits if_splits option.splits)
  then show thesis using that dir w2 by blast
qed

lemma config_edit_run:
  assumes "keeps_contract so"
    and "bindo (instanceDir m n) (\<lambda>dir. bindo (patch_doc so (dir @ ''/configs.yaml'') msg f) (\<lambda>changed.
       seqo (whenO changed (RecordAudit m actor a x)) (ret changed))) w = (Ok c, w')"
  obtains dir s' where "instanceDir m n w = (Ok dir, w)" "so_Patch so (dir @ ''/configs.yaml'') msg f (w_store w) = (Inr c, s')"
    "w_store w' = s'" "w_db w' = w_db w" "length (w_audit w') = length (w_audit w) + (if c \<and> m_audit m then 1 else 0)"
proof -
  from assms(2) obtain dir w1 w2 c' where dir: "instanceDir m n w = (Ok dir, w1)"
    and patch: "patch_doc so (dir @ ''/configs.yaml'') msg f w1 = (Ok c', w2)"
    and rest: "seqo (whenO c' (RecordAudit m actor a x)) (ret c') w2 = (Ok c, w')"
    by (elim bindo_cases) auto
  have w1: "w1 = w" using instanceDir_run(1) [OF dir] by simp
  from patch obtain s' where s': "so_Patch so (dir @ ''/configs.yaml'') msg f (w_store w1) = (Inr c', s')" "w2 = w1\<lparr>w_store := s'\<rparr>"
    by (rule patch_doc_run)
  have "c' = c \<and> w_store w' = w_store w2 \<and> w_db w' = w_db w2 \<and>
      length (w_audit w') = length (w_audit w2) + (if c \<and> m_audit m then 1 else 0)"
    using rest by (auto simp: seqo_def bindo_def whenO_def RecordAudit_def modify_def ret_def split: if_splits)
  then show thesis by (intro that [of dir s']) (use dir s' w1 in auto)
qed

lemma config_edit_follows:
  assumes ct: "keeps_contract so" and so: "m_stateStore m = Some so" and rd: "m_configsReader m = None" and au: "m_audit m"
    and old: "GetConfig m n f' w = (Ok old, w)" and new: "GetConfig m n f' w' = (Ok new, w')"
    and after: "\<And>d k. data_get (snd (e (working_doc d))) k = (if k = f then c else data_get d k)"
    and quiet: "\<And>d. fst (e (working_doc d)) = Inr False \<Longrightarrow> data_get d f = c"
    and run: "bindo (instanceDir m n) (\<lambda>dir. bindo (patch_doc so (dir @ ''/configs.yaml'') msg e) (\<lambda>changed.
       seqo (whenO changed (RecordAudit m actor a x)) (ret changed))) w = (Ok changed, w')"
  shows "new = (if f' = f then c else old) \<and> (f' = f \<longrightarrow> old \<noteq> c \<longrightarrow> changed) \<and>
    length (w_audit w') = length (w_audit w) + (if changed then 1 else 0)"
proof -
  note ss = ct [unfolded keeps_contract_def, rule_format]
  from ct run obtain dir s' where dir: "instanceDir m n w = (Ok dir, w)"
    and s': "so_Patch so (dir @ ''/configs.yaml'') msg e (w_store w) = (Inr changed, s')" "w_store w' = s'" "w_db w' = w_db w"
      "length (w_audit w') = length (w_audit w) + (if changed \<and> m_audit m then 1 else 0)"
    by (rule config_edit_run)
  let ?path = "dir @ ''/configs.yaml''"
  have o: "old = stored so w ?path f'"
    using GetConfig_run [OF ct so rd old] dir by (metis Pair_inject res.inject(1))
  have n: "new = stored so w' ?path f'"
    using GetConfig_run [OF ct so rd new] instanceDir_run(2) [OF dir s'(3)] by (metis Pair_inject res.inject(1))
  from state_store.patch_at [OF ss s'(1)] obtain d where d: "\<And>k. data_get d k = stored so w ?path k"
    "fst (e (working_doc d)) = Inr changed"
    "\<And>k. stored so w' ?path k = (if changed then data_get (snd (e (working_doc d))) k else stored so w ?path k)"
    using s'(2) by metis
  have o': "old = data_get d f'" using o d(1) by simp
  show ?thesis
  proof (cases changed)
    case True
    then show ?thesis using n d(3) after s'(4) o' au by simp
  next
    case False
    then have "data_get d f = c" using quiet d(2) by simp
    then show ?thesis using False n d(1,3) s'(4) o' by auto
  qed
qed

lemma set_key_laws:
  "data_get (snd (set_key f c (working_doc d))) k = (if k = f then c else data_get d k)"
  "fst (set_key f c (working_doc d)) = Inr False \<Longrightarrow> data_get d f = c"
  by (simp_all add: set_key_def Let_def split: if_splits)

lemma remove_key_laws:
  "data_get (snd (remove_key f (working_doc d))) k = (if k = f then [] else data_get d k)"
  "fst (remove_key f (working_doc d)) = Inr False \<Longrightarrow> data_get d f = []"
  by (simp add: remove_key_run) (simp add: remove_key_run data_get_def mget_def working_doc_def split: option.splits)

text \<open>What a config edit leaves is what the editor reads next: a saved file reads back as the text
  saved, a deleted one as empty, every other file as before; an edit that alters the text reports a
  change, and the audit trail gets one entry exactly when a change is reported.\<close>

theorem configs_follow:
  assumes "keeps_contract so" and "m_stateStore m = Some so" and "m_configsReader m = None" and "m_audit m"
    and "GetConfig m n f' w = (Ok old, w)" and "GetConfig m n f' w' = (Ok new, w')"
    and "SaveConfig m n f c actor w = (Ok changed, w') \<or> (c = '''' \<and> DeleteConfig m n f actor w = (Ok changed, w'))"
  shows "new = (if f' = f then c else old) \<and>
    (f' = f \<longrightarrow> old \<noteq> c \<longrightarrow> changed) \<and> length (w_audit w') = length (w_audit w) + (if changed then 1 else 0)"
  using assms(7)
proof
  assume "SaveConfig m n f c actor w = (Ok changed, w')"
  then have "bindo (instanceDir m n) (\<lambda>dir. bindo (patch_doc so (dir @ ''/configs.yaml'')
      (''agrelha: edit config '' @ f @ '' for instance #'' @ pad02 n) (set_key f c)) (\<lambda>changed.
      seqo (whenO changed (RecordAudit m actor (gamePrefix m @ ''-config-edit'') (''Saved '' @ f @ '' on #'' @ pad02 n)))
        (ret changed))) w = (Ok changed, w')"
    using assms(2) by (simp add: SaveConfig_def gets_seqo_run)
  then show ?thesis     using config_edit_follows [where e = "set_key f c" and f = f and c = c, OF assms(1-6) set_key_laws] by blast
next
  assume "c = [] \<and> DeleteConfig m n f actor w = (Ok changed, w')"
  then have c: "c = []" and "bindo (instanceDir m n) (\<lambda>dir. bindo (patch_doc so (dir @ ''/configs.yaml'')
      (''agrelha: delete config '' @ f @ '' for instance #'' @ pad02 n) (remove_key f)) (\<lambda>changed.
      seqo (whenO changed (RecordAudit m actor (gamePrefix m @ ''-config-delete'') (''Deleted '' @ f @ '' on #'' @ pad02 n)))
        (ret changed))) w = (Ok changed, w')"
    using assms(2) by (simp_all add: DeleteConfig_def gets_seqo_run)
  from this(2) show ?thesis unfolding c     using config_edit_follows [where e = "remove_key f" and f = f and c = "[]", OF assms(1-6) remove_key_laws] by blast
qed


lemma sample_config:
  assumes "db_ok d" and "instance_at ValheimProfile d 2 = Some (saved_sample\<lparr>CreatedAt := 50, LastUsed := 50\<rparr>)" and "w_db w = d"
  shows "GetConfig (sample_manager None) 2 f w =
    (Ok (stored mem_ops w ''manifests/valheim/instance-02/configs.yaml'' f), w)"
proof -
  have "w_db w = w_db (sample_world d)" using assms(3) by simp
  then have dir: "instanceDir (sample_manager None) 2 w = (Ok ''manifests/valheim/instance-02'', w)"
    by (rule instanceDir_run(2) [OF sample_dir [OF assms(1,2)]])
  have "stored mem_ops w q f = (case Store_Get (w_store w) q of Inl e \<Rightarrow> '''' | Inr d \<Rightarrow> data_get d f)" for q
    by (simp add: mem_ops_def mem.text_of_def)
  then show ?thesis
    by (simp add: GetConfig_def from_cluster_def need_store_def bindo_def dir data_at_def store_get_def gets_def)
      (simp add: mem_ops_def ret_def Store_Get_def data_get_def mget_def split: option.split)
qed

theorem configs_follow_witness:
  "\<exists>w w'. SaveConfig (sample_manager None) 2 ''a.cfg'' ''x = 1'' [''ada''] w = (Ok True, w') \<and>
     GetConfig (sample_manager None) 2 ''a.cfg'' w = (Ok '''', w) \<and>
     GetConfig (sample_manager None) 2 ''a.cfg'' w' = (Ok ''x = 1'', w')"
proof -
  obtain d where d: "db_ok d" "instance_at ValheimProfile d 2 = Some (saved_sample\<lparr>CreatedAt := 50, LastUsed := 50\<rparr>)"
    by (rule sample_db)
  let ?m = "sample_manager None" and ?w = "sample_world d" and ?path = "''manifests/valheim/instance-02/configs.yaml''"
  have empty: "stored mem_ops ?w ?path ''a.cfg'' = ''''"
    by (simp add: mem_ops_def) (simp add: mem.text_of_def sample_world_def Store_Get_def Store_Put_def Store_New_def)
  obtain x where x: "set_key ''a.cfg'' ''x = 1'' (working_doc empty_doc) = (Inr True, x)"
  proof -
    have "fst (set_key ''a.cfg'' ''x = 1'' (working_doc empty_doc)) = Inr True" by code_simp
    then show ?thesis using that by (cases "set_key ''a.cfg'' ''x = 1'' (working_doc empty_doc)") simp
  qed
  obtain s' where s': "\<And>msg. so_Patch mem_ops ?path msg (set_key ''a.cfg'' ''x = 1'') (w_store ?w) = (Inr True, s')"
    using x that by (simp add: mem_ops_def sample_world_def Store_Patch_def Store_Put_def Store_New_def Let_def working_doc_def)
  then have patch: "patch_doc mem_ops ?path msg (set_key ''a.cfg'' ''x = 1'') ?w = (Ok True, ?w\<lparr>w_store := s'\<rparr>)" for msg
    by (simp add: patch_doc_def on_store_def zoom_def of_step_def)
  have audit: "m_audit ?m" by (simp add: sample_manager_def)
  have db: "w_db ?w = d" by (simp add: sample_world_def)
  from patch obtain w' where run: "SaveConfig ?m 2 ''a.cfg'' ''x = 1'' [''ada''] ?w = (Ok True, w')" "w_db w' = d"
    by (simp add: SaveConfig_def need_store_def bindo_def sample_dir [OF d] seqo_def whenO_def RecordAudit_def modify_def
      ret_def audit db)
  have get: "GetConfig ?m 2 ''a.cfg'' ?w = (Ok '''', ?w)" using sample_config [OF d, of ?w] empty by simp
  from configs_follow [OF memory_contract sample_store(1) sample_store(4) audit get sample_config [OF d run(2)] disjI1 [OF run(1)]]
  show ?thesis using run(1) get sample_config [OF d run(2), of "''a.cfg''"] by auto
qed

end
