(* ===== verification/ManagerBackups.thy ===== *)
theory ManagerBackups
  imports Lifecycle
begin

text \<open>
  The part of \<open>internal/app/instances/manager.go\<close> on backups, and \<open>adoption.go\<close>: taking, listing,
  pruning, restoring and deleting the archives of a world, and adopting a server that ran before
  there were worlds.

  The backups directory is the first half of the outside world, so a manager here has type
  \<open>('s, BackupsDir \<times> 'y) Manager\<close> and its job runner may change the directory. A directory that cannot
  be read has no files; \<open>bd_refuse\<close> is what the file system answers when a file is removed. Every name in
  it is a plain file name; slugs have no glob characters (\<open>Slugify_stable\<close>), so the glob pattern
  matches the names that start with its text before the star and end with \<open>.tar.gz\<close>.
\<close>

section \<open>The backups directory\<close>

record FileInfo =
  fi_Size :: int
  fi_ModTime :: Time
  fi_IsDir :: bool

record BackupsDir =
  bd_files :: "(string \<times> FileInfo) list option"
  bd_refuse :: "string \<Rightarrow> goerr option"

record BackupFile =
  bf_Name :: string
  bf_SizeBytes :: int
  bf_CreatedAt :: string

record BackupSummary =
  bs_Count :: int
  bs_TotalSize :: int
  bs_LatestName :: string
  bs_LatestSize :: int
  bs_LatestAt :: Time

definition on_dir :: "(BackupsDir, 'a) op \<Rightarrow> ('s, BackupsDir \<times> 'y, 'a) mop" where
  "on_dir f = on_ext (zoom fst (\<lambda>d (_, y). (d, y)) f)"

definition glob_archives :: "string \<Rightarrow> BackupsDir \<Rightarrow> (string \<times> FileInfo) list" where
  \<comment> \<open>\<open>filepath.Glob(dir/<pre>*.tar.gz)\<close> with \<open>os.Stat\<close> of each match, in the order of the names\<close>
  "glob_archives pre d =
     sort_key fst (filter (\<lambda>(name, _). has_prefix name pre \<and> has_suffix name ''.tar.gz'' \<and>
         length pre + length ''.tar.gz'' \<le> length name)
       (case bd_files d of None \<Rightarrow> [] | Some fs \<Rightarrow> fs))"

definition remove_file :: "string \<Rightarrow> BackupsDir \<Rightarrow> goerr option \<times> BackupsDir" where
  "remove_file name d =
     (case bd_files d of
        None \<Rightarrow> (Some (Sentinel ErrNotExist), d)
      | Some fs \<Rightarrow>
          (case map_of fs name of
             None \<Rightarrow> (Some (Sentinel ErrNotExist), d)
           | Some _ \<Rightarrow>
               (case bd_refuse d name of
                  Some e \<Rightarrow> (Some e, d)
                | None \<Rightarrow> (None, d\<lparr>bd_files := Some (filter (\<lambda>(f, _). f \<noteq> name) fs)\<rparr>))))"

definition archive_prefix :: "string \<Rightarrow> string \<Rightarrow> int \<Rightarrow> string" where
  "archive_prefix prefix slug n = prefix @ ''-'' @ slug @ ''-'' @ pad02 n @ ''-''"

definition prune_oldest :: "nat \<Rightarrow> (string \<times> FileInfo) list \<Rightarrow> BackupsDir \<Rightarrow> BackupsDir" where
  \<comment> \<open>\<open>sort.Slice\<close> leaves the order of equal times open; here they keep the order of the matches\<close>
  "prune_oldest keep matches d =
     (if keep = 0 \<or> length matches \<le> keep then d
      else fold (\<lambda>(name, _) d. snd (remove_file name d))
             (drop keep (sort_key (\<lambda>(_, fi). - fi_ModTime fi) matches)) d)"

definition pruneBackups :: "string \<Rightarrow> string \<Rightarrow> int \<Rightarrow> nat \<Rightarrow> BackupsDir \<Rightarrow> BackupsDir" where
  "pruneBackups prefix slug n keep d = prune_oldest keep (glob_archives (archive_prefix prefix slug n) d) d"

section \<open>Listing\<close>

definition ListBackups ::
    "(Time \<Rightarrow> string) \<Rightarrow> ('s, BackupsDir \<times> 'y) Manager \<Rightarrow> Instance \<Rightarrow> BackupsDir \<Rightarrow> BackupFile list" where
  "ListBackups fmt m inst d =
     (if m_backupsDir m = '''' then []
      else let prefix = (if inst_GameID inst = GameValheim then ''valheim'' else ''mc'')
           in map (\<lambda>(name, fi). \<lparr>bf_Name = name, bf_SizeBytes = fi_Size fi, bf_CreatedAt = fmt (fi_ModTime fi)\<rparr>)
                (glob_archives (archive_prefix prefix (Slug inst) (Number inst)) d))"

definition summarize :: "string \<times> FileInfo \<Rightarrow> BackupSummary \<Rightarrow> BackupSummary" where
  "summarize e info =
     (case e of (name, fi) \<Rightarrow>
        if fi_IsDir fi then info
        else let info = info\<lparr>bs_Count := bs_Count info + 1, bs_TotalSize := bs_TotalSize info + fi_Size fi\<rparr>
             in if bs_LatestAt info < fi_ModTime fi
                then info\<lparr>bs_LatestAt := fi_ModTime fi, bs_LatestName := name, bs_LatestSize := fi_Size fi\<rparr>
                else info)"

definition BackupSummary_of :: "('s, BackupsDir \<times> 'y) Manager \<Rightarrow> BackupsDir \<Rightarrow> BackupSummary \<times> bool" where
  "BackupSummary_of m d =
     (let none = \<lparr>bs_Count = 0, bs_TotalSize = 0, bs_LatestName = '''', bs_LatestSize = 0, bs_LatestAt = 0\<rparr>
      in if m_backupsDir m = '''' then (none, False)
         else case bd_files d of
                None \<Rightarrow> (none, False)
              | Some fs \<Rightarrow> (fold summarize (sort_key fst fs) none, True))"

section \<open>Taking a backup\<close>

definition deferred :: "('w, 'a) op \<Rightarrow> ('w, unit) op \<Rightarrow> ('w, 'a) op" where
  \<comment> \<open>\<open>defer c()\<close>: \<open>c\<close> runs when \<open>m\<close> is done, however it ends\<close>
  "deferred m c w =
     (case m w of (r, w') \<Rightarrow> (case c w' of (Crash s, w'') \<Rightarrow> (Crash s, w'') | (_, w'') \<Rightarrow> (r, w'')))"

definition quiesced :: "('s, 'x) Manager \<Rightarrow> Instance \<Rightarrow> ('s, 'x, 'a) mop \<Rightarrow> ('s, 'x, 'a) mop" where
  \<comment> \<open>flush the world of a running server before the rest, and resume saving after it\<close>
  "quiesced m inst rest =
     (case m_commandExecutor m of
        None \<Rightarrow> rest
      | Some f \<Rightarrow>
          (let run = (\<lambda>cmd. ignore (command (CCommand inst cmd) (f inst cmd)))
           in if State inst \<noteq> StateRunning then rest
              else if inst_GameID inst = GameValheim then seqo (run ''save'') rest
              else seqo (run ''/save-off'') (seqo (run ''/save-all flush'') (deferred rest (run ''/save-on'')))))"

definition job_name :: "('s, 'x) Manager \<Rightarrow> string \<Rightarrow> Instance \<Rightarrow> string \<Rightarrow> string" where
  "job_name m kind inst clock =
     gamePrefix m @ ''-'' @ kind @ ''-'' @ Slug inst @ ''-'' @ show_int (Number inst) @ ''-'' @ clock"

record Clock =
  ck_stamp :: "Time \<Rightarrow> string"
    \<comment> \<open>\<open>UTC().Format("20060102-150405")\<close>\<close>
  ck_time :: "Time \<Rightarrow> string"
    \<comment> \<open>\<open>Format("150405")\<close>\<close>

definition backup_job ::
    "Clock \<Rightarrow> ('s, 'x) Manager \<Rightarrow> Instance \<Rightarrow> string \<Rightarrow> 'x JobRunner \<Rightarrow> ('s, 'x, unit) mop" where
  "backup_job ck m inst name jr =
     bindo (gets w_now) (\<lambda>now.
     bindo (of_outcome (PVCName inst (profileFor m inst))) (\<lambda>pvc.
       let job = job_name m ''bkp'' inst (ck_time ck now)
       in command (CBackup job name pvc (effectiveBackupsPVC m))
            (jr_CreateBackupJob jr job name pvc (effectiveBackupsPVC m))))"

definition restore_job ::
    "Clock \<Rightarrow> ('s, 'x) Manager \<Rightarrow> Instance \<Rightarrow> string \<Rightarrow> 'x JobRunner \<Rightarrow> ('s, 'x, unit) mop" where
  "restore_job ck m inst archive jr =
     bindo (gets w_now) (\<lambda>now.
     bindo (of_outcome (PVCName inst (profileFor m inst))) (\<lambda>pvc.
       let job = job_name m ''rst'' inst (ck_time ck now)
       in command (CRestore job archive pvc (effectiveBackupsPVC m))
            (jr_CreateRestoreJob jr job archive pvc (effectiveBackupsPVC m))))"

definition archive_name :: "Clock \<Rightarrow> ('s, 'x) Manager \<Rightarrow> Instance \<Rightarrow> string \<Rightarrow> ('s, 'x, string) mop" where
  "archive_name ck m inst tag =
     bindo (gets w_now) (\<lambda>now.
       of_outcome (FormatGameBackupFileName (profileFor m inst) (Slug inst) (Number inst) tag (ck_stamp ck now)))"

definition noted :: "('s, 'x) Manager \<Rightarrow> string list \<Rightarrow> string \<Rightarrow> string \<Rightarrow> ('s, 'x, unit) mop" where
  "noted m actor action detail = seqo (RecordAudit m actor action detail) (RecordEvent m action actor)"

definition found_instance :: "('s, 'x) Manager \<Rightarrow> int \<Rightarrow> string \<Rightarrow> (Instance \<Rightarrow> ('s, 'x, 'a) mop) \<Rightarrow> ('s, 'x, 'a) mop" where
  \<comment> \<open>\<open>if err != nil || inst == nil { return errors.New(missing) }\<close>\<close>
  "found_instance m n missing k =
     bindo (attempt (GetInstance m n)) (\<lambda>r. case r of Inr (Some inst) \<Rightarrow> k inst | _ \<Rightarrow> fail (Errorf missing))"

definition CreateBackup ::
    "Clock \<Rightarrow> ('s, BackupsDir \<times> 'y) Manager \<Rightarrow> int \<Rightarrow> string list \<Rightarrow> ('s, BackupsDir \<times> 'y, string) mop" where
  "CreateBackup ck m n actor =
     found_instance m n ''instance not found'' (\<lambda>inst.
     quiesced m inst
       (bindo (archive_name ck m inst '''') (\<lambda>name.
        seqo (optO (m_jobRunner m) (\<lambda>jr. wrapped ''failed to launch backup Job: '' (backup_job ck m inst name jr)))
        (seqo (whenO (m_backupsDir m \<noteq> '''')
                (on_dir (modify (pruneBackups (gamePrefix m) (Slug inst) (Number inst) 5))))
        (seqo (noted m actor (gamePrefix m @ ''-backup'')
                 (''Backup '' @ name @ '' for instance #'' @ pad02 n))
          (ret name))))))"

section \<open>Restoring\<close>

definition base_name :: "string \<Rightarrow> string" where
  \<comment> \<open>\<open>filepath.Base\<close>\<close>
  "base_name p =
     (if p = '''' then ''.''
      else let q = trim_right (\<lambda>c. c = CHR ''/'') p
           in if q = '''' then ''/'' else last (split_on CHR ''/'' q))"

definition valid_archive :: "string \<Rightarrow> bool" where
  "valid_archive name \<longleftrightarrow> name \<noteq> '''' \<and> name \<noteq> ''.'' \<and> has_suffix name ''.tar.gz''"

definition RestoreInPlace ::
    "Clock \<Rightarrow> ('s, 'x) Manager \<Rightarrow> int \<Rightarrow> string \<Rightarrow> string list \<Rightarrow> ('s, 'x, unit) mop" where
  "RestoreInPlace ck m n archive actor =
     found_instance m n ''instance not found'' (\<lambda>inst.
       if State inst = StateRunning
       then fail (Errorf ''Cannot restore while world is running. Please stop the server first.'')
       else let name = base_name (trim_space archive)
            in if \<not> valid_archive name then fail (Errorf ''valid backup archive name required'')
               else seqo (optO (m_jobRunner m) (\<lambda>jr.
                        bindo (archive_name ck m inst ''prerestore'') (\<lambda>safety.
                        seqo (ignore (backup_job ck m inst safety jr))
                          (wrapped ''failed to launch restore Job: '' (restore_job ck m inst name jr)))))
                    (noted m actor (gamePrefix m @ ''-backup-restore-inplace'')
                       (''Restored '' @ name @ '' into #'' @ pad02 n)))"

definition copied_instance :: "Instance \<Rightarrow> string \<Rightarrow> string \<Rightarrow> Instance" where
  "copied_instance src name tier =
     zero_instance\<lparr>inst_GameID := inst_GameID src, inst_Name := name, inst_Source := inst_Source src,
       inst_Tier := tier, MOTD := name @ '' (Restored)'', State := StateStopped,
       Minecraft := Minecraft src, Valheim := Valheim src, GMod := GMod src\<rparr>"

definition readable_mods :: "('s, 'x) Manager \<Rightarrow> int \<Rightarrow> ('s, 'x, ModList) mop" where
  \<comment> \<open>\<open>mods, _ := m.GetModList(n)\<close>: what was read before an error\<close>
  "readable_mods m n =
     bindo (attempt (GetInstalledMods m n)) (\<lambda>r.
       case r of
         Inl e \<Rightarrow> ret empty_modlist
       | Inr primary \<Rightarrow>
           (let out = empty_modlist\<lparr>ml_Primary := joinLines primary\<rparr>
            in if m_gameID m \<noteq> GameMinecraft then ret out
               else bindo (attempt (GetCurseForgeMods m n)) (\<lambda>r.
                 ret (case r of Inl e \<Rightarrow> out | Inr cf \<Rightarrow> out\<lparr>ml_CurseForge := joinLines cf\<rparr>))))"

definition RestoreNew ::
    "Clock \<Rightarrow> ('s, 'x) Manager \<Rightarrow> int \<Rightarrow> string \<Rightarrow> string \<Rightarrow> string \<Rightarrow> string list \<Rightarrow>
     ('s, 'x, Instance \<times> goerr option) mop" where
  \<comment> \<open>a failed restore job is returned beside the world that was created\<close>
  "RestoreNew ck m n newName tier archive actor =
     found_instance m n ''source instance not found'' (\<lambda>src.
       let name = base_name (trim_space archive)
       in if \<not> valid_archive name then fail (Errorf ''valid backup archive name required'')
          else let newName = (if trim_space newName = '''' then inst_Name src @ '' Restored'' else trim_space newName);
                   newTier = (if tier \<noteq> '''' then NormalizeTier tier else inst_Tier src)
               in bindo (readable_mods m (Number src)) (\<lambda>mods.
                  bindo (wrapped ''failed to create new instance: ''
                           (CreateInstance m (copied_instance src newName newTier) mods actor)) (\<lambda>created.
                  bindo (case m_jobRunner m of
                           None \<Rightarrow> ret None
                         | Some jr \<Rightarrow>
                             bindo (attempt (restore_job ck m created name jr)) (\<lambda>r.
                               ret (case r of
                                      Inr _ \<Rightarrow> None
                                    | Inl e \<Rightarrow> Some (Wrap ''instance created, but restore Job failed: '' e ''''))))
                    (\<lambda>failed.
                      if failed \<noteq> None then ret (created, failed)
                      else seqo (noted m actor (gamePrefix m @ ''-backup-restore-new'')
                                   (''Restored '' @ name @ '' into new instance #'' @ pad02 (Number created) @ '' ''
                                    @ go_quote (inst_Name created)))
                             (ret (created, None))))))"

section \<open>Deleting an archive\<close>

definition DeleteBackup ::
    "('s, BackupsDir \<times> 'y) Manager \<Rightarrow> int \<Rightarrow> string \<Rightarrow> string list \<Rightarrow> ('s, BackupsDir \<times> 'y, unit) mop" where
  "DeleteBackup m n fileName actor =
     (if m_backupsDir m = '''' then fail (Errorf ''backups directory unconfigured'')
      else let name = base_name (trim_space fileName)
           in if name = '''' \<or> name = ''.'' then fail (Errorf ''file name required'')
              else if \<not> IsSafeBackupFileName name
              then fail (Errorf (''invalid or unauthorized backup file name '' @ go_quote name))
              else seqo (wrapped ''failed to delete backup: '' (on_dir (of_exec (remove_file name))))
                     (RecordAudit m actor ''mc-backup-delete''
                        (''Deleted backup '' @ name @ '' for #'' @ pad02 n)))"

section \<open>Adoption\<close>

definition adopted_instance :: "string \<Rightarrow> Time \<Rightarrow> Status \<Rightarrow> string \<Rightarrow> string \<Rightarrow> Instance outcome" where
  "adopted_instance wid now st lbip serverName =
     (let name = (if serverName = '''' then ''Valheim'' else serverName);
          slug = (if Slugify name = '''' \<or> Slugify name = ''default'' then ''server'' else Slugify name)
      in EnsureDefaults ValheimProfile lbip
           (zero_instance\<lparr>WorldID := wid, inst_GameID := GameValheim, Number := 1, inst_Name := name, Slug := slug,
              inst_Tier := TierMedium,
              State := (if st_Available st \<or> st_Lifecycle st = LifecycleRunning then StateRunning else StateStopped),
              MaxPlayers := 10, LBIP := lbip, MOTD := name @ '' ('' @ lbip @ '')'',
              CreatedAt := now, LastUsed := now\<rparr>))"

definition AdoptLegacyValheim ::
    "('s, 'x) Manager \<Rightarrow> ServerRef \<Rightarrow> string \<Rightarrow> string \<Rightarrow> ('s, 'x, Instance option) mop" where
  \<comment> \<open>a function of the repository and the runtime alone, taken from the record\<close>
  "AdoptLegacyValheim m ref lbip serverName =
     (case (m_repo m, m_runtime m, sref_Name ref) of
        (Some _, Some rt, _ # _) \<Rightarrow>
          bindo (wrapped ''check slot 1 for legacy adoption: '' (repo_Get m 1)) (\<lambda>existing.
            case existing of
              Some inst \<Rightarrow> ret (Some inst)
            | None \<Rightarrow>
                bindo (attempt (ask (rt_Status rt ref))) (\<lambda>r.
                  case r of
                    Inl e \<Rightarrow> ret None
                  | Inr st \<Rightarrow>
                      (if st_Lifecycle st = LifecycleUnknown then ret None
                       else bindo (on_ext (\<lambda>x. case m_newID m x of (i, x') \<Rightarrow> (Ok i, x'))) (\<lambda>wid.
                            bindo (gets w_now) (\<lambda>now.
                            bindo (of_outcome (adopted_instance wid now st lbip serverName)) (\<lambda>inst.
                            seqo (wrapped ''adopt legacy valheim instance into slot #1: '' (repo_Upsert m inst))
                              (ret (Some inst))))))))
      | _ \<Rightarrow> ret None)"

end
