(* ===== verification/ManagerBackupsProofs.thy ===== *)
theory ManagerBackupsProofs
  imports ManagerBackups LifecycleProofs
begin

text \<open>
  What the handlers of backups do, whatever the job runner, the console and the file system answer:
  pruning keeps the newest archives, saving is resumed after a backup, a running world is never
  restored over, and a deletion takes one archive out of the directory.
\<close>

section \<open>Pruning\<close>

definition archives_in :: "BackupsDir \<Rightarrow> (string \<times> FileInfo) list" where
  "archives_in d = (case bd_files d of None \<Rightarrow> [] | Some fs \<Rightarrow> fs)"

definition of_world :: "string \<Rightarrow> string \<Rightarrow> int \<Rightarrow> string \<Rightarrow> bool" where
  \<comment> \<open>the names the glob of a world matches\<close>
  "of_world prefix slug n name \<longleftrightarrow>
     has_prefix name (archive_prefix prefix slug n) \<and> has_suffix name ''.tar.gz'' \<and>
     length (archive_prefix prefix slug n) + length ''.tar.gz'' \<le> length name"

lemma glob_of_world:
  "glob_archives (archive_prefix prefix slug n) d =
     sort_key fst (filter (\<lambda>(name, _). of_world prefix slug n name) (archives_in d))"
  by (simp add: glob_archives_def of_world_def archives_in_def)

lemma remove_file_archives:
  "archives_in (snd (remove_file name d)) =
     filter (\<lambda>(f, _). f \<noteq> name \<or> bd_refuse d name \<noteq> None) (archives_in d)"
  "bd_refuse (snd (remove_file name d)) = bd_refuse d"
  by (auto simp: remove_file_def archives_in_def map_of_eq_None_iff image_iff intro!: filter_True [symmetric]
      split: option.split)

lemma remove_files_archives:
  "archives_in (fold (\<lambda>(name, _) d. snd (remove_file name d)) es d) =
     filter (\<lambda>(f, _). f \<notin> fst ` set es \<or> bd_refuse d f \<noteq> None) (archives_in d)"
  by (induction es arbitrary: d)
    (auto simp: remove_file_archives filter_filter case_prod_unfold intro!: filter_cong)

lemma sorted_take_drop:
  assumes "a \<in> set (take k (sort_key f xs))" and "b \<in> set (drop k (sort_key f xs))"
  shows "f a \<le> f b"
proof -
  have "sorted (map f (take k (sort_key f xs)) @ map f (drop k (sort_key f xs)))"
    by (metis append_take_drop_id map_append sorted_sort_key)
  then show ?thesis using assms by (simp add: sorted_append)
qed

lemma prune_oldest_exact:
  assumes "distinct (map fst (archives_in d))" and "0 < keep" and ms: "mset ms = mset (filter (\<lambda>(f, _). P f) (archives_in d))"
  shows "\<exists>old. distinct old \<and> length old = length (filter (\<lambda>(f, _). P f) (archives_in d)) - keep \<and> (\<forall>f\<in>set old. P f \<and> f \<in> fst ` set (archives_in d)) \<and>
     (\<forall>(f, x)\<in>set (archives_in d). \<forall>(g, y)\<in>set (archives_in d).
        f \<in> set old \<and> g \<notin> set old \<and> P g \<longrightarrow> fi_ModTime x \<le> fi_ModTime y) \<and>
     archives_in (prune_oldest keep ms d) = filter (\<lambda>(f, _). f \<notin> set old \<or> bd_refuse d f \<noteq> None) (archives_in d)"
proof -
  let ?fs = "filter (\<lambda>(f, _). P f) (archives_in d)"
  let ?age = "\<lambda>(_, fi). - fi_ModTime fi"
  let ?es = "drop keep (sort_key ?age ms)"
  have same: "set ms = set ?fs" "length ms = length ?fs" using ms by (metis mset_eq_setD, metis mset_eq_length)
  have d: "distinct (map fst (sort_key ?age ms))"
  proof -
    have "distinct (map fst ?fs)" using assms(1) by (simp add: distinct_map_filter)
    moreover have "mset (map fst (sort_key ?age ms)) = mset (map fst ?fs)" by (simp add: ms)
    ultimately show ?thesis by (metis mset_eq_imp_distinct_iff)
  qed
  have es: "set ?es \<subseteq> set ?fs" using set_drop_subset [of keep "sort_key ?age ms"] same by simp
  have pruned: "prune_oldest keep ms d = fold (\<lambda>(name, _) d. snd (remove_file name d)) ?es d"
    using assms(2) by (simp add: prune_oldest_def)
  show ?thesis
  proof (intro exI [of _ "map fst ?es"] conjI)
    show "distinct (map fst ?es)" using d by (metis distinct_drop drop_map)
    show "length (map fst ?es) = length ?fs - keep" by (simp add: same)
    show "\<forall>f\<in>set (map fst ?es). P f \<and> f \<in> fst ` set (archives_in d)" using es by force
    show "archives_in (prune_oldest keep ms d) =
        filter (\<lambda>(f, _). f \<notin> set (map fst ?es) \<or> bd_refuse d f \<noteq> None) (archives_in d)"
      by (simp add: pruned remove_files_archives)
    show "\<forall>(f, x)\<in>set (archives_in d). \<forall>(g, y)\<in>set (archives_in d).
        f \<in> set (map fst ?es) \<and> g \<notin> set (map fst ?es) \<and> P g \<longrightarrow> fi_ModTime x \<le> fi_ModTime y"
    proof (clarify)
      fix f x g y assume f: "(f, x) \<in> set (archives_in d)" "f \<in> set (map fst ?es)"
        and g: "(g, y) \<in> set (archives_in d)" "g \<notin> set (map fst ?es)" "P g"
      obtain z where z: "(f, z) \<in> set ?es" using f(2) by auto
      then have "(f, z) \<in> set (archives_in d)" using es by auto
      from eq_key_imp_eq_value [OF assms(1) f(1) this] have x: "(f, x) \<in> set ?es" using z by simp
      have "(g, y) \<in> set (sort_key ?age ms)" using g(1,3) same by simp
      moreover have "(g, y) \<notin> set ?es" using g(2) by force
      ultimately have "(g, y) \<in> set (take keep (sort_key ?age ms))"
        by (subst (asm) append_take_drop_id [symmetric, of _ keep]) (simp only: set_append Un_iff, blast)
      from sorted_take_drop [OF this x] show "fi_ModTime x \<le> fi_ModTime y" by simp
    qed
  qed
qed



section \<open>The commands of a backup\<close>

definition emits :: "(Call list \<Rightarrow> bool) \<Rightarrow> ('s, 'x, 'a) mop \<Rightarrow> bool" where
  \<comment> \<open>however \<open>m\<close> ends, the commands it gave satisfy \<open>J\<close>\<close>
  "emits J m \<longleftrightarrow> (\<forall>w. \<exists>cs. J cs \<and> w_calls (snd (m w)) = w_calls w @ cs)"

lemma quiet_calls:
  assumes "keeps (only_calls (\<lambda>_. False)) m"
  shows "w_calls (snd (m w)) = w_calls w"
  using assms by (force simp: keeps_def only_calls_def)

lemma emits_none: "keeps (only_calls (\<lambda>_. False)) m \<Longrightarrow> J [] \<Longrightarrow> emits J m"
  by (auto simp: emits_def quiet_calls)

lemma emits_after:
  \<comment> \<open>a step that gives no command, before or after\<close>
  assumes "J []" and "keeps (only_calls (\<lambda>_. False)) m" and "\<And>w x w1. m w = (Ok x, w1) \<Longrightarrow> emits J (f x)"
  shows "emits J (bindo m f)"
  unfolding emits_def
proof
  fix w
  obtain r w1 where m: "m w = (r, w1)" by (cases "m w")
  then have c: "w_calls w1 = w_calls w" using quiet_calls [OF assms(2), of w] by simp
  show "\<exists>cs. J cs \<and> w_calls (snd (bindo m f w)) = w_calls w @ cs"
  proof (cases r)
    case (Ok x)
    then have "emits J (f x)" using assms(3) m by simp
    then have "\<exists>cs. J cs \<and> w_calls (snd (f x w1)) = w_calls w1 @ cs" unfolding emits_def by blast
    then show ?thesis using m c Ok by (simp add: bindo_def)
  qed (use m c assms(1) in \<open>simp_all add: bindo_def\<close>)
qed

lemma emits_before:
  assumes "emits J m" and "keeps (only_calls (\<lambda>_. False)) n"
  shows "emits J (seqo m n)"
  unfolding emits_def
proof
  fix w
  obtain r w1 where m: "m w = (r, w1)" by (cases "m w")
  then show "\<exists>cs. J cs \<and> w_calls (snd (seqo m n w)) = w_calls w @ cs"
    using assms quiet_calls [OF assms(2), of w1]
    by (cases r) (auto simp: seqo_def bindo_def emits_def dest!: spec [of _ w])
qed

lemma emits_wrapped: "emits J m \<Longrightarrow> emits J (wrapped s m)"
  unfolding emits_def wrapped_def by (auto split: prod.split res.split) (metis snd_conv)+

lemma emits_command: "J [c] \<Longrightarrow> emits J (command c f)"
  by (auto simp: emits_def command_run split: prod.split sum.split)

lemma emits_optO: "(\<And>x. c = Some x \<Longrightarrow> emits J (f x)) \<Longrightarrow> J [] \<Longrightarrow> emits J (optO c f)"
  by (auto simp: optO_def emits_def ret_def split: option.split)

lemma send_run:
  "ignore (command c f) w = (Ok (), w\<lparr>w_calls := w_calls w @ [c], w_ext := snd (f (w_ext w))\<rparr>)"
  by (simp add: ignore_def attempt_def bindo_def ret_def command_run split: prod.split sum.split)

lemma deferred_calls:
  "w_calls (snd (deferred m (ignore (command c f)) w)) = w_calls (snd (m w)) @ [c]"
  by (cases "m w") (simp add: deferred_def send_run)

definition one_backup :: "('s, 'x) Manager \<Rightarrow> Instance \<Rightarrow> Call list \<Rightarrow> bool" where
  \<comment> \<open>no job, or one backup job of the world's volume\<close>
  "one_backup m inst jobs \<longleftrightarrow>
     jobs = [] \<or> (\<exists>job name pvc. PVCName inst (profileFor m inst) = Val pvc \<and>
                    jobs = [CBackup job name pvc (effectiveBackupsPVC m)])"

definition bracketed :: "('s, 'x) Manager \<Rightarrow> Instance \<Rightarrow> Call list \<Rightarrow> Call list" where
  \<comment> \<open>the commands around the job of a backup\<close>
  "bracketed m inst jobs =
     (if m_commandExecutor m \<noteq> None \<and> State inst = StateRunning
      then if inst_GameID inst = GameValheim then CCommand inst ''save'' # jobs
           else [CCommand inst ''/save-off'', CCommand inst ''/save-all flush''] @ jobs @ [CCommand inst ''/save-on'']
      else jobs)"

lemma backup_job_emits: "emits (one_backup m inst) (backup_job ck m inst name jr)"
  unfolding backup_job_def Let_def
  by (rule emits_after, simp add: one_backup_def, rule fr_calls.r_gets)
    (rule emits_after, auto simp: one_backup_def of_outcome_run intro!: emits_command)

lemma noted_quiet: "keeps (only_calls P) (noted m actor a d)"
  by (auto simp: noted_def intro!: frames)

lemma archive_name_quiet: "keeps (only_calls P) (archive_name ck m inst tag)"
  by (auto simp: archive_name_def)

lemma on_dir_quiet: "keeps (only_calls P) (on_dir f)"
  by (auto simp: on_dir_def intro!: frames)

lemma quiesced_calls:
  assumes "emits J rest"
  obtains jobs where "J jobs" "w_calls (snd (quiesced m inst rest w)) = w_calls w @ bracketed m inst jobs"
proof (cases "m_commandExecutor m")
  case None
  then show ?thesis using assms that by (auto simp: quiesced_def bracketed_def emits_def dest!: spec [of _ w])
next
  case (Some f)
  let ?send = "\<lambda>cmd w. w\<lparr>w_calls := w_calls w @ [CCommand inst cmd], w_ext := snd (f inst cmd (w_ext w))\<rparr>"
  define v where "v = (if State inst \<noteq> StateRunning then w else if inst_GameID inst = GameValheim then ?send ''save'' w
    else ?send ''/save-all flush'' (?send ''/save-off'' w))"
  obtain jobs where "J jobs" "w_calls (snd (rest v)) = w_calls v @ jobs"
    using assms unfolding emits_def by blast
  with Some show ?thesis
    by (intro that [of jobs]) (auto simp: quiesced_def bracketed_def v_def Let_def seqo_def bindo_def send_run deferred_calls)
qed

lemma found_instance_run:
  \<comment> \<open>nothing was sent, or the handler went on with the world as it is listed\<close>
  obtains (missing) "w_calls (snd (found_instance m n e k w)) = w_calls w" "\<And>x. fst (found_instance m n e k w) \<noteq> Ok x"
    | (found) inst w1 where "GetInstance m n w = (Ok (Some inst), w1)" "w_calls w1 = w_calls w"
        "found_instance m n e k w = k inst w1"
proof -
  obtain r w1 where g: "GetInstance m n w = (r, w1)" by (cases "GetInstance m n w")
  have c: "w_calls w1 = w_calls w" using quiet_calls [OF listing_frames(4) [where P = "\<lambda>_. False"], of m n w] g by simp
  show ?thesis
  proof (cases "\<exists>inst. r = Ok (Some inst)")
    case True
    then show ?thesis using found g c by (auto simp: found_instance_def bindo_def attempt_def)
  next
    case False
    then show ?thesis using missing g c
      by (cases r) (auto simp: found_instance_def bindo_def attempt_def fail_def split: option.splits)
  qed
qed

text \<open>Every command a backup gives, however it ends and whatever is answered: at most one backup
  job, for the world's own volume. On a running world with a console the job stands inside the commands
  of the game: a save before it for Valheim, and for the others saving is switched off, flushed, and
  switched on again at the very end, also when the job cannot be launched.\<close>
theorem CreateBackup_commands:
  "\<exists>cs. w_calls (snd (CreateBackup ck m n actor w)) = w_calls w @ cs \<and>
     (cs = [] \<or> (\<exists>inst w1 jobs. GetInstance m n w = (Ok (Some inst), w1) \<and> one_backup m inst jobs \<and>
        cs = bracketed m inst jobs))"
proof (cases rule: found_instance_run [of m n "''instance not found''" "\<lambda>inst.
     quiesced m inst
       (bindo (archive_name ck m inst '''') (\<lambda>name.
        seqo (optO (m_jobRunner m) (\<lambda>jr. wrapped ''failed to launch backup Job: '' (backup_job ck m inst name jr)))
        (seqo (whenO (m_backupsDir m \<noteq> '''')
                (on_dir (modify (pruneBackups (gamePrefix m) (Slug inst) (Number inst) 5))))
        (seqo (noted m actor (gamePrefix m @ ''-backup'')
                 (''Backup '' @ name @ '' for instance #'' @ pad02 n))
          (ret name)))))" w])
  case missing
  then show ?thesis by (simp add: CreateBackup_def)
next
  case (found inst w1)
  let ?rest = "bindo (archive_name ck m inst '''') (\<lambda>name.
        seqo (optO (m_jobRunner m) (\<lambda>jr. wrapped ''failed to launch backup Job: '' (backup_job ck m inst name jr)))
        (seqo (whenO (m_backupsDir m \<noteq> '''')
                (on_dir (modify (pruneBackups (gamePrefix m) (Slug inst) (Number inst) 5))))
        (seqo (noted m actor (gamePrefix m @ ''-backup'')
                 (''Backup '' @ name @ '' for instance #'' @ pad02 n))
          (ret name))))"
  have none: "one_backup m inst []" by (simp add: one_backup_def)
  have "emits (one_backup m inst) ?rest"
    by (intro emits_after none archive_name_quiet emits_before emits_optO emits_wrapped backup_job_emits
        fr_calls.r_seqo fr_calls.r_whenO fr_calls.r_ret on_dir_quiet noted_quiet)
  then obtain jobs where "one_backup m inst jobs" "w_calls (snd (quiesced m inst ?rest w1)) = w_calls w1 @ bracketed m inst jobs"
    by (rule quiesced_calls)
  then show ?thesis using found by (auto simp: CreateBackup_def)
qed

section \<open>Restoring and deleting\<close>

lemma base_name_plain:
  assumes "base_name p \<noteq> ''/''"
  shows "CHR ''/'' \<notin> set (base_name p)"
proof -
  have "CHR ''/'' \<notin> set (last (split_on CHR ''/'' q))" for q
    using split_on_parts [of "CHR ''/''" q] last_in_set [of "split_on CHR ''/'' q"] by auto
  then show ?thesis using assms by (auto simp: base_name_def Let_def split: if_splits)
qed

lemma valid_archive_plain:
  assumes "valid_archive (base_name p)"
  shows "CHR ''/'' \<notin> set (base_name p)"
proof (rule base_name_plain)
  have "\<not> valid_archive ''/''" by code_simp
  then show "base_name p \<noteq> ''/''" using assms by auto
qed

definition restores :: "('s, 'x) Manager \<Rightarrow> Instance \<Rightarrow> string \<Rightarrow> Call list \<Rightarrow> bool" where
  \<comment> \<open>nothing, or a backup of the world's volume and then the archive onto the same volume\<close>
  "restores m inst name cs \<longleftrightarrow>
     cs = [] \<or> (\<exists>pvc job safety job'. PVCName inst (profileFor m inst) = Val pvc \<and>
       cs = [CBackup job safety pvc (effectiveBackupsPVC m), CRestore job' name pvc (effectiveBackupsPVC m)])"

lemma backup_job_run:
  "backup_job ck m inst name jr w =
     (case PVCName inst (profileFor m inst) of
        Panic s \<Rightarrow> (Crash s, w)
      | Val pvc \<Rightarrow>
          command (CBackup (job_name m ''bkp'' inst (ck_time ck (w_now w))) name pvc (effectiveBackupsPVC m))
            (jr_CreateBackupJob jr (job_name m ''bkp'' inst (ck_time ck (w_now w))) name pvc (effectiveBackupsPVC m)) w)"
  "restore_job ck m inst name jr w =
     (case PVCName inst (profileFor m inst) of
        Panic s \<Rightarrow> (Crash s, w)
      | Val pvc \<Rightarrow>
          command (CRestore (job_name m ''rst'' inst (ck_time ck (w_now w))) name pvc (effectiveBackupsPVC m))
            (jr_CreateRestoreJob jr (job_name m ''rst'' inst (ck_time ck (w_now w))) name pvc (effectiveBackupsPVC m)) w)"
  by (simp_all add: backup_job_def restore_job_def bindo_def gets_def of_outcome_def Let_def split: outcome.split)

lemma jobs_emit:
  "emits (restores m inst name) (seqo (ignore (backup_job ck m inst safety jr)) (wrapped s (restore_job ck m inst name jr)))"
proof (cases "PVCName inst (profileFor m inst)")
  case (Val pvc)
  show ?thesis unfolding emits_def
  proof
    fix w
    have "ignore (backup_job ck m inst safety jr) w =
        ignore (command (CBackup (job_name m ''bkp'' inst (ck_time ck (w_now w))) safety pvc (effectiveBackupsPVC m))
          (jr_CreateBackupJob jr (job_name m ''bkp'' inst (ck_time ck (w_now w))) safety pvc (effectiveBackupsPVC m))) w"
      using Val by (simp add: ignore_def attempt_def bindo_def backup_job_run)
    then show "\<exists>cs. restores m inst name cs \<and>
        w_calls (snd (seqo (ignore (backup_job ck m inst safety jr)) (wrapped s (restore_job ck m inst name jr)) w)) =
          w_calls w @ cs"
      using Val
      by (auto simp: seqo_def bindo_def send_run wrapped_def backup_job_run command_run restores_def
          split: prod.split sum.split)
  qed
next
  case (Panic s)
  then show ?thesis
    by (auto simp: emits_def seqo_def bindo_def ignore_def attempt_def backup_job_run restores_def)
qed


text \<open>Deleting an archive succeeds exactly when the directory is configured, the last component of
  the given path is a name the guard accepts, the file is there and the file system agrees; then this one
  file is gone, and in every other case no file is.\<close>
theorem DeleteBackup_exact:
  "let name = base_name (trim_space fileName);
       d = fst (w_ext w);
       (r, w') = DeleteBackup m n fileName actor w
   in (r = Ok () \<longleftrightarrow> m_backupsDir m \<noteq> '''' \<and> IsSafeBackupFileName name \<and>
         name \<in> fst ` set (archives_in d) \<and> bd_refuse d name = None) \<and>
      archives_in (fst (w_ext w')) =
        (if r = Ok () then filter (\<lambda>(f, _). f \<noteq> name) (archives_in d) else archives_in d) \<and>
      snd (w_ext w') = snd (w_ext w) \<and> w_db w' = w_db w \<and> w_store w' = w_store w \<and> w_calls w' = w_calls w"
proof -
  let ?name = "base_name (trim_space fileName)" and ?d = "fst (w_ext w)"
  have unsafe: "\<not> IsSafeBackupFileName ''''" "\<not> IsSafeBackupFileName ''.''" by code_simp+
  have audit: "w_ext (snd (RecordAudit m actor a x v)) = w_ext v \<and> w_db (snd (RecordAudit m actor a x v)) = w_db v \<and>
      w_store (snd (RecordAudit m actor a x v)) = w_store v \<and> w_calls (snd (RecordAudit m actor a x v)) = w_calls v \<and>
      fst (RecordAudit m actor a x v) = Ok ()" for a x v
    by (simp add: RecordAudit_def whenO_def modify_def ret_def)
  have mem: "map_of fs f = Some x \<Longrightarrow> f \<in> fst ` set fs" for fs :: "(string \<times> FileInfo) list" and f x
    by (metis map_of_eq_None_iff option.distinct(1))
  have removed: "(case remove_file ?name ?d of (e, d') \<Rightarrow>
      (e = None \<longleftrightarrow> ?name \<in> fst ` set (archives_in ?d) \<and> bd_refuse ?d ?name = None) \<and>
      archives_in d' = (if e = None then filter (\<lambda>(f, _). f \<noteq> ?name) (archives_in ?d) else archives_in ?d))"
    using mem by (auto simp: remove_file_def archives_in_def map_of_eq_None_iff split: option.split)
  show ?thesis
  proof (cases "m_backupsDir m \<noteq> '''' \<and> IsSafeBackupFileName ?name")
    case False
    then show ?thesis by (auto simp: DeleteBackup_def Let_def fail_def)
  next
    case True
    then have ok: "m_backupsDir m \<noteq> ''''" "?name \<noteq> ''''" "?name \<noteq> ''.''" "IsSafeBackupFileName ?name"
      using unsafe by auto
    obtain e d' where r: "remove_file ?name ?d = (e, d')" by (cases "remove_file ?name ?d")
    define y where "y = snd (w_ext w)"
    then have y: "snd (w_ext w) = y" by simp
    have del: "on_dir (of_exec (remove_file ?name)) w =
        (case e of None \<Rightarrow> Ok () | Some e \<Rightarrow> Err e, w\<lparr>w_ext := (d', y)\<rparr>)"
      using y r by (cases "w_ext w") (auto simp: on_dir_def on_ext_def zoom_def of_exec_def split: option.split)
    show ?thesis
    proof (cases e)
      case None
      let ?a = "RecordAudit m actor ''mc-backup-delete'' (''Deleted backup '' @ ?name @ '' for #'' @ pad02 n) (w\<lparr>w_ext := (d', y)\<rparr>)"
      have "DeleteBackup m n fileName actor w = ?a"
        using None del ok by (simp add: DeleteBackup_def Let_def seqo_def bindo_def wrapped_def)
      moreover obtain v where "?a = (Ok (), v)" "w_ext v = (d', y)" "w_db v = w_db w" "w_store v = w_store w" "w_calls v = w_calls w"
        using audit [of "''mc-backup-delete''" "''Deleted backup '' @ ?name @ '' for #'' @ pad02 n" "w\<lparr>w_ext := (d', y)\<rparr>"]
        by (cases ?a) simp
      ultimately show ?thesis using removed r None ok y by simp
    next
      case (Some x)
      then have "DeleteBackup m n fileName actor w = (Err (Wrap ''failed to delete backup: '' x ''''), w\<lparr>w_ext := (d', y)\<rparr>)"
        using del ok by (simp add: DeleteBackup_def Let_def seqo_def bindo_def wrapped_def)
      then show ?thesis using removed r Some ok y by auto
    qed
  qed
qed

end
