(* ===== verification/ModUpdates.thy ===== *)
theory ModUpdates
  imports Mods SqlStore Ops
begin

text \<open>
  \<open>internal/app/modupdates/checker.go\<close>, which compares the mods of every world with the catalogues and
  rewrites a list with the newest versions, and \<open>internal/infra/store/restore.go\<close>, the table of
  restore points it undoes an update with.

  The worlds it watches and the catalogue are its parameters, operations on a state \<open>'w\<close> of their
  own. The optional interfaces a catalogue or a set of worlds may implement are optional fields. The
  lookups of one refresh run concurrently and each writes its own slot of the results; here they run
  in the order of the list. \<open>sort.Slice\<close> leaves the order of equal keys open; here they keep theirs.
  The ticker goroutine of \<open>Start\<close>, and calls on a nil checker, are left out.
\<close>

section \<open>Restore points\<close>

record RestoreRow =
  rr_at :: Time
  rr_previous :: string
  rr_applied :: string

type_synonym RestoreTable = "((GameID \<times> int) \<times> RestoreRow) list"

definition splitRestore :: "string \<Rightarrow> string list" where
  "splitRestore s = (if s = '''' then [] else split_on NL s)"

definition SaveRestorePoint ::
    "Db \<Rightarrow> Time \<Rightarrow> GameID \<Rightarrow> int \<Rightarrow> string list \<Rightarrow> string list \<Rightarrow> RestoreTable \<Rightarrow> goerr option \<times> RestoreTable" where
  "SaveRestorePoint db now game number previous applied t =
     (case db ''save restore point'' of
        Some e \<Rightarrow> (Some e, t)
      | None \<Rightarrow>
          (None, AList.update (game, number)
             \<lparr>rr_at = now, rr_previous = join [NL] previous, rr_applied = join [NL] applied\<rparr> t))"

definition RestorePoint :: "Db \<Rightarrow> GameID \<Rightarrow> int \<Rightarrow> RestoreTable \<Rightarrow> goerr + ModRestorePoint option" where
  "RestorePoint db game number t =
     (case db ''restore point'' of
        Some e \<Rightarrow> Inl e
      | None \<Rightarrow>
          Inr (map_option (\<lambda>r. \<lparr>rp_At = rr_at r, rp_Previous = splitRestore (rr_previous r),
                               rp_Applied = splitRestore (rr_applied r)\<rparr>)
                 (map_of t (game, number))))"

definition ClearRestorePoint :: "Db \<Rightarrow> GameID \<Rightarrow> int \<Rightarrow> RestoreTable \<Rightarrow> goerr option \<times> RestoreTable" where
  "ClearRestorePoint db game number t =
     (case db ''clear restore point'' of Some e \<Rightarrow> (Some e, t) | None \<Rightarrow> (None, AList.delete (game, number) t))"

section \<open>The checker and its state\<close>

record Report =
  rep_Updates :: "ModUpdate list"
  rep_Missing :: "ModRef list"
  rep_Unreachable :: "ModRef list"
  rep_Checked :: nat
  rep_Total :: nat
  rep_At :: Time

definition zero_report :: Report where
  "zero_report = \<lparr>rep_Updates = [], rep_Missing = [], rep_Unreachable = [], rep_Checked = 0, rep_Total = 0, rep_At = 0\<rparr>"

record snapshot =
  sn_report :: Report
  sn_err :: "goerr option"

record pending =
  pe_want :: "string list"
  pe_at :: Time

record 'w Insts =
  in_ListInstances :: "('w, Instance list) op"
  in_GetInstance :: "(int \<Rightarrow> ('w, Instance option) op) option"
  in_GetInstalledMods :: "int \<Rightarrow> ('w, string list) op"
  in_ReplaceMods :: "int \<Rightarrow> string list \<Rightarrow> string \<Rightarrow> string list \<Rightarrow> ('w, bool) op"

record 'w IndexedCatalog =
  ix_RefreshIndexIfStale :: "Time \<Rightarrow> 'w \<Rightarrow> 'w"
  ix_LatestVersionFromIndex :: "string \<Rightarrow> string \<Rightarrow> 'w \<Rightarrow> string option"

record 'w InstanceCatalog =
  ic_LatestVersionForInstance :: "ModRef \<Rightarrow> Instance \<Rightarrow> ('w, string) op"
  ic_ResolveTreeForInstance :: "ModRef \<Rightarrow> Instance \<Rightarrow> ('w, string list) op"

record 'w Catalog =
  cat_LatestVersion :: "string \<Rightarrow> string \<Rightarrow> ('w, string) op"
  cat_ResolveTree :: "string \<Rightarrow> string \<Rightarrow> ('w, string list) op"
  cat_instance :: "'w InstanceCatalog option"
  cat_index :: "'w IndexedCatalog option"

record 'w Checker =
  ck_insts :: "'w Insts option"
  ck_cat :: "'w Catalog option"
  ck_restore :: "Db option"
  ck_gameID :: GameID
  ck_now :: "'w \<Rightarrow> Time"
  ck_cancelled :: "'w \<Rightarrow> bool"
    \<comment> \<open>\<open>ctx.Err() != nil\<close>\<close>

record 'w CheckerState =
  cs_snap :: "(int \<times> snapshot) list"
  cs_pend :: "(int \<times> pending) list"
  cs_points :: RestoreTable
  cs_out :: 'w

type_synonym ('w, 'a) ckop = "('w CheckerState, 'a) op"

definition nanoseconds :: "int \<Rightarrow> Time" where
  "nanoseconds s = s * 1000000000"

definition pendingTTL :: Time where "pendingTTL = nanoseconds 360"
definition indexFreshFor :: Time where "indexFreshFor = nanoseconds 60"

definition outside :: "('w, 'a) op \<Rightarrow> ('w, 'a) ckop" where
  "outside = zoom cs_out (\<lambda>x s. s\<lparr>cs_out := x\<rparr>)"

definition clock :: "'w Checker \<Rightarrow> ('w, Time) ckop" where
  "clock c = gets (\<lambda>s. ck_now c (cs_out s))"

definition with_insts :: "'w Checker \<Rightarrow> ('w Insts \<Rightarrow> ('w, 'a) ckop) \<Rightarrow> ('w, 'a) ckop" where
  \<comment> \<open>a call through a nil interface panics\<close>
  "with_insts c k = (case ck_insts c of None \<Rightarrow> (\<lambda>s. (Crash ''nil pointer dereference'', s)) | Some i \<Rightarrow> k i)"

section \<open>Asking the catalogue\<close>

definition getInstance :: "'w Checker \<Rightarrow> int \<Rightarrow> ('w, Instance) ckop" where
  "getInstance c n =
     with_insts c (\<lambda>i.
     let missing = zero_instance\<lparr>Number := n, inst_GameID := ck_gameID c\<rparr>
     in bindo (case in_GetInstance i of None \<Rightarrow> ret None | Some get \<Rightarrow>
                 bindo (attempt (outside (get n))) (\<lambda>r. ret (case r of Inl e \<Rightarrow> None | Inr x \<Rightarrow> x))) (\<lambda>found.
        case found of
          Some inst \<Rightarrow> ret inst
        | None \<Rightarrow>
            bindo (attempt (outside (in_ListInstances i))) (\<lambda>r.
              ret (case r of
                     Inl e \<Rightarrow> missing
                   | Inr all \<Rightarrow> (case find (\<lambda>x. Number x = n) all of Some x \<Rightarrow> x | None \<Rightarrow> missing)))))"

definition latestVersionForRef :: "'w Checker \<Rightarrow> ModRef \<Rightarrow> Instance \<Rightarrow> ('w, string) ckop" where
  "latestVersionForRef c ref inst =
     (case ck_cat c of
        None \<Rightarrow> ret ''''
      | Some cat \<Rightarrow>
          outside (case cat_instance cat of
                     Some ic \<Rightarrow> ic_LatestVersionForInstance ic ref inst
                   | None \<Rightarrow> cat_LatestVersion cat (mr_Namespace ref) (mr_Name ref)))"

definition resolveTreeForRef :: "'w Checker \<Rightarrow> ModRef \<Rightarrow> Instance \<Rightarrow> ('w, string list) ckop" where
  "resolveTreeForRef c ref inst =
     (case ck_cat c of
        None \<Rightarrow> ret []
      | Some cat \<Rightarrow>
          outside (case cat_instance cat of
                     Some ic \<Rightarrow> ic_ResolveTreeForInstance ic ref inst
                   | None \<Rightarrow> cat_ResolveTree cat (mr_Namespace ref) (mr_Name ref)))"

definition watched_refs :: "GameID \<Rightarrow> string list \<Rightarrow> ModRef list" where
  "watched_refs g entries =
     List.map_filter (\<lambda>e. case ParseModRef e g of
         None \<Rightarrow> None
       | Some ref \<Rightarrow> (if g = GameValheim \<and> mr_Namespace ref = '''' then None else Some ref)) entries"

definition retryable :: "goerr \<Rightarrow> bool" where
  "retryable e \<longleftrightarrow> \<not> errors_is e ErrPackageNotFound \<and> \<not> errors_is e ErrRateLimited"

definition lookup_ref :: "'w Checker \<Rightarrow> Instance \<Rightarrow> ModRef \<Rightarrow> ('w, ModRef \<times> (goerr + string)) ckop" where
  \<comment> \<open>one result: the index when it knows the package, else the catalogue, asked again once\<close>
  "lookup_ref c inst ref =
     bindo (gets (\<lambda>s. case ck_cat c of
                Some cat \<Rightarrow> (case cat_index cat of
                    Some ix \<Rightarrow> ix_LatestVersionFromIndex ix (mr_Namespace ref) (mr_Name ref) (cs_out s)
                  | None \<Rightarrow> None)
              | None \<Rightarrow> None)) (\<lambda>indexed.
     case indexed of
       Some v \<Rightarrow> ret (ref, Inr v)
     | None \<Rightarrow>
         bindo (attempt (latestVersionForRef c ref inst)) (\<lambda>r.
         bindo (gets (\<lambda>s. ck_cancelled c (cs_out s))) (\<lambda>cancelled.
           case r of
             Inr v \<Rightarrow> ret (ref, r)
           | Inl e \<Rightarrow>
               (if retryable e \<and> \<not> cancelled
                then bindo (attempt (latestVersionForRef c ref inst)) (\<lambda>r. ret (ref, r))
                else ret (ref, r)))))"

definition add_result :: "GameID \<Rightarrow> ModRef \<times> (goerr + string) \<Rightarrow> Report \<Rightarrow> Report" where
  "add_result g x rep =
     (case x of
        (ref, Inl e) \<Rightarrow>
          (if errors_is e ErrPackageNotFound then rep\<lparr>rep_Missing := rep_Missing rep @ [ref]\<rparr>
           else rep\<lparr>rep_Unreachable := rep_Unreachable rep @ [ref]\<rparr>)
      | (ref, Inr latest) \<Rightarrow>
          (let rep = rep\<lparr>rep_Checked := rep_Checked rep + 1\<rparr>;
               current = (if mr_Version ref = '''' then ''(unpinned)'' else mr_Version ref)
           in if latest = '''' then rep
              else if g = GameValheim \<and> mr_Version ref = '''' then rep
              else if VersionNewer latest current
              then rep\<lparr>rep_Updates := rep_Updates rep @ [\<lparr>mu_Ref = ref, mu_Current = current, mu_Latest = latest\<rparr>]\<rparr>
              else rep))"

definition sorted_report :: "Report \<Rightarrow> Report" where
  "sorted_report rep =
     rep\<lparr>rep_Updates := sort_key (\<lambda>u. ModRef_Key (mu_Ref u)) (rep_Updates rep),
         rep_Missing := sort_key ModRef_Key (rep_Missing rep),
         rep_Unreachable := sort_key ModRef_Key (rep_Unreachable rep)\<rparr>"

definition refresh_index :: "'w Checker \<Rightarrow> ('w, unit) ckop" where
  "refresh_index c =
     (case ck_cat c of
        Some cat \<Rightarrow> (case cat_index cat of
            Some ix \<Rightarrow> modify (\<lambda>s. s\<lparr>cs_out := ix_RefreshIndexIfStale ix indexFreshFor (cs_out s)\<rparr>)
          | None \<Rightarrow> ret ())
      | None \<Rightarrow> ret ())"

definition report_on :: "'w Checker \<Rightarrow> Instance \<Rightarrow> ModRef list \<Rightarrow> ('w, Report) ckop" where
  "report_on c inst refs =
     bindo (clock c) (\<lambda>now.
       let rep = zero_report\<lparr>rep_Total := length refs, rep_At := now\<rparr>
       in if refs = [] then ret rep
          else seqo (refresh_index c)
            (bindo (mapO (lookup_ref c inst) refs) (\<lambda>results.
               ret (sorted_report (fold (add_result (ck_gameID c)) results rep)))))"

definition compute :: "'w Checker \<Rightarrow> int \<Rightarrow> ('w, Report) ckop" where
  "compute c n =
     with_insts c (\<lambda>i.
     bindo (getInstance c n) (\<lambda>inst.
       if IsVanilla inst \<or> PackDefined inst then bindo (clock c) (\<lambda>now. ret (zero_report\<lparr>rep_At := now\<rparr>))
       else bindo (outside (in_GetInstalledMods i n)) (\<lambda>entries.
              report_on c inst (watched_refs (ck_gameID c) entries))))"

section \<open>The last answers\<close>

definition set_snap :: "int \<Rightarrow> snapshot \<Rightarrow> ('w, unit) ckop" where
  "set_snap n x = modify (\<lambda>s. s\<lparr>cs_snap := AList.update n x (cs_snap s)\<rparr>)"

definition RefreshOne :: "'w Checker \<Rightarrow> int \<Rightarrow> ('w, Report) ckop" where
  "RefreshOne c n =
     (if Option.is_none (ck_insts c) \<or> Option.is_none (ck_cat c) then ret zero_report
      else bindo (attempt (compute c n)) (\<lambda>r.
           seqo (set_snap n (case r of
                   Inl e \<Rightarrow> \<lparr>sn_report = zero_report, sn_err = Some e\<rparr>
                 | Inr rep \<Rightarrow> \<lparr>sn_report = rep, sn_err = None\<rparr>))
             (of_sum r)))"

definition Refresh :: "'w Checker \<Rightarrow> ('w, unit) ckop" where
  "Refresh c =
     (case ck_insts c of
        None \<Rightarrow> ret ()
      | Some i \<Rightarrow>
          bindo (attempt (outside (in_ListInstances i))) (\<lambda>r.
            case r of
              Inl e \<Rightarrow> ret ()
            | Inr insts \<Rightarrow>
                forO (\<lambda>inst. if IsVanilla inst \<or> PackDefined inst then ret ()
                              else ignore (RefreshOne c (Number inst))) insts))"

definition zero_snapshot :: snapshot where
  "zero_snapshot = \<lparr>sn_report = zero_report, sn_err = None\<rparr>"

definition Report_of :: "int \<Rightarrow> 'w CheckerState \<Rightarrow> Report" where
  "Report_of n s = sn_report (mget (cs_snap s) n zero_snapshot)"

definition LastError :: "int \<Rightarrow> 'w CheckerState \<Rightarrow> goerr option" where
  "LastError n s = sn_err (mget (cs_snap s) n zero_snapshot)"

definition Updates :: "int \<Rightarrow> 'w CheckerState \<Rightarrow> ModUpdate list" where
  "Updates n s = rep_Updates (Report_of n s)"

definition Count :: "int \<Rightarrow> 'w CheckerState \<Rightarrow> nat" where
  "Count n s = length (rep_Updates (Report_of n s))"

definition Counts :: "'w CheckerState \<Rightarrow> (int \<times> nat) list" where
  "Counts s = map (\<lambda>(n, x). (n, length (rep_Updates (sn_report x)))) (cs_snap s)"

definition Total :: "'w CheckerState \<Rightarrow> nat" where
  "Total s = sum_list (map snd (Counts s))"

section \<open>Waiting for the cluster\<close>

definition clearPending :: "int \<Rightarrow> ('w, unit) ckop" where
  "clearPending n = modify (\<lambda>s. s\<lparr>cs_pend := AList.delete n (cs_pend s)\<rparr>)"

definition markPending :: "'w Checker \<Rightarrow> int \<Rightarrow> string list \<Rightarrow> ('w, unit) ckop" where
  "markPending c n entries =
     bindo (clock c) (\<lambda>now. modify (\<lambda>s. s\<lparr>cs_pend := AList.update n \<lparr>pe_want = entries, pe_at = now\<rparr> (cs_pend s)\<rparr>))"

definition Pending :: "'w Checker \<Rightarrow> int \<Rightarrow> ('w, bool) ckop" where
  "Pending c n =
     bindo (gets (\<lambda>s. map_of (cs_pend s) n)) (\<lambda>p.
       case p of
         None \<Rightarrow> ret False
       | Some p \<Rightarrow>
           bindo (clock c) (\<lambda>now.
             if now - pe_at p > pendingTTL then seqo (clearPending n) (ret False)
             else with_insts c (\<lambda>i.
                  bindo (attempt (outside (in_GetInstalledMods i n))) (\<lambda>r.
                    case r of
                      Inl e \<Rightarrow> ret True
                    | Inr entries \<Rightarrow>
                        (if list_ex (\<lambda>e. e \<notin> set entries) (pe_want p) then ret True
                         else seqo (clearPending n) (ret False))))))"

section \<open>Applying updates\<close>

record ModPlan =
  mp_order :: "string list"
  mp_byKey :: "(string \<times> ModRef) list"

definition zero_ref :: ModRef where "zero_ref = mod_ref '''' '''' ''''"

definition index_entry :: "GameID \<Rightarrow> string \<Rightarrow> ModPlan \<Rightarrow> ModPlan" where
  "index_entry g e pl =
     (case ParseModRef e g of
        None \<Rightarrow> pl
      | Some ref \<Rightarrow>
          \<lparr>mp_order = (if map_of (mp_byKey pl) (ModRef_Key ref) = None then mp_order pl @ [ModRef_Key ref] else mp_order pl),
           mp_byKey = AList.update (ModRef_Key ref) ref (mp_byKey pl)\<rparr>)"

definition merge_resolved :: "GameID \<Rightarrow> ModUpdate \<Rightarrow> string \<Rightarrow> ModPlan \<Rightarrow> ModPlan" where
  \<comment> \<open>one entry of a target's tree: new, the target itself, or newer than what the plan has\<close>
  "merge_resolved g t r pl =
     (case ParseModRef r g of
        None \<Rightarrow> pl
      | Some ref \<Rightarrow>
          (if mr_Version ref = '''' then pl
           else case map_of (mp_byKey pl) (ModRef_Key ref) of
                  None \<Rightarrow>
                    \<lparr>mp_order = mp_order pl @ [ModRef_Key ref],
                     mp_byKey = AList.update (ModRef_Key ref) ref (mp_byKey pl)\<rparr>
                | Some cur \<Rightarrow>
                    (if ModRef_Key ref = ModRef_Key (mu_Ref t) \<or> VersionNewer (mr_Version ref) (mr_Version cur)
                     then pl\<lparr>mp_byKey := AList.update (ModRef_Key ref) ref (mp_byKey pl)\<rparr> else pl)))"

definition pin_latest :: "ModUpdate \<Rightarrow> ModPlan \<Rightarrow> ModPlan" where
  "pin_latest t pl =
     (let k = ModRef_Key (mu_Ref t); cur = mget (mp_byKey pl) k zero_ref
      in if mr_Version cur = mu_Latest t then pl
         else pl\<lparr>mp_byKey := AList.update k (cur\<lparr>mr_Version := mu_Latest t\<rparr>) (mp_byKey pl)\<rparr>)"

definition merge_target :: "GameID \<Rightarrow> ModUpdate \<Rightarrow> string list \<Rightarrow> ModPlan \<Rightarrow> ModPlan" where
  "merge_target g t resolved pl = pin_latest t (fold (merge_resolved g t) resolved pl)"

fun plan_targets :: "'w Checker \<Rightarrow> Instance \<Rightarrow> ModUpdate list \<Rightarrow> ModPlan \<Rightarrow> ('w, ModPlan) ckop" where
  "plan_targets c inst [] pl = ret pl"
| "plan_targets c inst (t # ts) pl =
     bindo (wrapped (''cannot resolve '' @ ModRef_FullName (mu_Ref t) @ '': '') (resolveTreeForRef c (mu_Ref t) inst))
       (\<lambda>resolved. plan_targets c inst ts (merge_target (ck_gameID c) t resolved pl))"

definition plan_entries :: "ModPlan \<Rightarrow> string list" where
  "plan_entries pl = map (\<lambda>k. ModRef_Entry (mget (mp_byKey pl) k zero_ref)) (mp_order pl)"

definition updateDetail :: "ModUpdate list \<Rightarrow> string" where
  \<comment> \<open>the arrow is three bytes of UTF-8\<close>
  "updateDetail ups =
     join '', '' (map (\<lambda>u. ModRef_FullName (mu_Ref u) @ '' '' @ mu_Current u @ '' '' @
        [char_of (226 :: nat), char_of (134 :: nat), char_of (146 :: nat)] @ '' '' @ mu_Latest u) ups)"

definition forget :: "int \<Rightarrow> ModUpdate list \<Rightarrow> ('w, unit) ckop" where
  "forget n applied =
     modify (\<lambda>s.
       let x = mget (cs_snap s) n zero_snapshot;
           done_keys = map (\<lambda>u. ModRef_Key (mu_Ref u)) applied;
           kept = filter (\<lambda>u. ModRef_Key (mu_Ref u) \<notin> set done_keys) (rep_Updates (sn_report x))
       in s\<lparr>cs_snap := AList.update n (x\<lparr>sn_report := (sn_report x)\<lparr>rep_Updates := kept\<rparr>\<rparr>) (cs_snap s)\<rparr>)"

definition saveRestorePoint :: "'w Checker \<Rightarrow> int \<Rightarrow> string list \<Rightarrow> string list \<Rightarrow> ('w, unit) ckop" where
  "saveRestorePoint c n previous applied =
     optO (ck_restore c) (\<lambda>db.
       bindo (clock c) (\<lambda>now.
       modify (\<lambda>s. s\<lparr>cs_points := snd (SaveRestorePoint db now (ck_gameID c) n previous applied (cs_points s))\<rparr>)))"

definition write_plan :: "'w Checker \<Rightarrow> 'w Insts \<Rightarrow> int \<Rightarrow> ModUpdate list \<Rightarrow> string list \<Rightarrow> string list \<Rightarrow> string \<Rightarrow>
    ('w, ModUpdate list) ckop" where
  \<comment> \<open>\<open>Apply\<close> once the new list is known\<close>
  "write_plan c i n targets previous out actor =
     bindo (outside (in_ReplaceMods i n out (updateDetail targets) [actor])) (\<lambda>changed.
     seqo (forget n targets)
       (if \<not> changed then ret []
        else seqo (markPending c n out) (seqo (saveRestorePoint c n previous out) (ret targets))))"

definition wanted_updates :: "string list \<Rightarrow> ModUpdate list \<Rightarrow> ModUpdate list" where
  "wanted_updates keys available = filter (\<lambda>u. keys = [] \<or> ModRef_Key (mu_Ref u) \<in> set keys) available"

definition Apply :: "'w Checker \<Rightarrow> int \<Rightarrow> string list \<Rightarrow> string \<Rightarrow> ('w, ModUpdate list) ckop" where
  "Apply c n keys actor =
     (if Option.is_none (ck_insts c) \<or> Option.is_none (ck_cat c) then fail (Errorf ''mod updates unavailable'')
      else with_insts c (\<lambda>i.
        bindo (gets (Updates n)) (\<lambda>known.
        bindo (if known = [] then bindo (RefreshOne c n) (\<lambda>rep. ret (rep_Updates rep)) else ret known) (\<lambda>available.
          if available = [] then ret []
          else let targets = wanted_updates keys available
               in if targets = [] then fail (Errorf ''none of the selected mods have an update'')
                  else bindo (getInstance c n) (\<lambda>inst.
                       bindo (outside (in_GetInstalledMods i n)) (\<lambda>previous.
                       bindo (plan_targets c inst targets
                                (fold (index_entry (ck_gameID c)) previous \<lparr>mp_order = [], mp_byKey = []\<rparr>)) (\<lambda>pl.
                         write_plan c i n targets previous (plan_entries pl) actor)))))))"

section \<open>Undo\<close>

definition clear_point :: "'w Checker \<Rightarrow> Db \<Rightarrow> int \<Rightarrow> ('w, unit) ckop" where
  "clear_point c db n = modify (\<lambda>s. s\<lparr>cs_points := snd (ClearRestorePoint db (ck_gameID c) n (cs_points s))\<rparr>)"

definition RestoreAvailable :: "'w Checker \<Rightarrow> int \<Rightarrow> ('w, ModRestorePoint option) ckop" where
  "RestoreAvailable c n =
     (case ck_restore c of
        None \<Rightarrow> ret None
      | Some db \<Rightarrow>
          bindo (gets (\<lambda>s. RestorePoint db (ck_gameID c) n (cs_points s))) (\<lambda>r.
            case r of
              Inl e \<Rightarrow> fail e
            | Inr None \<Rightarrow> ret None
            | Inr (Some rp) \<Rightarrow>
                with_insts c (\<lambda>i.
                bindo (outside (in_GetInstalledMods i n)) (\<lambda>entries.
                  if Matches rp entries then ret (Some rp) else seqo (clear_point c db n) (ret None)))))"

definition Undo :: "'w Checker \<Rightarrow> int \<Rightarrow> string \<Rightarrow> ('w, ModRestorePoint) ckop" where
  "Undo c n actor =
     (case ck_restore c of
        None \<Rightarrow> fail (Errorf ''no restore point is available'')
      | Some db \<Rightarrow>
          bindo (RestoreAvailable c n) (\<lambda>r.
            case r of
              None \<Rightarrow> fail (Errorf ''no restore point is available'')
            | Some rp \<Rightarrow>
                with_insts c (\<lambda>i.
                bindo (outside (in_ReplaceMods i n (rp_Previous rp) ''Reverted the last mod update'' [actor])) (\<lambda>changed.
                seqo (whenO changed (markPending c n (rp_Previous rp)))
                (seqo (clear_point c db n)
                (seqo (ignore (RefreshOne c n))
                  (ret rp)))))))"

end
