(* ===== verification/ModUpdatesProofs.thy ===== *)
theory ModUpdatesProofs
  imports ModUpdates ManagerModsProofs
begin

text \<open>
  What the update checker promises: an update never drops or downgrades a mod it was not asked to
  change, a report accounts for every mod, and undoing an update writes back the list from before it.
\<close>

section \<open>Plans\<close>

definition upgraded :: "string \<Rightarrow> string \<Rightarrow> bool" where
  \<comment> \<open>reached by steps that each go to a newer version\<close>
  "upgraded = (\<lambda>a b. VersionNewer b a)\<^sup>*\<^sup>*"

lemma upgraded_refl [simp]: "upgraded v v"
  by (simp add: upgraded_def)

lemma upgraded_step: "upgraded u v \<Longrightarrow> VersionNewer w v \<Longrightarrow> upgraded u w"
  unfolding upgraded_def by (rule rtranclp.rtrancl_into_rtrancl)

definition plan_ok :: "ModPlan \<Rightarrow> bool" where
  "plan_ok pl \<longleftrightarrow> distinct (mp_order pl) \<and>
     (\<forall>k\<in>set (mp_order pl). \<exists>r. map_of (mp_byKey pl) k = Some r \<and> ModRef_Key r = k)"

definition planned :: "ModPlan \<Rightarrow> string \<Rightarrow> ModRef option" where
  "planned pl k = (if k \<in> set (mp_order pl) then map_of (mp_byKey pl) k else None)"

lemma plan_ok_planned: "plan_ok pl \<Longrightarrow> k \<in> set (mp_order pl) \<longleftrightarrow> (\<exists>r. planned pl k = Some r \<and> ModRef_Key r = k)"
  by (auto simp: plan_ok_def planned_def split: if_splits)

lemma key_of_pinned [simp]: "ModRef_Key (r\<lparr>mr_Version := v\<rparr>) = ModRef_Key r"
  by (simp add: ModRef_Key_def)

definition installed_ref :: "GameID \<Rightarrow> string list \<Rightarrow> string \<Rightarrow> ModRef option" where
  \<comment> \<open>the last entry of a list under a key\<close>
  "installed_ref g es k =
     fold (\<lambda>e x. case ParseModRef e g of Some r \<Rightarrow> (if ModRef_Key r = k then Some r else x) | None \<Rightarrow> x) es None"

lemma index_entry_ok: "plan_ok pl \<Longrightarrow> set (mp_order pl) = fst ` set (mp_byKey pl) \<Longrightarrow>
    plan_ok (index_entry g e pl) \<and> set (mp_order (index_entry g e pl)) = fst ` set (mp_byKey (index_entry g e pl))"
  by (auto simp: index_entry_def plan_ok_def update_conv' dom_update map_of_eq_None_iff split: option.split)

lemma index_entries:
  assumes "plan_ok pl" and "set (mp_order pl) = fst ` set (mp_byKey pl)"
  shows "plan_ok (fold (index_entry g) es pl)" (is ?ok)
    and "planned (fold (index_entry g) es pl) k =
      fold (\<lambda>e x. case ParseModRef e g of Some r \<Rightarrow> (if ModRef_Key r = k then Some r else x) | None \<Rightarrow> x) es (planned pl k)"
  using assms
proof (induction es arbitrary: pl)
  case (Cons e es)
  {
    case 1
    then show ?case using Cons.IH(1) index_entry_ok [OF 1] by simp
  next
    case 2
    then have "planned (index_entry g e pl) k =
        (case ParseModRef e g of Some r \<Rightarrow> (if ModRef_Key r = k then Some r else planned pl k) | None \<Rightarrow> planned pl k)"
      by (auto simp: index_entry_def planned_def update_conv' map_of_eq_None_iff split: option.split)
    then show ?case using Cons.IH(2) index_entry_ok [OF 2] by simp
  }
qed simp_all

definition moves :: "ModUpdate list \<Rightarrow> ModPlan \<Rightarrow> ModPlan \<Rightarrow> bool" where
  \<comment> \<open>nothing is dropped; what was not a target is kept or newer, a target is at its version or newer\<close>
  "moves ts pl pl' \<longleftrightarrow> plan_ok pl' \<and>
     (\<forall>k r. planned pl k = Some r \<longrightarrow> (\<exists>r'. planned pl' k = Some r' \<and>
        (if k \<in> (\<lambda>t. ModRef_Key (mu_Ref t)) ` set ts
         then \<exists>t\<in>set ts. ModRef_Key (mu_Ref t) = k \<and> upgraded (mu_Latest t) (mr_Version r')
         else upgraded (mr_Version r) (mr_Version r'))))"

lemma moves_single:
  "moves [t] pl pl' \<longleftrightarrow> plan_ok pl' \<and>
     (\<forall>k r. planned pl k = Some r \<longrightarrow> (\<exists>r'. planned pl' k = Some r' \<and>
        (if k = ModRef_Key (mu_Ref t) then upgraded (mu_Latest t) (mr_Version r')
         else upgraded (mr_Version r) (mr_Version r'))))"
proof -
  have "(if k \<in> (\<lambda>t. ModRef_Key (mu_Ref t)) ` set [t]
         then \<exists>t\<in>set [t]. ModRef_Key (mu_Ref t) = k \<and> upgraded (mu_Latest t) v else x) =
        (if k = ModRef_Key (mu_Ref t) then upgraded (mu_Latest t) v else x)" for k v x
    by auto
  then show ?thesis unfolding moves_def by (simp only:)
qed

lemma merge_resolved_planned:
  assumes "plan_ok pl"
  shows "plan_ok (merge_resolved g t e pl)"
    and "planned pl k = Some r \<Longrightarrow> \<exists>r'. planned (merge_resolved g t e pl) k = Some r' \<and>
      (k \<noteq> ModRef_Key (mu_Ref t) \<longrightarrow> upgraded (mr_Version r) (mr_Version r'))"
proof -
  show "plan_ok (merge_resolved g t e pl)"
    using assms by (auto simp: merge_resolved_def plan_ok_def update_conv' split: option.split)
  assume "planned pl k = Some r"
  then have k: "k \<in> set (mp_order pl)" "map_of (mp_byKey pl) k = Some r" by (auto simp: planned_def split: if_splits)
  show "\<exists>r'. planned (merge_resolved g t e pl) k = Some r' \<and>
      (k \<noteq> ModRef_Key (mu_Ref t) \<longrightarrow> upgraded (mr_Version r) (mr_Version r'))"
    using k by (auto simp: merge_resolved_def planned_def update_conv' intro: upgraded_step [OF upgraded_refl] split: option.split)
qed

lemma merge_tree_planned:
  assumes "plan_ok pl"
  shows "plan_ok (fold (merge_resolved g t) es pl)"
    and "planned pl k = Some r \<Longrightarrow> \<exists>r'. planned (fold (merge_resolved g t) es pl) k = Some r' \<and>
      (k \<noteq> ModRef_Key (mu_Ref t) \<longrightarrow> upgraded (mr_Version r) (mr_Version r'))"
  using assms
proof (induction es arbitrary: pl r)
  case (Cons e es)
  {
    case 1
    then show ?case using Cons.IH(1) merge_resolved_planned(1) by simp
  next
    case 2
    from merge_resolved_planned(2) [OF 2(2,1)] obtain r1 where
      r1: "planned (merge_resolved g t e pl) k = Some r1" "k \<noteq> ModRef_Key (mu_Ref t) \<longrightarrow> upgraded (mr_Version r) (mr_Version r1)"
      by blast
    from Cons.IH(2) [OF r1(1) merge_resolved_planned(1) [OF 2(2)]] r1(2) show ?case
      unfolding upgraded_def by (auto intro: rtranclp_trans)
  }
qed auto

lemma merge_target_moves:
  assumes "plan_ok pl"
  shows "moves [t] pl (merge_target g t es pl)"
proof -
  let ?f = "fold (merge_resolved g t) es pl" and ?key = "ModRef_Key (mu_Ref t)"
  have ok: "plan_ok ?f" by (rule merge_tree_planned(1) [OF assms])
  have "plan_ok (pin_latest t ?f)"
    using ok by (auto simp: plan_ok_def pin_latest_def Let_def update_conv' mget_def)
  moreover have "\<exists>r'. planned (pin_latest t ?f) k = Some r' \<and>
      (if k = ?key then upgraded (mu_Latest t) (mr_Version r') else upgraded (mr_Version r) (mr_Version r'))"
    if r: "planned pl k = Some r" for k r
  proof -
    obtain r1 where r1: "planned ?f k = Some r1" "k \<noteq> ?key \<longrightarrow> upgraded (mr_Version r) (mr_Version r1)"
      using merge_tree_planned(2) [OF assms r] by blast
    then show ?thesis
      by (auto simp: pin_latest_def Let_def planned_def update_conv' mget_def split: if_splits)
  qed
  ultimately show ?thesis by (simp only: moves_single merge_target_def) blast
qed

lemma moves_Cons:
  assumes "moves [t] pl pl1" and "moves ts pl1 pl2"
  shows "moves (t # ts) pl pl2"
  unfolding moves_def
proof (intro conjI allI impI)
  show "plan_ok pl2" using assms(2) by (simp add: moves_def)
  fix k r assume k: "planned pl k = Some r"
  from assms(1) have "planned pl k = Some r \<Longrightarrow> \<exists>r'. planned pl1 k = Some r' \<and>
      (if k = ModRef_Key (mu_Ref t) then upgraded (mu_Latest t) (mr_Version r') else upgraded (mr_Version r) (mr_Version r'))"
    by (simp only: moves_single)
  then obtain r1 where r1: "planned pl1 k = Some r1"
    "if k = ModRef_Key (mu_Ref t) then upgraded (mu_Latest t) (mr_Version r1) else upgraded (mr_Version r) (mr_Version r1)"
    using k by blast
  then obtain r2 where r2: "planned pl2 k = Some r2"
    "if k \<in> (\<lambda>t. ModRef_Key (mu_Ref t)) ` set ts
     then \<exists>t\<in>set ts. ModRef_Key (mu_Ref t) = k \<and> upgraded (mu_Latest t) (mr_Version r2)
     else upgraded (mr_Version r1) (mr_Version r2)"
    using assms(2) unfolding moves_def by meson
  have trans: "upgraded a b \<Longrightarrow> upgraded b d \<Longrightarrow> upgraded a d" for a b d
    unfolding upgraded_def by (rule rtranclp_trans)
  show "\<exists>r'. planned pl2 k = Some r' \<and>
      (if k \<in> (\<lambda>t. ModRef_Key (mu_Ref t)) ` set (t # ts)
       then \<exists>t\<in>set (t # ts). ModRef_Key (mu_Ref t) = k \<and> upgraded (mu_Latest t) (mr_Version r')
       else upgraded (mr_Version r) (mr_Version r'))"
    using r1(2) r2 trans by (auto split: if_splits)
qed

lemma plan_targets_moves:
  assumes "plan_targets c inst ts pl s = (Ok pl', s')" and "plan_ok pl"
  shows "moves ts pl pl'"
  using assms
proof (induction ts arbitrary: pl s)
  case Nil
  then show ?case by (auto simp: moves_def ret_def)
next
  case (Cons t ts)
  from Cons.prems(1) obtain resolved s1 where
    "plan_targets c inst ts (merge_target (ck_gameID c) t resolved pl) s1 = (Ok pl', s')"
    by (auto elim: bindo_cases)
  moreover have m: "moves [t] pl (merge_target (ck_gameID c) t resolved pl)"
    by (rule merge_target_moves [OF Cons.prems(2)])
  moreover have "plan_ok (merge_target (ck_gameID c) t resolved pl)" using m by (simp add: moves_def)
  ultimately show ?case using Cons.IH moves_Cons by blast
qed

section \<open>Applying\<close>

lemma with_insts_some: "ck_insts c = Some i \<Longrightarrow> with_insts c k = k i"
  by (simp add: with_insts_def)

lemma bindo_gets: "bindo (gets f) k s = k (f s) s"
  by (simp add: bindo_def gets_def)

lemma write_plan_run:
  assumes "write_plan c i n targets previous out actor s = (Ok ts, s')" and "ts \<noteq> []"
  obtains p w w' s1 where "ts = targets" "map_of (cs_pend s') n = Some p" "pe_want p = out"
    "in_ReplaceMods i n out (updateDetail targets) [actor] w = (Ok True, w')"
    "cs_points s' = (case ck_restore c of None \<Rightarrow> cs_points s
       | Some db \<Rightarrow> snd (SaveRestorePoint db (ck_now c (cs_out s')) (ck_gameID c) n previous out (cs_points s)))"
    "cs_out s = w" "cs_out s' = w'" "\<And>k. k \<noteq> n \<Longrightarrow> map_of (cs_pend s') k = map_of (cs_pend s) k"
proof -
  from assms obtain x y where run: "in_ReplaceMods i n out (updateDetail targets) [actor] (cs_out s) = (Ok True, x)"
    and ts: "ts = targets"
    and s': "s' = s\<lparr>cs_out := x, cs_snap := y, cs_pend := AList.update n \<lparr>pe_want = out, pe_at = ck_now c x\<rparr> (cs_pend s),
      cs_points := (case ck_restore c of None \<Rightarrow> cs_points s
       | Some db \<Rightarrow> snd (SaveRestorePoint db (ck_now c x) (ck_gameID c) n previous out (cs_points s)))\<rparr>"
    by (auto simp: write_plan_def outside_def zoom_def bindo_def seqo_def forget_def modify_def ret_def Let_def markPending_def
        clock_def gets_def saveRestorePoint_def optO_def split: prod.splits res.splits if_splits option.splits)
  show ?thesis
    by (rule that [of "\<lparr>pe_want = out, pe_at = ck_now c x\<rparr>" "cs_out s" x])
      (use run ts in \<open>simp_all add: s' update_conv' split: option.split\<close>)
qed

lemma plan_targets_points:
  "plan_targets c inst ts pl s = (Ok pl', s') \<Longrightarrow> cs_points s' = cs_points s"
proof (induction ts arbitrary: pl s)
  case (Cons t ts)
  have "cs_points s1 = cs_points s0"
    if "wrapped x (resolveTreeForRef c (mu_Ref t) inst) s0 = (Ok y, s1)" for x y s0 s1
    using that by (auto simp: wrapped_def resolveTreeForRef_def outside_def zoom_def ret_def
        split: option.splits prod.splits res.splits)
  with Cons show ?case by (force elim!: bindo_cases)
qed (auto simp: ret_def)

definition entry_upgraded :: "ModUpdate list \<Rightarrow> string \<Rightarrow> ModRef \<Rightarrow> ModRef \<Rightarrow> bool" where
  \<comment> \<open>how the entry of a mod may change when an update of \<open>ts\<close> is applied\<close>
  "entry_upgraded ts k old new \<longleftrightarrow> ModRef_Key new = k \<and>
     (if k \<in> (\<lambda>t. ModRef_Key (mu_Ref t)) ` set ts
      then \<exists>t\<in>set ts. ModRef_Key (mu_Ref t) = k \<and> upgraded (mu_Latest t) (mr_Version new)
      else upgraded (mr_Version old) (mr_Version new))"

definition list_read :: "'w Checker \<Rightarrow> 'w Insts \<Rightarrow> int \<Rightarrow> 'w CheckerState \<Rightarrow> string list \<Rightarrow> bool" where
  \<comment> \<open>the list \<open>Apply\<close> reads: after a refresh when no update is known, and after reading the world\<close>
  "list_read c i n s previous \<longleftrightarrow>
     (let s' = (if Updates n s = [] then snd (RefreshOne c n s) else s)
      in fst (in_GetInstalledMods i n (cs_out (snd (getInstance c n s')))) = Ok previous)"

lemma Apply_run:
  assumes "Apply c n keys actor s = (Ok ts, s')" and "ts \<noteq> []" and "ck_insts c = Some i"
  obtains previous inst pl s1 s2 available where
    "list_read c i n s previous" "cs_points s2 = cs_points s1"
    "plan_targets c inst ts (fold (index_entry (ck_gameID c)) previous \<lparr>mp_order = [], mp_byKey = []\<rparr>) s1 = (Ok pl, s2)"
    "write_plan c i n ts previous (plan_entries pl) actor s2 = (Ok ts, s')" "ts = wanted_updates keys available"
proof -
  have "ck_cat c \<noteq> None"
  proof
    assume "ck_cat c = None"
    then show False using assms(1) by (simp add: Apply_def fail_def)
  qed
  then obtain cat where cat: "ck_cat c = Some cat" by blast
  define tail where "tail = (\<lambda>available. bindo (getInstance c n) (\<lambda>inst. bindo (outside (in_GetInstalledMods i n)) (\<lambda>previous.
        bindo (plan_targets c inst (wanted_updates keys available)
          (fold (index_entry (ck_gameID c)) previous \<lparr>mp_order = [], mp_byKey = []\<rparr>)) (\<lambda>pl.
        write_plan c i n (wanted_updates keys available) previous (plan_entries pl) actor))))"
  have "bindo (if Updates n s = [] then bindo (RefreshOne c n) (\<lambda>rep. ret (rep_Updates rep)) else ret (Updates n s))
      (\<lambda>available. if available = [] then ret [] else if wanted_updates keys available = []
         then fail (Errorf ''none of the selected mods have an update'') else tail available) s = (Ok ts, s')"
    using assms(1,3) cat unfolding Apply_def with_insts_some [OF assms(3)] Let_def tail_def bindo_gets
    by (simp split del: if_split)
  with assms(2) obtain available s0 where s0: "s0 = (if Updates n s = [] then snd (RefreshOne c n s) else s)"
    and run: "tail available s0 = (Ok ts, s')"
    by (auto simp: ret_def fail_def elim!: bindo_cases split: if_splits)
  from run [unfolded tail_def] obtain inst s3 previous s1 pl s2 where r: "getInstance c n s0 = (Ok inst, s3)"
    "outside (in_GetInstalledMods i n) s3 = (Ok previous, s1)"
    "plan_targets c inst (wanted_updates keys available)
          (fold (index_entry (ck_gameID c)) previous \<lparr>mp_order = [], mp_byKey = []\<rparr>) s1 = (Ok pl, s2)"
    "write_plan c i n (wanted_updates keys available) previous (plan_entries pl) actor s2 = (Ok ts, s')"
    by (auto elim!: bindo_cases)
  obtain p w w' where "ts = wanted_updates keys available" by (rule write_plan_run [OF r(4) assms(2)])
  moreover have "list_read c i n s previous"
    using r(1,2) by (auto simp: list_read_def Let_def s0 [symmetric] outside_def zoom_def split: prod.splits)
  moreover have "cs_points s2 = cs_points s1" using r(3) by (rule plan_targets_points)
  ultimately show ?thesis using that r(3,4) by blast
qed


section \<open>Undoing\<close>

abbreviation nonempty :: "string list \<Rightarrow> string list" where
  "nonempty \<equiv> filter (\<lambda>e. e \<noteq> [])"

lemma restore_text:
  \<comment> \<open>a list of one empty entry comes back without it\<close>
  assumes "list_all (\<lambda>e. NL \<notin> set e) xs"
  shows "nonempty (splitRestore (join [NL] xs)) = nonempty xs"
proof (cases "xs = [] \<or> xs = [[]]")
  case False
  then have "split_on NL (join [NL] xs) = xs" using assms by (intro split_on_join) (auto simp: list_all_iff)
  moreover have "join [NL] xs \<noteq> []"
  proof (cases xs)
    case (Cons x ys)
    then show ?thesis using False by (cases ys) auto
  qed (use False in simp)
  ultimately show ?thesis by (simp add: splitRestore_def)
next
  case True
  then show ?thesis by (elim disjE) (simp_all add: splitRestore_def)
qed

lemma RestorePoint_saved:
  assumes "db ''save restore point'' = None" and "db ''restore point'' = None"
  shows "RestorePoint db g n (snd (SaveRestorePoint db now g n previous applied t)) =
    Inr (Some \<lparr>rp_At = now, rp_Previous = splitRestore (join [NL] previous), rp_Applied = splitRestore (join [NL] applied)\<rparr>)"
  using assms by (simp add: RestorePoint_def SaveRestorePoint_def update_conv')

lemma Undo_run:
  assumes "Undo c n actor s = (Ok rp, s')" and "ck_insts c = Some i" and "ck_restore c = Some db"
  obtains entries changed w1 w2 where
    "in_GetInstalledMods i n (cs_out s) = (Ok entries, w1)" "Matches rp entries"
    "RestorePoint db (ck_gameID c) n (cs_points s) = Inr (Some rp)"
    "in_ReplaceMods i n (rp_Previous rp) ''Reverted the last mod update'' [actor] w1 = (Ok changed, w2)"
proof -
  from assms obtain s1 rp0 where a0: "RestoreAvailable c n s = (Ok (Some rp0), s1)"
    and run0: "bindo (outside (in_ReplaceMods i n (rp_Previous rp0) ''Reverted the last mod update'' [actor])) (\<lambda>changed.
        seqo (whenO changed (markPending c n (rp_Previous rp0))) (seqo (clear_point c db n)
          (seqo (ignore (RefreshOne c n)) (ret rp0)))) s1 = (Ok rp, s')"
    by (auto simp: Undo_def with_insts_some fail_def elim!: bindo_cases split: option.splits)
  have "rp0 = rp" using run0 by (auto simp: ret_def elim!: bindo_cases seqo_cases)
  with a0 run0 have a: "RestoreAvailable c n s = (Ok (Some rp), s1)"
    and run: "bindo (outside (in_ReplaceMods i n (rp_Previous rp) ''Reverted the last mod update'' [actor])) (\<lambda>changed.
        seqo (whenO changed (markPending c n (rp_Previous rp))) (seqo (clear_point c db n)
          (seqo (ignore (RefreshOne c n)) (ret rp)))) s1 = (Ok rp, s')"
    by simp_all
  from a assms obtain entries w1 where r: "RestorePoint db (ck_gameID c) n (cs_points s) = Inr (Some rp)"
    "in_GetInstalledMods i n (cs_out s) = (Ok entries, w1)" "Matches rp entries" "cs_out s1 = w1"
    by (auto simp: RestoreAvailable_def with_insts_some bindo_gets fail_def ret_def seqo_def outside_def zoom_def
        elim!: bindo_cases split: sum.splits option.splits if_splits prod.splits)
  moreover from run obtain changed w2 where
    "in_ReplaceMods i n (rp_Previous rp) ''Reverted the last mod update'' [actor] (cs_out s1) = (Ok changed, w2)"
    by (auto simp: outside_def zoom_def elim!: bindo_cases split: prod.splits)
  ultimately show ?thesis using that by simp
qed

text \<open>The restore table stores lists as lines, so it gives back the lists of any port whose entries
  are lines.\<close>

locale line_port =
  fixes get_mods :: "int \<Rightarrow> ('w, string list) op"
  assumes entries_are_lines: "get_mods n w = (Ok xs, w') \<Longrightarrow> list_all (\<lambda>e. NL \<notin> set e) xs"
begin

lemma restore_previous:
  assumes c: "ck_insts c = Some i" "in_GetInstalledMods i = get_mods" "ck_restore c = Some db" "\<And>q. db q = None"
    and run: "Apply c n keys actor s = (Ok ts, s1)" "ts \<noteq> []"
    and later: "map_of (cs_points t) (ck_gameID c, n) = map_of (cs_points s1) (ck_gameID c, n)"
    and undo: "Undo c n actor' t = (Ok rp, t')"
  shows "\<exists>previous. list_read c i n s previous \<and> nonempty (rp_Previous rp) = nonempty previous"
proof -
  obtain previous pl s2 where a: "list_read c i n s previous"
    "write_plan c i n ts previous (plan_entries pl) actor s2 = (Ok ts, s1)"
    by (rule Apply_run [OF run c(1)])
  obtain w1 where pts: "cs_points s1 = (case ck_restore c of None \<Rightarrow> cs_points s2
       | Some db \<Rightarrow> snd (SaveRestorePoint db (ck_now c (cs_out s1)) (ck_gameID c) n previous (plan_entries pl) (cs_points s2)))"
    by (rule write_plan_run [OF a(2) run(2)])
  have lines: "list_all (\<lambda>e. NL \<notin> set e) previous"
    using a(1) entries_are_lines unfolding list_read_def Let_def c(2) by (metis prod.collapse)
  have "RestorePoint db (ck_gameID c) n (cs_points s1) = Inr (Some \<lparr>rp_At = ck_now c (cs_out s1),
      rp_Previous = splitRestore (join [NL] previous), rp_Applied = splitRestore (join [NL] (plan_entries pl))\<rparr>)"
    unfolding pts c(3) using RestorePoint_saved [OF c(4) c(4)] by simp
  then have "RestorePoint db (ck_gameID c) n (cs_points t) =
       Inr (Some \<lparr>rp_At = ck_now c (cs_out s1), rp_Previous = splitRestore (join [NL] previous), rp_Applied = splitRestore (join [NL] (plan_entries pl))\<rparr>)"
    using later c(4) by (simp add: RestorePoint_def)
  moreover obtain entries where "RestorePoint db (ck_gameID c) n (cs_points t) = Inr (Some rp)"
    by (rule Undo_run [OF undo c(1,3)])
  ultimately show ?thesis using a(1) restore_text [OF lines] by (intro exI [of _ previous]) simp
qed

end

definition manager_insts :: "('s, 'x) Manager \<Rightarrow> ('s, 'x) World Insts" where
  "manager_insts m = \<lparr>in_ListInstances = ListInstances m, in_GetInstance = Some (GetInstance m),
     in_GetInstalledMods = GetInstalledMods m, in_ReplaceMods = ReplaceMods m\<rparr>"

lemma mods_txt_lines: "list_all (\<lambda>e. NL \<notin> set e) (mods_txt t)"
proof -
  have "NL \<notin> set (trim_suffix (trim_space l) ''?'')" if l: "l \<in> set (split_on NL t)" for l
  proof -
    have "set (trim_suffix (trim_space l) ''?'') \<subseteq> set l"
      using trim_space_subset [of l] set_take_subset [of _ "trim_space l"] by (auto simp: trim_suffix_def)
    then show ?thesis using l split_on_parts [of NL t] by auto
  qed
  then show ?thesis by (auto simp: mods_txt_def list_all_iff)
qed

interpretation manager_lists: line_port "GetInstalledMods (m\<lparr>m_modsReader := None\<rparr>)" for m
proof
  fix n w xs w' assume "GetInstalledMods (m\<lparr>m_modsReader := None\<rparr>) n w = (Ok xs, w')"
  then show "list_all (\<lambda>e. NL \<notin> set e) xs"
    using mods_txt_lines
    by (auto simp: GetInstalledMods_def ret_def fail_def elim!: bindo_cases split: option.splits sum.splits)
qed

lemma manager_lists_lines:
  \<comment> \<open>a manager that reads its lists from Desired state\<close>
  assumes "m_modsReader m = None"
  shows "line_port (in_GetInstalledMods (manager_insts m))"
proof -
  have "m\<lparr>m_modsReader := None\<rparr> = m" using assms by (cases m) simp
  then show ?thesis using manager_lists.line_port_axioms [of m] by (simp add: manager_insts_def)
qed


section \<open>Reports\<close>

definition report_ok :: "Report \<Rightarrow> bool" where
  \<comment> \<open>every mod is counted once, and an update is to a newer version\<close>
  "report_ok rep \<longleftrightarrow>
     rep_Total rep = rep_Checked rep + length (rep_Missing rep) + length (rep_Unreachable rep) \<and>
     length (rep_Updates rep) \<le> rep_Checked rep \<and>
     list_all (\<lambda>u. VersionNewer (mu_Latest u) (mu_Current u)) (rep_Updates rep)"

definition reports_ok :: "'w CheckerState \<Rightarrow> bool" where
  "reports_ok s \<longleftrightarrow> list_all (\<lambda>(n, x). report_ok (sn_report x)) (cs_snap s)"

lemma report_ok_zero [simp]: "report_ok zero_report"
  by (simp add: report_ok_def zero_report_def)

lemma sort_key_length [simp]: "length (sort_key f xs) = length xs"
  by (metis mset_sort size_mset)

lemma mapO_length: "mapO f xs s = (Ok ys, s') \<Longrightarrow> length ys = length xs"
proof (induction xs arbitrary: s ys)
  case (Cons x xs)
  then show ?case by (auto simp: ret_def elim!: bindo_cases)
qed (auto simp: ret_def)

lemma add_results_ok:
  assumes "length (rep_Updates rep) \<le> rep_Checked rep"
    and "list_all (\<lambda>u. VersionNewer (mu_Latest u) (mu_Current u)) (rep_Updates rep)"
    and "out = fold (add_result g) results rep"
  shows "rep_Checked out + length (rep_Missing out) + length (rep_Unreachable out) =
      rep_Checked rep + length (rep_Missing rep) + length (rep_Unreachable rep) + length results \<and>
    rep_Total out = rep_Total rep \<and> length (rep_Updates out) \<le> rep_Checked out \<and>
    list_all (\<lambda>u. VersionNewer (mu_Latest u) (mu_Current u)) (rep_Updates out)"
  using assms(1,2) unfolding assms(3)
proof (induction results arbitrary: rep)
  case (Cons x results)
  have "length (rep_Updates (add_result g x rep)) \<le> rep_Checked (add_result g x rep)"
    "list_all (\<lambda>u. VersionNewer (mu_Latest u) (mu_Current u)) (rep_Updates (add_result g x rep))"
    "rep_Total (add_result g x rep) = rep_Total rep \<and>
     rep_Checked (add_result g x rep) + length (rep_Missing (add_result g x rep)) + length (rep_Unreachable (add_result g x rep)) =
       rep_Checked rep + length (rep_Missing rep) + length (rep_Unreachable rep) + 1"
    using Cons.prems by (auto simp: add_result_def Let_def split: prod.split sum.split)
  with Cons.IH [OF this(1,2)] show ?case by simp
qed simp

lemma compute_ok:
  assumes "compute c n s = (Ok rep, s')"
  shows "report_ok rep"
proof -
  have zero: "zero_report\<lparr>rep_At := now\<rparr> =
      sorted_report (fold (add_result g) [] (zero_report\<lparr>rep_Total := length ([] :: (ModRef \<times> (goerr + string)) list), rep_At := now\<rparr>))"
    for now g by (simp add: sorted_report_def zero_report_def)
  have zero': "zero_report\<lparr>rep_Total := 0, rep_At := now\<rparr> = zero_report\<lparr>rep_At := now\<rparr>" for now
    by (simp add: zero_report_def)
  have run: "\<exists>results now. rep = sorted_report (fold (add_result (ck_gameID c)) results
      (zero_report\<lparr>rep_Total := length results, rep_At := now\<rparr>))"
    if tail: "report_on c inst refs s2 = (Ok rep, s')" for inst refs s2
  proof (cases "refs = []")
    case True
    then have "rep = zero_report\<lparr>rep_At := ck_now c (cs_out s2)\<rparr>"
      using tail zero' by (auto simp: report_on_def clock_def bindo_gets ret_def)
    then show ?thesis using zero by blast
  next
    case False
    then obtain results s3 s4 now where "mapO (lookup_ref c inst) refs s3 = (Ok results, s4)"
      "rep = sorted_report (fold (add_result (ck_gameID c)) results (zero_report\<lparr>rep_Total := length refs, rep_At := now\<rparr>))"
      using tail by (auto simp: report_on_def clock_def bindo_gets ret_def Let_def elim!: bindo_cases seqo_cases)
    then show ?thesis using mapO_length by metis
  qed
  have "\<exists>results now. rep = sorted_report (fold (add_result (ck_gameID c)) results
      (zero_report\<lparr>rep_Total := length results, rep_At := now\<rparr>))"
  proof -
    have "ck_insts c \<noteq> None"
    proof
      assume "ck_insts c = None"
      then show False using assms by (simp add: compute_def with_insts_def)
    qed
    then obtain i where i: "ck_insts c = Some i" by blast
    have "bindo (getInstance c n) (\<lambda>inst. if IsVanilla inst \<or> PackDefined inst
        then bindo (clock c) (\<lambda>now. ret (zero_report\<lparr>rep_At := now\<rparr>))
        else bindo (outside (in_GetInstalledMods i n)) (\<lambda>entries. report_on c inst (watched_refs (ck_gameID c) entries))) s = (Ok rep, s')"
      using assms unfolding compute_def with_insts_some [OF i] .
    then obtain inst s1 where "(if IsVanilla inst \<or> PackDefined inst
        then bindo (clock c) (\<lambda>now. ret (zero_report\<lparr>rep_At := now\<rparr>))
        else bindo (outside (in_GetInstalledMods i n)) (\<lambda>entries. report_on c inst (watched_refs (ck_gameID c) entries))) s1 = (Ok rep, s')"
      by (rule bindo_cases) simp_all
    then have "(\<exists>now. rep = zero_report\<lparr>rep_At := now\<rparr>) \<or> (\<exists>refs s2. report_on c inst refs s2 = (Ok rep, s'))"
      by (auto simp: clock_def bindo_gets ret_def elim!: bindo_cases split: if_splits)
    then show ?thesis using zero run by blast
  qed
  then obtain results now where rep: "rep =
      sorted_report (fold (add_result (ck_gameID c)) results (zero_report\<lparr>rep_Total := length results, rep_At := now\<rparr>))"
    by blast
  have "length (rep_Updates (zero_report\<lparr>rep_Total := t, rep_At := now\<rparr>)) \<le> rep_Checked (zero_report\<lparr>rep_Total := t, rep_At := now\<rparr>)"
    "list_all (\<lambda>u. VersionNewer (mu_Latest u) (mu_Current u)) (rep_Updates (zero_report\<lparr>rep_Total := t, rep_At := now\<rparr>))" for t
    by (simp_all add: zero_report_def)
  from add_results_ok [OF this(1) [of "length results"] this(2) [of "length results"] refl, of "ck_gameID c" results]
  show ?thesis
    unfolding rep by (simp add: report_ok_def sorted_report_def list_all_iff) (simp add: zero_report_def)
qed

definition keeps_reports :: "'w CheckerState \<Rightarrow> 'w CheckerState \<Rightarrow> bool" where
  "keeps_reports s s' \<longleftrightarrow> (reports_ok s \<longrightarrow> reports_ok s')"

interpretation fr_reports: op_frame keeps_reports
  by unfold_locales (simp_all add: keeps_reports_def)

lemma keeps_reportsD: "keeps keeps_reports m \<Longrightarrow> reports_ok s \<Longrightarrow> reports_ok (snd (m s))"
  by (simp add: keeps_def keeps_reports_def)

lemma same_snap_reports: "(\<And>s. cs_snap (snd (m s)) = cs_snap s) \<Longrightarrow> keeps keeps_reports m"
  by (simp add: keeps_def keeps_reports_def reports_ok_def)

lemma update_reports:
  assumes "reports_ok s" and "report_ok (sn_report x)"
  shows "reports_ok (s\<lparr>cs_snap := AList.update n x (cs_snap s)\<rparr>)"
proof -
  have "set (AList.update n x ys) \<subseteq> insert (n, x) (set ys)" for ys :: "(int \<times> snapshot) list"
    by (induction ys) auto
  then show ?thesis using assms by (fastforce simp: reports_ok_def list_all_iff)
qed

lemma checker_steps_reports:
  "keeps keeps_reports (outside m)" "keeps keeps_reports (clock c)"
  "keeps keeps_reports (clearPending n)" "keeps keeps_reports (markPending c n entries)"
  "keeps keeps_reports (saveRestorePoint c n xs ys)" "keeps keeps_reports (clear_point c db n)"
  "keeps keeps_reports (refresh_index c)"
  by (rule same_snap_reports; simp add: outside_def zoom_def clock_def gets_def clearPending_def markPending_def bindo_def
      modify_def saveRestorePoint_def optO_def ret_def clear_point_def refresh_index_def split: prod.split option.split)+

lemma with_insts_reports: "(\<And>i. keeps keeps_reports (k i)) \<Longrightarrow> keeps keeps_reports (with_insts c k)"
  by (auto simp: with_insts_def keeps_def keeps_reports_def split: option.split)

lemma lookups_reports:
  "keeps keeps_reports (getInstance c n)" "keeps keeps_reports (latestVersionForRef c ref inst)"
  "keeps keeps_reports (resolveTreeForRef c ref inst)"
  by (auto simp: getInstance_def latestVersionForRef_def resolveTreeForRef_def Let_def
      intro!: with_insts_reports checker_steps_reports)

lemma lookup_ref_reports: "keeps keeps_reports (lookup_ref c inst ref)"
  by (auto simp: lookup_ref_def intro!: lookups_reports)

lemma compute_reports: "keeps keeps_reports (compute c n)"
  by (auto simp: compute_def report_on_def Let_def
      intro!: with_insts_reports checker_steps_reports lookups_reports lookup_ref_reports)

lemma RefreshOne_reports: "keeps keeps_reports (RefreshOne c n)"
proof -
  have snap: "keeps keeps_reports (set_snap n x)" if "report_ok (sn_report x)" for x
    using update_reports that by (auto simp: keeps_def keeps_reports_def set_snap_def modify_def)
  have "keeps keeps_reports (bindo (attempt (compute c n)) (\<lambda>r.
           seqo (set_snap n (case r of
                   Inl e \<Rightarrow> \<lparr>sn_report = zero_report, sn_err = Some e\<rparr>
                 | Inr rep \<Rightarrow> \<lparr>sn_report = rep, sn_err = None\<rparr>)) (of_sum r)))"
  proof (rule fr_reports.r_bindo_value)
    show "keeps keeps_reports (attempt (compute c n))" by (intro fr_reports.r_attempt compute_reports)
    fix w r w1 assume "attempt (compute c n) w = (Ok r, w1)"
    then have "\<And>rep. r = Inr rep \<Longrightarrow> report_ok rep"
      by (auto simp: attempt_def dest: compute_ok split: prod.splits res.splits)
    then show "keeps keeps_reports (seqo (set_snap n (case r of
                   Inl e \<Rightarrow> \<lparr>sn_report = zero_report, sn_err = Some e\<rparr>
                 | Inr rep \<Rightarrow> \<lparr>sn_report = rep, sn_err = None\<rparr>)) (of_sum r))"
      by (intro fr_reports.r_seqo fr_reports.r_of_sum snap) (simp split: sum.split)
  qed
  then show ?thesis by (auto simp: RefreshOne_def)
qed

lemma forget_reports: "keeps keeps_reports (forget n applied)"
proof -
  have "reports_ok (snd (forget n applied s))" if "reports_ok s" for s
  proof -
    have "report_ok (sn_report (mget (cs_snap s) n zero_snapshot))"
    proof (cases "map_of (cs_snap s) n")
      case (Some x)
      then show ?thesis using that by (auto simp: mget_def reports_ok_def list_all_iff dest: map_of_SomeD)
    qed (simp add: mget_def zero_snapshot_def)
    moreover have "length (filter P xs) \<le> k" if "length xs \<le> k" for P k and xs :: "ModUpdate list"
      using that length_filter_le [of P xs] by linarith
    ultimately show ?thesis using that
      by (auto simp: forget_def modify_def Let_def report_ok_def list_all_iff intro!: update_reports)
  qed
  then show ?thesis unfolding keeps_def keeps_reports_def by blast
qed

lemma plan_targets_reports: "keeps keeps_reports (plan_targets c inst ts pl)"
  by (induction ts arbitrary: pl) (auto intro!: lookups_reports)

lemma write_plan_reports: "keeps keeps_reports (write_plan c i n targets previous out actor)"
  by (auto simp: write_plan_def intro!: checker_steps_reports forget_reports)

lemma forO_reports: "(\<And>x. keeps keeps_reports (f x)) \<Longrightarrow> keeps keeps_reports (forO f xs)"
  by (induction xs) auto

text \<open>C29: Every report the checker ever holds is honest, whatever the catalogue and the worlds answer:
  each mod counts once, as checked, as no longer published or as not reached, and every update it lists
  goes to a newer version. No refresh, update, undo or look at a pending update breaks this.\<close>
theorem reports_stay_ok:
  assumes "reports_ok s"
  shows "reports_ok (snd (RefreshOne c n s)) \<and> reports_ok (snd (Refresh c s)) \<and>
     reports_ok (snd (Apply c n keys actor s)) \<and> reports_ok (snd (Undo c n actor s)) \<and>
     reports_ok (snd (RestoreAvailable c n s)) \<and> reports_ok (snd (Pending c n s))"
proof -
  have restore: "keeps keeps_reports (RestoreAvailable c n)"
    by (auto simp: RestoreAvailable_def intro!: with_insts_reports checker_steps_reports)
  have "keeps keeps_reports (Refresh c)"
    by (auto simp: Refresh_def intro!: checker_steps_reports forO_reports RefreshOne_reports)
  moreover have "keeps keeps_reports (Apply c n keys actor)"
    unfolding Apply_def Let_def
    by (intro fr_reports.r_if fr_reports.r_fail fr_reports.r_ret fr_reports.r_gets fr_reports.r_bindo with_insts_reports
        checker_steps_reports RefreshOne_reports lookups_reports plan_targets_reports write_plan_reports)
  moreover have "keeps keeps_reports (Undo c n actor)"
    unfolding Undo_def
    by (intro fr_reports.r_case_option fr_reports.r_fail fr_reports.r_ret fr_reports.r_bindo fr_reports.r_seqo
        fr_reports.r_whenO fr_reports.r_ignore with_insts_reports checker_steps_reports RefreshOne_reports restore)
  moreover have "keeps keeps_reports (Pending c n)"
    by (auto simp: Pending_def intro!: with_insts_reports checker_steps_reports)
  ultimately show ?thesis
    using restore RefreshOne_reports [of c n] by (intro conjI keeps_reportsD [OF _ assms])
qed

section \<open>An example\<close>

definition list_insts :: "string list Insts" where
  \<comment> \<open>one world whose list is the state\<close>
  "list_insts = \<lparr>in_ListInstances = ret [zero_instance\<lparr>Number := 1\<rparr>], in_GetInstance = None,
     in_GetInstalledMods = (\<lambda>n. gets (filter (\<lambda>e. NL \<notin> set e))),
     in_ReplaceMods = (\<lambda>n es d actor w. (Ok (es \<noteq> w), es))\<rparr>"

definition fixed_catalog :: "string list Catalog" where
  "fixed_catalog = \<lparr>cat_LatestVersion = (\<lambda>ns name. ret ''2.0.0''),
     cat_ResolveTree = (\<lambda>ns name. ret [''a/B/1.9.0'', ''d/Dep/1.0.0'']), cat_instance = None, cat_index = None\<rparr>"

definition sample_checker :: "string list Checker" where
  "sample_checker = \<lparr>ck_insts = Some list_insts, ck_cat = Some fixed_catalog, ck_restore = Some (\<lambda>q. None),
     ck_gameID = GameValheim, ck_now = (\<lambda>w. 7), ck_cancelled = (\<lambda>w. False)\<rparr>"

definition sample_update :: ModUpdate where
  "sample_update = \<lparr>mu_Ref = mod_ref ''a'' ''B'' ''1.0.0'', mu_Current = ''1.0.0'', mu_Latest = ''2.0.0''\<rparr>"

definition sample_checks :: "string list CheckerState" where
  "sample_checks = \<lparr>cs_snap = [(1, \<lparr>sn_report = zero_report\<lparr>rep_Updates := [sample_update], rep_Checked := 2, rep_Total := 2\<rparr>,
       sn_err = None\<rparr>)], cs_pend = [], cs_points = [], cs_out = [''a/B/1.0.0'', ''c/D/3.0.0'']\<rparr>"

lemma list_insts_lines: "line_port (in_GetInstalledMods list_insts)"
  by unfold_locales (auto simp: list_insts_def gets_def list_all_iff)

lemma sample_insts: "ck_insts sample_checker = Some list_insts" "ck_restore sample_checker = Some (\<lambda>q. None)"
  by (simp_all add: sample_checker_def)

lemma sample_parts:
  "Updates 1 sample_checks = [sample_update]"
  "in_GetInstalledMods list_insts 1 (cs_out sample_checks) = (Ok [''a/B/1.0.0'', ''c/D/3.0.0''], cs_out sample_checks)"
  "plan_entries (merge_target GameValheim sample_update [''a/B/1.9.0'', ''d/Dep/1.0.0'']
     (fold (index_entry GameValheim) [''a/B/1.0.0'', ''c/D/3.0.0''] \<lparr>mp_order = [], mp_byKey = []\<rparr>)) =
     [''a/B/2.0.0'', ''c/D/3.0.0'', ''d/Dep/1.0.0'']"
  by code_simp+

lemma sample_getInstance: "getInstance sample_checker 1 s = (Ok (zero_instance\<lparr>Number := 1\<rparr>), s)"
  by (simp add: getInstance_def with_insts_def sample_checker_def list_insts_def bindo_def attempt_def outside_def zoom_def
      ret_def Let_def)

lemma sample_resolve: "resolveTreeForRef sample_checker ref inst s = (Ok [''a/B/1.9.0'', ''d/Dep/1.0.0''], s)"
  by (simp add: resolveTreeForRef_def sample_checker_def fixed_catalog_def outside_def zoom_def ret_def)

definition sample_applied :: "string list CheckerState" where
  "sample_applied = \<lparr>cs_snap = [(1, \<lparr>sn_report = zero_report\<lparr>rep_Checked := 2, rep_Total := 2\<rparr>, sn_err = None\<rparr>)],
     cs_pend = [(1, \<lparr>pe_want = [''a/B/2.0.0'', ''c/D/3.0.0'', ''d/Dep/1.0.0''], pe_at = 7\<rparr>)],
     cs_points = snd (SaveRestorePoint (\<lambda>q. None) 7 GameValheim 1 [''a/B/1.0.0'', ''c/D/3.0.0'']
       [''a/B/2.0.0'', ''c/D/3.0.0'', ''d/Dep/1.0.0''] []),
     cs_out = [''a/B/2.0.0'', ''c/D/3.0.0'', ''d/Dep/1.0.0'']\<rparr>"

lemma sample_write:
  "write_plan sample_checker list_insts 1 [sample_update] [''a/B/1.0.0'', ''c/D/3.0.0'']
     [''a/B/2.0.0'', ''c/D/3.0.0'', ''d/Dep/1.0.0''] ''ada'' sample_checks = (Ok [sample_update], sample_applied)"
proof -
  have "outside (in_ReplaceMods list_insts 1 [''a/B/2.0.0'', ''c/D/3.0.0'', ''d/Dep/1.0.0''] x ys) sample_checks =
      (Ok True, sample_checks\<lparr>cs_out := [''a/B/2.0.0'', ''c/D/3.0.0'', ''d/Dep/1.0.0'']\<rparr>)" for x ys
    by (simp add: outside_def zoom_def list_insts_def sample_checks_def)
  then show ?thesis
    by (simp add: write_plan_def bindo_def seqo_def forget_def modify_def ret_def Let_def markPending_def
      clock_def gets_def saveRestorePoint_def optO_def sample_checker_def)
     (simp add: sample_checks_def sample_applied_def mget_def zero_report_def)
qed

lemma bindo_Ok: "m s = (Ok x, s') \<Longrightarrow> bindo m f s = f x s'"
  by (simp add: bindo_def)

lemma bindo_ret: "bindo (ret x) f = f x"
  by (simp add: fun_eq_iff bindo_def ret_def)

lemma sample_list: "outside (in_GetInstalledMods list_insts n) s = (Ok (filter (\<lambda>e. NL \<notin> set e) (cs_out s)), s)"
  by (simp add: outside_def zoom_def list_insts_def gets_def)

lemma sample_apply: "Apply sample_checker 1 [] ''ada'' sample_checks = (Ok [sample_update], sample_applied)"
proof -
  have ck: "ck_cat sample_checker = Some fixed_catalog" "ck_gameID sample_checker = GameValheim"
    by (simp_all add: sample_checker_def)
  have out: "outside (in_GetInstalledMods list_insts 1) sample_checks = (Ok [''a/B/1.0.0'', ''c/D/3.0.0''], sample_checks)"
    using sample_parts(2) by (simp add: outside_def zoom_def)
  have plan: "plan_targets sample_checker inst [sample_update] pl s =
      (Ok (merge_target GameValheim sample_update [''a/B/1.9.0'', ''d/Dep/1.0.0''] pl), s)" for inst pl s
    by (simp add: wrapped_def sample_resolve bindo_def ret_def ck)
  have steps: "bindo (getInstance sample_checker 1) k s = k (zero_instance\<lparr>Number := 1\<rparr>) s"
    "bindo (outside (in_GetInstalledMods list_insts 1)) k' sample_checks = k' [''a/B/1.0.0'', ''c/D/3.0.0''] sample_checks"
    "bindo (plan_targets sample_checker inst [sample_update] pl) k'' s =
       k'' (merge_target GameValheim sample_update [''a/B/1.9.0'', ''d/Dep/1.0.0''] pl) s" for k k' k'' s inst pl
    by (simp_all add: bindo_def sample_getInstance out plan del: plan_targets.simps)
  show ?thesis
    using sample_write
    by (simp add: Apply_def sample_insts ck with_insts_some [OF sample_insts(1)] bindo_gets sample_parts(1,3) bindo_ret
        wanted_updates_def steps Let_def del: fold.simps plan_targets.simps)
qed


lemma sample_refresh: "\<exists>rep. compute sample_checker 1 s = (Ok rep, s)"
proof -
  have look: "lookup_ref sample_checker inst ref s = (Ok (ref, Inr ''2.0.0''), s)" for inst ref
    by (simp add: lookup_ref_def bindo_gets attempt_def latestVersionForRef_def sample_checker_def fixed_catalog_def
        outside_def zoom_def bindo_def ret_def gets_def)
  have looks: "mapO (lookup_ref sample_checker inst) refs s = (Ok (map (\<lambda>ref. (ref, Inr ''2.0.0'')) refs), s)" for inst refs
    by (induction refs) (simp_all add: ret_def look bindo_def)
  have index: "refresh_index sample_checker = ret ()"
    by (simp add: refresh_index_def sample_checker_def fixed_catalog_def)
  have rep: "\<exists>rep. report_on sample_checker inst refs s = (Ok rep, s)" for inst refs
    by (simp add: report_on_def clock_def bindo_gets Let_def index seqo_def bindo_ret)
      (simp add: ret_def bindo_def looks)
  have "\<not> IsVanilla (zero_instance\<lparr>Number := 1\<rparr>)" "\<not> PackDefined (zero_instance\<lparr>Number := 1\<rparr>)" by code_simp+
  then show ?thesis using rep
    by (simp add: compute_def with_insts_some [OF sample_insts(1)] bindo_def sample_getInstance sample_list)
qed

lemma sample_undo:
  "\<exists>t'. Undo sample_checker 1 ''ada'' sample_applied =
     (Ok \<lparr>rp_At = 7, rp_Previous = [''a/B/1.0.0'', ''c/D/3.0.0''],
          rp_Applied = [''a/B/2.0.0'', ''c/D/3.0.0'', ''d/Dep/1.0.0'']\<rparr>, t')"
proof -
  let ?rp = "\<lparr>rp_At = 7, rp_Previous = [''a/B/1.0.0'', ''c/D/3.0.0''],
          rp_Applied = [''a/B/2.0.0'', ''c/D/3.0.0'', ''d/Dep/1.0.0'']\<rparr>"
  have pt: "RestorePoint (\<lambda>q. None) GameValheim 1 (cs_points sample_applied) = Inr (Some ?rp)" by code_simp
  have m: "Matches ?rp (filter (\<lambda>e. NL \<notin> set e) (cs_out sample_applied))" by code_simp
  have ck: "ck_gameID sample_checker = GameValheim" by (simp add: sample_checker_def)
  have av: "RestoreAvailable sample_checker 1 sample_applied = (Ok (Some ?rp), sample_applied)"
    using m by (simp add: RestoreAvailable_def sample_insts ck bindo_gets pt with_insts_some [OF sample_insts(1)])
      (simp add: bindo_def sample_list ret_def)
  obtain s1 ch where rep: "outside (in_ReplaceMods list_insts 1 (rp_Previous ?rp) d ys) sample_applied = (Ok ch, s1)" for d ys
    by (simp add: outside_def zoom_def list_insts_def)
  have refresh: "\<exists>s'. ignore (RefreshOne sample_checker 1) s = (Ok (), s')" for s
  proof -
    obtain rep where "compute sample_checker 1 s = (Ok rep, s)" using sample_refresh by blast
    then show ?thesis
      by (simp add: ignore_def attempt_def RefreshOne_def Option.is_none_def sample_checker_def bindo_def seqo_def ret_def
          set_snap_def modify_def of_sum_def)
  qed
  have "\<exists>s'. seqo (whenO ch (markPending sample_checker 1 (rp_Previous ?rp))) (seqo (clear_point sample_checker (\<lambda>q. None) 1)
      (seqo (ignore (RefreshOne sample_checker 1)) (ret ?rp))) s = (Ok ?rp, s')" for s
  proof -
    obtain s2 where "whenO ch (markPending sample_checker 1 (rp_Previous ?rp)) s = (Ok (), s2)"
      by (cases ch) (simp_all add: whenO_def markPending_def clock_def bindo_gets modify_def ret_def)
    moreover obtain s3 where "clear_point sample_checker (\<lambda>q. None) 1 s2 = (Ok (), s3)"
      by (simp add: clear_point_def modify_def)
    moreover obtain s4 where "ignore (RefreshOne sample_checker 1) s3 = (Ok (), s4)" using refresh by blast
    ultimately show ?thesis by (simp add: seqo_def bindo_Ok ret_def)
  qed
  then show ?thesis
    by (simp add: Undo_def sample_insts with_insts_some [OF sample_insts(1)])
      (simp add: bindo_def [of "RestoreAvailable _ _"] av bindo_def [of "outside _"] rep [simplified])
qed


theorem reports_stay_ok_witness:
  "reports_ok sample_checks \<and> reports_ok (snd (RefreshOne sample_checker 1 sample_checks))"
proof -
  have "reports_ok sample_checks" by code_simp
  from reports_stay_ok [OF this, of sample_checker 1] this show ?thesis by blast
qed

end
