(* ===== verification/Rcon.thy ===== *)
theory Rcon
  imports Ops GoStrings "HOL-Library.Word"
begin

text \<open>
  \<open>internal/infra/rcon/rcon.go\<close>: the packets of the remote console, their lengths and ids as signed
  32 bit integers, a client that keeps one connection and drops it after any failure, and the pool
  of clients.

  The network is a parameter: dialling, writing, reading exactly a number of bytes
  (\<open>io.ReadFull\<close>) and closing, on a state \<open>'w\<close>. Locks, deadlines and the tracer are left out.
\<close>

unbundle bit_operations_syntax

type_synonym byte = "8 word"
type_synonym int32 = "32 word"

definition packetTypeAuth :: int32 where "packetTypeAuth = 3"
definition packetTypeAuthResponse :: int32 where "packetTypeAuthResponse = 2"
definition packetTypeExecCommand :: int32 where "packetTypeExecCommand = 2"
definition packetTypeResponse :: int32 where "packetTypeResponse = 0"

section \<open>Packets\<close>

definition bytes_of :: "string \<Rightarrow> byte list" where
  "bytes_of s = map of_char s"

definition string_of :: "byte list \<Rightarrow> string" where
  "string_of bs = map (\<lambda>b. char_of (unat b)) bs"

definition le32 :: "int32 \<Rightarrow> byte list" where
  \<comment> \<open>\<open>binary.Write\<close>, little endian\<close>
  "le32 v = [ucast v, ucast (drop_bit 8 v), ucast (drop_bit 16 v), ucast (drop_bit 24 v)]"

definition of_le32 :: "byte list \<Rightarrow> int32" where
  "of_le32 bs =
     ucast (bs ! 0) OR push_bit 8 (ucast (bs ! 1)) OR push_bit 16 (ucast (bs ! 2)) OR push_bit 24 (ucast (bs ! 3))"

definition packet :: "int32 \<Rightarrow> int32 \<Rightarrow> string \<Rightarrow> byte list" where
  "packet i typ body =
     (let payload = bytes_of body; len = word_of_int (4 + 4 + int (length payload) + 2)
      in le32 len @ le32 i @ le32 typ @ payload @ [0, 0])"

definition packet_length_ok :: "int32 \<Rightarrow> bool" where
  "packet_length_ok len \<longleftrightarrow> \<not> (sint len < 10 \<or> sint len > 4096)"

definition decode_packet :: "byte list \<Rightarrow> int32 \<times> int32 \<times> string" where
  \<comment> \<open>the data of a packet after its length, which is at least 10\<close>
  "decode_packet data =
     (of_le32 (take 4 data), of_le32 (take 4 (drop 4 data)),
      trim_right (\<lambda>c. c = CHR 0x00) (string_of (take (length data - 2 - 8) (drop 8 data))))"

section \<open>The client\<close>

record 'w Net =
  net_dial :: "string \<Rightarrow> ('w, unit) op"
  net_write :: "byte list \<Rightarrow> ('w, unit) op"
  net_read :: "nat \<Rightarrow> ('w, byte list) op"
  net_close :: "('w, unit) op"

record 'w Client =
  rc_conn :: bool
  rc_reqID :: int32
  rc_net :: 'w

record Config =
  cfg_addr :: string
  cfg_password :: string

definition net :: "('w, 'a) op \<Rightarrow> ('w Client, 'a) op" where
  "net = zoom rc_net (\<lambda>x c. c\<lparr>rc_net := x\<rparr>)"

definition NewClient :: "'w \<Rightarrow> 'w Client" where
  "NewClient w = \<lparr>rc_conn = False, rc_reqID = 1, rc_net = w\<rparr>"

definition hang_up :: "'w Net \<Rightarrow> ('w Client, unit) op" where
  "hang_up nt = seqo (ignore (net (net_close nt))) (modify (\<lambda>c. c\<lparr>rc_conn := False\<rparr>))"

definition next_id :: "('w Client, int32) op" where
  \<comment> \<open>\<open>c.reqID++\<close>, which wraps\<close>
  "next_id = seqo (modify (\<lambda>c. c\<lparr>rc_reqID := rc_reqID c + 1\<rparr>)) (gets rc_reqID)"

definition writePacket :: "'w Net \<Rightarrow> int32 \<Rightarrow> int32 \<Rightarrow> string \<Rightarrow> ('w Client, unit) op" where
  "writePacket nt i typ body = net (net_write nt (packet i typ body))"

definition readPacket :: "'w Net \<Rightarrow> ('w Client, int32 \<times> int32 \<times> string) op" where
  "readPacket nt =
     bindo (net (net_read nt 4)) (\<lambda>hd.
       let len = of_le32 hd
       in if \<not> packet_length_ok len
          then fail (Errorf (''invalid rcon packet length: '' @ show_int (sint len)))
          else bindo (net (net_read nt (nat (sint len)))) (\<lambda>data. ret (decode_packet data)))"

definition or_hang_up :: "'w Net \<Rightarrow> string \<Rightarrow> ('w Client, 'a) op \<Rightarrow> ('w Client, 'a) op" where
  "or_hang_up nt msg m = wrapped msg (cleanup m (hang_up nt))"

definition connect :: "'w Net \<Rightarrow> Config \<Rightarrow> ('w Client, unit) op" where
  "connect nt cfg =
     bindo (gets rc_conn) (\<lambda>up.
       if up then ret ()
       else seqo (wrapped ''rcon dial: '' (net (net_dial nt (cfg_addr cfg))))
         (seqo (modify (\<lambda>c. c\<lparr>rc_conn := True\<rparr>))
         (bindo next_id (\<lambda>i.
         seqo (or_hang_up nt ''rcon send auth: '' (writePacket nt i packetTypeAuth (cfg_password cfg)))
         (bindo (or_hang_up nt ''rcon read auth response: '' (readPacket nt)) (\<lambda>(resID, resType, _).
            if resID = -1 \<or> (resType \<noteq> packetTypeAuthResponse \<and> resType \<noteq> packetTypeResponse)
            then seqo (hang_up nt) (fail (Errorf ''rcon: authentication failed (bad password)''))
            else ret ()))))))"

definition Execute :: "'w Net \<Rightarrow> Config \<Rightarrow> goerr option \<Rightarrow> string \<Rightarrow> ('w Client, string) op" where
  \<comment> \<open>\<open>cancelled\<close> is \<open>ctx.Err()\<close>\<close>
  "Execute nt cfg cancelled cmd =
     seqo (checkO cancelled)
     (seqo (connect nt cfg)
     (bindo next_id (\<lambda>i.
      seqo (or_hang_up nt ''rcon send cmd: '' (writePacket nt i packetTypeExecCommand cmd))
     (bindo (or_hang_up nt ''rcon read response: '' (readPacket nt)) (\<lambda>(_, _, response).
        ret response)))))"

definition commandVerb :: "string \<Rightarrow> string" where
  "commandVerb cmd = (case cut (trim_space cmd) '' '' of (verb, _, _) \<Rightarrow> verb)"

definition Close :: "'w Net \<Rightarrow> ('w Client, unit) op" where
  "Close nt =
     bindo (gets rc_conn) (\<lambda>up.
       if up then bindo (attempt (net (net_close nt))) (\<lambda>r.
                    seqo (modify (\<lambda>c. c\<lparr>rc_conn := False\<rparr>)) (of_sum r))
       else ret ())"

section \<open>The pool\<close>

type_synonym 'w Pool = "(string \<times> 'w Client) list"

definition ClientFor :: "'w \<Rightarrow> string \<Rightarrow> 'w Pool \<Rightarrow> 'w Client \<times> 'w Pool" where
  \<comment> \<open>\<open>w\<close> is the network as a new client finds it\<close>
  "ClientFor w addr p =
     (case map_of p addr of
        Some c \<Rightarrow> (c, p)
      | None \<Rightarrow> (NewClient w, AList.update addr (NewClient w) p))"

definition Evict :: "'w Net \<Rightarrow> string \<Rightarrow> ('w Pool, unit) op" where
  "Evict nt addr p =
     (case map_of p addr of
        None \<Rightarrow> (Ok (), p)
      | Some c \<Rightarrow> (fst (Close nt c), AList.delete addr p))"

definition closed_with :: "'w Net \<Rightarrow> 'w Client \<Rightarrow> goerr option" where
  "closed_with nt c = (case fst (Close nt c) of Err e \<Rightarrow> Some e | _ \<Rightarrow> None)"

definition Pool_Close :: "'w Net \<Rightarrow> 'w Pool \<Rightarrow> goerr list \<times> 'w Pool" where
  \<comment> \<open>the errors that are joined; the order of the map's clients is open\<close>
  "Pool_Close nt p = (List.map_filter (\<lambda>(addr, c). closed_with nt c) p, [])"

end
