(* ===== verification/RconProofs.thy ===== *)
theory RconProofs
  imports Rcon Frames
begin

text \<open>
  The packets of the remote console within their bounds, and what the client makes of a connection:
  it is dropped after every failure, and responses are taken in the order they arrive.
\<close>

section \<open>Bytes\<close>

lemma of_le32_le32 [simp]: "of_le32 (le32 v @ rest) = v"
proof (rule bit_word_eqI)
  fix n assume "n < LENGTH(32)"
  then show "bit (of_le32 (le32 v @ rest)) n \<longleftrightarrow> bit v n"
    by (cases "24 \<le> n"; cases "16 \<le> n") (auto simp: of_le32_def le32_def bit_simps)
qed

lemma length_le32 [simp]: "length (le32 v) = 4"
  by (simp add: le32_def)

lemma string_of_bytes [simp]: "string_of (bytes_of s) = s"
proof -
  have "char_of (unat (of_char c :: byte)) = c" for c
  proof -
    have "(of_char c :: byte) = of_nat (of_char c)" by (simp add: of_nat_of_char)
    then have "unat (of_char c :: byte) = of_char c"
      by (simp add: unat_of_nat)
    then show ?thesis by simp
  qed
  then show ?thesis by (simp add: string_of_def bytes_of_def map_idI)
qed

lemma length_bytes_of [simp]: "length (bytes_of s) = length s"
  by (simp add: bytes_of_def)

lemma length_trim_right: "length (trim_right P s) \<le> length s"
  by (metis length_append trim_right_prefix le_add1)

lemma sint_length:
  assumes "n \<le> 4096"
  shows "sint (word_of_int (int n) :: int32) = int n"
  using assms by (simp add: signed_of_nat signed_take_bit_int_eq_self)

section \<open>Reading\<close>

definition reads_stream :: "'w Net \<Rightarrow> ('w \<Rightarrow> byte list) \<Rightarrow> bool" where
  \<comment> \<open>\<open>io.ReadFull\<close>: the next \<open>n\<close> bytes of what the peer sends, or an error\<close>
  "reads_stream nt pending \<longleftrightarrow> (\<forall>n w.
     case net_read nt n w of
       (Ok bs, w') \<Rightarrow> n \<le> length (pending w) \<and> bs = take n (pending w) \<and> pending w' = drop n (pending w)
     | (Err e, w') \<Rightarrow> length (pending w) < n
     | (Crash s, w') \<Rightarrow> False)"

lemma read_run:
  assumes "reads_stream nt pending"
  obtains (ok) w' where "n \<le> length (pending (rc_net c))" "pending w' = drop n (pending (rc_net c))"
      "net (net_read nt n) c = (Ok (take n (pending (rc_net c))), c\<lparr>rc_net := w'\<rparr>)"
    | (err) e w' where "length (pending (rc_net c)) < n" "net (net_read nt n) c = (Err e, c\<lparr>rc_net := w'\<rparr>)"
proof -
  obtain r w' where run: "net_read nt n (rc_net c) = (r, w')" by (cases "net_read nt n (rc_net c)")
  have "case (r, w') of
       (Ok bs, w') \<Rightarrow> n \<le> length (pending (rc_net c)) \<and> bs = take n (pending (rc_net c)) \<and> pending w' = drop n (pending (rc_net c))
     | (Err e, w') \<Rightarrow> length (pending (rc_net c)) < n
     | (Crash s, w') \<Rightarrow> False"
    using assms run unfolding reads_stream_def by metis
  then show ?thesis
    using ok [of w'] err [of _ w'] run by (cases r) (simp_all add: net_def zoom_def)
qed

lemma readPacket_run:
  assumes "reads_stream nt pending"
  obtains (ok) len w' where "10 \<le> len" "len \<le> 4096" "4 + len \<le> length (pending (rc_net c))"
      "sint (of_le32 (take 4 (pending (rc_net c)))) = int len"
      "readPacket nt c = (Ok (decode_packet (take len (drop 4 (pending (rc_net c))))), c\<lparr>rc_net := w'\<rparr>)"
      "pending w' = drop (4 + len) (pending (rc_net c))"
    | (err) e w' where "readPacket nt c = (Err e, c\<lparr>rc_net := w'\<rparr>)"
        "length (pending (rc_net c)) < 4 \<or> \<not> packet_length_ok (of_le32 (take 4 (pending (rc_net c)))) \<or>
         int (length (pending (rc_net c))) < 4 + sint (of_le32 (take 4 (pending (rc_net c))))"
  using assms
proof (cases rule: read_run [where n = 4 and c = c])
  case (err e w')
  then show ?thesis using that(2) [of e w'] by (simp add: readPacket_def bindo_def)
next
  case (ok w')
  let ?p = "pending (rc_net c)" and ?len = "of_le32 (take 4 (pending (rc_net c)))"
  show ?thesis
  proof (cases "packet_length_ok ?len")
    case False
    then show ?thesis using that(2) [of _ w'] ok(3) by (simp add: readPacket_def bindo_def Let_def fail_def)
  next
    case True
    define len where "len = nat (sint ?len)"
    have len: "10 \<le> len" "len \<le> 4096" "sint ?len = int len" using True by (auto simp: packet_length_ok_def len_def)
    have next_read: "readPacket nt c = bindo (net (net_read nt len)) (\<lambda>data. ret (decode_packet data)) (c\<lparr>rc_net := w'\<rparr>)"
      using True ok(3) by (simp add: readPacket_def bindo_def Let_def len_def)
    from assms show ?thesis
    proof (cases rule: read_run [where n = len and c = "c\<lparr>rc_net := w'\<rparr>"])
      case (ok w'')
      then show ?thesis using that(1) [of len w''] len \<open>4 \<le> length ?p\<close> \<open>pending w' = drop 4 ?p\<close> next_read
        by (simp add: bindo_def ret_def le_diff_conv2 add.commute)
    next
      case (err e w'')
      then have "int (length ?p) < 4 + sint ?len" using len(3) \<open>4 \<le> length ?p\<close> \<open>pending w' = drop 4 ?p\<close> by simp
      then show ?thesis using that(2) [of e w''] err next_read by (simp add: bindo_def)
    qed
  qed
qed


definition loopback :: "byte list Net" where
  \<comment> \<open>a peer that sends back what it is sent\<close>
  "loopback = \<lparr>net_dial = (\<lambda>addr. ret ()), net_write = (\<lambda>bs w. (Ok (), w @ bs)),
     net_read = (\<lambda>n w. if n \<le> length w then (Ok (take n w), drop n w) else (Err (Errorf ''EOF''), [])),
     net_close = modify (\<lambda>w. [])\<rparr>"

lemma loopback_stream: "reads_stream loopback (\<lambda>w. w)"
  by (simp add: reads_stream_def loopback_def)


section \<open>Responses\<close>

lemma length_packet: "length (packet i typ body) = 14 + length body"
  by (simp add: packet_def Let_def)

lemma decode_written:
  assumes "length body \<le> 4086"
  shows "sint (of_le32 (take 4 (packet i typ body @ rest))) = 10 + int (length body)"
    and "decode_packet (take (10 + length body) (drop 4 (packet i typ body @ rest))) =
      (i, typ, trim_right (\<lambda>c. c = CHR 0x00) body)"
    and "drop (14 + length body) (packet i typ body @ rest) = rest"
proof -
  have len: "word_of_int (4 + 4 + int (length (bytes_of body)) + 2) = (word_of_int (int (10 + length body)) :: int32)" by simp
  have take4: "take 4 (packet i typ body @ rest) = le32 (word_of_int (int (10 + length body))) @ []"
    by (simp add: packet_def Let_def len)
  show "sint (of_le32 (take 4 (packet i typ body @ rest))) = 10 + int (length body)"
    unfolding take4 of_le32_le32 using sint_length [of "10 + length body"] assms by simp
  have data: "take (10 + length body) (drop 4 (packet i typ body @ rest)) = le32 i @ le32 typ @ bytes_of body @ [0, 0]"
    by (simp add: packet_def Let_def)
  have parts: "take 4 (le32 i @ xs) = le32 i @ []" "take 4 (drop 4 (le32 i @ le32 typ @ xs)) = le32 typ @ []"
    "drop 8 (le32 i @ le32 typ @ xs) = xs" for xs
    by (simp_all add: drop_append)
  show "decode_packet (take (10 + length body) (drop 4 (packet i typ body @ rest))) =
      (i, typ, trim_right (\<lambda>c. c = CHR 0x00) body)"
    unfolding data decode_packet_def parts of_le32_le32 by simp
  show "drop (14 + length body) (packet i typ body @ rest) = rest"
    by (simp add: length_packet)
qed

text \<open>On a live connection a command is answered by the next packet the peer has sent, whatever its
  id and type: if that packet carries a body of at most 4086 characters the response is this body up to
  trailing zero bytes, and exactly its bytes are taken off the connection. (So a second packet of the same
  answer is returned as the answer of the next command.)\<close>
theorem responses_in_order:
  assumes "reads_stream nt pending" and "rc_conn c" and "length body \<le> 4086"
    and "net_write nt (packet (rc_reqID c + 1) packetTypeExecCommand cmd) (rc_net c) = (Ok (), w)"
    and "pending w = packet i typ body @ rest"
  shows "\<exists>c'. Execute nt cfg None cmd c = (Ok (trim_right (\<lambda>c. c = CHR 0x00) body), c') \<and>
     rc_conn c' \<and> pending (rc_net c') = rest \<and> rc_reqID c' = rc_reqID c + 1"
proof -
  let ?c = "c\<lparr>rc_reqID := rc_reqID c + 1, rc_net := w\<rparr>"
  have run: "Execute nt cfg None cmd c =
      bindo (or_hang_up nt ''rcon read response: '' (readPacket nt)) (\<lambda>(_, _, response). ret response) ?c"
  proof -
    have "connect nt cfg c = (Ok (), c)" using assms(2) by (simp add: connect_def bindo_def gets_def ret_def)
    moreover have "next_id c = (Ok (rc_reqID c + 1), c\<lparr>rc_reqID := rc_reqID c + 1\<rparr>)"
      by (simp add: next_id_def seqo_def bindo_def modify_def gets_def)
    moreover have "or_hang_up nt x (writePacket nt (rc_reqID c + 1) packetTypeExecCommand cmd) (c\<lparr>rc_reqID := rc_reqID c + 1\<rparr>) =
        (Ok (), ?c)" for x
      using assms(4) by (simp add: or_hang_up_def cleanup_def writePacket_def bindo_def ret_def wrapped_def attempt_def
          net_def zoom_def)
    ultimately show ?thesis by (simp add: Execute_def seqo_def bindo_def checkO_def ret_def)
  qed
  note d = decode_written [OF assms(3), of i "typ" rest]
  have p: "pending (rc_net ?c) = packet i typ body @ rest" using assms(5) by simp
  from assms(1) show ?thesis
  proof (cases rule: readPacket_run [where c = ?c])
    case (ok len w')
    then have len: "len = 10 + length body" using d(1) p by simp
    have "readPacket nt ?c = (Ok (i, typ, trim_right (\<lambda>c. c = CHR 0x00) body), ?c\<lparr>rc_net := w'\<rparr>)"
      using ok(5) d(2) unfolding p len by simp
    moreover have "pending w' = rest" using ok(6) d(3) unfolding p len by (simp add: add.commute)
    ultimately show ?thesis
      using assms(2) by (simp add: run or_hang_up_def cleanup_def bindo_def wrapped_def attempt_def ret_def)
  next
    case (err e w')
    then show ?thesis using d(1) assms(3) unfolding p by (simp add: packet_length_ok_def length_packet)
  qed
qed

theorem responses_in_order_witness:
  "\<exists>w c'. Execute loopback \<lparr>cfg_addr = ''h:1'', cfg_password = ''pw''\<rparr> None ''list''
       \<lparr>rc_conn = True, rc_reqID = 1, rc_net = w\<rparr> = (Ok ''There are 2'', c') \<and> rc_conn c'"
proof -
  let ?w = "packet 1 0 ''There are 2''"
  let ?c = "\<lparr>rc_conn = True, rc_reqID = 1, rc_net = ?w\<rparr>"
  have t: "trim_right (\<lambda>c. c = CHR 0x00) ''There are 2'' = ''There are 2''" by code_simp
  have wr: "net_write loopback (packet (rc_reqID ?c + 1) packetTypeExecCommand ''list'') (rc_net ?c) =
      (Ok (), ?w @ packet (rc_reqID ?c + 1) packetTypeExecCommand ''list'')"
    by (simp add: loopback_def)
  have "rc_conn ?c" "length ''There are 2'' \<le> 4086" by simp_all
  from responses_in_order [OF loopback_stream this wr refl, of "\<lparr>cfg_addr = ''h:1'', cfg_password = ''pw''\<rparr>"] t
  show ?thesis by auto
qed

section \<open>The state of the connection\<close>

lemma hang_up_run:
  obtains w where "hang_up nt c = (Ok (), c\<lparr>rc_conn := False, rc_net := w\<rparr>)" | s c' where "hang_up nt c = (Crash s, c')"
proof -
  have c: "c\<lparr>rc_net := w, rc_conn := False\<rparr> = c\<lparr>rc_conn := False, rc_net := w\<rparr>" for w by simp
  show ?thesis
    using that by (cases "net_close nt (rc_net c)"; cases "fst (net_close nt (rc_net c))")
      (auto simp: hang_up_def seqo_def ignore_def bindo_def attempt_def net_def zoom_def modify_def ret_def c)
qed

definition settles :: "('w Client, 'a) op \<Rightarrow> bool" where
  \<comment> \<open>from a live connection: still live after a success, dropped after an error\<close>
  "settles m \<longleftrightarrow> (\<forall>c. rc_conn c \<longrightarrow>
     (case m c of (Ok x, c') \<Rightarrow> rc_conn c' | (Err e, c') \<Rightarrow> \<not> rc_conn c' | (Crash s, c') \<Rightarrow> True))"

definition same_conn :: "'w Client \<Rightarrow> 'w Client \<Rightarrow> bool" where
  "same_conn c c' \<longleftrightarrow> rc_conn c' = rc_conn c"

interpretation fr_conn: op_frame same_conn
  by unfold_locales (simp_all add: same_conn_def)

lemma net_conn: "keeps same_conn (net m)"
  by (simp add: keeps_def same_conn_def net_def zoom_def split: prod.split)

lemma packets_conn: "keeps same_conn (writePacket nt i typ body)" "keeps same_conn (readPacket nt)"
  by (auto simp: writePacket_def readPacket_def Let_def intro!: net_conn)

lemma settlesD:
  "settles m \<Longrightarrow> rc_conn c \<Longrightarrow>
   case m c of (Ok x, c') \<Rightarrow> rc_conn c' | (Err e, c') \<Rightarrow> \<not> rc_conn c' | (Crash s, c') \<Rightarrow> True"
  by (simp add: settles_def)

lemma settles_bindo:
  fixes m :: "('w Client, 'a) op"
  assumes "settles m" and "\<And>x. settles (f x)"
  shows "settles (bindo m f)"
  unfolding settles_def
proof (intro allI impI)
  fix c :: "'w Client" assume c: "rc_conn c"
  obtain r c1 where m: "m c = (r, c1)" by (cases "m c")
  have "case m c of (Ok x, c') \<Rightarrow> rc_conn c' | (Err e, c') \<Rightarrow> \<not> rc_conn c' | (Crash s, c') \<Rightarrow> True"
    by (rule settlesD [OF assms(1) c])
  then have now: "case r of Ok x \<Rightarrow> rc_conn c1 | Err e \<Rightarrow> \<not> rc_conn c1 | Crash s \<Rightarrow> True"
    unfolding m by simp
  show "case bindo m f c of (Ok x, c') \<Rightarrow> rc_conn c' | (Err e, c') \<Rightarrow> \<not> rc_conn c' | (Crash s, c') \<Rightarrow> True"
  proof (cases r)
    case (Ok x)
    then have "rc_conn c1" using now by simp
    then have "case f x c1 of (Ok x, c') \<Rightarrow> rc_conn c' | (Err e, c') \<Rightarrow> \<not> rc_conn c' | (Crash s, c') \<Rightarrow> True"
      by (rule settlesD [OF assms(2)])
    then show ?thesis using m Ok by (simp add: bindo_def)
  qed (use m now in \<open>simp_all add: bindo_def\<close>)
qed

lemma settles_ret: "settles (ret x)"
  by (simp add: settles_def ret_def)

lemma settles_next_id: "settles next_id"
  by (simp add: settles_def next_id_def seqo_def bindo_def modify_def gets_def)

lemma settles_or_hang_up:
  fixes m :: "('w Client, 'a) op"
  assumes "keeps same_conn m"
  shows "settles (or_hang_up nt s m)"
  unfolding settles_def
proof (intro allI impI)
  fix c :: "'w Client" assume c: "rc_conn c"
  obtain r c1 where m: "m c = (r, c1)" by (cases "m c")
  then have c1: "rc_conn c1" using c assms by (metis keepsD same_conn_def)
  show "case or_hang_up nt s m c of (Ok x, c') \<Rightarrow> rc_conn c' | (Err e, c') \<Rightarrow> \<not> rc_conn c' | (Crash s, c') \<Rightarrow> True"
  proof (cases r)
    case (Err e)
    show ?thesis
      by (rule hang_up_run [of nt c1])
        (use m Err in \<open>simp_all add: or_hang_up_def cleanup_def bindo_def attempt_def wrapped_def seqo_def fail_def\<close>)
  qed (use m c1 in \<open>simp_all add: or_hang_up_def cleanup_def bindo_def attempt_def wrapped_def ret_def\<close>)
qed

lemma settles_reject: "settles (seqo (hang_up nt) (fail e))"
  unfolding settles_def
proof (intro allI impI)
  fix c :: "'a Client"
  show "case seqo (hang_up nt) (fail e) c of (Ok x, c') \<Rightarrow> rc_conn c' | (Err e, c') \<Rightarrow> \<not> rc_conn c' | (Crash s, c') \<Rightarrow> True"
    by (rule hang_up_run [of nt c]) (simp_all add: seqo_def bindo_def fail_def)
qed

text \<open>C37: After a command that succeeded the connection is up; after one that failed, at whatever step
  (dialling, authenticating, sending, reading), it is down, so that the next command dials and
  authenticates afresh and never goes on in the middle of a broken exchange.\<close>
theorem Execute_connection:
  "case Execute nt cfg None cmd c of
     (Ok response, c') \<Rightarrow> rc_conn c'
   | (Err e, c') \<Rightarrow> \<not> rc_conn c'
   | (Crash s, c') \<Rightarrow> True"
proof -
  define auth where "auth = bindo next_id (\<lambda>i.
         seqo (or_hang_up nt ''rcon send auth: '' (writePacket nt i packetTypeAuth (cfg_password cfg)))
         (bindo (or_hang_up nt ''rcon read auth response: '' (readPacket nt)) (\<lambda>(resID, resType, _).
            if resID = -1 \<or> (resType \<noteq> packetTypeAuthResponse \<and> resType \<noteq> packetTypeResponse)
            then seqo (hang_up nt) (fail (Errorf ''rcon: authentication failed (bad password)''))
            else ret ())))"
  have auth: "settles auth"
    unfolding auth_def seqo_def
    by (intro settles_bindo settles_next_id settles_or_hang_up packets_conn)
      (auto intro: settles_ret settles_reject [unfolded seqo_def] split: prod.split)
  define rest where "rest = bindo next_id (\<lambda>i.
      seqo (or_hang_up nt ''rcon send cmd: '' (writePacket nt i packetTypeExecCommand cmd))
     (bindo (or_hang_up nt ''rcon read response: '' (readPacket nt)) (\<lambda>(_, _, response).
        ret response)))"
  have rest: "settles rest"
    unfolding rest_def seqo_def
    by (intro settles_bindo settles_next_id settles_or_hang_up packets_conn) (auto intro: settles_ret split: prod.split)
  have conn: "case connect nt cfg c of (Ok x, c') \<Rightarrow> rc_conn c' | (Err e, c') \<Rightarrow> \<not> rc_conn c' | (Crash s, c') \<Rightarrow> True"
  proof (cases "rc_conn c")
    case True
    then show ?thesis by (simp add: connect_def bindo_def gets_def ret_def)
  next
    case False
    have run: "connect nt cfg c = seqo (wrapped ''rcon dial: '' (net (net_dial nt (cfg_addr cfg))))
        (seqo (modify (\<lambda>c. c\<lparr>rc_conn := True\<rparr>)) auth) c"
      using False by (simp add: connect_def auth_def bindo_def [of "gets rc_conn"] gets_def)
    obtain r c1 where d: "net (net_dial nt (cfg_addr cfg)) c = (r, c1)" by (cases "net (net_dial nt (cfg_addr cfg)) c")
    then have c1: "\<not> rc_conn c1" using False net_conn by (metis keepsD same_conn_def)
    have "case auth (c1\<lparr>rc_conn := True\<rparr>) of (Ok x, c') \<Rightarrow> rc_conn c' | (Err e, c') \<Rightarrow> \<not> rc_conn c' | (Crash s, c') \<Rightarrow> True"
      using auth unfolding settles_def by simp
    then show ?thesis using d c1 unfolding run
      by (cases r) (simp_all add: seqo_def bindo_def [of "wrapped _ _"] wrapped_def bindo_def [of "modify _"] modify_def)
  qed
  have run: "Execute nt cfg None cmd c = bindo (connect nt cfg) (\<lambda>_. rest) c"
    by (simp add: Execute_def checkO_def seqo_def bindo_def [of "ret _"] ret_def rest_def)
  show ?thesis unfolding run using conn rest
    by (cases "connect nt cfg c"; cases "fst (connect nt cfg c)") (auto simp: bindo_def settles_def)
qed

end
