(* ===== verification/Thunderstore.thy ===== *)
theory Thunderstore
  imports Mods SqlStore Ops
begin

text \<open>
  \<open>internal/infra/content/thunderstore/client.go\<close>, the catalogue of Valheim mods: the walk over the
  dependencies of a package, the search index with its refresh, and searching; and the table the index is
  kept in between runs, in \<open>internal/infra/store/mods.go\<close>.

  The web service is a parameter: the latest version of a package, and the dependencies of a
  version, answer as functions of what is asked. The whole list of packages that a refresh reads is given
  as it was decoded, with the timestamps already parsed (zero when they do not parse).
\<close>

section \<open>The search index\<close>

record ModSearchResult =
  sr_Owner :: string
  sr_Name :: string
  sr_FullURL :: string
  sr_Description :: string
  sr_Icon :: string
  sr_Version :: string
  sr_Downloads :: int
  sr_IsDeprecated :: bool
  sr_UpdatedAt :: Time

definition sr_FullName :: "ModSearchResult \<Rightarrow> string" where
  "sr_FullName r = sr_Owner r @ ''/'' @ sr_Name r"

record rawVersion =
  rv_Description :: string
  rv_Icon :: string
  rv_VersionNumber :: string

record rawPackage =
  raw_Name :: string
  raw_Owner :: string
  raw_PackageURL :: string
  raw_IsDeprecated :: bool
  raw_Downloads :: int
  raw_DateUpdated :: Time
  raw_Versions :: "rawVersion list"

definition search_result :: "rawPackage \<Rightarrow> ModSearchResult" where
  "search_result p =
     (let r = \<lparr>sr_Owner = raw_Owner p, sr_Name = raw_Name p, sr_FullURL = raw_PackageURL p, sr_Description = '''',
          sr_Icon = '''', sr_Version = '''', sr_Downloads = raw_Downloads p, sr_IsDeprecated = raw_IsDeprecated p,
          sr_UpdatedAt = raw_DateUpdated p\<rparr>
      in case raw_Versions p of
           [] \<Rightarrow> r
         | v # _ \<Rightarrow> r\<lparr>sr_Description := rv_Description v, sr_Icon := rv_Icon v, sr_Version := rv_VersionNumber v\<rparr>)"

record TsClient =
  ts_index :: "ModSearchResult list option"
  ts_byName :: "(string \<times> ModSearchResult) list"
  ts_indexedAt :: Time

definition setIndex :: "ModSearchResult list option \<Rightarrow> Time \<Rightarrow> TsClient \<Rightarrow> TsClient" where
  \<comment> \<open>\<open>None\<close> is a nil slice\<close>
  "setIndex idx at c =
     c\<lparr>ts_index := idx,
       ts_byName := fold (\<lambda>e m. AList.update (sr_FullName e) e m) (case idx of None \<Rightarrow> [] | Some es \<Rightarrow> es) [],
       ts_indexedAt := at\<rparr>"

definition Preload :: "ModSearchResult list option \<Rightarrow> Time \<Rightarrow> TsClient \<Rightarrow> TsClient" where
  "Preload idx at c = setIndex idx at c"

definition Ready :: "TsClient \<Rightarrow> bool" where
  "Ready c \<longleftrightarrow> ts_index c \<noteq> None"

definition ts_Get :: "string \<Rightarrow> TsClient \<Rightarrow> ModSearchResult option" where
  "ts_Get fullName c = map_of (ts_byName c) fullName"

definition LatestVersionFromIndex :: "string \<Rightarrow> string \<Rightarrow> TsClient \<Rightarrow> string option" where
  "LatestVersionFromIndex ns name c =
     (case ts_Get (ns @ ''/'' @ name) c of
        None \<Rightarrow> None
      | Some e \<Rightarrow> (if sr_Version e = '''' then None else Some (sr_Version e)))"

definition warm :: "(goerr + rawPackage list) \<Rightarrow> Time \<Rightarrow> TsClient \<Rightarrow> goerr option \<times> TsClient" where
  \<comment> \<open>\<open>sort.Slice\<close> leaves the order of equal downloads open; here they keep theirs\<close>
  "warm answer now c =
     (case answer of
        Inl e \<Rightarrow> (Some e, c)
      | Inr ps \<Rightarrow>
          (None, setIndex (if ps = [] then None else Some (sort_key (\<lambda>r. - sr_Downloads r) (map search_result ps))) now c))"

definition RefreshIndexIfStale :: "Time \<Rightarrow> (goerr + rawPackage list) \<Rightarrow> Time \<Rightarrow> TsClient \<Rightarrow> TsClient" where
  "RefreshIndexIfStale maxAge answer now c =
     (if ts_index c \<noteq> None \<and> now - ts_indexedAt c < maxAge then c else snd (warm answer now c))"

definition indexTTL :: Time where "indexTTL = 6 * 3600 * 1000000000"

definition warm_turn :: "(goerr + rawPackage list) \<Rightarrow> Time \<Rightarrow> TsClient \<Rightarrow> Time \<times> TsClient" where
  \<comment> \<open>one turn of \<open>WarmLoop\<close>: how long it sleeps, and the client after it\<close>
  "warm_turn answer now c =
     (let c = (if ts_index c = None \<or> now - ts_indexedAt c \<ge> indexTTL then snd (warm answer now c) else c)
      in (max (indexTTL - (now - ts_indexedAt c)) (60 * 1000000000), c))"

section \<open>Searching\<close>

definition matchScore :: "ModSearchResult \<Rightarrow> string \<Rightarrow> int" where
  "matchScore p t =
     (let name = to_lower (sr_Name p)
      in if t = '''' then 0
         else if name = t then 0
         else if has_prefix name t then 1
         else if contains name t then 2
         else if contains (to_lower (sr_Owner p)) t then 3
         else if contains (to_lower (sr_Description p)) t then 4
         else -1)"

definition hits :: "ModQuery \<Rightarrow> ModSearchResult list \<Rightarrow> (ModSearchResult \<times> int) list" where
  "hits q idx =
     List.map_filter (\<lambda>p.
       if sr_IsDeprecated p \<and> \<not> mq_Deprecated q then None
       else let score = matchScore p (to_lower (mq_Text q)) in if score < 0 then None else Some (p, score)) idx"

definition ranked :: "string \<Rightarrow> (ModSearchResult \<times> int) list \<Rightarrow> (ModSearchResult \<times> int) list" where
  "ranked order hs =
     (if order = ModSortRelevance then sort_key snd hs
      else if order = ModSortUpdated then sort_key (\<lambda>(r, _). - sr_UpdatedAt r) hs
      else if order = ModSortName then sort_key (\<lambda>(r, _). to_lower (sr_Name r)) hs
      else hs)"

record ModSearchPage =
  pg_Results :: "ModSearchResult list"
  pg_Total :: int

definition Search :: "ModQuery \<Rightarrow> TsClient \<Rightarrow> ModSearchPage" where
  "Search q0 c =
     (let q = WithDefaults q0;
          hs = ranked (mq_Sort q) (hits q (case ts_index c of None \<Rightarrow> [] | Some idx \<Rightarrow> idx))
      in \<lparr>pg_Results = map fst (if int (length hs) > mq_Limit q then take (nat (mq_Limit q)) hs else hs),
          pg_Total = int (length hs)\<rparr>)"

section \<open>Dependencies\<close>

definition dep_parts :: "string \<Rightarrow> (string \<times> string \<times> string) option" where
  \<comment> \<open>\<open>namespace-name-version\<close>, where the name may contain dashes\<close>
  "dep_parts dep =
     (let parts = split_on CHR ''-'' dep
      in if length parts < 3 then None
         else Some (hd parts, join ''-'' (butlast (tl parts)), last parts))"

definition ts_entry :: "string \<Rightarrow> string option" where
  \<comment> \<open>\<open>None\<close> is \<open>skip\<close>\<close>
  "ts_entry dep =
     (case dep_parts dep of
        None \<Rightarrow> None
      | Some (ns, name, ver) \<Rightarrow>
          (if has_prefix (to_lower name) ''bepinexpack'' then None else Some (ns @ ''/'' @ name @ ''/'' @ ver)))"

record ts_ref =
  tr_ns :: string
  tr_name :: string
  tr_ver :: string

definition tr_key :: "ts_ref \<Rightarrow> string" where
  "tr_key r = tr_ns r @ ''/'' @ tr_name r"

record WebApi =
  \<comment> \<open>\<open>/package/<ns>/<name>/\<close> and \<open>/package/<ns>/<name>/<version>/\<close>\<close>
  api_latest :: "string \<Rightarrow> string \<Rightarrow> goerr + string \<times> string list"
  api_deps :: "string \<Rightarrow> string \<Rightarrow> string \<Rightarrow> goerr + string list"

definition unvisited_deps :: "string list \<Rightarrow> string list \<Rightarrow> ts_ref list" where
  \<comment> \<open>what a version's dependencies add to the queue\<close>
  "unvisited_deps visited ds =
     List.map_filter (\<lambda>dep. case dep_parts dep of
         None \<Rightarrow> None
       | Some (ns, name, ver) \<Rightarrow>
           (let r = \<lparr>tr_ns = ns, tr_name = name, tr_ver = ver\<rparr> in if tr_key r \<in> set visited then None else Some r)) ds"

definition ref_text :: "ts_ref \<Rightarrow> string" where
  "ref_text r = tr_ns r @ ''-'' @ tr_name r @ ''-'' @ tr_ver r"

partial_function (option) walk ::
    "WebApi \<Rightarrow> ts_ref list \<Rightarrow> string list \<Rightarrow> string list \<Rightarrow> (goerr + string list) option" where
  \<comment> \<open>the loop of \<open>ResolveTree\<close>: its queue, the keys it has visited, the lines it has found\<close>
  "walk api queue visited out =
     (case queue of
        [] \<Rightarrow> Some (Inr out)
      | r # queue \<Rightarrow>
          (if tr_key r \<in> set visited then walk api queue visited out
           else (case ts_entry (ref_text r) of
                   None \<Rightarrow> walk api queue (tr_key r # visited) out
                 | Some line \<Rightarrow>
                     (case api_deps api (tr_ns r) (tr_name r) (tr_ver r) of
                        Inl e \<Rightarrow> Some (Inl (Wrap (''deps of '' @ line @ '': '') e ''''))
                      | Inr ds \<Rightarrow>
                          walk api (queue @ unvisited_deps (tr_key r # visited) ds) (tr_key r # visited) (out @ [line])))))"

definition ResolveTree :: "WebApi \<Rightarrow> string \<Rightarrow> string \<Rightarrow> (goerr + string list) option" where
  "ResolveTree api ns name =
     (case api_latest api ns name of
        Inl e \<Rightarrow> Some (Inl e)
      | Inr (ver, _) \<Rightarrow> walk api [\<lparr>tr_ns = ns, tr_name = name, tr_ver = ver\<rparr>] [] [])"

definition LatestVersion :: "WebApi \<Rightarrow> string \<Rightarrow> string \<Rightarrow> goerr + string \<times> string list" where
  "LatestVersion api ns name = api_latest api ns name"

section \<open>The stored index\<close>

record ModIndexRow =
  mi_FullName :: string
  mi_Namespace :: string
  mi_Name :: string
  mi_Owner :: string
  mi_Version :: string
  mi_Description :: string
  mi_Icon :: string
  mi_PackageURL :: string
  mi_Downloads :: int
  mi_IsDeprecated :: bool
  mi_UpdatedAt :: Time

record IndexTables =
  ix_rows :: "ModIndexRow list"
  ix_fetchedAt :: "Time option"
    \<comment> \<open>the value under \<open>mod_index_fetched_at\<close>, written in seconds\<close>

definition whole_seconds :: "Time \<Rightarrow> Time" where
  "whole_seconds t = t div 1000000000 * 1000000000"

definition SaveModIndex :: "Db \<Rightarrow> ModIndexRow list \<Rightarrow> Time \<Rightarrow> IndexTables \<Rightarrow> goerr option \<times> IndexTables" where
  \<comment> \<open>one transaction; \<open>full_name\<close> is the primary key\<close>
  "SaveModIndex db rows fetchedAt t =
     (case db ''save mod index'' of
        Some e \<Rightarrow> (Some e, t)
      | None \<Rightarrow>
          (if \<not> distinct (map mi_FullName rows) then (Some (Errorf ''UNIQUE constraint failed: mod_index.full_name''), t)
           else (None, \<lparr>ix_rows = rows, ix_fetchedAt = Some (whole_seconds fetchedAt)\<rparr>)))"

definition LoadModIndex :: "Db \<Rightarrow> IndexTables \<Rightarrow> goerr + ModIndexRow list \<times> Time" where
  "LoadModIndex db t =
     (case db ''load mod index'' of
        Some e \<Rightarrow> Inl e
      | None \<Rightarrow> Inr (sort_key (\<lambda>r. - mi_Downloads r) (ix_rows t), case ix_fetchedAt t of None \<Rightarrow> 0 | Some x \<Rightarrow> x))"

definition RowsToResults :: "ModIndexRow list \<Rightarrow> ModSearchResult list" where
  "RowsToResults rows =
     map (\<lambda>r. \<lparr>sr_Owner = mi_Owner r, sr_Name = mi_Name r, sr_FullURL = mi_PackageURL r, sr_Description = mi_Description r,
       sr_Icon = mi_Icon r, sr_Version = mi_Version r, sr_Downloads = mi_Downloads r, sr_IsDeprecated = mi_IsDeprecated r,
       sr_UpdatedAt = mi_UpdatedAt r\<rparr>) rows"

definition ResultsToRows :: "ModSearchResult list \<Rightarrow> ModIndexRow list" where
  "ResultsToRows idx =
     map (\<lambda>r. \<lparr>mi_FullName = sr_FullName r, mi_Namespace = sr_Owner r, mi_Name = sr_Name r, mi_Owner = sr_Owner r,
       mi_Version = sr_Version r, mi_Description = sr_Description r, mi_Icon = sr_Icon r, mi_PackageURL = sr_FullURL r,
       mi_Downloads = sr_Downloads r, mi_IsDeprecated = sr_IsDeprecated r, mi_UpdatedAt = sr_UpdatedAt r\<rparr>) idx"

end
