(* ===== verification/ThunderstoreProofs.thy ===== *)
theory ThunderstoreProofs
  imports Thunderstore
begin

text \<open>
  The walk over the dependencies of a package ends and finds all of them, and a search answers from
  the whole index.
\<close>

section \<open>The walk ends\<close>

definition mentioned :: "WebApi \<Rightarrow> string set" where
  \<comment> \<open>every package some version depends on\<close>
  "mentioned api = {tr_key r | ns name ver ds r. api_deps api ns name ver = Inr ds \<and> r \<in> set (unvisited_deps [] ds)}"

lemma unvisited_filter: "unvisited_deps V ds = filter (\<lambda>r. tr_key r \<notin> set V) (unvisited_deps [] ds)"
  by (induction ds) (auto simp: unvisited_deps_def map_filter_simps Let_def split: option.split prod.split)

lemma unvisited_mentioned:
  assumes "api_deps api ns name ver = Inr ds" and "r \<in> set (unvisited_deps V ds)"
  shows "tr_key r \<in> mentioned api"
proof -
  have "r \<in> set (unvisited_deps [] ds)" using assms(2) unfolding unvisited_filter [of V] by simp
  then show ?thesis using assms(1) unfolding mentioned_def by blast
qed

lemma walk_ends:
  assumes "finite K" and "mentioned api \<subseteq> K" and "tr_key ` set queue \<subseteq> K"
  shows "\<exists>x. walk api queue visited out = Some x"
  using assms(3)
proof (induction "(card (K - set visited), length queue)" arbitrary: queue visited out
    rule: wf_induct_rule [OF wf_lex_prod [OF wf_less_than wf_less_than]])
  case 1
  note IH = 1(1) and keys = 1(2)
  show ?case
  proof (cases queue)
    case Nil
    then show ?thesis by (simp add: walk.simps)
  next
    case (Cons r rest)
    have sub: "tr_key ` set rest \<subseteq> K" "tr_key r \<in> K" using keys Cons by auto
    show ?thesis
    proof (cases "tr_key r \<in> set visited")
      case True
      have "\<exists>x. walk api rest visited out = Some x" by (rule IH) (use Cons sub in auto)
      then show ?thesis using Cons True by (simp add: walk.simps [of api "r # rest"])
    next
      case False
      have less: "card (K - set (tr_key r # visited)) < card (K - set visited)"
        by (rule psubset_card_mono) (use assms(1) sub False in auto)
      have skip: "\<exists>x. walk api rest (tr_key r # visited) out' = Some x" for out'
        by (rule IH) (use less sub in auto)
      have go: "\<exists>x. walk api (rest @ unvisited_deps (tr_key r # visited) ds) (tr_key r # visited) out' = Some x"
        if "api_deps api (tr_ns r) (tr_name r) (tr_ver r) = Inr ds" for ds out'
      proof (rule IH)
        have "tr_key ` set (unvisited_deps (tr_key r # visited) ds) \<subseteq> mentioned api"
          using unvisited_mentioned [OF that] by blast
        then show "tr_key ` set (rest @ unvisited_deps (tr_key r # visited) ds) \<subseteq> K" using assms(2) sub by auto
      qed (use less in auto)
      show ?thesis using Cons False skip go
        by (simp add: walk.simps [of api "r # rest"] split: option.split sum.split)
    qed
  qed
qed

text \<open>C35: Resolving the dependencies of a package comes to an end, with a list or an error, as long as the
  catalogue mentions finitely many packages, whatever cycles their dependencies have.\<close>
theorem ResolveTree_terminates:
  assumes "finite (mentioned api)"
  shows "\<exists>x. ResolveTree api ns name = Some x"
proof -
  have "\<exists>x. walk api [\<lparr>tr_ns = ns, tr_name = name, tr_ver = ver\<rparr>] [] [] = Some x" for ver
    by (rule walk_ends [of "insert (ns @ ''/'' @ name) (mentioned api)"]) (use assms in \<open>auto simp: tr_key_def\<close>)
  then show ?thesis by (auto simp: ResolveTree_def split: sum.split prod.split)
qed

definition ring :: WebApi where
  \<comment> \<open>two packages that depend on each other\<close>
  "ring = \<lparr>api_latest = (\<lambda>ns name. Inr (''1.0.0'', [])),
     api_deps = (\<lambda>ns name ver. Inr (if name = ''A'' then [''x-B-2.0.0'', ''denikson-BepInExPack_Valheim-5.4.0''] else [''x-A-1.0.0'']))\<rparr>"

lemma ring_finite: "finite (mentioned ring)"
proof -
  have "mentioned ring \<subseteq> {''x/B'', ''denikson/BepInExPack_Valheim'', ''x/A''}"
  proof
    fix k assume "k \<in> mentioned ring"
    then obtain name :: string where "k \<in> tr_key ` set (unvisited_deps []
        (if name = ''A'' then [''x-B-2.0.0'', ''denikson-BepInExPack_Valheim-5.4.0''] else [''x-A-1.0.0'']))"
      by (auto simp: mentioned_def ring_def)
    moreover have "map tr_key (unvisited_deps [] [''x-B-2.0.0'', ''denikson-BepInExPack_Valheim-5.4.0'']) =
        [''x/B'', ''denikson/BepInExPack_Valheim'']" "map tr_key (unvisited_deps [] [''x-A-1.0.0'']) = [''x/A'']"
      by code_simp+
    ultimately show "k \<in> {''x/B'', ''denikson/BepInExPack_Valheim'', ''x/A''}"
      by (auto simp flip: set_map split: if_splits)
  qed
  then show ?thesis by (rule finite_subset) simp
qed

theorem ResolveTree_terminates_witness: "\<exists>x. ResolveTree ring ''x'' ''A'' = Some x"
  by (rule ResolveTree_terminates [OF ring_finite])

section \<open>What it finds\<close>

definition covered :: "WebApi \<Rightarrow> string set \<Rightarrow> ts_ref \<Rightarrow> bool" where
  \<comment> \<open>listed, or left out because the loader or a malformed name\<close>
  "covered api K d \<longleftrightarrow> tr_key d \<in> K \<or> (\<exists>d'. tr_key d' = tr_key d \<and> ts_entry (ref_text d') = None)"

definition walked :: "WebApi \<Rightarrow> string set \<Rightarrow> ts_ref list \<Rightarrow> ts_ref list \<Rightarrow> bool" where
  "walked api V queue rs \<longleftrightarrow> distinct (map tr_key rs) \<and> tr_key ` set rs \<inter> V = {} \<and>
     (\<forall>r\<in>set rs. ts_entry (ref_text r) \<noteq> None \<and>
        (\<exists>ds. api_deps api (tr_ns r) (tr_name r) (tr_ver r) = Inr ds \<and>
           (\<forall>d\<in>set (unvisited_deps [] ds). covered api (V \<union> tr_key ` set rs) d))) \<and>
     (\<forall>r\<in>set queue. covered api (V \<union> tr_key ` set rs) r)"


lemma walked_visited: "walked api V rest rs \<Longrightarrow> tr_key r \<in> V \<Longrightarrow> walked api V (r # rest) rs"
  by (auto simp: walked_def covered_def)

lemma walked_skip:
  assumes "walked api (insert (tr_key r) V) rest rs" and "ts_entry (ref_text r) = None"
  shows "walked api V (r # rest) rs"
proof -
  have "covered api (V \<union> K) d" if "covered api (insert (tr_key r) V \<union> K) d" for K d
    using that assms(2) by (auto simp: covered_def)
  then show ?thesis using assms by (fastforce simp: walked_def covered_def)
qed

lemma walked_add:
  assumes rs: "walked api (insert (tr_key r) (set V)) (rest @ unvisited_deps (tr_key r # V) ds) rs"
    and r: "tr_key r \<notin> set V" "ts_entry (ref_text r) \<noteq> None"
      "api_deps api (tr_ns r) (tr_name r) (tr_ver r) = Inr ds"
  shows "walked api (set V) (r # rest) (r # rs)"
proof -
  have K: "insert (tr_key r) (set V) \<union> tr_key ` set rs = set V \<union> tr_key ` set (r # rs)" by auto
  have "\<forall>d\<in>set (unvisited_deps [] ds). covered api (set V \<union> tr_key ` set (r # rs)) d"
    using rs unfolding walked_def K unvisited_filter [of "tr_key r # V"] by (auto simp: covered_def)
  moreover have "covered api (set V \<union> tr_key ` set (r # rs)) r" by (simp add: covered_def)
  ultimately show ?thesis using rs r unfolding walked_def K by auto
qed

lemma walk_finds:
  assumes "walk api queue V out = Some res" and "res = Inr lines"
  shows "\<exists>rs. lines = out @ List.map_filter (\<lambda>r. ts_entry (ref_text r)) rs \<and> walked api (set V) queue rs"
  using assms(2)
proof (induction rule: walk.raw_induct [OF _ assms(1)])
  case (1 walk api queue V out res)
  note IH = 1(1) and run = 1(2) and res = 1(3)
  show ?case
  proof (cases queue)
    case Nil
    then have "lines = out \<and> walked api (set V) queue []" using run res by (simp add: walked_def)
    then show ?thesis by (intro exI [of _ "[]"]) (simp add: map_filter_simps)
  next
    case (Cons r rest)
    show ?thesis
    proof (cases "tr_key r \<in> set V")
      case True
      then show ?thesis using IH [of api rest V out res] run res Cons by (auto intro: walked_visited)
    next
      case False
      show ?thesis
      proof (cases "ts_entry (ref_text r)")
        case None
        then show ?thesis using IH [of api rest "tr_key r # V" out res] run res Cons False
          by (auto intro: walked_skip)
      next
        case (Some line)
        then obtain ds where ds: "api_deps api (tr_ns r) (tr_name r) (tr_ver r) = Inr ds"
            "walk api (rest @ unvisited_deps (tr_key r # V) ds) (tr_key r # V) (out @ [line]) = Some res"
          using run res Cons False by (auto split: sum.splits)
        from IH [OF ds(2) res] obtain rs
          where "lines = (out @ [line]) @ List.map_filter (\<lambda>r. ts_entry (ref_text r)) rs"
            "walked api (set (tr_key r # V)) (rest @ unvisited_deps (tr_key r # V) ds) rs" by auto
        then show ?thesis using Some ds(1) False Cons
          by (intro exI [of _ "r # rs"]) (auto simp: map_filter_simps intro: walked_add)
      qed
    qed
  qed
qed

text \<open>C34: When resolving succeeds it returns one line for each package it found: no package is listed twice,
  the package asked for is listed unless it is the loader itself, and every dependency of a listed version is listed
  (at whichever version was met first), unless its name says that it is the loader or does not split into a
  namespace, a name and a version.\<close>
theorem ResolveTree_closed:
  assumes "ResolveTree api ns name = Some (Inr lines)"
  shows "\<exists>ver deps rs. api_latest api ns name = Inr (ver, deps) \<and>
    lines = List.map_filter (\<lambda>r. ts_entry (ref_text r)) rs \<and> length lines = length rs \<and>
    walked api {} [\<lparr>tr_ns = ns, tr_name = name, tr_ver = ver\<rparr>] rs"
proof -
  obtain ver deps where latest: "api_latest api ns name = Inr (ver, deps)"
      and w: "walk api [\<lparr>tr_ns = ns, tr_name = name, tr_ver = ver\<rparr>] [] [] = Some (Inr lines)"
    using assms by (auto simp: ResolveTree_def split: sum.splits)
  obtain rs where rs: "lines = List.map_filter (\<lambda>r. ts_entry (ref_text r)) rs"
      "walked api {} [\<lparr>tr_ns = ns, tr_name = name, tr_ver = ver\<rparr>] rs"
    using walk_finds [OF w refl] by auto
  have "length (List.map_filter f rs) = length rs" if "\<forall>r\<in>set rs. f r \<noteq> None" for f :: "ts_ref \<Rightarrow> string option"
    using that by (induction rs) (auto simp: map_filter_simps)
  then have "length lines = length rs" using rs by (auto simp: walked_def)
  then show ?thesis using latest rs by blast
qed

theorem ResolveTree_closed_witness:
  "\<exists>ver deps rs. api_latest ring ''x'' ''A'' = Inr (ver, deps) \<and>
    [''x/A/1.0.0'', ''x/B/2.0.0''] = List.map_filter (\<lambda>r. ts_entry (ref_text r)) rs \<and>
    length [''x/A/1.0.0'', ''x/B/2.0.0''] = length rs \<and>
    walked ring {} [\<lparr>tr_ns = ''x'', tr_name = ''A'', tr_ver = ver\<rparr>] rs"
proof (rule ResolveTree_closed)
  let ?a = "\<lparr>tr_ns = ''x'', tr_name = ''A'', tr_ver = ''1.0.0''\<rparr>"
  let ?b = "\<lparr>tr_ns = ''x'', tr_name = ''B'', tr_ver = ''2.0.0''\<rparr>"
  let ?l = "\<lparr>tr_ns = ''denikson'', tr_name = ''BepInExPack_Valheim'', tr_ver = ''5.4.0''\<rparr>"
  have "ts_entry (ref_text ?a) = Some ''x/A/1.0.0''" "ts_entry (ref_text ?b) = Some ''x/B/2.0.0''"
    "ts_entry (ref_text ?l) = None"
    "unvisited_deps [''x/A''] [''x-B-2.0.0'', ''denikson-BepInExPack_Valheim-5.4.0''] = [?b, ?l]"
    "unvisited_deps [''x/B'', ''x/A''] [''x-A-1.0.0''] = []" by code_simp+
  then show "ResolveTree ring ''x'' ''A'' = Some (Inr [''x/A/1.0.0'', ''x/B/2.0.0''])"
    by (simp add: ResolveTree_def ring_def walk.simps tr_key_def)
qed


section \<open>Searching\<close>

definition matching :: "ModQuery \<Rightarrow> ModSearchResult \<Rightarrow> bool" where
  \<comment> \<open>what a search is about: not deprecated unless asked for, with the text in its name, owner or description\<close>
  "matching q p \<longleftrightarrow> (mq_Deprecated q \<or> \<not> sr_IsDeprecated p) \<and>
     (to_lower (mq_Text q) = '''' \<or>
      (\<exists>f \<in> {sr_Name p, sr_Owner p, sr_Description p}. contains (to_lower f) (to_lower (mq_Text q))))"

lemma has_prefix_contains: "has_prefix s t \<Longrightarrow> contains s t"
  by (cases s) (auto simp: contains_def has_prefix_def)

lemma contains_self [simp]: "contains s s"
  by (rule has_prefix_contains) (simp add: has_prefix_def)

lemma matchScore_nonneg:
  "0 \<le> matchScore p t \<longleftrightarrow> t = '''' \<or> (\<exists>f \<in> {sr_Name p, sr_Owner p, sr_Description p}. contains (to_lower f) t)"
  by (auto simp: matchScore_def Let_def intro: has_prefix_contains)

lemma hits_filter:
  "hits q idx = map (\<lambda>p. (p, matchScore p (to_lower (mq_Text q)))) (filter (matching q) idx)"
proof (induction idx)
  case (Cons p idx)
  have m: "matching q p \<longleftrightarrow> \<not> (sr_IsDeprecated p \<and> \<not> mq_Deprecated q) \<and> \<not> matchScore p (to_lower (mq_Text q)) < 0"
    unfolding matching_def matchScore_nonneg [symmetric] by auto
  show ?case
  proof (cases "matching q p")
    case True
    then show ?thesis using Cons m by (auto simp: hits_def map_filter_simps Let_def)
  next
    case False
    then have "sr_IsDeprecated p \<and> \<not> mq_Deprecated q \<or> matchScore p (to_lower (mq_Text q)) < 0" using m by blast
    then show ?thesis using Cons False by (elim disjE) (auto simp: hits_def map_filter_simps Let_def)
  qed
qed (simp add: hits_def map_filter_simps)

lemma ranked_perm [simp]: "mset (ranked order hs) = mset hs"
  by (simp add: ranked_def)

definition in_order :: "ModQuery \<Rightarrow> ModSearchResult list \<Rightarrow> bool" where
  "in_order q ps =
     (if mq_Sort q = ModSortRelevance then sorted (map (\<lambda>p. matchScore p (to_lower (mq_Text q))) ps)
      else if mq_Sort q = ModSortUpdated then sorted (map (\<lambda>p. - sr_UpdatedAt p) ps)
      else if mq_Sort q = ModSortName then sorted (map (\<lambda>p. to_lower (sr_Name p)) ps)
      else True)"

text \<open>A search answers from the whole index: its total counts every package that matches the text and is
  not deprecated (unless deprecated ones are asked for), the page holds as many of these as the limit allows, each once,
  and ordered by relevance, date or name no package left out ranks before one on the page.\<close>
theorem Search_page:
  "\<exists>rest. mset (pg_Results (Search q c) @ rest) = mset (filter (matching (WithDefaults q)) (case ts_index c of None \<Rightarrow> [] | Some idx \<Rightarrow> idx)) \<and>
     pg_Total (Search q c) = int (length (pg_Results (Search q c) @ rest)) \<and>
     int (length (pg_Results (Search q c))) = min (pg_Total (Search q c)) (mq_Limit (WithDefaults q)) \<and>
     in_order (WithDefaults q) (pg_Results (Search q c) @ rest)"
proof -
  define Q where "Q = WithDefaults q"
  define idx where "idx = (case ts_index c of None \<Rightarrow> [] | Some idx \<Rightarrow> idx)"
  define hs where "hs = ranked (mq_Sort Q) (hits Q idx)"
  have hit: "snd h = matchScore (fst h) (to_lower (mq_Text Q))" if "h \<in> set hs" for h
  proof -
    have "h \<in># mset (hits Q idx)" using that unfolding hs_def by (metis ranked_perm set_mset_mset)
    then show ?thesis by (auto simp: hits_filter)
  qed
  have limit: "0 < mq_Limit Q" unfolding Q_def WithDefaults_def Let_def by (auto simp: DefaultModSearchLimit_def)
  have page: "pg_Results (Search q c) = take (nat (mq_Limit Q)) (map fst hs)" "pg_Total (Search q c) = int (length hs)"
    using limit by (auto simp: Search_def Let_def hs_def idx_def Q_def take_map)
  let ?rest = "drop (nat (mq_Limit Q)) (map fst hs)"
  have all: "pg_Results (Search q c) @ ?rest = map fst hs" unfolding page by simp
  have "mset (map fst hs) = mset (filter (matching Q) idx)"
    unfolding hs_def mset_map ranked_perm by (simp add: hits_filter image_mset.compositionality comp_def)
  moreover have "sorted (map (\<lambda>p. matchScore p (to_lower (mq_Text Q))) (map fst hs))" if "mq_Sort Q = ModSortRelevance"
  proof -
    have "map (\<lambda>p. matchScore p (to_lower (mq_Text Q))) (map fst hs) = map snd hs" using hit by simp
    moreover have "sorted (map snd hs)" using that by (simp add: hs_def ranked_def)
    ultimately show ?thesis by (rule ssubst)
  qed
  moreover have "sorted (map (\<lambda>p. - sr_UpdatedAt p) (map fst hs))" if "mq_Sort Q = ModSortUpdated"
    using that sorted_sort_key [of "\<lambda>(r, _). - sr_UpdatedAt r" "hits Q idx"]
    by (simp add: hs_def ranked_def ModSortRelevance_def ModSortUpdated_def case_prod_unfold comp_def)
  moreover have "sorted (map (\<lambda>p. to_lower (sr_Name p)) (map fst hs))" if "mq_Sort Q = ModSortName"
    using that sorted_sort_key [of "\<lambda>(r, _). to_lower (sr_Name r)" "hits Q idx"]
    by (simp add: hs_def ranked_def ModSortRelevance_def ModSortUpdated_def ModSortName_def case_prod_unfold comp_def)
  ultimately show ?thesis using limit all page
    by (intro exI [of _ ?rest]) (auto simp: Q_def idx_def min_def in_order_def)
qed



section \<open>The stored index\<close>

lemma RowsToResults_inverse [simp]: "RowsToResults (ResultsToRows idx) = idx"
  by (induction idx) (auto simp: RowsToResults_def ResultsToRows_def)

lemma sort_key_sorted: "sorted (map f xs) \<Longrightarrow> sort_key f xs = xs"
  by (simp add: sorted_sort_id sort_key_id_if_sorted)

text \<open>The index a refresh builds survives a restart: saved and loaded again it is the same list, so the
  restarted client answers every search and every lookup as the old one, and only the time of the refresh loses its
  fraction of a second. Two packages of one full name would make the save fail.\<close>
theorem index_survives:
  assumes "db ''save mod index'' = None" and "db ''load mod index'' = None"
    and "ps \<noteq> []" and "distinct (map (sr_FullName \<circ> search_result) ps)"
    and "warm (Inr ps) now c = (None, c')" and "ts_index c' = Some idx"
  shows "fst (SaveModIndex db (ResultsToRows idx) now tables) = None \<and>
    (\<exists>rows. LoadModIndex db (snd (SaveModIndex db (ResultsToRows idx) now tables)) = Inr (rows, whole_seconds now) \<and>
       Preload (Some (RowsToResults rows)) (whole_seconds now) fresh = c'\<lparr>ts_indexedAt := whole_seconds now\<rparr>)"
proof -
  have idx: "idx = sort_key (\<lambda>r. - sr_Downloads r) (map search_result ps)"
    and c': "c' = setIndex (Some idx) now c" using assms(3,5,6) by (auto simp: warm_def setIndex_def)
  have "mset (map sr_FullName idx) = mset (map (sr_FullName \<circ> search_result) ps)"
    unfolding idx by (simp add: image_mset.compositionality comp_def)
  then have "distinct (map sr_FullName idx)" using assms(4) by (metis mset_eq_imp_distinct_iff)
  then have save: "SaveModIndex db (ResultsToRows idx) now tables =
      (None, \<lparr>ix_rows = ResultsToRows idx, ix_fetchedAt = Some (whole_seconds now)\<rparr>)"
    using assms(1) by (simp add: SaveModIndex_def ResultsToRows_def comp_def)
  have "sorted (map (\<lambda>r. - sr_Downloads r) idx)" unfolding idx by simp
  then have "sort_key (\<lambda>r. - mi_Downloads r) (ResultsToRows idx) = ResultsToRows idx"
    by (intro sort_key_sorted) (simp add: ResultsToRows_def comp_def)
  then show ?thesis using assms(2) unfolding save c' by (simp add: LoadModIndex_def Preload_def setIndex_def)
qed


definition two_packages :: "rawPackage list" where
  "two_packages =
     [\<lparr>raw_Name = ''A'', raw_Owner = ''x'', raw_PackageURL = ''u'', raw_IsDeprecated = False, raw_Downloads = 3,
       raw_DateUpdated = 5, raw_Versions = [\<lparr>rv_Description = ''d'', rv_Icon = ''i'', rv_VersionNumber = ''1.0.0''\<rparr>]\<rparr>,
      \<lparr>raw_Name = ''B'', raw_Owner = ''x'', raw_PackageURL = ''u'', raw_IsDeprecated = False, raw_Downloads = 7,
       raw_DateUpdated = 5, raw_Versions = []\<rparr>]"

theorem index_survives_witness:
  "\<exists>idx. map sr_FullName idx = [''x/B'', ''x/A''] \<and>
     fst (SaveModIndex (\<lambda>_. None) (ResultsToRows idx) 1500000000 \<lparr>ix_rows = [], ix_fetchedAt = None\<rparr>) = None"
proof -
  let ?c = "\<lparr>ts_index = None, ts_byName = [], ts_indexedAt = 0\<rparr>"
  let ?c' = "snd (warm (Inr two_packages) 1500000000 ?c)"
  define idx where "idx = sort_key (\<lambda>r. - sr_Downloads r) (map search_result two_packages)"
  have names: "map sr_FullName idx = [''x/B'', ''x/A'']" unfolding idx_def by code_simp
  have "fst (SaveModIndex (\<lambda>_. None) (ResultsToRows idx) 1500000000 \<lparr>ix_rows = [], ix_fetchedAt = None\<rparr>) = None"
    by (rule index_survives [where ps = two_packages and c' = ?c' and c = ?c and fresh = ?c, THEN conjunct1])
      (auto simp: warm_def setIndex_def idx_def two_packages_def sr_FullName_def search_result_def)
  with names show ?thesis by (intro exI [of _ idx] conjI)
qed

end
