(* ===== verification/Paths.thy ===== *)
theory Paths
  imports GoStrings
begin

text \<open>
  Go's \<open>path/filepath\<close> on Unix, as far as the stores of desired state use it: \<open>Clean\<close>, \<open>Join\<close>, \<open>Dir\<close>,
  and what a clean path looks like.
\<close>

abbreviation SLASH :: char where "SLASH \<equiv> CHR ''/''"

definition clean_seg :: "bool \<Rightarrow> string \<Rightarrow> string list \<Rightarrow> string list" where
  \<comment> \<open>one element of a path, the elements kept so far in reverse\<close>
  "clean_seg rooted seg st =
     (if seg = '''' \<or> seg = ''.'' then st
      else if seg = ''..'' then
        (case st of
           [] \<Rightarrow> (if rooted then [] else [''..''])
         | t # rest \<Rightarrow> (if t = ''..'' then ''..'' # st else rest))
      else seg # st)"

definition clean_segs :: "bool \<Rightarrow> string list \<Rightarrow> string list" where
  "clean_segs rooted segs = rev (fold (clean_seg rooted) segs [])"

definition path_clean :: "string \<Rightarrow> string" where
  "path_clean p =
     (let rooted = has_prefix p ''/''; body = join ''/'' (clean_segs rooted (split_on SLASH p))
      in if rooted then ''/'' @ body else if body = '''' then ''.'' else body)"

definition path_join :: "string \<Rightarrow> string \<Rightarrow> string" where
  "path_join a b =
     (if a \<noteq> '''' then path_clean (a @ ''/'' @ b) else if b \<noteq> '''' then path_clean b else '''')"

definition path_dir :: "string \<Rightarrow> string" where
  "path_dir p =
     (let parts = split_on SLASH p
      in path_clean (if length parts \<le> 1 then '''' else join ''/'' (butlast parts) @ ''/''))"

section \<open>Clean paths\<close>

definition plain_seg :: "string \<Rightarrow> bool" where
  "plain_seg s \<longleftrightarrow> s \<noteq> '''' \<and> s \<noteq> ''.'' \<and> s \<noteq> ''..'' \<and> SLASH \<notin> set s"

definition up_segs :: "string list \<Rightarrow> bool" where
  \<comment> \<open>some \<open>..\<close>, then plain elements\<close>
  "up_segs segs \<longleftrightarrow> (\<exists>n ps. segs = replicate n ''..'' @ ps \<and> list_all plain_seg ps)"

lemma up_segs_plain: "list_all plain_seg ps \<Longrightarrow> up_segs ps"
  unfolding up_segs_def by (intro exI [of _ 0] exI [of _ ps]) simp

lemma clean_seg_plain [simp]: "plain_seg s \<Longrightarrow> clean_seg rooted s st = s # st"
  by (simp add: clean_seg_def plain_seg_def)

lemma clean_seg_skip [simp]: "clean_seg rooted '''' st = st"
  by (simp add: clean_seg_def)

lemma clean_segs_plain: "list_all plain_seg ps \<Longrightarrow> fold (clean_seg rooted) ps st = rev ps @ st"
  by (induction ps arbitrary: st) auto

lemma clean_seg_up:
  assumes "up_segs (rev st)" and "SLASH \<notin> set seg"
  shows "up_segs (rev (clean_seg False seg st))"
proof -
  obtain n ps where st: "rev st = replicate n ''..'' @ ps" "list_all plain_seg ps"
    using assms(1) unfolding up_segs_def by blast
  have more: "up_segs (replicate m ''..'' @ qs)" if "list_all plain_seg qs" for m qs
    using that unfolding up_segs_def by blast
  consider "seg = '''' \<or> seg = ''.''" | "seg = ''..''" | "plain_seg seg"
    using assms(2) by (auto simp: plain_seg_def)
  then show ?thesis
  proof cases
    case 1
    then show ?thesis using assms(1) by (auto simp: clean_seg_def)
  next
    case 2
    show ?thesis
    proof (cases ps rule: rev_cases)
      case Nil
      then have "st = rev (replicate n ''..'')" using arg_cong [OF st(1), of rev] by simp
      then have "rev (clean_seg False seg st) = replicate (Suc n) ''..'' @ []"
        using 2 by (cases n) (auto simp: clean_seg_def replicate_append_same)
      then show ?thesis using more [of "[]" "Suc n"] by simp
    next
      case (snoc qs q)
      then have "st = q # rev (replicate n ''..'' @ qs)" using arg_cong [OF st(1), of rev] by simp
      then have "rev (clean_seg False seg st) = replicate n ''..'' @ qs"
        using 2 st(2) snoc by (auto simp: clean_seg_def plain_seg_def)
      then show ?thesis using more [of qs n] st(2) snoc by simp
    qed
  next
    case 3
    then have "rev (clean_seg False seg st) = replicate n ''..'' @ (ps @ [seg])" using st(1) by simp
    then show ?thesis using more [of "ps @ [seg]" n] st(2) 3 by simp
  qed
qed

lemma clean_segs_up: "\<forall>s\<in>set segs. SLASH \<notin> set s \<Longrightarrow> up_segs (clean_segs False segs)"
proof -
  have "up_segs (rev (fold (clean_seg False) segs st))" if "\<forall>s\<in>set segs. SLASH \<notin> set s" "up_segs (rev st)" for st
    using that by (induction segs arbitrary: st) (auto intro: clean_seg_up)
  from this [of "[]"] show "\<forall>s\<in>set segs. SLASH \<notin> set s \<Longrightarrow> up_segs (clean_segs False segs)"
    by (simp add: clean_segs_def up_segs_plain)
qed

end
