(* ===== verification/Yaml.thy ===== *)
theory Yaml
  imports StateStore
begin

text \<open>
  YAML documents as the stores of desired state see them: the tree \<open>yaml.v3\<close> parses a text into,
  with the fields the code reads and writes, and reading the \<open>data\<close> map and the annotations off it, as
  \<open>internal/infra/gitops/data.go\<close> and \<open>internal/infra/state/local/state.go\<close> both do.

  Parsing and printing are parameters (\<open>Yaml\<close>). \<open>yaml_ok\<close> states what the library documents: a document
  it prints is parsed back to the same maps.
\<close>

datatype Kind = DocumentNode | SequenceNode | MappingNode | ScalarNode | AliasNode

datatype Node = Node (n_kind: Kind) (n_tag: string) (n_style: nat) (n_value: string) (n_content: "Node list")

record Yaml =
  y_parse :: "string \<Rightarrow> goerr + Node list"
    \<comment> \<open>\<open>yaml.Unmarshal\<close> into a \<open>yaml.Node\<close>: the content of the document node\<close>
  y_print :: "Node list \<Rightarrow> goerr + string"
    \<comment> \<open>\<open>yaml.Marshal\<close> of that node\<close>
  y_encode :: "(string \<times> string) list option \<Rightarrow> (string \<times> string) list option \<Rightarrow> goerr + string"
    \<comment> \<open>encoding of a \<open>DocYAML\<close> with these annotations and this data\<close>
  y_decode :: "string \<Rightarrow> goerr + (string \<times> string) list option \<times> (string \<times> string) list option"
    \<comment> \<open>the annotations and the data of \<open>yaml.Unmarshal\<close> into a struct\<close>

fun pairs :: "Node list \<Rightarrow> (Node \<times> Node) list" where
  "pairs (k # v # ns) = (k, v) # pairs ns"
| "pairs ns = []"

definition mapValue :: "Node \<Rightarrow> string \<Rightarrow> Node option" where
  "mapValue m key =
     (if n_kind m \<noteq> MappingNode then None
      else map_option snd (find (\<lambda>(k, v). n_value k = key) (pairs (n_content m))))"

definition node_entries :: "Node \<Rightarrow> (string \<times> string) list" where
  \<comment> \<open>a later entry of the same key wins\<close>
  "node_entries m = fold (\<lambda>(k, v) acc. AList.update (n_value k) (n_value v) acc) (pairs (n_content m)) []"

definition mapping_entries :: "Node option \<Rightarrow> (string \<times> string) list option" where
  "mapping_entries m =
     (case m of Some n \<Rightarrow> if n_kind n = MappingNode then Some (node_entries n) else None | None \<Rightarrow> None)"

definition doc_data :: "Node \<Rightarrow> (string \<times> string) list option" where
  "doc_data root = mapping_entries (mapValue root ''data'')"

definition doc_annotations :: "Node \<Rightarrow> (string \<times> string) list option" where
  "doc_annotations root =
     (case mapValue root ''metadata'' of
        None \<Rightarrow> None
      | Some meta \<Rightarrow> mapping_entries (mapValue meta ''annotations''))"

definition document_of :: "Yaml \<Rightarrow> string \<Rightarrow> Document" where
  \<comment> \<open>a text that does not parse, or is empty, has no maps\<close>
  "document_of y raw =
     (case y_parse y raw of
        Inr (root # _) \<Rightarrow> \<lparr>Data = doc_data root, Annotations = doc_annotations root, Raw = raw\<rparr>
      | _ \<Rightarrow> \<lparr>Data = None, Annotations = None, Raw = raw\<rparr>)"

section \<open>What the library promises\<close>

definition entry_of :: "(string \<times> string) list option \<Rightarrow> string \<Rightarrow> string option" where
  \<comment> \<open>looking a key up, also in a nil map\<close>
  "entry_of m k = (case m of None \<Rightarrow> None | Some m \<Rightarrow> map_of m k)"

definition same_maps :: "Document \<Rightarrow> Document \<Rightarrow> bool" where
  "same_maps c d \<longleftrightarrow> entry_of (Data c) = entry_of (Data d) \<and> entry_of (Annotations c) = entry_of (Annotations d)"

definition encode_ok :: "Yaml \<Rightarrow> bool" where
  \<comment> \<open>a \<open>ConfigMap\<close> that was encoded is read back, from its text as from its nodes\<close>
  "encode_ok y \<longleftrightarrow> (\<forall>nts data raw. y_encode y nts data = Inr raw \<longrightarrow>
     entry_of (Data (document_of y raw)) = entry_of data \<and>
     entry_of (Annotations (document_of y raw)) = entry_of nts)"

definition decode_ok :: "Yaml \<Rightarrow> bool" where
  \<comment> \<open>decoding into a struct and into nodes agree\<close>
  "decode_ok y \<longleftrightarrow> (\<forall>raw nts data. y_decode y raw = Inr (nts, data) \<longrightarrow>
     entry_of (Data (document_of y raw)) = entry_of data \<and>
     entry_of (Annotations (document_of y raw)) = entry_of nts)"

definition print_ok :: "Yaml \<Rightarrow> bool" where
  \<comment> \<open>a tree that was printed is parsed to a document with the same maps\<close>
  "print_ok y \<longleftrightarrow> (\<forall>root ns raw. y_print y (root # ns) = Inr raw \<longrightarrow>
     entry_of (Data (document_of y raw)) = entry_of (doc_data root) \<and>
     entry_of (Annotations (document_of y raw)) = entry_of (doc_annotations root))"

lemma data_get_entry: "data_get d k = (case entry_of (Data d) k of None \<Rightarrow> '''' | Some t \<Rightarrow> t)"
  by (simp add: data_get_def entry_of_def mget_def split: option.split)

lemma document_of_raw [simp]: "Raw (document_of y raw) = raw"
  by (simp add: document_of_def split: sum.split list.split)

lemma same_maps_refl [simp]: "same_maps d d"
  by (simp add: same_maps_def)

lemma same_maps_sym: "same_maps c d \<Longrightarrow> same_maps d c"
  by (simp add: same_maps_def)

lemma same_maps_data_get: "same_maps c d \<Longrightarrow> data_get c k = data_get d k"
  by (simp add: same_maps_def data_get_entry)


section \<open>A library that keeps its promises\<close>

text \<open>A plain format, to run the stores on: a line that marks it, then three lines for each entry, its
  kind, its key and its value, with two letters for each character.\<close>

definition letters :: "string \<Rightarrow> string" where
  "letters s = concat (map (\<lambda>c. [chr (65 + code c div 16), chr (65 + code c mod 16)]) s)"

fun unletters :: "string \<Rightarrow> string" where
  "unletters (a # b # s) = chr ((code a - 65) * 16 + (code b - 65)) # unletters s"
| "unletters s = ''''"

fun entry_lines :: "string \<Rightarrow> (string \<times> string) list \<Rightarrow> string list" where
  "entry_lines t [] = []"
| "entry_lines t ((k, v) # m) = t # letters k # letters v # entry_lines t m"

fun read_lines :: "string \<Rightarrow> string list \<Rightarrow> (string \<times> string) list" where
  "read_lines t (x # k # v # ls) = (if x = t then [(unletters k, unletters v)] else []) @ read_lines t ls"
| "read_lines t ls = []"

definition plain_text :: "(string \<times> string) list option \<Rightarrow> (string \<times> string) list option \<Rightarrow> string" where
  "plain_text nts data =
     join [NL] (''v1'' # entry_lines ''a'' (case nts of None \<Rightarrow> [] | Some m \<Rightarrow> m) @
                       entry_lines ''d'' (case data of None \<Rightarrow> [] | Some m \<Rightarrow> m))"

definition plain_read :: "string \<Rightarrow> ((string \<times> string) list \<times> (string \<times> string) list) option" where
  "plain_read raw =
     (case split_on NL raw of
        h # ls \<Rightarrow> (if h = ''v1'' then Some (read_lines ''a'' ls, read_lines ''d'' ls) else None)
      | [] \<Rightarrow> None)"

definition scalar :: "string \<Rightarrow> Node" where
  "scalar s = Node ScalarNode ''!!str'' 0 s []"

definition mapping :: "(string \<times> Node) list \<Rightarrow> Node" where
  "mapping m = Node MappingNode ''!!map'' 0 '''' (concat (map (\<lambda>(k, n). [scalar k, n]) m))"

definition plain_node :: "(string \<times> string) list \<Rightarrow> (string \<times> string) list \<Rightarrow> Node" where
  "plain_node nts data =
     mapping [(''metadata'', mapping [(''annotations'', mapping (rev (map (\<lambda>(k, v). (k, scalar v)) nts)))]),
              (''data'', mapping (rev (map (\<lambda>(k, v). (k, scalar v)) data)))]"

definition plain_yaml :: Yaml where
  "plain_yaml =
     \<lparr>y_parse = (\<lambda>raw. Inr (case plain_read raw of None \<Rightarrow> [] | Some (nts, data) \<Rightarrow> [plain_node nts data])),
      y_print = (\<lambda>ns. case ns of [] \<Rightarrow> Inl (Errorf ''empty'')
                  | root # _ \<Rightarrow> Inr (plain_text (doc_annotations root) (doc_data root))),
      y_encode = (\<lambda>nts data. Inr (plain_text nts data)),
      y_decode = (\<lambda>raw. case plain_read raw of None \<Rightarrow> Inl (Errorf ''not a mapping'')
                  | Some (nts, data) \<Rightarrow> Inr (Some nts, Some data))\<rparr>"

lemma letters_inverse [simp]: "unletters (letters s) = s"
proof (induction s)
  case (Cons c s)
  have "code (chr (65 + code c div 16)) = 65 + code c div 16" "code (chr (65 + code c mod 16)) = 65 + code c mod 16"
    using code_less [of c] by (auto intro!: code_chr)
  moreover have "chr (code c div 16 * 16 + code c mod 16) = c" by (simp add: chr_def code_def)
  ultimately show ?case using Cons by (simp add: letters_def)
qed (simp add: letters_def)

lemma letters_one_line: "NL \<notin> set (letters s)"
proof -
  have no: "NL \<noteq> chr (65 + n)" if "n < 16" for n
  proof
    assume "NL = chr (65 + n)"
    then have "code NL = code (chr (65 + n))" by (rule arg_cong)
    moreover have "code (chr (65 + n)) = 65 + n" by (rule code_chr) (use that in simp)
    moreover have "code NL = 10" by code_simp
    ultimately show False by simp
  qed
  have "code c div 16 < 16" for c using code_less [of c] by simp
  then show ?thesis using no by (auto simp: letters_def)
qed

lemma entry_lines_one_line: "NL \<notin> set t \<Longrightarrow> x \<in> set (entry_lines t m) \<Longrightarrow> NL \<notin> set x"
  by (induction t m rule: entry_lines.induct) (auto simp: letters_one_line)

lemma read_entry_lines:
  "read_lines t (entry_lines u m @ ls) = (if t = u then m else []) @ read_lines t ls"
  by (induction u m rule: entry_lines.induct) auto

lemma plain_read_text:
  "plain_read (plain_text nts data) = Some (case nts of None \<Rightarrow> [] | Some m \<Rightarrow> m, case data of None \<Rightarrow> [] | Some m \<Rightarrow> m)"
proof -
  let ?ls = "entry_lines ''a'' (case nts of None \<Rightarrow> [] | Some m \<Rightarrow> m) @ entry_lines ''d'' (case data of None \<Rightarrow> [] | Some m \<Rightarrow> m)"
  have "split_on NL (plain_text nts data) = ''v1'' # ?ls"
    unfolding plain_text_def
    by (rule split_on_join) (auto dest!: entry_lines_one_line [rotated] simp: NL_def)
  moreover have "read_lines t ?ls = (if t = ''a'' then case nts of None \<Rightarrow> [] | Some m \<Rightarrow> m else []) @
      (if t = ''d'' then case data of None \<Rightarrow> [] | Some m \<Rightarrow> m else [])" for t
    using read_entry_lines [of t "''d''" _ "[]"] by (simp add: read_entry_lines)
  ultimately show ?thesis by (simp add: plain_read_def)
qed

lemma mapping_pairs: "pairs (concat (map (\<lambda>(k, n). [scalar k, n]) m)) = map (\<lambda>(k, n). (scalar k, n)) m"
  by (induction m) auto

lemma mapValue_mapping: "mapValue (mapping m) key = map_of m key"
  by (induction m) (auto simp: mapValue_def mapping_def mapping_pairs scalar_def)

lemma fold_update_rev: "map_of (fold (\<lambda>(k, v) acc. AList.update k v acc) (rev m) []) = map_of m"
  by (induction m) (auto simp: update_conv)

lemma mapping_entries_plain:
  "entry_of (mapping_entries (Some (mapping (rev (map (\<lambda>(k, v). (k, scalar v)) m))))) = map_of m"
proof -
  have "fold (\<lambda>(k, v) acc. AList.update (n_value k) (n_value v) acc) (map (\<lambda>(k, n). (scalar k, n)) (rev (map (\<lambda>(k, v). (k, scalar v)) xs))) acc
      = fold (\<lambda>(k, v) acc. AList.update k v acc) (rev xs) acc" for xs and acc :: "(string \<times> string) list"
    by (induction xs arbitrary: acc) (auto simp: scalar_def)
  then show ?thesis
    using fold_update_rev [of m]
    by (simp add: mapping_entries_def node_entries_def mapping_def mapping_pairs [unfolded mapping_def] entry_of_def fun_eq_iff)
qed


lemma plain_node_data: "entry_of (doc_data (plain_node nts data)) = map_of data"
  by (simp add: plain_node_def doc_data_def mapValue_mapping mapping_entries_plain)

lemma plain_node_annotations: "entry_of (doc_annotations (plain_node nts data)) = map_of nts"
  by (simp add: plain_node_def doc_annotations_def mapValue_mapping mapping_entries_plain)

lemma entry_of_default: "entry_of m = map_of (case m of None \<Rightarrow> [] | Some m \<Rightarrow> m)"
  by (auto simp: entry_of_def fun_eq_iff split: option.split)

lemma entry_of_Some [simp]: "entry_of (Some m) = map_of m"
  by (simp add: entry_of_def fun_eq_iff)

lemma plain_document:
  "plain_read raw = Some (nts, data) \<Longrightarrow>
   entry_of (Data (document_of plain_yaml raw)) = map_of data \<and>
   entry_of (Annotations (document_of plain_yaml raw)) = map_of nts"
  by (simp add: document_of_def plain_yaml_def plain_node_data plain_node_annotations)

lemma plain_encode_ok: "encode_ok plain_yaml"
proof -
  have "y_encode plain_yaml nts data = Inr (plain_text nts data)" for nts data by (simp add: plain_yaml_def)
  then show ?thesis unfolding encode_ok_def
    using plain_document [OF plain_read_text] by (auto simp: entry_of_default)
qed

lemma plain_decode_ok: "decode_ok plain_yaml"
  unfolding decode_ok_def
proof (intro allI impI)
  fix raw nts data assume "y_decode plain_yaml raw = Inr (nts, data)"
  then obtain ns ds where "plain_read raw = Some (ns, ds)" "nts = Some ns" "data = Some ds"
    by (auto simp: plain_yaml_def split: option.splits)
  then show "entry_of (Data (document_of plain_yaml raw)) = entry_of data \<and>
      entry_of (Annotations (document_of plain_yaml raw)) = entry_of nts"
    using plain_document by (simp add: entry_of_def)
qed

lemma plain_print_ok: "print_ok plain_yaml"
proof -
  have "y_print plain_yaml (root # ns) = Inr (plain_text (doc_annotations root) (doc_data root))" for root ns
    by (simp add: plain_yaml_def)
  then show ?thesis unfolding print_ok_def
    using plain_document [OF plain_read_text] by (auto simp: entry_of_default)
qed

end
