(* ===== verification/LocalStore.thy ===== *)
theory LocalStore
  imports Paths Yaml Ops
begin

text \<open>
  \<open>internal/infra/state/local/state.go\<close>: the store of desired state on local files, with a table of
  revisions that allows to roll a document back.

  A disk is its files by full path, the directories that were made, and the table of revisions. What the
  operating system and the database answer is a parameter (\<open>Os\<close>): a failing read, write or removal, with
  what a failed write or removal leaves behind. A nil slice of bytes is \<open>None\<close> in a revision only, where a
  deletion writes it. The time of a revision and the locks are left out.
\<close>

section \<open>Files\<close>

record Revision =
  rev_ID :: int
  rev_Path :: string
  rev_Message :: string
  rev_Content :: "string option"

record Disk =
  dk_files :: "(string \<times> string) list"
  dk_dirs :: "string list"
  dk_hist :: "Revision list"
  dk_next :: int

record Os =
  os_read :: "string \<Rightarrow> goerr option"
  os_mkdir :: "string \<Rightarrow> goerr option"
  os_write :: "string \<Rightarrow> (goerr \<times> string option) option"
    \<comment> \<open>the error, and what the file holds after it, if anything was written\<close>
  os_readdir :: "string \<Rightarrow> goerr option"
  os_remove :: "string \<Rightarrow> goerr option"
  os_removeAll :: "string \<Rightarrow> (goerr \<times> (string \<Rightarrow> bool)) option"
    \<comment> \<open>the error, and which files are gone already\<close>
  os_db :: "string \<Rightarrow> goerr option"

record Adapter =
  ad_root :: string
  ad_fallbacks :: "string list"
  ad_db :: bool

definition read_file :: "Os \<Rightarrow> Disk \<Rightarrow> string \<Rightarrow> goerr + string" where
  \<comment> \<open>\<open>os.ReadFile\<close>\<close>
  "read_file os d p =
     (case os_read os p of
        Some e \<Rightarrow> Inl e
      | None \<Rightarrow> (case map_of (dk_files d) p of None \<Rightarrow> Inl (Sentinel ErrNotExist) | Some c \<Rightarrow> Inr c))"

definition set_file :: "string \<Rightarrow> string \<Rightarrow> Disk \<Rightarrow> Disk" where
  "set_file p c d = d\<lparr>dk_files := AList.update p c (dk_files d)\<rparr>"

definition write_file :: "Os \<Rightarrow> string \<Rightarrow> string \<Rightarrow> (Disk, unit) op" where
  \<comment> \<open>\<open>os.WriteFile\<close>\<close>
  "write_file os p c =
     (case os_write os p of
        None \<Rightarrow> modify (set_file p c)
      | Some (e, torn) \<Rightarrow> seqo (optO torn (\<lambda>t. modify (set_file p t))) (fail e))"

definition mkdir_all :: "Os \<Rightarrow> string \<Rightarrow> (Disk, unit) op" where
  "mkdir_all os p = seqo (checkO (os_mkdir os p)) (modify (\<lambda>d. d\<lparr>dk_dirs := p # dk_dirs d\<rparr>))"

definition dir_prefix :: "string \<Rightarrow> string" where
  "dir_prefix p = (if p = ''/'' then p else p @ ''/'')"

definition inside :: "string \<Rightarrow> string \<Rightarrow> bool" where
  "inside p q \<longleftrightarrow> q = p \<or> has_prefix q (dir_prefix p)"

definition on_disk :: "Disk \<Rightarrow> string \<Rightarrow> bool" where
  \<comment> \<open>\<open>os.Stat\<close> finds it, as a file or as a directory\<close>
  "on_disk d p \<longleftrightarrow> list_ex (inside p) (map fst (dk_files d) @ dk_dirs d)"

definition drop_files :: "(string \<Rightarrow> bool) \<Rightarrow> Disk \<Rightarrow> Disk" where
  "drop_files P d = d\<lparr>dk_files := filter (\<lambda>(q, _). \<not> P q) (dk_files d)\<rparr>"

definition remove_all :: "Os \<Rightarrow> string \<Rightarrow> (Disk, unit) op" where
  \<comment> \<open>\<open>os.RemoveAll\<close>\<close>
  "remove_all os p =
     (case os_removeAll os p of
        None \<Rightarrow> modify (\<lambda>d. drop_files (inside p) d\<lparr>dk_dirs := filter (\<lambda>q. \<not> inside p q) (dk_dirs d)\<rparr>)
      | Some (e, gone) \<Rightarrow> seqo (modify (drop_files (\<lambda>q. inside p q \<and> gone q))) (fail e))"

definition rm_file :: "Os \<Rightarrow> string \<Rightarrow> (Disk, unit) op" where
  \<comment> \<open>\<open>os.Remove\<close>\<close>
  "rm_file os p = seqo (checkO (os_remove os p)) (modify (drop_files (\<lambda>q. q = p)))"

definition children :: "Disk \<Rightarrow> string \<Rightarrow> string list" where
  \<comment> \<open>the names of the plain files \<open>os.ReadDir\<close> lists\<close>
  "children d p =
     sort (filter (\<lambda>n. n \<noteq> '''' \<and> SLASH \<notin> set n)
       (List.map_filter (\<lambda>(q, _). if has_prefix q (dir_prefix p) then Some (trim_prefix q (dir_prefix p)) else None)
         (dk_files d)))"

section \<open>The store\<close>

definition resolve_path :: "string \<Rightarrow> string \<Rightarrow> goerr + string" where
  "resolve_path root rel =
     (let cleaned = path_clean rel
      in if has_prefix cleaned ''..'' \<or> has_prefix cleaned ''/''
         then Inl (Errorf (''invalid relative path: '' @ rel))
         else let full = path_join root cleaned
              in if \<not> has_prefix full root then Inl (Errorf (''path escapes root directory: '' @ rel))
                 else Inr full)"

definition fallback_files :: "Adapter \<Rightarrow> string \<Rightarrow> string list" where
  \<comment> \<open>where a file that is absent is looked for, in order\<close>
  "fallback_files a path =
     (let cleaned = path_clean path
      in concat (map (\<lambda>fb. path_join fb cleaned #
             (if has_prefix cleaned ''compose/'' then [path_join fb (trim_prefix cleaned ''compose/'')] else []))
           (ad_fallbacks a)))"

definition read_or_fallback :: "Adapter \<Rightarrow> Os \<Rightarrow> Disk \<Rightarrow> string \<Rightarrow> string \<Rightarrow> goerr + string" where
  "read_or_fallback a os d path full =
     (case read_file os d full of
        Inr raw \<Rightarrow> Inr raw
      | Inl e \<Rightarrow>
          (if errors_is e ErrNotExist then
             (case List.map_filter (\<lambda>c. case read_file os d c of Inr b \<Rightarrow> Some b | Inl _ \<Rightarrow> None) (fallback_files a path) of
                b # _ \<Rightarrow> Inr b
              | [] \<Rightarrow> Inl e)
           else Inl e))"

definition Local_Get :: "Adapter \<Rightarrow> Yaml \<Rightarrow> Os \<Rightarrow> Disk \<Rightarrow> string \<Rightarrow> goerr + Document" where
  "Local_Get a y os d path =
     (case resolve_path (ad_root a) path of
        Inl e \<Rightarrow> Inl e
      | Inr full \<Rightarrow>
          (case read_or_fallback a os d path full of
             Inl e \<Rightarrow> Inl e
           | Inr raw \<Rightarrow> Inr (document_of y raw)))"

definition serializeDocument :: "Yaml \<Rightarrow> Document \<Rightarrow> goerr + string" where
  "serializeDocument y doc =
     (if Data doc \<noteq> None \<or> Annotations doc \<noteq> None then y_encode y (Annotations doc) (Data doc) else Inr (Raw doc))"

definition recordRevision :: "Os \<Rightarrow> string \<Rightarrow> string \<Rightarrow> string option \<Rightarrow> (Disk, unit) op" where
  "recordRevision os path msg content =
     seqo (checkO (os_db os ''insert revision''))
       (modify (\<lambda>d. d\<lparr>dk_hist := dk_hist d @ [\<lparr>rev_ID = dk_next d, rev_Path = path, rev_Message = msg, rev_Content = content\<rparr>],
                      dk_next := dk_next d + 1\<rparr>))"

definition record_if :: "Adapter \<Rightarrow> Os \<Rightarrow> string \<Rightarrow> string \<Rightarrow> string option \<Rightarrow> (Disk, unit) op" where
  "record_if a os path msg content = whenO (ad_db a) (ignore (recordRevision os path msg content))"

definition Local_Put :: "Adapter \<Rightarrow> Yaml \<Rightarrow> Os \<Rightarrow> string \<Rightarrow> Document \<Rightarrow> string \<Rightarrow> (Disk, unit) op" where
  "Local_Put a y os path doc msg =
     bindo (of_sum (resolve_path (ad_root a) path)) (\<lambda>full.
     bindo (of_sum (serializeDocument y doc)) (\<lambda>content.
     bindo (gets (\<lambda>d. read_file os d full)) (\<lambda>existing.
       if existing = Inr content then ret ()
       else seqo (mkdir_all os (path_dir full))
           (seqo (write_file os full content)
            (record_if a os path msg (Some content))))))"

definition Local_Patch :: "Adapter \<Rightarrow> Yaml \<Rightarrow> Os \<Rightarrow> string \<Rightarrow> string \<Rightarrow> Mutate \<Rightarrow> (Disk, bool) op" where
  "Local_Patch a y os path msg mutate =
     bindo (gets (\<lambda>d. Local_Get a y os d path)) (\<lambda>r.
     bindo (case r of
              Inr doc \<Rightarrow> ret doc
            | Inl e \<Rightarrow> (if \<not> errors_is e ErrNotExist then fail e
                        else ret \<lparr>Data = Some [], Annotations = Some [], Raw = ''''\<rparr>)) (\<lambda>existingDoc.
       case mutate existingDoc of
         (Inl e, _) \<Rightarrow> fail e
       | (Inr changed, doc) \<Rightarrow>
           (if \<not> changed then ret False else seqo (Local_Put a y os path doc msg) (ret True))))"

definition Local_Delete :: "Adapter \<Rightarrow> Os \<Rightarrow> string \<Rightarrow> string \<Rightarrow> (Disk, unit) op" where
  "Local_Delete a os path msg =
     bindo (of_sum (resolve_path (ad_root a) path)) (\<lambda>full.
     bindo (gets (\<lambda>d. on_disk d full)) (\<lambda>found.
       if \<not> found then ret ()
       else seqo (remove_all os full) (record_if a os path msg None)))"

definition put_in_tree ::
    "Adapter \<Rightarrow> Yaml \<Rightarrow> Os \<Rightarrow> string \<Rightarrow> string \<Rightarrow> string \<Rightarrow> string \<times> Document \<Rightarrow> (Disk, unit) op" where
  "put_in_tree a y os dirPath fullDir msg nd =
     (case nd of (fname, doc) \<Rightarrow>
        bindo (of_sum (serializeDocument y doc)) (\<lambda>content.
          let target = path_join fullDir fname
          in bindo (gets (\<lambda>d. read_file os d target)) (\<lambda>existing.
               if existing = Inr content then ret ()
               else seqo (write_file os target content)
                      (record_if a os (path_join dirPath fname) msg (Some content)))))"

definition drop_from_tree :: "Adapter \<Rightarrow> Os \<Rightarrow> string \<Rightarrow> string \<Rightarrow> string \<Rightarrow> string \<Rightarrow> (Disk, unit) op" where
  "drop_from_tree a os dirPath fullDir msg name =
     seqo (ignore (rm_file os (path_join fullDir name)))
       (record_if a os (path_join dirPath name) (msg @ '' (deleted)'') None)"

definition Local_PutTree ::
    "Adapter \<Rightarrow> Yaml \<Rightarrow> Os \<Rightarrow> string \<Rightarrow> (string \<times> Document) list \<Rightarrow> string \<Rightarrow> (Disk, unit) op" where
  \<comment> \<open>the documents in the order the map is ranged over\<close>
  "Local_PutTree a y os dirPath tree msg =
     bindo (of_sum (resolve_path (ad_root a) dirPath)) (\<lambda>fullDir.
     seqo (mkdir_all os fullDir)
     (seqo (forO (put_in_tree a y os dirPath fullDir msg) tree)
     (if os_readdir os fullDir \<noteq> None then ret ()
      else bindo (gets (\<lambda>d. children d fullDir)) (\<lambda>names.
             forO (drop_from_tree a os dirPath fullDir msg) (filter (\<lambda>n. n \<notin> fst ` set tree) names)))))"

section \<open>Revisions\<close>

definition Local_History :: "Adapter \<Rightarrow> Os \<Rightarrow> Disk \<Rightarrow> string \<Rightarrow> goerr + Revision list" where
  "Local_History a os d path =
     (if \<not> ad_db a then Inr []
      else case os_db os ''history'' of
             Some e \<Rightarrow> Inl e
           | None \<Rightarrow> Inr (sort_key rev_ID (filter (\<lambda>r. rev_Path r = path) (dk_hist d))))"

definition rolled_back :: "Yaml \<Rightarrow> string \<Rightarrow> Document" where
  \<comment> \<open>the document a rollback puts for the content of a revision\<close>
  "rolled_back y content =
     (case y_decode y content of
        Inl _ \<Rightarrow> \<lparr>Data = None, Annotations = None, Raw = content\<rparr>
      | Inr (nts, data) \<Rightarrow>
          (if (case data of None \<Rightarrow> False | Some m \<Rightarrow> m \<noteq> []) \<or> (case nts of None \<Rightarrow> False | Some m \<Rightarrow> m \<noteq> [])
           then \<lparr>Data = data, Annotations = nts, Raw = content\<rparr>
           else \<lparr>Data = None, Annotations = None, Raw = content\<rparr>))"

definition Local_Rollback :: "Adapter \<Rightarrow> Yaml \<Rightarrow> Os \<Rightarrow> string \<Rightarrow> int \<Rightarrow> string \<Rightarrow> (Disk, unit) op" where
  "Local_Rollback a y os path revID msg =
     (if \<not> ad_db a then fail (Errorf ''rollback requires database-backed state history'')
      else bindo (wrapped (''find revision '' @ show_int revID @ '': '')
             (seqo (checkO (os_db os ''revision''))
             (bindo (gets (\<lambda>d. find (\<lambda>r. rev_ID r = revID \<and> rev_Path r = path) (dk_hist d))) (\<lambda>row.
                case row of None \<Rightarrow> fail (Errorf ''sql: no rows in result set'') | Some r \<Rightarrow> ret (rev_Content r)))))
             (\<lambda>content. case content of
                None \<Rightarrow> Local_Delete a os path msg
              | Some c \<Rightarrow> Local_Put a y os path (rolled_back y c) msg))"

end
