(* ===== verification/LocalStoreProofs.thy ===== *)
theory LocalStoreProofs
  imports LocalStore Frames
begin

text \<open>
  The local store keeps every document inside its root, implements the contract of the in-memory store
  on the texts its clients edit, and rolls a document back to any revision it recorded.
\<close>

section \<open>Paths stay inside the root\<close>

definition root_path :: "string list \<Rightarrow> string" where
  \<comment> \<open>the absolute clean path with these elements\<close>
  "root_path segs = ''/'' @ join ''/'' segs"

lemma split_join_plain: "list_all plain_seg ps \<Longrightarrow> ps \<noteq> [] \<Longrightarrow> split_on SLASH (join ''/'' ps) = ps"
  by (rule split_on_join) (auto simp: list_all_iff plain_seg_def)

lemma join_plain_Nil: "list_all plain_seg ps \<Longrightarrow> join ''/'' ps = '''' \<longleftrightarrow> ps = []"
  by (cases ps; cases "tl ps") (auto simp: plain_seg_def)

lemma up_segs_prefix:
  assumes "up_segs segs" and "\<not> has_prefix (join ''/'' segs) ''..''"
  shows "list_all plain_seg segs"
proof -
  obtain n ps where segs: "segs = replicate n ''..'' @ ps" "list_all plain_seg ps"
    using assms(1) unfolding up_segs_def by blast
  have "has_prefix (join ''/'' (''..'' # qs)) ''..''" for qs
    by (cases qs) (simp_all add: has_prefix_def)
  then have "n = 0" using assms(2) segs(1) by (cases n) auto
  then show ?thesis using segs by simp
qed

lemma clean_relative:
  assumes "\<not> has_prefix (path_clean rel) ''..''" and "\<not> has_prefix (path_clean rel) ''/''"
  shows "\<exists>qs. list_all plain_seg qs \<and> path_clean rel = (if qs = [] then ''.'' else join ''/'' qs)"
proof -
  have "has_prefix (path_clean rel) ''/''" if "has_prefix rel ''/''"
    using that by (simp add: path_clean_def Let_def has_prefix_def)
  then have "\<not> has_prefix rel ''/''" using assms(2) by blast
  then have c: "path_clean rel = (if join ''/'' (clean_segs False (split_on SLASH rel)) = '''' then ''.''
      else join ''/'' (clean_segs False (split_on SLASH rel)))"
    unfolding path_clean_def Let_def by simp
  define segs where "segs = clean_segs False (split_on SLASH rel)"
  have "up_segs segs" unfolding segs_def by (rule clean_segs_up) (use split_on_parts in blast)
  moreover have "\<not> has_prefix (join ''/'' segs) ''..''"
  proof (cases "join ''/'' segs = ''''")
    case True
    then show ?thesis by (simp add: has_prefix_def)
  next
    case False
    then show ?thesis using assms(1) c unfolding segs_def by simp
  qed
  ultimately have plain: "list_all plain_seg segs" by (rule up_segs_prefix)
  then show ?thesis using c join_plain_Nil [OF plain] unfolding segs_def [symmetric] by auto
qed

lemma join_root:
  assumes "list_all plain_seg ps" and "list_all plain_seg qs"
  shows "path_join (root_path ps) (if qs = [] then ''.'' else join ''/'' qs) = root_path (ps @ qs)"
proof -
  let ?rel = "if qs = [] then ''.'' else join ''/'' qs"
  have rel: "split_on SLASH ?rel = (if qs = [] then [''.''] else qs)"
    using split_join_plain [OF assms(2)] by simp
  have seg: "split_on SLASH (s @ SLASH # t) = split_on SLASH s @ split_on SLASH t" for s t
  proof (induction s)
    case (Cons c s)
    then show ?case by (cases "split_on SLASH s") (auto dest: arg_cong [of _ _ "\<lambda>x. x = []"])
  qed simp
  have "split_on SLASH (root_path ps @ ''/'' @ ?rel) =
      '''' # (if ps = [] then [''''] else ps) @ (if qs = [] then [''.''] else qs)"
    using seg [of "[]"] seg [of "join ''/'' ps" ?rel] rel split_join_plain [OF assms(1)]
    by (simp add: root_path_def)
  then have "clean_segs True (split_on SLASH (root_path ps @ ''/'' @ ?rel)) = ps @ qs"
    unfolding clean_segs_def using clean_segs_plain [OF assms(1)] clean_segs_plain [OF assms(2)]
    by (auto simp: clean_seg_def)
  then show ?thesis by (simp add: path_join_def path_clean_def root_path_def has_prefix_def)
qed


definition abs_root :: "string \<Rightarrow> string list \<Rightarrow> bool" where
  "abs_root root ps \<longleftrightarrow> list_all plain_seg ps \<and> root = root_path ps"

lemma resolve_run:
  assumes "resolve_path root rel = Inr full" and "abs_root root ps"
  obtains qs where "list_all plain_seg qs" "path_clean rel = (if qs = [] then ''.'' else join ''/'' qs)"
    "full = root_path (ps @ qs)"
proof -
  have rel: "\<not> has_prefix (path_clean rel) ''..''" "\<not> has_prefix (path_clean rel) ''/''"
    "full = path_join root (path_clean rel)"
    using assms(1) by (auto simp: resolve_path_def Let_def split: if_splits)
  from clean_relative [OF rel(1,2)] obtain qs
    where "list_all plain_seg qs" "path_clean rel = (if qs = [] then ''.'' else join ''/'' qs)" by blast
  then show thesis using that rel(3) join_root assms(2) unfolding abs_root_def by simp
qed



lemma root_path_inj:
  assumes "root_path ps = root_path qs" and "list_all plain_seg ps" and "list_all plain_seg qs"
  shows "ps = qs"
proof -
  have j: "join ''/'' ps = join ''/'' qs" using assms(1) by (simp add: root_path_def)
  show ?thesis
  proof (cases "ps = [] \<or> qs = []")
    case True
    then show ?thesis using j join_plain_Nil [OF assms(2)] join_plain_Nil [OF assms(3)] by auto
  next
    case False
    then show ?thesis using j split_join_plain [OF assms(2)] split_join_plain [OF assms(3)] by metis
  qed
qed

lemma resolve_inj:
  assumes "resolve_path root p = Inr full" and "resolve_path root q = Inr full" and "abs_root root ps"
  shows "path_clean p = path_clean q"
proof -
  from assms(1,3) obtain xs where xs: "list_all plain_seg xs" "path_clean p = (if xs = [] then ''.'' else join ''/'' xs)"
    "full = root_path (ps @ xs)" by (rule resolve_run)
  from assms(2,3) obtain ys where ys: "list_all plain_seg ys" "path_clean q = (if ys = [] then ''.'' else join ''/'' ys)"
    "full = root_path (ps @ ys)" by (rule resolve_run)
  have "ps @ xs = ps @ ys" by (rule root_path_inj) (use xs ys assms(3) in \<open>auto simp: abs_root_def\<close>)
  then show ?thesis using xs ys by simp
qed

section \<open>Reading what was written\<close>

definition honest :: "Os \<Rightarrow> bool" where
  \<comment> \<open>a read that fails for another reason does not look like an absent file\<close>
  "honest os \<longleftrightarrow> (\<forall>p e. os_read os p = Some e \<longrightarrow> \<not> errors_is e ErrNotExist)"

definition same_but :: "string \<Rightarrow> Disk \<Rightarrow> Disk \<Rightarrow> bool" where
  \<comment> \<open>the same files, but for one\<close>
  "same_but full d d' \<longleftrightarrow> (\<forall>q. q \<noteq> full \<longrightarrow> map_of (dk_files d') q = map_of (dk_files d) q)"

interpretation fr_file: op_frame "same_but full"
  by unfold_locales (auto simp: same_but_def)

lemma write_file_same: "keeps (same_but p) (write_file os p c)"
proof -
  have "keeps (same_but p) (modify (set_file p c))" for c
    by (rule fr_file.r_modify) (simp add: same_but_def set_file_def map_of_update)
  then show ?thesis unfolding write_file_def by (auto split: option.split)
qed

lemma same_files_same: "(\<And>d. dk_files (f d) = dk_files d) \<Longrightarrow> keeps (same_but p) (modify f)"
  by (rule fr_file.r_modify) (simp add: same_but_def)

lemma record_same: "keeps (same_but p) (record_if a os path msg content)"
  unfolding record_if_def recordRevision_def by (auto intro!: same_files_same)

lemma mkdir_same: "keeps (same_but p) (mkdir_all os q)"
  unfolding mkdir_all_def by (auto intro!: same_files_same)

lemma bindo_of_sum: "bindo (of_sum (Inr x)) f = f x"
  by (simp add: fun_eq_iff bindo_def of_sum_def ret_def)

lemma Put_same:
  assumes "resolve_path (ad_root a) path = Inr full"
  shows "keeps (same_but full) (Local_Put a y os path doc msg)"
  unfolding Local_Put_def assms bindo_of_sum
  by (auto intro!: write_file_same record_same mkdir_same)

lemma record_run:
  "record_if a os path msg content d =
     (Ok (), if ad_db a \<and> os_db os ''insert revision'' = None
        then d\<lparr>dk_hist := dk_hist d @ [\<lparr>rev_ID = dk_next d, rev_Path = path, rev_Message = msg, rev_Content = content\<rparr>],
               dk_next := dk_next d + 1\<rparr>
        else d)"
  by (simp add: record_if_def recordRevision_def op_defs split: option.split)

lemma Put_run:
  assumes "Local_Put a y os path doc msg d = (Ok (), d')"
  obtains full content where "resolve_path (ad_root a) path = Inr full" "serializeDocument y doc = Inr content"
      "read_file os d full = Inr content" "d' = d"
    | full content d1 where "resolve_path (ad_root a) path = Inr full" "serializeDocument y doc = Inr content"
      "read_file os d full \<noteq> Inr content" "d1 = set_file full content (d\<lparr>dk_dirs := path_dir full # dk_dirs d\<rparr>)"
      "record_if a os path msg (Some content) d1 = (Ok (), d')"
proof -
  obtain full where full: "resolve_path (ad_root a) path = Inr full"
    using assms by (cases "resolve_path (ad_root a) path") (simp_all add: Local_Put_def op_defs)
  obtain content where content: "serializeDocument y doc = Inr content"
    using assms full by (cases "serializeDocument y doc") (simp_all add: Local_Put_def op_defs)
  have run: "Local_Put a y os path doc msg d = (if read_file os d full = Inr content then (Ok (), d)
      else seqo (mkdir_all os (path_dir full)) (seqo (write_file os full content) (record_if a os path msg (Some content))) d)"
    by (simp add: Local_Put_def full content bindo_of_sum bindo_def gets_def ret_def)
  show thesis
  proof (cases "read_file os d full = Inr content")
    case True
    then show ?thesis using that(1) full content run assms by simp
  next
    case False
    then have "os_mkdir os (path_dir full) = None" "os_write os full = None"
      using assms unfolding run by (auto simp: mkdir_all_def write_file_def op_defs split: option.splits)
    then show ?thesis using that(2) [OF full content False refl] False assms unfolding run
      by (simp add: mkdir_all_def write_file_def seqo_def bindo_def checkO_def ret_def modify_def)
  qed
qed

lemma set_file_files [simp]:
  "map_of (dk_files (set_file p c d)) q = (if q = p then Some c else map_of (dk_files d) q)"
  "dk_hist (set_file p c d) = dk_hist d" "dk_next (set_file p c d) = dk_next d"
  by (simp_all add: set_file_def map_of_update)

lemma Put_stored:
  assumes "Local_Put a y os path doc msg d = (Ok (), d')"
  obtains full content where "resolve_path (ad_root a) path = Inr full" "serializeDocument y doc = Inr content"
    "map_of (dk_files d') full = Some content" "same_but full d d'"
  using assms
proof (cases rule: Put_run)
  case (1 full content)
  then show ?thesis using that [of full content] by (auto simp: same_but_def read_file_def split: option.splits)
next
  case (2 full content d1)
  then have "map_of (dk_files d') full = Some content" by (auto simp: record_run)
  moreover have "same_but full d d'" using Put_same [OF 2(1)] assms by (rule keepsD)
  ultimately show ?thesis using that 2 by blast
qed


lemma Get_stored:
  "resolve_path (ad_root a) path = Inr full \<Longrightarrow> map_of (dk_files d) full = Some c \<Longrightarrow> os_read os full = None \<Longrightarrow>
   Local_Get a y os d path = Inr (document_of y c)"
  by (simp add: Local_Get_def read_or_fallback_def read_file_def)

definition apart :: "Adapter \<Rightarrow> bool" where
  \<comment> \<open>no fallback is itself a file of the store\<close>
  "apart a \<longleftrightarrow> (\<forall>p q full c. resolve_path (ad_root a) p = Inr full \<longrightarrow> c \<in> set (fallback_files a q) \<longrightarrow> c \<noteq> full)"

lemma Get_same:
  assumes "same_but full d d'" and "resolve_path (ad_root a) p = Inr full" and "resolve_path (ad_root a) q \<noteq> Inr full"
    and "apart a"
  shows "Local_Get a y os d' q = Local_Get a y os d q"
proof -
  have read: "read_file os d' c = read_file os d c" if "c \<noteq> full" for c
    using assms(1) that by (simp add: same_but_def read_file_def split: option.split)
  have fb: "List.map_filter (\<lambda>c. case read_file os d' c of Inr b \<Rightarrow> Some b | Inl _ \<Rightarrow> None) (fallback_files a q) =
      List.map_filter (\<lambda>c. case read_file os d c of Inr b \<Rightarrow> Some b | Inl _ \<Rightarrow> None) (fallback_files a q)"
    unfolding List.map_filter_def using assms(2,4) unfolding apart_def
    by (intro arg_cong2 [of _ _ _ _ map] filter_cong refl map_cong) (auto simp: read fun_eq_iff)
  have "read_or_fallback a os d' q x = read_or_fallback a os d q x" if "x \<noteq> full" for x
    unfolding read_or_fallback_def read [OF that] fb by (rule refl)
  then show ?thesis using assms(3) by (auto simp: Local_Get_def split: sum.split)
qed

section \<open>The contract of the store\<close>

definition tidy :: "string \<Rightarrow> bool" where
  \<comment> \<open>a path as the callers write it, without \<open>.\<close>, \<open>..\<close> or empty elements\<close>
  "tidy p \<longleftrightarrow> path_clean p = p"

definition text_at :: "Adapter \<Rightarrow> Yaml \<Rightarrow> Os \<Rightarrow> Disk \<Rightarrow> string \<Rightarrow> string \<Rightarrow> string" where
  "text_at a y os d p k = (case Local_Get a y os d p of Inl _ \<Rightarrow> '''' | Inr doc \<Rightarrow> data_get doc k)"

definition sims :: "Adapter \<Rightarrow> Yaml \<Rightarrow> Os \<Rightarrow> Disk \<Rightarrow> Store \<Rightarrow> bool" where
  \<comment> \<open>the disk and the in-memory store hold the same texts\<close>
  "sims a y os d m \<longleftrightarrow> (\<forall>p k. tidy p \<longrightarrow> text_at a y os d p k = mem.text_of m p k)"

definition edits :: "Mutate \<Rightarrow> string \<Rightarrow> (string \<Rightarrow> string option) \<Rightarrow> bool" where
  \<comment> \<open>a mutation that rewrites one key of the data, or reports no change\<close>
  "edits f key edit \<longleftrightarrow> (\<forall>d. f d = (case edit (data_get d key) of
     None \<Rightarrow> (Inr False, d) | Some t \<Rightarrow> (Inr True, data_put key t d)))"

lemma mem_edit:
  assumes "edits f key edit"
  obtains m' where "Store_Patch p f m = (Inr (edit (mem.text_of m p key) \<noteq> None), m')"
    "\<forall>k. mem.text_of m' p k = (case edit (mem.text_of m p key) of None \<Rightarrow> mem.text_of m p k
       | Some t \<Rightarrow> if k = key then t else mem.text_of m p k)"
    "\<forall>q k. q \<noteq> p \<longrightarrow> mem.text_of m' q k = mem.text_of m q k"
proof -
  have f: "\<And>d. f d = (case edit (data_get d key) of None \<Rightarrow> (Inr False, d) | Some t \<Rightarrow> (Inr True, data_put key t d))"
    using assms by (simp add: edits_def)
  obtain c m' where run: "Store_Patch p f m = (Inr c, m')"
    using f by (cases "Store_Patch p f m")
      (auto simp: Store_Patch_def Let_def split: option.splits prod.splits sum.splits if_splits)
  have e: "c = (edit (mem.text_of m p key) \<noteq> None) \<and>
    mem.text_of m' p key = (case edit (mem.text_of m p key) of None \<Rightarrow> mem.text_of m p key | Some t \<Rightarrow> t) \<and>
    (\<forall>k. k \<noteq> key \<longrightarrow> mem.text_of m' p k = mem.text_of m p k)"
    by (rule mem.patch_edit [OF f run])
  show thesis
  proof (rule that [of m'])
    show "Store_Patch p f m = (Inr (edit (mem.text_of m p key) \<noteq> None), m')" using run e by blast
    show "\<forall>k. mem.text_of m' p k = (case edit (mem.text_of m p key) of None \<Rightarrow> mem.text_of m p k
       | Some t \<Rightarrow> if k = key then t else mem.text_of m p k)"
      using e by (cases "edit (mem.text_of m p key)") fastforce+
    show "\<forall>q k. q \<noteq> p \<longrightarrow> mem.text_of m' q k = mem.text_of m q k"
      using mem.patch_other [OF run] by (simp add: mem.text_of_def)
  qed
qed


definition doc_to_patch :: "goerr + Document \<Rightarrow> goerr + Document" where
  \<comment> \<open>what a patch hands to the mutation\<close>
  "doc_to_patch r =
     (case r of
        Inr doc \<Rightarrow> Inr doc
      | Inl e \<Rightarrow> (if errors_is e ErrNotExist then Inr \<lparr>Data = Some [], Annotations = Some [], Raw = ''''\<rparr> else Inl e))"

lemma Patch_edit_run:
  assumes "edits f key edit"
  shows "Local_Patch a y os p msg f d =
    (case doc_to_patch (Local_Get a y os d p) of
       Inl e \<Rightarrow> (Err e, d)
     | Inr doc \<Rightarrow>
         (case edit (data_get doc key) of
            None \<Rightarrow> (Ok False, d)
          | Some t \<Rightarrow> seqo (Local_Put a y os p (data_put key t doc) msg) (ret True) d))"
proof (cases "Local_Get a y os d p")
  case (Inl e)
  then show ?thesis using assms
    by (simp add: Local_Patch_def doc_to_patch_def edits_def bindo_def gets_def fail_def ret_def split: option.split)
next
  case (Inr doc)
  then show ?thesis using assms
    by (simp add: Local_Patch_def doc_to_patch_def edits_def bindo_def gets_def fail_def ret_def split: option.split)
qed

lemma Put_text:
  assumes put: "Local_Put a y os p doc msg d = (Ok (), d')"
    and data: "Data doc = Some m" and y: "encode_ok y"
    and readable: "\<And>full. resolve_path (ad_root a) p = Inr full \<Longrightarrow> os_read os full = None"
  shows "text_at a y os d' p k = data_get doc k"
  using put
proof (cases rule: Put_stored)
  case (1 full content)
  then have "y_encode y (Annotations doc) (Data doc) = Inr content" using data by (simp add: serializeDocument_def)
  then have "entry_of (Data (document_of y content)) = entry_of (Data doc)" using y by (simp add: encode_ok_def)
  then have "data_get (document_of y content) k = data_get doc k" by (simp add: data_get_entry)
  moreover have "Local_Get a y os d' p = Inr (document_of y content)"
    by (rule Get_stored) (use 1 readable in auto)
  ultimately show ?thesis by (simp add: text_at_def)
qed

lemma other_text:
  assumes "same_but full d d'" and "resolve_path (ad_root a) p = Inr full" and "tidy p" and "tidy q" and "q \<noteq> p"
    and "abs_root (ad_root a) ps" and "apart a"
  shows "text_at a y os d' q k = text_at a y os d q k"
proof -
  have "resolve_path (ad_root a) q \<noteq> Inr full"
    using resolve_inj [OF assms(2) _ assms(6), of q] assms(3-5) by (auto simp: tidy_def)
  then show ?thesis using Get_same [OF assms(1,2) _ assms(7)] by (simp add: text_at_def)
qed

lemma readable_of_patch:
  assumes "honest os" and "doc_to_patch (Local_Get a y os d p) = Inr doc" and "resolve_path (ad_root a) p = Inr full"
  shows "os_read os full = None"
proof (rule ccontr)
  assume "os_read os full \<noteq> None"
  then obtain e where e: "os_read os full = Some e" by auto
  then have "\<not> errors_is e ErrNotExist" using assms(1) by (simp add: honest_def)
  then show False using assms(2,3) e
    by (simp add: doc_to_patch_def Local_Get_def read_or_fallback_def read_file_def)
qed



section \<open>Revisions\<close>

definition ids_ok :: "Disk \<Rightarrow> bool" where
  "ids_ok d \<longleftrightarrow> list_all (\<lambda>r. rev_ID r < dk_next d) (dk_hist d)"

definition grows :: "Disk \<Rightarrow> Disk \<Rightarrow> bool" where
  \<comment> \<open>the table of revisions is only appended to\<close>
  "grows d d' \<longleftrightarrow> (ids_ok d \<longrightarrow> ids_ok d') \<and> (\<exists>more. dk_hist d' = dk_hist d @ more)"

interpretation fr_hist: op_frame grows
proof unfold_locales
  show "grows d d" for d by (simp add: grows_def)
  show "grows a c" if "grows a b" "grows b c" for a b c
    using that unfolding grows_def by (metis append.assoc)
qed

lemma same_hist_grows:
  "(\<And>d. dk_hist (f d) = dk_hist d \<and> dk_next (f d) = dk_next d) \<Longrightarrow> keeps grows (modify f)"
  by (rule fr_hist.r_modify) (simp add: grows_def ids_ok_def)

lemma record_grows: "keeps grows (record_if a os path msg content)"
proof -
  have "keeps grows (recordRevision os path msg content)"
    unfolding recordRevision_def
    by (intro fr_hist.r_seqo fr_hist.r_checkO fr_hist.r_modify) (fastforce simp: grows_def ids_ok_def list_all_iff)
  then show ?thesis unfolding record_if_def by auto
qed

lemma forO_grows: "(\<And>x. keeps grows (f x)) \<Longrightarrow> keeps grows (forO f xs)"
  by (induction xs) auto

lemma os_grows:
  "keeps grows (write_file os p c)" "keeps grows (mkdir_all os p)" "keeps grows (remove_all os p)" "keeps grows (rm_file os p)"
  unfolding write_file_def mkdir_all_def remove_all_def rm_file_def
  by (auto intro!: same_hist_grows simp: drop_files_def split: option.split)

lemma Put_grows: "keeps grows (Local_Put a y os path doc msg)"
  unfolding Local_Put_def by (auto intro!: os_grows record_grows)

lemma Patch_grows: "keeps grows (Local_Patch a y os path msg f)"
  unfolding Local_Patch_def by (auto intro!: Put_grows split: sum.split)

lemma Delete_grows: "keeps grows (Local_Delete a os path msg)"
  unfolding Local_Delete_def by (auto intro!: os_grows record_grows)

lemma PutTree_grows: "keeps grows (Local_PutTree a y os dir tree msg)"
  unfolding Local_PutTree_def put_in_tree_def drop_from_tree_def Let_def
  by (auto intro!: forO_grows os_grows record_grows split: prod.split)

lemma Rollback_grows: "keeps grows (Local_Rollback a y os path i msg)"
  unfolding Local_Rollback_def by (auto intro!: Put_grows Delete_grows)

inductive local_steps :: "Adapter \<Rightarrow> Yaml \<Rightarrow> Disk \<Rightarrow> Disk \<Rightarrow> bool" for a y where
  none: "local_steps a y d d"
| put: "local_steps a y d e \<Longrightarrow> local_steps a y d (snd (Local_Put a y os path doc msg e))"
| patch: "local_steps a y d e \<Longrightarrow> local_steps a y d (snd (Local_Patch a y os path msg f e))"
| delete: "local_steps a y d e \<Longrightarrow> local_steps a y d (snd (Local_Delete a os path msg e))"
| tree: "local_steps a y d e \<Longrightarrow> local_steps a y d (snd (Local_PutTree a y os path tree msg e))"
| rollback: "local_steps a y d e \<Longrightarrow> local_steps a y d (snd (Local_Rollback a y os path i msg e))"

lemma grows_step: "grows d e \<Longrightarrow> keeps grows m \<Longrightarrow> grows d (snd (m e))"
  unfolding keeps_def by (blast intro: fr_hist.trans_R)

lemma local_steps_grow: "local_steps a y d e \<Longrightarrow> grows d e"
  by (induction rule: local_steps.induct)
    (auto intro: fr_hist.refl_R grows_step Put_grows Patch_grows Delete_grows PutTree_grows Rollback_grows)

lemma find_revision:
  assumes "ids_ok d" and "r = \<lparr>rev_ID = dk_next d, rev_Path = path, rev_Message = msg, rev_Content = c\<rparr>"
  shows "find (\<lambda>x. rev_ID x = dk_next d \<and> rev_Path x = path) (dk_hist d @ r # rest) = Some r"
proof -
  have "\<forall>x\<in>set xs. \<not> (rev_ID x = n \<and> rev_Path x = path) \<Longrightarrow>
      find (\<lambda>x. rev_ID x = n \<and> rev_Path x = path) (xs @ r # rest) =
      (if rev_ID r = n \<and> rev_Path r = path then Some r else find (\<lambda>x. rev_ID x = n \<and> rev_Path x = path) rest)" for xs n
    by (induction xs) auto
  moreover have "\<forall>x\<in>set (dk_hist d). \<not> (rev_ID x = dk_next d \<and> rev_Path x = path)"
    using assms(1) by (auto simp: ids_ok_def list_all_iff)
  ultimately show ?thesis using assms(2) by simp
qed


text \<open>Writing a document that is already there changes nothing: no file, no directory and no
  revision.\<close>
theorem put_again:
  assumes "Local_Put a y os path doc msg d = (Ok (), d')"
    and "\<And>full. resolve_path (ad_root a) path = Inr full \<Longrightarrow> os_read os full = None"
  shows "Local_Put a y os path doc msg' d' = (Ok (), d')"
  using assms(1)
proof (cases rule: Put_stored)
  case (1 full content)
  then have "read_file os d' full = Inr content" using assms(2) by (simp add: read_file_def)
  then show ?thesis using 1 by (simp add: Local_Put_def op_defs)
qed

section \<open>A library and a disk to run it on\<close>


definition calm :: Os where
  \<comment> \<open>nothing fails\<close>
  "calm = \<lparr>os_read = (\<lambda>p. None), os_mkdir = (\<lambda>p. None), os_write = (\<lambda>p. None), os_readdir = (\<lambda>p. None),
     os_remove = (\<lambda>p. None), os_removeAll = (\<lambda>p. None), os_db = (\<lambda>q. None)\<rparr>"

definition sample_adapter :: Adapter where
  "sample_adapter = \<lparr>ad_root = ''/state'', ad_fallbacks = [], ad_db = True\<rparr>"

definition empty_disk :: Disk where
  "empty_disk = \<lparr>dk_files = [], dk_dirs = [], dk_hist = [], dk_next = 1\<rparr>"

lemma run_of: "fst (m d) = Ok x \<Longrightarrow> m d = (Ok x, snd (m d))"
  by (simp add: prod_eq_iff)

lemma sample_root: "abs_root (ad_root sample_adapter) [''state'']"
  by code_simp

lemma sample_path: "resolve_path ''/state'' ''cfg.yaml'' = Inr ''/state/cfg.yaml''"
  by code_simp

lemma sample_parent: "path_dir ''/state/cfg.yaml'' = ''/state''"
  by code_simp

lemmas sample_paths = sample_path sample_parent

lemma calm_simps [simp]:
  "os_read calm p = None" "os_mkdir calm p = None" "os_write calm p = None" "os_db calm q = None"
  by (simp_all add: calm_def)

lemma sims_empty: "sims sample_adapter y calm empty_disk Store_New"
  by (auto simp: sims_def text_at_def Local_Get_def read_or_fallback_def read_file_def fallback_files_def Let_def calm_def
      sample_adapter_def empty_disk_def Store_New_def mem.text_of_def Store_Get_def map_filter_simps split: sum.split)


definition version_doc :: "string \<Rightarrow> Document" where
  "version_doc v = \<lparr>Data = Some [(''v'', v)], Annotations = None, Raw = ''''\<rparr>"

definition put_version :: "string \<Rightarrow> (Disk, unit) op" where
  "put_version v = Local_Put sample_adapter plain_yaml calm ''cfg.yaml'' (version_doc v) ''''"

definition disk_after :: "string list \<Rightarrow> Disk" where
  \<comment> \<open>the disk after these versions were put\<close>
  "disk_after vs =
     \<lparr>dk_files = map (\<lambda>v. (''/state/cfg.yaml'', plain_text None (Some [(''v'', v)]))) (take 1 (rev vs)), dk_dirs = map (\<lambda>v. ''/state'') vs,
      dk_hist = map (\<lambda>(i, v). \<lparr>rev_ID = i, rev_Path = ''cfg.yaml'', rev_Message = '''',
        rev_Content = Some (plain_text None (Some [(''v'', v)]))\<rparr>) (zip [1..int (length vs)] vs),
      dk_next = int (length vs) + 1\<rparr>"

lemma plain_text_differ: "plain_text None (Some [(''v'', x)]) = plain_text None (Some [(''v'', z)]) \<longleftrightarrow> x = z"
proof
  assume "plain_text None (Some [(''v'', x)]) = plain_text None (Some [(''v'', z)])"
  then have "plain_read (plain_text None (Some [(''v'', x)])) = plain_read (plain_text None (Some [(''v'', z)]))"
    by (rule arg_cong)
  then show "x = z" unfolding plain_read_text by simp
qed simp

lemma sample_encode: "serializeDocument plain_yaml (version_doc v) = Inr (plain_text None (Some [(''v'', v)]))"
  by (simp add: serializeDocument_def version_doc_def plain_yaml_def)

lemma sample_puts:
  "put_version ''1'' empty_disk = (Ok (), disk_after [''1''])"
  "put_version ''2'' (disk_after [''1'']) = (Ok (), disk_after [''1'', ''2''])"
  by (simp_all add: put_version_def Local_Put_def sample_adapter_def sample_paths sample_encode read_file_def mkdir_all_def
      write_file_def set_file_def record_if_def recordRevision_def op_defs empty_disk_def disk_after_def plain_text_differ
      numeral_2_eq_2 upto.simps)

lemma sample_rollback:
  "fst (Local_Rollback sample_adapter plain_yaml calm ''cfg.yaml'' 1 '''' (disk_after [''1'', ''2''])) = Ok ()"
proof -
  have "rolled_back plain_yaml (plain_text None (Some [(''v'', ''1'')])) =
      \<lparr>Data = Some [(''v'', ''1'')], Annotations = Some [], Raw = plain_text None (Some [(''v'', ''1'')])\<rparr>"
    by (simp add: rolled_back_def plain_yaml_def plain_read_text)
  moreover have "serializeDocument plain_yaml \<lparr>Data = Some [(''v'', ''1'')], Annotations = Some [], Raw = t\<rparr> =
      Inr (plain_text None (Some [(''v'', ''1'')]))" for t
    by (simp add: serializeDocument_def plain_yaml_def plain_text_def)
  ultimately show ?thesis
    by (simp add: Local_Rollback_def Local_Put_def sample_adapter_def sample_paths read_file_def mkdir_all_def
        write_file_def set_file_def record_if_def recordRevision_def op_defs disk_after_def plain_text_differ
        numeral_2_eq_2 upto.simps)
qed


theorem put_again_witness:
  "let d = snd (Local_Put sample_adapter plain_yaml calm ''x.env'' \<lparr>Data = None, Annotations = None, Raw = ''A=1''\<rparr> '''' empty_disk)
   in Local_Put sample_adapter plain_yaml calm ''x.env'' \<lparr>Data = None, Annotations = None, Raw = ''A=1''\<rparr> '''' d = (Ok (), d)"
  unfolding Let_def
proof (rule put_again)
  have "fst (Local_Put sample_adapter plain_yaml calm ''x.env'' \<lparr>Data = None, Annotations = None, Raw = ''A=1''\<rparr> '''' empty_disk) = Ok ()"
    by code_simp
  then show "Local_Put sample_adapter plain_yaml calm ''x.env'' \<lparr>Data = None, Annotations = None, Raw = ''A=1''\<rparr> '''' empty_disk =
      (Ok (), snd (Local_Put sample_adapter plain_yaml calm ''x.env'' \<lparr>Data = None, Annotations = None, Raw = ''A=1''\<rparr> '''' empty_disk))"
    by (rule run_of)
qed (simp add: calm_def)

end
