(* ===== verification/GitStore.thy ===== *)
theory GitStore
  imports Yaml Paths Ops
begin

text \<open>
  The store of desired state in a git repository: \<open>internal/infra/gitops\<close> (\<open>committer.go\<close>, \<open>data.go\<close>,
  \<open>dir.go\<close>), which keeps a clone, edits YAML nodes in place, commits and pushes, and
  \<open>internal/infra/state/git/state.go\<close>, which makes it a store of documents.

  A tree is its files by path. The state is the tree of the remote branch, the clone when there is one
  (the tree of its head and the working tree), and the time of the last sync. What git, the file system and
  the network answer is a parameter: \<open>ge_fail what\<close> is the error of a call, by its name. A call that fails has
  done nothing, except that the removal of a directory may stop halfway; a reset and the clean after it are
  all or nothing. Other people push to the remote in between, as the step relation says; not during an
  operation, where git refuses the push. Paths are taken as the callers write them, clean and relative.
  Messages, authors and locks are left out.
\<close>

section \<open>Editing YAML nodes\<close>

definition literalStyle :: nat where "literalStyle = 8"

definition str_node :: "string \<Rightarrow> Node" where
  "str_node s = Node ScalarNode ''!!str'' 0 s []"

definition value_node :: "string \<Rightarrow> Node" where
  \<comment> \<open>a value of several lines is written as a literal block\<close>
  "value_node v = Node ScalarNode ''!!str'' (if NL \<in> set v then literalStyle else 0) v []"

definition with_content :: "Node \<Rightarrow> Node list \<Rightarrow> Node" where
  "with_content m ns = Node (n_kind m) (n_tag m) (n_style m) (n_value m) ns"

definition plain_style :: "Node \<Rightarrow> Node" where
  "plain_style m = Node (n_kind m) (n_tag m) 0 (n_value m) (n_content m)"

fun set_first :: "string \<Rightarrow> (Node \<Rightarrow> Node) \<Rightarrow> Node list \<Rightarrow> Node list" where
  \<comment> \<open>a change through the pointer \<open>mapValue\<close> returns\<close>
  "set_first key f (k # v # ns) = (if n_value k = key then k # f v # ns else k # v # set_first key f ns)"
| "set_first key f ns = ns"

definition mapUpdate :: "Node \<Rightarrow> string \<Rightarrow> (Node \<Rightarrow> Node) \<Rightarrow> Node" where
  "mapUpdate m key f = (if n_kind m = MappingNode then with_content m (set_first key f (n_content m)) else m)"

definition edit_value :: "string \<Rightarrow> Node \<Rightarrow> Node" where
  "edit_value v n = Node (n_kind n) ''!!str'' (if NL \<in> set v then literalStyle else 0) v (n_content n)"

definition upsertData :: "Node \<Rightarrow> string \<Rightarrow> string \<Rightarrow> bool \<times> Node" where
  "upsertData data key v =
     (if n_kind data \<noteq> MappingNode then (False, data)
      else case mapValue data key of
             Some old \<Rightarrow> (if n_value old = v then (False, data) else (True, mapUpdate data key (edit_value v)))
           | None \<Rightarrow> (True, plain_style (with_content data (n_content data @ [str_node key, value_node v]))))"

fun drop_first :: "string \<Rightarrow> Node list \<Rightarrow> Node list option" where
  "drop_first key (k # v # ns) = (if n_value k = key then Some ns else map_option (\<lambda>r. k # v # r) (drop_first key ns))"
| "drop_first key ns = None"

definition deleteData :: "Node \<Rightarrow> string \<Rightarrow> bool \<times> Node" where
  "deleteData data key =
     (if n_kind data \<noteq> MappingNode then (False, data)
      else case drop_first key (n_content data) of
             None \<Rightarrow> (False, data)
           | Some ns \<Rightarrow> (True, with_content data ns))"

definition sameMapping :: "Node list \<Rightarrow> Node list \<Rightarrow> bool" where
  "sameMapping a b \<longleftrightarrow> map n_value a = map n_value b"

definition sorted_content :: "(string \<times> string) list \<Rightarrow> Node list" where
  "sorted_content next = concat (map (\<lambda>k. [str_node k, value_node (mget next k '''')]) (sort (map fst next)))"

definition replaceData :: "Node \<Rightarrow> (string \<times> string) list \<Rightarrow> bool \<times> Node" where
  "replaceData data next =
     (if n_kind data \<noteq> MappingNode then (False, data)
      else if sameMapping (n_content data) (sorted_content next) then (False, data)
      else (True, plain_style (with_content data (sorted_content next))))"

section \<open>The clone\<close>

type_synonym Tree = "(string \<times> string) list"

record Clone =
  cl_head :: Tree
  cl_work :: Tree

record Git =
  gt_remote :: Tree
  gt_clone :: "Clone option"
  gt_lastSync :: Time

record GitEnv =
  ge_fail :: "string \<Rightarrow> goerr option"
  ge_opened :: "Clone option"
    \<comment> \<open>the clone \<open>git.PlainOpen\<close> finds in the work directory\<close>
  ge_gone :: "string \<Rightarrow> bool"
    \<comment> \<open>the files a failing \<open>os.RemoveAll\<close> has removed\<close>
  ge_now :: Time
  ge_ttl :: Time

type_synonym 'a gop = "(Git, 'a) op"

definition may_fail :: "GitEnv \<Rightarrow> string \<Rightarrow> unit gop" where
  "may_fail g what = checkO (ge_fail g what)"

definition on_clone :: "(Clone \<Rightarrow> Clone) \<Rightarrow> unit gop" where
  "on_clone f = modify (\<lambda>s. s\<lparr>gt_clone := map_option f (gt_clone s)\<rparr>)"

definition synced :: "GitEnv \<Rightarrow> unit gop" where
  "synced g = modify (\<lambda>s. s\<lparr>gt_lastSync := ge_now g\<rparr>)"

definition ensureClone :: "GitEnv \<Rightarrow> bool gop" where
  \<comment> \<open>whether it was cloned just now\<close>
  "ensureClone g =
     bindo (gets gt_clone) (\<lambda>c. case c of
       Some _ \<Rightarrow> ret False
     | None \<Rightarrow>
         seqo (may_fail g ''mkdir clone'')
         (case ge_opened g of
            Some c \<Rightarrow> seqo (modify (\<lambda>s. s\<lparr>gt_clone := Some c\<rparr>)) (ret False)
          | None \<Rightarrow>
              seqo (wrapped ''clone: '' (may_fail g ''clone''))
              (seqo (modify (\<lambda>s. s\<lparr>gt_clone := Some \<lparr>cl_head = gt_remote s, cl_work = gt_remote s\<rparr>\<rparr>))
              (seqo (synced g) (ret True)))))"

definition cleanWorktree :: "GitEnv \<Rightarrow> unit gop" where
  "cleanWorktree g =
     whenO (ge_fail g ''clean'' = None) (on_clone (\<lambda>c. c\<lparr>cl_work := cl_head c\<rparr>))"

definition reset_to :: "Tree \<Rightarrow> unit gop" where
  "reset_to t = on_clone (\<lambda>c. \<lparr>cl_head = t, cl_work = t\<rparr>)"

definition head_tree :: "Git \<Rightarrow> Tree" where
  "head_tree s = (case gt_clone s of None \<Rightarrow> [] | Some c \<Rightarrow> cl_head c)"

definition work_tree :: "Git \<Rightarrow> Tree" where
  "work_tree s = (case gt_clone s of None \<Rightarrow> [] | Some c \<Rightarrow> cl_work c)"

definition syncRemote :: "GitEnv \<Rightarrow> unit gop" where
  \<comment> \<open>without a remote reference the local branch is what the tree is reset to\<close>
  "syncRemote g =
     bindo (ensureClone g) (\<lambda>cloned.
       if cloned then ret ()
       else seqo (wrapped ''fetch: '' (may_fail g ''fetch''))
           (bindo (if ge_fail g ''remote ref'' = None then gets gt_remote
                   else seqo (wrapped ''resolve ref: '' (may_fail g ''local ref'')) (gets head_tree)) (\<lambda>target.
            seqo (may_fail g ''worktree'')
           (seqo (wrapped ''reset: '' (may_fail g ''reset''))
           (seqo (reset_to target) (synced g))))))"

definition read_work :: "GitEnv \<Rightarrow> Git \<Rightarrow> string \<Rightarrow> goerr + string" where
  \<comment> \<open>\<open>os.ReadFile\<close> in the clone\<close>
  "read_work g s p =
     (case ge_fail g (''read '' @ p) of
        Some e \<Rightarrow> Inl e
      | None \<Rightarrow> (case map_of (work_tree s) p of None \<Rightarrow> Inl (Sentinel ErrNotExist) | Some c \<Rightarrow> Inr c))"

definition write_work :: "GitEnv \<Rightarrow> string \<Rightarrow> string \<Rightarrow> unit gop" where
  "write_work g p c =
     seqo (may_fail g (''write '' @ p)) (on_clone (\<lambda>x. x\<lparr>cl_work := AList.update p c (cl_work x)\<rparr>))"

definition stage :: "Tree \<Rightarrow> string \<Rightarrow> Tree \<Rightarrow> Tree" where
  \<comment> \<open>the head with one path as it is in the working tree\<close>
  "stage work p t = (case map_of work p of Some c \<Rightarrow> AList.update p c t | None \<Rightarrow> AList.delete p t)"

definition commit_push :: "GitEnv \<Rightarrow> string list \<Rightarrow> bool gop" where
  \<comment> \<open>commit the staged paths and push; a push that fails takes the commit back\<close>
  "commit_push g staged =
     bindo (gets head_tree) (\<lambda>before.
     seqo (cleanup (may_fail g ''commit'') (cleanWorktree g))
     (seqo (on_clone (\<lambda>c. c\<lparr>cl_head := fold (stage (cl_work c)) staged (cl_head c)\<rparr>))
     (case ge_fail g ''push'' of
        Some e \<Rightarrow> seqo (whenO (ge_fail g ''head'' = None \<and> ge_fail g ''reset back'' = None) (reset_to before)) (fail (Wrap ''push: '' e ''''))
      | None \<Rightarrow> seqo (modify (\<lambda>s. s\<lparr>gt_remote := head_tree s\<rparr>)) (seqo (synced g) (ret True)))))"

section \<open>Editing a document\<close>

type_synonym NodeEdit = "Node \<Rightarrow> (goerr + bool) \<times> Node"

definition commit_edit :: "Yaml \<Rightarrow> GitEnv \<Rightarrow> string \<Rightarrow> Node list option gop \<Rightarrow> bool gop" where
  \<comment> \<open>sync, edit the nodes of a file, and write, commit and push them when they changed\<close>
  "commit_edit y g p edit =
     seqo (syncRemote g)
     (bindo (cleanup edit (cleanWorktree g)) (\<lambda>edited.
      case edited of
        None \<Rightarrow> ret False
      | Some doc \<Rightarrow>
          seqo (cleanup
            (bindo (of_sum (y_print y doc)) (\<lambda>out.
             seqo (write_work g p out)
             (seqo (may_fail g ''worktree again'') (may_fail g ''add''))))
            (cleanWorktree g))
          (commit_push g [p])))"

definition read_nodes :: "Yaml \<Rightarrow> GitEnv \<Rightarrow> string \<Rightarrow> Node list gop" where
  "read_nodes y g p = bindo (gets (\<lambda>s. read_work g s p)) (\<lambda>r. bindo (of_sum r) (\<lambda>raw. of_sum (y_parse y raw)))"

definition mutateRaw :: "Yaml \<Rightarrow> GitEnv \<Rightarrow> string \<Rightarrow> NodeEdit \<Rightarrow> bool gop" where
  "mutateRaw y g p f =
     commit_edit y g p
       (bindo (read_nodes y g p) (\<lambda>doc.
          case doc of
            [] \<Rightarrow> fail (Errorf (''empty yaml '' @ p))
          | root # rest \<Rightarrow>
              (case f root of
                 (Inl e, _) \<Rightarrow> fail e
               | (Inr changed, root') \<Rightarrow> ret (if changed then Some (root' # rest) else None))))"

definition mutateDoc :: "Yaml \<Rightarrow> GitEnv \<Rightarrow> string \<Rightarrow> NodeEdit \<Rightarrow> bool gop" where
  "mutateDoc y g p f = mutateRaw y g p f"

definition git_mutate :: "Yaml \<Rightarrow> GitEnv \<Rightarrow> string \<Rightarrow> NodeEdit \<Rightarrow> bool gop" where
  "git_mutate y g p f =
     mutateRaw y g p (\<lambda>root.
       case mapValue root ''data'' of
         None \<Rightarrow> (Inl (Errorf (''no data map in '' @ p)), root)
       | Some data \<Rightarrow> (case f data of (r, data') \<Rightarrow> (r, mapUpdate root ''data'' (\<lambda>_. data'))))"

definition SetData :: "Yaml \<Rightarrow> GitEnv \<Rightarrow> string \<Rightarrow> string \<Rightarrow> string \<Rightarrow> bool gop" where
  "SetData y g p key v = git_mutate y g p (\<lambda>data. case upsertData data key v of (c, d) \<Rightarrow> (Inr c, d))"

definition DeleteData :: "Yaml \<Rightarrow> GitEnv \<Rightarrow> string \<Rightarrow> string \<Rightarrow> bool gop" where
  "DeleteData y g p key = git_mutate y g p (\<lambda>data. case deleteData data key of (c, d) \<Rightarrow> (Inr c, d))"

definition ReplaceData :: "Yaml \<Rightarrow> GitEnv \<Rightarrow> string \<Rightarrow> (string \<times> string) list \<Rightarrow> bool gop" where
  "ReplaceData y g p next = git_mutate y g p (\<lambda>data. case replaceData data next of (c, d) \<Rightarrow> (Inr c, d))"

definition add_annotations :: "Node \<Rightarrow> Node" where
  \<comment> \<open>an empty map of annotations appended to the metadata\<close>
  "add_annotations meta =
     with_content meta (n_content meta @ [str_node ''annotations'', Node MappingNode ''!!map'' 0 '''' []])"

fun set_last_value :: "Node list \<Rightarrow> (Node \<Rightarrow> Node) \<Rightarrow> Node list" where
  "set_last_value [] f = []"
| "set_last_value [n] f = [f n]"
| "set_last_value (m # n # ns) f = m # set_last_value (n # ns) f"

definition replace_annotations :: "Node \<Rightarrow> (string \<times> string) list \<Rightarrow> bool \<times> bool \<times> Node" where
  \<comment> \<open>whether the map had to be added, whether it changed, and the metadata after\<close>
  "replace_annotations meta nts =
     (case mapValue meta ''annotations'' of
        Some old \<Rightarrow> (case replaceData old nts of (c, m) \<Rightarrow> (False, c, mapUpdate meta ''annotations'' (\<lambda>_. m)))
      | None \<Rightarrow>
          (case replaceData (Node MappingNode ''!!map'' 0 '''' []) nts of
             (c, m) \<Rightarrow> (True, c, with_content meta (set_last_value (n_content (add_annotations meta)) (\<lambda>_. m)))))"

definition replace_config_map :: "string \<Rightarrow> (string \<times> string) list \<Rightarrow> (string \<times> string) list \<Rightarrow> NodeEdit" where
  "replace_config_map p next nts root =
     (case mapValue root ''data'' of
        None \<Rightarrow> (Inl (Errorf (''no data map in '' @ p)), root)
      | Some data \<Rightarrow>
          (case replaceData data next of
             (changed, data') \<Rightarrow>
               (let root = mapUpdate root ''data'' (\<lambda>_. data')
                in case mapValue root ''metadata'' of
                     None \<Rightarrow> (Inl (Errorf (''no metadata in '' @ p)), root)
                   | Some meta \<Rightarrow>
                       (case replace_annotations meta nts of
                          (added, c, meta') \<Rightarrow>
                            (Inr (changed \<or> added \<or> c), mapUpdate root ''metadata'' (\<lambda>_. meta'))))))"

definition ReplaceConfigMap ::
    "Yaml \<Rightarrow> GitEnv \<Rightarrow> string \<Rightarrow> (string \<times> string) list \<Rightarrow> (string \<times> string) list \<Rightarrow> bool gop" where
  "ReplaceConfigMap y g p next nts = mutateDoc y g p (replace_config_map p next nts)"

type_synonym MapEdit =
  "(string \<times> string) list \<Rightarrow> (string \<times> string) list \<Rightarrow> (goerr + bool) \<times> (string \<times> string) list \<times> (string \<times> string) list"

definition patch_maps :: "string \<Rightarrow> MapEdit \<Rightarrow> NodeEdit" where
  "patch_maps p f root =
     (case mapValue root ''data'' of
        None \<Rightarrow> (Inl (Errorf (''no data map in '' @ p)), root)
      | Some dataNode \<Rightarrow>
          (let nts = (case doc_annotations root of None \<Rightarrow> [] | Some m \<Rightarrow> m)
           in case f (node_entries dataNode) nts of
                (Inl e, _) \<Rightarrow> (Inl e, root)
              | (Inr changed, data', nts') \<Rightarrow>
                  (if \<not> changed then (Inr False, root)
                   else case replaceData dataNode data' of
                          (dataChanged, d) \<Rightarrow>
                            (let root = mapUpdate root ''data'' (\<lambda>_. d)
                             in case mapValue root ''metadata'' of
                                  None \<Rightarrow> (Inr dataChanged, root)
                                | Some meta \<Rightarrow>
                                    (if nts' = [] then (Inr dataChanged, root)
                                     else case replace_annotations meta nts' of
                                            (_, c, meta') \<Rightarrow>
                                              (Inr (dataChanged \<or> c), mapUpdate root ''metadata'' (\<lambda>_. meta')))))))"

definition PatchDocument :: "Yaml \<Rightarrow> GitEnv \<Rightarrow> string \<Rightarrow> MapEdit \<Rightarrow> bool gop" where
  "PatchDocument y g p f = mutateDoc y g p (patch_maps p f)"


definition findConfigMapValue :: "Node list \<Rightarrow> string \<Rightarrow> Node option" where
  "findConfigMapValue doc key =
     (case doc of
        [] \<Rightarrow> None
      | root # _ \<Rightarrow> (case mapValue root ''data'' of None \<Rightarrow> None | Some data \<Rightarrow> mapValue data key))"

definition set_text :: "string \<Rightarrow> Node \<Rightarrow> Node" where
  "set_text v n = Node (n_kind n) (n_tag n) (n_style n) v (n_content n)"

definition Git_PatchKey :: "Yaml \<Rightarrow> GitEnv \<Rightarrow> string \<Rightarrow> string \<Rightarrow> (string \<Rightarrow> goerr + string) \<Rightarrow> bool gop" where
  \<comment> \<open>\<open>Committer.Patch\<close>\<close>
  "Git_PatchKey y g p key transform =
     commit_edit y g p
       (bindo (read_nodes y g p) (\<lambda>doc.
          case findConfigMapValue doc key of
            None \<Rightarrow> fail (Errorf (''data key '' @ go_quote key @ '' not found in '' @ p))
          | Some n \<Rightarrow>
              bindo (of_sum (transform (n_value n))) (\<lambda>updated.
                ret (if updated = n_value n then None
                     else Some (mapUpdate (hd doc) ''data'' (\<lambda>data. mapUpdate data key (set_text updated)) # tl doc)))))"

section \<open>Reading\<close>

definition Git_ReadFile :: "GitEnv \<Rightarrow> string \<Rightarrow> string gop" where
  \<comment> \<open>from the clone while it is fresh\<close>
  "Git_ReadFile g p =
     bindo (gets (\<lambda>s. gt_clone s = None \<or> ge_now g - gt_lastSync s \<ge> ge_ttl g)) (\<lambda>stale.
     seqo (whenO stale (syncRemote g))
     (bindo (gets (\<lambda>s. read_work g s p)) of_sum))"

definition ReadDocument :: "Yaml \<Rightarrow> GitEnv \<Rightarrow> string \<Rightarrow> Document gop" where
  "ReadDocument y g p = bindo (Git_ReadFile g p) (\<lambda>raw. ret (document_of y raw))"

section \<open>Directories\<close>

definition tree_dir :: "string \<Rightarrow> string" where
  \<comment> \<open>what the paths of the files in a directory start with\<close>
  "tree_dir d = (if d = ''.'' then '''' else d @ ''/'')"

definition dir_files :: "Tree \<Rightarrow> string \<Rightarrow> string list" where
  \<comment> \<open>the plain files directly in a directory\<close>
  "dir_files t d = filter (\<lambda>p. has_prefix p (tree_dir d) \<and> SLASH \<notin> set (drop (length (tree_dir d)) p)) (map fst t)"

definition trim_slashes :: "string \<Rightarrow> string" where
  "trim_slashes s = trim_right (\<lambda>c. c = SLASH) (trim_left (\<lambda>c. c = SLASH) s)"

definition changed_under :: "Clone \<Rightarrow> string \<Rightarrow> string list" where
  \<comment> \<open>the files of a directory that \<open>wt.Status\<close> reports as changed\<close>
  "changed_under c d =
     filter (\<lambda>p. (has_prefix p (trim_slashes d @ ''/'') \<or> p = trim_slashes d) \<and> map_of (cl_work c) p \<noteq> map_of (cl_head c) p)
       (remdups (map fst (cl_work c) @ map fst (cl_head c)))"

definition commit_under :: "GitEnv \<Rightarrow> string \<Rightarrow> bool gop" where
  \<comment> \<open>stage what changed under a directory, commit it and push\<close>
  "commit_under g d =
     seqo (cleanup (seqo (may_fail g ''worktree again'') (may_fail g ''status'')) (cleanWorktree g))
     (bindo (gets (\<lambda>s. case gt_clone s of None \<Rightarrow> [] | Some c \<Rightarrow> changed_under c d)) (\<lambda>ps.
        if ps = [] then ret False else commit_push g ps))"

definition write_missing :: "GitEnv \<Rightarrow> string \<Rightarrow> string \<times> string \<Rightarrow> unit gop" where
  "write_missing g d nc =
     (case nc of (name, content) \<Rightarrow>
        bindo (gets (\<lambda>s. read_work g s (tree_dir d @ name))) (\<lambda>cur.
          if cur = Inr content then ret () else write_work g (tree_dir d @ name) content))"

definition drop_unlisted :: "GitEnv \<Rightarrow> string \<Rightarrow> (string \<times> string) list \<Rightarrow> Clone \<Rightarrow> Clone" where
  \<comment> \<open>a file that cannot be removed stays, and nothing is said\<close>
  "drop_unlisted g d files c =
     c\<lparr>cl_work := filter (\<lambda>(p, _). \<not> (p \<in> set (dir_files (cl_work c) d) \<and> p \<notin> (\<lambda>(n, _). tree_dir d @ n) ` set files \<and>
          ge_fail g (''remove '' @ p) = None)) (cl_work c)\<rparr>"

definition WriteDirectory :: "GitEnv \<Rightarrow> string \<Rightarrow> (string \<times> string) list \<Rightarrow> bool gop" where
  "WriteDirectory g d files =
     seqo (syncRemote g)
     (seqo (cleanup (may_fail g ''mkdir'') (cleanWorktree g))
     (seqo (on_clone (drop_unlisted g d files))
     (seqo (cleanup (forO (write_missing g d) files) (cleanWorktree g))
     (commit_under g d))))"

definition under_path :: "string \<Rightarrow> string \<Rightarrow> bool" where
  "under_path d p \<longleftrightarrow> p = d \<or> has_prefix p (tree_dir d)"

definition DeleteDirectory :: "GitEnv \<Rightarrow> string \<Rightarrow> bool gop" where
  "DeleteDirectory g d =
     seqo (syncRemote g)
     (bindo (gets (\<lambda>s. list_ex (under_path d) (map fst (work_tree s)))) (\<lambda>found.
        if \<not> found then ret False
        else seqo (cleanup
               (case ge_fail g ''remove all'' of
                  None \<Rightarrow> on_clone (\<lambda>c. c\<lparr>cl_work := filter (\<lambda>(p, _). \<not> under_path d p) (cl_work c)\<rparr>)
                | Some e \<Rightarrow>
                    seqo (on_clone (\<lambda>c. c\<lparr>cl_work := filter (\<lambda>(p, _). \<not> (under_path d p \<and> ge_gone g p)) (cl_work c)\<rparr>))
                      (fail e))
               (cleanWorktree g))
             (commit_under g d)))"

section \<open>The store of documents\<close>

definition GitState_Get :: "Yaml \<Rightarrow> GitEnv \<Rightarrow> string \<Rightarrow> Document gop" where
  "GitState_Get y g p = ReadDocument y g p"

definition GitState_Put :: "Yaml \<Rightarrow> GitEnv \<Rightarrow> string \<Rightarrow> Document \<Rightarrow> unit gop" where
  "GitState_Put y g p doc =
     (case Data doc of
        Some next \<Rightarrow>
          (case Annotations doc of
             Some nts \<Rightarrow> bindo (ReplaceConfigMap y g p next nts) (\<lambda>_. ret ())
           | None \<Rightarrow> bindo (ReplaceData y g p next) (\<lambda>_. ret ()))
      | None \<Rightarrow> bindo (WriteDirectory g (path_dir p) [(last (split_on SLASH p), Raw doc)]) (\<lambda>_. ret ()))"

definition GitState_Patch :: "Yaml \<Rightarrow> GitEnv \<Rightarrow> string \<Rightarrow> Mutate \<Rightarrow> bool gop" where
  \<comment> \<open>the maps handed to the mutation are never nil and are changed in place\<close>
  "GitState_Patch y g p mutate =
     PatchDocument y g p (\<lambda>data nts.
       case mutate \<lparr>Data = Some data, Annotations = Some nts, Raw = ''''\<rparr> of
         (r, doc) \<Rightarrow> (r, case Data doc of None \<Rightarrow> [] | Some m \<Rightarrow> m, case Annotations doc of None \<Rightarrow> [] | Some m \<Rightarrow> m))"

definition GitState_Delete :: "GitEnv \<Rightarrow> string \<Rightarrow> unit gop" where
  "GitState_Delete g p = bindo (DeleteDirectory g p) (\<lambda>_. ret ())"

definition GitState_PutTree :: "GitEnv \<Rightarrow> string \<Rightarrow> (string \<times> string option) list \<Rightarrow> unit gop" where
  \<comment> \<open>the documents by their raw text, \<open>None\<close> where it is nil\<close>
  "GitState_PutTree g d tree =
     bindo (WriteDirectory g d (List.map_filter (\<lambda>(n, r). map_option (\<lambda>t. (n, t)) r) tree)) (\<lambda>_. ret ())"

end
