(* ===== verification/GitStoreProofs.thy ===== *)
theory GitStoreProofs
  imports GitStore LocalStoreProofs
begin

text \<open>
  The git store edits well-formed documents into well-formed documents, publishes an edit entirely or
  not at all, answers every read from a tree that was published, and implements the contract of the stores on
  the documents of the remote branch.
\<close>

section \<open>Lookups in edited nodes\<close>

lemma find_set_first:
  "map_option snd (find (\<lambda>(k, v). n_value k = key') (pairs (set_first key f ns))) =
   (if key' = key then map_option f (map_option snd (find (\<lambda>(k, v). n_value k = key) (pairs ns)))
    else map_option snd (find (\<lambda>(k, v). n_value k = key') (pairs ns)))"
  by (induction key f ns rule: set_first.induct) auto

lemma mapValue_mapUpdate:
  "mapValue (mapUpdate m key f) key' = (if key' = key then map_option f (mapValue m key) else mapValue m key')"
  by (cases m) (simp add: mapValue_def mapUpdate_def with_content_def find_set_first)

lemma node_entries_keys: "distinct (map fst (node_entries m))"
proof -
  have "distinct (map fst (fold (\<lambda>(k, v) acc. AList.update (n_value k) (n_value v) acc) kvs acc))"
    if "distinct (map fst acc)" for kvs acc
    using that by (induction kvs arbitrary: acc) (auto simp: distinct_update)
  then show ?thesis by (simp add: node_entries_def)
qed

lemma pairs_strings: "pairs (concat (map (\<lambda>k. [str_node k, value_node (f k)]) ks)) = map (\<lambda>k. (str_node k, value_node (f k))) ks"
  by (induction ks) auto

lemma entries_sorted_content:
  "map_of (fold (\<lambda>(k, v) acc. AList.update (n_value k) (n_value v) acc) (pairs (sorted_content next)) []) = map_of next"
proof -
  have "map_of (fold (\<lambda>(k, v) acc. AList.update (n_value k) (n_value v) acc) (map (\<lambda>k. (str_node k, value_node (f k))) ks) acc) x =
      (if x \<in> set ks then Some (f x) else map_of acc x)" for ks f acc x
    by (induction ks arbitrary: acc) (auto simp: str_node_def value_node_def map_of_update)
  from this [where acc = "[]"] have e: "map_of (fold (\<lambda>(k, v) acc. AList.update (n_value k) (n_value v) acc) (pairs (sorted_content next)) []) x =
      (if x \<in> fst ` set next then Some (mget next x '''') else None)" for x
    unfolding sorted_content_def pairs_strings by simp
  show ?thesis
  proof
    fix x
    show "map_of (fold (\<lambda>(k, v) acc. AList.update (n_value k) (n_value v) acc) (pairs (sorted_content next)) []) x = map_of next x"
    proof (cases "map_of next x")
      case None
      then show ?thesis unfolding e using map_of_eq_None_iff [of "next" x] by simp
    next
      case (Some v)
      then have "x \<in> fst ` set next" using map_of_eq_None_iff [of "next" x] by simp
      then show ?thesis unfolding e using Some by (simp add: mget_def)
    qed
  qed
qed

lemma sameMapping_pairs:
  "sameMapping a b \<Longrightarrow>
   map (\<lambda>(k, v). (n_value k, n_value v)) (pairs a) = map (\<lambda>(k, v). (n_value k, n_value v)) (pairs b)"
proof (induction a arbitrary: b rule: pairs.induct)
  case (1 k v ns)
  then obtain k' v' ns' where "b = k' # v' # ns'" "n_value k = n_value k'" "n_value v = n_value v'" "sameMapping ns ns'"
    by (auto simp: sameMapping_def Cons_eq_map_conv map_eq_Cons_conv)
  then show ?case using 1 by simp
qed (auto simp: sameMapping_def map_eq_Cons_conv)

lemma fold_entries:
  "fold (\<lambda>(k, v) acc. AList.update (n_value k) (n_value v) acc) kvs acc =
   fold (\<lambda>(k, v) acc. AList.update k v acc) (map (\<lambda>(k, v). (n_value k, n_value v)) kvs) acc"
  by (induction kvs arbitrary: acc) auto

lemma replaceData_entries:
  assumes "replaceData m next = (c, m')" and "n_kind m = MappingNode"
  shows "n_kind m' = MappingNode \<and> map_of (node_entries m') = map_of next \<and> (\<not> c \<longrightarrow> m' = m)"
proof (cases "sameMapping (n_content m) (sorted_content next)")
  case True
  then have "m' = m" "\<not> c" using assms by (auto simp: replaceData_def)
  moreover have "node_entries m = fold (\<lambda>(k, v) acc. AList.update (n_value k) (n_value v) acc) (pairs (sorted_content next)) []"
    using sameMapping_pairs [OF True] unfolding node_entries_def fold_entries by simp
  ultimately show ?thesis using assms(2) entries_sorted_content by simp
next
  case False
  then have "m' = plain_style (with_content m (sorted_content next))" "c" using assms by (auto simp: replaceData_def)
  then show ?thesis using assms(2) entries_sorted_content
    by (simp add: plain_style_def with_content_def node_entries_def)
qed


lemma mapping_entries_of: "n_kind m = MappingNode \<Longrightarrow> entry_of (mapping_entries (Some m)) = map_of (node_entries m)"
  by (simp add: mapping_entries_def)

lemma set_last_snoc: "set_last_value (ns @ [a, b]) f = ns @ [a, f b]"
proof (induction ns)
  case (Cons n ns)
  then show ?case by (cases "ns @ [a, b]") auto
qed simp

lemma pairs_append: "even (length ns) \<Longrightarrow> pairs (ns @ ms) = pairs ns @ pairs ms"
  by (induction ns rule: pairs.induct) auto

section \<open>Well-formed documents\<close>

fun well_typed :: "Node \<Rightarrow> bool" where
  \<comment> \<open>a scalar has no content; a mapping has keys that are scalars, and a value to each\<close>
  "well_typed (Node k t s v ns) \<longleftrightarrow> list_all well_typed ns \<and> (k = ScalarNode \<longrightarrow> ns = []) \<and>
     (k = MappingNode \<longrightarrow> even (length ns) \<and> list_all (\<lambda>(key, _). n_kind key = ScalarNode) (pairs ns))"

lemma well_typed_iff:
  "well_typed m \<longleftrightarrow> list_all well_typed (n_content m) \<and> (n_kind m = ScalarNode \<longrightarrow> n_content m = []) \<and>
     (n_kind m = MappingNode \<longrightarrow> even (length (n_content m)) \<and> list_all (\<lambda>(key, _). n_kind key = ScalarNode) (pairs (n_content m)))"
  by (cases m) simp

declare well_typed.simps [simp del]

lemma new_nodes_typed [simp]:
  "well_typed (str_node s)" "well_typed (value_node s)" "well_typed (Node MappingNode t st v [])"
  "n_kind (str_node s) = ScalarNode" "n_kind (value_node s) = ScalarNode"
  by (simp_all add: well_typed_iff str_node_def value_node_def)

lemma restyled [simp]:
  "n_kind (plain_style m) = n_kind m" "n_content (plain_style m) = n_content m" "well_typed (plain_style m) = well_typed m"
  "n_kind (with_content m ns) = n_kind m" "n_content (with_content m ns) = ns"
  by (simp_all add: well_typed_iff plain_style_def with_content_def)

lemma set_first_typed:
  assumes "list_all well_typed ns" and "even (length ns)" and "list_all (\<lambda>(key, _). n_kind key = ScalarNode) (pairs ns)"
    and "\<And>v. v \<in> set ns \<Longrightarrow> well_typed v \<Longrightarrow> well_typed (f v)"
  shows "list_all well_typed (set_first key f ns) \<and> even (length (set_first key f ns)) \<and>
    list_all (\<lambda>(key, _). n_kind key = ScalarNode) (pairs (set_first key f ns))"
  using assms by (induction key f ns rule: set_first.induct) auto

lemma mapUpdate_typed:
  assumes "well_typed m" and "\<And>v. well_typed v \<Longrightarrow> well_typed (f v)"
  shows "well_typed (mapUpdate m key f) \<and> n_kind (mapUpdate m key f) = n_kind m"
proof (cases "n_kind m = MappingNode")
  case True
  then have "list_all well_typed (n_content m)" "even (length (n_content m))"
    "list_all (\<lambda>(key, _). n_kind key = ScalarNode) (pairs (n_content m))"
    using assms(1) by (simp_all add: well_typed_iff [of m])
  from set_first_typed [OF this, of f key] assms(2) show ?thesis
    using True by (simp add: mapUpdate_def well_typed_iff [of "with_content _ _"])
qed (use assms(1) in \<open>simp add: mapUpdate_def\<close>)

lemma sorted_content_typed:
  "list_all well_typed (sorted_content next) \<and> even (length (sorted_content next)) \<and>
   list_all (\<lambda>(key, _). n_kind key = ScalarNode) (pairs (sorted_content next))"
proof -
  have "list_all well_typed (concat (map (\<lambda>k. [str_node k, value_node (f k)]) ks)) \<and>
      even (length (concat (map (\<lambda>k. [str_node k, value_node (f k)]) ks)))" for ks and f :: "string \<Rightarrow> string"
    by (induction ks) auto
  then show ?thesis unfolding sorted_content_def pairs_strings by (auto simp: list_all_iff)
qed

lemma replaceData_typed:
  "replaceData m next = (c, m') \<Longrightarrow> well_typed m \<Longrightarrow> well_typed m' \<and> n_kind m' = n_kind m"
  using sorted_content_typed [of "next"]
  by (auto simp: replaceData_def well_typed_iff [of "with_content _ _"] split: if_splits)

lemma find_pairs_set: "map_option snd (find P (pairs ns)) = Some v \<Longrightarrow> v \<in> set ns"
  by (induction ns rule: pairs.induct) (auto split: if_splits)

lemma mapValue_typed: "mapValue m key = Some v \<Longrightarrow> well_typed m \<Longrightarrow> well_typed v"
  using find_pairs_set [of "\<lambda>(k, v). n_value k = key" "n_content m" v]
  by (auto simp: mapValue_def well_typed_iff [of m] list_all_iff split: if_splits)

lemma upsertData_typed:
  assumes "upsertData m key v = (c, m')" and "well_typed m"
  shows "well_typed m' \<and> n_kind m' = n_kind m"
proof -
  have "well_typed (edit_value v n)" if "well_typed n" for n
    using that by (simp add: edit_value_def well_typed_iff [of n] well_typed_iff [of "Node _ _ _ _ _"])
  then have "well_typed (mapUpdate m key (edit_value v)) \<and> n_kind (mapUpdate m key (edit_value v)) = n_kind m"
    by (intro mapUpdate_typed assms(2))
  moreover have "well_typed (with_content m (n_content m @ [str_node key, value_node v]))" if "n_kind m = MappingNode"
    using assms(2) that by (simp add: well_typed_iff [of m] well_typed_iff [of "with_content _ _"] pairs_append)
  ultimately show ?thesis using assms by (auto simp: upsertData_def split: if_splits option.splits)
qed

lemma drop_first_typed:
  assumes "drop_first key ns = Some ms" and "list_all well_typed ns" and "even (length ns)"
    and "list_all (\<lambda>(key, _). n_kind key = ScalarNode) (pairs ns)"
  shows "list_all well_typed ms \<and> even (length ms) \<and> list_all (\<lambda>(key, _). n_kind key = ScalarNode) (pairs ms)"
  using assms by (induction key ns arbitrary: ms rule: drop_first.induct) (auto split: if_splits)

lemma deleteData_typed:
  assumes "deleteData m key = (c, m')" and "well_typed m"
  shows "well_typed m' \<and> n_kind m' = n_kind m"
proof (cases "n_kind m = MappingNode")
  case True
  show ?thesis
  proof (cases "drop_first key (n_content m)")
    case (Some ns)
    then have "m' = with_content m ns" using assms(1) True by (simp add: deleteData_def)
    then show ?thesis using Some True assms(2) drop_first_typed [OF Some]
      by (simp add: well_typed_iff [of m] well_typed_iff [of "with_content _ _"])
  qed (use assms True in \<open>simp add: deleteData_def\<close>)
qed (use assms in \<open>auto simp: deleteData_def\<close>)

lemma replace_annotations_typed:
  assumes "replace_annotations m nts = (a, c, m')" and "well_typed m" and "n_kind m = MappingNode"
  shows "well_typed m' \<and> n_kind m' = n_kind m"
proof (cases "mapValue m ''annotations''")
  case None
  obtain c2 n where n: "replaceData (Node MappingNode ''!!map'' 0 '''' []) nts = (c2, n)" by (cases "replaceData (Node MappingNode ''!!map'' 0 '''' []) nts")
  then have "m' = with_content m (n_content m @ [str_node ''annotations'', n])"
    using assms(1) None by (simp add: replace_annotations_def add_annotations_def set_last_snoc)
  moreover have "well_typed n" using replaceData_typed [OF n] by simp
  ultimately show ?thesis
    using assms(2,3) by (simp add: well_typed_iff [of m] well_typed_iff [of "with_content _ _"] pairs_append)
next
  case (Some old)
  obtain c2 n where n: "replaceData old nts = (c2, n)" by (cases "replaceData old nts")
  then have "m' = mapUpdate m ''annotations'' (\<lambda>_. n)" using assms(1) Some by (simp add: replace_annotations_def)
  moreover have "well_typed n" using replaceData_typed [OF n] mapValue_typed [OF Some assms(2)] by simp
  ultimately show ?thesis using mapUpdate_typed [OF assms(2), of "\<lambda>_. n"] by simp
qed


lemma replaced_typed:
  assumes "well_typed root" and "mapValue root key = Some old" and "replaceData old m = (c, d)"
  shows "well_typed (mapUpdate root key (\<lambda>_. d))"
  using mapUpdate_typed [OF assms(1), of "\<lambda>_. d" key] replaceData_typed [OF assms(3) mapValue_typed [OF assms(2,1)]] by simp

lemma metadata_typed:
  assumes "well_typed root" and "mapValue root ''metadata'' = Some meta" and "n_kind meta = MappingNode"
    and "replace_annotations meta nts = (a, c, meta')"
  shows "well_typed (mapUpdate root ''metadata'' (\<lambda>_. meta'))"
  using mapUpdate_typed [OF assms(1), of "\<lambda>_. meta'" "''metadata''"] replace_annotations_typed [OF assms(4) _ assms(3)]
    mapValue_typed [OF assms(2,1)] by simp

definition tidy_metadata :: "Node \<Rightarrow> bool" where
  \<comment> \<open>the metadata, when there is any, is a mapping\<close>
  "tidy_metadata root \<longleftrightarrow> (case mapValue root ''metadata'' of None \<Rightarrow> True | Some m \<Rightarrow> n_kind m = MappingNode)"

lemma with_metadata_typed:
  \<comment> \<open>a changed data map, then changed annotations\<close>
  assumes "well_typed root" and "tidy_metadata root" and "mapValue root ''data'' = Some data" and "replaceData data m = (c, d)"
    and "mapValue root ''metadata'' = Some meta" and "replace_annotations meta nts = (a, c', meta')"
  shows "well_typed (mapUpdate (mapUpdate root ''data'' (\<lambda>_. d)) ''metadata'' (\<lambda>_. meta'))"
proof (rule metadata_typed)
  show "well_typed (mapUpdate root ''data'' (\<lambda>_. d))" by (rule replaced_typed [OF assms(1,3,4)])
  show "mapValue (mapUpdate root ''data'' (\<lambda>_. d)) ''metadata'' = Some meta" using assms(5) by (simp add: mapValue_mapUpdate)
  show "n_kind meta = MappingNode" using assms(2,5) by (simp add: tidy_metadata_def)
qed (rule assms(6))

lemma patch_maps_typed:
  assumes "well_typed root" and "tidy_metadata root"
  shows "well_typed (snd (patch_maps p g root))"
proof (cases "mapValue root ''data''")
  case (Some data)
  let ?nts = "case doc_annotations root of None \<Rightarrow> [] | Some m \<Rightarrow> m"
  obtain r m nts where g: "g (node_entries data) ?nts = (r, m, nts)" by (cases "g (node_entries data) ?nts")
  obtain c d where d: "replaceData data m = (c, d)" by (cases "replaceData data m")
  have meta: "mapValue (mapUpdate root ''data'' (\<lambda>_. d)) ''metadata'' = mapValue root ''metadata''"
    by (simp add: mapValue_mapUpdate)
  show ?thesis
  proof (cases "r = Inr True")
    case True
    show ?thesis
    proof (cases "mapValue root ''metadata''")
      case None
      then have "snd (patch_maps p g root) = mapUpdate root ''data'' (\<lambda>_. d)"
        using Some g True d meta by (simp add: patch_maps_def)
      then show ?thesis using replaced_typed [OF assms(1) Some d] by simp
    next
      case (Some mt)
      obtain a c' mt' where mt: "replace_annotations mt nts = (a, c', mt')" by (cases "replace_annotations mt nts")
      have "snd (patch_maps p g root) = (if nts = [] then mapUpdate root ''data'' (\<lambda>_. d)
          else mapUpdate (mapUpdate root ''data'' (\<lambda>_. d)) ''metadata'' (\<lambda>_. mt'))"
        using \<open>mapValue root ''data'' = Some data\<close> g True d meta Some mt by (simp add: patch_maps_def)
      then show ?thesis
        using replaced_typed [OF assms(1) \<open>mapValue root ''data'' = Some data\<close> d]
          with_metadata_typed [OF assms \<open>mapValue root ''data'' = Some data\<close> d Some mt] by simp
    qed
  next
    case False
    then have "snd (patch_maps p g root) = root"
      using Some g by (cases r) (simp_all add: patch_maps_def)
    then show ?thesis using assms(1) by simp
  qed
qed (use assms(1) in \<open>simp add: patch_maps_def\<close>)

lemma replace_config_map_typed:
  assumes "well_typed root" and "tidy_metadata root"
  shows "well_typed (snd (replace_config_map p m nts root))"
proof (cases "mapValue root ''data''")
  case (Some data)
  obtain c d where d: "replaceData data m = (c, d)" by (cases "replaceData data m")
  have meta: "mapValue (mapUpdate root ''data'' (\<lambda>_. d)) ''metadata'' = mapValue root ''metadata''"
    by (simp add: mapValue_mapUpdate)
  show ?thesis
  proof (cases "mapValue root ''metadata''")
    case None
    then have "snd (replace_config_map p m nts root) = mapUpdate root ''data'' (\<lambda>_. d)"
      using Some d meta by (simp add: replace_config_map_def)
    then show ?thesis using replaced_typed [OF assms(1) Some d] by simp
  next
    case (Some mt)
    obtain a c' mt' where mt: "replace_annotations mt nts = (a, c', mt')" by (cases "replace_annotations mt nts")
    have "snd (replace_config_map p m nts root) = mapUpdate (mapUpdate root ''data'' (\<lambda>_. d)) ''metadata'' (\<lambda>_. mt')"
      using \<open>mapValue root ''data'' = Some data\<close> d meta Some mt by (simp add: replace_config_map_def)
    then show ?thesis
      using with_metadata_typed [OF assms \<open>mapValue root ''data'' = Some data\<close> d Some mt] by simp
  qed
qed (use assms(1) in \<open>simp add: replace_config_map_def\<close>)

definition data_edit :: "string \<Rightarrow> (Node \<Rightarrow> bool \<times> Node) \<Rightarrow> NodeEdit" where
  \<comment> \<open>what \<open>SetData\<close>, \<open>DeleteData\<close> and \<open>ReplaceData\<close> do to a document\<close>
  "data_edit p edit root =
     (case mapValue root ''data'' of
        None \<Rightarrow> (Inl (Errorf (''no data map in '' @ p)), root)
      | Some data \<Rightarrow> (case edit data of (c, data') \<Rightarrow> (Inr c, mapUpdate root ''data'' (\<lambda>_. data'))))"

lemma data_edit_eq: "(\<lambda>root. case mapValue root ''data'' of
         None \<Rightarrow> (Inl (Errorf (''no data map in '' @ p)), root)
       | Some data \<Rightarrow> (case (case edit data of (c, d) \<Rightarrow> (Inr c, d)) of (r, data') \<Rightarrow> (r, mapUpdate root ''data'' (\<lambda>_. data')))) =
     data_edit p edit"
  by (rule ext) (simp add: data_edit_def split: option.split prod.split)

lemma data_setters:
  "SetData y g p k v = mutateRaw y g p (data_edit p (\<lambda>data. upsertData data k v))"
  "DeleteData y g p k = mutateRaw y g p (data_edit p (\<lambda>data. deleteData data k))"
  "ReplaceData y g p m = mutateRaw y g p (data_edit p (\<lambda>data. replaceData data m))"
  unfolding SetData_def DeleteData_def ReplaceData_def git_mutate_def data_edit_eq by (rule refl)+

lemma data_edit_keeps:
  assumes "well_typed root"
    and "edit = (\<lambda>data. upsertData data k v) \<or> edit = (\<lambda>data. deleteData data k) \<or> edit = (\<lambda>data. replaceData data m)"
  shows "well_typed (snd (data_edit p edit root))"
proof (cases "mapValue root ''data''")
  case (Some data)
  obtain c d where d: "edit data = (c, d)" by (cases "edit data")
  have "well_typed d" using assms(2) d mapValue_typed [OF Some assms(1)] upsertData_typed deleteData_typed replaceData_typed
    by blast
  then show ?thesis using Some d mapUpdate_typed [OF assms(1), of "\<lambda>_. d" "''data''"] by (simp add: data_edit_def)
qed (use assms(1) in \<open>simp add: data_edit_def\<close>)


definition config_map :: Node where
  "config_map = mapping [(''kind'', scalar ''ConfigMap''), (''metadata'', mapping [(''name'', scalar ''x'')]),
     (''data'', mapping [(''mods.txt'', scalar ''a-b''), (''V'', scalar ''1'')])]"



section \<open>Entirely or not at all\<close>

definition orderly :: "GitEnv \<Rightarrow> bool" where
  \<comment> \<open>the clone starts afresh, and a tree that was reset is reset\<close>
  "orderly g \<longleftrightarrow> ge_opened g = None \<and> ge_fail g ''clean'' = None \<and> ge_fail g ''head'' = None \<and> ge_fail g ''reset back'' = None"

definition published :: "Tree list \<Rightarrow> Git \<Rightarrow> bool" where
  \<comment> \<open>the clone holds one of these trees, with nothing uncommitted\<close>
  "published ts s \<longleftrightarrow> (case gt_clone s of
     None \<Rightarrow> True
   | Some c \<Rightarrow> map_of (cl_work c) = map_of (cl_head c) \<and> (\<exists>t\<in>set ts. map_of (cl_head c) = map_of t))"

definition unchanged :: "Tree list \<Rightarrow> Tree \<Rightarrow> Git \<Rightarrow> bool" where
  "unchanged ts r s \<longleftrightarrow> published ts s \<and> gt_remote s = r"

definition cloned :: "Tree list \<Rightarrow> Tree \<Rightarrow> Git \<Rightarrow> bool" where
  "cloned ts r s \<longleftrightarrow> unchanged ts r s \<and> gt_clone s \<noteq> None"

definition editing :: "Tree list \<Rightarrow> Tree \<Rightarrow> (string \<Rightarrow> bool) \<Rightarrow> Git \<Rightarrow> bool" where
  \<comment> \<open>in the middle of an operation: the working tree differs from the head at these paths only\<close>
  "editing ts r P s \<longleftrightarrow> gt_remote s = r \<and> (\<exists>c. gt_clone s = Some c \<and> (\<exists>t\<in>set ts. map_of (cl_head c) = map_of t) \<and>
     (\<forall>p. P p \<or> map_of (cl_work c) p = map_of (cl_head c) p))"

definition settled_as :: "Tree list \<Rightarrow> Tree \<Rightarrow> bool \<Rightarrow> Git \<Rightarrow> bool" where
  "settled_as ts r b s \<longleftrightarrow> (if b then published (gt_remote s # ts) s else unchanged ts r s)"

lemma unchanged_synced: "unchanged ts r s \<Longrightarrow> unchanged ts r (s\<lparr>gt_lastSync := t\<rparr>)"
  by (simp add: unchanged_def published_def)

lemma cloned_editing: "cloned ts r s \<Longrightarrow> editing ts r P s"
  by (auto simp: cloned_def unchanged_def published_def editing_def)

lemma published_reset: "t \<in> set ts \<Longrightarrow> published ts (s\<lparr>gt_clone := Some \<lparr>cl_head = t, cl_work = t\<rparr>\<rparr>)"
  by (auto simp: published_def)

lemma syncRemote_wp:
  assumes "orderly g" and "unchanged ts r s" and "r \<in> set ts"
  shows "wp (syncRemote g) (\<lambda>_. cloned ts r) (\<lambda>_. unchanged ts r) s"
  using assms
  by (auto simp: syncRemote_def ensureClone_def wp may_fail_def synced_def reset_to_def on_clone_def orderly_def
      cloned_def unchanged_def published_def head_tree_def split: option.split)

lemma cleanWorktree_wp:
  assumes "orderly g" and "editing ts r P s"
  shows "wp (cleanWorktree g) (\<lambda>_. unchanged ts r) E s"
  using assms
  by (auto simp: cleanWorktree_def wp on_clone_def orderly_def editing_def unchanged_def published_def)

lemma wp_cleaned:
  assumes "orderly g" and "wp m Q (\<lambda>_. editing ts r P) s"
  shows "wp (cleanup m (cleanWorktree g)) Q (\<lambda>_. unchanged ts r) s"
  unfolding wp_cleanup using assms(2)
  by (rule wp_mono) (auto intro: cleanWorktree_wp [OF assms(1)])

lemma map_of_stage: "map_of (stage work p t) q = (if q = p then map_of work p else map_of t q)"
  by (auto simp: stage_def map_of_update map_of_delete split: option.split)

lemma map_of_stages: "map_of (fold (stage work) ps t) q = (if q \<in> set ps then map_of work q else map_of t q)"
  by (induction ps arbitrary: t) (auto simp: map_of_stage)

lemma commit_push_wp:
  assumes "orderly g" and "editing ts r (\<lambda>p. p \<in> set ps) s"
  shows "wp (commit_push g ps) (settled_as ts r) (\<lambda>_. unchanged ts r) s"
proof -
  obtain c where c: "gt_clone s = Some c" "\<exists>t\<in>set ts. map_of (cl_head c) = map_of t" "gt_remote s = r"
      and same: "\<forall>p. p \<in> set ps \<or> map_of (cl_work c) p = map_of (cl_head c) p"
    using assms(2) unfolding editing_def by blast
  have new: "map_of (fold (stage (cl_work c)) ps (cl_head c)) = map_of (cl_work c)"
    using same by (auto simp: map_of_stages fun_eq_iff)
  have clean: "wp (cleanWorktree g) (\<lambda>_. unchanged ts r) E s" for E by (rule cleanWorktree_wp [OF assms])
  show ?thesis
    using assms(1) c new clean
    by (auto simp: commit_push_def wp may_fail_def on_clone_def reset_to_def synced_def orderly_def settled_as_def
        unchanged_def published_def head_tree_def split: option.split elim!: wp_mono)
qed

lemma commit_edit_wp:
  assumes g: "orderly g" and s: "unchanged ts r s" and r: "r \<in> set ts"
    and edit: "\<And>s. cloned ts r s \<Longrightarrow> wp edit (\<lambda>_. cloned ts r) (\<lambda>_. cloned ts r) s"
  shows "wp (commit_edit y g p edit) (settled_as ts r) (\<lambda>_. unchanged ts r) s"
proof -
  have rd: "wp (cleanup edit (cleanWorktree g)) (\<lambda>_. cloned ts r) (\<lambda>_. unchanged ts r) s" if "cloned ts r s" for s
    by (rule wp_cleaned [OF g, where P = "\<lambda>_. False"], rule wp_mono [OF edit [OF that]]) (auto intro: cloned_editing)
  have wr: "wp (cleanup
            (bindo (of_sum (y_print y doc)) (\<lambda>out.
             seqo (write_work g p out)
             (seqo (may_fail g ''worktree again'') (may_fail g ''add''))))
            (cleanWorktree g)) (\<lambda>_. editing ts r (\<lambda>q. q \<in> set [p])) (\<lambda>_. unchanged ts r) s" if "cloned ts r s" for s doc
  proof (rule wp_cleaned [OF g, where P = "\<lambda>q. q = p"])
    have "editing ts r (\<lambda>q. q = p) s" by (rule cloned_editing [OF that])
    moreover have "editing ts r (\<lambda>q. q = p) (s\<lparr>gt_clone := map_option (\<lambda>x. x\<lparr>cl_work := AList.update p out (cl_work x)\<rparr>) (gt_clone s)\<rparr>)" for out
      using that by (auto simp: cloned_def unchanged_def published_def editing_def map_of_update)
    ultimately show "wp (bindo (of_sum (y_print y doc)) (\<lambda>out.
             seqo (write_work g p out)
             (seqo (may_fail g ''worktree again'') (may_fail g ''add''))))
        (\<lambda>_. editing ts r (\<lambda>q. q \<in> set [p])) (\<lambda>_. editing ts r (\<lambda>q. q = p)) s"
      by (auto simp: wp write_work_def may_fail_def on_clone_def split: sum.split option.split)
  qed
  have rest: "wp (case edited of
        None \<Rightarrow> ret False
      | Some doc \<Rightarrow>
          seqo (cleanup
            (bindo (of_sum (y_print y doc)) (\<lambda>out.
             seqo (write_work g p out)
             (seqo (may_fail g ''worktree again'') (may_fail g ''add''))))
            (cleanWorktree g))
          (commit_push g [p])) (settled_as ts r) (\<lambda>_. unchanged ts r) s" if "cloned ts r s" for s edited
  proof (cases edited)
    case None
    then show ?thesis using that by (simp add: wp settled_as_def cloned_def)
  next
    case (Some doc)
    show ?thesis unfolding Some option.case wp_seqo
      by (rule wp_mono [OF wr [OF that]]) (auto intro: commit_push_wp [OF g])
  qed
  show ?thesis unfolding commit_edit_def wp_seqo
  proof (rule wp_mono [OF syncRemote_wp [OF g s r]], goal_cases)
    case (1 x s')
    show ?case unfolding wp_bindo by (rule wp_mono [OF rd [OF 1]]) (use rest in auto)
  qed
qed

lemma mutateRaw_wp:
  assumes "orderly g" and "unchanged ts r s" and "r \<in> set ts"
  shows "wp (mutateRaw y g p f) (settled_as ts r) (\<lambda>_. unchanged ts r) s"
  unfolding mutateRaw_def read_nodes_def
  by (rule commit_edit_wp [OF assms]) (auto simp: wp split: sum.split list.split prod.split)

lemma Git_PatchKey_wp:
  assumes "orderly g" and "unchanged ts r s" and "r \<in> set ts"
  shows "wp (Git_PatchKey y g p key transform) (settled_as ts r) (\<lambda>_. unchanged ts r) s"
  unfolding Git_PatchKey_def read_nodes_def
  by (rule commit_edit_wp [OF assms]) (auto simp: wp split: sum.split option.split)

lemma Git_ReadFile_wp:
  assumes "orderly g" and "unchanged ts r s" and "r \<in> set ts"
  shows "wp (Git_ReadFile g p) (\<lambda>_. unchanged ts r) (\<lambda>_. unchanged ts r) s"
proof -
  have "wp (syncRemote g) (\<lambda>_ s'. unchanged ts r s') (\<lambda>_. unchanged ts r) s"
    by (rule wp_mono [OF syncRemote_wp [OF assms]]) (auto simp: cloned_def)
  then show ?thesis using assms(2)
    by (auto simp: Git_ReadFile_def wp elim!: wp_mono split: sum.split)
qed

section \<open>Directories\<close>

definition clean_dir :: "string \<Rightarrow> bool" where
  \<comment> \<open>a directory below the top of the repository\<close>
  "clean_dir d \<longleftrightarrow> d \<noteq> ''.'' \<and> trim_slashes d = d"

lemma clean_dir_under: "clean_dir d \<Longrightarrow> under_path d p \<longleftrightarrow> has_prefix p (trim_slashes d @ ''/'') \<or> p = trim_slashes d"
  by (auto simp: clean_dir_def under_path_def tree_dir_def)

lemma commit_under_wp:
  assumes "orderly g" and "clean_dir d" and "editing ts r (under_path d) s"
  shows "wp (commit_under g d) (settled_as ts r) (\<lambda>_. unchanged ts r) s"
proof -
  obtain c where c: "gt_clone s = Some c" using assms(3) by (auto simp: editing_def)
  have all: "editing ts r (\<lambda>p. p \<in> set (changed_under c d)) s"
  proof -
    have "map_of (cl_work c) p = map_of (cl_head c) p" if "p \<notin> set (changed_under c d)" for p
    proof (cases "p \<in> fst ` set (cl_work c) \<union> fst ` set (cl_head c)")
      case True
      then show ?thesis using that assms(2,3) c clean_dir_under [OF assms(2), of p]
        by (auto simp: changed_under_def editing_def)
    next
      case False
      then have "map_of (cl_work c) p = None" "map_of (cl_head c) p = None" by (auto simp: map_of_eq_None_iff)
      then show ?thesis by simp
    qed
    then show ?thesis using assms(3) c by (auto simp: editing_def)
  qed
  have none: "unchanged ts r s" if "changed_under c d = []"
    using all that c by (auto simp: editing_def unchanged_def published_def)
  have clean: "wp (cleanWorktree g) (\<lambda>_. unchanged ts r) E s" for E by (rule cleanWorktree_wp [OF assms(1,3)])
  show ?thesis
    using c none clean commit_push_wp [OF assms(1) all]
    by (auto simp: commit_under_def wp may_fail_def settled_as_def split: option.split elim!: wp_mono)
qed


lemma has_prefix_tree_dir: "clean_dir d \<Longrightarrow> under_path d (tree_dir d @ name)"
  using has_prefix_append [of "tree_dir d" name] by (simp add: under_path_def)

lemma map_of_kept: "map_of (filter (\<lambda>(p, _). Q p) t) p = (if Q p then map_of t p else None)"
  using map_of_filter_key [of Q t p] by (simp add: case_prod_unfold)

lemma dropped_editing:
  "editing ts r (under_path d) s \<Longrightarrow> \<forall>p. Q p \<or> under_path d p \<Longrightarrow>
   editing ts r (under_path d)
     (s\<lparr>gt_clone := map_option (\<lambda>c. c\<lparr>cl_work := filter (\<lambda>(p, _). Q p) (cl_work c)\<rparr>) (gt_clone s)\<rparr>)"
  by (auto simp: editing_def map_of_kept)

lemma drop_unlisted_editing:
  assumes "editing ts r (under_path d) s" and "clean_dir d"
  shows "editing ts r (under_path d) (s\<lparr>gt_clone := map_option (drop_unlisted g d files) (gt_clone s)\<rparr>)"
proof -
  obtain c where c: "gt_clone s = Some c" using assms(1) by (auto simp: editing_def)
  let ?Q = "\<lambda>p. \<not> (p \<in> set (dir_files (cl_work c) d) \<and> p \<notin> (\<lambda>(n, _). tree_dir d @ n) ` set files \<and>
          ge_fail g (''remove '' @ p) = None)"
  have "\<forall>p. ?Q p \<or> under_path d p" by (auto simp: dir_files_def under_path_def)
  from dropped_editing [OF assms(1) this] show ?thesis using c by (simp add: drop_unlisted_def)
qed

lemma write_missing_editing:
  assumes "editing ts r (under_path d) s" and "clean_dir d"
  shows "wp (write_missing g d nc) (\<lambda>_. editing ts r (under_path d)) (\<lambda>_. editing ts r (under_path d)) s"
proof -
  obtain name content where nc: "nc = (name, content)" by (cases nc)
  have "editing ts r (under_path d)
      (s\<lparr>gt_clone := map_option (\<lambda>x. x\<lparr>cl_work := AList.update (tree_dir d @ name) content (cl_work x)\<rparr>) (gt_clone s)\<rparr>)"
    using assms(1) has_prefix_tree_dir [OF assms(2)] by (auto simp: editing_def map_of_update)
  then show ?thesis using assms(1) nc
    by (auto simp: write_missing_def write_work_def may_fail_def on_clone_def wp split: option.split)
qed

lemma WriteDirectory_wp:
  assumes g: "orderly g" and "unchanged ts r s" and "r \<in> set ts" and d: "clean_dir d"
  shows "wp (WriteDirectory g d files) (settled_as ts r) (\<lambda>_. unchanged ts r) s"
proof -
  have files: "wp (cleanup (forO (write_missing g d) files) (cleanWorktree g)) (\<lambda>_. editing ts r (under_path d)) (\<lambda>_. unchanged ts r) s"
    if "editing ts r (under_path d) s" for s
    by (rule wp_cleaned [OF g], rule wp_forO) (use that write_missing_editing d in auto)
  have start: "wp (cleanup (may_fail g ''mkdir'') (cleanWorktree g)) (\<lambda>_. editing ts r (under_path d)) (\<lambda>_. unchanged ts r) s"
    if "cloned ts r s" for s
    by (rule wp_cleaned [OF g]) (use cloned_editing [OF that] in \<open>auto simp: may_fail_def wp split: option.split\<close>)
  show ?thesis unfolding WriteDirectory_def wp_seqo
  proof (rule wp_mono [OF syncRemote_wp [OF assms(1-3)]], goal_cases)
    case (1 x s')
    show ?case
    proof (rule wp_mono [OF start [OF 1]], goal_cases)
      case (1 x s')
      have "editing ts r (under_path d) (s'\<lparr>gt_clone := map_option (drop_unlisted g d files) (gt_clone s')\<rparr>)"
        by (rule drop_unlisted_editing [OF 1 d])
      then show ?case unfolding on_clone_def wp_modify
        by (intro wp_mono [OF files]) (auto intro: commit_under_wp [OF g d])
    qed
  qed
qed

lemma DeleteDirectory_wp:
  assumes g: "orderly g" and "unchanged ts r s" and "r \<in> set ts" and d: "clean_dir d"
  shows "wp (DeleteDirectory g d) (settled_as ts r) (\<lambda>_. unchanged ts r) s"
proof -
  have rm: "wp (cleanup
               (case ge_fail g ''remove all'' of
                  None \<Rightarrow> on_clone (\<lambda>c. c\<lparr>cl_work := filter (\<lambda>(p, _). \<not> under_path d p) (cl_work c)\<rparr>)
                | Some e \<Rightarrow>
                    seqo (on_clone (\<lambda>c. c\<lparr>cl_work := filter (\<lambda>(p, _). \<not> (under_path d p \<and> ge_gone g p)) (cl_work c)\<rparr>))
                      (fail e))
               (cleanWorktree g)) (\<lambda>_. editing ts r (under_path d)) (\<lambda>_. unchanged ts r) s" if "cloned ts r s" for s
  proof (rule wp_cleaned [OF g, where P = "under_path d"])
    have e: "editing ts r (under_path d) s" by (rule cloned_editing [OF that])
    show "wp (case ge_fail g ''remove all'' of
                  None \<Rightarrow> on_clone (\<lambda>c. c\<lparr>cl_work := filter (\<lambda>(p, _). \<not> under_path d p) (cl_work c)\<rparr>)
                | Some e \<Rightarrow>
                    seqo (on_clone (\<lambda>c. c\<lparr>cl_work := filter (\<lambda>(p, _). \<not> (under_path d p \<and> ge_gone g p)) (cl_work c)\<rparr>))
                      (fail e)) (\<lambda>_. editing ts r (under_path d)) (\<lambda>_. editing ts r (under_path d)) s"
      using dropped_editing [OF e, of "\<lambda>p. \<not> under_path d p"] dropped_editing [OF e, of "\<lambda>p. \<not> (under_path d p \<and> ge_gone g p)"]
      by (auto simp: on_clone_def wp split: option.split)
  qed
  show ?thesis unfolding DeleteDirectory_def wp_seqo
  proof (rule wp_mono [OF syncRemote_wp [OF assms(1-3)]], goal_cases)
    case (1 x s')
    show ?case
    proof (cases "list_ex (under_path d) (map fst (work_tree s'))")
      case True
      show ?thesis unfolding wp_bindo wp_gets using True
        by (simp add: wp_seqo) (rule wp_mono [OF rm [OF 1]]; auto intro: commit_under_wp [OF g d])
    next
      case False
      then show ?thesis using 1 by (simp add: wp settled_as_def cloned_def)
    qed
  qed
qed

section \<open>Histories\<close>

datatype GitCall =
    CallSet string string string
  | CallUnset string string
  | CallReplace string "(string \<times> string) list"
  | CallConfigMap string "(string \<times> string) list" "(string \<times> string) list"
  | CallPatch string MapEdit
  | CallPatchKey string string "string \<Rightarrow> goerr + string"
  | CallWrite string "(string \<times> string) list"
  | CallDelete string
  | CallRead string

fun git_call :: "Yaml \<Rightarrow> GitEnv \<Rightarrow> GitCall \<Rightarrow> bool gop" where
  "git_call y g (CallSet p k v) = SetData y g p k v"
| "git_call y g (CallUnset p k) = DeleteData y g p k"
| "git_call y g (CallReplace p m) = ReplaceData y g p m"
| "git_call y g (CallConfigMap p m nts) = ReplaceConfigMap y g p m nts"
| "git_call y g (CallPatch p f) = PatchDocument y g p f"
| "git_call y g (CallPatchKey p k f) = Git_PatchKey y g p k f"
| "git_call y g (CallWrite d files) = WriteDirectory g d files"
| "git_call y g (CallDelete d) = DeleteDirectory g d"
| "git_call y g (CallRead p) = bindo (Git_ReadFile g p) (\<lambda>_. ret False)"

fun proper :: "GitCall \<Rightarrow> bool" where
  \<comment> \<open>directories are written and deleted below the top only\<close>
  "proper (CallWrite d files) = clean_dir d"
| "proper (CallDelete d) = clean_dir d"
| "proper call = True"

lemma git_call_wp:
  assumes "orderly g" and "unchanged ts r s" and "r \<in> set ts" and "proper call"
  shows "wp (git_call y g call) (settled_as ts r) (\<lambda>_. unchanged ts r) s"
proof (cases call)
  case (CallRead p)
  show ?thesis unfolding CallRead git_call.simps wp_bindo
    by (rule wp_mono [OF Git_ReadFile_wp [OF assms(1-3)]]) (auto simp: wp settled_as_def)
qed (use assms mutateRaw_wp [OF assms(1-3)] Git_PatchKey_wp [OF assms(1-3)] WriteDirectory_wp [OF assms(1-3)]
      DeleteDirectory_wp [OF assms(1-3)]
    in \<open>auto simp: SetData_def DeleteData_def ReplaceData_def git_mutate_def ReplaceConfigMap_def PatchDocument_def mutateDoc_def\<close>)

inductive git_history :: "Yaml \<Rightarrow> Tree list \<Rightarrow> Git \<Rightarrow> bool" for y where
  \<comment> \<open>with the trees the remote has had, the latest first\<close>
  fresh: "git_history y [t] \<lparr>gt_remote = t, gt_clone = None, gt_lastSync = 0\<rparr>"
| others: "git_history y ts s \<Longrightarrow> git_history y (t # ts) (s\<lparr>gt_remote := t\<rparr>)"
| call: "git_history y ts s \<Longrightarrow> orderly g \<Longrightarrow> proper c \<Longrightarrow> git_call y g c s = (r, s') \<Longrightarrow>
    git_history y (gt_remote s' # ts) s'"

lemma published_mono: "published ts s \<Longrightarrow> set ts \<subseteq> set us \<Longrightarrow> published us s"
  by (auto simp: published_def split: option.splits)

lemma git_history_inv: "git_history y ts s \<Longrightarrow> published ts s \<and> gt_remote s \<in> set ts"
proof (induction rule: git_history.induct)
  case (fresh t)
  then show ?case by (simp add: published_def)
next
  case (others ts s t)
  then have "published ts (s\<lparr>gt_remote := t\<rparr>)" by (simp add: published_def)
  then show ?case using published_mono [of ts _ "t # ts"] by auto
next
  case (call ts s g c r s')
  have "wp (git_call y g c) (settled_as ts (gt_remote s)) (\<lambda>_. unchanged ts (gt_remote s)) s"
    by (rule git_call_wp) (use call in \<open>auto simp: unchanged_def\<close>)
  then have "published (gt_remote s' # ts) s'" using call.hyps(4) published_mono [of ts s' "gt_remote s' # ts"]
    by (auto simp: wp_def settled_as_def unchanged_def split: res.splits if_splits)
  then show ?case by simp
qed




section \<open>The contract of the store\<close>

definition map_edit :: "Mutate \<Rightarrow> MapEdit" where
  "map_edit mutate data nts =
     (case mutate \<lparr>Data = Some data, Annotations = Some nts, Raw = ''''\<rparr> of
        (r, doc) \<Rightarrow> (r, case Data doc of None \<Rightarrow> [] | Some m \<Rightarrow> m, case Annotations doc of None \<Rightarrow> [] | Some m \<Rightarrow> m))"

lemma map_edit_edits:
  assumes "edits f key edit"
  shows "map_edit f data nts = (case edit (mget data key '''') of
     None \<Rightarrow> (Inr False, data, nts) | Some t \<Rightarrow> (Inr True, AList.update key t data, nts))"
  using assms by (simp add: map_edit_def edits_def data_get_def data_put_def split: option.split)

lemma doc_data_mapping:
  "doc_data root = Some m \<Longrightarrow> \<exists>data. mapValue root ''data'' = Some data \<and> n_kind data = MappingNode \<and> m = node_entries data"
  by (auto simp: doc_data_def mapping_entries_def split: option.splits if_splits)

lemma replaced_annotations:
  assumes "mapValue root ''metadata'' = Some meta" and "doc_annotations root = Some nts"
    and "replace_annotations meta nts = (a, c, meta')"
  shows "mapValue meta' ''annotations'' = Some m \<Longrightarrow> entry_of (mapping_entries (Some m)) = map_of nts"
    and "mapValue meta' ''annotations'' \<noteq> None" and "distinct (map fst nts)"
proof -
  obtain old where old: "mapValue meta ''annotations'' = Some old" "n_kind old = MappingNode" "nts = node_entries old"
    using assms(1,2) by (auto simp: doc_annotations_def mapping_entries_def split: option.splits if_splits)
  obtain c' n where n: "replaceData old nts = (c', n)" by (cases "replaceData old nts")
  then have "meta' = mapUpdate meta ''annotations'' (\<lambda>_. n)" using assms(3) old by (simp add: replace_annotations_def)
  then have m: "mapValue meta' ''annotations'' = Some n" using old by (simp add: mapValue_mapUpdate)
  then show "mapValue meta' ''annotations'' \<noteq> None" by simp
  show "mapValue meta' ''annotations'' = Some m \<Longrightarrow> entry_of (mapping_entries (Some m)) = map_of nts"
    using m replaceData_entries [OF n old(2)] by (simp add: mapping_entries_of)
  show "distinct (map fst nts)" using old node_entries_keys by simp
qed

lemma patch_maps_edit:
  assumes f: "edits f key edit" and data: "doc_data root = Some m"
    and run: "patch_maps p (map_edit f) root = (Inr c, root')"
  shows "entry_of (doc_data root') = (case edit (mget m key '''') of None \<Rightarrow> map_of m | Some t \<Rightarrow> (map_of m)(key \<mapsto> t)) \<and>
    entry_of (doc_annotations root') = entry_of (doc_annotations root) \<and>
    (\<not> c \<longrightarrow> entry_of (doc_data root') = map_of m)"
proof -
  obtain old where old: "mapValue root ''data'' = Some old" "n_kind old = MappingNode" "m = node_entries old"
    using doc_data_mapping [OF data] by blast
  let ?nts = "case doc_annotations root of None \<Rightarrow> [] | Some m \<Rightarrow> m"
  show ?thesis
  proof (cases "edit (mget m key '''')")
    case None
    then have "root' = root" "\<not> c" using run old map_edit_edits [OF f, of m ?nts] by (auto simp: patch_maps_def)
    then show ?thesis using None data by (simp add: entry_of_def fun_eq_iff)
  next
    case (Some t)
    obtain ch d where d: "replaceData old (AList.update key t m) = (ch, d)" by (cases "replaceData old (AList.update key t m)")
    have de: "n_kind d = MappingNode" "map_of (node_entries d) = (map_of m)(key \<mapsto> t)" "\<not> ch \<longrightarrow> d = old"
      using replaceData_entries [OF d old(2)] by (auto simp: update_conv)
    define r1 where "r1 = mapUpdate root ''data'' (\<lambda>_. d)"
    have r1: "mapValue r1 ''data'' = Some d" "mapValue r1 ''metadata'' = mapValue root ''metadata''"
      using old by (simp_all add: r1_def mapValue_mapUpdate)
    have data1: "entry_of (doc_data x) = (map_of m)(key \<mapsto> t)" if "mapValue x ''data'' = Some d" for x
      using that de by (simp add: doc_data_def mapping_entries_of)
    have run1: "(Inr c :: goerr + bool, root') = (case mapValue root ''metadata'' of
          None \<Rightarrow> (Inr ch, r1)
        | Some meta \<Rightarrow> (if ?nts = [] then (Inr ch, r1)
            else case replace_annotations meta ?nts of (_, c, meta') \<Rightarrow> (Inr (ch \<or> c), mapUpdate r1 ''metadata'' (\<lambda>_. meta'))))"
      using run old d Some map_edit_edits [OF f, of m ?nts] r1(2)
      unfolding patch_maps_def Let_def r1_def by simp
    have plain: ?thesis if "root' = r1" "c = ch"
      using that de old(3) r1 data1 [of r1] Some by (auto simp: doc_annotations_def)
    show ?thesis
    proof (cases "mapValue root ''metadata'' = None \<or> ?nts = []")
      case True
      then show ?thesis using run1 plain by (auto split: option.splits)
    next
      case False
      then obtain meta nts where meta: "mapValue root ''metadata'' = Some meta" "doc_annotations root = Some nts" "nts \<noteq> []"
        by (auto split: option.splits)
      obtain a c' meta' where ra: "replace_annotations meta nts = (a, c', meta')" by (cases "replace_annotations meta nts")
      then have root': "root' = mapUpdate r1 ''metadata'' (\<lambda>_. meta')" "c = (ch \<or> c')" using run1 meta by auto
      have "mapValue root' ''metadata'' = Some meta'" "mapValue root' ''data'' = Some d"
        using root' r1 meta by (simp_all add: mapValue_mapUpdate)
      moreover obtain n where "mapValue meta' ''annotations'' = Some n"
        using replaced_annotations(2) [OF meta(1,2) ra] by auto
      ultimately have "entry_of (doc_annotations root') = map_of nts"
        using replaced_annotations(1) [OF meta(1,2) ra] by (simp add: doc_annotations_def)
      then show ?thesis
        using data1 [of root'] \<open>mapValue root' ''data'' = Some d\<close> Some meta(2) root'(2) de old(3)
        by (auto simp: entry_of_Some)
    qed
  qed
qed

lemma syncRemote_remote:
  assumes "orderly g" and "ge_fail g ''remote ref'' = None"
  shows "wp (syncRemote g)
    (\<lambda>_ s'. gt_remote s' = gt_remote s \<and>
       (gt_clone s' = Some \<lparr>cl_head = gt_remote s, cl_work = gt_remote s\<rparr>)) (\<lambda>_ _. True) s"
  using assms
  by (auto simp: syncRemote_def ensureClone_def wp may_fail_def synced_def reset_to_def on_clone_def orderly_def split: option.split)


lemma commit_push_remote:
  assumes "gt_clone s \<noteq> None"
  shows "wp (commit_push g ps) (\<lambda>b s'. b \<and> gt_remote s' = fold (stage (work_tree s)) ps (head_tree s)) (\<lambda>_ _. True) s"
  using assms
  by (auto simp: commit_push_def cleanWorktree_def wp may_fail_def on_clone_def reset_to_def synced_def head_tree_def work_tree_def
      split: option.split)

definition edited_remote :: "Yaml \<Rightarrow> Git \<Rightarrow> string \<Rightarrow> Node list option gop \<Rightarrow> bool \<Rightarrow> Git \<Rightarrow> bool" where
  \<comment> \<open>what an edit of a file has published\<close>
  "edited_remote y s p edit b s' \<longleftrightarrow> (\<exists>s1 ed. work_tree s1 = gt_remote s \<and> edit s1 = (Ok ed, s1) \<and>
     (case ed of
        None \<Rightarrow> \<not> b \<and> gt_remote s' = gt_remote s
      | Some doc \<Rightarrow> b \<and> (\<exists>out. y_print y doc = Inr out \<and>
          (\<forall>q. map_of (gt_remote s') q = (if q = p then Some out else map_of (gt_remote s) q)))))"

lemma commit_edit_remote:
  assumes g: "orderly g" "ge_fail g ''remote ref'' = None"
    and edit: "\<And>s. \<exists>r. edit s = (r, s) \<and> (\<forall>m. r \<noteq> Crash m)"
  shows "wp (commit_edit y g p edit) (edited_remote y s p edit) (\<lambda>_ _. True) s"
  unfolding commit_edit_def wp_seqo
proof (rule wp_mono [OF syncRemote_remote [OF g, of s]], goal_cases)
  case (1 x s1)
  then have s1: "gt_remote s1 = gt_remote s" "gt_clone s1 = Some \<lparr>cl_head = gt_remote s, cl_work = gt_remote s\<rparr>" by auto
  obtain r where r: "edit s1 = (r, s1)" "\<forall>m. r \<noteq> Crash m" using edit by blast
  show ?case
  proof (cases r)
    case (Ok ed)
    have fin: "wp (case ed of
        None \<Rightarrow> ret False
      | Some doc \<Rightarrow>
          seqo (cleanup
            (bindo (of_sum (y_print y doc)) (\<lambda>out.
             seqo (write_work g p out)
             (seqo (may_fail g ''worktree again'') (may_fail g ''add''))))
            (cleanWorktree g))
          (commit_push g [p])) (edited_remote y s p edit) (\<lambda>_ _. True) s1"
    proof (cases ed)
      case None
      have "edited_remote y s p edit False s1" unfolding edited_remote_def
        by (rule exI [of _ s1], rule exI [of _ None]) (use s1 r Ok None in \<open>simp add: work_tree_def\<close>)
      then show ?thesis using None by (simp add: wp)
    next
      case (Some doc)
      have push: "wp (commit_push g [p]) (edited_remote y s p edit) (\<lambda>_ _. True)
          (s1\<lparr>gt_clone := Some \<lparr>cl_head = gt_remote s, cl_work = AList.update p out (gt_remote s)\<rparr>\<rparr>)"
        if out: "y_print y doc = Inr out" for out
      proof (rule wp_mono [OF commit_push_remote], goal_cases)
        case (2 b s2)
        then have "b" "\<forall>q. map_of (gt_remote s2) q = (if q = p then Some out else map_of (gt_remote s) q)"
          by (auto simp: work_tree_def head_tree_def map_of_stage map_of_update)
        moreover have "work_tree s1 = gt_remote s" "edit s1 = (Ok (Some doc), s1)" using s1 r Ok Some by (simp_all add: work_tree_def)
        ultimately show ?case using out unfolding edited_remote_def by force
      qed simp_all
      show ?thesis unfolding Some using push s1
        by (auto simp: wp write_work_def may_fail_def on_clone_def cleanWorktree_def split: sum.split option.split)
    qed
    show ?thesis using fin r Ok by (simp add: wp wp_def [of edit])
  next
    case (Err e)
    then show ?thesis using r by (simp add: wp wp_def [of edit]) (simp add: cleanWorktree_def wp on_clone_def)
  qed (use r in simp)
qed

lemma mutateRaw_remote:
  assumes "orderly g" "ge_fail g ''remote ref'' = None" and run: "mutateRaw y g p f s = (Ok b, s')"
  shows "\<exists>raw root rest root'. map_of (gt_remote s) p = Some raw \<and> y_parse y raw = Inr (root # rest) \<and> f root = (Inr b, root') \<and>
    (if b then \<exists>out. y_print y (root' # rest) = Inr out \<and>
        (\<forall>q. map_of (gt_remote s') q = (if q = p then Some out else map_of (gt_remote s) q))
     else gt_remote s' = gt_remote s)"
proof -
  define edit where "edit = bindo (read_nodes y g p) (\<lambda>doc.
          case doc of
            [] \<Rightarrow> fail (Errorf (''empty yaml '' @ p))
          | root # rest \<Rightarrow>
              (case f root of
                 (Inl e, _) \<Rightarrow> fail e
               | (Inr changed, root') \<Rightarrow> ret (if changed then Some (root' # rest) else None)))"
  have pure: "\<exists>r. edit s = (r, s) \<and> (\<forall>m. r \<noteq> Crash m)" for s
    by (auto simp: edit_def read_nodes_def op_defs split: sum.split list.split prod.split)
  have "edited_remote y s p edit b s'"
    by (rule wp_run [OF commit_edit_remote [OF assms(1,2) pure]]) (use run in \<open>simp add: mutateRaw_def edit_def\<close>)
  then obtain s1 ed where s1: "work_tree s1 = gt_remote s" "edit s1 = (Ok ed, s1)"
    and ed: "case ed of None \<Rightarrow> \<not> b \<and> gt_remote s' = gt_remote s
      | Some doc \<Rightarrow> b \<and> (\<exists>out. y_print y doc = Inr out \<and>
          (\<forall>q. map_of (gt_remote s') q = (if q = p then Some out else map_of (gt_remote s) q)))"
    unfolding edited_remote_def by blast
  obtain raw root rest changed root' where "map_of (gt_remote s) p = Some raw" "y_parse y raw = Inr (root # rest)"
    "f root = (Inr changed, root')" "ed = (if changed then Some (root' # rest) else None)"
    using s1 by (auto simp: edit_def read_nodes_def op_defs read_work_def split: sum.splits list.splits prod.splits option.splits)
  then show ?thesis using ed by (intro exI conjI) (auto split: if_splits)
qed


definition remote_text :: "Yaml \<Rightarrow> Git \<Rightarrow> string \<Rightarrow> string \<Rightarrow> string" where
  "remote_text y s p k = (case map_of (gt_remote s) p of None \<Rightarrow> '''' | Some raw \<Rightarrow> data_get (document_of y raw) k)"

definition git_sims :: "Yaml \<Rightarrow> Git \<Rightarrow> Store \<Rightarrow> bool" where
  \<comment> \<open>the remote branch and the in-memory store hold the same texts\<close>
  "git_sims y s m \<longleftrightarrow> (\<forall>p k. remote_text y s p k = mem.text_of m p k)"

lemma document_of_parsed: "y_parse y raw = Inr (root # rest) \<Longrightarrow>
    Data (document_of y raw) = doc_data root \<and> Annotations (document_of y raw) = doc_annotations root"
  by (simp add: document_of_def)

lemma GitState_Patch_remote:
  assumes g: "orderly g" "ge_fail g ''remote ref'' = None" and y: "print_ok y" and f: "edits f key edit"
    and config: "\<forall>raw. map_of (gt_remote s) p = Some raw \<longrightarrow> Data (document_of y raw) \<noteq> None"
    and run: "GitState_Patch y g p f s = (Ok c, s')"
  obtains raw raw' where "map_of (gt_remote s) p = Some raw" "map_of (gt_remote s') p = Some raw'"
    "\<forall>k. remote_text y s' p k = (case edit (remote_text y s p key) of
       None \<Rightarrow> remote_text y s p k | Some t \<Rightarrow> if k = key then t else remote_text y s p k)"
    "entry_of (Annotations (document_of y raw')) = entry_of (Annotations (document_of y raw))"
    "\<forall>q. q \<noteq> p \<longrightarrow> map_of (gt_remote s') q = map_of (gt_remote s) q"
    "c \<Longrightarrow> edit (remote_text y s p key) \<noteq> None"
proof -
  have "mutateRaw y g p (patch_maps p (map_edit f)) s = (Ok c, s')"
    using run by (simp add: GitState_Patch_def PatchDocument_def mutateDoc_def map_edit_def [abs_def])
  from mutateRaw_remote [OF g this] obtain raw root rest root' where raw: "map_of (gt_remote s) p = Some raw"
      "y_parse y raw = Inr (root # rest)" "patch_maps p (map_edit f) root = (Inr c, root')"
    and new: "if c then \<exists>out. y_print y (root' # rest) = Inr out \<and>
        (\<forall>q. map_of (gt_remote s') q = (if q = p then Some out else map_of (gt_remote s) q))
     else gt_remote s' = gt_remote s" by blast
  obtain m where m: "doc_data root = Some m" using config raw document_of_parsed [OF raw(2)] by fastforce
  note ed = patch_maps_edit [OF f m raw(3)]
  have old: "remote_text y s p k = mget m k ''''" for k
    using raw m document_of_parsed [OF raw(2)] by (simp add: remote_text_def data_get_def)
  obtain out where out: "map_of (gt_remote s') p = Some out" "\<forall>q. q \<noteq> p \<longrightarrow> map_of (gt_remote s') q = map_of (gt_remote s) q"
      "entry_of (Data (document_of y out)) = entry_of (doc_data root')"
      "entry_of (Annotations (document_of y out)) = entry_of (doc_annotations root')"
  proof (cases c)
    case True
    then show ?thesis using new y that unfolding print_ok_def by fastforce
  next
    case False
    have "gt_remote s' = gt_remote s" using new False by simp
    moreover have "entry_of (doc_data root') = map_of m" using ed False by blast
    ultimately show ?thesis using that [of raw] raw(1) conjunct1 [OF conjunct2 [OF ed]] m document_of_parsed [OF raw(2)] by simp
  qed
  have texts: "remote_text y s' p k = (case edit (mget m key '''') of
       None \<Rightarrow> mget m k '''' | Some t \<Rightarrow> if k = key then t else mget m k '''')" for k
    using out(1,3) ed by (simp add: remote_text_def data_get_entry mget_def split: option.split)
  have "edit (mget m key '''') \<noteq> None" if c
  proof
    assume "edit (mget m key '''') = None"
    moreover obtain old where "mapValue root ''data'' = Some old" "m = node_entries old" using doc_data_mapping [OF m] by blast
    ultimately have "\<not> c" using raw(3) map_edit_edits [OF f, of m] by (simp add: patch_maps_def)
    then show False using that by simp
  qed
  then have changed: "c \<Longrightarrow> edit (remote_text y s p key) \<noteq> None" unfolding old .
  have "entry_of (Annotations (document_of y out)) = entry_of (Annotations (document_of y raw))"
    using out(4) conjunct1 [OF conjunct2 [OF ed]] document_of_parsed [OF raw(2)] by simp
  moreover have "\<forall>k. remote_text y s' p k = (case edit (remote_text y s p key) of
       None \<Rightarrow> remote_text y s p k | Some t \<Rightarrow> if k = key then t else remote_text y s p k)"
    unfolding old using texts by blast
  ultimately show thesis using that [OF raw(1) out(1) _ _ out(2) changed] by blast
qed



section \<open>What a directory holds\<close>

definition in_clone :: "Tree \<Rightarrow> Tree \<Rightarrow> (string \<Rightarrow> string option) \<Rightarrow> Git \<Rightarrow> bool" where
  \<comment> \<open>a clone at this head, whose working tree has these files\<close>
  "in_clone r h w s \<longleftrightarrow> gt_remote s = r \<and> (\<exists>c. gt_clone s = Some c \<and> cl_head c = h \<and> map_of (cl_work c) = w)"

lemma write_missing_run:
  assumes "in_clone r h w s"
  shows "wp (write_missing g d (name, content)) (\<lambda>_. in_clone r h (w(tree_dir d @ name \<mapsto> content))) (\<lambda>_ _. True) s"
proof -
  obtain c where c: "gt_remote s = r" "gt_clone s = Some c" "cl_head c = h" "map_of (cl_work c) = w"
    using assms by (auto simp: in_clone_def)
  have "in_clone r h (w(tree_dir d @ name \<mapsto> content)) s" if "read_work g s (tree_dir d @ name) = Inr content"
  proof -
    have "w (tree_dir d @ name) = Some content" using that c by (auto simp: read_work_def work_tree_def split: option.splits)
    then have "w(tree_dir d @ name \<mapsto> content) = w" by auto
    then show ?thesis using assms by simp
  qed
  moreover have "in_clone r h (w(tree_dir d @ name \<mapsto> content))
      (s\<lparr>gt_clone := Some (c\<lparr>cl_work := AList.update (tree_dir d @ name) content (cl_work c)\<rparr>)\<rparr>)"
    using c by (auto simp: in_clone_def update_conv)
  ultimately show ?thesis using c
    by (auto simp: write_missing_def write_work_def may_fail_def on_clone_def wp split: option.split)
qed

lemma write_files_run:
  assumes "in_clone r h w s"
  shows "wp (forO (write_missing g d) files)
    (\<lambda>_. in_clone r h (w ++ map_of (rev (map (\<lambda>(n, c). (tree_dir d @ n, c)) files)))) (\<lambda>_ _. True) s"
  using assms
proof (induction files arbitrary: w s)
  case Nil
  then show ?case by (simp add: wp)
next
  case (Cons nc files)
  obtain n c where nc: "nc = (n, c)" by (cases nc)
  show ?case unfolding forO.simps wp_seqo
  proof (rule wp_mono [OF write_missing_run [OF Cons.prems, of g d n c, folded nc]], goal_cases)
    case (1 x s')
    have "w ++ map_of (rev (map (\<lambda>(n, c). (tree_dir d @ n, c)) (nc # files))) =
        w(tree_dir d @ n \<mapsto> c) ++ map_of (rev (map (\<lambda>(n, c). (tree_dir d @ n, c)) files))"
      unfolding nc by (simp add: map_add_assoc)
    with Cons.IH [OF 1] show ?case by (simp only:)
  qed simp
qed

lemma commit_under_remote:
  assumes "clean_dir d" and "in_clone r h w s" and "map_of h = map_of r" and "\<forall>p. under_path d p \<or> w p = map_of r p"
  shows "wp (commit_under g d) (\<lambda>b s'. map_of (gt_remote s') = w) (\<lambda>_ _. True) s"
proof -
  obtain c where c: "gt_remote s = r" "gt_clone s = Some c" "cl_head c = h" "map_of (cl_work c) = w"
    using assms(2) by (auto simp: in_clone_def)
  have same: "w p = map_of h p" if "p \<notin> set (changed_under c d)" for p
  proof (cases "p \<in> fst ` set (cl_work c) \<union> fst ` set (cl_head c)")
    case True
    then show ?thesis using that assms(1,3,4) c clean_dir_under [OF assms(1), of p]
      by (auto simp: changed_under_def)
  next
    case False
    then have "map_of (cl_work c) p = None" "map_of (cl_head c) p = None" by (auto simp: map_of_eq_None_iff)
    then show ?thesis using c by simp
  qed
  have "map_of (fold (stage (cl_work c)) (changed_under c d) (cl_head c)) = w"
    using same c by (auto simp: map_of_stages fun_eq_iff)
  then have push: "wp (commit_push g (changed_under c d)) (\<lambda>b s'. map_of (gt_remote s') = w) (\<lambda>_ _. True) s"
    using c commit_push_remote [of s g "changed_under c d"]
    by (auto simp: work_tree_def head_tree_def elim!: wp_mono)
  have "map_of r = w" if "changed_under c d = []" using that same assms(3) by (auto simp: fun_eq_iff)
  then show ?thesis using c push
    by (auto simp: commit_under_def wp may_fail_def cleanWorktree_def on_clone_def split: option.split)
qed

definition plain_names :: "(string \<times> string) list \<Rightarrow> bool" where
  "plain_names files \<longleftrightarrow> distinct (map fst files) \<and> (\<forall>n\<in>fst ` set files. SLASH \<notin> set n)"

lemma map_of_rev_distinct: "distinct (map fst m) \<Longrightarrow> map_of (rev m) = map_of m"
proof (induction m)
  case (Cons kv m)
  then have "map_of m (fst kv) = None" unfolding map_of_eq_None_iff by simp
  then show ?case using Cons by (cases kv) (auto simp: map_add_def fun_eq_iff split: option.split)
qed simp

lemma path_in_files: "pre @ name \<in> (\<lambda>(n, _). pre @ n) ` set files \<longleftrightarrow> map_of files name \<noteq> None"
  unfolding map_of_eq_None_iff by force

lemma files_by_path:
  assumes "plain_names files"
  shows "map_of (rev (map (\<lambda>(n, c). (pre @ n, c)) files)) (pre @ name) = map_of files name"
proof -
  have "map_of (map (\<lambda>(n, c). (pre @ n, c)) xs) (pre @ name) = map_of xs name" for xs :: "(string \<times> string) list"
    by (induction xs) auto
  moreover have "distinct (map fst (map (\<lambda>(n, c). (pre @ n, c)) files))"
  proof -
    have "map fst (map (\<lambda>(n, c). (pre @ n, c)) files) = map ((@) pre) (map fst files)" by auto
    moreover have "distinct (map ((@) pre) (map fst files))"
      using assms unfolding plain_names_def distinct_map [of "(@) pre"] by (simp add: inj_on_def)
    ultimately show ?thesis by (simp only:)
  qed
  ultimately show ?thesis by (simp add: map_of_rev_distinct)
qed



section \<open>A repository to run it on\<close>

definition calm_git :: GitEnv where
  \<comment> \<open>nothing fails\<close>
  "calm_git = \<lparr>ge_fail = (\<lambda>what. None), ge_opened = None, ge_gone = (\<lambda>p. False), ge_now = 0, ge_ttl = 5\<rparr>"

definition fresh_git :: "Tree \<Rightarrow> Git" where
  "fresh_git t = \<lparr>gt_remote = t, gt_clone = None, gt_lastSync = 0\<rparr>"

definition git_at :: "Tree \<Rightarrow> Git" where
  \<comment> \<open>the clone is at the head of the remote branch\<close>
  "git_at t = \<lparr>gt_remote = t, gt_clone = Some \<lparr>cl_head = t, cl_work = t\<rparr>, gt_lastSync = 0\<rparr>"

lemma calm_orderly: "orderly calm_git" "ge_fail calm_git what = None"
  by (simp_all add: orderly_def calm_git_def)

lemma sample_git_write: "WriteDirectory calm_git ''m'' [(''a'', ''1'')] (fresh_git [(''m/b'', ''2'')]) = (Ok True, git_at [(''m/a'', ''1'')])"
  by code_simp

lemma sample_history: "git_history plain_yaml [[(''m/a'', ''1'')], [(''m/b'', ''2'')]] (git_at [(''m/a'', ''1'')])"
proof -
  have "git_history plain_yaml [[(''m/b'', ''2'')]] (fresh_git [(''m/b'', ''2'')])"
    unfolding fresh_git_def by (rule git_history.fresh)
  from git_history.call [OF this calm_orderly(1), of "CallWrite ''m'' [(''a'', ''1'')]"]
  have "clean_dir ''m'' \<Longrightarrow> git_history plain_yaml [gt_remote (git_at [(''m/a'', ''1'')]), [(''m/b'', ''2'')]] (git_at [(''m/a'', ''1'')])"
    using sample_git_write by simp
  moreover have "clean_dir ''m''" by code_simp
  ultimately show ?thesis by (simp add: git_at_def)
qed


definition no_push :: GitEnv where
  "no_push = calm_git\<lparr>ge_fail := (\<lambda>what. if what = ''push'' then Some (Errorf ''rejected'') else None)\<rparr>"




definition set_v :: Mutate where
  "set_v d = (Inr True, data_put ''v'' ''2'' d)"

definition v_text :: string where
  "v_text = plain_text None (Some [(''v'', ''1'')])"

lemma sample_patch_maps: "fst (patch_maps ''c.yaml'' (map_edit set_v) (plain_node [] [(''v'', ''1'')])) = Inr True"
  by code_simp

lemma sample_git_patch: "fst (GitState_Patch plain_yaml calm_git ''c.yaml'' set_v (fresh_git [(''c.yaml'', v_text)])) = Ok True"
proof -
  have parse: "y_parse plain_yaml v_text = Inr [plain_node [] [(''v'', ''1'')]]"
    by (simp add: plain_yaml_def v_text_def plain_read_text)
  obtain root where root: "patch_maps ''c.yaml'' (map_edit set_v) (plain_node [] [(''v'', ''1'')]) = (Inr True, root)"
    using sample_patch_maps by (metis prod.collapse)
  have "\<exists>out. y_print plain_yaml [root] = Inr out" by (simp add: plain_yaml_def)
  then obtain out where out: "y_print plain_yaml [root] = Inr out" by blast
  have "map_edit set_v = (\<lambda>data nts. case set_v \<lparr>Data = Some data, Annotations = Some nts, Raw = ''''\<rparr> of
         (r, doc) \<Rightarrow> (r, case Data doc of None \<Rightarrow> [] | Some m \<Rightarrow> m, case Annotations doc of None \<Rightarrow> [] | Some m \<Rightarrow> m))"
    by (simp add: fun_eq_iff map_edit_def)
  then have "GitState_Patch plain_yaml calm_git ''c.yaml'' set_v =
      mutateRaw plain_yaml calm_git ''c.yaml'' (patch_maps ''c.yaml'' (map_edit set_v))"
    by (simp add: GitState_Patch_def PatchDocument_def mutateDoc_def)
  then show ?thesis using parse root out
    by (simp add: mutateRaw_def commit_edit_def read_nodes_def syncRemote_def ensureClone_def may_fail_def calm_git_def
        fresh_git_def op_defs read_work_def work_tree_def head_tree_def write_work_def on_clone_def commit_push_def synced_def)
qed

lemma sample_document:
  "Data (document_of plain_yaml v_text) \<noteq> None" "entry_of (Data (document_of plain_yaml v_text)) = map_of [(''v'', ''1'')]"
proof -
  show e: "entry_of (Data (document_of plain_yaml v_text)) = map_of [(''v'', ''1'')]"
    using plain_document [OF plain_read_text, of None "Some [(''v'', ''1'')]"] by (simp add: v_text_def)
  show "Data (document_of plain_yaml v_text) \<noteq> None"
  proof
    assume "Data (document_of plain_yaml v_text) = None"
    then have "map_of [(''v'', ''1'')] = Map.empty" using e by (simp add: entry_of_def fun_eq_iff)
    then show False by simp
  qed
qed


end
