(* ===== verification/Presence.thy ===== *)
theory Presence
  imports Accounts SqlStore Ops
begin

text \<open>
  \<open>internal/infra/store/presence.go\<close> and \<open>queries.go\<close>: the tables of players, of
  who is online where, of events and of the audit trail.

  A table is an association list by primary key, or a list of rows in the order of insertion. A call runs its
  statements one after the other; \<open>db\<close> is the error the driver returns for a statement, by its name, and a
  statement that fails changes nothing. \<open>CURRENT_TIMESTAMP\<close> is the argument \<open>now\<close>.
\<close>

record PlayerRow =
  pl_character :: string
  pl_first_seen :: Time
  pl_last_seen :: Time
  pl_sessions :: int
  pl_online :: bool
  pl_online_since :: "Time option"

record AuditRow =
  au_at :: Time
  au_actor :: string
  au_action :: string
  au_detail :: string

record EventRow =
  ev_at :: Time
  ev_kind :: string
  ev_detail :: string

record Roster =
  ro_players :: "(string \<times> PlayerRow) list"
  ro_presence :: "((int \<times> string) \<times> Time) list"
    \<comment> \<open>\<open>instance_presence\<close>, whose rows are all online, with \<open>online_since\<close>\<close>
  ro_audit :: "AuditRow list"
  ro_events :: "EventRow list"

type_synonym 'a rop = "(Roster, 'a) op"

definition exec :: "Db \<Rightarrow> string \<Rightarrow> (Roster \<Rightarrow> Roster) \<Rightarrow> unit rop" where
  "exec db stmt f = (case db stmt of Some e \<Rightarrow> fail e | None \<Rightarrow> modify f)"

definition query :: "Db \<Rightarrow> string \<Rightarrow> (Roster \<Rightarrow> 'a) \<Rightarrow> 'a rop" where
  "query db stmt f = (case db stmt of Some e \<Rightarrow> fail e | None \<Rightarrow> gets f)"

section \<open>Presence\<close>

definition worlds_of :: "Roster \<Rightarrow> string \<Rightarrow> ((int \<times> string) \<times> Time) list" where
  \<comment> \<open>the presence rows of a player\<close>
  "worlds_of r pid = filter (\<lambda>((n, p), _). p = pid) (ro_presence r)"

definition since_of :: "Roster \<Rightarrow> string \<Rightarrow> Time option" where
  \<comment> \<open>\<open>SELECT MIN(online_since)\<close>\<close>
  "since_of r pid = (case map snd (worlds_of r pid) of [] \<Rightarrow> None | t # ts \<Rightarrow> Some (fold min ts t))"

definition appear :: "Time \<Rightarrow> int \<Rightarrow> string \<Rightarrow> Roster \<Rightarrow> Roster" where
  "appear now n pid r =
     r\<lparr>ro_presence := AList.update (n, pid)
         (case map_of (ro_presence r) (n, pid) of None \<Rightarrow> now | Some t \<Rightarrow> t) (ro_presence r)\<rparr>"

definition come_online :: "Time \<Rightarrow> PlayerRow \<Rightarrow> PlayerRow" where
  "come_online now p =
     p\<lparr>pl_online := True, pl_online_since := (case pl_online_since p of None \<Rightarrow> Some now | s \<Rightarrow> s), pl_last_seen := now\<rparr>"

definition new_player :: "Time \<Rightarrow> PlayerRow" where
  "new_player now = \<lparr>pl_character = '''', pl_first_seen = now, pl_last_seen = now, pl_sessions = 0,
     pl_online = False, pl_online_since = None\<rparr>"

definition upsert_player :: "Time \<Rightarrow> string \<Rightarrow> (PlayerRow \<Rightarrow> PlayerRow) \<Rightarrow> Roster \<Rightarrow> Roster" where
  \<comment> \<open>the row a player has, or the row inserted, as \<open>f\<close> leaves it\<close>
  "upsert_player now pid f r =
     r\<lparr>ro_players := AList.update pid
         (f (case map_of (ro_players r) pid of None \<Rightarrow> new_player now | Some p \<Rightarrow> p)) (ro_players r)\<rparr>"

definition map_player :: "string \<Rightarrow> (PlayerRow \<Rightarrow> PlayerRow) \<Rightarrow> Roster \<Rightarrow> Roster" where
  \<comment> \<open>\<open>UPDATE players ... WHERE steam_id = ?\<close>\<close>
  "map_player pid f r = r\<lparr>ro_players := map (\<lambda>(p, row). (p, if p = pid then f row else row)) (ro_players r)\<rparr>"

definition recount :: "Roster \<Rightarrow> string \<Rightarrow> PlayerRow \<Rightarrow> PlayerRow" where
  \<comment> \<open>online as the presence table says\<close>
  "recount r pid p = p\<lparr>pl_online := worlds_of r pid \<noteq> [], pl_online_since := since_of r pid\<rparr>"

definition SetOnline :: "Db \<Rightarrow> Time \<Rightarrow> int \<Rightarrow> string \<Rightarrow> bool \<Rightarrow> unit rop" where
  "SetOnline db now n pid on =
     (if on then
        seqo (whenO (n > 0) (exec db ''insert presence'' (appear now n pid)))
          (exec db ''player online'' (upsert_player now pid (come_online now)))
      else
        seqo (if n > 0 then exec db ''delete presence''
                (\<lambda>r. r\<lparr>ro_presence := AList.delete (n, pid) (ro_presence r)\<rparr>)
              else exec db ''delete presence''
                (\<lambda>r. r\<lparr>ro_presence := filter (\<lambda>((m, p), _). p \<noteq> pid) (ro_presence r)\<rparr>))
          (exec db ''player offline'' (\<lambda>r. map_player pid (\<lambda>p. (recount r pid p)\<lparr>pl_last_seen := now\<rparr>) r)))"

definition ClearPresence :: "Db \<Rightarrow> int \<Rightarrow> unit rop" where
  "ClearPresence db n =
     (if n > 0 then
        seqo (exec db ''clear presence'' (\<lambda>r. r\<lparr>ro_presence := filter (\<lambda>((m, p), _). m \<noteq> n) (ro_presence r)\<rparr>))
          (exec db ''recount players''
            (\<lambda>r. r\<lparr>ro_players := map (\<lambda>(pid, p). (pid, recount r pid p)) (ro_players r)\<rparr>))
      else
        seqo (exec db ''clear presence'' (\<lambda>r. r\<lparr>ro_presence := []\<rparr>))
          (exec db ''players offline'' (\<lambda>r. r\<lparr>ro_players :=
             map (\<lambda>(pid, p). (pid, if pl_online p then p\<lparr>pl_online := False, pl_online_since := None\<rparr> else p))
               (ro_players r)\<rparr>)))"

definition CountOnline :: "Db \<Rightarrow> int rop" where
  "CountOnline db = query db ''count online'' (\<lambda>r. int (length (filter (\<lambda>(_, p). pl_online p) (ro_players r))))"

definition CountOnlineForInstance :: "Db \<Rightarrow> int \<Rightarrow> int rop" where
  "CountOnlineForInstance db n =
     query db ''count presence'' (\<lambda>r. int (length (filter (\<lambda>((m, _), _). m = n) (ro_presence r))))"

section \<open>Players and records\<close>

definition seen :: "string \<Rightarrow> int \<Rightarrow> Time \<Rightarrow> PlayerRow \<Rightarrow> PlayerRow" where
  "seen character inc now p =
     p\<lparr>pl_last_seen := now, pl_character := (if character = '''' then pl_character p else character),
       pl_sessions := pl_sessions p + inc\<rparr>"

definition UpsertSeen :: "Db \<Rightarrow> Time \<Rightarrow> int \<Rightarrow> string \<Rightarrow> string \<Rightarrow> bool \<Rightarrow> unit rop" where
  "UpsertSeen db now n pid character bumpSession =
     seqo (exec db ''upsert player'' (upsert_player now pid (seen character (if bumpSession then 1 else 0) now)))
       (whenO (n > 0 \<and> bumpSession)
         (seqo (exec db ''insert presence'' (appear now n pid))
           (exec db ''player online'' (map_player pid (come_online now)))))"

record Player =
  p_SteamID :: string
  p_Character :: string
  p_FirstSeen :: Time
  p_LastSeen :: Time
  p_Sessions :: int
  p_Online :: bool
  p_OnlineSince :: Time
  p_Instance :: int

definition as_player :: "string \<Rightarrow> PlayerRow \<Rightarrow> bool \<Rightarrow> Time option \<Rightarrow> int \<Rightarrow> Player" where
  \<comment> \<open>\<open>scanPlayers\<close>\<close>
  "as_player pid p on since n =
     \<lparr>p_SteamID = pid, p_Character = pl_character p, p_FirstSeen = pl_first_seen p, p_LastSeen = pl_last_seen p,
      p_Sessions = pl_sessions p, p_Online = on, p_OnlineSince = (case since of None \<Rightarrow> 0 | Some t \<Rightarrow> t), p_Instance = n\<rparr>"

definition ListPlayers :: "Db \<Rightarrow> Player list rop" where
  \<comment> \<open>of several worlds a player is in, which one is read is SQLite's choice\<close>
  "ListPlayers db =
     query db ''list players'' (\<lambda>r.
       sort_key (\<lambda>p. (if p_Online p then 0 else 1 :: int, - p_LastSeen p))
         (map (\<lambda>(pid, p). as_player pid p (pl_online p) (pl_online_since p)
            (case worlds_of r pid of [] \<Rightarrow> 0 | ((n, _), _) # _ \<Rightarrow> n)) (ro_players r)))"

definition ListPlayersForInstance :: "Db \<Rightarrow> int \<Rightarrow> Player list rop" where
  "ListPlayersForInstance db n =
     query db ''list players'' (\<lambda>r.
       sort_key (\<lambda>p. - p_LastSeen p)
         (List.map_filter (\<lambda>(pid, p). map_option (\<lambda>t. as_player pid p True (Some t) n) (map_of (ro_presence r) (n, pid)))
            (ro_players r)))"

definition RecordAudit :: "Db \<Rightarrow> Time \<Rightarrow> string \<Rightarrow> string \<Rightarrow> string \<Rightarrow> unit rop" where
  "RecordAudit db now actor action detail =
     exec db ''audit'' (\<lambda>r. r\<lparr>ro_audit := ro_audit r @ [\<lparr>au_at = now, au_actor = actor, au_action = action, au_detail = detail\<rparr>]\<rparr>)"

definition RecordEvent :: "Db \<Rightarrow> Time \<Rightarrow> string \<Rightarrow> string \<Rightarrow> unit rop" where
  "RecordEvent db now kind detail =
     exec db ''event'' (\<lambda>r. r\<lparr>ro_events := ro_events r @ [\<lparr>ev_at = now, ev_kind = kind, ev_detail = detail\<rparr>]\<rparr>)"

end
