(* ===== verification/Ingest.thy ===== *)
theory Ingest
  imports Presence Occupancy Instances
begin

text \<open>
  \<open>internal/app/ingest\<close>: the worker that turns the log of a world into the roster of players and the events of
  their coming and going (\<open>ingest.go\<close>), and the supervisor that keeps one worker per running world
  (\<open>supervisor.go\<close>).

  The set of active players is a list of the keys the code builds. A stream is what opening it gives: an error, or
  the lines read until it ended with the scanner's error, if any. Every line comes with the clock and the answers of
  the database at that moment. A worker's goroutine is the list of the streams it opens; cancelling it ends the list.
\<close>

record Ingest =
  ig_active :: "string list"
  ig_db :: Roster

type_synonym 'a iop = "(Ingest, 'a) op"

record LogLine =
  ln_text :: string
  ln_now :: Time
  ln_store :: Db

section \<open>Lines\<close>

fun upto_colon :: "string \<Rightarrow> string option" where
  \<comment> \<open>\<open>(.*?) :\<close>\<close>
  "upto_colon [] = None"
| "upto_colon (c # s) = (if has_prefix (c # s) '' :'' then Some [] else map_option ((#) c) (upto_colon s))"

fun find_character :: "string \<Rightarrow> string option" where
  \<comment> \<open>the submatch of \<open>Got character ZDOID from (.+?) :\<close>\<close>
  "find_character [] = None"
| "find_character (c # s) =
     (if has_prefix (c # s) ''Got character ZDOID from '' then
        (case drop 25 (c # s) of
           [] \<Rightarrow> find_character s
         | d # rest \<Rightarrow> (case upto_colon rest of None \<Rightarrow> find_character s | Some n \<Rightarrow> Some (d # n)))
      else find_character s)"

definition steamRe :: "string \<Rightarrow> string option" where
  "steamRe = find_id ''Got connection SteamID ''"

definition charRe :: "string \<Rightarrow> string option" where
  "charRe = find_character"

definition dcRe :: "string \<Rightarrow> string option" where
  "dcRe = find_id ''Closing socket ''"

section \<open>Active players\<close>

definition activeKey :: "int \<Rightarrow> string \<Rightarrow> string" where
  "activeKey n pid = show_int n @ '':'' @ pid"

definition isPlayerActive :: "int \<Rightarrow> string \<Rightarrow> Ingest \<Rightarrow> bool" where
  "isPlayerActive n pid s \<longleftrightarrow> activeKey n pid \<in> set (ig_active s)"

definition setPlayerActive :: "int \<Rightarrow> string \<Rightarrow> bool \<Rightarrow> unit iop" where
  "setPlayerActive n pid on =
     modify (\<lambda>s. s\<lparr>ig_active := (if on then List.insert (activeKey n pid) (ig_active s)
                                else filter (\<lambda>k. k \<noteq> activeKey n pid) (ig_active s))\<rparr>)"

definition clearActivePresence :: "int \<Rightarrow> unit iop" where
  "clearActivePresence n =
     modify (\<lambda>s. s\<lparr>ig_active := filter (\<lambda>k. \<not> has_prefix k (show_int n @ '':'')) (ig_active s)\<rparr>)"

section \<open>The worker\<close>

definition in_store :: "'a rop \<Rightarrow> unit iop" where
  \<comment> \<open>a call of the store whose error nobody looks at\<close>
  "in_store m = ignore (zoom ig_db (\<lambda>r s. s\<lparr>ig_db := r\<rparr>) m)"

definition ingest_line :: "int \<Rightarrow> string \<Rightarrow> LogLine \<Rightarrow> string iop" where
  \<comment> \<open>one line, with the id of the last connection seen in the stream; the id after it\<close>
  "ingest_line n lastSteam l =
     (let db = ln_store l; now = ln_now l in
      case steamRe (ln_text l) of
        Some pid \<Rightarrow>
          bindo (gets (isPlayerActive n pid)) (\<lambda>active.
          seqo (whenO (\<not> active)
            (seqo (setPlayerActive n pid True)
            (seqo (in_store (UpsertSeen db now n pid '''' True))
              (in_store (RecordEvent db now ''join'' pid)))))
          (seqo (in_store (SetOnline db now n pid True)) (ret pid)))
      | None \<Rightarrow>
          (case charRe (ln_text l) of
             Some name \<Rightarrow>
               seqo (whenO (lastSteam \<noteq> '''') (in_store (UpsertSeen db now n lastSteam name False))) (ret lastSteam)
           | None \<Rightarrow>
               (case dcRe (ln_text l) of
                  Some pid \<Rightarrow>
                    bindo (gets (isPlayerActive n pid)) (\<lambda>wasActive.
                    seqo (setPlayerActive n pid False)
                    (seqo (in_store (SetOnline db now n pid False))
                    (seqo (whenO wasActive (in_store (RecordEvent db now ''leave'' pid))) (ret lastSteam))))
                | None \<Rightarrow> ret lastSteam)))"

fun ingest_lines :: "int \<Rightarrow> string \<Rightarrow> LogLine list \<Rightarrow> unit iop" where
  "ingest_lines n lastSteam [] = ret ()"
| "ingest_lines n lastSteam (l # ls) = bindo (ingest_line n lastSteam l) (\<lambda>pid. ingest_lines n pid ls)"

type_synonym Stream = "goerr + LogLine list \<times> goerr option"

definition ingest_consume :: "int \<Rightarrow> Stream \<Rightarrow> unit iop" where
  "ingest_consume n stream =
     (case stream of
        Inl e \<Rightarrow> fail e
      | Inr (ls, scanned) \<Rightarrow> seqo (ingest_lines n '''' ls) (checkO scanned))"

definition RetryDelay :: int where "RetryDelay = 3 * 10 ^ 9"
definition MaxRetryDelay :: int where "MaxRetryDelay = 5 * 60 * 10 ^ 9"

definition after_round :: "int \<Rightarrow> int \<Rightarrow> goerr option \<Rightarrow> int \<Rightarrow> int \<times> int" where
  \<comment> \<open>how long a round is waited after, and the delay the next one starts with\<close>
  "after_round initialDelay maxDelay err delay =
     (case err of
        None \<Rightarrow> (initialDelay, initialDelay)
      | Some e \<Rightarrow> (delay, if delay * 2 > maxDelay then maxDelay else delay * 2))"

fun ingest_rounds :: "int \<Rightarrow> int \<Rightarrow> int \<Rightarrow> Stream list \<Rightarrow> int \<Rightarrow> int list iop" where
  \<comment> \<open>the rounds of a worker until it is cancelled, and how long it waited after each\<close>
  "ingest_rounds n initialDelay maxDelay [] delay = ret []"
| "ingest_rounds n initialDelay maxDelay (stream # streams) delay =
     bindo (attempt (ingest_consume n stream)) (\<lambda>r.
       let (wait, delay') = after_round initialDelay maxDelay (case r of Inl e \<Rightarrow> Some e | Inr _ \<Rightarrow> None) delay
       in bindo (ingest_rounds n initialDelay maxDelay streams delay') (\<lambda>waits. ret (wait # waits)))"

definition ingest_delays :: "int list \<Rightarrow> int \<times> int" where
  \<comment> \<open>the optional arguments of \<open>Run\<close>\<close>
  "ingest_delays delays =
     (if delays \<noteq> [] \<and> hd delays > 0 then hd delays else RetryDelay,
      if length delays > 1 \<and> delays ! 1 > 0 then delays ! 1 else MaxRetryDelay)"

definition forget_world :: "Db \<Rightarrow> int \<Rightarrow> unit iop" where
  "forget_world db n = seqo (clearActivePresence n) (in_store (ClearPresence db n))"

definition Ingest_Run :: "Db \<Rightarrow> Db \<Rightarrow> int \<Rightarrow> int list \<Rightarrow> Stream list \<Rightarrow> int list iop" where
  \<comment> \<open>with the answers of the database when it starts and when it ends\<close>
  "Ingest_Run db db' n delays streams =
     seqo (forget_world db n)
     (bindo (ingest_rounds n (fst (ingest_delays delays)) (snd (ingest_delays delays)) streams (fst (ingest_delays delays)))
       (\<lambda>waits. seqo (forget_world db' n) (ret waits)))"

section \<open>The supervisor\<close>

record Supervisor =
  su_workers :: "(int \<times> nat) list"
    \<comment> \<open>the worker of each world; the number tells one goroutine from another\<close>
  su_cancelled :: "nat list"
  su_next :: nat

definition NewSupervisor :: Supervisor where
  "NewSupervisor = \<lparr>su_workers = [], su_cancelled = [], su_next = 0\<rparr>"

definition running_numbers :: "Instance list \<Rightarrow> int list" where
  "running_numbers insts = remdups (map Number (filter (\<lambda>i. State i = StateRunning) insts))"

definition start_worker :: "int \<Rightarrow> Supervisor \<Rightarrow> Supervisor" where
  "start_worker n s =
     (if map_of (su_workers s) n \<noteq> None then s
      else s\<lparr>su_workers := AList.update n (su_next s) (su_workers s), su_next := su_next s + 1\<rparr>)"

definition stop_workers :: "(int \<Rightarrow> bool) \<Rightarrow> Supervisor \<Rightarrow> Supervisor" where
  "stop_workers keep s =
     s\<lparr>su_cancelled := su_cancelled s @ map snd (filter (\<lambda>(n, w). \<not> keep n) (su_workers s)),
       su_workers := filter (\<lambda>(n, w). keep n) (su_workers s)\<rparr>"

definition Supervisor_Reconcile :: "(goerr + Instance list) \<Rightarrow> Supervisor \<Rightarrow> Supervisor" where
  "Supervisor_Reconcile listed s =
     (case listed of
        Inl e \<Rightarrow> s
      | Inr insts \<Rightarrow>
          (let active = running_numbers insts
           in stop_workers (\<lambda>n. n \<in> set active) (fold start_worker active s)))"

definition ActiveWorkers :: "Supervisor \<Rightarrow> int list" where
  "ActiveWorkers s = map fst (su_workers s)"

definition stopAll :: "Supervisor \<Rightarrow> Supervisor" where
  "stopAll = stop_workers (\<lambda>n. False)"

definition Supervisor_Run :: "(goerr + Instance list) list \<Rightarrow> Supervisor \<Rightarrow> Supervisor" where
  \<comment> \<open>a reconciliation at the start and at every tick, until it is cancelled\<close>
  "Supervisor_Run listings s = stopAll (fold Supervisor_Reconcile listings s)"

end
