(* ===== verification/IngestProofs.thy ===== *)
theory IngestProofs
  imports Ingest
begin

text \<open>
  The workers and the supervisor of the log ingest: the roster a worker keeps, the events it records, how it waits
  between streams, and that no worker outlives its world.
\<close>

section \<open>The roster\<close>

definition answers :: "Db \<Rightarrow> bool" where
  "answers db \<longleftrightarrow> (\<forall>stmt. db stmt = None)"

definition present :: "Roster \<Rightarrow> int \<Rightarrow> string \<Rightarrow> bool" where
  "present r n pid \<longleftrightarrow> map_of (ro_presence r) (n, pid) \<noteq> None"

definition sessions :: "Roster \<Rightarrow> string \<Rightarrow> int" where
  "sessions r pid = (case map_of (ro_players r) pid of None \<Rightarrow> 0 | Some p \<Rightarrow> pl_sessions p)"

definition flagged :: "Roster \<Rightarrow> string \<Rightarrow> bool option" where
  \<comment> \<open>what the table of players says\<close>
  "flagged r pid = map_option pl_online (map_of (ro_players r) pid)"

definition settled_player :: "Roster \<Rightarrow> string \<Rightarrow> bool" where
  \<comment> \<open>marked online exactly while some world has them\<close>
  "settled_player r pid \<longleftrightarrow>
     flagged r pid = Some (\<exists>n. present r n pid) \<or> flagged r pid = None \<and> (\<forall>n. \<not> present r n pid)"

definition roster_ok :: "Roster \<Rightarrow> bool" where
  "roster_ok r \<longleftrightarrow> (\<forall>pid. settled_player r pid)"

lemma exec_answers: "answers db \<Longrightarrow> exec db stmt f = modify f"
  by (simp add: exec_def answers_def)

lemma worlds_of_present: "worlds_of r pid \<noteq> [] \<longleftrightarrow> (\<exists>n. present r n pid)"
proof -
  have "worlds_of r pid \<noteq> [] \<longleftrightarrow> (\<exists>n. (n, pid) \<in> fst ` set (ro_presence r))"
    by (force simp: worlds_of_def filter_empty_conv)
  then show ?thesis by (simp add: present_def map_of_eq_None_iff)
qed

lemma map_of_values: "map_of (map (\<lambda>(k, v). (k, f k v)) m) k = map_option (f k) (map_of m k)"
  by (induction m) auto

lemma present_more [simp]:
  "present (r\<lparr>ro_players := ps\<rparr>) n pid = present r n pid" "present (r\<lparr>ro_events := es\<rparr>) n pid = present r n pid"
  "present (upsert_player now q f r) n pid = present r n pid" "present (map_player q g r) n pid = present r n pid"
  by (simp_all add: present_def upsert_player_def map_player_def)

lemma present_appear: "present (appear now m q r) n pid \<longleftrightarrow> (n, pid) = (m, q) \<or> present r n pid"
  by (auto simp: present_def appear_def map_of_update)

lemma present_delete:
  "present (r\<lparr>ro_presence := AList.delete (m, q) (ro_presence r)\<rparr>) n pid \<longleftrightarrow> (n, pid) \<noteq> (m, q) \<and> present r n pid"
  by (simp add: present_def map_of_delete)

lemma map_of_filter_pair: "map_of (filter (\<lambda>((m, p), _). P m p) xs) (n, q) = (if P n q then map_of xs (n, q) else None)"
  by (induction xs) auto

lemma present_without:
  "present (r\<lparr>ro_presence := filter (\<lambda>((m, p), _). P m p) (ro_presence r)\<rparr>) n pid \<longleftrightarrow> P n pid \<and> present r n pid"
  by (simp add: present_def map_of_filter_pair)

lemma players_upsert: "map_of (ro_players (upsert_player now q f r)) pid =
    (if pid = q then Some (f (case map_of (ro_players r) q of None \<Rightarrow> new_player now | Some p \<Rightarrow> p))
     else map_of (ro_players r) pid)"
  by (simp add: upsert_player_def map_of_update)

lemma players_map: "map_of (ro_players (map_player q f r)) pid =
    map_option (\<lambda>row. if pid = q then f row else row) (map_of (ro_players r) pid)"
  unfolding map_player_def using map_of_values [of "\<lambda>p row. if p = q then f row else row"] by simp

lemma flagged_simps:
  "flagged (upsert_player now q (come_online now) r) = (flagged r)(q := Some True)"
  "flagged (upsert_player now q (seen c i now) r) = (flagged r)(q := Some (flagged r q = Some True))"
  "flagged (map_player q (come_online now) r) = (flagged r)(q := map_option (\<lambda>_. True) (flagged r q))"
  "flagged (map_player q (\<lambda>p. (recount r' q p)\<lparr>pl_last_seen := now\<rparr>) r) =
     (flagged r)(q := map_option (\<lambda>_. \<exists>n. present r' n q) (flagged r q))"
  "flagged (r\<lparr>ro_presence := ps\<rparr>) = flagged r" "flagged (appear now n p r) = flagged r"
  by (auto simp: fun_eq_iff flagged_def players_upsert players_map come_online_def seen_def new_player_def recount_def
      worlds_of_present appear_def map_of_values option.map_comp comp_def split: option.split)

lemma sessions_simps:
  "sessions (upsert_player now q (come_online now) r) = sessions r"
  "sessions (upsert_player now q (seen c i now) r) = (sessions r)(q := sessions r q + i)"
  "sessions (map_player q (come_online now) r) = sessions r"
  "sessions (map_player q (\<lambda>p. (recount r' q p)\<lparr>pl_last_seen := now\<rparr>) r) = sessions r"
  "sessions (r\<lparr>ro_presence := ps\<rparr>) = sessions r" "sessions (appear now n p r) = sessions r"
  by (auto simp: fun_eq_iff sessions_def players_upsert players_map come_online_def seen_def new_player_def recount_def
      appear_def map_of_values split: option.split)

lemma appear_more [simp]:
  "ro_players (appear now m q r) = ro_players r" "ro_events (appear now m q r) = ro_events r"
  "ro_events (upsert_player now q f r) = ro_events r" "ro_events (map_player q f r) = ro_events r"
  by (simp_all add: appear_def upsert_player_def map_player_def)

lemma recounted:
  assumes "ro_players r2 = map (\<lambda>(pid, p). (pid, recount r' pid p)) (ro_players r)"
  shows "flagged r2 pid = map_option (\<lambda>_. \<exists>n. present r' n pid) (flagged r pid)" and "sessions r2 = sessions r"
  by (auto simp: fun_eq_iff flagged_def sessions_def assms map_of_values recount_def worlds_of_present option.map_comp comp_def
      split: option.split)

lemma only_events [simp]:
  "flagged (r\<lparr>ro_events := es\<rparr>) = flagged r" "sessions (r\<lparr>ro_events := es\<rparr>) = sessions r"
  by (simp_all add: fun_eq_iff flagged_def sessions_def)

lemmas roster_simps = present_appear present_delete present_without flagged_simps sessions_simps

lemma roster_ok_flag: "roster_ok r \<Longrightarrow> (flagged r pid = Some True) = (\<exists>n. present r n pid)"
  unfolding roster_ok_def by (drule spec [of _ pid]) (auto simp: settled_player_def)

lemma roster_okD: "roster_ok r \<Longrightarrow> present r n pid \<Longrightarrow> flagged r pid = Some True"
  using roster_ok_flag by blast

lemma roster_ok_cong:
  assumes "roster_ok r" and "\<And>p. p \<noteq> q \<Longrightarrow> flagged r' p = flagged r p"
    and "\<And>p n. p \<noteq> q \<Longrightarrow> present r' n p = present r n p" and "settled_player r' q"
  shows "roster_ok r'"
  unfolding roster_ok_def
proof
  fix p
  show "settled_player r' p"
    using assms(1) assms(2-3) [of p] assms(4) by (cases "p = q") (simp_all add: roster_ok_def settled_player_def)
qed

lemma roster_ok_events [simp]: "roster_ok (r\<lparr>ro_events := es\<rparr>) = roster_ok r"
  by (simp add: roster_ok_def settled_player_def)

lemma SetOnline_wp:
  assumes "answers db" and "n > 0" and ok: "roster_ok r"
  shows "wp (SetOnline db now n pid on)
    (\<lambda>_ r'. roster_ok r' \<and> (\<forall>m q. present r' m q \<longleftrightarrow> (if (m, q) = (n, pid) then on else present r m q)) \<and>
       sessions r' = sessions r \<and> ro_events r' = ro_events r) (\<lambda>_ _. False) r"
proof -
  have "flagged r pid = None \<Longrightarrow> \<not> present r m pid" for m using roster_okD [OF ok] by fastforce
  then show ?thesis using assms(2)
    by (auto simp: SetOnline_def exec_answers [OF assms(1)] wp roster_simps split: if_splits
        intro!: roster_ok_cong [OF ok, of pid] simp: settled_player_def)
qed

lemma UpsertSeen_wp:
  assumes "answers db" and "n > 0" and ok: "roster_ok r"
  shows "wp (UpsertSeen db now n pid c bump)
    (\<lambda>_ r'. roster_ok r' \<and> (\<forall>m q. present r' m q \<longleftrightarrow> bump \<and> (m, q) = (n, pid) \<or> present r m q) \<and>
       sessions r' = (sessions r)(pid := sessions r pid + (if bump then 1 else 0)) \<and> ro_events r' = ro_events r)
    (\<lambda>_ _. False) r"
proof -
  have "(flagged r pid = Some True) = (\<exists>m. present r m pid)" by (rule roster_ok_flag [OF ok])
  then show ?thesis using assms(2)
    by (auto simp: UpsertSeen_def exec_answers [OF assms(1)] wp roster_simps split: if_splits
        intro!: roster_ok_cong [OF ok, of pid] simp: settled_player_def)
qed

lemma RecordEvent_wp:
  assumes "answers db"
  shows "wp (RecordEvent db now kind detail)
    (\<lambda>_ r'. r' = r\<lparr>ro_events := ro_events r @ [\<lparr>ev_at = now, ev_kind = kind, ev_detail = detail\<rparr>]\<rparr>) (\<lambda>_ _. False) r"
  by (simp add: RecordEvent_def exec_answers [OF assms] wp)

lemma ClearPresence_wp:
  assumes "answers db" and "n > 0"
  shows "wp (ClearPresence db n)
    (\<lambda>_ r'. (roster_ok r \<longrightarrow> roster_ok r') \<and> (\<forall>m q. present r' m q \<longleftrightarrow> m \<noteq> n \<and> present r m q) \<and>
       sessions r' = sessions r \<and> ro_events r' = ro_events r) (\<lambda>_ _. False) r"
proof -
  let ?r = "r\<lparr>ro_presence := filter (\<lambda>((m, p), _). m \<noteq> n) (ro_presence r)\<rparr>"
  let ?r2 = "?r\<lparr>ro_players := map (\<lambda>(pid, p). (pid, recount ?r pid p)) (ro_players r)\<rparr>"
  have players: "ro_players ?r2 = map (\<lambda>(pid, p). (pid, recount ?r pid p)) (ro_players r)" by simp
  have there: "present ?r2 m q \<longleftrightarrow> m \<noteq> n \<and> present r m q" for m q by (simp add: present_without)
  have "roster_ok ?r2" if "roster_ok r"
    unfolding roster_ok_def
  proof
    fix pid
    show "settled_player ?r2 pid"
      using roster_okD [OF that, of _ pid] unfolding settled_player_def recounted(1) [OF players] there
      by (cases "flagged r pid") (auto simp: present_without)
  qed
  then show ?thesis using assms(2) there recounted(2) [OF players]
    by (simp add: ClearPresence_def exec_answers [OF assms(1)] wp)
qed

section \<open>What a worker records\<close>

definition ingest_event :: "string \<Rightarrow> (string \<times> bool) option" where
  \<comment> \<open>who a line says came or went\<close>
  "ingest_event t =
     (case steamRe t of
        Some pid \<Rightarrow> Some (pid, True)
      | None \<Rightarrow> if charRe t \<noteq> None then None else map_option (\<lambda>pid. (pid, False)) (dcRe t))"

definition log_events :: "LogLine list \<Rightarrow> (string \<times> bool) list" where
  "log_events ls = List.map_filter (\<lambda>l. ingest_event (ln_text l)) ls"

fun who_after :: "(string \<Rightarrow> bool) \<Rightarrow> (string \<times> bool) list \<Rightarrow> string \<Rightarrow> bool" where
  "who_after on [] = on"
| "who_after on ((pid, b) # evs) = who_after (on(pid := b)) evs"

fun changes :: "(string \<Rightarrow> bool) \<Rightarrow> (string \<times> bool) list \<Rightarrow> (string \<times> bool) list" where
  \<comment> \<open>the events that change who is there\<close>
  "changes on [] = []"
| "changes on ((pid, b) # evs) = (if on pid = b then [] else [(pid, b)]) @ changes (on(pid := b)) evs"

definition noted :: "EventRow list \<Rightarrow> (string \<times> string) list" where
  "noted es = map (\<lambda>e. (ev_kind e, ev_detail e)) es"

definition as_noted :: "string \<times> bool \<Rightarrow> string \<times> string" where
  "as_noted ev = (if snd ev then ''join'' else ''leave'', fst ev)"

definition in_step :: "int \<Rightarrow> Ingest \<Rightarrow> bool" where
  \<comment> \<open>the active players of a world are those the tables have there\<close>
  "in_step n s \<longleftrightarrow> roster_ok (ig_db s) \<and> (\<forall>pid. isPlayerActive n pid s = present (ig_db s) n pid)"

definition told :: "int \<Rightarrow> (string \<times> bool) list \<Rightarrow> Ingest \<Rightarrow> Ingest \<Rightarrow> bool" where
  \<comment> \<open>what events of a world do to the roster\<close>
  "told n evs s s' \<longleftrightarrow>
     (\<forall>m. present (ig_db s') m = (if m = n then who_after (present (ig_db s) n) evs else present (ig_db s) m)) \<and>
     noted (ro_events (ig_db s')) = noted (ro_events (ig_db s)) @ map as_noted (changes (present (ig_db s) n) evs) \<and>
     (\<forall>pid. sessions (ig_db s') pid =
        sessions (ig_db s) pid + int (count_list (changes (present (ig_db s) n) evs) (pid, True)))"

lemma activeKey_inj: "activeKey n p = activeKey n q \<longleftrightarrow> p = q"
  by (simp add: activeKey_def)

lemma active_after [simp]:
  "isPlayerActive n q (s\<lparr>ig_db := r\<rparr>) = isPlayerActive n q s"
  "isPlayerActive n q (s\<lparr>ig_active := List.insert (activeKey n p) (ig_active s)\<rparr>) = (q = p \<or> isPlayerActive n q s)"
  "isPlayerActive n q (s\<lparr>ig_active := filter (\<lambda>k. k \<noteq> activeKey n p) (ig_active s)\<rparr>) = (q \<noteq> p \<and> isPlayerActive n q s)"
  by (auto simp: isPlayerActive_def activeKey_inj)

lemma wp_in_store: "wp (in_store m) Q E s = wp m (\<lambda>_ r. Q () (s\<lparr>ig_db := r\<rparr>)) (\<lambda>_ r. Q () (s\<lparr>ig_db := r\<rparr>)) (ig_db s)"
  by (simp add: in_store_def wp)

lemma who_after_append: "who_after on (evs @ evs') = who_after (who_after on evs) evs'"
  by (induction evs arbitrary: on) auto

lemma changes_append: "changes on (evs @ evs') = changes on evs @ changes (who_after on evs) evs'"
  by (induction evs arbitrary: on) auto

lemma told_none: "told n [] s s" by (simp add: told_def)

lemma told_trans: "told n evs s s' \<Longrightarrow> told n evs' s' s'' \<Longrightarrow> told n (evs @ evs') s s''"
  by (simp add: told_def who_after_append changes_append)

lemma in_store_wp:
  assumes "wp m Q (\<lambda>_ _. False) (ig_db s)" and "\<And>x r. Q x r \<Longrightarrow> P () (s\<lparr>ig_db := r\<rparr>)"
  shows "wp (in_store m) P E s"
  unfolding wp_in_store by (rule wp_mono [OF assms(1)]) (use assms(2) in auto)

lemma told_one:
  assumes "\<And>m q. present (ig_db s') m q = (if (m, q) = (n, pid) then on else present (ig_db s) m q)"
    and "noted (ro_events (ig_db s')) = noted (ro_events (ig_db s)) @
      (if present (ig_db s) n pid = on then [] else [as_noted (pid, on)])"
    and "sessions (ig_db s') = (sessions (ig_db s))(pid := sessions (ig_db s) pid +
      (if on \<and> \<not> present (ig_db s) n pid then 1 else 0))"
  shows "told n [(pid, on)] s s'"
  using assms by (auto simp: told_def fun_eq_iff)

lemma noted_snoc: "noted (es @ [e]) = noted es @ [(ev_kind e, ev_detail e)]"
  by (simp add: noted_def)

lemma joined_wp:
  assumes db: "answers db" "n > 0" and s: "in_step n s"
  shows "wp (seqo (whenO (\<not> isPlayerActive n pid s)
      (seqo (setPlayerActive n pid True)
      (seqo (in_store (UpsertSeen db now n pid '''' True)) (in_store (RecordEvent db now ''join'' pid)))))
    (in_store (SetOnline db now n pid True)))
    (\<lambda>_ s'. in_step n s' \<and> told n [(pid, True)] s s') (\<lambda>_ _. False) s"
proof -
  have ok: "roster_ok (ig_db s)" and act: "\<And>pid. isPlayerActive n pid s = present (ig_db s) n pid"
    using s by (simp_all add: in_step_def)
  show ?thesis
  proof (cases "isPlayerActive n pid s")
    case True
    then show ?thesis unfolding wp
      by (simp, intro in_store_wp [OF SetOnline_wp [OF db ok]])
        (auto simp: in_step_def act intro!: told_one)
  next
    case False
    let ?s = "s\<lparr>ig_active := List.insert (activeKey n pid) (ig_active s)\<rparr>"
    have "wp (in_store (UpsertSeen db now n pid '''' True))
      (\<lambda>_. wp (in_store (RecordEvent db now ''join'' pid))
        (\<lambda>_. wp (in_store (SetOnline db now n pid True)) (\<lambda>_ s'. in_step n s' \<and> told n [(pid, True)] s s') (\<lambda>_ _. False))
        (\<lambda>_ _. False)) (\<lambda>_ _. False) ?s"
    proof (rule in_store_wp, simp, rule UpsertSeen_wp [OF db ok], rule in_store_wp, rule RecordEvent_wp [OF db(1)], goal_cases)
      case (1 _ r _ r')
      then have "roster_ok (ig_db (?s\<lparr>ig_db := r\<rparr>\<lparr>ig_db := r'\<rparr>))" by simp
      then show ?case
        by (rule in_store_wp [OF SetOnline_wp [OF db]])
          (use 1 False in \<open>auto simp: in_step_def act noted_snoc as_noted_def intro!: told_one\<close>)
    qed
    then show ?thesis using False by (simp add: wp setPlayerActive_def)
  qed
qed

lemma left_wp:
  assumes db: "answers db" "n > 0" and s: "in_step n s"
  shows "wp (seqo (setPlayerActive n pid False)
      (seqo (in_store (SetOnline db now n pid False))
        (whenO (isPlayerActive n pid s) (in_store (RecordEvent db now ''leave'' pid)))))
    (\<lambda>_ s'. in_step n s' \<and> told n [(pid, False)] s s') (\<lambda>_ _. False) s"
proof -
  have ok: "roster_ok (ig_db s)" and act: "\<And>pid. isPlayerActive n pid s = present (ig_db s) n pid"
    using s by (simp_all add: in_step_def)
  let ?s = "s\<lparr>ig_active := filter (\<lambda>k. k \<noteq> activeKey n pid) (ig_active s)\<rparr>"
  have "wp (in_store (SetOnline db now n pid False))
    (\<lambda>_. wp (whenO (isPlayerActive n pid s) (in_store (RecordEvent db now ''leave'' pid)))
      (\<lambda>_ s'. in_step n s' \<and> told n [(pid, False)] s s') (\<lambda>_ _. False)) (\<lambda>_ _. False) ?s"
  proof (rule in_store_wp, simp, rule SetOnline_wp [OF db ok], goal_cases)
    case (1 _ r)
    show ?case
    proof (cases "isPlayerActive n pid s")
      case True
      then have "wp (in_store (RecordEvent db now ''leave'' pid)) (\<lambda>_ s'. in_step n s' \<and> told n [(pid, False)] s s') (\<lambda>_ _. False)
          (?s\<lparr>ig_db := r\<rparr>)"
        by (intro in_store_wp [OF RecordEvent_wp [OF db(1)]])
          (use 1 in \<open>auto simp: in_step_def act noted_snoc as_noted_def intro!: told_one\<close>)
      then show ?thesis using True by (simp add: wp)
    next
      case False
      then show ?thesis using 1 by (auto simp: wp in_step_def act intro!: told_one)
    qed
  qed
  then show ?thesis by (simp add: wp setPlayerActive_def)
qed

lemma ingest_line_wp:
  assumes db: "answers (ln_store l)" "n > 0" and s: "in_step n s"
  shows "wp (ingest_line n lastSteam l)
    (\<lambda>_ s'. in_step n s' \<and> told n (case ingest_event (ln_text l) of None \<Rightarrow> [] | Some ev \<Rightarrow> [ev]) s s') (\<lambda>_ _. False) s"
proof (cases "steamRe (ln_text l)")
  case (Some pid)
  then show ?thesis using joined_wp [OF db s, of pid "ln_now l"]
    by (simp add: ingest_line_def Let_def wp ingest_event_def)
next
  case None
  note no_join = this
  have ok: "roster_ok (ig_db s)" using s by (simp add: in_step_def)
  show ?thesis
  proof (cases "charRe (ln_text l)")
    case (Some name)
    have "wp (in_store (UpsertSeen (ln_store l) (ln_now l) n lastSteam name False)) (\<lambda>_ s'. in_step n s' \<and> told n [] s s') (\<lambda>_ _. False) s"
      by (rule in_store_wp [OF UpsertSeen_wp [OF db ok]]) (use s in \<open>auto simp: in_step_def told_def fun_eq_iff\<close>)
    then show ?thesis using no_join Some s told_none
      by (simp add: ingest_line_def Let_def wp ingest_event_def)
  next
    case None
    then show ?thesis using no_join left_wp [OF db s, of _ "ln_now l"] s told_none
      by (cases "dcRe (ln_text l)") (simp_all add: ingest_line_def Let_def wp ingest_event_def)
  qed
qed

lemma log_events_Cons:
  "log_events (l # ls) = (case ingest_event (ln_text l) of None \<Rightarrow> [] | Some ev \<Rightarrow> [ev]) @ log_events ls"
  by (simp add: log_events_def List.map_filter_def split: option.split)

lemma ingest_lines_wp:
  assumes "n > 0"
  shows "in_step n s \<Longrightarrow> \<forall>l\<in>set ls. answers (ln_store l) \<Longrightarrow>
    wp (ingest_lines n lastSteam ls) (\<lambda>_ s'. in_step n s' \<and> told n (log_events ls) s s') (\<lambda>_ _. False) s"
proof (induction ls arbitrary: s lastSteam)
  case Nil
  then show ?case using told_none by (simp add: wp log_events_def List.map_filter_def)
next
  case (Cons l ls)
  have "wp (ingest_line n lastSteam l)
    (\<lambda>_ s'. in_step n s' \<and> told n (case ingest_event (ln_text l) of None \<Rightarrow> [] | Some ev \<Rightarrow> [ev]) s s') (\<lambda>_ _. False) s"
    using Cons.prems by (intro ingest_line_wp [OF _ assms]) simp_all
  then show ?case unfolding ingest_lines.simps wp_bindo
  proof (rule wp_mono, goal_cases)
    case (1 pid s')
    then have "wp (ingest_lines n pid ls) (\<lambda>_ s''. in_step n s'' \<and> told n (log_events ls) s' s'') (\<lambda>_ _. False) s'"
      using Cons by simp
    then show ?case by (rule wp_mono) (use 1 told_trans in \<open>auto simp: log_events_Cons\<close>)
  qed simp
qed

section \<open>A worker from start to end\<close>

definition stream_lines :: "Stream \<Rightarrow> LogLine list" where
  "stream_lines stream = (case stream of Inl e \<Rightarrow> [] | Inr (ls, _) \<Rightarrow> ls)"

definition broken :: "Stream \<Rightarrow> bool" where
  \<comment> \<open>it could not be opened, or did not end properly\<close>
  "broken stream = (case stream of Inl e \<Rightarrow> True | Inr (_, scanned) \<Rightarrow> scanned \<noteq> None)"

definition answered :: "Stream list \<Rightarrow> bool" where
  "answered streams \<longleftrightarrow> (\<forall>stream\<in>set streams. \<forall>l\<in>set (stream_lines stream). answers (ln_store l))"

definition told_events :: "Stream list \<Rightarrow> (string \<times> bool) list" where
  "told_events streams = concat (map (\<lambda>stream. log_events (stream_lines stream)) streams)"

fun backoffs :: "int \<Rightarrow> int \<Rightarrow> bool list \<Rightarrow> int \<Rightarrow> int list" where
  "backoffs lo hi [] d = []"
| "backoffs lo hi (b # bs) d = (if b then d # backoffs lo hi bs (min hi (2 * d)) else lo # backoffs lo hi bs lo)"

lemma ingest_consume_wp:
  assumes "n > 0" and "in_step n s" and "\<forall>l\<in>set (stream_lines stream). answers (ln_store l)"
  shows "wp (attempt (ingest_consume n stream))
    (\<lambda>r s'. in_step n s' \<and> told n (log_events (stream_lines stream)) s s' \<and> (\<exists>e. r = Inl e) = broken stream) (\<lambda>_ _. False) s"
proof (cases stream)
  case (Inl e)
  then show ?thesis using assms(2)
    by (simp add: ingest_consume_def wp stream_lines_def told_none broken_def log_events_def List.map_filter_def)
next
  case (Inr x)
  obtain ls scanned where x: "x = (ls, scanned)" by force
  have "wp (ingest_lines n '''' ls) (\<lambda>_ s'. in_step n s' \<and> told n (log_events ls) s s') (\<lambda>_ _. False) s"
    using assms(3) Inr x by (intro ingest_lines_wp [OF assms(1,2)]) (simp add: stream_lines_def)
  then show ?thesis unfolding Inr x ingest_consume_def
    by (auto simp: wp stream_lines_def broken_def split: option.split elim!: wp_mono)
qed

lemma ingest_rounds_wp:
  assumes "n > 0"
  shows "in_step n s \<Longrightarrow> answered streams \<Longrightarrow>
    wp (ingest_rounds n lo hi streams d)
      (\<lambda>waits s'. in_step n s' \<and> told n (told_events streams) s s' \<and> waits = backoffs lo hi (map broken streams) d)
      (\<lambda>_ _. False) s"
proof (induction streams arbitrary: s d)
  case Nil
  then show ?case by (simp add: wp told_none told_events_def)
next
  case (Cons stream streams)
  have later: "answered streams" using Cons.prems(2) by (simp add: answered_def)
  have "wp (attempt (ingest_consume n stream))
    (\<lambda>r s'. in_step n s' \<and> told n (log_events (stream_lines stream)) s s' \<and> (\<exists>e. r = Inl e) = broken stream) (\<lambda>_ _. False) s"
    using Cons.prems by (intro ingest_consume_wp [OF assms]) (simp_all add: answered_def)
  then show ?case unfolding ingest_rounds.simps wp_bindo
  proof (rule wp_mono, goal_cases)
    case (1 r s')
    then have told: "told n (log_events (stream_lines stream)) s s'" by simp
    let ?round = "after_round lo hi (case r of Inl e \<Rightarrow> Some e | Inr _ \<Rightarrow> None) d"
    obtain w d' where round: "?round = (w, d')" by force
    then have waits: "w # backoffs lo hi (map broken streams) d' = backoffs lo hi (map broken (stream # streams)) d"
      using 1 by (cases r) (auto simp: after_round_def min_def mult.commute)
    have "wp (ingest_rounds n lo hi streams d') (\<lambda>waits s''. in_step n s'' \<and> told n (told_events streams) s' s'' \<and>
        waits = backoffs lo hi (map broken streams) d') (\<lambda>_ _. False) s'"
      using 1 later by (intro Cons.IH) simp_all
    then have "wp (ingest_rounds n lo hi streams d') (\<lambda>waits s''. in_step n s'' \<and> told n (told_events (stream # streams)) s s'' \<and>
        w # waits = backoffs lo hi (map broken (stream # streams)) d) (\<lambda>_ _. False) s'"
    proof (rule wp_mono, goal_cases)
      case (1 ws s'')
      then show ?case using waits told_trans [OF told] by (simp add: told_events_def)
    qed simp
    then show ?case using round by (simp add: wp del: backoffs.simps list.map)
  qed simp
qed

lemma forget_world_wp:
  assumes "answers db" and "n > 0" and "roster_ok (ig_db s)"
  shows "wp (forget_world db n)
    (\<lambda>_ s'. in_step n s' \<and> (\<forall>m q. present (ig_db s') m q \<longleftrightarrow> m \<noteq> n \<and> present (ig_db s) m q) \<and>
       sessions (ig_db s') = sessions (ig_db s) \<and> ro_events (ig_db s') = ro_events (ig_db s)) (\<lambda>_ _. False) s"
  unfolding forget_world_def wp clearActivePresence_def
  by (rule in_store_wp, simp, rule ClearPresence_wp [OF assms(1,2)])
    (use assms(3) in \<open>auto simp: in_step_def isPlayerActive_def activeKey_def has_prefix_def\<close>)

lemma who_after_online: "who_after on evs pid = (if pid \<in> fst ` set evs then online_after (rev evs) pid else on pid)"
proof (induction evs arbitrary: on rule: rev_induct)
  case (snoc ev evs)
  then show ?case by (cases ev) (auto simp: who_after_append)
qed simp

lemma online_after_none: "pid \<notin> fst ` set evs \<Longrightarrow> \<not> online_after evs pid"
  by (induction evs pid rule: online_after.induct) auto

lemma who_after_nobody: "who_after (\<lambda>_. False) evs pid = online_after (rev evs) pid"
  using online_after_none [of pid "rev evs"] by (auto simp: who_after_online)

lemma changes_alternate:
  "i < length (filter (\<lambda>ev. fst ev = pid) (changes on evs)) \<Longrightarrow>
   snd (filter (\<lambda>ev. fst ev = pid) (changes on evs) ! i) = (on pid \<noteq> even i)"
proof (induction evs arbitrary: on i)
  case (Cons ev evs)
  obtain p b where ev: "ev = (p, b)" by force
  define on' where "on' = on(p := b)"
  have here: "on' pid = (if p = pid then b else on pid)" by (simp add: on'_def)
  have step: "changes on (ev # evs) = (if on p = b then [] else [(p, b)]) @ changes on' evs"
    by (simp add: ev on'_def)
  show ?case
    using Cons.prems Cons.IH [of i on'] Cons.IH [of "i - 1" on'] here unfolding step
    by (cases i) (auto split: if_splits)
qed simp

text \<open>C22: The roster follows the log: while a worker runs, whatever streams it has read and however each of them ended,
  the players the tables have in its world are those whose last event in the lines read is a connection, every other
  world is as it was, and each player is marked online exactly if some world has them.\<close>
theorem roster_follows_log:
  assumes "answers db" and "n > 0" and "answered streams" and "roster_ok (ig_db s)"
    and run: "seqo (forget_world db n) (ingest_rounds n lo hi streams lo) s = (r, s')"
  shows "(\<exists>waits. r = Ok waits) \<and> roster_ok (ig_db s') \<and>
    (\<forall>m pid. present (ig_db s') m pid \<longleftrightarrow>
       (if m = n then online_after (rev (told_events streams)) pid else present (ig_db s) m pid))"
proof -
  have "wp (seqo (forget_world db n) (ingest_rounds n lo hi streams lo))
    (\<lambda>waits s'. roster_ok (ig_db s') \<and> (\<forall>m pid. present (ig_db s') m pid \<longleftrightarrow>
       (if m = n then online_after (rev (told_events streams)) pid else present (ig_db s) m pid))) (\<lambda>_ _. False) s"
    unfolding wp_seqo
  proof (rule wp_mono [OF forget_world_wp [OF assms(1,2,4)]], goal_cases)
    case (1 _ s1)
    then have start: "in_step n s1" "present (ig_db s1) n = (\<lambda>_. False)" by (auto simp: fun_eq_iff)
    show ?case
      by (rule wp_mono [OF ingest_rounds_wp [OF assms(2) start(1) assms(3)]])
        (use 1 in \<open>auto simp: told_def in_step_def who_after_nobody start(2)\<close>)
  qed simp
  then show ?thesis using run by (auto simp: wp_def split: res.splits)
qed

text \<open>C23: The events a worker records: from its start to its end, a player's joins and leaves alternate and begin with
  a join, as many sessions are counted as joins are recorded, and when it ends nobody is left in its world. The joins
  are those of all lines read, so that the lines a stream opened again repeats are recorded and counted again.\<close>
theorem worker_events:
  assumes db: "answers db" "answers db'" and "n > 0" and "answered streams" and "roster_ok (ig_db s)"
    and run: "Ingest_Run db db' n delays streams s = (r, s')"
  shows "\<exists>waits new. r = Ok waits \<and> roster_ok (ig_db s') \<and> (\<forall>pid. \<not> present (ig_db s') n pid) \<and>
    noted (ro_events (ig_db s')) = noted (ro_events (ig_db s)) @ map as_noted new \<and>
    new = changes (\<lambda>_. False) (told_events streams) \<and>
    (\<forall>pid. sessions (ig_db s') pid = sessions (ig_db s) pid + int (count_list new (pid, True))) \<and>
    (\<forall>pid i. i < length (filter (\<lambda>ev. fst ev = pid) new) \<longrightarrow> snd (filter (\<lambda>ev. fst ev = pid) new ! i) = even i)"
proof -
  let ?new = "changes (\<lambda>_. False) (told_events streams)"
  let ?Q = "\<lambda>s'. roster_ok (ig_db s') \<and> (\<forall>pid. \<not> present (ig_db s') n pid) \<and>
    noted (ro_events (ig_db s')) = noted (ro_events (ig_db s)) @ map as_noted ?new \<and>
    (\<forall>pid. sessions (ig_db s') pid = sessions (ig_db s) pid + int (count_list ?new (pid, True)))"
  have "wp (Ingest_Run db db' n delays streams) (\<lambda>_. ?Q) (\<lambda>_ _. False) s"
    unfolding Ingest_Run_def wp_seqo wp_bindo
  proof (rule wp_mono [OF forget_world_wp [OF db(1) assms(3,5)]], goal_cases)
    case (1 _ s1)
    then have start: "in_step n s1" "present (ig_db s1) n = (\<lambda>_. False)" by (auto simp: fun_eq_iff)
    have "wp (forget_world db' n) (\<lambda>_. ?Q) (\<lambda>_ _. False) s2" if "in_step n s2" "told n (told_events streams) s1 s2" for s2
      by (rule wp_mono [OF forget_world_wp [OF db(2) assms(3)]])
        (use that 1 start in \<open>auto simp: in_step_def told_def\<close>)
    then show ?case
      by (intro wp_mono [OF ingest_rounds_wp [OF assms(3) start(1) assms(4)]]) (auto simp: wp)
  qed simp
  then obtain waits where "r = Ok waits" "?Q s'" using run by (auto simp: wp_def split: res.splits)
  moreover have "\<forall>pid i. i < length (filter (\<lambda>ev. fst ev = pid) ?new) \<longrightarrow>
      snd (filter (\<lambda>ev. fst ev = pid) ?new ! i) = even i"
    using changes_alternate [of _ _ "\<lambda>_. False"] by simp
  ultimately show ?thesis by blast
qed

lemma backoffs_0: "bs \<noteq> [] \<Longrightarrow> backoffs lo hi bs d ! 0 = (if bs ! 0 then d else lo)"
  by (cases bs) auto

lemma backoffs_Suc:
  "Suc i < length bs \<Longrightarrow> backoffs lo hi bs d ! Suc i =
    (if bs ! Suc i \<and> bs ! i then min hi (2 * backoffs lo hi bs d ! i) else lo)"
proof (induction bs arbitrary: i d)
  case (Cons b bs)
  show ?case
  proof (cases i)
    case 0
    then show ?thesis using Cons.prems by (cases bs) auto
  next
    case (Suc k)
    then show ?thesis using Cons.prems Cons.IH [of k] by (cases b) simp_all
  qed
qed simp

lemma backoffs_bounds:
  assumes "lo \<le> hi" and "0 < lo"
  shows "lo \<le> d \<Longrightarrow> d \<le> hi \<Longrightarrow> w \<in> set (backoffs lo hi bs d) \<Longrightarrow> lo \<le> w \<and> w \<le> hi"
proof (induction bs arbitrary: d)
  case (Cons b bs)
  show ?case using Cons.prems Cons.IH [of "min hi (2 * d)"] Cons.IH [of lo] assms
    by (cases b) (simp_all, linarith+)
qed simp

text \<open>How long a worker waits: after a stream that ended properly the initial delay, after one that broke the
  initial delay too and then twice the last delay for each further one, never more than the maximum; the worker itself
  never fails.\<close>
theorem retry_backoff:
  assumes "answers db" and "answers db'" and "n > 0" and "answered streams" and "roster_ok (ig_db s)"
    and "ingest_delays delays = (lo, hi)" and "lo \<le> hi"
    and run: "Ingest_Run db db' n delays streams s = (r, s')"
  shows "\<exists>waits. r = Ok waits \<and> length waits = length streams \<and>
    (\<forall>i < length streams. lo \<le> waits ! i \<and> waits ! i \<le> hi \<and>
       waits ! i = (if broken (streams ! i) \<and> i > 0 \<and> broken (streams ! (i - 1)) then min hi (2 * waits ! (i - 1)) else lo))"
proof -
  have "lo > 0" using assms(6) by (auto simp: ingest_delays_def RetryDelay_def split: if_splits)
  have "wp (Ingest_Run db db' n delays streams) (\<lambda>waits _. waits = backoffs lo hi (map broken streams) lo) (\<lambda>_ _. False) s"
    unfolding Ingest_Run_def wp_seqo wp_bindo assms(6) fst_conv snd_conv
  proof (rule wp_mono [OF forget_world_wp [OF assms(1,3,5)]], goal_cases)
    case (1 _ s1)
    then show ?case
    proof (intro wp_mono [OF ingest_rounds_wp [OF assms(3) _ assms(4)]], goal_cases)
      case (2 waits s2)
      then have "roster_ok (ig_db s2)" by (simp add: in_step_def)
      then show ?case unfolding wp by (intro wp_mono [OF forget_world_wp [OF assms(2,3)]]) (use 2 in auto)
    qed auto
  qed simp
  then obtain waits where waits: "r = Ok waits" "waits = backoffs lo hi (map broken streams) lo"
    using run by (auto simp: wp_def split: res.splits)
  have len: "length (backoffs lo hi bs d) = length bs" for bs d
    by (induction bs arbitrary: d) simp_all
  have "lo \<le> waits ! i \<and> waits ! i \<le> hi" if "i < length streams" for i
    using backoffs_bounds [OF \<open>lo \<le> hi\<close> \<open>lo > 0\<close>, of lo "waits ! i" "map broken streams"] that len waits(2) \<open>lo \<le> hi\<close>
      nth_mem [of i waits] by simp
  moreover have "waits ! i = (if broken (streams ! i) \<and> i > 0 \<and> broken (streams ! (i - 1)) then min hi (2 * waits ! (i - 1)) else lo)"
    if "i < length streams" for i
  proof (cases i)
    case 0
    then show ?thesis using that backoffs_0 [of "map broken streams" lo hi lo] unfolding waits(2) by auto
  next
    case (Suc k)
    then have "Suc k < length (map broken streams)" using that by simp
    note wait = backoffs_Suc [OF this, of lo hi lo]
    have "map broken streams ! Suc k = broken (streams ! Suc k)" "map broken streams ! k = broken (streams ! k)"
      using that Suc by simp_all
    then show ?thesis unfolding waits(2) Suc wait by simp
  qed
  moreover have "length waits = length streams" by (simp add: waits(2) len)
  ultimately show ?thesis using waits(1) by blast
qed

section \<open>The supervisor\<close>

definition supervised :: "Supervisor \<Rightarrow> bool" where
  \<comment> \<open>one worker a world, and every worker ever started is either there or was cancelled once\<close>
  "supervised s \<longleftrightarrow> distinct (map fst (su_workers s)) \<and>
     mset (map snd (su_workers s)) + mset (su_cancelled s) = mset [0..<su_next s]"

lemma mset_update_new: "k \<notin> fst ` set m \<Longrightarrow> mset (map snd (AList.update k v m)) = add_mset v (mset (map snd m))"
  by (induction m) auto

lemma start_worker_supervised:
  assumes "supervised s"
  shows "supervised (start_worker n s)"
proof (cases "map_of (su_workers s) n")
  case None
  then have "n \<notin> fst ` set (su_workers s)" by (simp add: map_of_eq_None_iff)
  then have "mset (map snd (AList.update n (su_next s) (su_workers s))) = add_mset (su_next s) (mset (map snd (su_workers s)))"
    by (rule mset_update_new)
  then show ?thesis using assms None by (simp add: supervised_def start_worker_def distinct_update del: mset_map)
qed (use assms in \<open>simp add: start_worker_def\<close>)

lemma stop_workers_supervised:
  assumes "supervised s"
  shows "supervised (stop_workers keep s)"
proof -
  have "mset (map snd ws) = mset (map snd (filter (\<lambda>(n, w). keep n) ws)) + mset (map snd (filter (\<lambda>(n, w). \<not> keep n) ws))"
    for ws :: "(int \<times> nat) list"
    by (induction ws) auto
  then show ?thesis using assms
    by (auto simp: supervised_def stop_workers_def distinct_map_filter ac_simps)
qed

lemma start_worker_simps:
  "su_cancelled (start_worker n s) = su_cancelled s"
  "map_of (su_workers (start_worker n s)) m = (if m = n \<and> map_of (su_workers s) n = None then Some (su_next s) else map_of (su_workers s) m)"
  by (auto simp: start_worker_def map_of_update)

lemma started_cancelled: "su_cancelled (fold start_worker ns s) = su_cancelled s"
  by (induction ns arbitrary: s) (simp_all add: start_worker_simps)

lemma started_keeps: "map_of (su_workers s) n = Some w \<Longrightarrow> map_of (su_workers (fold start_worker ns s)) n = Some w"
proof (induction ns arbitrary: s)
  case (Cons a ns)
  then have "map_of (su_workers (start_worker a s)) n = Some w" by (auto simp: start_worker_simps)
  then show ?case using Cons.IH by simp
qed simp

lemma started_all: "map_of (su_workers (fold start_worker ns s)) n \<noteq> None \<longleftrightarrow> n \<in> set ns \<or> map_of (su_workers s) n \<noteq> None"
proof (induction ns arbitrary: s)
  case (Cons a ns)
  then show ?case by (cases "map_of (su_workers s) a") (auto simp: start_worker_simps)
qed simp

lemma reconcile_supervised: "supervised s \<Longrightarrow> supervised (Supervisor_Reconcile listed s)"
proof (cases listed)
  case (Inr insts)
  assume "supervised s"
  then have "supervised (fold start_worker ns s)" for ns
    by (induction ns arbitrary: s) (simp_all add: start_worker_supervised)
  then show ?thesis using Inr by (simp add: Supervisor_Reconcile_def Let_def stop_workers_supervised)
qed (simp add: Supervisor_Reconcile_def)

text \<open>Reconciling: after a listing that succeeded there is exactly one worker for each running world and none for
  any other; a world that keeps running keeps its worker, and the workers cancelled are those of the worlds that stopped.\<close>
theorem Reconcile_exact:
  assumes "supervised s"
  shows "set (ActiveWorkers (Supervisor_Reconcile (Inr insts) s)) = {Number i |i. i \<in> set insts \<and> State i = StateRunning} \<and>
    distinct (ActiveWorkers (Supervisor_Reconcile (Inr insts) s)) \<and>
    (\<forall>n w. map_of (su_workers s) n = Some w \<longrightarrow>
       (if n \<in> {Number i |i. i \<in> set insts \<and> State i = StateRunning}
        then map_of (su_workers (Supervisor_Reconcile (Inr insts) s)) n = Some w
        else w \<in> set (su_cancelled (Supervisor_Reconcile (Inr insts) s)))) \<and>
    Supervisor_Reconcile (Inl e) s = s"
proof -
  let ?ns = "running_numbers insts" and ?s = "Supervisor_Reconcile (Inr insts) s"
  have ns: "set ?ns = {Number i |i. i \<in> set insts \<and> State i = StateRunning}" by (auto simp: running_numbers_def)
  let ?f = "fold start_worker ?ns s"
  have workers: "su_workers ?s = filter (\<lambda>(n, w). n \<in> set ?ns) (su_workers ?f)"
    by (simp add: Supervisor_Reconcile_def stop_workers_def Let_def)
  have "supervised ?s" by (rule reconcile_supervised [OF assms])
  then have dist: "distinct (ActiveWorkers ?s)" by (simp add: supervised_def ActiveWorkers_def)
  have started: "n \<in> fst ` set (su_workers ?f)" if "n \<in> set ?ns" for n
    using started_all [of ?ns s n] that by (metis map_of_eq_None_iff)
  have "set (ActiveWorkers ?s) = set ?ns"
    using started by (force simp: ActiveWorkers_def workers)
  moreover have "if n \<in> set ?ns then map_of (su_workers ?s) n = Some w else w \<in> set (su_cancelled ?s)"
    if "map_of (su_workers s) n = Some w" for n w
  proof (cases "n \<in> set ?ns")
    case True
    have "map_of (filter (\<lambda>(k, w). k \<in> A) xs) n = map_of xs n" if "n \<in> A" for A and xs :: "(int \<times> nat) list"
      using that by (induction xs) auto
    then show ?thesis using True started_keeps [OF that, of ?ns] by (simp add: workers)
  next
    case False
    have "(n, w) \<in> set (su_workers ?f)" using started_keeps [OF that, of ?ns] by (rule map_of_SomeD)
    then show ?thesis using False by (force simp: Supervisor_Reconcile_def stop_workers_def Let_def)
  qed
  moreover have "Supervisor_Reconcile (Inl e) s = s" by (simp add: Supervisor_Reconcile_def)
  ultimately show ?thesis using dist unfolding ns by blast
qed

text \<open>C24: No worker is left behind: when the supervisor ends, every worker it ever started has been cancelled, and each
  of them once.\<close>
theorem workers_all_cancelled:
  "ActiveWorkers (Supervisor_Run listings NewSupervisor) = [] \<and>
    distinct (su_cancelled (Supervisor_Run listings NewSupervisor)) \<and>
    set (su_cancelled (Supervisor_Run listings NewSupervisor)) = {..<su_next (Supervisor_Run listings NewSupervisor)}"
proof -
  have "supervised NewSupervisor" by (simp add: NewSupervisor_def supervised_def)
  moreover have "supervised s \<Longrightarrow> supervised (fold Supervisor_Reconcile listings s)" for s
    by (induction listings arbitrary: s) (simp_all add: reconcile_supervised)
  ultimately have "supervised (Supervisor_Run listings NewSupervisor)" by (simp add: Supervisor_Run_def stopAll_def stop_workers_supervised)
  moreover have none: "su_workers (Supervisor_Run listings NewSupervisor) = []"
    by (simp add: Supervisor_Run_def stopAll_def stop_workers_def)
  ultimately have same: "mset (su_cancelled (Supervisor_Run listings NewSupervisor)) = mset [0..<su_next (Supervisor_Run listings NewSupervisor)]"
    by (simp add: supervised_def)
  have "distinct (su_cancelled (Supervisor_Run listings NewSupervisor))" using mset_eq_imp_distinct_iff [OF same] by simp
  moreover have "set (su_cancelled (Supervisor_Run listings NewSupervisor)) = {..<su_next (Supervisor_Run listings NewSupervisor)}"
    using mset_eq_setD [OF same] by (simp add: atLeast0LessThan)
  ultimately show ?thesis using none by (simp add: ActiveWorkers_def)
qed

section \<open>Instances of the properties\<close>

definition silent :: Db where "silent = (\<lambda>_. None)"

definition log_line :: "string \<Rightarrow> LogLine" where
  "log_line t = \<lparr>ln_text = t, ln_now = 0, ln_store = silent\<rparr>"

definition empty_ingest :: Ingest where
  "empty_ingest = \<lparr>ig_active = [], ig_db = \<lparr>ro_players = [], ro_presence = [], ro_audit = [], ro_events = []\<rparr>\<rparr>"

definition came_and_went :: Stream where
  "came_and_went = Inr ([log_line ''Got connection SteamID 76561198000000001'', log_line ''Closing socket 76561198000000001''], None)"

lemma silent_answers: "answers silent" by (simp add: answers_def silent_def)

lemma empty_roster_ok: "roster_ok (ig_db empty_ingest)"
  by (simp add: roster_ok_def settled_player_def flagged_def present_def empty_ingest_def)

lemma came_and_went_answered: "answered [came_and_went, Inl e]" "answered [came_and_went, came_and_went]"
  by (simp_all add: answered_def stream_lines_def came_and_went_def log_line_def silent_answers)

lemma came_and_went_told:
  "log_events (stream_lines came_and_went) = [(''76561198000000001'', True), (''76561198000000001'', False)]"
  by code_simp

theorem roster_follows_log_witness:
  "\<not> present (ig_db (snd (seqo (forget_world silent 1) (ingest_rounds 1 1 4 [came_and_went, came_and_went] 1) empty_ingest)))
     1 ''76561198000000001''"
  using roster_follows_log [OF silent_answers _ came_and_went_answered(2) empty_roster_ok prod.collapse [symmetric],
      of 1 1 4] came_and_went_told
  by (simp add: told_events_def)

theorem worker_events_witness:
  "noted (ro_events (ig_db (snd (Ingest_Run silent silent 1 [] [came_and_went, came_and_went] empty_ingest)))) =
     [(''join'', ''76561198000000001''), (''leave'', ''76561198000000001''),
      (''join'', ''76561198000000001''), (''leave'', ''76561198000000001'')]"
  using worker_events [OF silent_answers silent_answers _ came_and_went_answered(2) empty_roster_ok prod.collapse [symmetric],
      of 1 "[]"] came_and_went_told
  by (auto simp: told_events_def as_noted_def) (simp add: empty_ingest_def noted_def)

theorem retry_backoff_witness:
  "\<exists>waits. fst (Ingest_Run silent silent 1 [1, 3] [Inl (Errorf ''down''), Inl (Errorf ''down''), Inl (Errorf ''down'')] empty_ingest)
     = Ok waits \<and> waits ! 0 = 1 \<and> waits ! 1 = 2 \<and> waits ! 2 = 3"
proof -
  let ?ss = "[Inl (Errorf ''down''), Inl (Errorf ''down''), Inl (Errorf ''down'')] :: Stream list"
  have "ingest_delays [1, 3] = (1, 3)" by (simp add: ingest_delays_def)
  moreover have "answered ?ss" by (simp add: answered_def stream_lines_def)
  ultimately obtain waits where w: "fst (Ingest_Run silent silent 1 [1, 3] ?ss empty_ingest) = Ok waits"
    "\<And>i. i < 3 \<Longrightarrow> waits ! i = (if broken (?ss ! i) \<and> i > 0 \<and> broken (?ss ! (i - 1)) then min 3 (2 * waits ! (i - 1)) else 1)"
    using retry_backoff [OF silent_answers silent_answers _ _ empty_roster_ok _ _ prod.collapse [symmetric], of 1 ?ss "[1, 3]" 1 3]
    by auto
  have "waits ! 0 = 1" using w(2) [of 0] by simp
  moreover have "waits ! 1 = 2" using w(2) [of 1] \<open>waits ! 0 = 1\<close> by (simp add: broken_def)
  moreover have "waits ! 2 = 3" using w(2) [of 2] \<open>waits ! 1 = 2\<close> by (simp add: broken_def numeral_2_eq_2)
  ultimately show ?thesis using w(1) by blast
qed

theorem Reconcile_exact_witness:
  "set (ActiveWorkers (Supervisor_Reconcile (Inr []) \<lparr>su_workers = [(3, 0)], su_cancelled = [], su_next = 1\<rparr>)) = {} \<and>
   0 \<in> set (su_cancelled (Supervisor_Reconcile (Inr []) \<lparr>su_workers = [(3, 0)], su_cancelled = [], su_next = 1\<rparr>))"
proof -
  have "supervised \<lparr>su_workers = [(3, 0)], su_cancelled = [], su_next = 1\<rparr>" by (simp add: supervised_def)
  from Reconcile_exact [OF this, of "[]" "Errorf ''''"] show ?thesis by simp
qed

end
