(* ===== verification/Schedules.thy ===== *)
theory Schedules
  imports ManagerBackups
begin

text \<open>
  \<open>internal/app/backups/scheduler.go\<close>, the daily backups, and \<open>internal/infra/backups/instance_backups.go\<close>, the
  pruning of archives they are wired to.

  The scheduler's collaborators are parameters: functions on the world outside, of type \<open>'x\<close>. Every call of one is
  kept in \<open>sw_calls\<close>. The goroutine of \<open>Start\<close> is a fold over the ticks it receives until it is cancelled. A date
  stands for its day, counted from the epoch; its text and its day determine each other.
\<close>

datatype SchedCall =
    SExec Instance string
  | SJob string string string string
  | SPrune string int int
  | SAudit string string string
  | SEvent string string

record 'x SchedWorld =
  sw_calls :: "SchedCall list"
  sw_out :: 'x

type_synonym ('x, 'a) sop = "('x SchedWorld, 'a) op"

record 'x BackupScheduler =
  sc_instances :: "('x, Instance list) op option"
  sc_jobRunner :: "(string \<Rightarrow> string \<Rightarrow> string \<Rightarrow> string \<Rightarrow> ('x, unit) op) option"
  sc_cmdExec :: "(Instance \<Rightarrow> string \<Rightarrow> ('x, unit) op) option"
  sc_pruner :: "(string \<Rightarrow> int \<Rightarrow> int \<Rightarrow> ('x, unit) op) option"
  sc_audit :: "(string \<Rightarrow> string \<Rightarrow> string \<Rightarrow> ('x, unit) op) option"
  sc_event :: "(string \<Rightarrow> string \<Rightarrow> ('x, unit) op) option"
  sc_namespace :: string
  sc_backupsPVC :: string
  sc_keep :: int

section \<open>Options\<close>

definition New_scheduler ::
    "('x, Instance list) op option \<Rightarrow> (string \<Rightarrow> string \<Rightarrow> string \<Rightarrow> string \<Rightarrow> ('x, unit) op) option \<Rightarrow>
     ('x BackupScheduler \<Rightarrow> 'x BackupScheduler) list \<Rightarrow> 'x BackupScheduler" where
  "New_scheduler instances runner opts =
     fold (\<lambda>opt s. opt s) opts
       \<lparr>sc_instances = instances, sc_jobRunner = runner, sc_cmdExec = None, sc_pruner = None, sc_audit = None,
        sc_event = None, sc_namespace = ''minecraft-modded'', sc_backupsPVC = ''minecraft-modded-backups'', sc_keep = 5\<rparr>"

definition WithNamespace :: "string \<Rightarrow> 'x BackupScheduler \<Rightarrow> 'x BackupScheduler" where
  "WithNamespace ns s = (if ns \<noteq> '''' then s\<lparr>sc_namespace := ns\<rparr> else s)"

definition WithBackupsPVC :: "string \<Rightarrow> 'x BackupScheduler \<Rightarrow> 'x BackupScheduler" where
  "WithBackupsPVC pvc s = (if pvc \<noteq> '''' then s\<lparr>sc_backupsPVC := pvc\<rparr> else s)"

definition WithKeep :: "int \<Rightarrow> 'x BackupScheduler \<Rightarrow> 'x BackupScheduler" where
  "WithKeep keep s = (if keep > 0 then s\<lparr>sc_keep := keep\<rparr> else s)"

definition Scheduler_Namespace :: "'x BackupScheduler option \<Rightarrow> string" where
  "Scheduler_Namespace s =
     (case s of None \<Rightarrow> ''minecraft-modded''
      | Some s \<Rightarrow> if sc_namespace s = '''' then ''minecraft-modded'' else sc_namespace s)"

definition Scheduler_BackupsPVC :: "'x BackupScheduler option \<Rightarrow> string" where
  "Scheduler_BackupsPVC s =
     (case s of None \<Rightarrow> ''minecraft-modded-backups''
      | Some s \<Rightarrow> if sc_backupsPVC s = '''' then ''minecraft-modded-backups'' else sc_backupsPVC s)"

definition Scheduler_Keep :: "'x BackupScheduler option \<Rightarrow> int" where
  "Scheduler_Keep s = (case s of None \<Rightarrow> 5 | Some s \<Rightarrow> if sc_keep s \<le> 0 then 5 else sc_keep s)"

section \<open>The daily pass\<close>

definition outside :: "('x, 'a) op \<Rightarrow> ('x, 'a) sop" where
  "outside m = zoom sw_out (\<lambda>x w. w\<lparr>sw_out := x\<rparr>) m"

definition called :: "SchedCall \<Rightarrow> ('x, 'a) op \<Rightarrow> ('x, 'a) sop" where
  "called c m = seqo (modify (\<lambda>w. w\<lparr>sw_calls := sw_calls w @ [c]\<rparr>)) (outside m)"

definition saving_paused :: "(Instance \<Rightarrow> string \<Rightarrow> ('x, unit) op) option \<Rightarrow> Instance \<Rightarrow> ('x, unit) sop \<Rightarrow> ('x, unit) sop" where
  \<comment> \<open>around the rest of \<open>backupOne\<close>, for a Minecraft world\<close>
  "saving_paused exec inst rest =
     (case exec of
        None \<Rightarrow> rest
      | Some f \<Rightarrow>
          if inst_GameID inst \<noteq> GameMinecraft then rest
          else seqo (ignore (called (SExec inst ''/save-off'') (f inst ''/save-off'')))
              (seqo (ignore (called (SExec inst ''/save-all flush'') (f inst ''/save-all flush'')))
                (deferred rest (ignore (called (SExec inst ''/save-on'') (f inst ''/save-on''))))))"

definition daily_job :: "'x BackupScheduler \<Rightarrow> (string \<Rightarrow> string \<Rightarrow> string \<Rightarrow> string \<Rightarrow> ('x, unit) op) \<Rightarrow> string \<Rightarrow> string \<Rightarrow>
    GameProfile \<Rightarrow> Instance \<Rightarrow> ('x, unit) sop" where
  \<comment> \<open>\<open>unix\<close> and \<open>stamp\<close> are the clock, as it is written into the two names\<close>
  "daily_job s run unix stamp profile inst =
     (let prefix = gp_Prefix profile;
          job = prefix @ ''-backup-'' @ Slug inst @ ''-'' @ pad02 (Number inst) @ ''-daily-'' @ unix
      in bindo (of_outcome (FormatGameBackupFileName profile (Slug inst) (Number inst) ''daily'' stamp)) (\<lambda>archive.
         bindo (of_outcome (PVCName inst profile)) (\<lambda>pvc.
         bindo (attempt (called (SJob job archive pvc (sc_backupsPVC s)) (run job archive pvc (sc_backupsPVC s)))) (\<lambda>r.
           case r of
             Inl e \<Rightarrow> ret ()
           | Inr _ \<Rightarrow>
               seqo (optO (sc_pruner s) (\<lambda>prune.
                 ignore (called (SPrune (Slug inst) (Number inst) (sc_keep s)) (prune (Slug inst) (Number inst) (sc_keep s)))))
               (seqo (optO (sc_audit s) (\<lambda>record.
                 let detail = ''Daily backup created: '' @ archive
                 in ignore (called (SAudit ''system'' (prefix @ ''-backup-daily'') detail) (record ''system'' (prefix @ ''-backup-daily'') detail))))
                 (optO (sc_event s) (\<lambda>record.
                   let detail = ''World #'' @ pad02 (Number inst) @ '' '' @ inst_Name inst
                   in ignore (called (SEvent (prefix @ ''-backup-daily'') detail) (record (prefix @ ''-backup-daily'') detail)))))))))"

definition backupOne :: "'x BackupScheduler \<Rightarrow> (string \<Rightarrow> string \<Rightarrow> string \<Rightarrow> string \<Rightarrow> ('x, unit) op) \<Rightarrow> string \<Rightarrow> string \<Rightarrow>
    Instance \<Rightarrow> ('x, unit) sop" where
  "backupOne s run unix stamp inst =
     (case ProfileFor (inst_GameID inst) of
        None \<Rightarrow> ret ()
      | Some profile \<Rightarrow> saving_paused (sc_cmdExec s) inst (daily_job s run unix stamp profile inst))"

definition RunDaily :: "'x BackupScheduler \<Rightarrow> string \<Rightarrow> string \<Rightarrow> ('x, unit) sop" where
  "RunDaily s unix stamp =
     (case (sc_instances s, sc_jobRunner s) of
        (Some list_instances, Some run) \<Rightarrow>
          bindo (attempt (outside list_instances)) (\<lambda>r.
            case r of
              Inl e \<Rightarrow> ret ()
            | Inr insts \<Rightarrow>
                forO (\<lambda>inst. if State inst \<noteq> StateRunning then ret () else backupOne s run unix stamp inst) insts)
      | _ \<Rightarrow> ret ())"

section \<open>The clock\<close>

definition day_ns :: int where "day_ns = 24 * 60 * 60 * 10 ^ 9"
definition hour_ns :: int where "hour_ns = 60 * 60 * 10 ^ 9"

definition utc_day :: "Time \<Rightarrow> int" where
  "utc_day t = t div day_ns"

definition utc_hour :: "Time \<Rightarrow> int" where
  "utc_hour t = (t mod day_ns) div hour_ns"

fun scheduler_loop ::
    "'x BackupScheduler \<Rightarrow> (Time \<Rightarrow> string) \<Rightarrow> (Time \<Rightarrow> string) \<Rightarrow> Time list \<Rightarrow> int option \<Rightarrow> ('x, Time list) sop" where
  \<comment> \<open>the loop of \<open>Start\<close> with the day of the last pass; the ticks it made a pass at\<close>
  "scheduler_loop s unix stamp [] lastDailyDate = ret []"
| "scheduler_loop s unix stamp (now # ticks) lastDailyDate =
     (if utc_hour now = 4 \<and> lastDailyDate \<noteq> Some (utc_day now) then
        seqo (RunDaily s (unix now) (stamp now))
          (bindo (scheduler_loop s unix stamp ticks (Some (utc_day now))) (\<lambda>runs. ret (now # runs)))
      else scheduler_loop s unix stamp ticks lastDailyDate)"

definition Scheduler_Start :: "'x BackupScheduler \<Rightarrow> (Time \<Rightarrow> string) \<Rightarrow> (Time \<Rightarrow> string) \<Rightarrow> Time list \<Rightarrow> ('x, Time list) sop" where
  "Scheduler_Start s unix stamp ticks = scheduler_loop s unix stamp ticks None"

section \<open>Pruning, as the schedulers are wired\<close>

definition PruneBackups :: "string \<Rightarrow> string \<Rightarrow> int \<Rightarrow> int \<Rightarrow> BackupsDir \<Rightarrow> BackupsDir" where
  \<comment> \<open>the archives of the Minecraft and of the Valheim world of this slug and number together\<close>
  "PruneBackups backupsDir slug n keepCount d =
     (if backupsDir = '''' \<or> keepCount \<le> 0 then d
      else prune_oldest (nat keepCount)
             (glob_archives (archive_prefix ''mc'' slug n) d @ glob_archives (archive_prefix ''valheim'' slug n) d) d)"

end
