(* ===== verification/SchedulesProofs.thy ===== *)
theory SchedulesProofs
  imports Schedules ManagerBackupsProofs
begin

text \<open>
  The daily backups: when a pass is made, what a pass does for each world, and what their pruning keeps.
\<close>

section \<open>When a pass is made\<close>

fun due :: "Time list \<Rightarrow> int option \<Rightarrow> Time list" where
  \<comment> \<open>the ticks a pass is made at\<close>
  "due [] d = []"
| "due (t # ts) d = (if utc_hour t = 4 \<and> d \<noteq> Some (utc_day t) then t # due ts (Some (utc_day t)) else due ts d)"

definition steady :: "('x, 'a) op \<Rightarrow> bool" where
  \<comment> \<open>it fails if it likes, and does not panic\<close>
  "steady m \<longleftrightarrow> (\<forall>x. wp m (\<lambda>_ _. True) (\<lambda>_ _. True) x)"

definition steady_scheduler :: "'x BackupScheduler \<Rightarrow> bool" where
  "steady_scheduler s \<longleftrightarrow>
     (\<forall>m. sc_instances s = Some m \<longrightarrow> steady m) \<and> (\<forall>f a b c d. sc_jobRunner s = Some f \<longrightarrow> steady (f a b c d)) \<and>
     (\<forall>f a b. sc_cmdExec s = Some f \<longrightarrow> steady (f a b)) \<and> (\<forall>f a b c. sc_pruner s = Some f \<longrightarrow> steady (f a b c)) \<and>
     (\<forall>f a b c. sc_audit s = Some f \<longrightarrow> steady (f a b c)) \<and> (\<forall>f a b. sc_event s = Some f \<longrightarrow> steady (f a b))"

lemma steady_parts:
  assumes "steady_scheduler s"
  shows "sc_instances s = Some m \<Longrightarrow> steady m" "sc_jobRunner s = Some run \<Longrightarrow> steady (run a b c d)"
    "sc_cmdExec s = Some exec \<Longrightarrow> steady (exec inst a)" "sc_pruner s = Some prune \<Longrightarrow> steady (prune a n k)"
    "sc_audit s = Some audit \<Longrightarrow> steady (audit a b c)" "sc_event s = Some event \<Longrightarrow> steady (event a b)"
  using assms by (simp_all add: steady_scheduler_def)

lemma due_sub: "t \<in> set (due ts d) \<Longrightarrow> t \<in> set ts \<and> utc_hour t = 4"
  by (induction ts d rule: due.induct) (auto split: if_splits)

lemma due_days:
  assumes "sorted ts" and "\<forall>t\<in>set ts. case d of None \<Rightarrow> True | Some n \<Rightarrow> n \<le> utc_day t"
  shows "distinct (map utc_day (due ts d)) \<and>
    utc_day ` set (due ts d) = utc_day ` {t \<in> set ts. utc_hour t = 4} - (case d of None \<Rightarrow> {} | Some n \<Rightarrow> {n})"
  using assms
proof (induction ts d rule: due.induct)
  case (2 t ts d)
  have later: "\<forall>u\<in>set ts. utc_day t \<le> utc_day u"
    using 2(3) by (auto simp: utc_day_def day_ns_def intro: zdiv_mono1)
  show ?case
  proof (cases "utc_hour t = 4 \<and> d \<noteq> Some (utc_day t)")
    case True
    have rest: "distinct (map utc_day (due ts (Some (utc_day t))))"
        "utc_day ` set (due ts (Some (utc_day t))) = utc_day ` {u \<in> set ts. utc_hour u = 4} - {utc_day t}"
      using 2(1) [OF True] 2(3) later by simp_all
    have "n \<notin> utc_day ` {u \<in> set ts. utc_hour u = 4} \<and> n \<noteq> utc_day t" if "d = Some n" for n
      using that True 2(4) later by fastforce
    moreover have "{u \<in> set (t # ts). utc_hour u = 4} = insert t {u \<in> set ts. utc_hour u = 4}" using True by auto
    ultimately show ?thesis using True rest by (cases d) auto
  next
    case False
    then have "distinct (map utc_day (due ts d)) \<and>
        utc_day ` set (due ts d) = utc_day ` {u \<in> set ts. utc_hour u = 4} - (case d of None \<Rightarrow> {} | Some n \<Rightarrow> {n})"
      using 2(2) 2(3,4) by simp
    then show ?thesis using False by (cases d) auto
  qed
qed simp

section \<open>What a pass does\<close>

definition may_note :: "Instance \<Rightarrow> int \<Rightarrow> SchedCall \<Rightarrow> bool" where
  \<comment> \<open>what follows a job: pruning the archives of the same world, and the records\<close>
  "may_note inst keep c =
     (case c of SPrune slug n k \<Rightarrow> slug = Slug inst \<and> n = Number inst \<and> k = keep
      | SAudit a b d \<Rightarrow> True | SEvent a d \<Rightarrow> True | _ \<Rightarrow> False)"

definition pauses :: "'x BackupScheduler \<Rightarrow> Instance \<Rightarrow> bool" where
  "pauses s inst \<longleftrightarrow> sc_cmdExec s \<noteq> None \<and> inst_GameID inst = GameMinecraft"

definition day_block :: "'x BackupScheduler \<Rightarrow> Instance \<Rightarrow> SchedCall list \<Rightarrow> bool" where
  \<comment> \<open>one job on the world's own volume, between pausing and resuming the saving\<close>
  "day_block s inst cs \<longleftrightarrow>
     (\<exists>profile job archive pvc notes. ProfileFor (inst_GameID inst) = Some profile \<and> PVCName inst profile = Val pvc \<and>
        list_all (may_note inst (sc_keep s)) notes \<and>
        cs = (if pauses s inst then [SExec inst ''/save-off'', SExec inst ''/save-all flush''] else []) @
             [SJob job archive pvc (sc_backupsPVC s)] @ notes @ (if pauses s inst then [SExec inst ''/save-on''] else []))"

definition calls_wp :: "('x, 'a) sop \<Rightarrow> (SchedCall list \<Rightarrow> bool) \<Rightarrow> bool" where
  \<comment> \<open>it never fails, and makes calls of which \<open>J\<close> holds\<close>
  "calls_wp m J \<longleftrightarrow> (\<forall>w. wp m (\<lambda>_ w'. \<exists>cs. sw_calls w' = sw_calls w @ cs \<and> J cs) (\<lambda>_ _. False) w)"

lemma calls_ret: "J [] \<Longrightarrow> calls_wp (ret x) J"
  by (simp add: calls_wp_def wp)

lemma calls_attempt:
  assumes "steady m"
  shows "calls_wp (attempt (called c m)) (\<lambda>cs. cs = [c])" and "calls_wp (ignore (called c m)) (\<lambda>cs. cs = [c])"
proof -
  have "wp m (\<lambda>_ _. True) (\<lambda>_ _. True) x" for x using assms by (simp add: steady_def)
  then show "calls_wp (attempt (called c m)) (\<lambda>cs. cs = [c])" "calls_wp (ignore (called c m)) (\<lambda>cs. cs = [c])"
    by (auto simp: calls_wp_def called_def outside_def wp elim!: wp_mono)
qed

lemma calls_bind:
  assumes "calls_wp m J" and "\<And>x. calls_wp (f x) K" and "\<And>cs ds. J cs \<Longrightarrow> K ds \<Longrightarrow> L (cs @ ds)"
  shows "calls_wp (bindo m f) L"
  unfolding calls_wp_def wp_bindo
proof
  fix w
  show "wp m (\<lambda>x. wp (f x) (\<lambda>_ w'. \<exists>cs. sw_calls w' = sw_calls w @ cs \<and> L cs) (\<lambda>_ _. False)) (\<lambda>_ _. False) w"
  proof (rule wp_mono [OF spec [OF assms(1) [unfolded calls_wp_def], of w]], goal_cases)
    case (1 x w1)
    then obtain cs where cs: "sw_calls w1 = sw_calls w @ cs" "J cs" by blast
    show ?case by (rule wp_mono [OF spec [OF assms(2) [unfolded calls_wp_def], of x w1]]) (use cs assms(3) in auto)
  qed simp
qed

lemma calls_seq:
  "calls_wp m J \<Longrightarrow> calls_wp n K \<Longrightarrow> (\<And>cs ds. J cs \<Longrightarrow> K ds \<Longrightarrow> L (cs @ ds)) \<Longrightarrow> calls_wp (seqo m n) L"
  unfolding seqo_def by (rule calls_bind)

lemma calls_mono: "calls_wp m J \<Longrightarrow> (\<And>cs. J cs \<Longrightarrow> K cs) \<Longrightarrow> calls_wp m K"
  unfolding calls_wp_def by (fastforce elim: wp_mono)

lemma calls_deferred:
  assumes "calls_wp m J" and "calls_wp c K" and "\<And>cs ds. J cs \<Longrightarrow> K ds \<Longrightarrow> L (cs @ ds)"
  shows "calls_wp (deferred m c) L"
  unfolding calls_wp_def
proof
  fix w
  obtain x w1 cs where m: "m w = (Ok x, w1)" "sw_calls w1 = sw_calls w @ cs" "J cs"
    using spec [OF assms(1) [unfolded calls_wp_def], of w] by (auto simp: wp_def split: prod.splits res.splits)
  obtain y w2 ds where c: "c w1 = (Ok y, w2)" "sw_calls w2 = sw_calls w1 @ ds" "K ds"
    using spec [OF assms(2) [unfolded calls_wp_def], of w1] by (auto simp: wp_def split: prod.splits res.splits)
  show "wp (deferred m c) (\<lambda>_ w'. \<exists>cs. sw_calls w' = sw_calls w @ cs \<and> L cs) (\<lambda>_ _. False) w"
    using m c assms(3) by (simp add: wp_def deferred_def)
qed

lemma calls_optional:
  assumes "\<And>f. c = Some f \<Longrightarrow> calls_wp (g f) (list_all P)"
  shows "calls_wp (optO c g) (list_all P)"
  using assms by (cases c) (auto simp: optO_def intro: calls_ret)

lemma daily_job_calls:
  assumes s: "steady_scheduler s" "sc_jobRunner s = Some run" and "ProfileFor (inst_GameID inst) = Some profile"
  obtains pvc where "PVCName inst profile = Val pvc"
    "calls_wp (daily_job s run unix stamp profile inst) (\<lambda>cs. \<exists>job archive notes.
       cs = SJob job archive pvc (sc_backupsPVC s) # notes \<and> list_all (may_note inst (sc_keep s)) notes)"
proof -
  obtain pvc where pvc: "PVCName inst profile = Val pvc"
    using ProfileFor_registered [OF assms(3)] by (simp add: PVCName_def)
  obtain archive where archive: "FormatGameBackupFileName profile (Slug inst) (Number inst) ''daily'' stamp = Val archive"
    using ProfileFor_registered [OF assms(3)] by (simp add: FormatGameBackupFileName_def)
  have one: "calls_wp (ignore (called c m)) (list_all (may_note inst (sc_keep s)))" if "steady m" "may_note inst (sc_keep s) c" for c m
    by (rule calls_mono [OF calls_attempt(2) [OF that(1)]]) (use that(2) in simp)
  have steady: "steady (run a b c d)" for a b c d by (rule steady_parts(2) [OF s])
  have "calls_wp (daily_job s run unix stamp profile inst) (\<lambda>cs. \<exists>job archive notes.
       cs = SJob job archive pvc (sc_backupsPVC s) # notes \<and> list_all (may_note inst (sc_keep s)) notes)"
  proof -
    let ?notes = "list_all (may_note inst (sc_keep s))"
    note both = calls_seq [where J = ?notes and K = ?notes and L = ?notes]
    have val: "calls_wp (bindo (of_outcome (Val x)) f) J" if "calls_wp (f x) J" for x f J
      using that by (simp add: calls_wp_def wp)
    show ?thesis unfolding daily_job_def Let_def pvc archive
      by (intro val calls_bind [OF calls_attempt(1) [OF steady], where K = ?notes])
        (auto split: sum.split intro!: calls_ret both calls_optional one simp: may_note_def
          intro: steady_parts [OF s(1)])
  qed
  then show thesis using that pvc by blast
qed

lemma backupOne_calls:
  assumes s: "steady_scheduler s" "sc_jobRunner s = Some run" and p: "ProfileFor (inst_GameID inst) = Some profile"
  shows "calls_wp (backupOne s run unix stamp inst) (day_block s inst)"
proof -
  obtain pvc where pvc: "PVCName inst profile = Val pvc"
    "calls_wp (daily_job s run unix stamp profile inst) (\<lambda>cs. \<exists>job archive notes.
       cs = SJob job archive pvc (sc_backupsPVC s) # notes \<and> list_all (may_note inst (sc_keep s)) notes)"
    using daily_job_calls [OF s p] by blast
  show ?thesis
  proof (cases "pauses s inst")
    case True
    then obtain exec where exec: "sc_cmdExec s = Some exec" "inst_GameID inst = GameMinecraft" by (auto simp: pauses_def)
    note send = calls_attempt(2) [OF steady_parts(3) [OF s(1) exec(1), of inst]]
    let ?send = "\<lambda>c. ignore (called (SExec inst c) (exec inst c))"
    let ?rest = "deferred (daily_job s run unix stamp profile inst) (?send ''/save-on'')"
    have rest: "calls_wp ?rest (\<lambda>cs. \<exists>job archive notes. list_all (may_note inst (sc_keep s)) notes \<and>
        cs = SJob job archive pvc (sc_backupsPVC s) # notes @ [SExec inst ''/save-on''])"
      by (rule calls_deferred [OF pvc(2) send]) auto
    have "calls_wp (seqo (?send ''/save-all flush'') ?rest) (\<lambda>cs. \<exists>job archive notes. list_all (may_note inst (sc_keep s)) notes \<and>
        cs = SExec inst ''/save-all flush'' # SJob job archive pvc (sc_backupsPVC s) # notes @ [SExec inst ''/save-on''])"
      by (rule calls_seq [OF send rest]) auto
    then have "calls_wp (seqo (?send ''/save-off'') (seqo (?send ''/save-all flush'') ?rest)) (day_block s inst)"
      by (rule calls_seq [OF send]) (use True p pvc(1) in \<open>auto simp: day_block_def\<close>)
    moreover have "backupOne s run unix stamp inst = seqo (?send ''/save-off'') (seqo (?send ''/save-all flush'') ?rest)"
      using p exec by (simp add: backupOne_def saving_paused_def)
    ultimately show ?thesis by simp
  next
    case False
    then have "backupOne s run unix stamp inst = daily_job s run unix stamp profile inst"
      by (auto simp: backupOne_def p saving_paused_def pauses_def split: option.split)
    then show ?thesis using calls_mono [OF pvc(2), of "day_block s inst"] False p pvc(1)
      by (fastforce simp: day_block_def)
  qed
qed

definition backed_up :: "Instance \<Rightarrow> bool" where
  \<comment> \<open>the running worlds of a game the program knows\<close>
  "backed_up inst \<longleftrightarrow> State inst = StateRunning \<and> ProfileFor (inst_GameID inst) \<noteq> None"

lemma pass_calls:
  assumes s: "steady_scheduler s" "sc_jobRunner s = Some run"
  shows "calls_wp (forO (\<lambda>inst. if State inst \<noteq> StateRunning then ret () else backupOne s run unix stamp inst) insts)
    (\<lambda>cs. \<exists>blocks. cs = concat blocks \<and> list_all2 (day_block s) (filter backed_up insts) blocks)"
proof (induction insts)
  case Nil
  show ?case by (simp add: calls_ret)
next
  case (Cons inst insts)
  show ?case
  proof (cases "backed_up inst")
    case True
    then obtain profile where p: "ProfileFor (inst_GameID inst) = Some profile" "State inst = StateRunning"
      by (auto simp: backed_up_def)
    have block: "calls_wp (if State inst \<noteq> StateRunning then ret () else backupOne s run unix stamp inst) (day_block s inst)"
      using backupOne_calls [OF s p(1)] p(2) by simp
    show ?thesis unfolding forO.simps
    proof (rule calls_seq [OF block Cons.IH], goal_cases)
      case (1 cs ds)
      then obtain blocks where "ds = concat blocks" "list_all2 (day_block s) (filter backed_up insts) blocks" by blast
      then show ?case using 1(1) True by (intro exI [of _ "cs # blocks"]) simp
    qed
  next
    case False
    then have "calls_wp (if State inst \<noteq> StateRunning then ret () else backupOne s run unix stamp inst) (\<lambda>cs. cs = [])"
      by (auto simp: backed_up_def backupOne_def intro!: calls_ret)
    from calls_seq [OF this Cons.IH] show ?thesis unfolding forO.simps using False by simp
  qed
qed

text \<open>C25: A daily pass: whatever fails on the way, each running world of a known game gets exactly one backup job, on its
  own volume, in the order of the listing; a Minecraft world is told to stop saving before its job and to save again
  after it, before the next world is touched, so that no world stays without saving. Pruning follows only its own world's
  job. The pass itself never fails.\<close>
theorem daily_pass:
  assumes "steady_scheduler s" and "sc_jobRunner s = Some run" and "sc_instances s = Some listing"
    and listed: "listing (sw_out w) = (Ok insts, x)" and run: "RunDaily s unix stamp w = (r, w')"
  shows "r = Ok () \<and>
    (\<exists>blocks. sw_calls w' = sw_calls w @ concat blocks \<and> list_all2 (day_block s) (filter backed_up insts) blocks)"
proof -
  let ?pass = "forO (\<lambda>inst. if State inst \<noteq> StateRunning then ret () else backupOne s run unix stamp inst) insts"
  have "RunDaily s unix stamp w = ?pass (w\<lparr>sw_out := x\<rparr>)"
    by (simp add: RunDaily_def assms(2,3) bindo_def attempt_def outside_def zoom_def listed)
  moreover have "wp ?pass (\<lambda>_ w'. \<exists>cs. sw_calls w' = sw_calls w @ cs \<and> (\<exists>blocks. cs = concat blocks \<and>
      list_all2 (day_block s) (filter backed_up insts) blocks)) (\<lambda>_ _. False) (w\<lparr>sw_out := x\<rparr>)"
    using spec [OF pass_calls [OF assms(1,2), unfolded calls_wp_def], where x = "w\<lparr>sw_out := x\<rparr>"] by simp
  ultimately show ?thesis using run by (cases r) (auto simp: wp_def)
qed

lemma RunDaily_ok:
  assumes "steady_scheduler s"
  shows "wp (RunDaily s unix stamp) (\<lambda>_ _. True) (\<lambda>_ _. False) w"
proof (cases "sc_instances s = None \<or> sc_jobRunner s = None")
  case True
  then show ?thesis by (auto simp: RunDaily_def wp split: option.split)
next
  case False
  then obtain listing run where s: "sc_instances s = Some listing" "sc_jobRunner s = Some run" by auto
  have "wp listing (\<lambda>_ _. True) (\<lambda>_ _. True) (sw_out w)" using steady_parts(1) [OF assms s(1)] by (simp add: steady_def)
  moreover have "wp (forO (\<lambda>inst. if State inst \<noteq> StateRunning then ret () else backupOne s run unix stamp inst) insts)
      (\<lambda>_ _. True) (\<lambda>_ _. False) w" for insts w
    by (rule wp_mono [OF spec [OF pass_calls [OF assms s(2), unfolded calls_wp_def]]]) simp_all
  ultimately show ?thesis
    by (auto simp: RunDaily_def s wp outside_def elim!: wp_mono)
qed

lemma scheduler_loop_runs:
  assumes "steady_scheduler s"
  shows "wp (scheduler_loop s unix stamp ticks d) (\<lambda>runs _. runs = due ticks d) (\<lambda>_ _. False) w"
proof (induction ticks d arbitrary: w rule: due.induct)
  case (2 t ts d)
  show ?case
  proof (cases "utc_hour t = 4 \<and> d \<noteq> Some (utc_day t)")
    case True
    then show ?thesis unfolding scheduler_loop.simps if_P [OF True] wp
      by (intro wp_mono [OF RunDaily_ok [OF assms]]) (use 2(1) [OF True] True in \<open>auto elim!: wp_mono\<close>)
  next
    case False
    then show ?thesis using 2(2) by (simp add: if_not_P [OF False])
  qed
qed (simp add: wp)

text \<open>Once a day: over ticks in the order of time, a pass is made at the first tick between four and five o'clock
  UTC of each day that has one, and at no other.\<close>
theorem runs_once_a_day:
  assumes "steady_scheduler s" and "sorted ticks" and run: "Scheduler_Start s unix stamp ticks w = (r, w')"
  shows "\<exists>runs. r = Ok runs \<and> (\<forall>t\<in>set runs. t \<in> set ticks \<and> utc_hour t = 4) \<and> distinct (map utc_day runs) \<and>
    utc_day ` set runs = utc_day ` {t \<in> set ticks. utc_hour t = 4}"
proof -
  have "r = Ok (due ticks None)"
    using scheduler_loop_runs [OF assms(1), of unix stamp ticks None w] run
    by (auto simp: Scheduler_Start_def wp_def split: res.splits)
  then show ?thesis using due_days [OF assms(2), of None] due_sub by auto
qed

section \<open>Pruning\<close>

text \<open>What the daily pruning keeps: the archives of the Minecraft and of the Valheim world of one slug and number
  are counted together. Beyond the number to keep exactly the oldest of them go, whichever game they are of, and no
  other file of the directory does.\<close>
theorem daily_prune_mixes_games:
  assumes "distinct (map fst (archives_in d))" and "0 < keep" and "dir \<noteq> ''''"
  shows "\<exists>old. distinct old \<and>
     length old = length (filter (\<lambda>(f, _). of_world ''mc'' slug n f \<or> of_world ''valheim'' slug n f) (archives_in d)) - nat keep \<and>
     (\<forall>f\<in>set old. (of_world ''mc'' slug n f \<or> of_world ''valheim'' slug n f) \<and> f \<in> fst ` set (archives_in d)) \<and>
     (\<forall>(f, x)\<in>set (archives_in d). \<forall>(g, y)\<in>set (archives_in d).
        f \<in> set old \<and> g \<notin> set old \<and> (of_world ''mc'' slug n g \<or> of_world ''valheim'' slug n g) \<longrightarrow> fi_ModTime x \<le> fi_ModTime y) \<and>
     archives_in (PruneBackups dir slug n keep d) =
       filter (\<lambda>(f, _). f \<notin> set old \<or> bd_refuse d f \<noteq> None) (archives_in d)"
proof -
  have apart: "\<not> (of_world ''mc'' slug n f \<and> of_world ''valheim'' slug n f)" for f
    by (auto simp: of_world_def archive_prefix_def has_prefix_iff)
  have split: "mset (filter P xs) + mset (filter Q xs) = mset (filter (\<lambda>x. P x \<or> Q x) xs)" if "\<And>x. \<not> (P x \<and> Q x)"
    for P Q and xs :: "(string \<times> FileInfo) list"
  proof (induction xs)
    case (Cons x xs)
    then show ?case using that [of x] by auto
  qed simp
  have "mset (glob_archives (archive_prefix ''mc'' slug n) d @ glob_archives (archive_prefix ''valheim'' slug n) d) =
      mset (filter (\<lambda>(f, _). of_world ''mc'' slug n f \<or> of_world ''valheim'' slug n f) (archives_in d))"
    using split [of "\<lambda>(f, _). of_world ''mc'' slug n f" "\<lambda>(f, _). of_world ''valheim'' slug n f"] apart
    by (simp add: glob_of_world case_prod_unfold)
  from prune_oldest_exact [OF assms(1) _ this, of "nat keep"] assms(2,3) show ?thesis
    by (simp add: PruneBackups_def)
qed

section \<open>Instances of the properties\<close>

definition sample_world :: Instance where
  "sample_world = zero_instance\<lparr>Number := 1, Slug := ''a'', inst_GameID := GameMinecraft, State := StateRunning\<rparr>"

definition sample_scheduler :: "unit BackupScheduler" where
  \<comment> \<open>every job is refused\<close>
  "sample_scheduler = \<lparr>sc_instances = Some (ret [sample_world]), sc_jobRunner = Some (\<lambda>_ _ _ _. fail (Errorf ''no'')),
     sc_cmdExec = Some (\<lambda>_ _. ret ()), sc_pruner = None, sc_audit = None, sc_event = None,
     sc_namespace = '''', sc_backupsPVC = ''b'', sc_keep = 5\<rparr>"

lemma sample_steady: "steady_scheduler sample_scheduler"
  by (simp add: steady_scheduler_def sample_scheduler_def steady_def wp)

theorem daily_pass_witness:
  "\<exists>cs. sw_calls (snd (RunDaily sample_scheduler ''0'' ''0'' \<lparr>sw_calls = [], sw_out = ()\<rparr>)) =
     cs @ [SExec sample_world ''/save-on'']"
proof -
  have "backed_up sample_world" by (simp add: backed_up_def sample_world_def)
  moreover obtain run listing where "sc_jobRunner sample_scheduler = Some run" "sc_instances sample_scheduler = Some listing"
      "listing () = (Ok [sample_world], ())"
    by (simp add: sample_scheduler_def ret_def)
  ultimately obtain block where "day_block sample_scheduler sample_world block"
      "sw_calls (snd (RunDaily sample_scheduler ''0'' ''0'' \<lparr>sw_calls = [], sw_out = ()\<rparr>)) = block"
    using daily_pass [OF sample_steady _ _ _ prod.collapse [symmetric], of run listing "\<lparr>sw_calls = [], sw_out = ()\<rparr>"
      "[sample_world]" "()" "''0''" "''0''"] by (auto simp: list_all2_Cons1)
  moreover have "pauses sample_scheduler sample_world" by (simp add: pauses_def sample_scheduler_def sample_world_def)
  ultimately show ?thesis by (auto simp: day_block_def)
qed

theorem runs_once_a_day_witness:
  "\<exists>runs. fst (Scheduler_Start sample_scheduler (\<lambda>_. '''') (\<lambda>_. '''') [4 * hour_ns, 4 * hour_ns + 1] \<lparr>sw_calls = [], sw_out = ()\<rparr>) =
     Ok runs \<and> utc_day ` set runs = {0} \<and> distinct (map utc_day runs)"
proof -
  have "{t \<in> set [4 * hour_ns, 4 * hour_ns + 1]. utc_hour t = 4} = {4 * hour_ns, 4 * hour_ns + 1}"
    by (auto simp: utc_hour_def hour_ns_def day_ns_def)
  moreover have "utc_day ` {4 * hour_ns, 4 * hour_ns + 1} = {0}" by (simp add: utc_day_def hour_ns_def day_ns_def)
  ultimately show ?thesis
    using runs_once_a_day [OF sample_steady _ prod.collapse [symmetric], of "[4 * hour_ns, 4 * hour_ns + 1]" "\<lambda>_. ''''" "\<lambda>_. ''''"
        "\<lparr>sw_calls = [], sw_out = ()\<rparr>"] by auto
qed

theorem daily_prune_mixes_games_witness:
  "archives_in (PruneBackups ''d'' ''a'' 1 1
     \<lparr>bd_files = Some [(''mc-a-01-x.tar.gz'', \<lparr>fi_Size = 1, fi_ModTime = 5, fi_IsDir = False\<rparr>),
                      (''valheim-a-01-y.tar.gz'', \<lparr>fi_Size = 1, fi_ModTime = 7, fi_IsDir = False\<rparr>)],
      bd_refuse = (\<lambda>_. None)\<rparr>) = [(''valheim-a-01-y.tar.gz'', \<lparr>fi_Size = 1, fi_ModTime = 7, fi_IsDir = False\<rparr>)]"
proof -
  let ?m = "''mc-a-01-x.tar.gz''" and ?v = "''valheim-a-01-y.tar.gz''"
  let ?fs = "[(?m, \<lparr>fi_Size = 1, fi_ModTime = 5, fi_IsDir = False\<rparr>), (?v, \<lparr>fi_Size = 1, fi_ModTime = 7, fi_IsDir = False\<rparr>)]"
  let ?d = "\<lparr>bd_files = Some ?fs, bd_refuse = (\<lambda>_. None)\<rparr>"
  have fs: "archives_in ?d = ?fs" by (simp add: archives_in_def)
  have m: "of_world ''mc'' ''a'' 1 ?m" "of_world ''valheim'' ''a'' 1 ?v" by code_simp+
  have k: "filter (\<lambda>(f, _). of_world ''mc'' ''a'' 1 f \<or> of_world ''valheim'' ''a'' 1 f) ?fs = ?fs" using m by simp
  have "distinct (map fst (archives_in ?d))" "0 < (1::int)" "''d'' \<noteq> ([] :: string)" by (simp_all add: fs)
  from daily_prune_mixes_games [OF this, where slug = "''a''" and n = 1] obtain old where
    old: "length old = 1" "set old \<subseteq> {?m, ?v}" "?m \<notin> set old \<longrightarrow> ?v \<in> set old \<longrightarrow> (7::Time) \<le> 5"
      "archives_in (PruneBackups ''d'' ''a'' 1 1 ?d) = filter (\<lambda>(f, _). f \<notin> set old) ?fs"
    unfolding fs k using m by auto
  then have "old = [?m]" by (cases old) auto
  then show ?thesis using old(4) by simp
qed

end
