(* ===== verification/BepinexService.thy ===== *)
theory BepinexService
  imports BepinexMerge Instances Ops Paths
begin

text \<open>
  \<open>internal/app/bepinex/service.go\<close>, the service behind the config pages; \<open>internal/infra/backups/bepinex.go\<close> and
  \<open>bepinex_local.go\<close>, which read what a world has published; and \<open>internal/infra/bepinex/merge.go\<close>, which writes the
  operator's overrides into the files of a server.

  The service's collaborators are operations on the world outside, of type \<open>'x\<close>; the writes it asks for are kept in
  \<open>be_writes\<close>. Parsing a float and comparing two are parameters, as in the domain. Locks are left out.
\<close>

section \<open>The service\<close>

record 'x OverridesWriter =
  ow_SaveConfig :: "int \<Rightarrow> string \<Rightarrow> string \<Rightarrow> string \<Rightarrow> ('x, bool) op"
  ow_DeleteConfig :: "int \<Rightarrow> string \<Rightarrow> string \<Rightarrow> ('x, bool) op"

record 'x BepService =
  bp_snapshot :: "(string \<Rightarrow> int \<Rightarrow> ('x, ConfigSnapshot option) op) option"
  bp_file :: "(string \<Rightarrow> int \<Rightarrow> string \<Rightarrow> ('x, string \<times> string) op) option"
    \<comment> \<open>the text of a file and its digest\<close>
  bp_overrides :: "(int \<Rightarrow> ('x, (string \<times> string) list) op) option"
  bp_writer :: "'x OverridesWriter option"

record 'x BepState =
  be_cache :: "(string \<times> ConfigFile) list"
  be_writes :: "(int \<times> string \<times> string option) list"
    \<comment> \<open>the world, the file, and the text saved or \<open>None\<close> for a delete\<close>
  be_out :: 'x

type_synonym ('x, 'a) bop = "('x BepState, 'a) op"

definition out_op :: "('x, 'a) op \<Rightarrow> ('x, 'a) bop" where
  "out_op m = zoom be_out (\<lambda>x s. s\<lparr>be_out := x\<rparr>) m"

record FileSummary =
  fs_Name :: string
  fs_PluginName :: string
  fs_PluginVersion :: string
  fs_PluginGUID :: string
  fs_Settings :: nat
  fs_Changed :: nat
  fs_Overridden :: nat
  fs_Size :: int
  fs_Parsable :: bool

record FileView =
  fv_Config :: ConfigFile
  fv_Overrides :: OverrideSet
  fv_SHA256 :: string
  fv_Size :: int

record ConfigChange =
  ch_Section :: string
  ch_Name :: string
  ch_Value :: string
  ch_Forget :: bool

definition cache_key :: "Instance \<Rightarrow> SnapshotFile \<Rightarrow> string" where
  "cache_key inst sf = Slug inst @ ''-'' @ pad02 (Number inst) @ ''/'' @ sf_Name sf @ ''@'' @ SHA256 sf"

definition remember :: "string \<Rightarrow> ConfigFile \<Rightarrow> (string \<times> ConfigFile) list \<Rightarrow> (string \<times> ConfigFile) list" where
  "remember key f cache = AList.update key f (if length cache > 64 then [] else cache)"

definition parsed :: "'x BepService \<Rightarrow> Instance \<Rightarrow> SnapshotFile \<Rightarrow> ('x, ConfigFile) bop" where
  \<comment> \<open>a nil file reader panics\<close>
  "parsed s inst sf =
     bindo (gets (\<lambda>st. map_of (be_cache st) (cache_key inst sf))) (\<lambda>hit.
       case hit of
         Some f \<Rightarrow> ret f
       | None \<Rightarrow>
           bindo (case bp_file s of None \<Rightarrow> of_outcome (Panic ''nil file reader'')
                  | Some read \<Rightarrow> out_op (read (Slug inst) (Number inst) (sf_Name sf))) (\<lambda>(body, digest).
             if SHA256 sf \<noteq> '''' \<and> digest \<noteq> SHA256 sf then fail (Sentinel ErrStaleSnapshot)
             else let f = ParseConfigFile (sf_Name sf) body
                  in seqo (modify (\<lambda>st. st\<lparr>be_cache := remember (cache_key inst sf) f (be_cache st)\<rparr>)) (ret f)))"

definition storedOverrides :: "'x BepService \<Rightarrow> int \<Rightarrow> ('x, (string \<times> OverrideSet) list) bop" where
  "storedOverrides s n =
     (case bp_overrides s of
        None \<Rightarrow> ret []
      | Some read \<Rightarrow> bindo (out_op (read n)) (\<lambda>data. ret (map (\<lambda>(name, body). (name, ParseOverrideSet body)) data)))"

definition published :: "'x BepService \<Rightarrow> Instance \<Rightarrow> ('x, ConfigSnapshot) bop" where
  \<comment> \<open>the snapshot of a world, and the errors both pages start with\<close>
  "published s inst =
     (case bp_snapshot s of
        None \<Rightarrow> fail (Sentinel ErrNotPublished)
      | Some read \<Rightarrow>
          bindo (out_op (read (Slug inst) (Number inst))) (\<lambda>snap.
            case snap of None \<Rightarrow> fail (Sentinel ErrNotPublished) | Some sn \<Rightarrow> ret sn))"

definition summarize_file :: "'x BepService \<Rightarrow> Instance \<Rightarrow> (string \<times> OverrideSet) list \<Rightarrow> SnapshotFile \<Rightarrow> ('x, FileSummary) bop" where
  "summarize_file s inst stored sf =
     (let sum = \<lparr>fs_Name = sf_Name sf, fs_PluginName = '''', fs_PluginVersion = '''', fs_PluginGUID = '''', fs_Settings = 0,
                 fs_Changed = 0, fs_Overridden = (case map_of stored (sf_Name sf) of None \<Rightarrow> 0 | Some ovs \<Rightarrow> OverrideSet_Len ovs),
                 fs_Size = sf_Size sf, fs_Parsable = False\<rparr>
      in bindo (attempt (parsed s inst sf)) (\<lambda>r.
           ret (case r of
                  Inl e \<Rightarrow> sum
                | Inr f \<Rightarrow> sum\<lparr>fs_PluginName := PluginName f, fs_PluginVersion := PluginVersion f, fs_PluginGUID := PluginGUID f,
                             fs_Settings := ConfigFile_Count f, fs_Changed := ChangedCount f, fs_Parsable := Parsable f\<rparr>)))"

definition Service_Files :: "'x BepService \<Rightarrow> Instance \<Rightarrow> ('x, FileSummary list \<times> ConfigSnapshot) bop" where
  "Service_Files s inst =
     bindo (published s inst) (\<lambda>snap.
     bindo (storedOverrides s (Number inst)) (\<lambda>stored.
     bindo (mapO (summarize_file s inst stored) (snap_Files snap)) (\<lambda>sums.
       ret (sort_key fs_Name sums, snap))))"

definition Service_File :: "'x BepService \<Rightarrow> Instance \<Rightarrow> string \<Rightarrow> ('x, FileView) bop" where
  "Service_File s inst name =
     (if bp_file s = None then fail (Sentinel ErrNotPublished)
      else bindo (published s inst) (\<lambda>snap.
        case Snapshot_Lookup (Some snap) name of
          None \<Rightarrow> fail (Errorf (go_quote name @ '' is not in the published config set''))
        | Some sf \<Rightarrow>
            bindo (parsed s inst sf) (\<lambda>f.
            bindo (storedOverrides s (Number inst)) (\<lambda>stored.
              ret \<lparr>fv_Config = f, fv_Overrides = (case map_of stored name of None \<Rightarrow> NewOverrideSet | Some ovs \<Rightarrow> ovs),
                   fv_SHA256 = SHA256 sf, fv_Size = sf_Size sf\<rparr>))))"

fun apply_changes ::
    "(string \<Rightarrow> 'f option) \<Rightarrow> ('f \<Rightarrow> 'f \<Rightarrow> bool) \<Rightarrow> ConfigFile \<Rightarrow> ConfigChange list \<Rightarrow> OverrideSet \<Rightarrow> goerr + OverrideSet" where
  "apply_changes pf lt f [] ovs = Inr ovs"
| "apply_changes pf lt f (c # cs) ovs =
     (if ch_Forget c then apply_changes pf lt f cs (fst (Unset ovs (ch_Section c) (ch_Name c)))
      else case (case ConfigFile_Lookup f (ch_Section c) (ch_Name c) of
                   None \<Rightarrow> None
                 | Some setting \<Rightarrow>
                     map_option (\<lambda>e. Wrap (SettingKey_String (Setting_Key setting) @ '': '') e '''')
                       (Validate pf lt setting (ch_Value c))) of
             Some e \<Rightarrow> Inl e
           | None \<Rightarrow> apply_changes pf lt f cs (Set ovs (ch_Section c) (ch_Name c) (ch_Value c)))"

definition write_overrides :: "'x OverridesWriter \<Rightarrow> int \<Rightarrow> string \<Rightarrow> string \<Rightarrow> string \<Rightarrow> ('x, bool) bop" where
  \<comment> \<open>the last lines of \<open>Apply\<close>\<close>
  "write_overrides w n name body actor =
     (if body = ''''
      then seqo (modify (\<lambda>st. st\<lparr>be_writes := be_writes st @ [(n, name, None)]\<rparr>)) (out_op (ow_DeleteConfig w n name actor))
      else seqo (modify (\<lambda>st. st\<lparr>be_writes := be_writes st @ [(n, name, Some body)]\<rparr>)) (out_op (ow_SaveConfig w n name body actor)))"

definition Service_Apply ::
    "(string \<Rightarrow> 'f option) \<Rightarrow> ('f \<Rightarrow> 'f \<Rightarrow> bool) \<Rightarrow> 'x BepService \<Rightarrow> Instance \<Rightarrow> string \<Rightarrow> string \<Rightarrow> ConfigChange list \<Rightarrow>
     string \<Rightarrow> ('x, bool) bop" where
  "Service_Apply pf lt s inst name sha256 changes actor =
     (case bp_writer s of
        None \<Rightarrow> fail (Sentinel ErrNotPublished)
      | Some w \<Rightarrow>
          bindo (Service_File s inst name) (\<lambda>view.
            if sha256 \<noteq> '''' \<and> fv_SHA256 view \<noteq> '''' \<and> sha256 \<noteq> fv_SHA256 view then fail (Sentinel ErrStaleSnapshot)
            else bindo (of_sum (apply_changes pf lt (fv_Config view) changes (fv_Overrides view))) (\<lambda>ovs.
                   write_overrides w (Number inst) name (Encode ovs) actor)))"

definition ResetToDefault ::
    "(string \<Rightarrow> 'f option) \<Rightarrow> ('f \<Rightarrow> 'f \<Rightarrow> bool) \<Rightarrow> 'x BepService \<Rightarrow> Instance \<Rightarrow> string \<Rightarrow> string \<Rightarrow> string \<Rightarrow> string \<Rightarrow>
     string \<Rightarrow> ('x, bool) bop" where
  "ResetToDefault pf lt s inst name sha256 section setting actor =
     bindo (Service_File s inst name) (\<lambda>view.
       case ConfigFile_Lookup (fv_Config view) section setting of
         None \<Rightarrow> fail (Errorf (SettingKey_String (setting_key section setting) @
                   '' is not declared by this mod, so it has no default to restore''))
       | Some found \<Rightarrow>
           (if \<not> HasDefault found
            then fail (Errorf (SettingKey_String (Setting_Key found) @ '' does not record a default value''))
            else Service_Apply pf lt s inst name sha256
                   [\<lparr>ch_Section = section, ch_Name = setting, ch_Value = set_Default found, ch_Forget = False\<rparr>] actor))"

definition maxImportBytes :: nat where "maxImportBytes = 524288"

definition Service_PlanImport ::
    "(string \<Rightarrow> 'f option) \<Rightarrow> ('f \<Rightarrow> 'f \<Rightarrow> bool) \<Rightarrow> 'x BepService \<Rightarrow> Instance \<Rightarrow> string \<Rightarrow> string \<Rightarrow>
     ('x, ImportPlan \<times> FileView \<times> goerr option) bop" where
  \<comment> \<open>a file of another mod is an error returned beside the plan\<close>
  "Service_PlanImport pf lt s inst name pasted =
     (if length pasted > maxImportBytes then fail (Sentinel ErrImportTooLarge)
      else bindo (Service_File s inst name) (\<lambda>view.
        let plan = PlanImport pf lt (fv_Config view) pasted
        in ret (plan, view, MatchesConfig (fv_Config view) plan)))"

definition change_of :: "Override \<Rightarrow> ConfigChange" where
  "change_of ov = \<lparr>ch_Section = ov_Section ov, ch_Name = ov_Name ov, ch_Value = ov_Value ov, ch_Forget = False\<rparr>"

definition ApplyImport ::
    "(string \<Rightarrow> 'f option) \<Rightarrow> ('f \<Rightarrow> 'f \<Rightarrow> bool) \<Rightarrow> 'x BepService \<Rightarrow> Instance \<Rightarrow> string \<Rightarrow> string \<Rightarrow> string \<Rightarrow> string \<Rightarrow>
     ('x, nat \<times> bool) bop" where
  "ApplyImport pf lt s inst name sha256 pasted actor =
     bindo (Service_PlanImport pf lt s inst name pasted) (\<lambda>(plan, view, e).
       seqo (checkO e)
         (if sha256 \<noteq> '''' \<and> fv_SHA256 view \<noteq> '''' \<and> sha256 \<noteq> fv_SHA256 view then fail (Sentinel ErrStaleSnapshot)
          else if \<not> ImportPlan_Changes plan then ret (0, False)
          else let changes = map change_of (OverrideSet_All (ImportPlan_Overrides plan))
               in bindo (Service_Apply pf lt s inst name sha256 changes actor) (\<lambda>changed. ret (length changes, changed))))"

definition MatchFile :: "'x BepService \<Rightarrow> Instance \<Rightarrow> string \<Rightarrow> ('x, string) bop" where
  "MatchFile s inst pasted =
     (if length pasted > maxImportBytes then fail (Sentinel ErrImportTooLarge)
      else let guid = PluginGUID (ParseConfigFile '''' pasted)
           in if guid = '''' then fail (Sentinel ErrNoMatchingConfig)
              else bindo (Service_Files s inst) (\<lambda>(files, _).
                case find (\<lambda>f. equal_fold (fs_PluginGUID f) guid) files of
                  Some f \<Rightarrow> ret (fs_Name f)
                | None \<Rightarrow> fail (Wrap '''' (Sentinel ErrNoMatchingConfig) ('': no published config has the GUID '' @ guid))))"

end
