(* ===== verification/BepinexFiles.thy ===== *)
theory BepinexFiles
  imports BepinexMerge ManagerBackups Paths
begin

text \<open>
  \<open>internal/infra/backups/bepinex.go\<close> and \<open>bepinex_local.go\<close>, which read what a world has published, and
  \<open>internal/infra/bepinex/merge.go\<close>, which writes the operator's overrides into the files of a server.

  Reading a file or a directory, decoding JSON, parsing a time and the digest of a text are parameters. A directory
  that is written to is the list of its files by path, and \<open>MergeEnv\<close> says which steps of a write fail; a write that
  fails leaves \<open>me_partial\<close> in the temporary file.
\<close>

section \<open>What a world has published\<close>

record IndexFile =
  ix_Name :: string
  ix_Size :: int
  ix_SHA256 :: string
  ix_Modified :: string

record IndexDocument =
  ix_Instance :: string
  ix_PublishedAt :: string
  ix_Files :: "IndexFile list"

record Published =
  pb_read :: "string \<Rightarrow> goerr + string"
  pb_decode :: "string \<Rightarrow> goerr + IndexDocument"
  pb_time :: "string \<Rightarrow> Time option"
  pb_digest :: "string \<Rightarrow> string"

definition safeConfigName :: "string \<Rightarrow> bool" where
  "safeConfigName name \<longleftrightarrow>
     \<not> (name = '''' \<or> name = ''.'' \<or> name = ''..'') \<and> name = base_name name \<and> \<not> has_prefix name ''/'' \<and>
     hd name \<noteq> CHR ''.'' \<and> list_all (\<lambda>c. c \<noteq> CHR ''/'' \<and> c \<noteq> BACKSLASH \<and> c \<noteq> CHR 0x00) name"

definition instanceDir :: "string \<Rightarrow> string \<Rightarrow> int \<Rightarrow> string" where
  "instanceDir backupsDir slug n = path_join backupsDir (BackupsSubdir (zero_instance\<lparr>Slug := slug, Number := n\<rparr>))"

definition configsDir :: string where "configsDir = ''bepinex-configs''"
definition configIndexDoc :: string where "configIndexDoc = ''index.json''"

definition or_zero :: "Time option \<Rightarrow> Time" where
  "or_zero t = (case t of None \<Rightarrow> 0 | Some x \<Rightarrow> x)"

definition ReadConfigSnapshot :: "Published \<Rightarrow> string \<Rightarrow> string \<Rightarrow> int \<Rightarrow> goerr + ConfigSnapshot option" where
  "ReadConfigSnapshot p backupsDir slug n =
     (if backupsDir = '''' \<or> slug = '''' then Inr None
      else let path = path_join (path_join (instanceDir backupsDir slug n) configsDir) configIndexDoc
           in case pb_read p path of
                Inl e \<Rightarrow> if errors_is e ErrNotExist then Inr None else Inl e
              | Inr raw \<Rightarrow>
                  (case pb_decode p raw of
                     Inl e \<Rightarrow> Inl (Wrap (''parse '' @ path @ '': '') e '''')
                   | Inr doc \<Rightarrow>
                       Inr (Some \<lparr>snap_Instance = ix_Instance doc, PublishedAt = or_zero (pb_time p (ix_PublishedAt doc)),
                         snap_Files = map (\<lambda>f. \<lparr>sf_Name = ix_Name f, sf_Size = ix_Size f, SHA256 = ix_SHA256 f,
                                               Modified = or_zero (pb_time p (ix_Modified f))\<rparr>)
                                        (filter (\<lambda>f. safeConfigName (ix_Name f)) (ix_Files doc))\<rparr>)))"

definition ReadConfigFile :: "Published \<Rightarrow> string \<Rightarrow> string \<Rightarrow> int \<Rightarrow> string \<Rightarrow> goerr + string \<times> string" where
  "ReadConfigFile p backupsDir slug n name =
     (if backupsDir = '''' \<or> slug = '''' then Inl (Sentinel ErrNotExist)
      else if \<not> safeConfigName name then Inl (Errorf (''invalid config file name '' @ go_quote name))
      else case pb_read p (path_join (path_join (instanceDir backupsDir slug n) configsDir) name) of
             Inl e \<Rightarrow> Inl e
           | Inr raw \<Rightarrow> Inr (raw, pb_digest p raw))"

record DirEntry =
  de_Name :: string
  de_IsDir :: bool
  de_ModTime :: "Time option"

definition local_file :: "Published \<Rightarrow> string \<Rightarrow> DirEntry \<Rightarrow> (SnapshotFile \<times> Time option) option" where
  "local_file p dir e =
     (if de_IsDir e \<or> \<not> has_suffix (de_Name e) ''.cfg'' \<or> \<not> safeConfigName (de_Name e) then None
      else case pb_read p (path_join dir (de_Name e)) of
             Inl _ \<Rightarrow> None
           | Inr raw \<Rightarrow> Some (\<lparr>sf_Name = de_Name e, sf_Size = int (length raw), SHA256 = pb_digest p raw,
                               Modified = or_zero (de_ModTime e)\<rparr>, de_ModTime e))"

definition ReadConfigSnapshotFromDir ::
    "Published \<Rightarrow> (string \<Rightarrow> goerr + DirEntry list) \<Rightarrow> string \<Rightarrow> string \<Rightarrow> goerr + ConfigSnapshot option" where
  "ReadConfigSnapshotFromDir p readdir dir inst =
     (if dir = '''' then Inr None
      else case readdir dir of
             Inl e \<Rightarrow> if errors_is e ErrNotExist then Inr None else Inl e
           | Inr entries \<Rightarrow>
               (let fs = List.map_filter (local_file p dir) entries
                in if fs = [] then Inr None
                   else Inr (Some \<lparr>snap_Instance = inst,
                     PublishedAt = fold (\<lambda>(_, t) m. case t of None \<Rightarrow> m | Some t \<Rightarrow> max m t) fs 0,
                     snap_Files = sort_key sf_Name (map fst fs)\<rparr>)))"

definition ReadConfigFileFromDir :: "Published \<Rightarrow> string \<Rightarrow> string \<Rightarrow> goerr + string \<times> string" where
  "ReadConfigFileFromDir p dir name =
     (if dir = '''' then Inl (Sentinel ErrNotExist)
      else if \<not> safeConfigName name then Inl (Errorf (''invalid config file name '' @ go_quote name))
      else case pb_read p (path_join dir name) of Inl e \<Rightarrow> Inl e | Inr raw \<Rightarrow> Inr (raw, pb_digest p raw))"

section \<open>Writing the overrides into the files of a server\<close>

record MergeEnv =
  me_read :: "string \<Rightarrow> goerr option"
  me_mkdir :: "string \<Rightarrow> goerr option"
  me_create :: "string \<Rightarrow> goerr option"
  me_write :: "string \<Rightarrow> goerr option"
  me_close :: "string \<Rightarrow> goerr option"
  me_chmod :: "string \<Rightarrow> goerr option"
  me_rename :: "string \<Rightarrow> goerr option"
  me_remove :: "string \<Rightarrow> goerr option"
  me_partial :: "string \<Rightarrow> string"
  me_random :: "string \<Rightarrow> string"
    \<comment> \<open>what \<open>os.CreateTemp\<close> puts for the star, by the path being written\<close>

type_synonym Files = "(string \<times> string) list"
type_synonym 'a dop = "(Files, 'a) op"

definition step_may_fail :: "goerr option \<Rightarrow> unit dop" where
  "step_may_fail e = checkO e"

definition temp_name :: "MergeEnv \<Rightarrow> string \<Rightarrow> string" where
  "temp_name m path = path_join (path_dir path) (''.agrelha-merge-'' @ me_random m path)"

definition WriteFileAtomic :: "MergeEnv \<Rightarrow> string \<Rightarrow> string \<Rightarrow> unit dop" where
  "WriteFileAtomic m path body =
     (let tmp = temp_name m path;
          write = (case me_write m tmp of
                     Some e \<Rightarrow> seqo (modify (AList.update tmp (me_partial m body))) (fail e)
                   | None \<Rightarrow> modify (AList.update tmp body))
      in seqo (step_may_fail (me_mkdir m (path_dir path)))
        (seqo (step_may_fail (me_create m tmp))
        (seqo (modify (AList.update tmp ''''))
          (deferred
            (seqo write
            (seqo (step_may_fail (me_close m tmp))
            (seqo (step_may_fail (me_chmod m tmp))
            (seqo (step_may_fail (me_rename m tmp))
              (modify (\<lambda>fs. AList.update path body (AList.delete tmp fs)))))))
            (modify (\<lambda>fs. if me_remove m tmp = None then AList.delete tmp fs else fs))))))"

record FileResult =
  fr_Name :: string
  fr_Changed :: bool
  fr_Skipped :: bool
  fr_Report :: MergeReport
  fr_Err :: "goerr option"

definition merge_file :: "MergeEnv \<Rightarrow> string \<Rightarrow> string \<Rightarrow> string \<Rightarrow> string \<Rightarrow> FileResult dop" where
  \<comment> \<open>one round of \<open>MergeDir\<close>'s loop\<close>
  "merge_file m generatedDir outDir name overrides =
     (let ovs = ParseOverrideSet overrides; path = path_join generatedDir name;
          res = \<lparr>fr_Name = name, fr_Changed = False, fr_Skipped = False, fr_Report = empty_report, fr_Err = None\<rparr>
      in if OverrideSet_Len ovs = 0 then ret (res\<lparr>fr_Skipped := True\<rparr>)
         else case me_read m path of
                Some e \<Rightarrow> ret (res\<lparr>fr_Err := Some e\<rparr>)
              | None \<Rightarrow>
                  bindo (gets (\<lambda>fs. mget fs path '''')) (\<lambda>current.
                  let (merged, report) = Merge (ParseConfigFile name current) ovs; res = res\<lparr>fr_Report := report\<rparr>
                  in if merged = current then ret res
                     else bindo (attempt (WriteFileAtomic m (path_join outDir name) merged)) (\<lambda>r.
                            ret (case r of Inl e \<Rightarrow> res\<lparr>fr_Err := Some e\<rparr> | Inr _ \<Rightarrow> res\<lparr>fr_Changed := True\<rparr>))))"

definition MergeDir :: "MergeEnv \<Rightarrow> string \<Rightarrow> string \<Rightarrow> (string \<times> string) list \<Rightarrow> FileResult list dop" where
  "MergeDir m generatedDir outDir overrides =
     (let outDir = (if outDir = '''' then generatedDir else outDir)
      in mapO (\<lambda>name. merge_file m generatedDir outDir name (mget overrides name '''')) (sort (map fst overrides)))"

end
