(* ===== verification/BepinexServiceProofs.thy ===== *)
theory BepinexServiceProofs
  imports BepinexService BepinexFiles
begin

text \<open>
  The config pages: what an edit writes, that a page shows the text the snapshot names, what reading a published file
  can reach, and how the overrides get into the files of a server.
\<close>

section \<open>Override sets\<close>

lemma distinct_Set: "distinct (map fst (items ovs)) \<Longrightarrow> distinct (map fst (items (Set ovs a b v)))"
  by (simp add: Set_def distinct_update)

lemma distinct_Unset: "distinct (map fst (items ovs)) \<Longrightarrow> distinct (map fst (items (fst (Unset ovs a b))))"
  by (simp add: Unset_def Let_def distinct_delete split: prod.split option.split)

lemma distinct_parsed: "distinct (map fst (items (ParseOverrideSet s)))"
proof -
  have "distinct (map fst (items ovs)) \<Longrightarrow> distinct (map fst (items (parse_overrides sec ls ovs)))" for sec ls ovs
    by (induction sec ls ovs rule: parse_overrides.induct) (auto simp: Let_def distinct_Set split: prod.splits)
  then show ?thesis by (simp add: ParseOverrideSet_def NewOverrideSet_def)
qed

fun changed :: "ConfigChange list \<Rightarrow> OverrideSet \<Rightarrow> OverrideSet" where
  "changed [] ovs = ovs"
| "changed (c # cs) ovs =
     changed cs (if ch_Forget c then fst (Unset ovs (ch_Section c) (ch_Name c))
                 else Set ovs (ch_Section c) (ch_Name c) (ch_Value c))"

definition accepted :: "(string \<Rightarrow> 'f option) \<Rightarrow> ('f \<Rightarrow> 'f \<Rightarrow> bool) \<Rightarrow> ConfigFile \<Rightarrow> ConfigChange \<Rightarrow> bool" where
  \<comment> \<open>a value for a setting the mod declares passes its validation\<close>
  "accepted pf lt f c \<longleftrightarrow> ch_Forget c \<or>
     (case ConfigFile_Lookup f (ch_Section c) (ch_Name c) of None \<Rightarrow> True | Some s \<Rightarrow> Validate pf lt s (ch_Value c) = None)"

lemma apply_changes_accepted:
  "list_all (accepted pf lt f) cs \<Longrightarrow> apply_changes pf lt f cs ovs = Inr (changed cs ovs)"
  "\<not> list_all (accepted pf lt f) cs \<Longrightarrow> \<exists>e. apply_changes pf lt f cs ovs = Inl e"
  by (induction cs arbitrary: ovs) (auto simp: accepted_def split: option.splits)

lemma distinct_changed: "distinct (map fst (items ovs)) \<Longrightarrow> distinct (map fst (items (changed cs ovs)))"
  by (induction cs arbitrary: ovs) (simp_all add: distinct_Set distinct_Unset)

section \<open>Pages and edits\<close>

definition preserves :: "('x BepState \<Rightarrow> bool) \<Rightarrow> ('x, 'a) bop \<Rightarrow> bool" where
  \<comment> \<open>however \<open>m\<close> ends\<close>
  "preserves I m \<longleftrightarrow> (\<forall>st. I st \<longrightarrow> I (snd (m st)))"

lemma preserves_pure: "preserves I (ret x)" "preserves I (fail e)" "preserves I (gets f)" "preserves I (of_outcome r)"
  "preserves I (of_sum q)" "preserves I (checkO c)"
  by (auto simp: preserves_def op_defs split: outcome.split sum.split option.split)

lemma preserves_bind:
  "preserves I m \<Longrightarrow> (\<And>st x st'. m st = (Ok x, st') \<Longrightarrow> preserves I (f x)) \<Longrightarrow> preserves I (bindo m f)"
  unfolding preserves_def bindo_def by (fastforce split: prod.split res.split)

lemma preserves_seq: "preserves I m \<Longrightarrow> preserves I n \<Longrightarrow> preserves I (seqo m n)"
  unfolding seqo_def by (rule preserves_bind)

lemma preserves_attempt: "preserves I m \<Longrightarrow> preserves I (attempt m)"
  unfolding preserves_def attempt_def by (fastforce split: prod.split res.split)

lemma preserves_mapO: "(\<And>x. x \<in> set xs \<Longrightarrow> preserves I (f x)) \<Longrightarrow> preserves I (mapO f xs)"
  by (induction xs) (simp_all add: preserves_pure preserves_bind)

lemma preserves_out: "(\<And>st x. I st \<Longrightarrow> I (st\<lparr>be_out := x\<rparr>)) \<Longrightarrow> preserves I (out_op m)"
  by (simp add: preserves_def out_op_def zoom_def split: prod.split)

lemma preserves_modify: "(\<And>st. I st \<Longrightarrow> I (g st)) \<Longrightarrow> preserves I (modify g)"
  by (simp add: preserves_def modify_def)

lemmas preserves_intros = preserves_pure preserves_bind preserves_seq preserves_attempt preserves_mapO

lemma pages_keep_writes:
  "preserves (\<lambda>st. be_writes st = ws) (Service_File s inst name)" "preserves (\<lambda>st. be_writes st = ws) (Service_Files s inst)"
  unfolding Service_File_def Service_Files_def published_def storedOverrides_def summarize_file_def parsed_def Let_def
  by (auto intro!: preserves_intros preserves_out preserves_modify split: option.split)

definition written :: "OverrideSet \<Rightarrow> string option" where
  \<comment> \<open>what is stored for an override set\<close>
  "written ovs = (if Encode ovs = '''' then None else Some (Encode ovs))"

definition read_back :: "string option \<Rightarrow> OverrideSet" where
  \<comment> \<open>what the next page reads for it\<close>
  "read_back t = (case t of None \<Rightarrow> NewOverrideSet | Some body \<Rightarrow> ParseOverrideSet body)"

lemma written_read_back:
  assumes "distinct (map fst (items ovs))" and "\<forall>v\<in>set (OverrideSet_All ovs). override_ok v"
  shows "Get (read_back (written ovs)) a b = Get ovs a b"
proof (cases "Encode ovs = ''''")
  case True
  then show ?thesis using parsed_encoding [OF assms, of a b]
    by (simp add: read_back_def written_def Get_def NewOverrideSet_def ParseOverrideSet_def lines_of_def)
qed (use parsed_encoding [OF assms] in \<open>simp add: read_back_def written_def\<close>)

lemma bindo_Ok_iff: "bindo m f st = (Ok y, st') \<longleftrightarrow> (\<exists>x st1. m st = (Ok x, st1) \<and> f x st1 = (Ok y, st'))"
  by (auto simp: bindo_def split: prod.splits res.splits)

lemma ret_Ok: "ret x st = (Ok y, st') \<longleftrightarrow> y = x \<and> st' = st"
  by (auto simp: ret_def)

lemma fail_Ok: "fail e st \<noteq> (Ok y, st')"
  by (simp add: fail_def)

lemma stored_Ok:
  assumes "storedOverrides s n st = (Ok stored, st')" and "map_of stored k = Some ovs"
  shows "distinct (map fst (items ovs))"
proof -
  have "map_of (map (\<lambda>(name, body). (name, ParseOverrideSet body)) data) k = Some ovs \<Longrightarrow> distinct (map fst (items ovs))" for data
    by (induction data) (auto simp: distinct_parsed split: if_splits)
  then show ?thesis using assms
    by (auto simp: storedOverrides_def bindo_Ok_iff ret_Ok split: option.splits)
qed

lemma File_overrides:
  assumes "Service_File s inst name st = (Ok view, st1)"
  shows "distinct (map fst (items (fv_Overrides view)))"
  using assms
  by (auto simp: Service_File_def bindo_Ok_iff ret_Ok fail_Ok NewOverrideSet_def dest: stored_Ok split: if_splits option.splits)

text \<open>C19: What an edit of a config file writes: an edit of a snapshot that has changed since, or one with a value the mod
  would refuse, writes nothing. Any other asks for exactly one write, of this file of this world, and what is stored
  reads back as the overrides that were stored with the changes made in their order.\<close>
theorem Apply_exact:
  assumes shown: "Service_File s inst name st = (Ok view, st1)" and w: "bp_writer s = Some w"
    and ok: "\<forall>v\<in>set (OverrideSet_All (changed changes (fv_Overrides view))). override_ok v"
    and run: "Service_Apply pf lt s inst name sha256 changes actor st = (r, st')"
  shows "if sha256 \<noteq> '''' \<and> fv_SHA256 view \<noteq> '''' \<and> sha256 \<noteq> fv_SHA256 view
    then r = Err (Sentinel ErrStaleSnapshot) \<and> be_writes st' = be_writes st
    else if \<not> list_all (accepted pf lt (fv_Config view)) changes then (\<exists>e. r = Err e) \<and> be_writes st' = be_writes st
    else \<exists>t. be_writes st' = be_writes st @ [(Number inst, name, t)] \<and>
      (\<forall>a b. Get (read_back t) a b = Get (changed changes (fv_Overrides view)) a b)"
proof -
  let ?ovs = "changed changes (fv_Overrides view)"
  have same: "be_writes st1 = be_writes st" using pages_keep_writes(1) [of "be_writes st" s inst name] shown by (auto simp: preserves_def)
  have reads: "Get (read_back (written ?ovs)) a b = Get ?ovs a b" for a b
    using written_read_back [OF distinct_changed [OF File_overrides [OF shown]] ok] .
  let ?stale = "sha256 \<noteq> '''' \<and> fv_SHA256 view \<noteq> '''' \<and> sha256 \<noteq> fv_SHA256 view"
  have step: "(r, st') = (if ?stale then (Err (Sentinel ErrStaleSnapshot), st1)
      else bindo (of_sum (apply_changes pf lt (fv_Config view) changes (fv_Overrides view)))
        (\<lambda>ovs. write_overrides w (Number inst) name (Encode ovs) actor) st1)"
    using run by (cases ?stale) (auto simp: Service_Apply_def w bindo_def [of "Service_File s inst name"] shown fail_def)
  show ?thesis
  proof (cases "\<not> ?stale \<and> list_all (accepted pf lt (fv_Config view)) changes")
    case True
    then have "(r, st') = write_overrides w (Number inst) name (Encode ?ovs) actor st1"
      using step apply_changes_accepted(1) [of pf lt "fv_Config view" changes] by (auto simp: of_sum_def bindo_def ret_def)
    moreover have "be_writes (snd (write_overrides w (Number inst) name (Encode ?ovs) actor st1)) =
        be_writes st @ [(Number inst, name, written ?ovs)]"
      using same by (simp add: write_overrides_def written_def seqo_def bindo_def modify_def out_op_def zoom_def split: prod.split)
    ultimately have "be_writes st' = be_writes st @ [(Number inst, name, written ?ovs)]" by (metis snd_conv)
    then show ?thesis using True reads by auto
  next
    case False
    then show ?thesis
      using step same apply_changes_accepted(2) [of pf lt "fv_Config view" changes "fv_Overrides view"]
      by (auto simp: of_sum_def bindo_def fail_def)
  qed
qed

definition sample_digest :: "string \<Rightarrow> string" where
  "sample_digest body = (if body = sample_config then ''aa'' else ''bb'')"

definition sample_published :: "unit BepService" where
  \<comment> \<open>a world that has published one file\<close>
  "sample_published = \<lparr>
     bp_snapshot = Some (\<lambda>_ _. ret (Some \<lparr>snap_Instance = ''valhalla-01'', PublishedAt = 100,
       snap_Files = [\<lparr>sf_Name = ''j.cfg'', sf_Size = 120, SHA256 = ''aa'', Modified = 90\<rparr>]\<rparr>)),
     bp_file = Some (\<lambda>_ _ _. ret (sample_config, ''aa'')), bp_overrides = None,
     bp_writer = Some \<lparr>ow_SaveConfig = (\<lambda>_ _ _ _. ret True), ow_DeleteConfig = (\<lambda>_ _ _. ret True)\<rparr>\<rparr>"

definition sample_valhalla :: Instance where
  "sample_valhalla = zero_instance\<lparr>Slug := ''valhalla'', Number := 1\<rparr>"

definition sample_bep_state :: "unit BepState" where
  "sample_bep_state = \<lparr>be_cache = [], be_writes = [], be_out = ()\<rparr>"

definition sample_view :: FileView where
  "sample_view = \<lparr>fv_Config = ParseConfigFile ''j.cfg'' sample_config, fv_Overrides = NewOverrideSet, fv_SHA256 = ''aa'', fv_Size = 120\<rparr>"

definition sample_seen :: "unit BepState" where
  "sample_seen = sample_bep_state\<lparr>be_cache := [(''valhalla-01/j.cfg@aa'', ParseConfigFile ''j.cfg'' sample_config)]\<rparr>"

lemma sample_page: "Service_File sample_published sample_valhalla ''j.cfg'' sample_bep_state = (Ok sample_view, sample_seen)"
proof -
  have "pad02 1 = ''01''" by code_simp
  then show ?thesis
    by (simp add: Service_File_def sample_published_def published_def parsed_def storedOverrides_def out_op_def zoom_def bindo_def
        ret_def gets_def seqo_def modify_def cache_key_def remember_def Let_def Snapshot_Lookup_def sample_valhalla_def
        sample_bep_state_def sample_seen_def sample_view_def zero_instance_def)
qed

definition sample_edit :: ConfigChange where
  "sample_edit = \<lparr>ch_Section = ''Server'', ch_Name = ''Max players'', ch_Value = ''32'', ch_Forget = False\<rparr>"

theorem Apply_exact_witness:
  "\<exists>t. be_writes (snd (Service_Apply atoi (<) sample_published sample_valhalla ''j.cfg'' ''aa'' [sample_edit] ''eir'' sample_bep_state)) =
      [(1, ''j.cfg'', t)] \<and> Get (read_back t) ''Server'' ''Max players'' = Some ''32''"
proof -
  have e: "\<forall>v\<in>set (OverrideSet_All (changed [sample_edit] (fv_Overrides sample_view))). override_ok v"
    "list_all (accepted atoi (<) (fv_Config sample_view)) [sample_edit]"
    "Get (changed [sample_edit] (fv_Overrides sample_view)) ''Server'' ''Max players'' = Some ''32''"
    "fv_SHA256 sample_view = ''aa''"
    unfolding sample_view_def by code_simp+
  have w: "bp_writer sample_published = Some \<lparr>ow_SaveConfig = (\<lambda>_ _ _ _. ret True), ow_DeleteConfig = (\<lambda>_ _ _. ret True)\<rparr>"
    by (simp add: sample_published_def)
  obtain r st' where run: "Service_Apply atoi (<) sample_published sample_valhalla ''j.cfg'' ''aa'' [sample_edit] ''eir''
      sample_bep_state = (r, st')" by (rule prod.exhaust)
  have "Number sample_valhalla = 1" "be_writes sample_bep_state = []" by (simp_all add: sample_valhalla_def sample_bep_state_def)
  then show ?thesis
    using Apply_exact [OF sample_page w e(1) run] e(2-4) unfolding run snd_conv
    by (simp del: changed.simps) (elim exE conjE, rule exI, rule conjI, assumption, simp del: changed.simps)
qed

section \<open>What a page shows\<close>

definition reads_digest :: "'x BepService \<Rightarrow> (string \<Rightarrow> string) \<Rightarrow> bool" where
  \<comment> \<open>the file reader returns the digest of the text it returns\<close>
  "reads_digest s digest \<longleftrightarrow>
     (\<forall>read slug n name x body d x'. bp_file s = Some read \<longrightarrow> read slug n name x = (Ok (body, d), x') \<longrightarrow> d = digest body)"

definition key_of :: "string \<Rightarrow> int \<Rightarrow> string \<Rightarrow> string \<Rightarrow> string" where
  "key_of slug n name sha = slug @ ''-'' @ pad02 n @ ''/'' @ name @ ''@'' @ sha"

definition cache_ok :: "(string \<Rightarrow> string) \<Rightarrow> (string \<times> ConfigFile) list \<Rightarrow> bool" where
  \<comment> \<open>an entry is the parse of a text with the digest in its key, when there is one\<close>
  "cache_ok digest cache \<longleftrightarrow>
     (\<forall>(key, f)\<in>set cache. \<exists>slug n name sha body. key = key_of slug n name sha \<and> CHR ''/'' \<notin> set slug \<and> CHR ''@'' \<notin> set sha \<and>
        f = ParseConfigFile name body \<and> (sha = '''' \<or> digest body = sha))"

definition plain_snapshots :: "'x BepService \<Rightarrow> bool" where
  \<comment> \<open>no digest has an @\<close>
  "plain_snapshots s \<longleftrightarrow>
     (\<forall>read slug n x snap x'. bp_snapshot s = Some read \<longrightarrow> read slug n x = (Ok (Some snap), x') \<longrightarrow>
        (\<forall>sf\<in>set (snap_Files snap). CHR ''@'' \<notin> set (SHA256 sf)))"

lemma pad02_no_slash: "CHR ''/'' \<notin> set (pad02 n)"
proof -
  have "list_all is_digit xs \<Longrightarrow> CHR ''/'' \<notin> set xs" for xs by (induction xs) (auto simp: is_digit_def code_def)
  then show ?thesis using show_nat_digits by (simp add: pad02_def show_int_def)
qed

lemma split_first: "a @ c # b = a' @ c # b' \<Longrightarrow> c \<notin> set a \<Longrightarrow> c \<notin> set a' \<Longrightarrow> a = a' \<and> b = b'"
proof (induction a arbitrary: a')
  case (Cons x a)
  then show ?case by (cases a') auto
qed (auto simp: Cons_eq_append_conv)

lemma key_of_inj:
  assumes "key_of slug n name sha = key_of slug' n' name' sha'" and "CHR ''/'' \<notin> set slug" "CHR ''/'' \<notin> set slug'"
    and "CHR ''@'' \<notin> set sha" "CHR ''@'' \<notin> set sha'"
  shows "name = name' \<and> sha = sha'"
proof -
  have "name @ CHR ''@'' # sha = name' @ CHR ''@'' # sha'"
    using split_first [of "slug @ ''-'' @ pad02 n" "CHR ''/''" "name @ ''@'' @ sha" "slug' @ ''-'' @ pad02 n'"
        "name' @ ''@'' @ sha'"] assms(1-3) pad02_no_slash by (simp add: key_of_def)
  then have "rev sha @ CHR ''@'' # rev name = rev sha' @ CHR ''@'' # rev name'"
    by (metis (no_types, lifting) append.assoc append_Cons append_Nil rev.simps(2) rev_append)
  then show ?thesis using split_first [of "rev sha" "CHR ''@''" "rev name" "rev sha'" "rev name'"] assms(4,5) by simp
qed

definition slash_free :: "Instance \<Rightarrow> bool" where
  "slash_free inst \<longleftrightarrow> CHR ''/'' \<notin> set (Slug inst)"

lemma parsed_keeps_cache:
  assumes "reads_digest s digest" and "slash_free inst" and "CHR ''@'' \<notin> set (SHA256 sf)"
  shows "preserves (\<lambda>st. cache_ok digest (be_cache st)) (parsed s inst sf)"
proof -
  have key: "cache_key inst sf = key_of (Slug inst) (Number inst) (sf_Name sf) (SHA256 sf)"
    by (simp add: cache_key_def key_of_def)
  have kept: "cache_ok digest (remember (cache_key inst sf) (ParseConfigFile (sf_Name sf) body) cache)"
    if "cache_ok digest cache" "SHA256 sf = '''' \<or> digest body = SHA256 sf" for cache body
  proof -
    have "cache_ok digest (if length cache > 64 then [] else cache)" using that(1) by (simp add: cache_ok_def)
    moreover have "\<exists>slug n name sha body'. cache_key inst sf = key_of slug n name sha \<and> CHR ''/'' \<notin> set slug \<and> CHR ''@'' \<notin> set sha \<and>
        ParseConfigFile (sf_Name sf) body = ParseConfigFile name body' \<and> (sha = '''' \<or> digest body' = sha)"
      by (intro exI [of _ "Slug inst"] exI [of _ "Number inst"] exI [of _ "sf_Name sf"] exI [of _ "SHA256 sf"] exI [of _ body])
        (use key assms(2,3) that(2) in \<open>simp add: slash_free_def\<close>)
    ultimately show ?thesis unfolding cache_ok_def remember_def
      using set_update_subset [of "cache_key inst sf" "ParseConfigFile (sf_Name sf) body"] by blast
  qed
  have digest: "d = digest body" if "bp_file s = Some read" and o: "out_op (read slug n name) st = (Ok (body, d), st')"
    for read slug n name st body d st'
  proof -
    obtain x' where "read slug n name (be_out st) = (Ok (body, d), x')"
      using o by (auto simp: out_op_def zoom_def split: prod.splits)
    then show ?thesis using \<open>bp_file s = Some read\<close> assms(1) unfolding reads_digest_def by blast
  qed
  have miss: "preserves (\<lambda>st. cache_ok digest (be_cache st)) (bindo (out_op (read (Slug inst) (Number inst) (sf_Name sf))) (\<lambda>(body, d).
      if SHA256 sf \<noteq> '''' \<and> d \<noteq> SHA256 sf then fail (Sentinel ErrStaleSnapshot)
      else let f = ParseConfigFile (sf_Name sf) body
           in seqo (modify (\<lambda>st. st\<lparr>be_cache := remember (cache_key inst sf) f (be_cache st)\<rparr>)) (ret f)))"
    if r: "bp_file s = Some read" for read
  proof (rule preserves_bind)
    show "preserves (\<lambda>st. cache_ok digest (be_cache st)) (out_op (read (Slug inst) (Number inst) (sf_Name sf)))"
      by (rule preserves_out) simp
    show "preserves (\<lambda>st. cache_ok digest (be_cache st)) (case x of (body, d) \<Rightarrow>
        if SHA256 sf \<noteq> '''' \<and> d \<noteq> SHA256 sf then fail (Sentinel ErrStaleSnapshot)
        else let f = ParseConfigFile (sf_Name sf) body
             in seqo (modify (\<lambda>st. st\<lparr>be_cache := remember (cache_key inst sf) f (be_cache st)\<rparr>)) (ret f))"
      if "out_op (read (Slug inst) (Number inst) (sf_Name sf)) st = (Ok x, st')" for st x st'
    proof (cases x)
      case (Pair body d)
      then have "d = digest body" using digest [OF r] that by blast
      then show ?thesis unfolding Pair Let_def
        by (auto intro!: preserves_pure preserves_seq preserves_modify kept)
    qed
  qed
  show ?thesis unfolding parsed_def
    by (intro preserves_bind preserves_pure) (auto intro!: preserves_pure miss preserves_bind [OF preserves_pure(4)]
      simp: of_outcome_def split: option.split)
qed

lemma published_files:
  assumes "plain_snapshots s" and "published s inst st = (Ok snap, st')" and "sf \<in> set (snap_Files snap)"
  shows "CHR ''@'' \<notin> set (SHA256 sf)"
proof -
  obtain read x' where "bp_snapshot s = Some read" "read (Slug inst) (Number inst) (be_out st) = (Ok (Some snap), x')"
    using assms(2) by (auto simp: published_def out_op_def zoom_def op_defs split: option.splits prod.splits res.splits)
  then show ?thesis using assms(1,3) unfolding plain_snapshots_def by blast
qed

lemma Snapshot_Lookup_in: "Snapshot_Lookup (Some snap) name = Some sf \<Longrightarrow> sf \<in> set (snap_Files snap) \<and> sf_Name sf = name"
  by (auto simp: Snapshot_Lookup_def find_Some_iff)

lemma pages_keep_cache:
  assumes "reads_digest s digest" and "plain_snapshots s" and "slash_free inst"
  shows "preserves (\<lambda>st. cache_ok digest (be_cache st)) (Service_File s inst name)"
    and "preserves (\<lambda>st. cache_ok digest (be_cache st)) (Service_Files s inst)"
proof -
  have pub: "preserves (\<lambda>st. cache_ok digest (be_cache st)) (published s inst)"
    by (auto simp: published_def intro!: preserves_intros preserves_out split: option.split)
  have ovs: "preserves (\<lambda>st. cache_ok digest (be_cache st)) (storedOverrides s n)" for n
    by (auto simp: storedOverrides_def intro!: preserves_intros preserves_out split: option.split)
  show "preserves (\<lambda>st. cache_ok digest (be_cache st)) (Service_File s inst name)" unfolding Service_File_def
    by (auto intro!: preserves_pure preserves_bind pub ovs parsed_keeps_cache [OF assms(1,3)] dest!: Snapshot_Lookup_in
        dest: published_files [OF assms(2)] split: option.split)
  show "preserves (\<lambda>st. cache_ok digest (be_cache st)) (Service_Files s inst)" unfolding Service_Files_def summarize_file_def Let_def
    by (auto intro!: preserves_intros pub ovs parsed_keeps_cache [OF assms(1,3)] dest: published_files [OF assms(2)])
qed

inductive served :: "(string \<Rightarrow> 'f option) \<Rightarrow> ('f \<Rightarrow> 'f \<Rightarrow> bool) \<Rightarrow> 'x BepService \<Rightarrow> 'x BepState \<Rightarrow> bool"
  for pf lt s where
  \<comment> \<open>the states of the service after any pages and edits, whatever happens outside between them\<close>
  start: "be_cache st = [] \<Longrightarrow> served pf lt s st"
| page: "served pf lt s st \<Longrightarrow> slash_free inst \<Longrightarrow> served pf lt s (snd (Service_File s inst name st))"
| listing: "served pf lt s st \<Longrightarrow> slash_free inst \<Longrightarrow> served pf lt s (snd (Service_Files s inst st))"
| edit: "served pf lt s st \<Longrightarrow> slash_free inst \<Longrightarrow> served pf lt s (snd (Service_Apply pf lt s inst name sha256 changes actor st))"
| defaulted: "served pf lt s st \<Longrightarrow> slash_free inst \<Longrightarrow> served pf lt s (snd (ResetToDefault pf lt s inst name sha256 section setting actor st))"
| imported: "served pf lt s st \<Longrightarrow> slash_free inst \<Longrightarrow> served pf lt s (snd (ApplyImport pf lt s inst name sha256 pasted actor st))"
| matched: "served pf lt s st \<Longrightarrow> slash_free inst \<Longrightarrow> served pf lt s (snd (MatchFile s inst pasted st))"
| outside: "served pf lt s st \<Longrightarrow> served pf lt s (st\<lparr>be_out := x\<rparr>)"

lemma edits_keep_cache:
  assumes "reads_digest s digest" and "plain_snapshots s" and "slash_free inst"
  shows "preserves (\<lambda>st. cache_ok digest (be_cache st)) (Service_Apply pf lt s inst name sha256 changes actor)"
    and "preserves (\<lambda>st. cache_ok digest (be_cache st)) (ResetToDefault pf lt s inst name sha256 section setting actor)"
    and "preserves (\<lambda>st. cache_ok digest (be_cache st)) (ApplyImport pf lt s inst name sha256 pasted actor)"
    and "preserves (\<lambda>st. cache_ok digest (be_cache st)) (MatchFile s inst pasted)"
proof -
  note pages = pages_keep_cache [OF assms]
  show edit: "preserves (\<lambda>st. cache_ok digest (be_cache st)) (Service_Apply pf lt s inst name sha256 changes actor)"
    for changes sha256 unfolding Service_Apply_def write_overrides_def
    by (auto intro!: preserves_intros preserves_modify preserves_out pages split: option.split)
  show "preserves (\<lambda>st. cache_ok digest (be_cache st)) (ResetToDefault pf lt s inst name sha256 section setting actor)"
    unfolding ResetToDefault_def by (auto intro!: preserves_intros pages edit split: option.split)
  show "preserves (\<lambda>st. cache_ok digest (be_cache st)) (ApplyImport pf lt s inst name sha256 pasted actor)"
    unfolding ApplyImport_def Service_PlanImport_def Let_def by (auto intro!: preserves_intros pages edit)
  show "preserves (\<lambda>st. cache_ok digest (be_cache st)) (MatchFile s inst pasted)"
    unfolding MatchFile_def Let_def by (auto intro!: preserves_intros pages split: option.split)
qed

lemma cache_run:
  "preserves (\<lambda>st. cache_ok digest (be_cache st)) m \<Longrightarrow> cache_ok digest (be_cache st) \<Longrightarrow> cache_ok digest (be_cache (snd (m st)))"
  by (simp add: preserves_def)

lemma served_cache_ok:
  assumes "served pf lt s st" and "reads_digest s digest" and "plain_snapshots s"
  shows "cache_ok digest (be_cache st)"
  using assms(1)
proof (induction rule: served.induct)
  case (start st)
  then show ?case by (simp add: cache_ok_def)
next
  case (page st inst name)
  then show ?case by (intro cache_run pages_keep_cache(1) assms)
next
  case (listing st inst)
  then show ?case by (intro cache_run pages_keep_cache(2) assms)
next
  case (edit st inst name sha256 changes actor)
  then show ?case by (intro cache_run edits_keep_cache(1) assms)
next
  case (defaulted st inst name sha256 sec setting actor)
  then show ?case by (intro cache_run edits_keep_cache(2) assms)
next
  case (imported st inst name sha256 pasted actor)
  then show ?case by (intro cache_run edits_keep_cache(3) assms)
next
  case (matched st inst pasted)
  then show ?case by (intro cache_run edits_keep_cache(4) assms)
qed simp

lemma parsed_digest:
  assumes "reads_digest s digest" and "cache_ok digest (be_cache st)" and "slash_free inst" and "CHR ''@'' \<notin> set (SHA256 sf)"
    and "parsed s inst sf st = (Ok f, st')"
  shows "\<exists>body. f = ParseConfigFile (sf_Name sf) body \<and> (SHA256 sf = '''' \<or> digest body = SHA256 sf)"
proof (cases "map_of (be_cache st) (cache_key inst sf)")
  case (Some g)
  then have g: "f = g" "(cache_key inst sf, g) \<in> set (be_cache st)"
    using assms(5) by (auto simp: parsed_def bindo_Ok_iff ret_Ok gets_def dest: map_of_SomeD)
  then obtain slug n name sha body where k: "cache_key inst sf = key_of slug n name sha" "CHR ''/'' \<notin> set slug" "CHR ''@'' \<notin> set sha"
    "g = ParseConfigFile name body" "sha = '''' \<or> digest body = sha"
    using assms(2) unfolding cache_ok_def by fast
  have "key_of (Slug inst) (Number inst) (sf_Name sf) (SHA256 sf) = key_of slug n name sha"
    using k(1) by (simp add: cache_key_def key_of_def)
  from key_of_inj [OF this _ k(2) assms(4) k(3)] have "sf_Name sf = name \<and> SHA256 sf = sha"
    using assms(3) by (simp add: slash_free_def)
  then show ?thesis using k(4,5) g(1) by blast
next
  case None
  then have miss: "parsed s inst sf st = bindo (case bp_file s of None \<Rightarrow> of_outcome (Panic ''nil file reader'')
      | Some read \<Rightarrow> out_op (read (Slug inst) (Number inst) (sf_Name sf))) (\<lambda>(body, digest).
        if SHA256 sf \<noteq> '''' \<and> digest \<noteq> SHA256 sf then fail (Sentinel ErrStaleSnapshot)
        else let f = ParseConfigFile (sf_Name sf) body
             in seqo (modify (\<lambda>st. st\<lparr>be_cache := remember (cache_key inst sf) f (be_cache st)\<rparr>)) (ret f)) st"
    by (simp add: parsed_def bindo_def [of "gets _"] gets_def)
  obtain read where r: "bp_file s = Some read"
    using assms(5) unfolding miss bindo_Ok_iff by (cases "bp_file s") (auto simp: of_outcome_def)
  obtain bd st1 where bd: "out_op (read (Slug inst) (Number inst) (sf_Name sf)) st = (Ok bd, st1)"
      "(case bd of (body, digest) \<Rightarrow> if SHA256 sf \<noteq> '''' \<and> digest \<noteq> SHA256 sf then fail (Sentinel ErrStaleSnapshot)
        else let f = ParseConfigFile (sf_Name sf) body
             in seqo (modify (\<lambda>st. st\<lparr>be_cache := remember (cache_key inst sf) f (be_cache st)\<rparr>)) (ret f)) st1 = (Ok f, st')"
    using assms(5) unfolding miss r option.case bindo_Ok_iff by blast
  obtain body d where pair: "bd = (body, d)" by force
  have fresh: "\<not> (SHA256 sf \<noteq> '''' \<and> d \<noteq> SHA256 sf)"
  proof
    assume "SHA256 sf \<noteq> '''' \<and> d \<noteq> SHA256 sf"
    then show False using bd(2) unfolding pair prod.case by (simp add: fail_Ok)
  qed
  have f: "f = ParseConfigFile (sf_Name sf) body"
    using bd(2) unfolding pair prod.case if_not_P [OF fresh] Let_def seqo_def by (simp add: bindo_Ok_iff modify_def ret_Ok)
  note read = bd(1) [unfolded pair] fresh f
  from read(1) obtain x' where "read (Slug inst) (Number inst) (sf_Name sf) (be_out st) = (Ok (body, d), x')"
    by (auto simp: out_op_def zoom_def split: prod.splits)
  then have "d = digest body" using r assms(1) unfolding reads_digest_def by blast
  then show ?thesis using read(2,3) by blast
qed

text \<open>C20: A page shows the file the snapshot names: after whatever pages and edits, of this or any other world, and
  whatever changed outside, the config a page shows is the parse of a text with the digest the snapshot publishes for
  that file, be it from the cache or read anew. A file published without a digest is not covered.\<close>
theorem page_shows_published:
  assumes "served pf lt s st" and "reads_digest s digest" and "plain_snapshots s" and "slash_free inst"
    and "Service_File s inst name st = (Ok view, st')" and "fv_SHA256 view \<noteq> ''''"
  shows "\<exists>body. fv_Config view = ParseConfigFile name body \<and> digest body = fv_SHA256 view"
proof -
  obtain snap st1 sf st2 f stored where v: "published s inst st = (Ok snap, st1)" "Snapshot_Lookup (Some snap) name = Some sf"
      "parsed s inst sf st1 = (Ok f, st2)" "fv_Config view = f" "fv_SHA256 view = SHA256 sf"
    using assms(5) by (auto simp: Service_File_def bindo_Ok_iff ret_Ok fail_Ok split: if_splits option.splits)
  have "preserves (\<lambda>st. cache_ok digest (be_cache st)) (published s inst)"
    by (auto simp: published_def intro!: preserves_intros preserves_out split: option.split)
  then have "cache_ok digest (be_cache st1)"
    using served_cache_ok [OF assms(1-3)] v(1) by (auto simp: preserves_def dest: spec [of _ st])
  then show ?thesis
    using parsed_digest [OF assms(2) _ assms(4) published_files [OF assms(3) v(1)] v(3)] Snapshot_Lookup_in [OF v(2)] v(4,5) assms(6)
    by auto
qed


theorem page_shows_published_witness:
  "\<exists>body. fv_Config sample_view = ParseConfigFile ''j.cfg'' body \<and> sample_digest body = ''aa''"
proof -
  have "served atoi (<) sample_published sample_bep_state" by (rule served.start) (simp add: sample_bep_state_def)
  moreover have "reads_digest sample_published sample_digest"
    by (auto simp: reads_digest_def sample_published_def sample_digest_def ret_def)
  moreover have "plain_snapshots sample_published" by (auto simp: plain_snapshots_def sample_published_def ret_def)
  moreover have "slash_free sample_valhalla" by code_simp
  ultimately show ?thesis
    using page_shows_published [OF _ _ _ _ sample_page] by (simp add: sample_view_def)
qed

section \<open>The files of a server\<close>

lemma mget_cong: "map_of fs p = map_of fs' p \<Longrightarrow> mget fs p d = mget fs' p d"
  by (simp add: mget_def)

lemma WriteFileAtomic_run:
  assumes "temp_name m path \<noteq> path"
  obtains e fs' where "WriteFileAtomic m path body fs = (Err e, fs')" "map_of fs' path = map_of fs path"
      "\<And>q. q \<noteq> path \<Longrightarrow> q \<noteq> temp_name m path \<Longrightarrow> map_of fs' q = map_of fs q"
  | fs' where "WriteFileAtomic m path body fs = (Ok (), fs')" "map_of fs' path = Some body"
      "\<And>q. q \<noteq> path \<Longrightarrow> q \<noteq> temp_name m path \<Longrightarrow> map_of fs' q = map_of fs q"
proof -
  let ?tmp = "temp_name m path"
  note steps = step_may_fail_def checkO_def seqo_def bindo_def ret_def fail_def modify_def deferred_def
  have "(\<exists>e fs'. WriteFileAtomic m path body fs = (Err e, fs') \<and> map_of fs' path = map_of fs path \<and>
          (\<forall>q. q \<noteq> path \<longrightarrow> q \<noteq> ?tmp \<longrightarrow> map_of fs' q = map_of fs q)) \<or>
        (\<exists>fs'. WriteFileAtomic m path body fs = (Ok (), fs') \<and> map_of fs' path = Some body \<and>
          (\<forall>q. q \<noteq> path \<longrightarrow> q \<noteq> ?tmp \<longrightarrow> map_of fs' q = map_of fs q))"
    using assms unfolding WriteFileAtomic_def Let_def
    by (cases "me_mkdir m (path_dir path)"; cases "me_create m ?tmp"; cases "me_write m ?tmp"; cases "me_close m ?tmp";
        cases "me_chmod m ?tmp"; cases "me_rename m ?tmp"; cases "me_remove m ?tmp")
      (auto simp: steps update_conv' delete_conv')
  then show ?thesis using that by blast
qed

definition merged_text :: "(string \<times> string) list \<Rightarrow> string \<Rightarrow> string \<Rightarrow> Files \<Rightarrow> string" where
  \<comment> \<open>the overrides of a file merged into the text the server has\<close>
  "merged_text overrides g name fs =
     fst (Merge (ParseConfigFile name (mget fs (path_join g name) '''')) (ParseOverrideSet (mget overrides name '''')))"

definition settled :: "(string \<times> string) list \<Rightarrow> string \<Rightarrow> Files \<Rightarrow> Files \<Rightarrow> FileResult \<Rightarrow> bool" where
  \<comment> \<open>the file of a result is as the result says\<close>
  "settled overrides g fs fs' r \<longleftrightarrow>
     (let p = path_join g (fr_Name r); merged = merged_text overrides g (fr_Name r) fs
      in if fr_Changed r then map_of fs' p = Some merged \<and> fr_Err r = None
         else map_of fs' p = map_of fs p \<and> (fr_Err r = None \<longrightarrow> fr_Skipped r \<or> mget fs p '''' = merged))"

lemma merge_file_run:
  assumes "temp_name m (path_join g name) \<noteq> path_join g name"
  shows "\<exists>r fs'. merge_file m g g name (mget overrides name '''') fs = (Ok r, fs') \<and> fr_Name r = name \<and> settled overrides g fs fs' r \<and>
    (\<forall>q. q \<noteq> path_join g name \<longrightarrow> q \<noteq> temp_name m (path_join g name) \<longrightarrow> map_of fs' q = map_of fs q)"
proof -
  let ?p = "path_join g name" and ?ovs = "ParseOverrideSet (mget overrides name '''')"
  let ?cur = "mget fs ?p ''''"
  obtain merged report where m: "Merge (ParseConfigFile name ?cur) ?ovs = (merged, report)" by force
  show ?thesis
  proof (cases "OverrideSet_Len ?ovs = 0 \<or> me_read m ?p \<noteq> None \<or> merged = ?cur")
    case True
    then have "\<exists>r. merge_file m g g name (mget overrides name '''') fs = (Ok r, fs) \<and> fr_Name r = name \<and> \<not> fr_Changed r \<and>
        (fr_Err r = None \<longrightarrow> fr_Skipped r \<or> merged = ?cur)"
      by (cases "me_read m ?p") (auto simp: merge_file_def Let_def m ret_def bindo_def gets_def)
    then obtain r where r: "merge_file m g g name (mget overrides name '''') fs = (Ok r, fs)" "fr_Name r = name" "\<not> fr_Changed r"
        "fr_Err r = None \<longrightarrow> fr_Skipped r \<or> merged = ?cur" by (elim exE conjE) (rule that)
    have "settled overrides g fs fs r" using r(3,4) by (auto simp: settled_def merged_text_def r(2) m)
    then show ?thesis using r(1,2) by blast
  next
    case False
    then have run: "merge_file m g g name (mget overrides name '''') fs =
        bindo (attempt (WriteFileAtomic m ?p merged)) (\<lambda>r. ret (case r of
            Inl e \<Rightarrow> \<lparr>fr_Name = name, fr_Changed = False, fr_Skipped = False, fr_Report = report, fr_Err = None\<rparr>\<lparr>fr_Err := Some e\<rparr>
          | Inr _ \<Rightarrow> \<lparr>fr_Name = name, fr_Changed = False, fr_Skipped = False, fr_Report = report, fr_Err = None\<rparr>\<lparr>fr_Changed := True\<rparr>)) fs"
      by (simp add: merge_file_def Let_def bindo_def [of "gets _"] gets_def m)
    show ?thesis
      by (rule WriteFileAtomic_run [OF assms, of merged fs])
        (simp_all add: run settled_def merged_text_def m bindo_def attempt_def ret_def)
  qed
qed

lemma merge_files_run:
  assumes "distinct names" and "inj_on (path_join g) (set names)"
    and "\<forall>a\<in>set names. \<forall>b\<in>set names. temp_name m (path_join g a) \<noteq> path_join g b"
  shows "\<exists>rs fs'. mapO (\<lambda>name. merge_file m g g name (mget overrides name '''')) names fs = (Ok rs, fs') \<and> map fr_Name rs = names \<and>
    (\<forall>r\<in>set rs. settled overrides g fs fs' r) \<and>
    (\<forall>q. q \<notin> path_join g ` set names \<longrightarrow> q \<notin> (\<lambda>n. temp_name m (path_join g n)) ` set names \<longrightarrow> map_of fs' q = map_of fs q)"
  using assms
proof (induction names arbitrary: fs)
  case Nil
  then show ?case by (simp add: ret_def)
next
  case (Cons name names)
  obtain r fs1 where r: "merge_file m g g name (mget overrides name '''') fs = (Ok r, fs1)" "fr_Name r = name" "settled overrides g fs fs1 r"
      "\<And>q. q \<noteq> path_join g name \<Longrightarrow> q \<noteq> temp_name m (path_join g name) \<Longrightarrow> map_of fs1 q = map_of fs q"
    using merge_file_run [of m g name overrides fs] Cons.prems(3) by auto
  obtain rs fs' where rs: "mapO (\<lambda>name. merge_file m g g name (mget overrides name '''')) names fs1 = (Ok rs, fs')" "map fr_Name rs = names"
      "\<forall>r\<in>set rs. settled overrides g fs1 fs' r"
      "\<And>q. q \<notin> path_join g ` set names \<Longrightarrow> q \<notin> (\<lambda>n. temp_name m (path_join g n)) ` set names \<Longrightarrow> map_of fs' q = map_of fs1 q"
    using Cons.IH [of fs1] Cons.prems by (auto simp: inj_on_def)
  have apart: "path_join g b \<noteq> path_join g name" "path_join g b \<noteq> temp_name m (path_join g name)"
      "path_join g name \<noteq> temp_name m (path_join g b)" if "b \<in> set names" for b
  proof -
    show "path_join g b \<noteq> path_join g name"
      using inj_on_eq_iff [OF Cons.prems(2), of b name] Cons.prems(1) that by auto
    show "path_join g b \<noteq> temp_name m (path_join g name)" "path_join g name \<noteq> temp_name m (path_join g b)"
      using Cons.prems(3) that by (metis list.set_intros)+
  qed
  have later: "settled overrides g fs fs' x" if "x \<in> set rs" for x
  proof -
    have "fr_Name x \<in> set names" using rs(2) that by auto
    then have "map_of fs1 (path_join g (fr_Name x)) = map_of fs (path_join g (fr_Name x))" using r(4) apart by blast
    moreover from this have "merged_text overrides g (fr_Name x) fs1 = merged_text overrides g (fr_Name x) fs"
      unfolding merged_text_def by (metis mget_cong)
    ultimately show ?thesis using rs(3) that by (auto simp: settled_def Let_def mget_def)
  qed
  have "map_of fs' (path_join g name) = map_of fs1 (path_join g name)"
    by (intro rs(4)) (metis imageE apart(1), metis imageE apart(3))
  then have first: "settled overrides g fs fs' r" using r(2,3) by (simp add: settled_def Let_def)
  have "mapO (\<lambda>name. merge_file m g g name (mget overrides name '''')) (name # names) fs = (Ok (r # rs), fs')"
    using r(1) rs(1) by (simp add: bindo_def ret_def)
  moreover have "map_of fs' q = map_of fs q"
    if "q \<notin> path_join g ` set (name # names)" "q \<notin> (\<lambda>n. temp_name m (path_join g n)) ` set (name # names)" for q
    using rs(4) [of q] r(4) [of q] that by simp
  moreover have "map fr_Name (r # rs) = name # names" "\<forall>x\<in>set (r # rs). settled overrides g fs fs' x"
    using r(2) rs(2) later first by simp_all
  ultimately show ?case by (intro exI [of _ "r # rs"] exI [of _ fs'] conjI allI impI)
qed

text \<open>C21: The files of a server are merged one by one and whole: each file that has overrides ends up exactly as its result
  says, holding the merge of the overrides into the text it had, or its old text when nothing differs or a step failed,
  never part of it. No other file changes, leftover temporary files apart, and every file gets its result.\<close>
theorem merges_whole_files:
  assumes "distinct (map fst overrides)" and "inj_on (path_join g) (fst ` set overrides)"
    and "\<forall>a\<in>fst ` set overrides. \<forall>b\<in>fst ` set overrides. temp_name m (path_join g a) \<noteq> path_join g b"
  shows "\<exists>rs fs'. MergeDir m g '''' overrides fs = (Ok rs, fs') \<and> map fr_Name rs = sort (map fst overrides) \<and>
    (\<forall>r\<in>set rs. settled overrides g fs fs' r) \<and>
    (\<forall>q. q \<notin> path_join g ` fst ` set overrides \<longrightarrow> q \<notin> (\<lambda>n. temp_name m (path_join g n)) ` fst ` set overrides \<longrightarrow>
      map_of fs' q = map_of fs q)"
  using merge_files_run [of "sort (map fst overrides)" g m overrides fs] assms
  by (simp add: MergeDir_def image_image)

definition sample_merge_env :: MergeEnv where
  "sample_merge_env = \<lparr>me_read = (\<lambda>_. None), me_mkdir = (\<lambda>_. None), me_create = (\<lambda>_. None), me_write = (\<lambda>_. None),
     me_close = (\<lambda>_. None), me_chmod = (\<lambda>_. None), me_rename = (\<lambda>_. None), me_remove = (\<lambda>_. None), me_partial = (\<lambda>_. ''''),
     me_random = (\<lambda>_. ''7'')\<rparr>"

theorem merges_whole_files_witness:
  "\<exists>r fs'. MergeDir sample_merge_env ''/c'' '''' [(''j.cfg'', ''[Server]'' @ [NL] @ ''Max players = 20'')]
      [(''/c/j.cfg'', sample_config), (''/c/k.cfg'', ''x'')] = (Ok [r], fs') \<and> map_of fs' ''/c/k.cfg'' = Some ''x''"
proof -
  let ?o = "[(''j.cfg'', ''[Server]'' @ [NL] @ ''Max players = 20'')]"
  have p: "path_join ''/c'' ''j.cfg'' = ''/c/j.cfg''" "temp_name sample_merge_env ''/c/j.cfg'' = ''/c/.agrelha-merge-7''" by code_simp+
  have "\<exists>rs fs'. MergeDir sample_merge_env ''/c'' '''' ?o [(''/c/j.cfg'', sample_config), (''/c/k.cfg'', ''x'')] = (Ok rs, fs') \<and>
      map fr_Name rs = [''j.cfg''] \<and> map_of fs' ''/c/k.cfg'' = Some ''x''"
    using merges_whole_files [of ?o "''/c''" sample_merge_env "[(''/c/j.cfg'', sample_config), (''/c/k.cfg'', ''x'')]"]
    by (auto simp: p)
  then show ?thesis by (auto simp: map_eq_Cons_conv)
qed

end
