(* ===== verification/Spec2Isabelle.thy ===== *)
theory Spec2Isabelle
  imports
    Prelude GoStrings Games Packs Instances Budgets Accounts Mods
    Bepinex BepinexProofs BepinexMerge
    Restarts Occupancy StateStore ModLists ModListProofs Access
    SqlStore Requests Capacity Authz
    Ops Ports Incidents
    InstanceTables Manager Lifecycle Frames LifecycleProofs
    ManagerMods ManagerModsProofs ManagerBackups ManagerBackupsProofs
    ModUpdates ModUpdatesProofs Rcon RconProofs Thunderstore ThunderstoreProofs
    Paths Yaml LocalStore LocalStoreProofs GitStore GitStoreProofs
    Presence Ingest IngestProofs Schedules SchedulesProofs
    BepinexService BepinexFiles BepinexServiceProofs
begin

text \<open>agrelha, a control panel for dedicated game servers.\<close>

end
